(* ===== verification/Prelude.thy ===== *)
theory Prelude
  imports Main "HOL-Library.Monad_Syntax"
begin

text \<open>
  Shared vocabulary of the development: assertion checks as an option monad, vectors addressed
  by signed C++ indices, index searches (the \<open>for\<close> loops that return \<open>-1\<close> when nothing is
  found), and the collections of rewrite rules that the component theories extend.

  A \<open>CHECK\<close> or \<open>DCHECK\<close> that fails stops the program; a computation that contains one has an
  \<open>option\<close> result, and \<^const>\<open>None\<close> is the stop. A pointer is an \<open>option\<close> of an object
  identity, and \<^const>\<open>None\<close> is \<open>nullptr\<close> (or \<open>nil\<close>).
\<close>

named_theorems op_defs \<open>definitions of the operations of a component\<close>
named_theorems query_defs \<open>definitions of the side-effect free queries of a component\<close>
named_theorems spec_defs \<open>definitions of the abstract specifications\<close>

section \<open>Checks\<close>

definition check :: "bool \<Rightarrow> unit option" where
  "check b = (if b then Some () else None)"

lemma check_eq_Some [simp]: "check b = Some u \<longleftrightarrow> b"
  by (simp add: check_def)

lemma check_eq_None [simp]: "check b = None \<longleftrightarrow> \<not> b"
  by (simp add: check_def)

lemma check_True [simp]: "check True = Some ()"
  by (simp add: check_def)

lemma check_False [simp]: "check False = None"
  by (simp add: check_def)

lemma bind_check: "Option.bind (check b) f = (if b then f () else None)"
  by (simp add: check_def)

lemma bind_check_Some [simp]: "b \<Longrightarrow> Option.bind (check b) f = f ()"
  by (simp add: check_def)

lemma bind_if: "Option.bind (if b then x else y) f = (if b then Option.bind x f else Option.bind y f)"
  by simp

lemma bind_SomeE:
  assumes "Option.bind x f = Some y"
  obtains z where "x = Some z" "f z = Some y"
  using assms by (auto simp: bind_eq_Some_conv)

lemma check_SomeE:
  assumes "Option.bind (check b) f = Some y"
  obtains "b" "f () = Some y"
  using assms by (auto simp: bind_check split: if_splits)

section \<open>The largest value of a 32-bit \<open>int\<close>\<close>

definition INT_MAX :: int where
  "INT_MAX = 2147483647"

lemma INT_MAX_pos [simp]: "0 < INT_MAX" "1 \<le> INT_MAX" "INT_MAX \<noteq> 0" "- 1 \<noteq> INT_MAX" "INT_MAX \<noteq> - 1"
  by (simp_all add: INT_MAX_def)

section \<open>Vectors\<close>

definition insert_at :: "nat \<Rightarrow> 'a \<Rightarrow> 'a list \<Rightarrow> 'a list" where
  "insert_at i x xs = take i xs @ x # drop i xs"

definition remove_at :: "nat \<Rightarrow> 'a list \<Rightarrow> 'a list" where
  "remove_at i xs = take i xs @ drop (Suc i) xs"

definition in_range :: "int \<Rightarrow> 'a list \<Rightarrow> bool" where
  "in_range i xs \<longleftrightarrow> 0 \<le> i \<and> i < int (length xs)"

definition elem_at :: "'a list \<Rightarrow> int \<Rightarrow> 'a option" where
  "elem_at xs i = (if in_range i xs then Some (xs ! nat i) else None)"

lemma elem_at_in_range: "in_range i xs \<Longrightarrow> elem_at xs i = Some (xs ! nat i)"
  by (simp add: elem_at_def)

lemma elem_at_eq_Some_iff: "elem_at xs i = Some x \<longleftrightarrow> in_range i xs \<and> xs ! nat i = x"
  by (auto simp: elem_at_def)

lemma in_range_nat: "in_range i xs \<Longrightarrow> nat i < length xs"
  by (simp add: in_range_def) linarith

lemma in_range_map [simp]: "in_range i (map f xs) \<longleftrightarrow> in_range i xs"
  by (simp add: in_range_def)

lemma in_range_list_update [simp]: "in_range i (xs[j := x]) \<longleftrightarrow> in_range i xs"
  by (simp add: in_range_def)

lemma nth_nat_mem [intro]: "in_range i xs \<Longrightarrow> xs ! nat i \<in> set xs"
  by (rule nth_mem) (rule in_range_nat)

lemma elem_at_mem: "elem_at xs i = Some x \<Longrightarrow> x \<in> set xs"
  by (auto simp: elem_at_eq_Some_iff)

lemma length_insert_at [simp]: "length (insert_at i x xs) = Suc (length xs)"
  by (simp add: insert_at_def)

lemma length_remove_at [simp]: "i < length xs \<Longrightarrow> length (remove_at i xs) = length xs - 1"
  by (simp add: remove_at_def)

lemma set_insert_at [simp]: "set (insert_at i x xs) = insert x (set xs)"
proof -
  have "set xs = set (take i xs) \<union> set (drop i xs)"
    by (metis append_take_drop_id set_append)
  then show ?thesis by (auto simp: insert_at_def)
qed

lemma map_insert_at: "map f (insert_at i x xs) = insert_at i (f x) (map f xs)"
  by (simp add: insert_at_def take_map drop_map)

lemma map_remove_at: "map f (remove_at i xs) = remove_at i (map f xs)"
  by (simp add: remove_at_def take_map drop_map)

lemma distinct_insert_at [simp]: "distinct (insert_at i x xs) \<longleftrightarrow> distinct xs \<and> x \<notin> set xs"
proof -
  have "distinct (ys @ x # zs) \<longleftrightarrow> distinct (x # ys @ zs)" for ys zs
    by auto
  then show ?thesis
    by (metis append_take_drop_id distinct.simps(2) insert_at_def)
qed

lemma set_remove_at_subset: "set (remove_at i xs) \<subseteq> set xs"
  by (auto simp: remove_at_def dest: in_set_takeD in_set_dropD)

lemma remove_at_split:
  assumes "i < length xs"
  shows "xs = take i xs @ xs ! i # drop (Suc i) xs"
  using assms by (rule id_take_nth_drop)

lemma set_remove_at:
  assumes "distinct xs" "i < length xs"
  shows "set (remove_at i xs) = set xs - {xs ! i}"
proof -
  have d: "distinct (take i xs @ xs ! i # drop (Suc i) xs)"
    using assms(1) remove_at_split [OF assms(2)] by simp
  have "set xs = set (take i xs) \<union> {xs ! i} \<union> set (drop (Suc i) xs)"
    by (subst remove_at_split [OF assms(2)]) simp
  then show ?thesis using d by (auto simp: remove_at_def)
qed

lemma distinct_remove_at [simp]: "distinct xs \<Longrightarrow> distinct (remove_at i xs)"
  by (cases "i < length xs")
     (auto simp: remove_at_def set_take_disj_set_drop_if_distinct)

lemma nth_insert_at:
  "i \<le> length xs \<Longrightarrow> j \<le> length xs \<Longrightarrow>
   insert_at i x xs ! j = (if j < i then xs ! j else if j = i then x else xs ! (j - 1))"
  by (auto simp: insert_at_def nth_append min_def nth_Cons' )

lemma nth_remove_at:
  "i < length xs \<Longrightarrow> j < length xs - 1 \<Longrightarrow>
   remove_at i xs ! j = (if j < i then xs ! j else xs ! Suc j)"
  by (auto simp: remove_at_def nth_append min_def)

lemma remove_at_insert_at [simp]: "i \<le> length xs \<Longrightarrow> remove_at i (insert_at i x xs) = xs"
  by (simp add: remove_at_def insert_at_def min_def)

lemma insert_at_remove_at: "i < length xs \<Longrightarrow> insert_at i (xs ! i) (remove_at i xs) = xs"
  by (simp add: remove_at_def insert_at_def min_def Cons_nth_drop_Suc)

lemma insert_at_update [simp]: "i \<le> length xs \<Longrightarrow> (insert_at i x xs)[i := y] = insert_at i y xs"
  by (simp add: insert_at_def list_update_append min_def)

lemma nth_insert_at_same [simp]: "i \<le> length xs \<Longrightarrow> insert_at i x xs ! i = x"
  by (simp add: nth_insert_at)

lemma remove_at_last [simp]: "xs \<noteq> [] \<Longrightarrow> remove_at (length xs - 1) xs = butlast xs"
  by (simp add: remove_at_def butlast_conv_take)

section \<open>Index searches\<close>

text \<open>
  \<open>find_index P xs\<close> is the loop \<open>for (index = 0; index < n; ++index) if (P(xs[index])) return
  index; return -1;\<close>. The accumulator is the running index.
\<close>

fun find_index_from :: "('a \<Rightarrow> bool) \<Rightarrow> 'a list \<Rightarrow> int \<Rightarrow> int" where
  "find_index_from P [] i = - 1"
| "find_index_from P (x # xs) i = (if P x then i else find_index_from P xs (i + 1))"

definition find_index :: "('a \<Rightarrow> bool) \<Rightarrow> 'a list \<Rightarrow> int" where
  "find_index P xs = find_index_from P xs 0"

lemma find_index_from_none: "0 \<le> i \<Longrightarrow> find_index_from P xs i = - 1 \<longleftrightarrow> (\<forall>x\<in>set xs. \<not> P x)"
  by (induction xs arbitrary: i) auto

lemma find_index_from_some:
  "0 \<le> i \<Longrightarrow> find_index_from P xs i \<noteq> - 1 \<Longrightarrow>
   (\<exists>k. k < length xs \<and> find_index_from P xs i = i + int k \<and> P (xs ! k) \<and> (\<forall>j<k. \<not> P (xs ! j)))"
proof (induction xs arbitrary: i)
  case Nil
  then show ?case by simp
next
  case (Cons x xs)
  show ?case
  proof (cases "P x")
    case True
    then show ?thesis by (intro exI [of _ 0]) simp
  next
    case False
    with Cons.prems Cons.IH [of "i + 1"] obtain k where
      k: "k < length xs" "find_index_from P xs (i + 1) = i + 1 + int k" "P (xs ! k)"
         "\<forall>j<k. \<not> P (xs ! j)" by auto
    with False show ?thesis
      by (intro exI [of _ "Suc k"]) (auto simp: nth_Cons' less_Suc_eq_0_disj)
  qed
qed

lemma find_index_none: "find_index P xs = - 1 \<longleftrightarrow> (\<forall>x\<in>set xs. \<not> P x)"
  by (simp add: find_index_def find_index_from_none)

lemma find_index_some:
  assumes "find_index P xs \<noteq> - 1"
  shows "in_range (find_index P xs) xs" "P (xs ! nat (find_index P xs))"
    "\<And>j. j < nat (find_index P xs) \<Longrightarrow> \<not> P (xs ! j)"
  using find_index_from_some [of 0 P xs] assms
  by (auto simp: find_index_def in_range_def)

lemma find_index_cases:
  obtains (none) "find_index P xs = - 1" "\<And>x. x \<in> set xs \<Longrightarrow> \<not> P x"
  | (some) "in_range (find_index P xs) xs" "P (xs ! nat (find_index P xs))"
           "\<And>j. j < nat (find_index P xs) \<Longrightarrow> \<not> P (xs ! j)"
  using find_index_some find_index_none by metis

lemma find_index_ge: "- 1 \<le> find_index P xs"
  by (cases rule: find_index_cases [of P xs]) (auto simp: in_range_def)

lemma find_index_eqI:
  assumes "k < length xs" "P (xs ! k)" "\<And>j. j < k \<Longrightarrow> \<not> P (xs ! j)"
  shows "find_index P xs = int k"
proof (cases rule: find_index_cases [of P xs])
  case none
  with assms(1,2) show ?thesis by auto
next
  case some
  have "\<not> nat (find_index P xs) < k" using some(2) assms(3) by blast
  moreover have "\<not> k < nat (find_index P xs)" using some(3) assms(2) by blast
  ultimately have "nat (find_index P xs) = k" by simp
  then show ?thesis using some(1) by (auto simp: in_range_def)
qed

lemma find_index_distinct:
  assumes "distinct xs" "k < length xs"
  shows "find_index (\<lambda>y. y = xs ! k) xs = int k"
  using assms by (intro find_index_eqI) (auto simp: nth_eq_iff_index_eq)

section \<open>Coding\<close>

text \<open>
  The interface behind \<open>NSCoding\<close> and the other stored forms: what is written by \<open>encode\<close> is read
  back by \<open>decode\<close>, for the values that can be stored. Decoding may fail on anything else.
\<close>

locale nscoding =
  fixes encode :: "'a \<Rightarrow> 'b" and decode :: "'b \<Rightarrow> 'a option" and storable :: "'a \<Rightarrow> bool"
  assumes decode_encode: "storable x \<Longrightarrow> decode (encode x) = Some x"
begin

lemma encode_inj: "storable x \<Longrightarrow> storable y \<Longrightarrow> encode x = encode y \<Longrightarrow> x = y"
  using decode_encode by (metis option.inject)

lemma decode_array: "(\<And>x. x \<in> set xs \<Longrightarrow> storable x) \<Longrightarrow> those (map (decode \<circ> encode) xs) = Some xs"
  by (induction xs) (simp_all add: decode_encode)

lemma array_round_trip: "(\<And>x. x \<in> set xs \<Longrightarrow> storable x) \<Longrightarrow> those (map decode (map encode xs)) = Some xs"
  using decode_array by (simp add: comp_def)

end

end
