(* ===== verification/Wk_Navigation_Util.thy ===== *)
theory Wk_Navigation_Util
  imports Prelude
begin

text \<open>
  \<open>web/navigation/wk_navigation_util.mm\<close>: the internal URLs with which the navigation manager
  drives a \<open>WKWebView\<close>: placeholder URLs, redirect URLs and the URL that restores a session.
  \<open>GURL\<close>, \<open>net::\<close> URL helpers, the JSON writer, the resource bundle and the \<open>WebClient\<close> are
  outside the repository or virtual; they are the fields of the record \<open>gurl_lib\<close>, an argument of
  every definition.
\<close>

section \<open>The URL library\<close>

record 'u gurl_lib =
  spec :: "'u \<Rightarrow> string"
  parse :: "string \<Rightarrow> 'u"
  is_valid :: "'u \<Rightarrow> bool"
  empty_gurl :: 'u
  scheme_is :: "string \<Rightarrow> 'u \<Rightarrow> bool"
  url_path :: "'u \<Rightarrow> string"
  url_query :: "'u \<Rightarrow> string"
  url_ref :: "'u \<Rightarrow> string"
  is_about_blank :: "'u \<Rightarrow> bool"
  replace_scheme_path :: "string \<Rightarrow> string \<Rightarrow> 'u \<Rightarrow> 'u"
  replace_ref :: "string \<Rightarrow> 'u \<Rightarrow> 'u"
  append_query_parameter :: "'u \<Rightarrow> string \<Rightarrow> string \<Rightarrow> 'u"
  get_value_for_key_in_query :: "'u \<Rightarrow> string \<Rightarrow> string option"
  escape_query_param_value :: "string \<Rightarrow> string"
  unescape_url_component :: "string \<Rightarrow> string"
  write_json :: "int \<Rightarrow> string list \<Rightarrow> string list \<Rightarrow> string"
  restore_session_resource_path :: string
  is_app_specific_url :: "'u \<Rightarrow> bool"

definition kFileScheme :: string where "kFileScheme = ''file''"
definition kAboutScheme :: string where "kAboutScheme = ''about''"
definition kAboutBlankURL :: string where "kAboutBlankURL = ''about:blank''"

section \<open>Operations\<close>

definition kMaxSessionSize :: int where "kMaxSessionSize = 75"

definition kRestoreSessionSessionHashPrefix :: string where
  "kRestoreSessionSessionHashPrefix = ''session=''"

definition kRestoreSessionTargetUrlHashPrefix :: string where
  "kRestoreSessionTargetUrlHashPrefix = ''targetUrl=''"

definition kOriginalUrlKey :: string where "kOriginalUrlKey = ''for''"

definition starts_with :: "string \<Rightarrow> string \<Rightarrow> bool" where
  "starts_with s prefix \<longleftrightarrow> take (length prefix) s = prefix"

text \<open>\<open>GetSafeItemIterators\<close>: the iterators \<open>begin\<close> and \<open>end\<close> as offsets into the vector.\<close>

definition GetSafeItemIterators :: "int \<Rightarrow> int \<Rightarrow> int \<times> int" where
  "GetSafeItemIterators last_committed_item_index n =
     (if n \<le> kMaxSessionSize then (0, n)
      else if last_committed_item_index < kMaxSessionSize div 2 then (0, kMaxSessionSize)
      else if n - last_committed_item_index < kMaxSessionSize div 2
        then (n - kMaxSessionSize, n)
      else (last_committed_item_index - kMaxSessionSize div 2,
            last_committed_item_index + kMaxSessionSize div 2 + 1))"

definition IsPlaceholderUrl :: "'u gurl_lib \<Rightarrow> 'u \<Rightarrow> bool" where
  "IsPlaceholderUrl L url \<longleftrightarrow> is_about_blank L url \<and> starts_with (url_query L url) kOriginalUrlKey"

definition GetRestoreSessionBaseUrl :: "'u gurl_lib \<Rightarrow> 'u" where
  "GetRestoreSessionBaseUrl L =
     replace_scheme_path L kFileScheme (restore_session_resource_path L) (parse L kAboutBlankURL)"

definition IsRestoreSessionUrl :: "'u gurl_lib \<Rightarrow> 'u \<Rightarrow> bool" where
  "IsRestoreSessionUrl L url \<longleftrightarrow>
     scheme_is L kFileScheme url \<and> url_path L url = url_path L (GetRestoreSessionBaseUrl L)"

definition IsWKInternalUrl :: "'u gurl_lib \<Rightarrow> 'u \<Rightarrow> bool" where
  "IsWKInternalUrl L url \<longleftrightarrow> IsPlaceholderUrl L url \<or> IsRestoreSessionUrl L url"

definition CreatePlaceholderUrlForUrl :: "'u gurl_lib \<Rightarrow> 'u \<Rightarrow> 'u option" where
  "CreatePlaceholderUrlForUrl L original_url =
     (if \<not> is_valid L original_url then Some (empty_gurl L)
      else do {
        let placeholder_url =
          append_query_parameter L (parse L kAboutBlankURL) kOriginalUrlKey (spec L original_url);
        check (is_valid L placeholder_url);
        Some placeholder_url })"

definition ExtractUrlFromPlaceholderUrl :: "'u gurl_lib \<Rightarrow> 'u \<Rightarrow> 'u" where
  "ExtractUrlFromPlaceholderUrl L url =
     (if IsPlaceholderUrl L url then
        (case get_value_for_key_in_query L url kOriginalUrlKey of
           Some value \<Rightarrow>
             (let decoded_url = parse L value in
              if is_valid L decoded_url then decoded_url else empty_gurl L)
         | None \<Rightarrow> empty_gurl L)
      else empty_gurl L)"

definition URLNeedsUserAgentType :: "'u gurl_lib \<Rightarrow> 'u \<Rightarrow> bool" where
  "URLNeedsUserAgentType L url =
     (if is_app_specific_url L url then False
      else if scheme_is L kAboutScheme url \<and> IsPlaceholderUrl L url
        then \<not> is_app_specific_url L (ExtractUrlFromPlaceholderUrl L url)
      else if scheme_is L kAboutScheme url then False
      else if scheme_is L kFileScheme url \<and> IsRestoreSessionUrl L url then True
      else if scheme_is L kFileScheme url then False
      else True)"

definition CreateRedirectUrl :: "'u gurl_lib \<Rightarrow> 'u \<Rightarrow> 'u" where
  "CreateRedirectUrl L target_url =
     replace_ref L (kRestoreSessionTargetUrlHashPrefix @ escape_query_param_value L (spec L target_url))
       (GetRestoreSessionBaseUrl L)"

text \<open>
  \<open>ExtractTargetURL\<close> stops on a URL that is not a restore-session URL; its result is the written
  \<open>target_url\<close>, or \<^const>\<open>None\<close> when it returns \<open>false\<close>.
\<close>

definition ExtractTargetURL :: "'u gurl_lib \<Rightarrow> 'u \<Rightarrow> 'u option option" where
  "ExtractTargetURL L restore_session_url = do {
     check (IsRestoreSessionUrl L restore_session_url);
     let ref = url_ref L restore_session_url;
     Some (if starts_with ref kRestoreSessionTargetUrlHashPrefix
           then Some (parse L (unescape_url_component L
                  (drop (length kRestoreSessionTargetUrlHashPrefix) ref)))
           else None) }"

definition restored_url :: "'u gurl_lib \<Rightarrow> 'u \<Rightarrow> 'u option" where
  "restored_url L original_url =
     (if is_app_specific_url L original_url then CreatePlaceholderUrlForUrl L original_url
      else Some original_url)"

text \<open>The loop of \<open>CreateRestoreSessionUrl\<close>; reading past the end of the vector stops it.\<close>

fun restore_lists ::
  "'u gurl_lib \<Rightarrow> ('u \<times> string) list \<Rightarrow> int list \<Rightarrow> (string list \<times> string list) option" where
  "restore_lists L items [] = Some ([], [])"
| "restore_lists L items (i # is) = do {
     (url, title) \<leftarrow> elem_at items i;
     r \<leftarrow> restored_url L url;
     (urls, titles) \<leftarrow> restore_lists L items is;
     Some (spec L r # urls, title # titles) }"

text \<open>The dictionary \<open>session\<close> that is written as JSON: offset, URLs, titles.\<close>

definition restore_session ::
  "'u gurl_lib \<Rightarrow> int \<Rightarrow> ('u \<times> string) list \<Rightarrow> (int \<times> string list \<times> string list) option" where
  "restore_session L last_committed_item_index items = do {
     check (0 \<le> last_committed_item_index \<and> last_committed_item_index < int (length items));
     let (begin', end') = GetSafeItemIterators last_committed_item_index (int (length items));
     let new_size = end' - begin';
     (urls, titles) \<leftarrow> restore_lists L items [begin'..end' - 1];
     let offset = last_committed_item_index + 1 - new_size;
     Some (offset, urls, titles) }"

definition CreateRestoreSessionUrl :: "'u gurl_lib \<Rightarrow> int \<Rightarrow> ('u \<times> string) list \<Rightarrow> 'u option" where
  "CreateRestoreSessionUrl L last_committed_item_index items = do {
     (offset, urls, titles) \<leftarrow> restore_session L last_committed_item_index items;
     let ref = kRestoreSessionSessionHashPrefix @
       escape_query_param_value L (write_json L offset urls titles);
     Some (replace_ref L ref (GetRestoreSessionBaseUrl L)) }"

section \<open>Documented behaviour of the URL library\<close>

text \<open>
  The spec of a valid \<open>GURL\<close> is canonical: printable ASCII, everything else being escaped.
  \<open>EscapeQueryParamValue\<close> without \<open>use_plus\<close> keeps letters, digits and \<open>- _ . ! ~ * ' ( )\<close> and writes any other
  byte as \<open>%XX\<close>; \<open>UnescapeURLComponent\<close> with the three rules the code passes gives back what was escaped
  as long as that is printable ASCII (control characters and some non-ASCII sequences stay escaped).
  \<open>ReplaceComponents\<close> keeps the characters of such an escaped text and \<open>=\<close> in a reference (it escapes spaces,
  quotes, angle brackets, control and non-ASCII characters) and changes neither scheme nor path.
\<close>

definition printable :: "char \<Rightarrow> bool" where
  "printable c \<longleftrightarrow> 32 \<le> (of_char c :: nat) \<and> (of_char c :: nat) < 127"

definition unreserved :: "char \<Rightarrow> bool" where
  "unreserved c \<longleftrightarrow> (let n = (of_char c :: nat) in 48 \<le> n \<and> n \<le> 57 \<or> 65 \<le> n \<and> n \<le> 90 \<or> 97 \<le> n \<and> n \<le> 122) \<or>
     c \<in> set ''-_.!~*'' \<or> c = CHR 39 \<or> c \<in> set ''()''"

definition ref_char :: "char \<Rightarrow> bool" where
  "ref_char c \<longleftrightarrow> unreserved c \<or> c = CHR ''%'' \<or> c = CHR ''=''"

definition ref_lib_ok :: "'u gurl_lib \<Rightarrow> bool" where
  "ref_lib_ok L \<longleftrightarrow>
     (\<forall>v. list_all (\<lambda>c. unreserved c \<or> c = CHR ''%'') (escape_query_param_value L v)) \<and>
     (\<forall>r. list_all ref_char r \<longrightarrow>
          url_ref L (replace_ref L r (GetRestoreSessionBaseUrl L)) = r \<and>
          url_path L (replace_ref L r (GetRestoreSessionBaseUrl L)) = url_path L (GetRestoreSessionBaseUrl L) \<and>
          scheme_is L kFileScheme (replace_ref L r (GetRestoreSessionBaseUrl L)) =
            scheme_is L kFileScheme (GetRestoreSessionBaseUrl L)) \<and>
     scheme_is L kFileScheme (GetRestoreSessionBaseUrl L)"

definition url_lib_ok :: "'u gurl_lib \<Rightarrow> bool" where
  "url_lib_ok L \<longleftrightarrow>
     (\<forall>u. is_valid L u \<longrightarrow> parse L (spec L u) = u \<and> list_all printable (spec L u)) \<and>
     (\<forall>v. list_all printable v \<longrightarrow>
          is_valid L (append_query_parameter L (parse L kAboutBlankURL) kOriginalUrlKey v) \<and>
          is_about_blank L (append_query_parameter L (parse L kAboutBlankURL) kOriginalUrlKey v) \<and>
          starts_with (url_query L (append_query_parameter L (parse L kAboutBlankURL) kOriginalUrlKey v))
            kOriginalUrlKey \<and>
          get_value_for_key_in_query L
            (append_query_parameter L (parse L kAboutBlankURL) kOriginalUrlKey v) kOriginalUrlKey = Some v) \<and>
     (\<forall>v. list_all printable v \<longrightarrow> unescape_url_component L (escape_query_param_value L v) = v) \<and>
     ref_lib_ok L"

lemma url_lib_okD:
  assumes "url_lib_ok L"
  shows "is_valid L u \<Longrightarrow> parse L (spec L u) = u" "is_valid L u \<Longrightarrow> list_all printable (spec L u)"
    "list_all printable v \<Longrightarrow> is_valid L (append_query_parameter L (parse L kAboutBlankURL) kOriginalUrlKey v)"
    "list_all printable v \<Longrightarrow> is_about_blank L (append_query_parameter L (parse L kAboutBlankURL) kOriginalUrlKey v)"
    "list_all printable v \<Longrightarrow>
       starts_with (url_query L (append_query_parameter L (parse L kAboutBlankURL) kOriginalUrlKey v)) kOriginalUrlKey"
    "list_all printable v \<Longrightarrow> get_value_for_key_in_query L
       (append_query_parameter L (parse L kAboutBlankURL) kOriginalUrlKey v) kOriginalUrlKey = Some v"
    "list_all printable v \<Longrightarrow> unescape_url_component L (escape_query_param_value L v) = v" "ref_lib_ok L"
  using assms unfolding url_lib_ok_def by auto

text \<open>The references that the code builds, a prefix and an escaped text, consist of such characters.\<close>

lemma escaped_ref:
  assumes "ref_lib_ok L" "prefix = kRestoreSessionTargetUrlHashPrefix \<or> prefix = kRestoreSessionSessionHashPrefix"
  shows "list_all ref_char (prefix @ escape_query_param_value L v)"
proof -
  have "list_all ref_char prefix"
    using assms(2) by (auto simp: kRestoreSessionTargetUrlHashPrefix_def kRestoreSessionSessionHashPrefix_def
        ref_char_def unreserved_def Let_def)
  moreover have "list_all ref_char (escape_query_param_value L v)"
    using assms(1) by (auto simp: ref_lib_ok_def ref_char_def list_all_iff)
  ultimately show ?thesis by simp
qed

lemma internal_ref_url:
  assumes "ref_lib_ok L" "prefix = kRestoreSessionTargetUrlHashPrefix \<or> prefix = kRestoreSessionSessionHashPrefix"
  shows "IsRestoreSessionUrl L (replace_ref L (prefix @ escape_query_param_value L v) (GetRestoreSessionBaseUrl L))"
    "url_ref L (replace_ref L (prefix @ escape_query_param_value L v) (GetRestoreSessionBaseUrl L)) =
       prefix @ escape_query_param_value L v"
  using assms(1) escaped_ref [OF assms, of v] by (simp_all add: IsRestoreSessionUrl_def ref_lib_ok_def)

text \<open>
  An instance: URLs as scheme, path, query and fragment, with percent escapes. URLs of the scheme \<open>chrome\<close> are
  specific to the application.
\<close>

datatype demo_url = Demo_URL (d_scheme: string) (d_path: string) (d_query: string) (d_ref: string)

definition hex_digit :: "nat \<Rightarrow> char" where
  "hex_digit n = char_of (if n < 10 then 48 + n else 55 + n)"

definition hex_value :: "char \<Rightarrow> nat" where
  "hex_value c = (if (of_char c :: nat) < 58 then of_char c - 48 else of_char c - 55)"

definition demo_escape_char :: "char \<Rightarrow> string" where
  "demo_escape_char c = (if unreserved c then [c]
     else [CHR ''%'', hex_digit (of_char c div 16), hex_digit (of_char c mod 16)])"

definition demo_escape :: "string \<Rightarrow> string" where
  "demo_escape s = concat (map demo_escape_char s)"

fun demo_unescape :: "string \<Rightarrow> string" where
  "demo_unescape [] = []"
| "demo_unescape [c] = [c]"
| "demo_unescape [c, d] = [c, d]"
| "demo_unescape (c # a # b # s) =
     (if c = CHR ''%'' then char_of (16 * hex_value a + hex_value b) # demo_unescape s
      else c # demo_unescape (a # b # s))"

lemma hex_value_digit: "n < 16 \<Longrightarrow> hex_value (hex_digit n) = n"
  by (simp add: hex_value_def hex_digit_def)

lemma demo_unescape_plain: "c \<noteq> CHR ''%'' \<Longrightarrow> demo_unescape (c # s) = c # demo_unescape s"
  by (cases s rule: demo_unescape.cases) auto

lemma unreserved_percent [simp]: "\<not> unreserved CHR ''%''"
  by (simp add: unreserved_def Let_def)

lemma demo_unescape_escape: "demo_unescape (demo_escape s) = s"
proof (induction s)
  case (Cons c s)
  have "(of_char c :: nat) < 256" by (rule nat_of_char_less_256)
  then have "hex_value (hex_digit (of_char c div 16)) = of_char c div 16"
    "hex_value (hex_digit (of_char c mod 16)) = of_char c mod 16"
    by (intro hex_value_digit; simp add: less_mult_imp_div_less)+
  moreover have "unreserved c \<Longrightarrow> c \<noteq> CHR ''%''" by auto
  ultimately show ?case
    using Cons by (cases "unreserved c") (auto simp: demo_escape_def demo_escape_char_def demo_unescape_plain)
qed (simp add: demo_escape_def)

lemma unreserved_hex_digit: "n < 16 \<Longrightarrow> unreserved (hex_digit n)"
  by (simp add: unreserved_def hex_digit_def Let_def)

lemma demo_escape_chars: "list_all (\<lambda>c. unreserved c \<or> c = CHR ''%'') (demo_escape s)"
proof (induction s)
  case (Cons c s)
  have "(of_char c :: nat) < 256" by (rule nat_of_char_less_256)
  then have "unreserved (hex_digit (of_char c div 16))" "unreserved (hex_digit (of_char c mod 16))"
    by (intro unreserved_hex_digit; simp add: less_mult_imp_div_less)+
  with Cons show ?case by (simp add: demo_escape_def demo_escape_char_def)
qed (simp add: demo_escape_def)

lemma unreserved_printable: "unreserved c \<or> c = CHR ''%'' \<Longrightarrow> printable c"
  by (auto simp: unreserved_def printable_def Let_def)

definition demo_parse :: "string \<Rightarrow> demo_url" where
  "demo_parse s = (if starts_with s kAboutBlankURL
     then Demo_URL kAboutScheme ''blank'' (drop (length kAboutBlankURL) s) []
     else if starts_with s ''chrome://'' then Demo_URL ''chrome'' s [] []
     else Demo_URL ''http'' s [] [])"

definition demo_spec :: "demo_url \<Rightarrow> string" where
  "demo_spec u = (if d_scheme u = kAboutScheme then kAboutBlankURL @ d_query u else d_path u)"

definition demo_lib :: "demo_url gurl_lib" where
  "demo_lib = \<lparr>spec = demo_spec,
     parse = demo_parse,
     is_valid = (\<lambda>u. demo_parse (demo_spec u) = u \<and> list_all printable (demo_spec u)),
     empty_gurl = Demo_URL [] [] [] [],
     scheme_is = (\<lambda>s u. d_scheme u = s),
     url_path = d_path, url_query = d_query, url_ref = d_ref,
     is_about_blank = (\<lambda>u. d_scheme u = kAboutScheme),
     replace_scheme_path = (\<lambda>s p u. Demo_URL s p [] []),
     replace_ref = (\<lambda>r u. Demo_URL (d_scheme u) (d_path u) (d_query u) r),
     append_query_parameter = (\<lambda>u k v. Demo_URL (d_scheme u) (d_path u) (k @ ''='' @ demo_escape v) (d_ref u)),
     get_value_for_key_in_query = (\<lambda>u k. Some (demo_unescape (drop (length k + 1) (d_query u)))),
     escape_query_param_value = demo_escape, unescape_url_component = demo_unescape,
     write_json = (\<lambda>i us ts. concat us), restore_session_resource_path = ''/restore_session.html'',
     is_app_specific_url = (\<lambda>u. d_scheme u = ''chrome'')\<rparr>"

lemma starts_with_append [simp]: "starts_with (p @ s) p"
  by (simp add: starts_with_def)

lemma starts_with_self [simp]: "starts_with p p"
  by (simp add: starts_with_def)

lemma demo_lib_ok: "url_lib_ok demo_lib"
proof -
  have b: "parse demo_lib kAboutBlankURL = Demo_URL kAboutScheme ''blank'' [] []"
    by (simp add: demo_lib_def demo_parse_def)
  have p: "list_all printable (demo_escape v)" for v
    using demo_escape_chars by (rule list.pred_mono_strong) (rule unreserved_printable)
  have "list_all printable (kAboutBlankURL @ kOriginalUrlKey @ CHR ''='' # demo_escape v)" for v
    using p by (simp add: kAboutBlankURL_def kOriginalUrlKey_def printable_def)
  then show ?thesis
    unfolding url_lib_ok_def ref_lib_ok_def b
    by (auto simp: demo_lib_def demo_parse_def demo_spec_def demo_unescape_escape demo_escape_chars
        GetRestoreSessionBaseUrl_def kFileScheme_def)
qed

section \<open>Properties\<close>

text \<open>
  C8. The original URL survives in a placeholder URL, and the target survives in a redirect URL:
  for every valid URL, extracting what was encoded gives the URL back, and both are internal URLs. Of the
  URL library it needs that the spec of a valid URL is printable ASCII and parses to that URL, that
  printable ASCII survives escaping and unescaping, and that a reference is kept when it consists of
  characters that need no escaping.
\<close>

theorem internal_url_round_trip:
  assumes "url_lib_ok L" "is_valid L u"
  shows "(\<exists>p. CreatePlaceholderUrlForUrl L u = Some p \<and> IsPlaceholderUrl L p \<and> IsWKInternalUrl L p \<and>
            ExtractUrlFromPlaceholderUrl L p = u) \<and>
    IsWKInternalUrl L (CreateRedirectUrl L u) \<and>
    ExtractTargetURL L (CreateRedirectUrl L u) = Some (Some u)"
proof -
  note ok = url_lib_okD [OF assms(1)]
  note pr = ok(2) [OF assms(2)]
  let ?p = "append_query_parameter L (parse L kAboutBlankURL) kOriginalUrlKey (spec L u)"
  have ph: "IsPlaceholderUrl L ?p" using ok(4,5) [OF pr] by (simp add: IsPlaceholderUrl_def)
  then have "ExtractUrlFromPlaceholderUrl L ?p = u"
    using ok(1) [OF assms(2)] ok(6) [OF pr] assms(2) by (simp add: ExtractUrlFromPlaceholderUrl_def)
  moreover have r: "IsRestoreSessionUrl L (CreateRedirectUrl L u)"
    unfolding CreateRedirectUrl_def by (rule internal_ref_url(1) [OF ok(8)]) simp
  moreover have "ExtractTargetURL L (CreateRedirectUrl L u) = Some (Some u)"
    using r ok(1) [OF assms(2)] ok(7) [OF pr]
      internal_ref_url(2) [OF ok(8), of kRestoreSessionTargetUrlHashPrefix "spec L u"]
    by (simp add: ExtractTargetURL_def CreateRedirectUrl_def)
  ultimately show ?thesis
    using ph ok(3) [OF pr] assms(2) by (simp add: IsWKInternalUrl_def CreatePlaceholderUrlForUrl_def)
qed

theorem internal_url_round_trip_witness:
  "ExtractTargetURL demo_lib (CreateRedirectUrl demo_lib (Demo_URL ''http'' ''a.b/c?x=1&y= '' [] [])) =
     Some (Some (Demo_URL ''http'' ''a.b/c?x=1&y= '' [] [])) \<and>
   url_ref demo_lib (CreateRedirectUrl demo_lib (Demo_URL ''http'' ''a.b/c?x=1&y= '' [] [])) =
     ''targetUrl=a.b%2Fc%3Fx%3D1%26y%3D%20''"
proof -
  have v: "is_valid demo_lib (Demo_URL ''http'' ''a.b/c?x=1&y= '' [] [])"
    by (simp add: demo_lib_def demo_parse_def demo_spec_def kAboutScheme_def kAboutBlankURL_def starts_with_def
        printable_def)
  have "url_ref demo_lib (CreateRedirectUrl demo_lib (Demo_URL ''http'' ''a.b/c?x=1&y= '' [] [])) =
     ''targetUrl=a.b%2Fc%3Fx%3D1%26y%3D%20''"
    by (simp add: CreateRedirectUrl_def demo_lib_def demo_spec_def kAboutScheme_def demo_escape_def
        demo_escape_char_def unreserved_def hex_digit_def kRestoreSessionTargetUrlHashPrefix_def Let_def char_of_def bit_0)
  with internal_url_round_trip [OF demo_lib_ok v] show ?thesis by blast
qed

lemma safe_iterators_bounds:
  assumes "0 \<le> i" "i < n" "GetSafeItemIterators i n = (b, e)"
  shows "0 \<le> b \<and> b \<le> i \<and> i < e \<and> e - b \<le> kMaxSessionSize \<and> (n \<le> kMaxSessionSize \<longrightarrow> b = 0 \<and> e = n) \<and>
    (if kMaxSessionSize < n \<and> kMaxSessionSize div 2 \<le> i \<and> n - i = kMaxSessionSize div 2
     then e = n + 1 else e \<le> n)"
  using assms by (auto simp: GetSafeItemIterators_def kMaxSessionSize_def split: if_splits)

text \<open>
  The range of items kept for session restoration contains the last committed item, has at
  most \<open>kMaxSessionSize\<close> items and is the whole session when that is small enough. It lies inside
  the vector except in one case: a long session whose last committed item has exactly
  \<open>kMaxSessionSize / 2\<close> items from itself to the end, for which \<open>end\<close> is one past \<open>items.end()\<close>.
\<close>

theorem safe_iterators_range:
  assumes "0 \<le> last_committed" "last_committed < n"
  shows "\<exists>b e. GetSafeItemIterators last_committed n = (b, e) \<and>
    0 \<le> b \<and> b \<le> last_committed \<and> last_committed < e \<and> e - b \<le> kMaxSessionSize \<and>
    (n \<le> kMaxSessionSize \<longrightarrow> b = 0 \<and> e = n) \<and>
    (if kMaxSessionSize < n \<and> kMaxSessionSize div 2 \<le> last_committed \<and>
        n - last_committed = kMaxSessionSize div 2 then e = n + 1 else e \<le> n)"
  using safe_iterators_bounds [OF assms] by (metis surj_pair)

theorem safe_iterators_range_witness: "GetSafeItemIterators 63 100 = (26, 101)"
  using safe_iterators_range [of 63 100]
  by (simp add: GetSafeItemIterators_def kMaxSessionSize_def)

lemma restore_lists_ok:
  assumes "\<forall>i\<in>set is. in_range i items" "\<forall>(u, t)\<in>set items. \<exists>r. restored_url L u = Some r"
  shows "\<exists>urls. restore_lists L items is = Some (urls, map (\<lambda>i. snd (items ! nat i)) is) \<and>
    length urls = length is"
  using assms(1)
proof (induction "is")
  case Nil
  then show ?case by simp
next
  case (Cons i "is")
  obtain u t where ut: "items ! nat i = (u, t)" by fastforce
  have "(u, t) \<in> set items" using Cons.prems ut nth_nat_mem [of i items] by auto
  then obtain r where "restored_url L u = Some r" using assms(2) by auto
  with Cons ut show ?case by (auto simp: elem_at_def)
qed

lemma restore_lists_out_of_range:
  "\<exists>i\<in>set is. \<not> in_range i items \<Longrightarrow> restore_lists L items is = None"
  by (induction "is") (auto simp: elem_at_def split: if_splits option.splits prod.splits
      simp: Option.bind_eq_None_conv)

lemma restore_session_result:
  assumes i: "0 \<le> i" "i < int (length items)"
    and it: "\<forall>(u, t)\<in>set items. \<exists>r. restored_url L u = Some r"
    and be: "GetSafeItemIterators i (int (length items)) = (b, e)" "e \<le> int (length items)"
  shows "\<exists>urls. restore_session L i items =
    Some (i + 1 - (e - b), urls, map (\<lambda>k. snd (items ! nat k)) [b..e - 1])"
proof -
  have b: "0 \<le> b" using safe_iterators_bounds [OF i] be(1) by auto
  have "\<forall>k\<in>set [b..e - 1]. in_range k items" using b be(2) by (auto simp: in_range_def)
  then obtain urls where
    "restore_lists L items [b..e - 1] = Some (urls, map (\<lambda>k. snd (items ! nat k)) [b..e - 1])"
    using restore_lists_ok [OF _ it] by blast
  then show ?thesis using i be(1) by (simp add: restore_session_def)
qed

text \<open>
  C9. \<open>CreateRestoreSessionUrl\<close>, called with a valid last committed index, builds a URL for every
  session except in the case of \<open>safe_iterators_range\<close>, in which its loop reads one item past the end of the vector.
\<close>

theorem restore_session_url_defined:
  assumes "0 \<le> i" "i < int (length items)" "\<forall>(u, t)\<in>set items. \<exists>r. restored_url L u = Some r"
  shows "(\<exists>url. CreateRestoreSessionUrl L i items = Some url) \<longleftrightarrow>
    \<not> (kMaxSessionSize < int (length items) \<and> kMaxSessionSize div 2 \<le> i \<and>
       int (length items) - i = kMaxSessionSize div 2)" (is "_ \<longleftrightarrow> \<not> ?bad")
proof -
  obtain b e where be: "GetSafeItemIterators i (int (length items)) = (b, e)" by fastforce
  note r = safe_iterators_bounds [OF assms(1,2), of b e, OF be]
  show ?thesis
  proof (cases ?bad)
    case True
    then have e: "e = int (length items) + 1" "b < e" using r by auto
    then have "int (length items) \<in> set [b..e - 1]" "\<not> in_range (int (length items)) items"
      by (auto simp: in_range_def)
    then have "restore_lists L items [b..e - 1] = None" using restore_lists_out_of_range by blast
    then have "restore_session L i items = None"
      using be assms(1,2) by (simp add: restore_session_def)
    with True show ?thesis by (simp add: CreateRestoreSessionUrl_def)
  next
    case False
    then have "e \<le> int (length items)" using r by auto
    from restore_session_result [OF assms be this] False show ?thesis
      by (auto simp: CreateRestoreSessionUrl_def Let_def)
  qed
qed

theorem restore_session_url_defined_witness:
  "CreateRestoreSessionUrl demo_lib 63 (replicate 100 (Demo_URL ''http'' ''a'' [] [], ''t'')) = None"
proof -
  let ?items = "replicate 100 (Demo_URL ''http'' ''a'' [] [], ''t'')"
  have "\<forall>(u, t)\<in>set ?items. \<exists>r. restored_url demo_lib u = Some r"
    by (simp add: restored_url_def demo_lib_def)
  from restore_session_url_defined [OF _ _ this, of 63] show ?thesis
    by (simp add: kMaxSessionSize_def)
qed

text \<open>
  The offset written into the session restoration URL places the current entry correctly
  only when nothing was trimmed from the front: it equals the position of the last committed item
  relative to the last restored one exactly when the range begins at item 0, and is too large by
  the number of trimmed items otherwise.
\<close>

theorem restore_offset_ignores_trimming:
  assumes "restore_session L last_committed items = Some (offset, urls, titles)"
    and "GetSafeItemIterators last_committed (int (length items)) = (b, e)"
  shows "offset = (last_committed - (e - 1)) + b \<and>
    (offset = last_committed - (e - 1) \<longleftrightarrow> b = 0)"
  using assms by (auto simp: restore_session_def Let_def bind_eq_Some_conv)

theorem restore_offset_ignores_trimming_witness:
  "\<exists>urls titles. restore_session demo_lib 99 (replicate 100 (Demo_URL ''http'' ''a'' [] [], ''t'')) =
     Some (25, urls, titles)"
proof -
  let ?items = "replicate 100 (Demo_URL ''http'' ''a'' [] [], ''t'')"
  have it: "\<forall>(u, t)\<in>set ?items. \<exists>r. restored_url demo_lib u = Some r"
    by (simp add: restored_url_def demo_lib_def)
  have be: "GetSafeItemIterators 99 (int (length ?items)) = (25, 100)"
    by (simp add: GetSafeItemIterators_def kMaxSessionSize_def)
  obtain o' urls titles where r: "restore_session demo_lib 99 ?items = Some (o', urls, titles)"
    using restore_session_result [OF _ _ it be] by auto
  then have "o' = 25" using restore_offset_ignores_trimming [OF r be] by simp
  with r show ?thesis by blast
qed

end
