(* ===== verification/Web_Util.thy ===== *)
theory Web_Util
  imports Wk_Navigation_Util "HOL-Library.Word"
begin

text \<open>
  The small libraries of \<open>web/\<close> on which session history rests: referrers
  (\<open>web/public/referrer.h\<close>, \<open>referrer_util.cc\<close>), user agent types (\<open>user_agent.h\<close>,
  \<open>user_agent.mm\<close>), validity of \<open>pushState\<close> transitions (\<open>web/history_state_util.cc\<close>), URL
  rewriters (\<open>web/browser_url_rewriter_impl.mm\<close>), URL schemes (\<open>url_scheme_util.mm\<close>,
  \<open>url_util.cc\<close>) and the timestamp smoother (\<open>web/navigation/time_smoother.cc\<close>).

  What these files take from outside the repository (\<open>GURL\<close>, the page transition bits of
  \<open>ui/base/page_transition_types.h\<close>, the URL formatter) is the record \<open>web_lib\<close>.
\<close>

section \<open>The libraries the navigation code uses\<close>

type_synonym page_transition = "32 word"

record 'u web_lib =
  gl :: "'u gurl_lib"
  GetOrigin :: "'u \<Rightarrow> 'u"
  GetAsReferrer :: "'u \<Rightarrow> 'u"
  GetContent :: "'u \<Rightarrow> string"
  Resolve :: "'u \<Rightarrow> string \<Rightarrow> 'u"
  EqualsIgnoringRef :: "'u \<Rightarrow> 'u \<Rightarrow> bool"
  SchemeIsCryptographic :: "'u \<Rightarrow> bool"
  has_ref :: "'u \<Rightarrow> bool"
  clear_ref :: "'u \<Rightarrow> 'u"
  is_empty :: "'u \<Rightarrow> bool"
  FormatUrl :: "'u \<Rightarrow> string"
  ElideString :: "string \<Rightarrow> nat \<Rightarrow> string"
  PAGE_TRANSITION_LINK :: page_transition
  PAGE_TRANSITION_RELOAD :: page_transition
  PAGE_TRANSITION_FORM_SUBMIT :: page_transition
  PAGE_TRANSITION_CLIENT_REDIRECT :: page_transition
  PAGE_TRANSITION_FORWARD_BACK :: page_transition
  PAGE_TRANSITION_IS_REDIRECT_MASK :: page_transition
  PageTransitionIsRedirect :: "page_transition \<Rightarrow> bool"
  PageTransitionCoreTypeIs :: "page_transition \<Rightarrow> page_transition \<Rightarrow> bool"
  IsSlimNavigationManagerEnabled :: bool
  browser_url_rewriters :: "('u \<Rightarrow> bool \<times> 'u) list"
  CloneUserData :: "nat \<Rightarrow> nat"

section \<open>Referrers\<close>

datatype referrer_policy =
    ReferrerPolicyAlways | ReferrerPolicyDefault | ReferrerPolicyNoReferrerWhenDowngrade
  | ReferrerPolicyNever | ReferrerPolicyOrigin | ReferrerPolicyOriginWhenCrossOrigin
  | ReferrerPolicySameOrigin | ReferrerPolicyStrictOrigin
  | ReferrerPolicyStrictOriginWhenCrossOrigin

record 'u referrer =
  ref_url :: 'u
  ref_policy :: referrer_policy

definition Referrer :: "'u web_lib \<Rightarrow> 'u referrer" where
  "Referrer W = \<lparr>ref_url = empty_gurl (gl W), ref_policy = ReferrerPolicyDefault\<rparr>"

definition ReferrerHeaderValueForNavigation :: "'u web_lib \<Rightarrow> 'u \<Rightarrow> 'u referrer \<Rightarrow> string" where
  "ReferrerHeaderValueForNavigation W destination referrer =
     (let is_downgrade = SchemeIsCryptographic W (ref_url referrer) \<and>
                         \<not> SchemeIsCryptographic W destination;
          full = spec (gl W) (GetAsReferrer W (ref_url referrer));
          origin = spec (gl W) (GetOrigin W (ref_url referrer));
          cross_origin = GetOrigin W (ref_url referrer) \<noteq> GetOrigin W destination
      in case ref_policy referrer of
           ReferrerPolicyAlways \<Rightarrow> full
         | ReferrerPolicyNever \<Rightarrow> []
         | ReferrerPolicyOrigin \<Rightarrow> origin
         | ReferrerPolicyDefault \<Rightarrow> if is_downgrade then [] else full
         | ReferrerPolicyNoReferrerWhenDowngrade \<Rightarrow> if is_downgrade then [] else full
         | ReferrerPolicyOriginWhenCrossOrigin \<Rightarrow> if cross_origin then origin else full
         | ReferrerPolicySameOrigin \<Rightarrow> if cross_origin then [] else full
         | ReferrerPolicyStrictOrigin \<Rightarrow> if is_downgrade then [] else origin
         | ReferrerPolicyStrictOriginWhenCrossOrigin \<Rightarrow>
             if is_downgrade then [] else if cross_origin then origin else full)"

datatype url_request_policy =
    NEVER_CLEAR_REFERRER | NO_REFERRER | ORIGIN
  | CLEAR_REFERRER_ON_TRANSITION_FROM_SECURE_TO_INSECURE
  | ORIGIN_ONLY_ON_TRANSITION_CROSS_ORIGIN | CLEAR_REFERRER_ON_TRANSITION_CROSS_ORIGIN
  | ORIGIN_CLEAR_ON_TRANSITION_FROM_SECURE_TO_INSECURE
  | REDUCE_REFERRER_GRANULARITY_ON_TRANSITION_CROSS_ORIGIN

definition PolicyForNavigation :: "'u referrer \<Rightarrow> url_request_policy" where
  "PolicyForNavigation referrer =
     (case ref_policy referrer of
        ReferrerPolicyAlways \<Rightarrow> NEVER_CLEAR_REFERRER
      | ReferrerPolicyNever \<Rightarrow> NO_REFERRER
      | ReferrerPolicyOrigin \<Rightarrow> ORIGIN
      | ReferrerPolicyNoReferrerWhenDowngrade \<Rightarrow> CLEAR_REFERRER_ON_TRANSITION_FROM_SECURE_TO_INSECURE
      | ReferrerPolicyDefault \<Rightarrow> CLEAR_REFERRER_ON_TRANSITION_FROM_SECURE_TO_INSECURE
      | ReferrerPolicyOriginWhenCrossOrigin \<Rightarrow> ORIGIN_ONLY_ON_TRANSITION_CROSS_ORIGIN
      | ReferrerPolicySameOrigin \<Rightarrow> CLEAR_REFERRER_ON_TRANSITION_CROSS_ORIGIN
      | ReferrerPolicyStrictOrigin \<Rightarrow> ORIGIN_CLEAR_ON_TRANSITION_FROM_SECURE_TO_INSECURE
      | ReferrerPolicyStrictOriginWhenCrossOrigin \<Rightarrow>
          REDUCE_REFERRER_GRANULARITY_ON_TRANSITION_CROSS_ORIGIN)"

definition ReferrerPolicyFromString :: "string \<Rightarrow> referrer_policy" where
  "ReferrerPolicyFromString policy =
     (if policy = ''never'' \<or> policy = ''no-referrer'' then ReferrerPolicyNever
      else if policy = ''origin'' then ReferrerPolicyOrigin
      else if policy = ''default'' \<or> policy = ''no-referrer-when-downgrade''
        then ReferrerPolicyNoReferrerWhenDowngrade
      else if policy = ''origin-when-cross-origin'' then ReferrerPolicyOriginWhenCrossOrigin
      else if policy = ''always'' \<or> policy = ''unsafe-url'' then ReferrerPolicyAlways
      else if policy = ''same-origin'' then ReferrerPolicySameOrigin
      else if policy = ''strict-origin'' then ReferrerPolicyStrictOrigin
      else if policy = ''strict-origin-when-cross-origin''
        then ReferrerPolicyStrictOriginWhenCrossOrigin
      else ReferrerPolicyDefault)"

section \<open>User agent types\<close>

datatype user_agent_type = UA_NONE | UA_MOBILE | UA_DESKTOP

definition GetUserAgentTypeDescription :: "user_agent_type \<Rightarrow> string" where
  "GetUserAgentTypeDescription type =
     (case type of UA_NONE \<Rightarrow> ''NONE'' | UA_MOBILE \<Rightarrow> ''MOBILE'' | UA_DESKTOP \<Rightarrow> ''DESKTOP'')"

definition GetUserAgentTypeWithDescription :: "string \<Rightarrow> user_agent_type" where
  "GetUserAgentTypeWithDescription description =
     (if description = ''MOBILE'' then UA_MOBILE
      else if description = ''DESKTOP'' then UA_DESKTOP
      else UA_NONE)"

lemma user_agent_description_round_trip [simp]:
  "GetUserAgentTypeWithDescription (GetUserAgentTypeDescription t) = t"
  by (cases t) (simp_all add: GetUserAgentTypeWithDescription_def GetUserAgentTypeDescription_def)

interpretation user_agent_coding: nscoding GetUserAgentTypeDescription
  "\<lambda>s. Some (GetUserAgentTypeWithDescription s)" "\<lambda>t. True"
  by unfold_locales simp

section \<open>URL schemes, history state changes\<close>

definition GURLByRemovingRefFromGURL :: "'u web_lib \<Rightarrow> 'u \<Rightarrow> 'u" where
  "GURLByRemovingRefFromGURL W full_url = (if \<not> has_ref W full_url then full_url else clear_ref W full_url)"

definition UrlHasWebScheme :: "'u web_lib \<Rightarrow> 'u \<Rightarrow> bool" where
  "UrlHasWebScheme W url \<longleftrightarrow> scheme_is (gl W) ''http'' url \<or> scheme_is (gl W) ''https'' url \<or>
     scheme_is (gl W) ''data'' url"

definition IsHistoryStateChangeValid :: "'u web_lib \<Rightarrow> 'u \<Rightarrow> 'u \<Rightarrow> bool option" where
  "IsHistoryStateChangeValid W current_url to_url = do {
     check (is_valid (gl W) current_url);
     check (is_valid (gl W) to_url);
     Some (GetOrigin W to_url = GetOrigin W current_url) }"

definition GetHistoryStateChangeUrl :: "'u web_lib \<Rightarrow> 'u \<Rightarrow> 'u \<Rightarrow> string \<Rightarrow> 'u option" where
  "GetHistoryStateChangeUrl W current_url base_url destination =
     (if \<not> is_valid (gl W) base_url then Some (empty_gurl (gl W))
      else let to_url = Resolve W base_url destination in
        if \<not> is_valid (gl W) to_url then Some (empty_gurl (gl W))
        else do {
          ok \<leftarrow> IsHistoryStateChangeValid W current_url to_url;
          Some (if \<not> ok then empty_gurl (gl W) else to_url) })"

section \<open>URL rewriters\<close>

text \<open>
  A \<open>URLRewriter\<close> returns whether the URL is ready to be loaded, and may change it in either case;
  \<open>BrowserState\<close> is part of the rewriter's closure.
\<close>

type_synonym 'u url_rewriter = "'u \<Rightarrow> bool \<times> 'u"

fun RewriteURLWithWriters :: "'u url_rewriter list \<Rightarrow> 'u \<Rightarrow> bool \<times> 'u" where
  "RewriteURLWithWriters [] url = (False, url)"
| "RewriteURLWithWriters (rewriter # rewriters) url =
     (let (rewritten, url') = rewriter url in
      if rewritten then (True, url') else RewriteURLWithWriters rewriters url')"

definition HandleViewSource :: "'u web_lib \<Rightarrow> 'u url_rewriter" where
  "HandleViewSource W url =
     (if scheme_is (gl W) ''view-source'' url then (True, parse (gl W) (GetContent W url))
      else (False, url))"

text \<open>The singleton's list: what the \<open>WebClient\<close> added, then the view-source rewriter.\<close>

definition new_BrowserURLRewriterImpl :: "'u web_lib \<Rightarrow> 'u url_rewriter list" where
  "new_BrowserURLRewriterImpl W = browser_url_rewriters W @ [HandleViewSource W]"

definition AddURLRewriter :: "'u url_rewriter option \<Rightarrow> 'u url_rewriter list \<Rightarrow> 'u url_rewriter list option" where
  "AddURLRewriter rewriter url_rewriters = do {
     check (rewriter \<noteq> None);
     Some (url_rewriters @ [the rewriter]) }"

definition RewriteURLIfNecessary :: "'u web_lib \<Rightarrow> 'u \<Rightarrow> bool \<times> 'u" where
  "RewriteURLIfNecessary W url = RewriteURLWithWriters (new_BrowserURLRewriterImpl W) url"

text \<open>The rewriters run in order up to and including the first one that returns true.\<close>

lemma RewriteURLWithWriters_append:
  "RewriteURLWithWriters (rs @ ss) url =
     (let (done, url') = RewriteURLWithWriters rs url in
      if done then (True, url') else RewriteURLWithWriters ss url')"
  by (induction rs arbitrary: url) (auto simp: Let_def split: prod.splits)

section \<open>The time smoother\<close>

text \<open>\<open>base::Time\<close> in microseconds; the null time is 0.\<close>

record time_smoother =
  low_water_mark :: int
  high_water_mark :: int

definition new_time_smoother :: time_smoother where
  "new_time_smoother = \<lparr>low_water_mark = 0, high_water_mark = 0\<rparr>"

definition GetSmoothedTime :: "int \<Rightarrow> time_smoother \<Rightarrow> int \<times> time_smoother" where
  "GetSmoothedTime t s =
     (if low_water_mark s \<le> t \<and> t \<le> high_water_mark s
      then (high_water_mark s + 1, s\<lparr>high_water_mark := high_water_mark s + 1\<rparr>)
      else (t, \<lparr>low_water_mark = t, high_water_mark = t\<rparr>))"

fun smoothed_times :: "int list \<Rightarrow> time_smoother \<Rightarrow> int list" where
  "smoothed_times [] s = []"
| "smoothed_times (t # ts) s = (let (t', s') = GetSmoothedTime t s in t' # smoothed_times ts s')"

lemma GetSmoothedTime_out: "fst (GetSmoothedTime t s) = high_water_mark (snd (GetSmoothedTime t s))"
  by (simp add: GetSmoothedTime_def)

lemma GetSmoothedTime_fresh:
  "low_water_mark s \<le> high_water_mark s \<Longrightarrow> fst (GetSmoothedTime t s) \<noteq> high_water_mark s"
  by (auto simp: GetSmoothedTime_def)

lemma smoothed_times_above:
  assumes "sorted ts" "\<forall>t\<in>set ts. low_water_mark s \<le> t" "low_water_mark s \<le> high_water_mark s"
  shows "sorted_wrt (<) (smoothed_times ts s) \<and> (\<forall>x\<in>set (smoothed_times ts s). high_water_mark s < x)"
  using assms
proof (induction ts arbitrary: s)
  case Nil
  then show ?case by simp
next
  case (Cons t ts)
  obtain t' s' where g: "GetSmoothedTime t s = (t', s')" by fastforce
  have s': "low_water_mark s' \<le> t" "low_water_mark s' \<le> high_water_mark s'" "high_water_mark s' = t'"
    "high_water_mark s < t'"
    using g Cons.prems by (auto simp: GetSmoothedTime_def split: if_splits)
  have "\<forall>u\<in>set ts. low_water_mark s' \<le> u" using Cons.prems(1) s'(1) by auto
  with Cons.IH [of s'] Cons.prems(1) s' have
    "sorted_wrt (<) (smoothed_times ts s')" "\<forall>x\<in>set (smoothed_times ts s'). t' < x" by auto
  with s'(4) show ?case by (auto simp: g)
qed

section \<open>Properties\<close>

text \<open>
  Committed timestamps never collide: as long as the clock does not go backwards, the smoothed
  times of any sequence of commits are strictly increasing, and a time that the clock reports above
  every earlier result is passed through unchanged.
\<close>

theorem smoothed_times_strictly_increase:
  assumes "sorted ts" "\<forall>t\<in>set ts. 0 \<le> t"
  shows "sorted_wrt (<) (smoothed_times ts new_time_smoother) \<and>
    (\<forall>t s. high_water_mark s < t \<longrightarrow> fst (GetSmoothedTime t s) = t)"
  using smoothed_times_above [OF assms(1), of new_time_smoother] assms(2)
  by (auto simp: new_time_smoother_def GetSmoothedTime_def)

theorem smoothed_times_strictly_increase_witness:
  "sorted_wrt (<) (smoothed_times [5, 5, 5, 6, 20] new_time_smoother) \<and>
   smoothed_times [5, 5, 5, 6, 20] new_time_smoother = [5, 6, 7, 8, 20]"
  using smoothed_times_strictly_increase [of "[5, 5, 5, 6, 20]"]
  by (simp add: GetSmoothedTime_def new_time_smoother_def)

text \<open>The three things a \<open>Referer\<close> header can disclose, and the two tests on a navigation.\<close>

definition full_referrer :: "'u web_lib \<Rightarrow> 'u referrer \<Rightarrow> string" where
  "full_referrer W r = spec (gl W) (GetAsReferrer W (ref_url r))"

definition origin_referrer :: "'u web_lib \<Rightarrow> 'u referrer \<Rightarrow> string" where
  "origin_referrer W r = spec (gl W) (GetOrigin W (ref_url r))"

definition is_downgrade :: "'u web_lib \<Rightarrow> 'u \<Rightarrow> 'u referrer \<Rightarrow> bool" where
  "is_downgrade W d r \<longleftrightarrow> SchemeIsCryptographic W (ref_url r) \<and> \<not> SchemeIsCryptographic W d"

definition is_cross_origin :: "'u web_lib \<Rightarrow> 'u \<Rightarrow> 'u referrer \<Rightarrow> bool" where
  "is_cross_origin W d r \<longleftrightarrow> GetOrigin W (ref_url r) \<noteq> GetOrigin W d"

lemmas referrer_defs = full_referrer_def origin_referrer_def is_downgrade_def is_cross_origin_def
  ReferrerHeaderValueForNavigation_def PolicyForNavigation_def

text \<open>
  What a navigation discloses of the page it came from. The header is empty, the origin or
  the full referrer. The full referrer is sent exactly under the policy "always", or when the
  policy only looks at downgrades and there is none, or when the navigation stays in the origin
  and the policy allows it. On a downgrade every policy that is forwarded to the network stack as
  one that clears on downgrades, and "never", sends nothing at all.
\<close>

theorem referrer_disclosure:
  assumes "full_referrer W r \<noteq> origin_referrer W r" "full_referrer W r \<noteq> []"
  shows "(ReferrerHeaderValueForNavigation W d r = full_referrer W r \<longleftrightarrow>
      ref_policy r = ReferrerPolicyAlways \<or>
      ref_policy r \<in> {ReferrerPolicyDefault, ReferrerPolicyNoReferrerWhenDowngrade} \<and>
        \<not> is_downgrade W d r \<or>
      ref_policy r \<in> {ReferrerPolicyOriginWhenCrossOrigin, ReferrerPolicySameOrigin} \<and>
        \<not> is_cross_origin W d r \<or>
      ref_policy r = ReferrerPolicyStrictOriginWhenCrossOrigin \<and>
        \<not> is_downgrade W d r \<and> \<not> is_cross_origin W d r) \<and>
    ReferrerHeaderValueForNavigation W d r \<in> {[], origin_referrer W r, full_referrer W r} \<and>
    (is_downgrade W d r \<and>
     PolicyForNavigation r \<in> {NO_REFERRER, CLEAR_REFERRER_ON_TRANSITION_FROM_SECURE_TO_INSECURE,
       ORIGIN_CLEAR_ON_TRANSITION_FROM_SECURE_TO_INSECURE,
       REDUCE_REFERRER_GRANULARITY_ON_TRANSITION_CROSS_ORIGIN} \<longrightarrow>
     ReferrerHeaderValueForNavigation W d r = [])"
  using assms by (cases "ref_policy r") (simp_all add: referrer_defs Let_def)

text \<open>An instance of the libraries, for concrete runs.\<close>

definition demo_origin :: "demo_url \<Rightarrow> demo_url" where
  "demo_origin u = Demo_URL (d_scheme u) (takeWhile (\<lambda>c. c \<noteq> CHR ''/'') (d_path u)) [] []"

definition demo_web :: "demo_url web_lib" where
  "demo_web = \<lparr>gl = demo_lib, GetOrigin = demo_origin,
     GetAsReferrer = (\<lambda>u. Demo_URL (d_scheme u) (d_path u) (d_query u) []),
     GetContent = d_path, Resolve = (\<lambda>u s. Demo_URL (d_scheme u) (d_path (demo_origin u) @ s) [] []),
     EqualsIgnoringRef = (\<lambda>u v. Demo_URL (d_scheme u) (d_path u) (d_query u) [] =
        Demo_URL (d_scheme v) (d_path v) (d_query v) []),
     SchemeIsCryptographic = (\<lambda>u. d_scheme u = ''https''),
     has_ref = (\<lambda>u. d_ref u \<noteq> []),
     clear_ref = (\<lambda>u. Demo_URL (d_scheme u) (d_path u) (d_query u) []),
     is_empty = (\<lambda>u. u = Demo_URL [] [] [] []),
     FormatUrl = d_path, ElideString = (\<lambda>s n. take n s),
     PAGE_TRANSITION_LINK = 0, PAGE_TRANSITION_RELOAD = 8, PAGE_TRANSITION_FORM_SUBMIT = 7,
     PAGE_TRANSITION_CLIENT_REDIRECT = 1073741824, PAGE_TRANSITION_FORWARD_BACK = 16777216,
     PAGE_TRANSITION_IS_REDIRECT_MASK = 3221225472,
     PageTransitionIsRedirect = (\<lambda>t. and t 3221225472 \<noteq> 0),
     PageTransitionCoreTypeIs = (\<lambda>t c. and t 255 = c),
     IsSlimNavigationManagerEnabled = False, browser_url_rewriters = [],
     CloneUserData = (\<lambda>d. d)\<rparr>"

theorem referrer_disclosure_witness:
  "ReferrerHeaderValueForNavigation demo_web (Demo_URL ''http'' ''b.com/y'' [] [])
     \<lparr>ref_url = Demo_URL ''https'' ''a.com/x'' [] [], ref_policy = ReferrerPolicyDefault\<rparr> = []"
proof -
  let ?r = "\<lparr>ref_url = Demo_URL ''https'' ''a.com/x'' [] [], ref_policy = ReferrerPolicyDefault\<rparr>"
  have "full_referrer demo_web ?r \<noteq> origin_referrer demo_web ?r" "full_referrer demo_web ?r \<noteq> []"
    "is_downgrade demo_web (Demo_URL ''http'' ''b.com/y'' [] []) ?r"
    by (simp_all add: referrer_defs demo_web_def demo_lib_def demo_spec_def demo_origin_def kAboutScheme_def)
  with referrer_disclosure [of demo_web ?r] show ?thesis
    by (simp add: PolicyForNavigation_def)
qed

end
