(* ===== verification/Error_Retry.thy ===== *)
theory Error_Retry
  imports Wk_Navigation_Util
begin

text \<open>
  \<open>web/navigation/error_retry_state_machine.mm\<close>: the machine that tracks a navigation item whose
  load failed and says what the web controller has to do next. One definition per public
  operation; the reactions to the web view are collected into events, and the properties are about
  runs of the machine over any sequence of events.
\<close>

section \<open>States, commands, operations\<close>

datatype error_retry_state =
    kNewRequest | kNoNavigationError | kLoadingPlaceholder | kReadyToDisplayErrorForFailedNavigation
  | kDisplayingNativeErrorForFailedNavigation | kDisplayingWebErrorForFailedNavigation
  | kNavigatingToFailedNavigationItem | kRetryFailedNavigationItem

datatype error_retry_command =
    kLoadPlaceholder | kLoadErrorView | kReload | kRewriteWebViewURL | kDoNothing

record 'u error_retry_machine =
  er_state :: error_retry_state
  er_url :: 'u

definition new_machine :: "'u gurl_lib \<Rightarrow> 'u error_retry_machine" where
  "new_machine L = \<lparr>er_state = kNewRequest, er_url = empty_gurl L\<rparr>"

definition er_SetURL :: "'u \<Rightarrow> 'u error_retry_machine \<Rightarrow> 'u error_retry_machine" where
  "er_SetURL url m = m\<lparr>er_url := url\<rparr>"

definition SetNoNavigationError :: "'u error_retry_machine \<Rightarrow> 'u error_retry_machine" where
  "SetNoNavigationError m = m\<lparr>er_state := kNoNavigationError\<rparr>"

definition SetDisplayingWebError :: "'u error_retry_machine \<Rightarrow> 'u error_retry_machine option" where
  "SetDisplayingWebError m = do {
     check (er_state m = kReadyToDisplayErrorForFailedNavigation \<or>
            er_state m = kRetryFailedNavigationItem);
     Some (m\<lparr>er_state := kDisplayingWebErrorForFailedNavigation\<rparr>) }"

definition BackForwardOrReloadFailed ::
  "'u error_retry_machine \<Rightarrow> error_retry_command \<times> 'u error_retry_machine" where
  "BackForwardOrReloadFailed m =
     (kLoadErrorView, m\<lparr>er_state := kReadyToDisplayErrorForFailedNavigation\<rparr>)"

definition DidFailProvisionalNavigation ::
  "'u gurl_lib \<Rightarrow> 'u \<Rightarrow> 'u \<Rightarrow> 'u error_retry_machine
   \<Rightarrow> (error_retry_command \<times> 'u error_retry_machine) option" where
  "DidFailProvisionalNavigation L web_view_url error_url m =
     (case er_state m of
        kNewRequest \<Rightarrow>
          Some (if web_view_url = CreateRedirectUrl L error_url
                then (kLoadErrorView, m\<lparr>er_state := kReadyToDisplayErrorForFailedNavigation\<rparr>)
                else (kLoadPlaceholder, m\<lparr>er_state := kLoadingPlaceholder\<rparr>))
      | kNoNavigationError \<Rightarrow> Some (BackForwardOrReloadFailed m)
      | kRetryFailedNavigationItem \<Rightarrow> Some (BackForwardOrReloadFailed m)
      | kDisplayingNativeErrorForFailedNavigation \<Rightarrow> Some (BackForwardOrReloadFailed m)
      | kDisplayingWebErrorForFailedNavigation \<Rightarrow> Some (BackForwardOrReloadFailed m)
      | kLoadingPlaceholder \<Rightarrow> None
      | kReadyToDisplayErrorForFailedNavigation \<Rightarrow> None
      | kNavigatingToFailedNavigationItem \<Rightarrow> None)"

definition DidFailNavigation ::
  "'u error_retry_machine \<Rightarrow> (error_retry_command \<times> 'u error_retry_machine) option" where
  "DidFailNavigation m =
     (case er_state m of
        kNewRequest \<Rightarrow>
          Some (kLoadErrorView, m\<lparr>er_state := kReadyToDisplayErrorForFailedNavigation\<rparr>)
      | kNoNavigationError \<Rightarrow> Some (BackForwardOrReloadFailed m)
      | kRetryFailedNavigationItem \<Rightarrow> Some (BackForwardOrReloadFailed m)
      | kDisplayingNativeErrorForFailedNavigation \<Rightarrow> Some (BackForwardOrReloadFailed m)
      | kDisplayingWebErrorForFailedNavigation \<Rightarrow> Some (BackForwardOrReloadFailed m)
      | kLoadingPlaceholder \<Rightarrow> None
      | kReadyToDisplayErrorForFailedNavigation \<Rightarrow> None
      | kNavigatingToFailedNavigationItem \<Rightarrow> None)"

text \<open>The case of \<open>DidFinishNavigation\<close> in which an error page is displayed.\<close>

definition finish_displaying ::
  "'u gurl_lib \<Rightarrow> 'u \<Rightarrow> 'u error_retry_machine
   \<Rightarrow> (error_retry_command \<times> 'u error_retry_machine) option" where
  "finish_displaying L web_view_url m = do {
     placeholder \<leftarrow> CreatePlaceholderUrlForUrl L (er_url m);
     if web_view_url = placeholder
     then Some (kRewriteWebViewURL, m\<lparr>er_state := kNavigatingToFailedNavigationItem\<rparr>)
     else do {
       target \<leftarrow> (if IsRestoreSessionUrl L web_view_url then ExtractTargetURL L web_view_url
                  else Some None);
       if target = Some (er_url m)
       then Some (kDoNothing, m\<lparr>er_state := kNoNavigationError\<rparr>)
       else do {
         check (web_view_url = er_url m);
         Some (kDoNothing, m\<lparr>er_state := kNoNavigationError\<rparr>) } } }"

definition DidFinishNavigation ::
  "'u gurl_lib \<Rightarrow> 'u \<Rightarrow> 'u error_retry_machine
   \<Rightarrow> (error_retry_command \<times> 'u error_retry_machine) option" where
  "DidFinishNavigation L web_view_url m =
     (case er_state m of
        kLoadingPlaceholder \<Rightarrow> do {
          placeholder \<leftarrow> CreatePlaceholderUrlForUrl L (er_url m);
          check (web_view_url = placeholder);
          Some (kLoadErrorView, m\<lparr>er_state := kReadyToDisplayErrorForFailedNavigation\<rparr>) }
      | kNewRequest \<Rightarrow>
          Some (kDoNothing, if IsRestoreSessionUrl L web_view_url then m
                            else m\<lparr>er_state := kNoNavigationError\<rparr>)
      | kReadyToDisplayErrorForFailedNavigation \<Rightarrow> do {
          check (web_view_url = er_url m);
          Some (kDoNothing, m\<lparr>er_state := kDisplayingWebErrorForFailedNavigation\<rparr>) }
      | kDisplayingNativeErrorForFailedNavigation \<Rightarrow> finish_displaying L web_view_url m
      | kDisplayingWebErrorForFailedNavigation \<Rightarrow> finish_displaying L web_view_url m
      | kNavigatingToFailedNavigationItem \<Rightarrow> do {
          check (web_view_url = er_url m);
          Some (kReload, m\<lparr>er_state := kRetryFailedNavigationItem\<rparr>) }
      | kRetryFailedNavigationItem \<Rightarrow> do {
          check (web_view_url = er_url m);
          Some (kDoNothing, m\<lparr>er_state := kNoNavigationError\<rparr>) }
      | kNoNavigationError \<Rightarrow> Some (kDoNothing, m))"

section \<open>Runs\<close>

datatype 'u er_event =
    FailProvisional 'u 'u | Fail 'u 'u | Finish 'u | ShowWebError | ClearError

fun er_step ::
  "'u gurl_lib \<Rightarrow> 'u er_event \<Rightarrow> 'u error_retry_machine
   \<Rightarrow> (error_retry_command \<times> 'u error_retry_machine) option" where
  "er_step L (FailProvisional w e) m = DidFailProvisionalNavigation L w e m"
| "er_step L (Fail w e) m = DidFailNavigation m"
| "er_step L (Finish w) m = DidFinishNavigation L w m"
| "er_step L ShowWebError m = map_option (Pair kDoNothing) (SetDisplayingWebError m)"
| "er_step L ClearError m = Some (kDoNothing, SetNoNavigationError m)"

fun er_run ::
  "'u gurl_lib \<Rightarrow> 'u er_event list \<Rightarrow> 'u error_retry_machine
   \<Rightarrow> (error_retry_command list \<times> 'u error_retry_machine) option" where
  "er_run L [] m = Some ([], m)"
| "er_run L (ev # evs) m = do {
     (c, m) \<leftarrow> er_step L ev m;
     (cs, m) \<leftarrow> er_run L evs m;
     Some (c # cs, m) }"

lemmas er_defs [op_defs] =
  SetNoNavigationError_def SetDisplayingWebError_def BackForwardOrReloadFailed_def
  DidFailProvisionalNavigation_def DidFailNavigation_def finish_displaying_def
  DidFinishNavigation_def

lemma er_step_url: "er_step L ev m = Some (c, m') \<Longrightarrow> er_url m' = er_url m"
  by (cases ev; cases "er_state m")
     (auto simp: op_defs bind_eq_Some_conv split: if_splits)

text \<open>What a state says about the last command that was issued.\<close>

fun er_last_ok :: "error_retry_command option \<Rightarrow> error_retry_state \<Rightarrow> bool" where
  "er_last_ok c kNavigatingToFailedNavigationItem \<longleftrightarrow> c = Some kRewriteWebViewURL"
| "er_last_ok c kRetryFailedNavigationItem \<longleftrightarrow> c = Some kReload"
| "er_last_ok c kLoadingPlaceholder \<longleftrightarrow> c = Some kLoadPlaceholder"
| "er_last_ok c kDisplayingNativeErrorForFailedNavigation \<longleftrightarrow> False"
| "er_last_ok c s \<longleftrightarrow> True"

lemma er_step_last:
  assumes "er_step L ev m = Some (c, m')" "er_state m \<noteq> kDisplayingNativeErrorForFailedNavigation"
  shows "er_last_ok (Some c) (er_state m')"
  using assms
  by (cases ev; cases "er_state m")
     (auto simp: op_defs bind_eq_Some_conv split: if_splits)

lemma er_step_reload:
  assumes "er_step L ev m = Some (kReload, m')"
  shows "er_state m = kNavigatingToFailedNavigationItem \<and> ev = Finish (er_url m)"
  using assms
  by (cases ev; cases "er_state m")
     (auto simp: op_defs bind_eq_Some_conv split: if_splits)

lemma er_last_ok_not_native: "er_last_ok c s \<Longrightarrow> s \<noteq> kDisplayingNativeErrorForFailedNavigation"
  by auto

lemma er_run_reload:
  assumes "er_run L evs m = Some (cs, m')" "er_last_ok lc (er_state m)"
  shows "er_state m' \<noteq> kDisplayingNativeErrorForFailedNavigation \<and> length cs = length evs \<and>
    (\<forall>k<length cs. cs ! k = kReload \<longrightarrow> evs ! k = Finish (er_url m) \<and>
       (case k of 0 \<Rightarrow> lc = Some kRewriteWebViewURL | Suc j \<Rightarrow> cs ! j = kRewriteWebViewURL))"
  using assms
proof (induction evs arbitrary: m cs lc)
  case Nil
  then show ?case using er_last_ok_not_native by auto
next
  case (Cons ev evs)
  obtain c m1 cs1 where c: "er_step L ev m = Some (c, m1)" "er_run L evs m1 = Some (cs1, m')"
      "cs = c # cs1"
    using Cons.prems(1) by (auto simp: bind_eq_Some_conv)
  have ok: "er_last_ok (Some c) (er_state m1)"
    by (rule er_step_last [OF c(1) er_last_ok_not_native [OF Cons.prems(2)]])
  note IH = Cons.IH [OF c(2) ok]
  have "er_url m1 = er_url m" by (rule er_step_url [OF c(1)])
  moreover have "lc = Some kRewriteWebViewURL \<and> ev = Finish (er_url m)" if "c = kReload"
    using er_step_reload [of L ev m m1] c(1) that Cons.prems(2) by auto
  ultimately show ?case using IH c(3) by (auto simp: nth_Cons split: nat.splits)
qed

text \<open>No operation of the machine leads to the state of a native error.\<close>

lemma native_error_never_entered:
  assumes "er_run L evs (er_SetURL url (new_machine L)) = Some (cs, m')"
  shows "er_state m' \<noteq> kDisplayingNativeErrorForFailedNavigation"
  using er_run_reload [OF assms, of None] by (simp add: er_SetURL_def new_machine_def)

text \<open>
  C10. In every run of the machine from a new request, over any sequence of web view events, a
  reload is commanded only when the tracked URL itself has just finished loading, and only right
  after the URL of the web view was rewritten from the placeholder; and the machine never enters
  the state \<open>kDisplayingNativeErrorForFailedNavigation\<close>, although a comment in
  \<open>DidFailProvisionalNavigation\<close> names a case in which it is there and the header says that failed items
  are put into that state or into the one of a web error.
\<close>

theorem reload_only_after_rewrite:
  assumes "er_run L evs (er_SetURL url (new_machine L)) = Some (cs, m')"
  shows "er_state m' \<noteq> kDisplayingNativeErrorForFailedNavigation \<and> length cs = length evs \<and>
    (\<forall>k<length cs. cs ! k = kReload \<longrightarrow>
       0 < k \<and> cs ! (k - 1) = kRewriteWebViewURL \<and> evs ! k = Finish url)"
proof -
  have "er_last_ok None (er_state (er_SetURL url (new_machine L)))"
    by (simp add: er_SetURL_def new_machine_def)
  note r = er_run_reload [OF assms this]
  have "0 < k \<and> cs ! (k - 1) = kRewriteWebViewURL \<and> evs ! k = Finish url"
    if "k < length cs" "cs ! k = kReload" for k
    using r [THEN conjunct2, THEN conjunct2, rule_format, OF that]
    by (cases k) (auto simp: er_SetURL_def)
  then show ?thesis using r by blast
qed

definition retry_scenario :: "'u \<Rightarrow> 'u \<Rightarrow> 'u \<Rightarrow> 'u er_event list" where
  "retry_scenario web_view_url placeholder url =
     [FailProvisional web_view_url url, Finish placeholder, Finish url,
      Finish placeholder, Finish url, Finish url]"

text \<open>
  A navigation that failed is retried and recovers. After a provisional failure of a new
  request for a valid URL, the machine asks for the placeholder, then for the error view; once the
  error page is shown, a back/forward navigation to the placeholder makes it rewrite the URL, then
  reload, and a successful reload ends in \<open>kNoNavigationError\<close>.
\<close>

lemma failed_navigation_recovers:
  assumes "url_lib_ok L" "is_valid L url" "web_view_url \<noteq> CreateRedirectUrl L url"
  shows "\<exists>p m'. CreatePlaceholderUrlForUrl L url = Some p \<and>
    er_run L (retry_scenario web_view_url p url) (er_SetURL url (new_machine L)) =
      Some ([kLoadPlaceholder, kLoadErrorView, kDoNothing, kRewriteWebViewURL, kReload, kDoNothing], m') \<and>
    er_state m' = kNoNavigationError"
proof -
  let ?p = "append_query_parameter L (parse L kAboutBlankURL) kOriginalUrlKey (spec L url)"
  have "CreatePlaceholderUrlForUrl L url = Some ?p"
    using assms(2) url_lib_okD(3) [OF assms(1) url_lib_okD(2) [OF assms(1,2)]] by (simp add: CreatePlaceholderUrlForUrl_def)
  then show ?thesis
    using assms(3) by (simp add: retry_scenario_def op_defs er_SetURL_def new_machine_def)
qed

definition demo_target :: demo_url where "demo_target = Demo_URL ''http'' ''a.b/c'' [] []"

lemma demo_target_valid: "is_valid demo_lib demo_target"
  by (simp add: demo_lib_def demo_parse_def demo_spec_def kAboutScheme_def kAboutBlankURL_def starts_with_def
      demo_target_def printable_def)

lemma failed_navigation_recovers_witness:
  "\<exists>p cs m'. er_run demo_lib (retry_scenario demo_target p demo_target)
       (er_SetURL demo_target (new_machine demo_lib)) = Some (cs, m') \<and> er_state m' = kNoNavigationError"
proof -
  have "demo_target \<noteq> CreateRedirectUrl demo_lib demo_target"
    by (simp add: demo_target_def CreateRedirectUrl_def GetRestoreSessionBaseUrl_def demo_lib_def
        kFileScheme_def)
  from failed_navigation_recovers [OF demo_lib_ok demo_target_valid this] show ?thesis by blast
qed

theorem reload_only_after_rewrite_witness:
  "\<exists>p m'. er_run demo_lib (retry_scenario demo_target p demo_target)
       (er_SetURL demo_target (new_machine demo_lib)) =
       Some ([kLoadPlaceholder, kLoadErrorView, kDoNothing, kRewriteWebViewURL, kReload, kDoNothing], m') \<and>
     er_state m' \<noteq> kDisplayingNativeErrorForFailedNavigation"
proof -
  have c: "CreatePlaceholderUrlForUrl demo_lib demo_target = Some (append_query_parameter demo_lib
      (parse demo_lib kAboutBlankURL) kOriginalUrlKey (spec demo_lib demo_target))" (is "_ = Some ?p")
    using demo_target_valid url_lib_okD(3) [OF demo_lib_ok url_lib_okD(2) [OF demo_lib_ok demo_target_valid]] by (simp add: CreatePlaceholderUrlForUrl_def)
  have "demo_target \<noteq> CreateRedirectUrl demo_lib demo_target"
    by (simp add: demo_target_def CreateRedirectUrl_def GetRestoreSessionBaseUrl_def demo_lib_def
        kFileScheme_def)
  then obtain m' where r: "er_run demo_lib (retry_scenario demo_target ?p demo_target)
       (er_SetURL demo_target (new_machine demo_lib)) =
       Some ([kLoadPlaceholder, kLoadErrorView, kDoNothing, kRewriteWebViewURL, kReload, kDoNothing], m')"
    using c by (simp add: retry_scenario_def op_defs er_SetURL_def new_machine_def)
  with reload_only_after_rewrite [OF r] show ?thesis by blast
qed

end
