(* ===== verification/Page_Display_State.thy ===== *)
theory Page_Display_State
  imports Prelude Complex_Main
begin

text \<open>
  \<open>web/public/web_state/page_display_state.{h,mm}\<close>: scroll offset, insets and zoom scales of a
  page, their validity, the comparison that identifies NANs, and the dictionary in which they are
  stored, with the keys of the older format. A \<open>CGFloat\<close> is a NAN, an infinity or a number;
  its addition and subtraction (which round) are arguments of the one operation that computes.
\<close>

section \<open>Numbers\<close>

datatype cg_float = NAN | CG_NegInf | CG real | CG_PosInf

fun isnan :: "cg_float \<Rightarrow> bool" where
  "isnan NAN = True"
| "isnan _ = False"

text \<open>The operators \<open>==\<close> and \<open><=\<close> on \<open>CGFloat\<close>: false when an operand is NAN.\<close>

fun cg_eq :: "cg_float \<Rightarrow> cg_float \<Rightarrow> bool" where
  "cg_eq (CG x) (CG y) = (x = y)"
| "cg_eq CG_NegInf CG_NegInf = True"
| "cg_eq CG_PosInf CG_PosInf = True"
| "cg_eq _ _ = False"

fun cg_le :: "cg_float \<Rightarrow> cg_float \<Rightarrow> bool" where
  "cg_le NAN _ = False"
| "cg_le _ NAN = False"
| "cg_le CG_NegInf _ = True"
| "cg_le _ CG_PosInf = True"
| "cg_le (CG x) (CG y) = (x \<le> y)"
| "cg_le _ _ = False"

record cg_point =
  pt_x :: cg_float
  pt_y :: cg_float

record edge_insets =
  inset_top :: cg_float
  inset_left :: cg_float
  inset_bottom :: cg_float
  inset_right :: cg_float

definition kInvalidContentOffset :: cg_point where
  "kInvalidContentOffset = \<lparr>pt_x = NAN, pt_y = NAN\<rparr>"

definition kInvalidContentInset :: edge_insets where
  "kInvalidContentInset =
     \<lparr>inset_top = NAN, inset_left = NAN, inset_bottom = NAN, inset_right = NAN\<rparr>"

definition UIEdgeInsetsZero :: edge_insets where
  "UIEdgeInsetsZero =
     \<lparr>inset_top = CG 0, inset_left = CG 0, inset_bottom = CG 0, inset_right = CG 0\<rparr>"

definition StateValuesAreEqual :: "cg_float \<Rightarrow> cg_float \<Rightarrow> bool" where
  "StateValuesAreEqual value1 value2 = (if isnan value1 then isnan value2 else cg_eq value1 value2)"

definition StateContentOffsetsAreEqual :: "cg_point \<Rightarrow> cg_point \<Rightarrow> bool" where
  "StateContentOffsetsAreEqual offset1 offset2 \<longleftrightarrow>
     StateValuesAreEqual (pt_x offset1) (pt_x offset2) \<and>
     StateValuesAreEqual (pt_y offset1) (pt_y offset2)"

definition StateContentInsetsAreEqual :: "edge_insets \<Rightarrow> edge_insets \<Rightarrow> bool" where
  "StateContentInsetsAreEqual inset1 inset2 \<longleftrightarrow>
     StateValuesAreEqual (inset_top inset1) (inset_top inset2) \<and>
     StateValuesAreEqual (inset_left inset1) (inset_left inset2) \<and>
     StateValuesAreEqual (inset_bottom inset1) (inset_bottom inset2) \<and>
     StateValuesAreEqual (inset_right inset1) (inset_right inset2)"

definition IsContentOffsetValid :: "cg_point \<Rightarrow> bool" where
  "IsContentOffsetValid p \<longleftrightarrow> \<not> isnan (pt_x p) \<and> \<not> isnan (pt_y p)"

definition IsContentInsetValid :: "edge_insets \<Rightarrow> bool" where
  "IsContentInsetValid i \<longleftrightarrow> \<not> isnan (inset_top i) \<and> \<not> isnan (inset_left i) \<and>
     \<not> isnan (inset_bottom i) \<and> \<not> isnan (inset_right i)"

section \<open>Scroll, zoom and display states\<close>

record page_scroll_state =
  content_offset :: cg_point
  content_inset :: edge_insets

record page_zoom_state =
  minimum_zoom_scale :: cg_float
  maximum_zoom_scale :: cg_float
  zoom_scale :: cg_float

record page_display_state =
  scroll_state :: page_scroll_state
  zoom_state :: page_zoom_state

definition new_PageScrollState :: page_scroll_state where
  "new_PageScrollState =
     \<lparr>content_offset = kInvalidContentOffset, content_inset = kInvalidContentInset\<rparr>"

definition PageScrollState_IsValid :: "page_scroll_state \<Rightarrow> bool" where
  "PageScrollState_IsValid s \<longleftrightarrow>
     IsContentOffsetValid (content_offset s) \<and> IsContentInsetValid (content_inset s)"

definition GetEffectiveContentOffsetForContentInset ::
  "(cg_float \<Rightarrow> cg_float \<Rightarrow> cg_float) \<Rightarrow> (cg_float \<Rightarrow> cg_float \<Rightarrow> cg_float)
   \<Rightarrow> edge_insets \<Rightarrow> page_scroll_state \<Rightarrow> cg_point" where
  "GetEffectiveContentOffsetForContentInset fadd fsub inset s =
     \<lparr>pt_x = fsub (fadd (pt_x (content_offset s)) (inset_left (content_inset s))) (inset_left inset),
      pt_y = fsub (fadd (pt_y (content_offset s)) (inset_top (content_inset s))) (inset_top inset)\<rparr>"

definition PageScrollState_eq :: "page_scroll_state \<Rightarrow> page_scroll_state \<Rightarrow> bool" where
  "PageScrollState_eq a b \<longleftrightarrow>
     StateContentOffsetsAreEqual (content_offset a) (content_offset b) \<and>
     StateContentInsetsAreEqual (content_inset a) (content_inset b)"

definition new_PageZoomState :: page_zoom_state where
  "new_PageZoomState = \<lparr>minimum_zoom_scale = NAN, maximum_zoom_scale = NAN, zoom_scale = NAN\<rparr>"

definition PageZoomState_IsValid :: "page_zoom_state \<Rightarrow> bool" where
  "PageZoomState_IsValid z \<longleftrightarrow>
     \<not> isnan (minimum_zoom_scale z) \<and> \<not> isnan (maximum_zoom_scale z) \<and> \<not> isnan (zoom_scale z) \<and>
     cg_le (minimum_zoom_scale z) (zoom_scale z) \<and> cg_le (zoom_scale z) (maximum_zoom_scale z)"

definition PageZoomState_eq :: "page_zoom_state \<Rightarrow> page_zoom_state \<Rightarrow> bool" where
  "PageZoomState_eq a b \<longleftrightarrow>
     StateValuesAreEqual (minimum_zoom_scale a) (minimum_zoom_scale b) \<and>
     StateValuesAreEqual (maximum_zoom_scale a) (maximum_zoom_scale b) \<and>
     StateValuesAreEqual (zoom_scale a) (zoom_scale b)"

definition new_PageDisplayState :: page_display_state where
  "new_PageDisplayState = \<lparr>scroll_state = new_PageScrollState, zoom_state = new_PageZoomState\<rparr>"

definition PageDisplayState_values ::
  "cg_point \<Rightarrow> edge_insets \<Rightarrow> cg_float \<Rightarrow> cg_float \<Rightarrow> cg_float \<Rightarrow> page_display_state" where
  "PageDisplayState_values offset inset min_zoom max_zoom zoom =
     \<lparr>scroll_state = \<lparr>content_offset = offset, content_inset = inset\<rparr>,
      zoom_state = \<lparr>minimum_zoom_scale = min_zoom, maximum_zoom_scale = max_zoom, zoom_scale = zoom\<rparr>\<rparr>"

definition PageDisplayState_IsValid :: "page_display_state \<Rightarrow> bool" where
  "PageDisplayState_IsValid d \<longleftrightarrow>
     PageScrollState_IsValid (scroll_state d) \<and> PageZoomState_IsValid (zoom_state d)"

definition PageDisplayState_eq :: "page_display_state \<Rightarrow> page_display_state \<Rightarrow> bool" where
  "PageDisplayState_eq a b \<longleftrightarrow>
     PageScrollState_eq (scroll_state a) (scroll_state b) \<and>
     PageZoomState_eq (zoom_state a) (zoom_state b)"

section \<open>The stored dictionary\<close>

text \<open>
  Values of the \<open>NSDictionary\<close>. Sending \<open>doubleValue\<close>, \<open>CGPointValue\<close> or \<open>UIEdgeInsetsValue\<close> to
  a value of another kind stops the program. A \<open>nil\<close> dictionary has no keys.
\<close>

datatype display_value =
  NSNumber cg_float | NSValue_CGPoint cg_point | NSValue_UIEdgeInsets edge_insets

type_synonym display_dict = "string \<rightharpoonup> display_value"

definition GetFloatValue :: "string \<Rightarrow> display_dict \<Rightarrow> cg_float option" where
  "GetFloatValue key serialization =
     (case serialization key of None \<Rightarrow> Some NAN | Some (NSNumber v) \<Rightarrow> Some v | Some _ \<Rightarrow> None)"

definition GetContentOffset :: "display_dict \<Rightarrow> cg_point option" where
  "GetContentOffset serialization =
     (case serialization ''contentOffset'' of
        Some (NSValue_CGPoint p) \<Rightarrow> Some p
      | Some _ \<Rightarrow> None
      | None \<Rightarrow> do {
          x \<leftarrow> GetFloatValue ''scrollX'' serialization;
          y \<leftarrow> GetFloatValue ''scrollY'' serialization;
          Some \<lparr>pt_x = x, pt_y = y\<rparr> })"

definition GetContentInset :: "display_dict \<Rightarrow> edge_insets option" where
  "GetContentInset serialization =
     (case serialization ''contentInset'' of
        Some (NSValue_UIEdgeInsets i) \<Rightarrow> Some i
      | Some _ \<Rightarrow> None
      | None \<Rightarrow> Some
          (if serialization ''scrollX'' \<noteq> None \<and> serialization ''scrollY'' \<noteq> None
           then UIEdgeInsetsZero else kInvalidContentInset))"

definition PageDisplayState_from :: "display_dict \<Rightarrow> page_display_state option" where
  "PageDisplayState_from serialization = do {
     offset \<leftarrow> GetContentOffset serialization;
     inset \<leftarrow> GetContentInset serialization;
     min_zoom \<leftarrow> GetFloatValue ''minZoom'' serialization;
     max_zoom \<leftarrow> GetFloatValue ''maxZoom'' serialization;
     zoom \<leftarrow> GetFloatValue ''zoom'' serialization;
     Some (PageDisplayState_values offset inset min_zoom max_zoom zoom) }"

definition GetSerialization :: "page_display_state \<Rightarrow> display_dict" where
  "GetSerialization d =
     [''contentOffset'' \<mapsto> NSValue_CGPoint (content_offset (scroll_state d)),
      ''contentInset'' \<mapsto> NSValue_UIEdgeInsets (content_inset (scroll_state d)),
      ''minZoom'' \<mapsto> NSNumber (minimum_zoom_scale (zoom_state d)),
      ''maxZoom'' \<mapsto> NSNumber (maximum_zoom_scale (zoom_state d)),
      ''zoom'' \<mapsto> NSNumber (zoom_scale (zoom_state d))]"

section \<open>Lemmas\<close>

lemma StateValuesAreEqual_iff [simp]: "StateValuesAreEqual a b \<longleftrightarrow> a = b"
  by (cases a; cases b) (simp_all add: StateValuesAreEqual_def)

text \<open>The comparison operator is equality of the stored values: NANs are identified.\<close>

lemma PageDisplayState_eq_iff: "PageDisplayState_eq a b \<longleftrightarrow> a = b"
  by (cases a; cases b; rename_tac s z s' z'; case_tac s; case_tac z; case_tac s'; case_tac z')
     (auto simp: PageDisplayState_eq_def PageScrollState_eq_def PageZoomState_eq_def
        StateContentOffsetsAreEqual_def StateContentInsetsAreEqual_def
        intro!: cg_point.equality edge_insets.equality)

lemma PageDisplayState_from_GetSerialization [simp]: "PageDisplayState_from (GetSerialization d) = Some d"
  by (cases d; rename_tac s z; case_tac s; case_tac z)
     (simp add: PageDisplayState_from_def GetSerialization_def GetContentOffset_def GetContentInset_def
        GetFloatValue_def PageDisplayState_values_def)

interpretation display_coding: nscoding GetSerialization PageDisplayState_from "\<lambda>d. True"
  by unfold_locales simp

text \<open>The dictionary of the older format, which has only the deprecated offset keys.\<close>

definition legacy_serialization :: "real \<Rightarrow> real \<Rightarrow> real \<Rightarrow> real \<Rightarrow> real \<Rightarrow> display_dict" where
  "legacy_serialization x y mn mx z =
     [''scrollX'' \<mapsto> NSNumber (CG x), ''scrollY'' \<mapsto> NSNumber (CG y),
      ''minZoom'' \<mapsto> NSNumber (CG mn), ''maxZoom'' \<mapsto> NSNumber (CG mx), ''zoom'' \<mapsto> NSNumber (CG z)]"

section \<open>Properties\<close>

text \<open>
  Display states survive storage: the dictionary of any display state, NANs and infinities
  included, reads back as a state that compares equal to it, and only to it; a dictionary of the
  older format gives a state with zero insets that is valid exactly when its zoom is in range;
  and an empty dictionary gives the default state, which is not valid.
\<close>

theorem display_state_round_trip:
  "(\<exists>d'. PageDisplayState_from (GetSerialization d) = Some d' \<and>
      (\<forall>e. PageDisplayState_eq d' e \<longleftrightarrow> e = d)) \<and>
   (\<exists>l. PageDisplayState_from (legacy_serialization x y mn mx z) = Some l \<and>
      (PageDisplayState_IsValid l \<longleftrightarrow> mn \<le> z \<and> z \<le> mx) \<and>
      content_inset (scroll_state l) = UIEdgeInsetsZero) \<and>
   PageDisplayState_from Map.empty = Some new_PageDisplayState \<and>
   \<not> PageDisplayState_IsValid new_PageDisplayState"
proof -
  let ?l = "PageDisplayState_values \<lparr>pt_x = CG x, pt_y = CG y\<rparr> UIEdgeInsetsZero (CG mn) (CG mx) (CG z)"
  have "PageDisplayState_from (legacy_serialization x y mn mx z) = Some ?l"
    by (simp add: PageDisplayState_from_def legacy_serialization_def GetContentOffset_def
        GetContentInset_def GetFloatValue_def)
  moreover have "PageDisplayState_IsValid ?l \<longleftrightarrow> mn \<le> z \<and> z \<le> mx"
    by (simp add: PageDisplayState_IsValid_def PageDisplayState_values_def PageScrollState_IsValid_def
        PageZoomState_IsValid_def IsContentOffsetValid_def IsContentInsetValid_def UIEdgeInsetsZero_def)
  moreover have "PageDisplayState_from Map.empty = Some new_PageDisplayState"
    by (simp add: PageDisplayState_from_def GetContentOffset_def GetContentInset_def GetFloatValue_def
        PageDisplayState_values_def new_PageDisplayState_def new_PageScrollState_def
        new_PageZoomState_def kInvalidContentOffset_def)
  moreover have "\<not> PageDisplayState_IsValid new_PageDisplayState"
    by (simp add: PageDisplayState_IsValid_def new_PageDisplayState_def new_PageZoomState_def
        PageZoomState_IsValid_def)
  ultimately show ?thesis
    by (auto simp: PageDisplayState_eq_iff PageDisplayState_values_def)
qed

end
