(* ===== verification/Navigation_Item.thy ===== *)
theory Navigation_Item
  imports Web_Util Error_Retry Page_Display_State
begin

text \<open>
  \<open>web/navigation/navigation_item_impl.{h,mm}\<close>: an entry of the session history with its
  setters, the cached display title and the embedded error machine;
  \<open>web/navigation/navigation_item_storage_builder.mm\<close> and \<open>web/crw_navigation_item_storage.mm\<close>:
  the persisted form of an item and its keyed archive.

  Strings of \<open>base::string16\<close>, \<open>NSString\<close> and bytes of \<open>NSData\<close> are \<open>string\<close>; \<open>nil\<close> is
  \<^const>\<open>None\<close>. Images, certificates and embedder data are identities.
\<close>

section \<open>The members\<close>

datatype security_style =
    SECURITY_STYLE_UNKNOWN | SECURITY_STYLE_UNAUTHENTICATED | SECURITY_STYLE_AUTHENTICATION_BROKEN
  | SECURITY_STYLE_AUTHENTICATED

record ssl_status =
  ssl_security_style :: security_style
  ssl_certificate :: "nat option"
  ssl_cert_status :: "32 word"
  ssl_content_status :: int
  ssl_cert_status_host :: string
  ssl_user_data :: "nat option"

definition NORMAL_CONTENT :: int where "NORMAL_CONTENT = 0"
definition DISPLAYED_INSECURE_CONTENT :: int where "DISPLAYED_INSECURE_CONTENT = 1"

definition new_SSLStatus :: ssl_status where
  "new_SSLStatus = \<lparr>ssl_security_style = SECURITY_STYLE_UNKNOWN, ssl_certificate = None,
     ssl_cert_status = 0, ssl_content_status = NORMAL_CONTENT, ssl_cert_status_host = [],
     ssl_user_data = None\<rparr>"

definition SSLStatus_copy :: "(nat \<Rightarrow> nat) \<Rightarrow> ssl_status \<Rightarrow> ssl_status" where
  "SSLStatus_copy Clone other = other\<lparr>ssl_user_data := map_option Clone (ssl_user_data other)\<rparr>"

text \<open>\<open>operator=\<close> takes its argument by value, so embedder data is cloned twice.\<close>

definition SSLStatus_assign :: "(nat \<Rightarrow> nat) \<Rightarrow> ssl_status \<Rightarrow> ssl_status" where
  "SSLStatus_assign Clone other =
     (let other = SSLStatus_copy Clone other
      in other\<lparr>ssl_user_data := map_option Clone (ssl_user_data other)\<rparr>)"

definition SSLStatus_Equals :: "(nat \<Rightarrow> nat \<Rightarrow> bool) \<Rightarrow> ssl_status \<Rightarrow> ssl_status \<Rightarrow> bool" where
  "SSLStatus_Equals EqualsIncludingChain a b \<longleftrightarrow>
     ssl_security_style a = ssl_security_style b \<and>
     (ssl_certificate a \<noteq> None) = (ssl_certificate b \<noteq> None) \<and>
     (case (ssl_certificate a, ssl_certificate b) of
        (Some c, Some d) \<Rightarrow> EqualsIncludingChain c d | _ \<Rightarrow> True) \<and>
     ssl_cert_status a = ssl_cert_status b \<and>
     ssl_content_status a = ssl_content_status b"

record 'u favicon_status =
  fav_valid :: bool
  fav_url :: 'u
  fav_image :: nat

datatype navigation_initiation_type = INIT_NONE | BROWSER_INITIATED | RENDERER_INITIATED

record 'u navigation_item =
  unique_id :: int
  original_request_url :: 'u
  item_url :: 'u
  item_referrer :: "'u referrer"
  virtual_url :: 'u
  item_title :: string
  item_display_state :: page_display_state
  transition_type :: page_transition
  favicon :: "'u favicon_status"
  ssl :: ssl_status
  timestamp :: int
  user_agent :: user_agent_type
  http_request_headers :: "(string \<rightharpoonup> string) option"
  serialized_state_object :: "string option"
  is_created_from_push_state :: bool
  has_state_been_replaced :: bool
  is_created_from_hash_change :: bool
  should_skip_repost_form_confirmation :: bool
  post_data :: "string option"
  error_machine :: "'u error_retry_machine"
  initiation_type :: navigation_initiation_type
  is_unsafe :: bool
  cached_display_title :: string

section \<open>Construction and setters\<close>

text \<open>The counter of \<open>GetUniqueIDInConstructor\<close> is threaded: the argument is its old value.\<close>

definition GetUniqueIDInConstructor :: "int \<Rightarrow> int" where
  "GetUniqueIDInConstructor unique_id_counter = unique_id_counter + 1"

definition NavigationItemImpl :: "'u web_lib \<Rightarrow> int \<Rightarrow> 'u navigation_item" where
  "NavigationItemImpl W unique_id_counter =
     \<lparr>unique_id = GetUniqueIDInConstructor unique_id_counter,
      original_request_url = empty_gurl (gl W), item_url = empty_gurl (gl W),
      item_referrer = Referrer W, virtual_url = empty_gurl (gl W), item_title = [],
      item_display_state = new_PageDisplayState,
      transition_type = PAGE_TRANSITION_LINK W,
      favicon = \<lparr>fav_valid = False, fav_url = empty_gurl (gl W), fav_image = 0\<rparr>,
      ssl = new_SSLStatus, timestamp = 0, user_agent = UA_MOBILE,
      http_request_headers = None, serialized_state_object = None,
      is_created_from_push_state = False, has_state_been_replaced = False,
      is_created_from_hash_change = False, should_skip_repost_form_confirmation = False,
      post_data = None, error_machine = new_machine (gl W), initiation_type = INIT_NONE,
      is_unsafe = False, cached_display_title = []\<rparr>"

text \<open>The copy constructor: every member, with the embedder's data cloned inside \<open>ssl_\<close>.\<close>

definition NavigationItemImpl_copy :: "'u web_lib \<Rightarrow> 'u navigation_item \<Rightarrow> 'u navigation_item" where
  "NavigationItemImpl_copy W item = item\<lparr>ssl := SSLStatus_copy (CloneUserData W) (ssl item)\<rparr>"

definition SetOriginalRequestURL :: "'u \<Rightarrow> 'u navigation_item \<Rightarrow> 'u navigation_item" where
  "SetOriginalRequestURL url item = item\<lparr>original_request_url := url\<rparr>"

definition SetURL :: "'u \<Rightarrow> 'u navigation_item \<Rightarrow> 'u navigation_item" where
  "SetURL url item = item\<lparr>item_url := url, cached_display_title := [],
     error_machine := er_SetURL url (error_machine item)\<rparr>"

definition SetReferrer :: "'u referrer \<Rightarrow> 'u navigation_item \<Rightarrow> 'u navigation_item" where
  "SetReferrer referrer item = item\<lparr>item_referrer := referrer\<rparr>"

definition SetVirtualURL :: "'u web_lib \<Rightarrow> 'u \<Rightarrow> 'u navigation_item \<Rightarrow> 'u navigation_item" where
  "SetVirtualURL W url item = item\<lparr>virtual_url := (if url = item_url item then empty_gurl (gl W) else url),
     cached_display_title := []\<rparr>"

definition GetVirtualURL :: "'u web_lib \<Rightarrow> 'u navigation_item \<Rightarrow> 'u" where
  "GetVirtualURL W item = (if is_empty W (virtual_url item) then item_url item else virtual_url item)"

definition SetTitle :: "string \<Rightarrow> 'u navigation_item \<Rightarrow> 'u navigation_item" where
  "SetTitle title item =
     (if item_title item = title then item
      else item\<lparr>item_title := title, cached_display_title := []\<rparr>)"

definition SetPageDisplayState :: "page_display_state \<Rightarrow> 'u navigation_item \<Rightarrow> 'u navigation_item" where
  "SetPageDisplayState display_state item = item\<lparr>item_display_state := display_state\<rparr>"

text \<open>\<open>title.rfind('/')\<close>, and the title of a \<open>file:\<close> URL: what follows the last slash, if anything.\<close>

definition rfind_slash :: "string \<Rightarrow> nat option" where
  "rfind_slash s =
     (if CHR ''/'' \<in> set s
      then Some (length s - 1 - length (takeWhile (\<lambda>c. c \<noteq> CHR ''/'') (rev s))) else None)"

definition file_title :: "string \<Rightarrow> string" where
  "file_title title =
     (case rfind_slash title of
        Some slashpos \<Rightarrow> if slashpos \<noteq> length title - 1 then drop (slashpos + 1) title else title
      | None \<Rightarrow> title)"

definition kMaxTitleChars :: nat where
  "kMaxTitleChars = 4 * 1024"

definition GetDisplayTitleForURL :: "'u web_lib \<Rightarrow> 'u \<Rightarrow> string" where
  "GetDisplayTitleForURL W url =
     (if is_empty W url then []
      else let title = FormatUrl W url;
               title = (if scheme_is (gl W) kFileScheme url then file_title title else title)
           in ElideString W title kMaxTitleChars)"

text \<open>\<open>GetTitleForDisplay\<close> returns the title and fills the mutable cache.\<close>

definition GetTitleForDisplay :: "'u web_lib \<Rightarrow> 'u navigation_item \<Rightarrow> string \<times> 'u navigation_item" where
  "GetTitleForDisplay W item =
     (if item_title item \<noteq> [] then (item_title item, item)
      else if cached_display_title item \<noteq> [] then (cached_display_title item, item)
      else let t = GetDisplayTitleForURL W (GetVirtualURL W item)
           in (t, item\<lparr>cached_display_title := t\<rparr>))"

definition SetTransitionType :: "page_transition \<Rightarrow> 'u navigation_item \<Rightarrow> 'u navigation_item" where
  "SetTransitionType transition item = item\<lparr>transition_type := transition\<rparr>"

definition SetTimestamp :: "int \<Rightarrow> 'u navigation_item \<Rightarrow> 'u navigation_item" where
  "SetTimestamp t item = item\<lparr>timestamp := t\<rparr>"

definition SetUserAgentType :: "'u web_lib \<Rightarrow> user_agent_type \<Rightarrow> 'u navigation_item \<Rightarrow> 'u navigation_item option" where
  "SetUserAgentType W type item = do {
     check ((\<not> URLNeedsUserAgentType (gl W) (GetVirtualURL W item)) = (type = UA_NONE));
     Some (item\<lparr>user_agent := type\<rparr>) }"

definition HasPostData :: "'u navigation_item \<Rightarrow> bool" where
  "HasPostData item \<longleftrightarrow> post_data item \<noteq> None"

definition AddHttpRequestHeaders ::
  "(string \<rightharpoonup> string) option \<Rightarrow> 'u navigation_item \<Rightarrow> 'u navigation_item" where
  "AddHttpRequestHeaders additional_headers item =
     (case additional_headers of
        None \<Rightarrow> item
      | Some additional \<Rightarrow>
          (case http_request_headers item of
             Some headers \<Rightarrow> item\<lparr>http_request_headers := Some (headers ++ additional)\<rparr>
           | None \<Rightarrow> item\<lparr>http_request_headers := Some additional\<rparr>))"

definition SetSerializedStateObject :: "string option \<Rightarrow> 'u navigation_item \<Rightarrow> 'u navigation_item" where
  "SetSerializedStateObject s item = item\<lparr>serialized_state_object := s\<rparr>"

definition SetIsCreatedFromPushState :: "bool \<Rightarrow> 'u navigation_item \<Rightarrow> 'u navigation_item" where
  "SetIsCreatedFromPushState push_state item = item\<lparr>is_created_from_push_state := push_state\<rparr>"

definition SetNavigationInitiationType ::
  "navigation_initiation_type \<Rightarrow> 'u navigation_item \<Rightarrow> 'u navigation_item" where
  "SetNavigationInitiationType type item = item\<lparr>initiation_type := type\<rparr>"

definition SetHasStateBeenReplaced :: "bool \<Rightarrow> 'u navigation_item \<Rightarrow> 'u navigation_item" where
  "SetHasStateBeenReplaced replace_state item = item\<lparr>has_state_been_replaced := replace_state\<rparr>"

definition SetIsCreatedFromHashChange :: "bool \<Rightarrow> 'u navigation_item \<Rightarrow> 'u navigation_item" where
  "SetIsCreatedFromHashChange hash_change item = item\<lparr>is_created_from_hash_change := hash_change\<rparr>"

definition SetShouldSkipRepostFormConfirmation :: "bool \<Rightarrow> 'u navigation_item \<Rightarrow> 'u navigation_item" where
  "SetShouldSkipRepostFormConfirmation skip item =
     item\<lparr>should_skip_repost_form_confirmation := skip\<rparr>"

definition SetPostData :: "string option \<Rightarrow> 'u navigation_item \<Rightarrow> 'u navigation_item" where
  "SetPostData data item = item\<lparr>post_data := data\<rparr>"

text \<open>Sending a message to a \<open>nil\<close> dictionary does nothing, and its count is 0.\<close>

definition RemoveHttpRequestHeaderForKey :: "string option \<Rightarrow> 'u navigation_item \<Rightarrow> 'u navigation_item option" where
  "RemoveHttpRequestHeaderForKey key item = do {
     check (key \<noteq> None);
     Some (case http_request_headers item of
             None \<Rightarrow> item
           | Some headers \<Rightarrow>
               (let headers' = headers(the key := None) in
                item\<lparr>http_request_headers := (if dom headers' = {} then None else Some headers')\<rparr>)) }"

definition ResetHttpRequestHeaders :: "'u navigation_item \<Rightarrow> 'u navigation_item" where
  "ResetHttpRequestHeaders item = item\<lparr>http_request_headers := None\<rparr>"

definition ResetForCommit :: "'u navigation_item \<Rightarrow> 'u navigation_item" where
  "ResetForCommit item = SetNavigationInitiationType INIT_NONE item"

lemmas item_defs = SetOriginalRequestURL_def SetURL_def SetReferrer_def SetVirtualURL_def SetTitle_def
  SetPageDisplayState_def SetTransitionType_def SetTimestamp_def SetSerializedStateObject_def
  SetIsCreatedFromPushState_def SetNavigationInitiationType_def SetHasStateBeenReplaced_def
  SetIsCreatedFromHashChange_def SetShouldSkipRepostFormConfirmation_def SetPostData_def
  ResetHttpRequestHeaders_def ResetForCommit_def AddHttpRequestHeaders_def er_SetURL_def

section \<open>Sequences of calls on an item\<close>

text \<open>
  The public interface of \<open>NavigationItem\<close> and \<open>NavigationItemImpl\<close>: one constructor per member
  function that changes the item.
\<close>

datatype 'u item_call =
    Call_SetOriginalRequestURL 'u | Call_SetURL 'u | Call_SetReferrer "'u referrer"
  | Call_SetVirtualURL 'u | Call_SetTitle string | Call_SetPageDisplayState page_display_state
  | Call_GetTitleForDisplay | Call_SetTransitionType page_transition | Call_SetTimestamp int
  | Call_SetUserAgentType user_agent_type | Call_AddHttpRequestHeaders "(string \<rightharpoonup> string) option"
  | Call_SetSerializedStateObject "string option" | Call_SetIsCreatedFromPushState bool
  | Call_SetHasStateBeenReplaced bool | Call_SetIsCreatedFromHashChange bool
  | Call_SetNavigationInitiationType navigation_initiation_type
  | Call_SetShouldSkipRepostFormConfirmation bool | Call_SetPostData "string option"
  | Call_RemoveHttpRequestHeaderForKey "string option" | Call_ResetHttpRequestHeaders
  | Call_ResetForCommit

fun item_step :: "'u web_lib \<Rightarrow> 'u item_call \<Rightarrow> 'u navigation_item \<Rightarrow> 'u navigation_item option" where
  "item_step W (Call_SetOriginalRequestURL u) i = Some (SetOriginalRequestURL u i)"
| "item_step W (Call_SetURL u) i = Some (SetURL u i)"
| "item_step W (Call_SetReferrer r) i = Some (SetReferrer r i)"
| "item_step W (Call_SetVirtualURL u) i = Some (SetVirtualURL W u i)"
| "item_step W (Call_SetTitle s) i = Some (SetTitle s i)"
| "item_step W (Call_SetPageDisplayState d) i = Some (SetPageDisplayState d i)"
| "item_step W Call_GetTitleForDisplay i = Some (snd (GetTitleForDisplay W i))"
| "item_step W (Call_SetTransitionType t) i = Some (SetTransitionType t i)"
| "item_step W (Call_SetTimestamp t) i = Some (SetTimestamp t i)"
| "item_step W (Call_SetUserAgentType t) i = SetUserAgentType W t i"
| "item_step W (Call_AddHttpRequestHeaders h) i = Some (AddHttpRequestHeaders h i)"
| "item_step W (Call_SetSerializedStateObject s) i = Some (SetSerializedStateObject s i)"
| "item_step W (Call_SetIsCreatedFromPushState b) i = Some (SetIsCreatedFromPushState b i)"
| "item_step W (Call_SetHasStateBeenReplaced b) i = Some (SetHasStateBeenReplaced b i)"
| "item_step W (Call_SetIsCreatedFromHashChange b) i = Some (SetIsCreatedFromHashChange b i)"
| "item_step W (Call_SetNavigationInitiationType n) i = Some (SetNavigationInitiationType n i)"
| "item_step W (Call_SetShouldSkipRepostFormConfirmation b) i = Some (SetShouldSkipRepostFormConfirmation b i)"
| "item_step W (Call_SetPostData d) i = Some (SetPostData d i)"
| "item_step W (Call_RemoveHttpRequestHeaderForKey k) i = RemoveHttpRequestHeaderForKey k i"
| "item_step W Call_ResetHttpRequestHeaders i = Some (ResetHttpRequestHeaders i)"
| "item_step W Call_ResetForCommit i = Some (ResetForCommit i)"

fun item_run :: "'u web_lib \<Rightarrow> 'u item_call list \<Rightarrow> 'u navigation_item \<Rightarrow> 'u navigation_item option" where
  "item_run W [] i = Some i"
| "item_run W (c # cs) i = do { i' \<leftarrow> item_step W c i; item_run W cs i' }"

text \<open>
  The invariant of an item: the cached title is the one computed from the virtual URL, and the
  error machine tracks the item's URL.
\<close>

definition item_inv :: "'u web_lib \<Rightarrow> 'u navigation_item \<Rightarrow> bool" where
  "item_inv W i \<longleftrightarrow>
     (cached_display_title i = [] \<or>
      cached_display_title i = GetDisplayTitleForURL W (GetVirtualURL W i)) \<and>
     er_url (error_machine i) = item_url i"

lemma item_inv_new [simp]: "item_inv W (NavigationItemImpl W n)"
  by (simp add: item_inv_def NavigationItemImpl_def new_machine_def)

lemma item_step_inv: "item_step W c i = Some i' \<Longrightarrow> item_inv W i \<Longrightarrow> item_inv W i'"
  by (cases c)
     (auto simp: item_inv_def item_defs GetVirtualURL_def GetTitleForDisplay_def SetUserAgentType_def
        RemoveHttpRequestHeaderForKey_def bind_check Let_def split: if_splits option.splits)

lemma item_run_inv: "item_run W cs i = Some i' \<Longrightarrow> item_inv W i \<Longrightarrow> item_inv W i'"
  by (induction cs arbitrary: i) (auto simp: bind_eq_Some_conv intro: item_step_inv)

section \<open>The persisted item\<close>

record 'u navigation_item_storage =
  st_virtualURL :: 'u
  st_referrer :: "'u referrer"
  st_timestamp :: int
  st_title :: string
  st_displayState :: page_display_state
  st_shouldSkipRepostFormConfirmation :: bool
  st_userAgentType :: user_agent_type
  st_POSTData :: "string option"
  st_HTTPRequestHeaders :: "(string \<rightharpoonup> string) option"

definition BuildStorage :: "'u web_lib \<Rightarrow> 'u navigation_item \<Rightarrow> 'u navigation_item_storage" where
  "BuildStorage W item =
     \<lparr>st_virtualURL = GetVirtualURL W item, st_referrer = item_referrer item,
      st_timestamp = timestamp item, st_title = item_title item,
      st_displayState = item_display_state item,
      st_shouldSkipRepostFormConfirmation = should_skip_repost_form_confirmation item,
      st_userAgentType = user_agent item, st_POSTData = post_data item,
      st_HTTPRequestHeaders = http_request_headers item\<rparr>"

definition BuildNavigationItemImpl ::
  "'u web_lib \<Rightarrow> int \<Rightarrow> 'u navigation_item_storage \<Rightarrow> 'u navigation_item" where
  "BuildNavigationItemImpl W unique_id_counter storage =
     (let item = NavigationItemImpl W unique_id_counter;
          item = item\<lparr>original_request_url := st_virtualURL storage\<rparr>;
          item = SetURL (st_virtualURL storage) item
      in item\<lparr>item_referrer := st_referrer storage, timestamp := st_timestamp storage,
           item_title := st_title storage, item_display_state := st_displayState storage,
           should_skip_repost_form_confirmation := st_shouldSkipRepostFormConfirmation storage,
           transition_type := PAGE_TRANSITION_RELOAD W,
           user_agent := st_userAgentType storage, post_data := st_POSTData storage,
           http_request_headers := st_HTTPRequestHeaders storage\<rparr>)"

text \<open>
  A keyed archive: what \<open>encodeBytes\<close>, \<open>encodeInt\<close>, \<open>encodeInt64\<close>, \<open>encodeBool\<close> and
  \<open>encodeObject\<close> stored under each key. Decoding an absent scalar gives 0 or \<open>NO\<close>, an absent
  object \<open>nil\<close>; a value of another kind stops the decoder. A \<open>NSURL\<close> object is its \<open>GURL\<close>.
\<close>

datatype 'u archived =
    ABytes string | AInt int | AInt64 int | ABool bool | AString string | ADisplay display_dict
  | AData string | AHeaders "string \<rightharpoonup> string" | ANSURL 'u

type_synonym 'u archive = "string \<rightharpoonup> 'u archived"

definition DecodeString :: "'u archive \<Rightarrow> string \<Rightarrow> string option" where
  "DecodeString decoder key =
     (case decoder key of Some (ABytes b) \<Rightarrow> Some b | None \<Rightarrow> Some [] | Some _ \<Rightarrow> None)"

definition EncodeString :: "string \<Rightarrow> string \<Rightarrow> 'u archive \<Rightarrow> 'u archive" where
  "EncodeString key s coder = coder(key \<mapsto> ABytes s)"

definition decodeInt :: "'u archive \<Rightarrow> string \<Rightarrow> int option" where
  "decodeInt decoder key =
     (case decoder key of Some (AInt i) \<Rightarrow> Some i | None \<Rightarrow> Some 0 | Some _ \<Rightarrow> None)"

definition decodeInt64 :: "'u archive \<Rightarrow> string \<Rightarrow> int option" where
  "decodeInt64 decoder key =
     (case decoder key of Some (AInt64 i) \<Rightarrow> Some i | None \<Rightarrow> Some 0 | Some _ \<Rightarrow> None)"

definition decodeBool :: "'u archive \<Rightarrow> string \<Rightarrow> bool option" where
  "decodeBool decoder key =
     (case decoder key of Some (ABool b) \<Rightarrow> Some b | None \<Rightarrow> Some False | Some _ \<Rightarrow> None)"

text \<open>The value of an enumerator and the cast back, defined on the values of the enumeration.\<close>

definition all_policies :: "referrer_policy list" where
  "all_policies = [ReferrerPolicyAlways, ReferrerPolicyDefault, ReferrerPolicyNoReferrerWhenDowngrade,
     ReferrerPolicyNever, ReferrerPolicyOrigin, ReferrerPolicyOriginWhenCrossOrigin,
     ReferrerPolicySameOrigin, ReferrerPolicyStrictOrigin, ReferrerPolicyStrictOriginWhenCrossOrigin]"

definition policy_to_int :: "referrer_policy \<Rightarrow> int" where
  "policy_to_int p = find_index (\<lambda>q. q = p) all_policies"

definition policy_of_int :: "int \<Rightarrow> referrer_policy option" where
  "policy_of_int i = elem_at all_policies i"

lemma policy_of_to_int [simp]: "policy_of_int (policy_to_int p) = Some p"
  by (cases p) (simp_all add: policy_to_int_def policy_of_int_def all_policies_def find_index_def
      elem_at_def in_range_def)

definition decode_referrer :: "'u web_lib \<Rightarrow> 'u archive \<Rightarrow> 'u referrer option" where
  "decode_referrer W aDecoder =
     (if aDecoder ''referrerUrlString'' \<noteq> None
      then do {
        referrerString \<leftarrow> DecodeString aDecoder ''referrerUrlString'';
        policy_value \<leftarrow> decodeInt aDecoder ''referrerPolicy'';
        referrerPolicy \<leftarrow> policy_of_int policy_value;
        Some \<lparr>ref_url = parse (gl W) referrerString, ref_policy = referrerPolicy\<rparr> }
      else
        (case aDecoder ''referrer'' of
           None \<Rightarrow> Some \<lparr>ref_url = empty_gurl (gl W), ref_policy = ReferrerPolicyDefault\<rparr>
         | Some (ANSURL u) \<Rightarrow> Some \<lparr>ref_url = u, ref_policy = ReferrerPolicyDefault\<rparr>
         | Some _ \<Rightarrow> None))"

text \<open>The value of an instance variable of type \<open>UserAgentType\<close> that is never assigned.\<close>

definition zero_user_agent_type :: user_agent_type where
  "zero_user_agent_type = UA_NONE"

text \<open>\<open>-[CRWNavigationItemStorage initWithCoder:]\<close>; members not decoded keep their zero value.\<close>

definition initStorageWithCoder :: "'u web_lib \<Rightarrow> 'u archive \<Rightarrow> 'u navigation_item_storage option" where
  "initStorageWithCoder W aDecoder = do {
     virtualURL \<leftarrow> (if aDecoder ''virtualUrlString'' \<noteq> None
                   then map_option (parse (gl W)) (DecodeString aDecoder ''virtualUrlString'')
                   else Some (empty_gurl (gl W)));
     referrer \<leftarrow> decode_referrer W aDecoder;
     us \<leftarrow> decodeInt64 aDecoder ''timestamp'';
     userAgentType \<leftarrow> (if aDecoder ''userAgentType'' \<noteq> None
                      then map_option GetUserAgentTypeWithDescription
                             (DecodeString aDecoder ''userAgentType'')
                      else if is_app_specific_url (gl W) virtualURL then Some UA_NONE
                      else Some zero_user_agent_type);
     title \<leftarrow> (case aDecoder ''title'' of
                None \<Rightarrow> Some [] | Some (AString t) \<Rightarrow> Some t | Some _ \<Rightarrow> None);
     serializedDisplayState \<leftarrow> (case aDecoder ''state'' of
                None \<Rightarrow> Some Map.empty | Some (ADisplay d) \<Rightarrow> Some d | Some _ \<Rightarrow> None);
     displayState \<leftarrow> PageDisplayState_from serializedDisplayState;
     skip \<leftarrow> decodeBool aDecoder ''skipResubmitDataConfirmation'';
     POSTData \<leftarrow> (case aDecoder ''POSTData'' of
                None \<Rightarrow> Some None | Some (AData d) \<Rightarrow> Some (Some d) | Some _ \<Rightarrow> None);
     HTTPRequestHeaders \<leftarrow> (case aDecoder ''httpHeaders'' of
                None \<Rightarrow> Some None | Some (AHeaders h) \<Rightarrow> Some (Some h) | Some _ \<Rightarrow> None);
     Some \<lparr>st_virtualURL = virtualURL, st_referrer = referrer, st_timestamp = us, st_title = title,
       st_displayState = displayState, st_shouldSkipRepostFormConfirmation = skip,
       st_userAgentType = userAgentType, st_POSTData = POSTData,
       st_HTTPRequestHeaders = HTTPRequestHeaders\<rparr> }"

text \<open>\<open>encodeObject:\<close> with a \<open>nil\<close> object leaves nothing that \<open>decodeObjectForKey:\<close> finds.\<close>

definition encodeStorageWithCoder :: "'u web_lib \<Rightarrow> 'u navigation_item_storage \<Rightarrow> 'u archive" where
  "encodeStorageWithCoder W s =
     (let aCoder = EncodeString ''virtualUrlString'' (spec (gl W) (st_virtualURL s)) Map.empty;
          aCoder = EncodeString ''referrerUrlString'' (spec (gl W) (ref_url (st_referrer s))) aCoder;
          aCoder = aCoder(''referrerPolicy'' \<mapsto> AInt (policy_to_int (ref_policy (st_referrer s))));
          aCoder = aCoder(''timestamp'' \<mapsto> AInt64 (st_timestamp s));
          aCoder = aCoder(''title'' \<mapsto> AString (st_title s));
          aCoder = aCoder(''state'' \<mapsto> ADisplay (GetSerialization (st_displayState s)));
          aCoder = aCoder(''skipResubmitDataConfirmation'' \<mapsto>
                     ABool (st_shouldSkipRepostFormConfirmation s));
          aCoder = EncodeString ''userAgentType'' (GetUserAgentTypeDescription (st_userAgentType s)) aCoder;
          aCoder = aCoder(''POSTData'' := map_option AData (st_POSTData s));
          aCoder = aCoder(''httpHeaders'' := map_option AHeaders (st_HTTPRequestHeaders s))
      in aCoder)"

text \<open>A URL that its specification string denotes: the valid ones and the empty one.\<close>

definition url_storable :: "'u web_lib \<Rightarrow> 'u \<Rightarrow> bool" where
  "url_storable W u \<longleftrightarrow> parse (gl W) (spec (gl W) u) = u"

lemma encodeStorage_at:
  "encodeStorageWithCoder W s ''virtualUrlString'' = Some (ABytes (spec (gl W) (st_virtualURL s)))"
  "encodeStorageWithCoder W s ''referrerUrlString'' = Some (ABytes (spec (gl W) (ref_url (st_referrer s))))"
  "encodeStorageWithCoder W s ''referrerPolicy'' = Some (AInt (policy_to_int (ref_policy (st_referrer s))))"
  "encodeStorageWithCoder W s ''timestamp'' = Some (AInt64 (st_timestamp s))"
  "encodeStorageWithCoder W s ''title'' = Some (AString (st_title s))"
  "encodeStorageWithCoder W s ''state'' = Some (ADisplay (GetSerialization (st_displayState s)))"
  "encodeStorageWithCoder W s ''skipResubmitDataConfirmation'' =
     Some (ABool (st_shouldSkipRepostFormConfirmation s))"
  "encodeStorageWithCoder W s ''userAgentType'' =
     Some (ABytes (GetUserAgentTypeDescription (st_userAgentType s)))"
  "encodeStorageWithCoder W s ''POSTData'' = map_option AData (st_POSTData s)"
  "encodeStorageWithCoder W s ''httpHeaders'' = map_option AHeaders (st_HTTPRequestHeaders s)"
  by (simp_all add: encodeStorageWithCoder_def EncodeString_def Let_def)

lemma decode_encode_storage:
  assumes "url_storable W (st_virtualURL s)" "url_storable W (ref_url (st_referrer s))"
  shows "initStorageWithCoder W (encodeStorageWithCoder W s) = Some s"
proof -
  have r: "decode_referrer W (encodeStorageWithCoder W s) = Some (st_referrer s)"
    using assms(2) by (simp add: decode_referrer_def encodeStorage_at DecodeString_def decodeInt_def
        url_storable_def)
  have p: "(case map_option AData (st_POSTData s) of None \<Rightarrow> Some None | Some (AData d) \<Rightarrow> Some (Some d)
      | Some _ \<Rightarrow> None) = Some (st_POSTData s)" by (cases "st_POSTData s") simp_all
  have h: "(case map_option AHeaders (st_HTTPRequestHeaders s) of None \<Rightarrow> Some None
      | Some (AHeaders d) \<Rightarrow> Some (Some d) | Some _ \<Rightarrow> None) = Some (st_HTTPRequestHeaders s)"
    by (cases "st_HTTPRequestHeaders s") simp_all
  show ?thesis
    unfolding initStorageWithCoder_def encodeStorage_at r p h
    using assms(1) by (simp add: encodeStorage_at DecodeString_def decodeInt64_def decodeBool_def
        url_storable_def)
qed

text \<open>What can be stored: items whose URLs are denoted by their specification strings.\<close>

definition storage_storable :: "'u web_lib \<Rightarrow> 'u navigation_item_storage \<Rightarrow> bool" where
  "storage_storable W s \<longleftrightarrow> url_storable W (st_virtualURL s) \<and> url_storable W (ref_url (st_referrer s))"

interpretation item_coding: nscoding "encodeStorageWithCoder W" "initStorageWithCoder W" "storage_storable W"
  for W :: "'u web_lib"
  by unfold_locales (simp add: storage_storable_def decode_encode_storage)

lemma BuildNavigationItemImpl_fields:
  "is_empty W (empty_gurl (gl W)) \<Longrightarrow>
   BuildStorage W (BuildNavigationItemImpl W n s) = s \<and> item_inv W (BuildNavigationItemImpl W n s)"
  by (simp add: BuildNavigationItemImpl_def BuildStorage_def NavigationItemImpl_def item_defs Let_def
      GetVirtualURL_def item_inv_def)

section \<open>Properties\<close>

text \<open>
  Whatever sequence of calls an item has received since its construction, the title it
  displays is its own title or, if that is empty, the title computed from its current virtual URL
  (the cache is never stale), and its error machine tracks its current URL.
\<close>

lemma item_title_cache_coherent:
  assumes "item_run W cs (NavigationItemImpl W n) = Some i"
  shows "fst (GetTitleForDisplay W i) =
      (if item_title i \<noteq> [] then item_title i else GetDisplayTitleForURL W (GetVirtualURL W i)) \<and>
    er_url (error_machine i) = item_url i"
  using item_run_inv [OF assms item_inv_new] by (auto simp: item_inv_def GetTitleForDisplay_def Let_def)

lemma item_title_cache_coherent_witness:
  "\<exists>i. item_run demo_web [Call_SetURL (Demo_URL ''http'' ''a.com'' [] []), Call_GetTitleForDisplay,
      Call_SetURL (Demo_URL ''http'' ''b.com'' [] [])] (NavigationItemImpl demo_web 0) = Some i \<and>
    fst (GetTitleForDisplay demo_web i) = ''b.com''"
proof -
  let ?cs = "[Call_SetURL (Demo_URL ''http'' ''a.com'' [] []), Call_GetTitleForDisplay,
      Call_SetURL (Demo_URL ''http'' ''b.com'' [] [])]"
  obtain i where i: "item_run demo_web ?cs (NavigationItemImpl demo_web 0) = Some i" by simp
  then have "item_title i = []" "GetVirtualURL demo_web i = Demo_URL ''http'' ''b.com'' [] []"
    by (auto simp: NavigationItemImpl_def item_defs GetTitleForDisplay_def GetVirtualURL_def Let_def
        demo_web_def demo_lib_def demo_spec_def)
  moreover have "GetDisplayTitleForURL demo_web (Demo_URL ''http'' ''b.com'' [] []) = ''b.com''"
    by (simp add: GetDisplayTitleForURL_def demo_web_def demo_lib_def demo_spec_def kMaxTitleChars_def kFileScheme_def)
  ultimately show ?thesis using i item_title_cache_coherent [OF i] by auto
qed

text \<open>
  C11. A navigation item survives archiving: storing an item, encoding the storage, decoding the
  archive and building an item again gives an item with the same persisted state (virtual URL,
  referrer, timestamp, title, display state, user agent type, POST data, headers), whose request
  URL and URL are the stored virtual URL, which has no initiation type, and whose transition is a
  reload.
\<close>

theorem item_storage_round_trip:
  assumes "is_empty W (empty_gurl (gl W))"
    and "url_storable W (GetVirtualURL W item)" "url_storable W (ref_url (item_referrer item))"
  shows "\<exists>s. initStorageWithCoder W (encodeStorageWithCoder W (BuildStorage W item)) = Some s \<and>
    BuildStorage W (BuildNavigationItemImpl W n s) = BuildStorage W item \<and>
    item_url (BuildNavigationItemImpl W n s) = GetVirtualURL W item \<and>
    original_request_url (BuildNavigationItemImpl W n s) = GetVirtualURL W item \<and>
    transition_type (BuildNavigationItemImpl W n s) = PAGE_TRANSITION_RELOAD W \<and>
    initiation_type (BuildNavigationItemImpl W n s) = INIT_NONE \<and>
    item_inv W (BuildNavigationItemImpl W n s)"
proof -
  have "initStorageWithCoder W (encodeStorageWithCoder W (BuildStorage W item)) = Some (BuildStorage W item)"
    using assms(2,3) by (intro item_coding.decode_encode) (simp add: storage_storable_def BuildStorage_def)
  then show ?thesis
    using BuildNavigationItemImpl_fields [OF assms(1), of n "BuildStorage W item"]
    by (auto simp: BuildNavigationItemImpl_def NavigationItemImpl_def item_defs Let_def)
       (simp_all add: BuildStorage_def)
qed

theorem item_storage_round_trip_witness:
  "\<exists>s. initStorageWithCoder demo_web (encodeStorageWithCoder demo_web (BuildStorage demo_web
      (SetURL (Demo_URL ''http'' ''a.com'' [] []) (SetReferrer \<lparr>ref_url = Demo_URL ''http'' ''b.com'' [] [],
        ref_policy = ReferrerPolicyNever\<rparr> (NavigationItemImpl demo_web 0))))) = Some s \<and>
    item_url (BuildNavigationItemImpl demo_web 7 s) = Demo_URL ''http'' ''a.com'' [] []"
proof -
  let ?i = "SetURL (Demo_URL ''http'' ''a.com'' [] []) (SetReferrer \<lparr>ref_url = Demo_URL ''http'' ''b.com'' [] [],
        ref_policy = ReferrerPolicyNever\<rparr> (NavigationItemImpl demo_web 0))"
  have "GetVirtualURL demo_web ?i = Demo_URL ''http'' ''a.com'' [] []" "is_empty demo_web (empty_gurl (gl demo_web))"
    "ref_url (item_referrer ?i) = Demo_URL ''http'' ''b.com'' [] []"
    "url_storable demo_web (Demo_URL ''http'' ''a.com'' [] [])"
    "url_storable demo_web (Demo_URL ''http'' ''b.com'' [] [])"
    by (simp_all add: NavigationItemImpl_def item_defs GetVirtualURL_def demo_web_def demo_lib_def demo_spec_def
        url_storable_def demo_parse_def kAboutScheme_def kAboutBlankURL_def starts_with_def)
  with item_storage_round_trip [of demo_web ?i 7] show ?thesis by auto
qed

end
