(* ===== verification/Session_Controller.thy ===== *)
theory Session_Controller
  imports Navigation_Item
begin

text \<open>
  \<open>web/navigation/crw_session_controller.{h,mm}\<close>: the session history of a tab, with the parts of
  \<open>NavigationManagerImpl\<close> (\<open>navigation_manager_impl.mm\<close>) and \<open>LegacyNavigationManagerImpl\<close> the
  controller calls back: the current item, item creation with URL rewriting, and the
  notifications of the delegate.

  The navigation manager owns its controller, and both objects together are one record: a
  \<open>nav_manager\<close> extends a \<open>session_controller\<close>. Items are owned by exactly one slot (an element
  of \<open>_items\<close>, \<open>_pendingItem\<close> or \<open>_transientItem\<close>), so a pointer to an item is the name of its
  slot. Calls of the delegate are recorded in order; the delegate does not call back.
\<close>

section \<open>State\<close>

datatype user_agent_override_option = UAO_INHERIT | UAO_MOBILE | UAO_DESKTOP

datatype item_ref = Committed nat | Pending | Transient

datatype delegate_event =
    ClearTransientContent | RecordPageStateInNavigationItem
  | OnGoToIndexSameDocumentNavigation navigation_initiation_type bool
  | WillChangeUserAgentType | LoadCurrentItem navigation_initiation_type | LoadIfNecessary | D_Reload
  | OnNavigationItemsPruned nat | OnNavigationItemCommitted item_ref
  | GoToBackForwardListItem nat navigation_initiation_type bool | RemoveWebView

record 'u session_controller =
  sc_items :: "'u navigation_item list"
  lastCommittedItemIndex :: int
  previousItemIndex :: int
  pendingItemIndex :: int
  sc_pendingItem :: "'u navigation_item option"
  sc_transientItem :: "'u navigation_item option"
  sc_timeSmoother :: time_smoother
  sc_browserState :: "nat option"
  sc_navigationManager :: bool

record 'u nav_manager = "'u session_controller" +
  nm_browser_state :: "nat option"
  transient_url_rewriters :: "'u url_rewriter list"
  delegate_calls :: "delegate_event list"
  unique_id_counter :: int

definition tell :: "delegate_event \<Rightarrow> 'u nav_manager \<Rightarrow> 'u nav_manager" where
  "tell e m = m\<lparr>delegate_calls := delegate_calls m @ [e]\<rparr>"

fun deref :: "'u nav_manager \<Rightarrow> item_ref \<Rightarrow> 'u navigation_item option" where
  "deref m (Committed i) = (if i < length (sc_items m) then Some (sc_items m ! i) else None)"
| "deref m Pending = sc_pendingItem m"
| "deref m Transient = sc_transientItem m"

text \<open>A member function called through a pointer; a dangling pointer stops the program.\<close>

definition update_item ::
  "item_ref \<Rightarrow> ('u navigation_item \<Rightarrow> 'u navigation_item option) \<Rightarrow> 'u nav_manager \<Rightarrow> 'u nav_manager option" where
  "update_item r f m = do {
     item \<leftarrow> deref m r;
     item' \<leftarrow> f item;
     Some (case r of
             Committed i \<Rightarrow> m\<lparr>sc_items := (sc_items m)[i := item']\<rparr>
           | Pending \<Rightarrow> m\<lparr>sc_pendingItem := Some item'\<rparr>
           | Transient \<Rightarrow> m\<lparr>sc_transientItem := Some item'\<rparr>) }"

section \<open>Initializers and accessors\<close>

definition initWithBrowserState :: "nat option \<Rightarrow> 'u nav_manager \<Rightarrow> 'u nav_manager" where
  "initWithBrowserState browserState m =
     m\<lparr>sc_items := [], lastCommittedItemIndex := - 1, previousItemIndex := - 1, pendingItemIndex := - 1,
       sc_pendingItem := None, sc_transientItem := None, sc_timeSmoother := new_time_smoother,
       sc_browserState := browserState, sc_navigationManager := False\<rparr>"

text \<open>
  \<open>lastCommittedItemIndex\<close> arrives as \<open>NSUInteger\<close> and is cast to \<open>NSInteger\<close>: the round trip of
  the caller's signed value through 64 bits.
\<close>

definition initWithNavigationItems ::
  "nat option \<Rightarrow> 'u navigation_item list \<Rightarrow> int \<Rightarrow> 'u nav_manager \<Rightarrow> 'u nav_manager" where
  "initWithNavigationItems browserState items index m =
     (initWithBrowserState browserState m)
       \<lparr>sc_items := items, lastCommittedItemIndex := min index (int (length items) - 1)\<rparr>"

definition RemoveTransientURLRewriters :: "'u nav_manager \<Rightarrow> 'u nav_manager" where
  "RemoveTransientURLRewriters m = m\<lparr>transient_url_rewriters := []\<rparr>"

definition setLastCommittedItemIndex :: "int \<Rightarrow> 'u nav_manager \<Rightarrow> 'u nav_manager" where
  "setLastCommittedItemIndex index m =
     (if lastCommittedItemIndex m \<noteq> index
      then let m = m\<lparr>lastCommittedItemIndex := index\<rparr>
           in if sc_navigationManager m then RemoveTransientURLRewriters m else m
      else m)"

definition pendingItem :: "'u nav_manager \<Rightarrow> item_ref option" where
  "pendingItem m =
     (if pendingItemIndex m = - 1 then (if sc_pendingItem m = None then None else Some Pending)
      else Some (Committed (nat (pendingItemIndex m))))"

definition setPendingItemIndex :: "int \<Rightarrow> 'u nav_manager \<Rightarrow> 'u nav_manager option" where
  "setPendingItemIndex index m = do {
     check (- 1 \<le> index);
     check (index < int (length (sc_items m)));
     let m' = m\<lparr>pendingItemIndex := index\<rparr>;
     check (pendingItemIndex m' = - 1 \<or> pendingItem m' \<noteq> None);
     Some m' }"

definition setPreviousItemIndex :: "int \<Rightarrow> 'u nav_manager \<Rightarrow> 'u nav_manager" where
  "setPreviousItemIndex index m = m\<lparr>previousItemIndex := index\<rparr>"

definition transientItem :: "'u nav_manager \<Rightarrow> item_ref option" where
  "transientItem m = (if sc_transientItem m = None then None else Some Transient)"

definition canPruneAllButLastCommittedItem :: "'u nav_manager \<Rightarrow> bool" where
  "canPruneAllButLastCommittedItem m \<longleftrightarrow>
     lastCommittedItemIndex m \<noteq> - 1 \<and> pendingItemIndex m = - 1 \<and> transientItem m = None"

definition lastCommittedItem :: "'u nav_manager \<Rightarrow> item_ref option" where
  "lastCommittedItem m =
     (if lastCommittedItemIndex m = - 1 then None else Some (Committed (nat (lastCommittedItemIndex m))))"

definition previousItem :: "'u nav_manager \<Rightarrow> item_ref option" where
  "previousItem m =
     (if previousItemIndex m = - 1 \<or> sc_items m = [] then None
      else Some (Committed (nat (previousItemIndex m))))"

definition GetCurrentItemImpl :: "'u nav_manager \<Rightarrow> item_ref option" where
  "GetCurrentItemImpl m =
     (if transientItem m \<noteq> None then transientItem m
      else if pendingItem m \<noteq> None then pendingItem m
      else lastCommittedItem m)"

definition currentItem :: "'u nav_manager \<Rightarrow> item_ref option option" where
  "currentItem m = do { check (sc_navigationManager m); Some (GetCurrentItemImpl m) }"

definition visibleItem :: "'u nav_manager \<Rightarrow> item_ref option" where
  "visibleItem m =
     (if transientItem m \<noteq> None then transientItem m
      else case pendingItem m of
             Some pending \<Rightarrow>
               (let isBrowserInitiated =
                      map_option initiation_type (deref m pending) = Some BROWSER_INITIATED;
                    safeToShowPending = isBrowserInitiated \<and> pendingItemIndex m = - 1
                in if safeToShowPending then Some pending else lastCommittedItem m)
           | None \<Rightarrow> lastCommittedItem m)"

definition isRedirectTransitionForItemAtIndex :: "'u web_lib \<Rightarrow> 'u nav_manager \<Rightarrow> nat \<Rightarrow> bool option" where
  "isRedirectTransitionForItemAtIndex W m index = do {
     check (index < length (sc_items m));
     Some (and (transition_type (sc_items m ! index)) (PAGE_TRANSITION_IS_REDIRECT_MASK W) \<noteq> 0) }"

fun backward_loop :: "'u web_lib \<Rightarrow> 'u nav_manager \<Rightarrow> nat \<Rightarrow> item_ref list option" where
  "backward_loop W m 0 = Some []"
| "backward_loop W m (Suc i) = do {
     redirect \<leftarrow> isRedirectTransitionForItemAtIndex W m (Suc i);
     rest \<leftarrow> backward_loop W m i;
     Some (if \<not> redirect then Committed i # rest else rest) }"

definition backwardItems :: "'u web_lib \<Rightarrow> 'u nav_manager \<Rightarrow> item_ref list option" where
  "backwardItems W m =
     (if lastCommittedItemIndex m > - 1
      then do {
        check (lastCommittedItem m \<noteq> None);
        let first = (if transientItem m \<noteq> None then [the (lastCommittedItem m)] else []);
        rest \<leftarrow> backward_loop W m (nat (lastCommittedItemIndex m));
        Some (first @ rest) }
      else Some [])"

function forward_loop :: "'u web_lib \<Rightarrow> 'u nav_manager \<Rightarrow> nat \<Rightarrow> item_ref list" where
  "forward_loop W m i =
     (if i < length (sc_items m)
      then (if \<not> PageTransitionIsRedirect W (transition_type (sc_items m ! i))
            then Committed i # forward_loop W m (Suc i) else forward_loop W m (Suc i))
      else [])"
  by pat_completeness auto
termination by (relation "measure (\<lambda>(W, m, i). length (sc_items m) - i)") auto

declare forward_loop.simps [simp del]

definition forwardItems :: "'u web_lib \<Rightarrow> 'u nav_manager \<Rightarrow> item_ref list" where
  "forwardItems W m = forward_loop W m (nat (lastCommittedItemIndex m + 1))"

section \<open>The navigation manager behind the controller\<close>

definition setNavigationManager :: "bool \<Rightarrow> 'u nav_manager \<Rightarrow> 'u nav_manager option" where
  "setNavigationManager present m =
     (let m = m\<lparr>sc_navigationManager := present\<rparr> in
      if present then do {
        let m = (if sc_browserState m = None then m\<lparr>sc_browserState := nm_browser_state m\<rparr> else m);
        check (sc_browserState m = nm_browser_state m);
        Some m }
      else Some m)"

definition setBrowserState :: "nat option \<Rightarrow> 'u nav_manager \<Rightarrow> 'u nav_manager option" where
  "setBrowserState browserState m = do {
     let m = m\<lparr>sc_browserState := browserState\<rparr>;
     check (\<not> sc_navigationManager m \<or> nm_browser_state m = sc_browserState m);
     Some m }"

text \<open>
  \<open>GetLastCommittedItemImpl\<close> of the base class; session restoration is synchronous in the legacy
  manager, which answers \<open>false\<close> to \<open>IsRestoreSessionInProgress\<close>.
\<close>

definition IsRestoreSessionInProgress :: "'u nav_manager \<Rightarrow> bool" where
  "IsRestoreSessionInProgress m = False"

definition GetLastCommittedItem :: "'u web_lib \<Rightarrow> 'u nav_manager \<Rightarrow> item_ref option" where
  "GetLastCommittedItem W m =
     (if IsRestoreSessionInProgress m then None
      else case lastCommittedItem m of
             None \<Rightarrow> None
           | Some r \<Rightarrow>
               (case deref m r of
                  Some item \<Rightarrow> if IsRestoreSessionUrl (gl W) (item_url item) then None else Some r
                | None \<Rightarrow> None))"

definition loaded_url_for ::
  "'u web_lib \<Rightarrow> ('u \<Rightarrow> bool) \<Rightarrow> 'u \<Rightarrow> navigation_initiation_type \<Rightarrow> 'u \<Rightarrow> 'u url_rewriter list \<Rightarrow> 'u" where
  "loaded_url_for W is_placeholder url initiation previous_url additional_rewriters =
     (let loaded_url =
        (if \<not> is_placeholder url
         then let (url_was_rewritten, loaded_url) =
                (if additional_rewriters \<noteq> [] then RewriteURLWithWriters additional_rewriters url
                 else (False, url))
              in if \<not> url_was_rewritten then snd (RewriteURLIfNecessary W loaded_url) else loaded_url
         else url)
      in if initiation = RENDERER_INITIATED \<and> loaded_url \<noteq> url \<and>
            is_app_specific_url (gl W) loaded_url \<and> \<not> is_app_specific_url (gl W) previous_url
         then url else loaded_url)"

definition CreateNavigationItemWithRewriters ::
  "'u web_lib \<Rightarrow> ('u \<Rightarrow> bool) \<Rightarrow> 'u \<Rightarrow> 'u referrer \<Rightarrow> page_transition \<Rightarrow> navigation_initiation_type
   \<Rightarrow> 'u \<Rightarrow> 'u url_rewriter list \<Rightarrow> int \<Rightarrow> 'u navigation_item option" where
  "CreateNavigationItemWithRewriters W is_placeholder url referrer transition initiation previous_url
     additional_rewriters counter = do {
     let loaded_url = loaded_url_for W is_placeholder url initiation previous_url additional_rewriters;
     let item = NavigationItemImpl W counter;
     let item = SetOriginalRequestURL loaded_url item;
     let item = SetURL loaded_url item;
     let item = SetReferrer referrer item;
     let item = SetTransitionType transition item;
     let item = SetNavigationInitiationType initiation item;
     (if \<not> URLNeedsUserAgentType (gl W) loaded_url then SetUserAgentType W UA_NONE item
      else Some item) }"

text \<open>\<open>IsPlaceholderUrl\<close> of the base class, which the legacy manager does not override.\<close>

definition no_placeholder :: "'u \<Rightarrow> bool" where
  "no_placeholder url = False"

definition CreateNavigationItem ::
  "'u web_lib \<Rightarrow> 'u \<Rightarrow> 'u referrer \<Rightarrow> page_transition \<Rightarrow> navigation_initiation_type \<Rightarrow> 'u nav_manager
   \<Rightarrow> ('u navigation_item \<times> 'u nav_manager) option" where
  "CreateNavigationItem W url referrer transition initiation m = do {
     let previous_url =
       (case GetLastCommittedItem W m of
          Some r \<Rightarrow> item_url (the (deref m r)) | None \<Rightarrow> empty_gurl (gl W));
     item \<leftarrow> CreateNavigationItemWithRewriters W no_placeholder url referrer transition initiation
               previous_url (transient_url_rewriters m) (unique_id_counter m);
     let m = m\<lparr>unique_id_counter := GetUniqueIDInConstructor (unique_id_counter m)\<rparr>;
     Some (item, RemoveTransientURLRewriters m) }"

text \<open>\<open>OnNavigationItemCommitted\<close> of the legacy manager.\<close>

definition nm_OnNavigationItemCommitted :: "'u nav_manager \<Rightarrow> 'u nav_manager option" where
  "nm_OnNavigationItemCommitted m = do {
     item \<leftarrow> lastCommittedItem m;
     Some (tell (OnNavigationItemCommitted item) m) }"

section \<open>Operations of the controller\<close>

definition itemWithURL ::
  "'u web_lib \<Rightarrow> 'u \<Rightarrow> 'u referrer \<Rightarrow> page_transition \<Rightarrow> navigation_initiation_type \<Rightarrow> 'u nav_manager
   \<Rightarrow> ('u navigation_item \<times> 'u nav_manager) option" where
  "itemWithURL W url referrer transition initiation m = do {
     check (sc_navigationManager m);
     CreateNavigationItem W url referrer transition initiation m }"

definition discardTransientItem :: "'u nav_manager \<Rightarrow> 'u nav_manager" where
  "discardTransientItem m = m\<lparr>sc_transientItem := None\<rparr>"

definition discardNonCommittedItems :: "'u nav_manager \<Rightarrow> 'u nav_manager option" where
  "discardNonCommittedItems m =
     setPendingItemIndex (- 1) ((discardTransientItem m)\<lparr>sc_pendingItem := None\<rparr>)"

definition shouldCreatePendingItemWithURL ::
  "'u web_lib \<Rightarrow> 'u \<Rightarrow> page_transition \<Rightarrow> user_agent_override_option \<Rightarrow> 'u nav_manager \<Rightarrow> bool option" where
  "shouldCreatePendingItemWithURL W URL transition override_option m = do {
     current_ref \<leftarrow> currentItem m;
     (case current_ref of
        None \<Rightarrow> Some True
      | Some r \<Rightarrow> do {
          current \<leftarrow> deref m r;
          check (override_option \<noteq> UAO_DESKTOP \<or> user_agent current \<noteq> UA_DESKTOP);
          check (override_option \<noteq> UAO_MOBILE \<or> user_agent current \<noteq> UA_MOBILE);
          let hasSameURL = (item_url current = URL);
          let isPendingTransitionFormSubmit =
            PageTransitionCoreTypeIs W transition (PAGE_TRANSITION_FORM_SUBMIT W);
          let isCurrentTransitionFormSubmit =
            PageTransitionCoreTypeIs W (transition_type current) (PAGE_TRANSITION_FORM_SUBMIT W);
          let isPendingTransitionReload =
            PageTransitionCoreTypeIs W transition (PAGE_TRANSITION_RELOAD W);
          let isInheritingUserAgentType = (override_option = UAO_INHERIT);
          Some (if \<not> hasSameURL then True
                else if isPendingTransitionFormSubmit \<and> \<not> isCurrentTransitionFormSubmit then True
                else if isPendingTransitionReload \<and> \<not> isInheritingUserAgentType then True
                else False) }) }"

definition addPendingItem ::
  "'u web_lib \<Rightarrow> 'u \<Rightarrow> 'u referrer \<Rightarrow> page_transition \<Rightarrow> navigation_initiation_type
   \<Rightarrow> user_agent_override_option \<Rightarrow> 'u nav_manager \<Rightarrow> 'u nav_manager option" where
  "addPendingItem W url referrer transition initiation override_option m = do {
     m \<leftarrow> setPendingItemIndex (- 1) (discardTransientItem m);
     create \<leftarrow> shouldCreatePendingItemWithURL W url transition override_option m;
     if \<not> create then Some m
     else do {
       (item, m) \<leftarrow> itemWithURL W url referrer transition initiation m;
       let m = m\<lparr>sc_pendingItem := Some item\<rparr>;
       check (pendingItemIndex m = - 1);
       Some m } }"

definition clearForwardItems :: "'u nav_manager \<Rightarrow> 'u nav_manager option" where
  "clearForwardItems m = do {
     check (pendingItemIndex m = - 1);
     let m = discardTransientItem m;
     let forwardItemStartIndex = lastCommittedItemIndex m + 1;
     check (forwardItemStartIndex \<ge> 0);
     let itemCount = length (sc_items m);
     if forwardItemStartIndex \<ge> int itemCount then Some m
     else do {
       let m = (if previousItemIndex m \<ge> forwardItemStartIndex
                then m\<lparr>previousItemIndex := - 1\<rparr> else m);
       let m = m\<lparr>sc_items := take (nat forwardItemStartIndex) (sc_items m)\<rparr>;
       Some (if sc_navigationManager m
             then tell (OnNavigationItemsPruned (itemCount - nat forwardItemStartIndex)) m else m) } }"

text \<open>The part of \<open>-commitPendingItem\<close> under \<open>if (self.pendingItem)\<close>.\<close>

definition commit_pending :: "item_ref \<Rightarrow> 'u nav_manager \<Rightarrow> 'u nav_manager option" where
  "commit_pending r m = do {
     m \<leftarrow> update_item r (\<lambda>item. Some (ResetForCommit item)) m;
     (newItemIndex, m) \<leftarrow>
       (if pendingItemIndex m = - 1
        then do {
          m \<leftarrow> clearForwardItems m;
          item \<leftarrow> sc_pendingItem m;
          let m = m\<lparr>sc_items := sc_items m @ [item], sc_pendingItem := None\<rparr>;
          Some (int (length (sc_items m)) - 1, m) }
        else Some (pendingItemIndex m, m));
     let m = m\<lparr>previousItemIndex := lastCommittedItemIndex m\<rparr>;
     let m = setLastCommittedItemIndex newItemIndex m;
     m \<leftarrow> setPendingItemIndex (- 1) m;
     check (sc_pendingItem m = None);
     Some m }"

definition commitPendingItem :: "int \<Rightarrow> 'u nav_manager \<Rightarrow> 'u nav_manager option" where
  "commitPendingItem now m = do {
     m \<leftarrow> (case pendingItem m of Some r \<Rightarrow> commit_pending r m | None \<Rightarrow> Some m);
     item \<leftarrow> currentItem m;
     m \<leftarrow> (case item of
             Some r \<Rightarrow> do {
               let (t, s) = GetSmoothedTime now (sc_timeSmoother m);
               update_item r (\<lambda>item. Some (SetTimestamp t item)) (m\<lparr>sc_timeSmoother := s\<rparr>) }
           | None \<Rightarrow> Some m);
     m \<leftarrow> (if sc_navigationManager m \<and> item \<noteq> None then nm_OnNavigationItemCommitted m else Some m);
     check (pendingItemIndex m = - 1);
     Some m }"

definition addTransientItemWithURL :: "'u web_lib \<Rightarrow> int \<Rightarrow> 'u \<Rightarrow> 'u nav_manager \<Rightarrow> 'u nav_manager option" where
  "addTransientItemWithURL W now URL m = do {
     (item, m) \<leftarrow> itemWithURL W URL (Referrer W) (PAGE_TRANSITION_CLIENT_REDIRECT W) BROWSER_INITIATED m;
     let (t, s) = GetSmoothedTime now (sc_timeSmoother m);
     Some (m\<lparr>sc_transientItem := Some (SetTimestamp t item), sc_timeSmoother := s\<rparr>) }"

text \<open>The item that \<open>-pushNewItemWithURL:\<close> creates from the last committed one.\<close>

definition make_pushed_item ::
  "'u web_lib \<Rightarrow> int \<Rightarrow> 'u \<Rightarrow> string option \<Rightarrow> page_transition \<Rightarrow> 'u navigation_item \<Rightarrow> 'u nav_manager
   \<Rightarrow> ('u navigation_item \<times> 'u nav_manager) option" where
  "make_pushed_item W now URL stateObject transition committed m = do {
     let referrer = \<lparr>ref_url = item_url committed, ref_policy = ReferrerPolicyDefault\<rparr>;
     (pushedItem, m) \<leftarrow> itemWithURL W URL referrer transition BROWSER_INITIATED m;
     pushedItem \<leftarrow> SetUserAgentType W (user_agent committed) pushedItem;
     let pushedItem = SetSerializedStateObject stateObject pushedItem;
     let pushedItem = SetIsCreatedFromPushState True pushedItem;
     let pushedItem = pushedItem\<lparr>ssl := SSLStatus_assign (CloneUserData W) (ssl committed)\<rparr>;
     let (t, s) = GetSmoothedTime now (sc_timeSmoother m);
     Some (SetTimestamp t pushedItem, m\<lparr>sc_timeSmoother := s\<rparr>) }"

text \<open>The end of \<open>-pushNewItemWithURL:\<close>: the new item replaces the forward items.\<close>

definition append_committed_item :: "'u navigation_item \<Rightarrow> 'u nav_manager \<Rightarrow> 'u nav_manager option" where
  "append_committed_item pushedItem m = do {
     m \<leftarrow> clearForwardItems m;
     let m = m\<lparr>sc_items := sc_items m @ [pushedItem]\<rparr>;
     let m = m\<lparr>previousItemIndex := lastCommittedItemIndex m\<rparr>;
     let m = setLastCommittedItemIndex (int (length (sc_items m)) - 1) m;
     (if sc_navigationManager m then nm_OnNavigationItemCommitted m else Some m) }"

definition pushNewItemWithURL ::
  "'u web_lib \<Rightarrow> int \<Rightarrow> 'u \<Rightarrow> string option \<Rightarrow> page_transition \<Rightarrow> 'u nav_manager \<Rightarrow> 'u nav_manager option" where
  "pushNewItemWithURL W now URL stateObject transition m = do {
     check (pendingItem m = None);
     current \<leftarrow> currentItem m;
     check (current \<noteq> None);
     r \<leftarrow> lastCommittedItem m;
     committed \<leftarrow> deref m r;
     valid \<leftarrow> IsHistoryStateChangeValid W (item_url committed) URL;
     check valid;
     (pushedItem, m) \<leftarrow> make_pushed_item W now URL stateObject transition committed m;
     append_committed_item pushedItem m }"

definition copyStateFromSessionControllerAndPrune ::
  "'u web_lib \<Rightarrow> 'u nav_manager \<Rightarrow> 'u nav_manager \<Rightarrow> 'u nav_manager option" where
  "copyStateFromSessionControllerAndPrune W source m =
     (if \<not> canPruneAllButLastCommittedItem m then Some m
      else if sc_items source = [] then Some m
      else if lastCommittedItem source = None then Some m
      else do {
        check (lastCommittedItemIndex source > - 1);
        let sourceLastCommittedItemIndex = nat (lastCommittedItemIndex source);
        check (sourceLastCommittedItemIndex < length (sc_items source));
        check (nat (lastCommittedItemIndex m) < length (sc_items m));
        let mergedItems =
          map (\<lambda>index. NavigationItemImpl_copy W (sc_items source ! index))
            [0..<sourceLastCommittedItemIndex + 1] @ [sc_items m ! nat (lastCommittedItemIndex m)];
        let m = m\<lparr>sc_items := mergedItems, previousItemIndex := - 1,
          lastCommittedItemIndex := int (length mergedItems) - 1\<rparr>;
        check (lastCommittedItemIndex m < int (length (sc_items m)));
        Some m })"

definition goToItemAtIndex :: "int \<Rightarrow> bool \<Rightarrow> 'u nav_manager \<Rightarrow> 'u nav_manager option" where
  "goToItemAtIndex index discard m =
     (if index < 0 \<or> index \<ge> int (length (sc_items m)) then Some m
      else if index = lastCommittedItemIndex m then Some m
      else do {
        m \<leftarrow> (if discard
              then if index < lastCommittedItemIndex m then discardNonCommittedItems m
                   else if lastCommittedItemIndex m < index then Some (discardTransientItem m)
                   else Some m
              else Some m);
        let m = m\<lparr>previousItemIndex := lastCommittedItemIndex m\<rparr>;
        Some (m\<lparr>lastCommittedItemIndex := index\<rparr>) })"

definition removeItemAtIndex :: "int \<Rightarrow> 'u nav_manager \<Rightarrow> 'u nav_manager option" where
  "removeItemAtIndex index m = do {
     check (index < int (length (sc_items m)));
     check (index \<noteq> lastCommittedItemIndex m);
     check (index \<ge> 0);
     m \<leftarrow> discardNonCommittedItems m;
     let m = m\<lparr>sc_items := remove_at (nat index) (sc_items m)\<rparr>;
     let m = (if lastCommittedItemIndex m > index
              then m\<lparr>lastCommittedItemIndex := lastCommittedItemIndex m - 1\<rparr> else m);
     let m = (if previousItemIndex m \<ge> index
              then m\<lparr>previousItemIndex := previousItemIndex m - 1\<rparr> else m);
     Some (if sc_navigationManager m then tell (OnNavigationItemsPruned 1) m else m) }"

definition indexOfItem :: "item_ref \<Rightarrow> 'u nav_manager \<Rightarrow> int" where
  "indexOfItem item m = find_index (\<lambda>i. Committed i = item) [0..<length (sc_items m)]"

definition itemAtIndex :: "int \<Rightarrow> 'u nav_manager \<Rightarrow> item_ref option" where
  "itemAtIndex index m =
     (if index < 0 \<or> int (length (sc_items m)) \<le> index then None else Some (Committed (nat index)))"

text \<open>The loop of \<open>isSameDocumentNavigationBetweenItem:andItem:\<close> over the listed indices.\<close>

fun same_document_loop :: "'u web_lib \<Rightarrow> 'u \<Rightarrow> 'u nav_manager \<Rightarrow> nat list \<Rightarrow> bool option" where
  "same_document_loop W first_url m [] = Some True"
| "same_document_loop W first_url m (i # is) = do {
     item \<leftarrow> deref m (Committed i);
     if \<not> is_created_from_push_state item \<and> \<not> is_created_from_hash_change item then Some False
     else do {
       valid \<leftarrow> IsHistoryStateChangeValid W first_url (item_url item);
       if \<not> valid then Some False else same_document_loop W first_url m is } }"

definition isSameDocumentNavigationBetweenItem ::
  "'u web_lib \<Rightarrow> item_ref option \<Rightarrow> item_ref option \<Rightarrow> 'u nav_manager \<Rightarrow> bool option" where
  "isSameDocumentNavigationBetweenItem W firstItem secondItem m =
     (case (firstItem, secondItem) of
        (Some r, Some s) \<Rightarrow>
          if r = s then Some False
          else do {
            first \<leftarrow> deref m r;
            second \<leftarrow> deref m s;
            if GetOrigin W (item_url first) \<noteq> GetOrigin W (item_url second) then Some False
            else do {
              let firstIndex = indexOfItem r m;
              let secondIndex = indexOfItem s m;
              if firstIndex = - 1 \<or> secondIndex = - 1 then Some False
              else do {
                let startIndex = (if firstIndex < secondIndex then firstIndex else secondIndex);
                let endIndex = (if firstIndex < secondIndex then secondIndex else firstIndex);
                same_document_loop W (item_url first) m [nat startIndex + 1..<nat endIndex + 1] } } }
      | _ \<Rightarrow> Some False)"

end
