(* ===== verification/Navigation_Manager.thy ===== *)
theory Navigation_Manager
  imports Session_Controller
begin

text \<open>
  \<open>NavigationManagerImpl\<close> (\<open>web/navigation/navigation_manager_impl.{h,mm}\<close>) and its legacy
  subclass (\<open>legacy_navigation_manager_impl.{h,mm}\<close>), and the lookups of
  \<open>navigation_manager_util.mm\<close>: every operation of the interface
  \<open>web/public/navigation_manager.h\<close> over the session history of \<open>Session_Controller\<close>.
  A manager here has its session controller, as after \<open>InitializeSession\<close> or \<open>Restore\<close>.
\<close>

section \<open>32-bit signed arithmetic\<close>

definition INT_MIN :: int where
  "INT_MIN = - 2147483648"

definition wrap_int :: "int \<Rightarrow> int" where
  "wrap_int x = (x + 2 ^ 31) mod 2 ^ 32 - 2 ^ 31"

lemma wrap_int_id: "INT_MIN \<le> x \<Longrightarrow> x \<le> INT_MAX \<Longrightarrow> wrap_int x = x"
  by (simp add: wrap_int_def INT_MIN_def INT_MAX_def)

section \<open>Queries\<close>

definition GetItemCount :: "'u nav_manager \<Rightarrow> int" where
  "GetItemCount m = int (length (sc_items m))"

definition GetItemAtIndex :: "int \<Rightarrow> 'u nav_manager \<Rightarrow> item_ref option" where
  "GetItemAtIndex index m = itemAtIndex index m"

definition GetIndexOfItem :: "item_ref \<Rightarrow> 'u nav_manager \<Rightarrow> int" where
  "GetIndexOfItem item m = indexOfItem item m"

definition GetLastCommittedItemIndexInCurrentOrRestoredSession :: "'u nav_manager \<Rightarrow> int" where
  "GetLastCommittedItemIndexInCurrentOrRestoredSession m =
     (if GetItemCount m = 0 then - 1 else lastCommittedItemIndex m)"

definition GetLastCommittedItemIndex :: "'u web_lib \<Rightarrow> 'u nav_manager \<Rightarrow> int" where
  "GetLastCommittedItemIndex W m =
     (if IsRestoreSessionInProgress m then - 1
      else case lastCommittedItem m of
             None \<Rightarrow> - 1
           | Some r \<Rightarrow>
               (case deref m r of
                  None \<Rightarrow> - 1
                | Some item \<Rightarrow>
                    if IsRestoreSessionUrl (gl W) (item_url item) then - 1
                    else GetLastCommittedItemIndexInCurrentOrRestoredSession m))"

definition GetPendingItem :: "'u nav_manager \<Rightarrow> item_ref option" where
  "GetPendingItem m = (if IsRestoreSessionInProgress m then None else pendingItem m)"

definition GetPendingItemIndex :: "'u web_lib \<Rightarrow> 'u nav_manager \<Rightarrow> int" where
  "GetPendingItemIndex W m =
     (if GetPendingItem m \<noteq> None
      then if pendingItemIndex m \<noteq> - 1 then pendingItemIndex m else GetLastCommittedItemIndex W m
      else - 1)"

definition GetTransientItem :: "'u nav_manager \<Rightarrow> item_ref option" where
  "GetTransientItem m = transientItem m"

definition GetVisibleItem :: "'u nav_manager \<Rightarrow> item_ref option" where
  "GetVisibleItem m = visibleItem m"

definition GetBackwardItems :: "'u web_lib \<Rightarrow> 'u nav_manager \<Rightarrow> item_ref list option" where
  "GetBackwardItems W m = backwardItems W m"

definition GetForwardItems :: "'u web_lib \<Rightarrow> 'u nav_manager \<Rightarrow> item_ref list" where
  "GetForwardItems W m = forwardItems W m"

definition CanPruneAllButLastCommittedItem :: "'u nav_manager \<Rightarrow> bool" where
  "CanPruneAllButLastCommittedItem m = canPruneAllButLastCommittedItem m"

text \<open>The loops that search backwards from an index; the argument is the index plus one.\<close>

fun last_non_redirected :: "'u web_lib \<Rightarrow> 'u nav_manager \<Rightarrow> nat \<Rightarrow> item_ref option option" where
  "last_non_redirected W m 0 = Some None"
| "last_non_redirected W m (Suc index) = do {
     item \<leftarrow> deref m (Committed index);
     if \<not> PageTransitionIsRedirect W (transition_type item) then Some (Some (Committed index))
     else last_non_redirected W m index }"

definition GetLastCommittedNonRedirectedItem :: "'u web_lib \<Rightarrow> 'u nav_manager \<Rightarrow> item_ref option option" where
  "GetLastCommittedNonRedirectedItem W m =
     (if GetItemCount m = 0 then Some None
      else last_non_redirected W m (nat (GetLastCommittedItemIndex W m + 1)))"

fun last_with_user_agent :: "'u web_lib \<Rightarrow> 'u nav_manager \<Rightarrow> nat \<Rightarrow> item_ref option option" where
  "last_with_user_agent W m 0 = Some None"
| "last_with_user_agent W m (Suc index) = do {
     item \<leftarrow> deref m (Committed index);
     if URLNeedsUserAgentType (gl W) (item_url item) then Some (Some (Committed index))
     else last_with_user_agent W m index }"

definition GetLastCommittedItemWithUserAgentType ::
  "'u web_lib \<Rightarrow> 'u nav_manager \<Rightarrow> item_ref option option" where
  "GetLastCommittedItemWithUserAgentType W m =
     last_with_user_agent W m (nat (GetLastCommittedItemIndexInCurrentOrRestoredSession m + 1))"

definition GetCommittedItemIndexWithUniqueID :: "int \<Rightarrow> 'u nav_manager \<Rightarrow> int" where
  "GetCommittedItemIndexWithUniqueID uid m = find_index (\<lambda>item. unique_id item = uid) (sc_items m)"

definition GetCommittedItemWithUniqueID :: "int \<Rightarrow> 'u nav_manager \<Rightarrow> item_ref option" where
  "GetCommittedItemWithUniqueID uid m =
     (let index = GetCommittedItemIndexWithUniqueID uid m in
      if index \<noteq> - 1 then itemAtIndex index m else None)"

definition GetItemWithUniqueID :: "int \<Rightarrow> 'u nav_manager \<Rightarrow> item_ref option" where
  "GetItemWithUniqueID uid m =
     (if map_option unique_id (sc_transientItem m) = Some uid then Some Transient
      else case pendingItem m of
             Some r \<Rightarrow>
               if map_option unique_id (deref m r) = Some uid then Some r
               else GetCommittedItemWithUniqueID uid m
           | None \<Rightarrow> GetCommittedItemWithUniqueID uid m)"

section \<open>Offsets\<close>

definition redirect_at :: "'u web_lib \<Rightarrow> 'u nav_manager \<Rightarrow> nat \<Rightarrow> bool" where
  "redirect_at W m i \<longleftrightarrow> i < length (sc_items m) \<and>
     PageTransitionIsRedirect W (transition_type (sc_items m ! i))"

text \<open>The inner loop of going back: \<open>while (result > 0)\<close> skip an item that is a redirect.\<close>

fun skip_back :: "'u web_lib \<Rightarrow> 'u nav_manager \<Rightarrow> nat \<Rightarrow> nat" where
  "skip_back W m 0 = 0"
| "skip_back W m (Suc i) = (if redirect_at W m (Suc i) then skip_back W m i else Suc i)"

text \<open>The outer loop: \<open>offset\<close> counts up to 0 (the argument is its absolute value).\<close>

fun go_back_loop :: "'u web_lib \<Rightarrow> 'u nav_manager \<Rightarrow> nat \<Rightarrow> int \<Rightarrow> nat \<times> int" where
  "go_back_loop W m 0 result = (0, result)"
| "go_back_loop W m (Suc n) result =
     (if result > 0 then go_back_loop W m n (int (skip_back W m (nat result)) - 1)
      else (Suc n, result))"

function skip_forward :: "'u web_lib \<Rightarrow> 'u nav_manager \<Rightarrow> int \<Rightarrow> int" where
  "skip_forward W m result =
     (if result + 1 < GetItemCount m \<and> redirect_at W m (nat (result + 1))
      then skip_forward W m (result + 1) else result)"
  by pat_completeness auto
termination by (relation "measure (\<lambda>(W, m, r). nat (GetItemCount m - r))") auto

declare skip_forward.simps [simp del]

fun go_forward_loop :: "'u web_lib \<Rightarrow> 'u nav_manager \<Rightarrow> nat \<Rightarrow> int \<Rightarrow> nat \<times> int" where
  "go_forward_loop W m 0 result = (0, result)"
| "go_forward_loop W m (Suc n) result =
     (if result < GetItemCount m then go_forward_loop W m n (skip_forward W m (result + 1))
      else (Suc n, result))"

definition GetIndexForOffset :: "'u web_lib \<Rightarrow> int \<Rightarrow> 'u nav_manager \<Rightarrow> int" where
  "GetIndexForOffset W offset m =
     (let result = (if pendingItemIndex m = - 1 then GetLastCommittedItemIndex W m else pendingItemIndex m)
      in if offset < 0
         then let offset = (if GetTransientItem m \<noteq> None \<and> pendingItemIndex m = - 1
                            then offset + 1 else offset);
                  (remaining, result) = go_back_loop W m (nat (- offset)) result;
                  result = wrap_int (result - int remaining)
              in if result > GetItemCount m then INT_MIN else result
         else if offset > 0
         then let (remaining, result) = go_forward_loop W m (nat offset) result;
                  result = wrap_int (result + int remaining)
              in if result < 0 then INT_MAX else result
         else result)"

definition CanGoToOffset :: "'u web_lib \<Rightarrow> int \<Rightarrow> 'u nav_manager \<Rightarrow> bool" where
  "CanGoToOffset W offset m \<longleftrightarrow>
     (let index = GetIndexForOffset W offset m in 0 \<le> index \<and> index < GetItemCount m)"

definition CanGoBack :: "'u web_lib \<Rightarrow> 'u nav_manager \<Rightarrow> bool" where
  "CanGoBack W m = CanGoToOffset W (- 1) m"

definition CanGoForward :: "'u web_lib \<Rightarrow> 'u nav_manager \<Rightarrow> bool" where
  "CanGoForward W m = CanGoToOffset W 1 m"

section \<open>Operations\<close>

definition NavigationManagerImpl :: "'u nav_manager" where
  "NavigationManagerImpl =
     \<lparr>sc_items = [], lastCommittedItemIndex = - 1, previousItemIndex = - 1, pendingItemIndex = - 1,
      sc_pendingItem = None, sc_transientItem = None, sc_timeSmoother = new_time_smoother,
      sc_browserState = None, sc_navigationManager = False, nm_browser_state = None,
      transient_url_rewriters = [], delegate_calls = [], unique_id_counter = 0\<rparr>"

definition SetBrowserState :: "nat option \<Rightarrow> 'u nav_manager \<Rightarrow> 'u nav_manager option" where
  "SetBrowserState browser_state m = setBrowserState browser_state (m\<lparr>nm_browser_state := browser_state\<rparr>)"

definition InitializeSession :: "'u nav_manager \<Rightarrow> 'u nav_manager option" where
  "InitializeSession m = setNavigationManager True (initWithBrowserState (nm_browser_state m) m)"

definition Restore :: "int \<Rightarrow> 'u navigation_item list \<Rightarrow> 'u nav_manager \<Rightarrow> 'u nav_manager option" where
  "Restore last_committed_item_index items m = do {
     check (GetItemCount m = 0 \<and> GetPendingItem m = None);
     check (last_committed_item_index < int (length items));
     check (items = [] \<or> last_committed_item_index \<ge> 0);
     setNavigationManager True
       (initWithNavigationItems (nm_browser_state m) items last_committed_item_index m) }"

definition UpdatePendingItemUserAgentType ::
  "'u web_lib \<Rightarrow> user_agent_override_option \<Rightarrow> item_ref option \<Rightarrow> item_ref \<Rightarrow> 'u nav_manager
   \<Rightarrow> 'u nav_manager option" where
  "UpdatePendingItemUserAgentType W override_option inherit_from_item pending_item m = do {
     pending \<leftarrow> deref m pending_item;
     check (user_agent pending \<noteq> UA_NONE \<or> override_option = UAO_INHERIT);
     check (user_agent pending \<noteq> UA_DESKTOP);
     if user_agent pending = UA_NONE then Some m
     else (case override_option of
             UAO_DESKTOP \<Rightarrow> update_item pending_item (SetUserAgentType W UA_DESKTOP) m
           | UAO_MOBILE \<Rightarrow> update_item pending_item (SetUserAgentType W UA_MOBILE) m
           | UAO_INHERIT \<Rightarrow>
               (case inherit_from_item of
                  None \<Rightarrow> Some m
                | Some r \<Rightarrow> do {
                    inherit_from \<leftarrow> deref m r;
                    check (user_agent inherit_from \<noteq> UA_NONE);
                    update_item pending_item (SetUserAgentType W (user_agent inherit_from)) m })) }"

definition AddTransientItem :: "'u web_lib \<Rightarrow> int \<Rightarrow> 'u \<Rightarrow> 'u nav_manager \<Rightarrow> 'u nav_manager option" where
  "AddTransientItem W now url m = do {
     m \<leftarrow> addTransientItemWithURL W now url m;
     item \<leftarrow> (if GetPendingItem m \<noteq> None then Some (GetPendingItem m)
              else GetLastCommittedItemWithUserAgentType W m);
     (case item of
        None \<Rightarrow> Some m
      | Some r \<Rightarrow> do {
          i \<leftarrow> deref m r;
          check (user_agent i \<noteq> UA_NONE);
          update_item Transient (SetUserAgentType W (user_agent i)) m }) }"

definition AddPendingItem ::
  "'u web_lib \<Rightarrow> 'u \<Rightarrow> 'u referrer \<Rightarrow> page_transition \<Rightarrow> navigation_initiation_type
   \<Rightarrow> user_agent_override_option \<Rightarrow> 'u nav_manager \<Rightarrow> 'u nav_manager option" where
  "AddPendingItem W url referrer transition initiation override_option m = do {
     m \<leftarrow> addPendingItem W url referrer transition initiation override_option m;
     (case pendingItem m of
        None \<Rightarrow> Some m
      | Some pending \<Rightarrow> do {
          inherit_from \<leftarrow> GetLastCommittedItemWithUserAgentType W m;
          UpdatePendingItemUserAgentType W override_option inherit_from pending m }) }"

definition CommitPendingItem :: "int \<Rightarrow> 'u nav_manager \<Rightarrow> 'u nav_manager option" where
  "CommitPendingItem now m = commitPendingItem now m"

definition DiscardNonCommittedItems :: "'u nav_manager \<Rightarrow> 'u nav_manager option" where
  "DiscardNonCommittedItems m = discardNonCommittedItems m"

definition RemoveItemAtIndex :: "'u web_lib \<Rightarrow> int \<Rightarrow> 'u nav_manager \<Rightarrow> (bool \<times> 'u nav_manager) option" where
  "RemoveItemAtIndex W index m =
     (if index = GetLastCommittedItemIndex W m \<or> index = GetPendingItemIndex W m then Some (False, m)
      else if index < 0 \<or> index \<ge> GetItemCount m then Some (False, m)
      else do { m \<leftarrow> removeItemAtIndex index m; Some (True, m) })"

definition CopyStateFromAndPrune :: "'u web_lib \<Rightarrow> 'u nav_manager \<Rightarrow> 'u nav_manager \<Rightarrow> 'u nav_manager option" where
  "CopyStateFromAndPrune W source m = copyStateFromSessionControllerAndPrune W source m"

definition AddPushStateItemIfNecessary ::
  "'u web_lib \<Rightarrow> int \<Rightarrow> 'u \<Rightarrow> string option \<Rightarrow> page_transition \<Rightarrow> 'u nav_manager \<Rightarrow> 'u nav_manager option" where
  "AddPushStateItemIfNecessary W now url state_object transition m =
     pushNewItemWithURL W now url state_object transition m"

definition AddTransientURLRewriter :: "'u url_rewriter option \<Rightarrow> 'u nav_manager \<Rightarrow> 'u nav_manager option" where
  "AddTransientURLRewriter rewriter m = do {
     check (rewriter \<noteq> None);
     Some (m\<lparr>transient_url_rewriters := transient_url_rewriters m @ [the rewriter]\<rparr>) }"

definition UpdatePendingItemUrl :: "'u web_lib \<Rightarrow> 'u \<Rightarrow> 'u nav_manager \<Rightarrow> 'u nav_manager option" where
  "UpdatePendingItemUrl W url m =
     (case pendingItem m of
        None \<Rightarrow> Some m
      | Some r \<Rightarrow> do {
          pending \<leftarrow> deref m r;
          if url = item_url pending then Some m
          else do {
            check (GetTransientItem m = None);
            update_item r (\<lambda>i. Some (ResetHttpRequestHeaders (SetPostData None
              (SetVirtualURL W url (SetURL url i))))) m } })"

definition UpdateCurrentItemForReplaceState :: "'u \<Rightarrow> string option \<Rightarrow> 'u nav_manager \<Rightarrow> 'u nav_manager option" where
  "UpdateCurrentItemForReplaceState url state_object m = do {
     check (GetTransientItem m = None);
     current_item \<leftarrow> GetCurrentItemImpl m;
     update_item current_item (\<lambda>i. Some (SetPostData None (SetHasStateBeenReplaced True
       (SetSerializedStateObject state_object (SetURL url i))))) m }"

text \<open>\<open>RewriteItemURLIfNecessary\<close>, applied to a restored item before it enters the history.\<close>

definition RewriteItemURLIfNecessary :: "'u web_lib \<Rightarrow> 'u navigation_item \<Rightarrow> 'u navigation_item" where
  "RewriteItemURLIfNecessary W item =
     (let (rewritten, url) = RewriteURLIfNecessary W (item_url item) in
      if rewritten
      then let virtual = item_url item in SetVirtualURL W virtual (SetURL url item)
      else item)"

definition FinishGoToIndex ::
  "'u web_lib \<Rightarrow> nat \<Rightarrow> navigation_initiation_type \<Rightarrow> bool \<Rightarrow> 'u nav_manager \<Rightarrow> 'u nav_manager option" where
  "FinishGoToIndex W index type has_user_gesture m = do {
     let to_item = Committed index;
     let previous_item = GetLastCommittedItem W m;
     m \<leftarrow> update_item to_item (\<lambda>i. Some (SetTransitionType
            (or (transition_type i) (PAGE_TRANSITION_FORWARD_BACK W)) i)) m;
     same_document_navigation \<leftarrow> isSameDocumentNavigationBetweenItem W previous_item (Some to_item) m;
     if same_document_navigation
     then do {
       m \<leftarrow> goToItemAtIndex (int index) True m;
       Some (tell (OnGoToIndexSameDocumentNavigation type has_user_gesture) m) }
     else do {
       m \<leftarrow> discardNonCommittedItems m;
       m \<leftarrow> setPendingItemIndex (int index) m;
       Some (tell (LoadCurrentItem type) m) } }"

definition GoToIndex ::
  "'u web_lib \<Rightarrow> int \<Rightarrow> navigation_initiation_type \<Rightarrow> bool \<Rightarrow> 'u nav_manager \<Rightarrow> 'u nav_manager option" where
  "GoToIndex W index initiation has_user_gesture m =
     (if index < 0 \<or> index \<ge> GetItemCount m then None
      else do {
        let m = (if GetTransientItem m = None then tell RecordPageStateInNavigationItem m else m);
        let m = tell ClearTransientContent m;
        r \<leftarrow> GetItemAtIndex index m;
        to_item \<leftarrow> deref m r;
        let previous_item = (if GetPendingItem m \<noteq> None then GetPendingItem m else GetLastCommittedItem W m);
        let previous_item_user_agent_type =
          (case previous_item of Some p \<Rightarrow> user_agent (the (deref m p)) | None \<Rightarrow> UA_NONE);
        let m = (if user_agent to_item \<noteq> UA_NONE \<and> user_agent to_item \<noteq> previous_item_user_agent_type
                 then tell WillChangeUserAgentType m else m);
        FinishGoToIndex W (nat index) initiation has_user_gesture m })"

definition GoBack :: "'u web_lib \<Rightarrow> 'u nav_manager \<Rightarrow> 'u nav_manager option" where
  "GoBack W m = GoToIndex W (GetIndexForOffset W (- 1) m) BROWSER_INITIATED True m"

definition GoForward :: "'u web_lib \<Rightarrow> 'u nav_manager \<Rightarrow> 'u nav_manager option" where
  "GoForward W m = GoToIndex W (GetIndexForOffset W 1 m) BROWSER_INITIATED True m"

record 'u web_load_params =
  p_url :: 'u
  p_virtual_url :: 'u
  p_referrer :: "'u referrer"
  p_transition_type :: page_transition
  p_user_agent_override_option :: user_agent_override_option
  p_is_renderer_initiated :: bool
  p_extra_headers :: "(string \<rightharpoonup> string) option"
  p_post_data :: "string option"

definition WebLoadParams :: "'u web_lib \<Rightarrow> 'u \<Rightarrow> 'u web_load_params" where
  "WebLoadParams W url = \<lparr>p_url = url, p_virtual_url = empty_gurl (gl W), p_referrer = Referrer W,
     p_transition_type = PAGE_TRANSITION_LINK W, p_user_agent_override_option = UAO_INHERIT,
     p_is_renderer_initiated = False, p_extra_headers = None, p_post_data = None\<rparr>"

text \<open>The copy constructor copies every member but \<open>virtual_url\<close>, and so does assignment.\<close>

definition WebLoadParams_copy :: "'u web_lib \<Rightarrow> 'u web_load_params \<Rightarrow> 'u web_load_params" where
  "WebLoadParams_copy W other = other\<lparr>p_virtual_url := empty_gurl (gl W)\<rparr>"

definition WebLoadParams_assign :: "'u web_load_params \<Rightarrow> 'u web_load_params \<Rightarrow> 'u web_load_params" where
  "WebLoadParams_assign other this = other\<lparr>p_virtual_url := p_virtual_url this\<rparr>"

text \<open>The hash-change mark and the virtual URL that \<open>LoadURLWithParams\<close> puts on the pending item.\<close>

definition mark_pending :: "'u web_lib \<Rightarrow> 'u web_load_params \<Rightarrow> 'u \<Rightarrow> 'u navigation_item \<Rightarrow> 'u navigation_item" where
  "mark_pending W params last_committed_url i =
     (let pending_url = item_url i;
          i = (if last_committed_url \<noteq> pending_url \<and> EqualsIgnoringRef W last_committed_url pending_url
               then SetIsCreatedFromHashChange True i else i)
      in if is_valid (gl W) (p_virtual_url params) then SetVirtualURL W (p_virtual_url params) i else i)"

text \<open>The headers and the POST data it puts on the added item.\<close>

definition add_request_data :: "'u web_load_params \<Rightarrow> 'u navigation_item \<Rightarrow> 'u navigation_item option" where
  "add_request_data params i = do {
     let i = (if p_extra_headers params \<noteq> None then AddHttpRequestHeaders (p_extra_headers params) i else i);
     if p_post_data params \<noteq> None
     then do {
       check (case http_request_headers i of Some h \<Rightarrow> h ''Content-Type'' \<noteq> None | None \<Rightarrow> False);
       Some (SetShouldSkipRepostFormConfirmation True (SetPostData (p_post_data params) i)) }
     else Some i }"

definition LoadURLWithParams :: "'u web_lib \<Rightarrow> 'u web_load_params \<Rightarrow> 'u nav_manager \<Rightarrow> 'u nav_manager option" where
  "LoadURLWithParams W params m = do {
     check (and (p_transition_type params) (PAGE_TRANSITION_FORWARD_BACK W) = 0);
     let m = tell RecordPageStateInNavigationItem (tell ClearTransientContent m);
     let initiation = (if p_is_renderer_initiated params then RENDERER_INITIATED else BROWSER_INITIATED);
     m \<leftarrow> AddPendingItem W (p_url params) (p_referrer params) (p_transition_type params) initiation
            (p_user_agent_override_option params) m;
     let pending_item = pendingItem m;
     m \<leftarrow> (case pending_item of
             Some r \<Rightarrow> do {
               let last_committed_url =
                 (case lastCommittedItem m of
                    Some c \<Rightarrow> GetVirtualURL W (the (deref m c)) | None \<Rightarrow> empty_gurl (gl W));
               update_item r (\<lambda>i. Some (mark_pending W params last_committed_url i)) m }
           | None \<Rightarrow> Some m);
     check (GetTransientItem m = None);
     added_item \<leftarrow> (case pending_item of Some r \<Rightarrow> Some r | None \<Rightarrow> lastCommittedItem m);
     m \<leftarrow> update_item added_item (add_request_data params) m;
     Some (tell (LoadCurrentItem initiation) m) }"

datatype reload_type = RELOAD_NORMAL | ORIGINAL_REQUEST_URL

definition Reload :: "'u web_lib \<Rightarrow> reload_type \<Rightarrow> 'u nav_manager \<Rightarrow> 'u nav_manager option" where
  "Reload W type m =
     (if IsRestoreSessionInProgress m then Some m
      else if GetTransientItem m = None \<and> GetPendingItem m = None \<and> GetLastCommittedItem W m = None
        then Some m
      else do {
        m \<leftarrow> (if type = ORIGINAL_REQUEST_URL
              then do {
                reload_item \<leftarrow> (if GetTransientItem m \<noteq> None then GetTransientItem m
                               else if GetPendingItem m \<noteq> None then GetPendingItem m
                               else GetLastCommittedItem W m);
                update_item reload_item (\<lambda>i. Some (SetURL (original_request_url i) i)) m }
              else Some m);
        Some (tell D_Reload m) })"

text \<open>The item that \<open>ReloadWithUserAgentType\<close> reloads.\<close>

definition is_redirect_ref :: "'u web_lib \<Rightarrow> 'u nav_manager \<Rightarrow> item_ref option \<Rightarrow> bool" where
  "is_redirect_ref W m r \<longleftrightarrow>
     (case r of None \<Rightarrow> True
      | Some r' \<Rightarrow> PageTransitionIsRedirect W (transition_type (the (deref m r'))))"

definition reload_candidate :: "'u web_lib \<Rightarrow> 'u nav_manager \<Rightarrow> item_ref option option" where
  "reload_candidate W m =
     (let last_non_redirect_item = GetTransientItem m;
          last_non_redirect_item = (if is_redirect_ref W m last_non_redirect_item then GetVisibleItem m
                                    else last_non_redirect_item)
      in if is_redirect_ref W m last_non_redirect_item then GetLastCommittedNonRedirectedItem W m
         else Some last_non_redirect_item)"

definition ReloadWithUserAgentType :: "'u web_lib \<Rightarrow> user_agent_type \<Rightarrow> 'u nav_manager \<Rightarrow> 'u nav_manager option" where
  "ReloadWithUserAgentType W type m = do {
     check (type \<noteq> UA_NONE);
     let m = tell WillChangeUserAgentType m;
     candidate \<leftarrow> reload_candidate W m;
     (case candidate of
        None \<Rightarrow> Some m
      | Some r \<Rightarrow> do {
          item \<leftarrow> deref m r;
          let reload_url = original_request_url item;
          let reload_url = (if is_empty W reload_url then GetVirtualURL W item else reload_url);
          reload_url \<leftarrow>
            (if IsSlimNavigationManagerEnabled W
             then do {
               target_url \<leftarrow> (if IsRestoreSessionUrl (gl W) reload_url
                              then ExtractTargetURL (gl W) reload_url else Some None);
               let reload_url = (case target_url of Some t \<Rightarrow> t | None \<Rightarrow> reload_url);
               Some (CreateRedirectUrl (gl W) reload_url) }
             else Some reload_url);
          let params = WebLoadParams W reload_url;
          let params = (if GetVirtualURL W item \<noteq> reload_url
                        then params\<lparr>p_virtual_url := GetVirtualURL W item\<rparr> else params);
          let params = params\<lparr>p_referrer := item_referrer item,
            p_transition_type := PAGE_TRANSITION_RELOAD W,
            p_user_agent_override_option := (if type = UA_DESKTOP then UAO_DESKTOP else UAO_MOBILE)\<rparr>;
          LoadURLWithParams W params m }) }"

definition nm_LoadIfNecessary :: "'u nav_manager \<Rightarrow> 'u nav_manager" where
  "nm_LoadIfNecessary m = tell LoadIfNecessary m"

end
