(* ===== verification/Navigation_Laws.thy ===== *)
theory Navigation_Laws
  imports Navigation_Manager
begin

text \<open>
  The invariant of the session history and its preservation by every operation of the controller
  and of the manager, and the facts about single operations on which the properties rest.
\<close>

named_theorems nav_frame \<open>operations that leave the shape of the history alone\<close>

section \<open>The invariant\<close>

text \<open>
  \<open>SetPreviousItemIndex\<close> stores any index it is given. The index of the previous item is part of the
  invariant only where it is \<open>checked\<close>.
\<close>

definition nav_invp :: "bool \<Rightarrow> 'u nav_manager \<Rightarrow> bool" where
  "nav_invp checked m \<longleftrightarrow>
     (lastCommittedItemIndex m = - 1 \<longleftrightarrow> sc_items m = []) \<and>
     - 1 \<le> lastCommittedItemIndex m \<and> lastCommittedItemIndex m < int (length (sc_items m)) \<and>
     (checked \<longrightarrow> - 1 \<le> previousItemIndex m \<and> previousItemIndex m < int (length (sc_items m))) \<and>
     - 1 \<le> pendingItemIndex m \<and> pendingItemIndex m < int (length (sc_items m)) \<and>
     (pendingItemIndex m = - 1 \<or> sc_pendingItem m = None) \<and>
     sc_navigationManager m"

abbreviation nav_inv :: "'u nav_manager \<Rightarrow> bool" where
  "nav_inv \<equiv> nav_invp True"

lemmas nav_inv_def = nav_invp_def

lemma nav_inv_weaken: "nav_invp st m \<Longrightarrow> nav_invp False m"
  by (simp add: nav_invp_def)

text \<open>The part of the state on which the invariant depends.\<close>

definition shape :: "'u nav_manager \<Rightarrow> nat \<times> int \<times> int \<times> int \<times> bool \<times> bool" where
  "shape m = (length (sc_items m), lastCommittedItemIndex m, previousItemIndex m, pendingItemIndex m,
     sc_pendingItem m = None, sc_navigationManager m)"

lemma nav_inv_shape: "shape m' = shape m \<Longrightarrow> nav_invp st m' = nav_invp st m"
  by (auto simp: shape_def nav_inv_def)

lemma shape_tell [simp]: "shape (tell e m) = shape m"
  by (simp add: shape_def tell_def)

lemma nav_inv_tell [simp]: "nav_invp st (tell e m) = nav_invp st m"
  by (rule nav_inv_shape) simp

lemma tell_simps [simp]:
  "sc_items (tell e m) = sc_items m" "lastCommittedItemIndex (tell e m) = lastCommittedItemIndex m"
  "previousItemIndex (tell e m) = previousItemIndex m" "pendingItemIndex (tell e m) = pendingItemIndex m"
  "sc_pendingItem (tell e m) = sc_pendingItem m" "sc_transientItem (tell e m) = sc_transientItem m"
  "sc_navigationManager (tell e m) = sc_navigationManager m"
  "delegate_calls (tell e m) = delegate_calls m @ [e]"
  "transient_url_rewriters (tell e m) = transient_url_rewriters m"
  "unique_id_counter (tell e m) = unique_id_counter m"
  by (simp_all add: tell_def)

lemma deref_tell [simp]: "deref (tell e m) r = deref m r"
  by (cases r) simp_all

lemma item_refs_tell [simp]:
  "pendingItem (tell e m) = pendingItem m" "transientItem (tell e m) = transientItem m"
  "lastCommittedItem (tell e m) = lastCommittedItem m" "visibleItem (tell e m) = visibleItem m"
  "GetPendingItem (tell e m) = GetPendingItem m" "GetTransientItem (tell e m) = GetTransientItem m"
  "GetLastCommittedItem W (tell e m) = GetLastCommittedItem W m"
  by (auto simp: pendingItem_def transientItem_def lastCommittedItem_def visibleItem_def Let_def
      GetPendingItem_def GetTransientItem_def GetLastCommittedItem_def IsRestoreSessionInProgress_def
      split: option.splits)

lemma update_item_shape: "update_item r f m = Some m' \<Longrightarrow> shape m' = shape m"
  by (cases r) (auto simp: update_item_def shape_def bind_eq_Some_conv split: if_splits)

lemma update_item_inv: "update_item r f m = Some m' \<Longrightarrow> nav_invp st m \<Longrightarrow> nav_invp st m'"
  using nav_inv_shape update_item_shape by blast

lemma setPendingItemIndex_Some:
  "setPendingItemIndex i m = Some m' \<longleftrightarrow>
     - 1 \<le> i \<and> i < int (length (sc_items m)) \<and> m' = m\<lparr>pendingItemIndex := i\<rparr>"
  by (auto simp: setPendingItemIndex_def bind_check pendingItem_def Let_def split: if_splits)

lemma setPendingItemIndex_none [simp]: "setPendingItemIndex (- 1) m = Some (m\<lparr>pendingItemIndex := - 1\<rparr>)"
  by (simp add: setPendingItemIndex_Some)

lemma discardNonCommittedItems_eq [simp]:
  "discardNonCommittedItems m = Some (m\<lparr>sc_transientItem := None, sc_pendingItem := None, pendingItemIndex := - 1\<rparr>)"
  by (simp add: discardNonCommittedItems_def discardTransientItem_def)

lemma nav_inv_discard [simp]:
  "nav_invp st m \<Longrightarrow> nav_invp st (m\<lparr>sc_transientItem := None, sc_pendingItem := None, pendingItemIndex := - 1\<rparr>)"
  by (auto simp: nav_inv_def)

lemma CreateNavigationItem_frame:
  "CreateNavigationItem W u r t i m = Some (item, m') \<Longrightarrow>
   m' = m\<lparr>unique_id_counter := unique_id_counter m + 1, transient_url_rewriters := []\<rparr>"
  by (auto simp: CreateNavigationItem_def RemoveTransientURLRewriters_def GetUniqueIDInConstructor_def
      Let_def bind_eq_Some_conv)

lemma itemWithURL_frame:
  "itemWithURL W u r t i m = Some (item, m') \<Longrightarrow>
   m' = m\<lparr>unique_id_counter := unique_id_counter m + 1, transient_url_rewriters := []\<rparr>"
  by (auto simp: itemWithURL_def bind_check dest: CreateNavigationItem_frame split: if_splits)

lemma nav_inv_frame [simp]:
  "nav_invp st (m\<lparr>unique_id_counter := k\<rparr>) = nav_invp st m"
  "nav_invp st (m\<lparr>transient_url_rewriters := rs\<rparr>) = nav_invp st m"
  "nav_invp st (m\<lparr>sc_transientItem := t\<rparr>) = nav_invp st m"
  "nav_invp st (m\<lparr>sc_timeSmoother := s\<rparr>) = nav_invp st m"
  "nav_invp st (m\<lparr>delegate_calls := d\<rparr>) = nav_invp st m"
  by (simp_all add: nav_inv_def)

section \<open>Operations of the controller\<close>

lemma addPendingItem_cases:
  assumes "addPendingItem W u r t i o' m = Some m'"
  obtains (duplicate) "m' = m\<lparr>sc_transientItem := None, pendingItemIndex := - 1\<rparr>"
      "shouldCreatePendingItemWithURL W u t o' (m\<lparr>sc_transientItem := None, pendingItemIndex := - 1\<rparr>) = Some False"
  | (created) item where
      "itemWithURL W u r t i (m\<lparr>sc_transientItem := None, pendingItemIndex := - 1\<rparr>) =
         Some (item, m\<lparr>sc_transientItem := None, pendingItemIndex := - 1,
           unique_id_counter := unique_id_counter m + 1, transient_url_rewriters := []\<rparr>)"
      "m' = m\<lparr>sc_transientItem := None, pendingItemIndex := - 1, unique_id_counter := unique_id_counter m + 1,
           transient_url_rewriters := [], sc_pendingItem := Some item\<rparr>"
proof -
  let ?m = "m\<lparr>sc_transientItem := None, pendingItemIndex := - 1\<rparr>"
  from assms obtain create where c: "shouldCreatePendingItemWithURL W u t o' ?m = Some create"
    by (auto simp: addPendingItem_def discardTransientItem_def bind_eq_Some_conv)
  show ?thesis
  proof (cases create)
    case False
    with assms c show ?thesis by (intro duplicate) (auto simp: addPendingItem_def discardTransientItem_def)
  next
    case True
    with assms c obtain item m1 where i: "itemWithURL W u r t i ?m = Some (item, m1)"
      "m' = m1\<lparr>sc_pendingItem := Some item\<rparr>"
      by (auto simp: addPendingItem_def discardTransientItem_def bind_eq_Some_conv bind_check Let_def
          split: if_splits)
    moreover from itemWithURL_frame [OF i(1)] have "m1 = m\<lparr>sc_transientItem := None, pendingItemIndex := - 1,
           unique_id_counter := unique_id_counter m + 1, transient_url_rewriters := []\<rparr>" by simp
    ultimately show ?thesis by (intro created) auto
  qed
qed

lemma addPendingItem_inv: "addPendingItem W u r t i o' m = Some m' \<Longrightarrow> nav_invp st m \<Longrightarrow> nav_invp st m'"
  by (erule addPendingItem_cases) (auto simp: nav_inv_def)

lemma clearForwardItems_inv: "clearForwardItems m = Some m' \<Longrightarrow> nav_invp st m \<Longrightarrow> nav_invp st m'"
  by (auto simp: clearForwardItems_def bind_check discardTransientItem_def Let_def nav_inv_def
      split: if_splits)

text \<open>What \<open>-clearForwardItems\<close> reports to the delegate.\<close>

definition pruned_events :: "'u nav_manager \<Rightarrow> delegate_event list" where
  "pruned_events m =
     (if nat (lastCommittedItemIndex m + 1) < length (sc_items m)
      then [OnNavigationItemsPruned (length (sc_items m) - nat (lastCommittedItemIndex m + 1))] else [])"

lemma clearForwardItems_eq:
  assumes "nav_invp st m" "pendingItemIndex m = - 1"
  shows "clearForwardItems m = Some (m\<lparr>sc_transientItem := None,
      sc_items := take (nat (lastCommittedItemIndex m + 1)) (sc_items m),
      previousItemIndex := (if lastCommittedItemIndex m + 1 < int (length (sc_items m)) \<and>
        previousItemIndex m \<ge> lastCommittedItemIndex m + 1 then - 1 else previousItemIndex m),
      delegate_calls := delegate_calls m @ pruned_events m\<rparr>)"
proof (cases "nat (lastCommittedItemIndex m + 1) < length (sc_items m)")
  case True
  then have "\<not> int (length (sc_items m)) \<le> lastCommittedItemIndex m + 1" by linarith
  with True assms show ?thesis
    by (simp add: clearForwardItems_def discardTransientItem_def Let_def tell_def nav_inv_def
        pruned_events_def)
next
  case False
  then have g: "int (length (sc_items m)) \<le> lastCommittedItemIndex m + 1"
    "nat (lastCommittedItemIndex m + 1) \<ge> length (sc_items m)"
    using assms(1) by (auto simp: nav_inv_def)
  with assms False show ?thesis
    by (simp add: clearForwardItems_def discardTransientItem_def Let_def nav_inv_def pruned_events_def)
qed

lemma setLastCommittedItemIndex_simps [simp]:
  "sc_items (setLastCommittedItemIndex i m) = sc_items m"
  "lastCommittedItemIndex (setLastCommittedItemIndex i m) = i"
  "previousItemIndex (setLastCommittedItemIndex i m) = previousItemIndex m"
  "pendingItemIndex (setLastCommittedItemIndex i m) = pendingItemIndex m"
  "sc_pendingItem (setLastCommittedItemIndex i m) = sc_pendingItem m"
  "sc_transientItem (setLastCommittedItemIndex i m) = sc_transientItem m"
  "sc_navigationManager (setLastCommittedItemIndex i m) = sc_navigationManager m"
  "delegate_calls (setLastCommittedItemIndex i m) = delegate_calls m"
  "sc_timeSmoother (setLastCommittedItemIndex i m) = sc_timeSmoother m"
  by (simp_all add: setLastCommittedItemIndex_def RemoveTransientURLRewriters_def Let_def)

lemma nth_last_append: "i = length xs \<Longrightarrow> (xs @ [y]) ! i = y"
  by simp

text \<open>Commit of a new navigation, up to the timestamp and the notification.\<close>

lemma commit_pending_new:
  assumes "nav_invp st m" "pendingItemIndex m = - 1" "sc_pendingItem m = Some p"
  shows "\<exists>m'. commit_pending Pending m = Some m' \<and>
    sc_items m' = take (nat (lastCommittedItemIndex m + 1)) (sc_items m) @ [ResetForCommit p] \<and>
    lastCommittedItemIndex m' = lastCommittedItemIndex m + 1 \<and>
    previousItemIndex m' = lastCommittedItemIndex m \<and>
    pendingItemIndex m' = - 1 \<and> sc_pendingItem m' = None \<and> sc_transientItem m' = None \<and>
    sc_navigationManager m' \<and> sc_timeSmoother m' = sc_timeSmoother m \<and>
    delegate_calls m' = delegate_calls m @ pruned_events m"
proof -
  let ?m = "m\<lparr>sc_pendingItem := Some (ResetForCommit p)\<rparr>"
  have u: "update_item Pending (\<lambda>i. Some (ResetForCommit i)) m = Some ?m"
    using assms(3) by (simp add: update_item_def)
  have inv: "nav_invp st ?m" using update_item_inv [OF u assms(1)] .
  have ev: "pruned_events ?m = pruned_events m" by (simp add: pruned_events_def)
  have len: "min (length (sc_items m)) (nat (lastCommittedItemIndex m + 1)) = nat (lastCommittedItemIndex m + 1)"
    using assms(1) by (auto simp: nav_inv_def)
  have "0 \<le> lastCommittedItemIndex m + 1" using assms(1) by (simp add: nav_inv_def)
  then show ?thesis
    using assms inv len u clearForwardItems_eq [OF inv] ev
    by (simp add: commit_pending_def Let_def nav_inv_def)
qed

lemma commit_pending_history:
  assumes "nav_invp st m" "pendingItemIndex m \<noteq> - 1"
  shows "\<exists>m'. commit_pending (Committed (nat (pendingItemIndex m))) m = Some m' \<and>
    sc_items m' = (sc_items m)[nat (pendingItemIndex m) :=
      ResetForCommit (sc_items m ! nat (pendingItemIndex m))] \<and>
    lastCommittedItemIndex m' = pendingItemIndex m \<and> previousItemIndex m' = lastCommittedItemIndex m \<and>
    pendingItemIndex m' = - 1 \<and> sc_pendingItem m' = None \<and> sc_transientItem m' = sc_transientItem m \<and>
    sc_navigationManager m' \<and> sc_timeSmoother m' = sc_timeSmoother m \<and>
    delegate_calls m' = delegate_calls m"
proof -
  have "nat (pendingItemIndex m) < length (sc_items m)" "sc_pendingItem m = None" "sc_navigationManager m"
    using assms by (auto simp: nav_inv_def)
  then show ?thesis using assms(2)
    by (simp add: commit_pending_def update_item_def Let_def)
qed

lemma commit_pending_inv:
  assumes "commit_pending r m = Some m'" "pendingItem m = Some r" "nav_invp st m"
  shows "nav_invp st m'"
proof (cases "pendingItemIndex m = - 1")
  case True
  then obtain p where p: "sc_pendingItem m = Some p" "r = Pending"
    using assms(2) by (auto simp: pendingItem_def split: if_splits)
  from commit_pending_new [OF assms(3) True p(1)] assms(1,3) p(2) show ?thesis
    by (auto simp: nav_inv_def)
next
  case False
  then have "r = Committed (nat (pendingItemIndex m))" using assms(2) by (simp add: pendingItem_def)
  with commit_pending_history [OF assms(3) False] assms(1,3) False show ?thesis
    by (auto simp: nav_inv_def)
qed

lemma commitPendingItem_inv:
  assumes "commitPendingItem now m = Some m'" "nav_invp st m"
  shows "nav_invp st m'"
  using assms(1) unfolding commitPendingItem_def
proof (elim bind_SomeE check_SomeE)
  fix m1 item m2 m3
  assume m1: "(case pendingItem m of None \<Rightarrow> Some m | Some r \<Rightarrow> commit_pending r m) = Some m1"
    and m2: "(case item of None \<Rightarrow> Some m1
      | Some r \<Rightarrow> let (t, s) = GetSmoothedTime now (sc_timeSmoother m1)
          in update_item r (\<lambda>item. Some (SetTimestamp t item)) (m1\<lparr>sc_timeSmoother := s\<rparr>)) = Some m2"
    and m3: "(if sc_navigationManager m2 \<and> item \<noteq> None then nm_OnNavigationItemCommitted m2 else Some m2) = Some m3"
    and m': "Some m3 = Some m'"
  have "nav_invp st m1" using m1 assms(2) by (auto split: option.splits intro: commit_pending_inv)
  then have "nav_invp st m2" using m2 by (auto split: option.splits prod.splits dest!: update_item_inv)
  then show "nav_invp st m'" using m3 m'
    by (auto simp: nm_OnNavigationItemCommitted_def bind_eq_Some_conv split: if_splits)
qed

lemma commitPendingItem_new:
  assumes "nav_invp st m" "pendingItemIndex m = - 1" "sc_pendingItem m = Some p"
  shows "\<exists>m'. commitPendingItem now m = Some m' \<and>
    sc_items m' = take (nat (lastCommittedItemIndex m + 1)) (sc_items m) @
      [SetTimestamp (fst (GetSmoothedTime now (sc_timeSmoother m))) (ResetForCommit p)] \<and>
    lastCommittedItemIndex m' = lastCommittedItemIndex m + 1 \<and>
    previousItemIndex m' = lastCommittedItemIndex m \<and>
    pendingItem m' = None \<and> transientItem m' = None \<and>
    delegate_calls m' = delegate_calls m @ pruned_events m @
      [OnNavigationItemCommitted (Committed (nat (lastCommittedItemIndex m + 1)))]"
proof -
  obtain t s where ts: "GetSmoothedTime now (sc_timeSmoother m) = (t, s)" by fastforce
  obtain m1 where m1: "commit_pending Pending m = Some m1"
    "sc_items m1 = take (nat (lastCommittedItemIndex m + 1)) (sc_items m) @ [ResetForCommit p]"
    "lastCommittedItemIndex m1 = lastCommittedItemIndex m + 1" "previousItemIndex m1 = lastCommittedItemIndex m"
    "pendingItemIndex m1 = - 1" "sc_pendingItem m1 = None" "sc_transientItem m1 = None"
    "sc_navigationManager m1" "sc_timeSmoother m1 = sc_timeSmoother m"
    "delegate_calls m1 = delegate_calls m @ pruned_events m"
    using commit_pending_new [OF assms] by blast
  have lci: "0 \<le> lastCommittedItemIndex m + 1" "length (take (nat (lastCommittedItemIndex m + 1)) (sc_items m)) =
      nat (lastCommittedItemIndex m + 1)"
    using assms(1) by (auto simp: nav_inv_def)
  have pend: "pendingItem m = Some Pending" using assms by (simp add: pendingItem_def)
  let ?m2 = "m1\<lparr>sc_timeSmoother := s, sc_items := take (nat (lastCommittedItemIndex m + 1)) (sc_items m) @
      [SetTimestamp t (ResetForCommit p)]\<rparr>"
  let ?r = "Committed (nat (lastCommittedItemIndex m + 1))"
  have cur: "currentItem m1 = Some (Some ?r)"
    using m1 lci(1) by (simp add: currentItem_def GetCurrentItemImpl_def transientItem_def
        pendingItem_def lastCommittedItem_def)
  have "update_item ?r (\<lambda>item. Some (SetTimestamp t item)) (m1\<lparr>sc_timeSmoother := s\<rparr>) = Some ?m2"
    using m1(2) lci(2) by (simp add: update_item_def list_update_append nth_append)
  moreover have "nm_OnNavigationItemCommitted ?m2 = Some (tell (OnNavigationItemCommitted ?r) ?m2)"
    using m1(3) lci(1) by (simp add: nm_OnNavigationItemCommitted_def lastCommittedItem_def)
  ultimately have "commitPendingItem now m = Some (tell (OnNavigationItemCommitted ?r) ?m2)"
    using m1 pend ts cur by (simp add: commitPendingItem_def)
  then show ?thesis using m1 ts by (simp add: pendingItem_def transientItem_def)
qed

lemma addTransientItemWithURL_inv: "addTransientItemWithURL W now u m = Some m' \<Longrightarrow> nav_invp st m \<Longrightarrow> nav_invp st m'"
  unfolding addTransientItemWithURL_def
  by (elim bind_SomeE) (auto dest!: itemWithURL_frame split: prod.splits)

text \<open>Appending a committed item after the last committed one.\<close>

lemma append_committed_inv:
  assumes "clearForwardItems m = Some m'" "nav_invp st m"
  shows "nav_invp st (setLastCommittedItemIndex (int (length (sc_items m' @ [x])) - 1)
    (m'\<lparr>sc_items := sc_items m' @ [x], previousItemIndex := lastCommittedItemIndex m'\<rparr>))"
  using clearForwardItems_inv [OF assms] by (auto simp: nav_inv_def)

lemma nm_OnNavigationItemCommitted_inv: "nm_OnNavigationItemCommitted m = Some m' \<Longrightarrow> nav_invp st m' = nav_invp st m"
  by (auto simp: nm_OnNavigationItemCommitted_def bind_eq_Some_conv)

lemma make_pushed_item_frame:
  assumes "make_pushed_item W now u s t c m = Some (item, m')"
  shows "m' = m\<lparr>unique_id_counter := unique_id_counter m + 1, transient_url_rewriters := [],
    sc_timeSmoother := snd (GetSmoothedTime now (sc_timeSmoother m))\<rparr>"
  using assms unfolding make_pushed_item_def Let_def
  by (elim bind_SomeE) (auto split: prod.splits elim!: bind_SomeE dest!: itemWithURL_frame)

lemma append_committed_item_inv:
  assumes "append_committed_item item m = Some m'" "nav_invp st m"
  shows "nav_invp st m'"
proof -
  from assms(1) obtain m1 where "clearForwardItems m = Some m1"
    by (auto simp: append_committed_item_def bind_eq_Some_conv)
  with assms(1) append_committed_inv [OF _ assms(2), of m1 item] show ?thesis
    by (auto simp: append_committed_item_def Let_def split: if_splits dest: nm_OnNavigationItemCommitted_inv)
qed

lemma pushNewItemWithURL_inv: "pushNewItemWithURL W now u s t m = Some m' \<Longrightarrow> nav_invp st m \<Longrightarrow> nav_invp st m'"
  unfolding pushNewItemWithURL_def
  by (elim bind_SomeE check_SomeE)
     (auto split: prod.splits dest!: make_pushed_item_frame append_committed_item_inv)

lemma copyState_inv:
  assumes "copyStateFromSessionControllerAndPrune W s m = Some m'" "nav_invp st m"
  shows "nav_invp st m'"
  using assms unfolding copyStateFromSessionControllerAndPrune_def Let_def
  by (auto simp: nav_inv_def canPruneAllButLastCommittedItem_def bind_check split: if_splits)

lemma goToItemAtIndex_inv: "goToItemAtIndex i d m = Some m' \<Longrightarrow> nav_invp st m \<Longrightarrow> nav_invp st m'"
  by (auto simp: goToItemAtIndex_def nav_inv_def discardTransientItem_def Let_def split: if_splits)

lemma removeItemAtIndex_inv: "removeItemAtIndex i m = Some m' \<Longrightarrow> nav_invp st m \<Longrightarrow> nav_invp st m'"
  by (auto simp: removeItemAtIndex_def bind_check nav_inv_def tell_def remove_at_def Let_def
      split: if_splits)

section \<open>Operations of the manager\<close>

lemma InitializeSession_inv: "InitializeSession m = Some m' \<Longrightarrow> nav_invp st m'"
  by (auto simp: InitializeSession_def setNavigationManager_def initWithBrowserState_def bind_check Let_def
      nav_inv_def split: if_splits)

lemma Restore_inv: "Restore i items m = Some m' \<Longrightarrow> - 1 \<le> i \<Longrightarrow> nav_invp st m'"
  by (auto simp: Restore_def setNavigationManager_def initWithNavigationItems_def initWithBrowserState_def
      bind_check Let_def nav_inv_def split: if_splits)

lemma UpdatePendingItemUserAgentType_inv:
  "UpdatePendingItemUserAgentType W o' r p m = Some m' \<Longrightarrow> nav_invp st m \<Longrightarrow> nav_invp st m'"
  unfolding UpdatePendingItemUserAgentType_def
  by (elim bind_SomeE check_SomeE)
     (auto split: if_splits user_agent_override_option.splits option.splits elim!: bind_SomeE check_SomeE
        dest: update_item_inv)

lemma AddPendingItem_inv: "AddPendingItem W u r t i o' m = Some m' \<Longrightarrow> nav_invp st m \<Longrightarrow> nav_invp st m'"
  unfolding AddPendingItem_def
  by (elim bind_SomeE)
     (auto dest!: addPendingItem_inv split: option.splits elim!: bind_SomeE
        dest: UpdatePendingItemUserAgentType_inv)

lemma AddTransientItem_inv: "AddTransientItem W now u m = Some m' \<Longrightarrow> nav_invp st m \<Longrightarrow> nav_invp st m'"
  unfolding AddTransientItem_def
  by (elim bind_SomeE)
     (auto dest!: addTransientItemWithURL_inv split: option.splits elim!: bind_SomeE check_SomeE
        dest: update_item_inv)

lemma FinishGoToIndex_inv:
  assumes "FinishGoToIndex W i t g m = Some m'" "nav_invp st m"
  shows "nav_invp st m'"
proof -
  from assms(1) obtain m1 same where
    m1: "update_item (Committed i) (\<lambda>i. Some (SetTransitionType
            (or (transition_type i) (PAGE_TRANSITION_FORWARD_BACK W)) i)) m = Some m1" and
    m': "(if same
     then do {
       m \<leftarrow> goToItemAtIndex (int i) True m1;
       Some (tell (OnGoToIndexSameDocumentNavigation t g) m) }
     else do {
       m \<leftarrow> discardNonCommittedItems m1;
       m \<leftarrow> setPendingItemIndex (int i) m;
       Some (tell (LoadCurrentItem t) m) }) = Some m'"
    unfolding FinishGoToIndex_def Let_def by (elim bind_SomeE)
  have "nav_invp st m1" using update_item_inv [OF m1 assms(2)] .
  then show ?thesis using m'
    by (auto split: if_splits elim!: bind_SomeE dest: goToItemAtIndex_inv simp: setPendingItemIndex_Some)
       (simp add: nav_inv_def)
qed

lemma GoToIndex_inv: "GoToIndex W i t g m = Some m' \<Longrightarrow> nav_invp st m \<Longrightarrow> nav_invp st m'"
  unfolding GoToIndex_def Let_def
  by (auto split: if_splits elim!: bind_SomeE dest!: FinishGoToIndex_inv)

lemma LoadURLWithParams_inv: "LoadURLWithParams W p m = Some m' \<Longrightarrow> nav_invp st m \<Longrightarrow> nav_invp st m'"
  unfolding LoadURLWithParams_def Let_def
  by (elim bind_SomeE check_SomeE)
     (auto dest!: AddPendingItem_inv update_item_inv split: option.splits)

lemma Reload_inv: "Reload W t m = Some m' \<Longrightarrow> nav_invp st m \<Longrightarrow> nav_invp st m'"
  unfolding Reload_def
  by (auto split: if_splits elim!: bind_SomeE dest!: update_item_inv)

lemma ReloadWithUserAgentType_inv: "ReloadWithUserAgentType W t m = Some m' \<Longrightarrow> nav_invp st m \<Longrightarrow> nav_invp st m'"
  unfolding ReloadWithUserAgentType_def Let_def
  by (elim bind_SomeE check_SomeE)
     (auto split: option.splits elim!: bind_SomeE dest!: LoadURLWithParams_inv)

lemma UpdatePendingItemUrl_inv: "UpdatePendingItemUrl W u m = Some m' \<Longrightarrow> nav_invp st m \<Longrightarrow> nav_invp st m'"
  unfolding UpdatePendingItemUrl_def
  by (auto split: option.splits if_splits elim!: bind_SomeE check_SomeE dest: update_item_inv)

lemma UpdateCurrentItemForReplaceState_inv:
  "UpdateCurrentItemForReplaceState u s m = Some m' \<Longrightarrow> nav_invp st m \<Longrightarrow> nav_invp st m'"
  unfolding UpdateCurrentItemForReplaceState_def by (elim bind_SomeE check_SomeE) (rule update_item_inv)

lemma RemoveItemAtIndex_inv: "RemoveItemAtIndex W i m = Some (b, m') \<Longrightarrow> nav_invp st m \<Longrightarrow> nav_invp st m'"
  unfolding RemoveItemAtIndex_def
  by (auto split: if_splits elim!: bind_SomeE dest: removeItemAtIndex_inv)

lemma AddTransientURLRewriter_inv: "AddTransientURLRewriter r m = Some m' \<Longrightarrow> nav_invp st m \<Longrightarrow> nav_invp st m'"
  unfolding AddTransientURLRewriter_def by (elim check_SomeE) auto

lemma SetBrowserState_inv: "SetBrowserState b m = Some m' \<Longrightarrow> nav_invp st m \<Longrightarrow> nav_invp st m'"
  by (auto simp: SetBrowserState_def setBrowserState_def bind_check Let_def nav_inv_def split: if_splits)

section \<open>Loads\<close>

lemma SetUserAgentType_Some: "SetUserAgentType W t i = Some i' \<Longrightarrow> i' = i\<lparr>user_agent := t\<rparr>"
  by (auto simp: SetUserAgentType_def bind_check split: if_splits)

lemma created_item_fields:
  assumes "CreateNavigationItemWithRewriters W ph u r t i prev ws k = Some item"
  shows "item_url item = loaded_url_for W ph u i prev ws" "initiation_type item = i"
    "original_request_url item = loaded_url_for W ph u i prev ws" "item_referrer item = r"
    "transition_type item = t" "unique_id item = k + 1" "item_inv W item"
    "user_agent item = (if URLNeedsUserAgentType (gl W) (item_url item) then UA_MOBILE else UA_NONE)"
  using assms
  by (auto simp: CreateNavigationItemWithRewriters_def Let_def item_defs NavigationItemImpl_def item_inv_def
      GetUniqueIDInConstructor_def split: if_splits dest!: SetUserAgentType_Some)

lemma itemWithURL_fields:
  assumes "itemWithURL W u r t i m = Some (item, m')"
  shows "initiation_type item = i" "item_referrer item = r" "transition_type item = t"
  using assms created_item_fields(2,4,5)
  by (auto simp: itemWithURL_def CreateNavigationItem_def bind_check Let_def bind_eq_Some_conv split: if_splits)

lemma UpdatePendingItemUserAgentType_frame:
  assumes "UpdatePendingItemUserAgentType W o' r Pending m = Some m'" "sc_pendingItem m = Some p"
  shows "\<exists>ua. m' = m\<lparr>sc_pendingItem := Some (p\<lparr>user_agent := ua\<rparr>)\<rparr>"
proof -
  have u: "\<exists>ua. m1 = m\<lparr>sc_pendingItem := Some (p\<lparr>user_agent := ua\<rparr>)\<rparr>"
    if "update_item Pending (SetUserAgentType W t) m = Some m1" for t m1
    using that assms(2)
    by (auto simp: update_item_def bind_eq_Some_conv dest!: SetUserAgentType_Some)
  have s: "\<exists>ua. m1 = m1\<lparr>sc_pendingItem := Some (p\<lparr>user_agent := ua\<rparr>)\<rparr>" if "m = m1" for m1
    using assms(2) that by (intro exI [of _ "user_agent p"]) simp
  from assms(1) show ?thesis
    unfolding UpdatePendingItemUserAgentType_def
    by (elim bind_SomeE check_SomeE)
       (auto split: if_splits user_agent_override_option.splits option.splits elim!: bind_SomeE check_SomeE
          dest: u intro: s)
qed

lemma shouldCreate_False:
  assumes "shouldCreatePendingItemWithURL W u t o' m = Some False" "GetCurrentItemImpl m = Some r"
    "deref m r = Some i"
  shows "item_url i = u"
  using assms by (auto simp: shouldCreatePendingItemWithURL_def currentItem_def bind_check Let_def
      split: if_splits)

text \<open>What a pending item added for a load looks like.\<close>

lemma AddPendingItem_result:
  assumes "AddPendingItem W u r t i o' m = Some m'"
  shows "sc_items m' = sc_items m \<and> lastCommittedItemIndex m' = lastCommittedItemIndex m \<and>
    previousItemIndex m' = previousItemIndex m \<and> pendingItemIndex m' = - 1 \<and> sc_transientItem m' = None \<and>
    delegate_calls m' = delegate_calls m \<and>
    ((\<exists>q. sc_pendingItem m' = Some q \<and> initiation_type q = i \<and> transition_type q = t) \<or>
     sc_pendingItem m' = None \<and> sc_pendingItem m = None \<or>
     (\<exists>q ua. sc_pendingItem m = Some q \<and> item_url q = u \<and> sc_pendingItem m' = Some (q\<lparr>user_agent := ua\<rparr>)))"
proof -
  from assms obtain m1 where m1: "addPendingItem W u r t i o' m = Some m1" and
    m': "(case pendingItem m1 of None \<Rightarrow> Some m1
      | Some pending \<Rightarrow> do { inherit_from \<leftarrow> GetLastCommittedItemWithUserAgentType W m1;
          UpdatePendingItemUserAgentType W o' inherit_from pending m1 }) = Some m'"
    unfolding AddPendingItem_def by (elim bind_SomeE)
  have fr: "\<exists>ua. m' = m1\<lparr>sc_pendingItem := Some (q\<lparr>user_agent := ua\<rparr>)\<rparr>"
    if "pendingItemIndex m1 = - 1" "sc_pendingItem m1 = Some q" for q
    using that m' by (auto simp: pendingItem_def elim!: bind_SomeE dest: UpdatePendingItemUserAgentType_frame)
  show ?thesis
    using m1
  proof (cases rule: addPendingItem_cases)
    case duplicate
    show ?thesis
    proof (cases "sc_pendingItem m")
      case None
      with duplicate m' show ?thesis by (auto simp: pendingItem_def)
    next
      case (Some q)
      have "item_url q = u"
        using duplicate(2) by (rule shouldCreate_False [where r = Pending])
          (simp_all add: Some GetCurrentItemImpl_def transientItem_def pendingItem_def)
      with fr [of q] duplicate Some show ?thesis by auto
    qed
  next
    case (created item)
    with fr [of item] itemWithURL_fields [OF created(1)] show ?thesis by auto
  qed
qed

definition with_virtual_url :: "'u web_lib \<Rightarrow> 'u web_load_params \<Rightarrow> 'u navigation_item \<Rightarrow> 'u navigation_item" where
  "with_virtual_url W p i = (if is_valid (gl W) (p_virtual_url p) then SetVirtualURL W (p_virtual_url p) i else i)"

definition shown :: "'u navigation_item \<Rightarrow> 'u \<times> 'u \<times> navigation_initiation_type" where
  "shown i = (item_url i, virtual_url i, initiation_type i)"

lemma shown_virtual_url: "shown i = shown j \<Longrightarrow> GetVirtualURL W i = GetVirtualURL W j"
  by (simp add: shown_def GetVirtualURL_def)

lemma shown_user_agent [simp]: "shown (i\<lparr>user_agent := ua\<rparr>) = shown i"
  by (simp add: shown_def)

lemma mark_pending_fields [simp]:
  "shown (mark_pending W p u i) = shown (with_virtual_url W p i)"
  by (simp add: mark_pending_def item_defs Let_def shown_def with_virtual_url_def)

lemma add_request_data_fields: "add_request_data p i = Some i' \<Longrightarrow> shown i' = shown i"
  unfolding shown_def
  by (auto simp: add_request_data_def item_defs Let_def bind_check split: if_splits option.splits)

text \<open>What an update does to what is shown of the items.\<close>

lemma update_item_shown:
  assumes "update_item r f m = Some m'" "\<And>i i'. f i = Some i' \<Longrightarrow> shown i' = shown i"
  shows "map shown (sc_items m') = map shown (sc_items m)"
    "map_option shown (sc_pendingItem m') = map_option shown (sc_pendingItem m)"
    "(sc_transientItem m' = None) = (sc_transientItem m = None)" "delegate_calls m' = delegate_calls m"
  using assms
  by (cases r; fastforce simp: update_item_def bind_eq_Some_conv map_update list_update_same_conv
      split: if_splits)+

lemma LoadURLWithParams_result:
  assumes "LoadURLWithParams W p m = Some m'"
  defines "i \<equiv> (if p_is_renderer_initiated p then RENDERER_INITIATED else BROWSER_INITIATED)"
  obtains m1 where
    "AddPendingItem W (p_url p) (p_referrer p) (p_transition_type p) i (p_user_agent_override_option p)
       (tell RecordPageStateInNavigationItem (tell ClearTransientContent m)) = Some m1"
    "map shown (sc_items m') = map shown (sc_items m1)"
    "map_option shown (sc_pendingItem m') = map_option (\<lambda>i. shown (with_virtual_url W p i)) (sc_pendingItem m1)"
    "sc_transientItem m' = None" "shape m' = shape m1"
    "delegate_calls m' = delegate_calls m1 @ [LoadCurrentItem i]"
proof -
  from assms obtain m1 m2 r m3 where
    m1: "AddPendingItem W (p_url p) (p_referrer p) (p_transition_type p) i (p_user_agent_override_option p)
       (tell RecordPageStateInNavigationItem (tell ClearTransientContent m)) = Some m1" and
    m2: "(case pendingItem m1 of None \<Rightarrow> Some m1
       | Some r \<Rightarrow> update_item r (\<lambda>i. Some (mark_pending W p
           (case lastCommittedItem m1 of None \<Rightarrow> empty_gurl (gl W)
            | Some c \<Rightarrow> GetVirtualURL W (the (deref m1 c))) i)) m1) = Some m2" and
    tr: "GetTransientItem m2 = None" and
    m3: "update_item r (add_request_data p) m2 = Some m3" and m': "m' = tell (LoadCurrentItem i) m3"
    unfolding LoadURLWithParams_def Let_def
    by (elim bind_SomeE check_SomeE) (auto simp: Let_def cong: option.case_cong)
  note u3 = update_item_shown [OF m3 add_request_data_fields]
  have s3: "shape m3 = shape m2" by (rule update_item_shape [OF m3])
  have i1: "pendingItemIndex m1 = - 1" using AddPendingItem_result [OF m1] by simp
  have u2: "map shown (sc_items m2) = map shown (sc_items m1) \<and>
    map_option shown (sc_pendingItem m2) = map_option (\<lambda>i. shown (with_virtual_url W p i)) (sc_pendingItem m1) \<and>
    delegate_calls m2 = delegate_calls m1 \<and> shape m2 = shape m1"
  proof (cases "sc_pendingItem m1")
    case None
    with m2 i1 show ?thesis by (simp add: pendingItem_def)
  next
    case (Some q)
    with m2 i1 obtain url where u: "update_item Pending (\<lambda>i. Some (mark_pending W p url i)) m1 = Some m2"
      by (auto simp: pendingItem_def)
    then have "m2 = m1\<lparr>sc_pendingItem := Some (mark_pending W p url q)\<rparr>" using Some by (simp add: update_item_def)
    with Some update_item_shape [OF u] show ?thesis by simp
  qed
  show ?thesis
    by (rule that [OF m1]) (use u3 u2 s3 tr m' in \<open>simp_all add: GetTransientItem_def transientItem_def split: if_splits\<close>)
qed

section \<open>Offsets\<close>

text \<open>
  The indices that going back visits from an index: the predecessor of every item that did not
  arrive by a redirect, closest first.
\<close>

fun back_targets :: "'u web_lib \<Rightarrow> 'u nav_manager \<Rightarrow> nat \<Rightarrow> nat list" where
  "back_targets W m 0 = []"
| "back_targets W m (Suc i) = (if redirect_at W m (Suc i) then back_targets W m i else i # back_targets W m i)"

lemma back_targets_skip:
  "back_targets W m i = (if skip_back W m i = 0 then [] else (skip_back W m i - 1) # back_targets W m (skip_back W m i - 1))"
  by (induction i) auto

lemma back_targets_less: "t \<in> set (back_targets W m i) \<Longrightarrow> t < i"
  by (induction i) (auto split: if_splits)

text \<open>The whole outcome of going back, whether or not there are enough items.\<close>

lemma go_back_loop_eq:
  assumes "go_back_loop W m k (int i) = (rest, result)"
  shows "result - int rest = (if k = 0 then int i
    else if k \<le> length (back_targets W m i) then int (back_targets W m i ! (k - 1))
    else - int (k - length (back_targets W m i)))"
  using assms
proof (induction k arbitrary: i)
  case 0
  then show ?case by simp
next
  case (Suc k)
  let ?s = "skip_back W m i"
  have bt: "back_targets W m i = (if ?s = 0 then [] else (?s - 1) # back_targets W m (?s - 1))"
    by (rule back_targets_skip)
  show ?case
  proof (cases "i = 0")
    case True
    with Suc.prems show ?thesis by auto
  next
    case False
    show ?thesis
    proof (cases "?s = 0")
      case True
      with Suc.prems False have "go_back_loop W m k (- 1) = (rest, result)" by simp
      then have "rest = k" "result = - 1" by (cases k; simp)+
      with True bt show ?thesis by simp
    next
      case s: False
      with Suc.prems False have "go_back_loop W m k (int (?s - 1)) = (rest, result)"
        by (simp add: of_nat_diff)
      from Suc.IH [OF this] s bt show ?thesis by (cases k) auto
    qed
  qed
qed

lemma backward_loop_eq:
  assumes "\<And>t. PageTransitionIsRedirect W t \<longleftrightarrow> and t (PAGE_TRANSITION_IS_REDIRECT_MASK W) \<noteq> 0"
    and "i < length (sc_items m)"
  shows "backward_loop W m i = Some (map Committed (back_targets W m i))"
  using assms(2)
  by (induction i) (simp_all add: isRedirectTransitionForItemAtIndex_def redirect_at_def assms(1))

end
