(* ===== verification/Navigation_Interface.thy ===== *)
theory Navigation_Interface
  imports Prelude
begin

text \<open>
  What the toolbar relies on when it uses the interface \<open>web/public/navigation_manager.h\<close>: the answer of
  \<open>CanGoToOffset\<close> decides whether a button is enabled, and the button calls \<open>GoToIndex\<close> with the index
  of the offset. Both navigation managers provide it.
\<close>

locale navigation_manager =
  fixes inv :: "'m \<Rightarrow> bool" and count :: "'m \<Rightarrow> int" and index_for :: "int \<Rightarrow> 'm \<Rightarrow> int"
    and can_go :: "int \<Rightarrow> 'm \<Rightarrow> bool" and go_to :: "int \<Rightarrow> 'm \<Rightarrow> 'm option"
  assumes can_go_iff: "inv m \<Longrightarrow> can_go k m \<longleftrightarrow> 0 \<le> index_for k m \<and> index_for k m < count m"
    and go_to_returns: "inv m \<Longrightarrow> 0 \<le> i \<Longrightarrow> i < count m \<Longrightarrow> \<exists>m'. go_to i m = Some m'"
    and go_to_range: "go_to i m = Some m' \<Longrightarrow> 0 \<le> i \<and> i < count m"
begin

lemma enabled_iff_works:
  assumes "inv m"
  shows "can_go k m \<longleftrightarrow> (\<exists>m'. go_to (index_for k m) m = Some m')"
  using can_go_iff [OF assms] go_to_returns [OF assms] go_to_range by blast

end

end
