(* ===== verification/Navigation_Props.thy ===== *)
theory Navigation_Props
  imports Navigation_Laws Navigation_Interface
begin

text \<open>
  Properties of the session history: the invariant over all sequences of calls, what is shown to
  the user while a navigation is pending, commits, merging of histories, relative navigation,
  removal of items, and the privileges of rewritten URLs.
\<close>

section \<open>Sequences of calls\<close>

text \<open>
  The operations of \<open>NavigationManager\<close> and \<open>NavigationManagerImpl\<close> that change a manager, as the legacy
  manager implements them (two are not implemented there: \<open>NOTREACHED\<close>). \<open>SetSessionController\<close> is called by
  \<open>InitializeSession\<close> and \<open>Restore\<close> only, and a history without items is restored with the index -1.
\<close>

datatype 'u nav_call =
    Nav_LoadURLWithParams "'u web_load_params" | Nav_AddPendingItem 'u "'u referrer" page_transition
      navigation_initiation_type user_agent_override_option
  | Nav_CommitPendingItem int | Nav_AddTransientItem int 'u | Nav_DiscardNonCommittedItems
  | Nav_AddPushStateItem int 'u "string option" page_transition | Nav_RemoveItemAtIndex int
  | Nav_GoToIndex int navigation_initiation_type bool | Nav_GoBack | Nav_GoForward
  | Nav_Reload reload_type | Nav_ReloadWithUserAgentType user_agent_type | Nav_LoadIfNecessary
  | Nav_UpdatePendingItemUrl 'u | Nav_UpdateCurrentItemForReplaceState 'u "string option"
  | Nav_AddTransientURLRewriter "'u url_rewriter option" | Nav_CopyStateFromAndPrune "'u nav_manager"
  | Nav_Restore nat "'u navigation_item list" | Nav_SetBrowserState "nat option" | Nav_InitializeSession
  | Nav_SetPreviousItemIndex int | Nav_SetPendingItemIndex int | Nav_RemoveTransientURLRewriters
  | Nav_CreateNavigationItem 'u "'u referrer" page_transition navigation_initiation_type
  | Nav_OnNavigationItemsPruned nat | Nav_OnNavigationItemCommitted | Nav_OnRendererInitiatedNavigationStarted 'u
  | Nav_DetachFromWebView | Nav_ApplyWKWebViewForwardHistoryClobberWorkaround

fun nav_step :: "'u web_lib \<Rightarrow> 'u nav_call \<Rightarrow> 'u nav_manager \<Rightarrow> 'u nav_manager option" where
  "nav_step W (Nav_LoadURLWithParams p) m = LoadURLWithParams W p m"
| "nav_step W (Nav_AddPendingItem u r t i o') m = AddPendingItem W u r t i o' m"
| "nav_step W (Nav_CommitPendingItem now) m = CommitPendingItem now m"
| "nav_step W (Nav_AddTransientItem now u) m = AddTransientItem W now u m"
| "nav_step W Nav_DiscardNonCommittedItems m = DiscardNonCommittedItems m"
| "nav_step W (Nav_AddPushStateItem now u s t) m = AddPushStateItemIfNecessary W now u s t m"
| "nav_step W (Nav_RemoveItemAtIndex i) m = map_option snd (RemoveItemAtIndex W i m)"
| "nav_step W (Nav_GoToIndex i t g) m = GoToIndex W i t g m"
| "nav_step W Nav_GoBack m = GoBack W m"
| "nav_step W Nav_GoForward m = GoForward W m"
| "nav_step W (Nav_Reload t) m = Reload W t m"
| "nav_step W (Nav_ReloadWithUserAgentType t) m = ReloadWithUserAgentType W t m"
| "nav_step W Nav_LoadIfNecessary m = Some (nm_LoadIfNecessary m)"
| "nav_step W (Nav_UpdatePendingItemUrl u) m = UpdatePendingItemUrl W u m"
| "nav_step W (Nav_UpdateCurrentItemForReplaceState u s) m = UpdateCurrentItemForReplaceState u s m"
| "nav_step W (Nav_AddTransientURLRewriter r) m = AddTransientURLRewriter r m"
| "nav_step W (Nav_CopyStateFromAndPrune source) m = CopyStateFromAndPrune W source m"
| "nav_step W (Nav_Restore i items) m = Restore (if items = [] then - 1 else int i) items m"
| "nav_step W (Nav_SetBrowserState b) m = SetBrowserState b m"
| "nav_step W Nav_InitializeSession m = InitializeSession m"
| "nav_step W (Nav_SetPreviousItemIndex i) m = Some (setPreviousItemIndex i m)"
| "nav_step W (Nav_SetPendingItemIndex i) m = None"
| "nav_step W Nav_RemoveTransientURLRewriters m = Some (RemoveTransientURLRewriters m)"
| "nav_step W (Nav_CreateNavigationItem u r t i) m = map_option snd (CreateNavigationItem W u r t i m)"
| "nav_step W (Nav_OnNavigationItemsPruned n) m = Some (tell (OnNavigationItemsPruned n) m)"
| "nav_step W Nav_OnNavigationItemCommitted m = nm_OnNavigationItemCommitted m"
| "nav_step W (Nav_OnRendererInitiatedNavigationStarted u) m = Some m"
| "nav_step W Nav_DetachFromWebView m = Some m"
| "nav_step W Nav_ApplyWKWebViewForwardHistoryClobberWorkaround m = None"

text \<open>An index that \<open>SetPreviousItemIndex\<close> may be given: none, or one of the history.\<close>

fun previous_ok :: "'u nav_call \<Rightarrow> 'u nav_manager \<Rightarrow> bool" where
  "previous_ok (Nav_SetPreviousItemIndex i) m \<longleftrightarrow> - 1 \<le> i \<and> i < GetItemCount m"
| "previous_ok c m \<longleftrightarrow> True"

inductive nav_run :: "bool \<Rightarrow> 'u web_lib \<Rightarrow> 'u nav_manager \<Rightarrow> bool" for checked W where
  initialized: "InitializeSession (NavigationManagerImpl\<lparr>nm_browser_state := b\<rparr>) = Some m \<Longrightarrow> nav_run checked W m"
| stepped: "nav_run checked W m \<Longrightarrow> (checked \<Longrightarrow> previous_ok c m) \<Longrightarrow> nav_step W c m = Some m' \<Longrightarrow>
    nav_run checked W m'"

text \<open>The managers that any sequence of calls reaches.\<close>

abbreviation nav_reachable :: "'u web_lib \<Rightarrow> 'u nav_manager \<Rightarrow> bool" where
  "nav_reachable \<equiv> nav_run False"

lemmas nav_op_inv = LoadURLWithParams_inv AddPendingItem_inv commitPendingItem_inv AddTransientItem_inv
  pushNewItemWithURL_inv GoToIndex_inv Reload_inv ReloadWithUserAgentType_inv UpdatePendingItemUrl_inv
  UpdateCurrentItemForReplaceState_inv AddTransientURLRewriter_inv copyState_inv SetBrowserState_inv

lemma setPreviousItemIndex_inv:
  "nav_invp st m \<Longrightarrow> (st \<Longrightarrow> - 1 \<le> i \<and> i < GetItemCount m) \<Longrightarrow> nav_invp st (setPreviousItemIndex i m)"
  by (auto simp: nav_inv_def setPreviousItemIndex_def GetItemCount_def)

lemma nav_step_inv:
  assumes "nav_step W c m = Some m'" "st \<Longrightarrow> previous_ok c m" "nav_invp st m"
  shows "nav_invp st m'"
  using assms
  by (cases c)
     (auto simp: CommitPendingItem_def DiscardNonCommittedItems_def AddPushStateItemIfNecessary_def
        GoBack_def GoForward_def nm_LoadIfNecessary_def CopyStateFromAndPrune_def
        RemoveTransientURLRewriters_def nm_OnNavigationItemCommitted_inv InitializeSession_inv
        intro: nav_op_inv RemoveItemAtIndex_inv setPreviousItemIndex_inv dest!: Restore_inv CreateNavigationItem_frame)

lemma nav_run_inv: "nav_run st W m \<Longrightarrow> nav_invp st m"
  by (induction rule: nav_run.induct) (auto intro: InitializeSession_inv nav_step_inv)

lemma nav_reachable_inv: "nav_run st W m \<Longrightarrow> nav_invp False m"
  using nav_run_inv nav_inv_weaken by blast

lemma nav_run_weaken: "nav_run st W m \<Longrightarrow> nav_reachable W m"
  by (induction rule: nav_run.induct) (auto intro: nav_run.intros)

text \<open>Every pointer that the accessors hand out names a slot that holds an item.\<close>

definition pointers_live :: "bool \<Rightarrow> 'u nav_manager \<Rightarrow> bool" where
  "pointers_live checked m \<longleftrightarrow>
     (\<forall>r \<in> set_option (pendingItem m) \<union> set_option (transientItem m) \<union> set_option (lastCommittedItem m) \<union>
           set_option (visibleItem m) \<union> set_option (GetCurrentItemImpl m) \<union>
           (if checked then set_option (previousItem m) else {}).
        deref m r \<noteq> None)"

lemma nav_inv_live:
  assumes "nav_invp st m"
  shows "pendingItem m = Some r \<Longrightarrow> deref m r \<noteq> None" "lastCommittedItem m = Some r \<Longrightarrow> deref m r \<noteq> None"
    "st \<Longrightarrow> previousItem m = Some r \<Longrightarrow> deref m r \<noteq> None" "transientItem m = Some r \<Longrightarrow> deref m r \<noteq> None"
  using assms by (auto simp: nav_inv_def pendingItem_def lastCommittedItem_def previousItem_def
      transientItem_def split: if_splits)

lemma nav_inv_pointers_live:
  assumes "nav_invp st m" shows "pointers_live st m"
proof -
  have "visibleItem m = Some r \<Longrightarrow> deref m r \<noteq> None" for r
    using nav_inv_live [OF assms]
    by (auto simp: visibleItem_def Let_def split: if_splits option.splits)
  moreover have "GetCurrentItemImpl m = Some r \<Longrightarrow> deref m r \<noteq> None" for r
    using nav_inv_live [OF assms] by (auto simp: GetCurrentItemImpl_def split: if_splits)
  ultimately show ?thesis
    using nav_inv_live [OF assms] by (auto simp: pointers_live_def)
qed

text \<open>A concrete history for the witnesses: four items, the third one a client redirect.\<close>

definition demo_page :: "string \<Rightarrow> demo_url" where
  "demo_page host = Demo_URL ''http'' host [] []"

definition demo_item :: "string \<Rightarrow> page_transition \<Rightarrow> demo_url navigation_item" where
  "demo_item host t = (SetReferrer \<lparr>ref_url = demo_page ''r.com'', ref_policy = ReferrerPolicyDefault\<rparr>
     (SetURL (demo_page host) (NavigationItemImpl demo_web 0)))\<lparr>transition_type := t\<rparr>"

definition demo_items :: "demo_url navigation_item list" where
  "demo_items = [demo_item ''a.com'' 0, demo_item ''b.com'' 0, demo_item ''b.com/in'' 1073741824,
     demo_item ''c.com'' 0]"

definition demo_manager :: "demo_url nav_manager" where
  "demo_manager = NavigationManagerImpl\<lparr>nm_browser_state := Some 0, sc_browserState := Some 0,
     sc_navigationManager := True\<rparr>"

definition demo_history :: "demo_url nav_manager" where
  "demo_history = demo_manager\<lparr>sc_items := demo_items, lastCommittedItemIndex := 3\<rparr>"

lemma demo_manager_init:
  "InitializeSession (NavigationManagerImpl\<lparr>nm_browser_state := Some 0\<rparr>) = Some demo_manager"
  by (simp add: InitializeSession_def NavigationManagerImpl_def initWithBrowserState_def Let_def
      setNavigationManager_def demo_manager_def)

lemma demo_history_reachable: "nav_run checked W demo_history"
proof (rule nav_run.stepped [OF nav_run.initialized [OF demo_manager_init]])
  show "previous_ok (Nav_Restore 3 demo_items) demo_manager" by simp
  show "nav_step W (Nav_Restore 3 demo_items) demo_manager = Some demo_history"
    by (simp add: Restore_def demo_items_def demo_manager_def NavigationManagerImpl_def GetItemCount_def
        GetPendingItem_def IsRestoreSessionInProgress_def pendingItem_def initWithNavigationItems_def
        initWithBrowserState_def setNavigationManager_def Let_def demo_history_def)
qed

lemma demo_history_simps [simp]:
  "sc_items demo_history = demo_items" "lastCommittedItemIndex demo_history = 3"
  "previousItemIndex demo_history = - 1" "pendingItemIndex demo_history = - 1"
  "sc_pendingItem demo_history = None" "sc_transientItem demo_history = None"
  "sc_navigationManager demo_history" "transient_url_rewriters demo_history = []"
  "delegate_calls demo_history = []"
  by (simp_all add: demo_history_def demo_manager_def NavigationManagerImpl_def)

lemma demo_history_inv: "nav_invp st demo_history"
  using nav_run_inv [OF demo_history_reachable] .

section \<open>Properties\<close>

text \<open>
  C12. In every state that any sequence of calls reaches from an initialized session, the indices
  of the last committed and pending items are -1 or valid, there is a last committed item exactly
  when there are items, a pending history navigation excludes a pending new item, and every item
  pointer that the manager hands out for the pending, transient, last committed, visible and current
  item is live. If in addition every index given to \<open>SetPreviousItemIndex\<close> was -1 or an index of the history
  (\<open>checked\<close>), the index of the previous item is -1 or valid and its pointer is live, too.
\<close>

theorem nav_reachable_invariant:
  assumes "nav_run checked W m"
  shows "nav_invp checked m \<and> pointers_live checked m"
  using nav_run_inv [OF assms] nav_inv_pointers_live by blast

theorem nav_reachable_invariant_witness:
  "nav_run True demo_web (setPreviousItemIndex 2 demo_history) \<and>
   nav_inv (setPreviousItemIndex 2 demo_history) \<and> pointers_live True (setPreviousItemIndex 2 demo_history) \<and>
   previousItem (setPreviousItemIndex 2 demo_history) = Some (Committed 2) \<and>
   nav_run False demo_web (setPreviousItemIndex 9 demo_history) \<and>
   pointers_live False (setPreviousItemIndex 9 demo_history) \<and> \<not> nav_inv (setPreviousItemIndex 9 demo_history)"
proof -
  have r: "nav_run True demo_web (setPreviousItemIndex 2 demo_history)"
    by (rule nav_run.stepped [OF demo_history_reachable, where c = "Nav_SetPreviousItemIndex 2"])
       (simp_all add: GetItemCount_def demo_items_def)
  have r9: "nav_run False demo_web (setPreviousItemIndex 9 demo_history)"
    by (rule nav_run.stepped [OF demo_history_reachable, where c = "Nav_SetPreviousItemIndex 9"]) simp_all
  show ?thesis
    using nav_reachable_invariant [OF r] r nav_reachable_invariant [OF r9] r9
    by (simp add: previousItem_def setPreviousItemIndex_def demo_items_def nav_inv_def)
qed

text \<open>
  A previous index that is stored and is not checked on the way back in, as \<open>ExtractSessionState\<close> does with
  the archived one, makes \<open>-previousItem\<close> read outside of the items.
\<close>

lemma unchecked_previous_index:
  "previousItem (setPreviousItemIndex 9 demo_history) = Some (Committed 9) \<and>
   deref (setPreviousItemIndex 9 demo_history) (Committed 9) = None"
  by (simp add: previousItem_def setPreviousItemIndex_def demo_items_def)

text \<open>The virtual URL of an item slot, and the URL the user is shown (\<open>WebStateImpl::GetVisibleURL\<close>).\<close>

definition virtual_url_of :: "'u web_lib \<Rightarrow> 'u nav_manager \<Rightarrow> item_ref option \<Rightarrow> 'u" where
  "virtual_url_of W m r = (case Option.bind r (deref m) of None \<Rightarrow> empty_gurl (gl W) | Some i \<Rightarrow> GetVirtualURL W i)"

definition GetVisibleURL :: "'u web_lib \<Rightarrow> 'u nav_manager \<Rightarrow> 'u" where
  "GetVisibleURL W m = virtual_url_of W m (GetVisibleItem m)"

lemma virtual_url_of_committed:
  assumes "map shown (sc_items m') = map shown (sc_items m)"
    "lastCommittedItemIndex m' = lastCommittedItemIndex m"
  shows "virtual_url_of W m' (lastCommittedItem m') = virtual_url_of W m (lastCommittedItem m)"
proof -
  have "length (sc_items m') = length (sc_items m)" using arg_cong [OF assms(1), of length] by simp
  moreover have "shown (sc_items m' ! i) = shown (sc_items m ! i)" if "i < length (sc_items m)" for i
    using arg_cong [OF assms(1), of "\<lambda>xs. xs ! i"] calculation that by simp
  ultimately show ?thesis
    using assms(2) by (auto simp: virtual_url_of_def lastCommittedItem_def intro: shown_virtual_url)
qed

lemma visibleItem_new:
  assumes "sc_transientItem m = None" "pendingItemIndex m = - 1"
  shows "visibleItem m = (if map_option initiation_type (sc_pendingItem m) = Some BROWSER_INITIATED
    then Some Pending else lastCommittedItem m)"
  using assms by (auto simp: visibleItem_def transientItem_def pendingItem_def Let_def)

text \<open>
  C13. A page cannot choose what the address bar shows by starting a load. After a
  renderer-initiated \<open>LoadURLWithParams\<close> the visible URL (the virtual URL of the visible item) is that of the
  last committed item, as it was before the call; so it does not change unless a transient item or a
  pending item of the browser was visible, which the load takes away. The only exception is a pending item
  of a navigation that the browser itself had started to the same URL: it stays the visible item, with the
  virtual URL it had or the one that the parameters of the load give it. The load is handed to the
  delegate as renderer-initiated.
\<close>

theorem renderer_load_visible_url:
  assumes "p_is_renderer_initiated p" "LoadURLWithParams W p m = Some m'"
  shows "(GetVisibleURL W m' = virtual_url_of W m (lastCommittedItem m) \<and> GetVisibleItem m' = lastCommittedItem m \<and>
      (GetVisibleItem m = lastCommittedItem m \<longrightarrow> GetVisibleURL W m' = GetVisibleURL W m) \<or>
     (\<exists>q. sc_pendingItem m = Some q \<and> initiation_type q = BROWSER_INITIATED \<and> item_url q = p_url p \<and>
        GetVisibleItem m' = Some Pending \<and> GetVisibleURL W m' = GetVirtualURL W
          (if is_valid (gl W) (p_virtual_url p) then SetVirtualURL W (p_virtual_url p) q else q))) \<and>
    delegate_calls m' = delegate_calls m @
      [ClearTransientContent, RecordPageStateInNavigationItem, LoadCurrentItem RENDERER_INITIATED]"
proof -
  let ?m0 = "tell RecordPageStateInNavigationItem (tell ClearTransientContent m)"
  have i: "(if p_is_renderer_initiated p then RENDERER_INITIATED else BROWSER_INITIATED) = RENDERER_INITIATED"
    using assms(1) by simp
  obtain m1 where
    m1: "AddPendingItem W (p_url p) (p_referrer p) (p_transition_type p) RENDERER_INITIATED
       (p_user_agent_override_option p) ?m0 = Some m1" and
    u: "map shown (sc_items m') = map shown (sc_items m1)"
    "map_option shown (sc_pendingItem m') = map_option (\<lambda>i. shown (with_virtual_url W p i)) (sc_pendingItem m1)"
    "sc_transientItem m' = None" "shape m' = shape m1"
    "delegate_calls m' = delegate_calls m1 @ [LoadCurrentItem RENDERER_INITIATED]"
    using LoadURLWithParams_result [OF assms(2), unfolded i] by blast
  from AddPendingItem_result [OF m1] have a: "sc_items m1 = sc_items m"
    "lastCommittedItemIndex m1 = lastCommittedItemIndex m" "pendingItemIndex m1 = - 1"
    "delegate_calls m1 = delegate_calls m @ [ClearTransientContent, RecordPageStateInNavigationItem]"
    and d: "(\<exists>q. sc_pendingItem m1 = Some q \<and> initiation_type q = RENDERER_INITIATED \<and>
        transition_type q = p_transition_type p) \<or>
      sc_pendingItem m1 = None \<and> sc_pendingItem ?m0 = None \<or>
      (\<exists>q ua. sc_pendingItem ?m0 = Some q \<and> item_url q = p_url p \<and> sc_pendingItem m1 = Some (q\<lparr>user_agent := ua\<rparr>))"
    by simp_all
  have lc: "lastCommittedItemIndex m' = lastCommittedItemIndex m" "pendingItemIndex m' = - 1"
    using a(2,3) u(4) by (simp_all add: shape_def)
  have urls: "virtual_url_of W m' (lastCommittedItem m') = virtual_url_of W m (lastCommittedItem m)"
    using a(1) u(1) lc(1) by (intro virtual_url_of_committed) simp_all
  have lr: "lastCommittedItem m' = lastCommittedItem m" using lc by (simp add: lastCommittedItem_def)
  note vis = visibleItem_new [OF u(3) lc(2), folded GetVisibleItem_def]
  show ?thesis
  proof (cases "map_option initiation_type (sc_pendingItem m') = Some BROWSER_INITIATED")
    case False
    then have "GetVisibleItem m' = lastCommittedItem m'" using vis by (simp only: if_False)
    then show ?thesis using urls lr a(4) u(5) by (simp add: GetVisibleURL_def)
  next
    case True
    then obtain q' where q': "sc_pendingItem m' = Some q'" "initiation_type q' = BROWSER_INITIATED" by auto
    then obtain q1 where q1: "sc_pendingItem m1 = Some q1" "shown q' = shown (with_virtual_url W p q1)"
      using u(2) by (cases "sc_pendingItem m1") auto
    then have b: "initiation_type q1 = BROWSER_INITIATED"
      using q'(2) by (auto simp: shown_def with_virtual_url_def item_defs split: if_splits)
    then obtain q ua where q: "sc_pendingItem m = Some q" "item_url q = p_url p" "q1 = q\<lparr>user_agent := ua\<rparr>"
      using d q1(1) by auto
    have "shown q' = shown (with_virtual_url W p q)"
      using q1(2) q(3) by (simp add: shown_def with_virtual_url_def item_defs)
    then have "GetVirtualURL W q' = GetVirtualURL W (with_virtual_url W p q)" by (rule shown_virtual_url)
    then show ?thesis
      using vis True q' q b a(4) u(5) by (auto simp: GetVisibleURL_def virtual_url_of_def with_virtual_url_def)
  qed
qed

definition demo_params :: "demo_url web_load_params" where
  "demo_params = (WebLoadParams demo_web (demo_page ''d.com''))\<lparr>p_is_renderer_initiated := True\<rparr>"

lemma demo_load: "LoadURLWithParams demo_web demo_params demo_history \<noteq> None"
  by code_simp

theorem renderer_load_visible_url_witness:
  "\<exists>m'. LoadURLWithParams demo_web demo_params demo_history = Some m' \<and>
    GetVisibleURL demo_web m' = demo_page ''c.com''"
proof -
  obtain m' where m': "LoadURLWithParams demo_web demo_params demo_history = Some m'"
    using demo_load by auto
  have "p_is_renderer_initiated demo_params" by (simp add: demo_params_def)
  from renderer_load_visible_url [OF this m'] m' show ?thesis
    by (auto simp: virtual_url_of_def lastCommittedItem_def demo_items_def demo_item_def item_defs NavigationItemImpl_def
        GetVirtualURL_def demo_web_def demo_lib_def)
qed

text \<open>
  C14. Committing a new navigation puts its item right after the last committed one and drops every
  forward item; the new item is the last committed one, its predecessor the previous one, nothing
  is pending or transient any more, the item's initiation type is cleared and its timestamp is the
  smoothed current time. The delegate hears of the pruned items, if any, and then of the commit.
\<close>

theorem commit_new_navigation:
  assumes "nav_reachable W m" "sc_pendingItem m = Some p"
  shows "\<exists>m'. CommitPendingItem now m = Some m' \<and>
    sc_items m' = take (nat (lastCommittedItemIndex m + 1)) (sc_items m) @
      [p\<lparr>initiation_type := INIT_NONE, timestamp := fst (GetSmoothedTime now (sc_timeSmoother m))\<rparr>] \<and>
    lastCommittedItemIndex m' = lastCommittedItemIndex m + 1 \<and>
    previousItemIndex m' = lastCommittedItemIndex m \<and> pendingItem m' = None \<and> transientItem m' = None \<and>
    GetVisibleURL W m' = GetVirtualURL W p \<and>
    delegate_calls m' = delegate_calls m @
      (if int (length (sc_items m)) > lastCommittedItemIndex m + 1
       then [OnNavigationItemsPruned (length (sc_items m) - nat (lastCommittedItemIndex m + 1))] else []) @
      [OnNavigationItemCommitted (Committed (nat (lastCommittedItemIndex m + 1)))]"
proof -
  note inv = nav_reachable_inv [OF assms(1)]
  then have i: "pendingItemIndex m = - 1" "0 \<le> lastCommittedItemIndex m + 1"
    "lastCommittedItemIndex m + 1 \<le> int (length (sc_items m))"
    using assms(2) by (auto simp: nav_inv_def)
  have ev: "pruned_events m = (if int (length (sc_items m)) > lastCommittedItemIndex m + 1
       then [OnNavigationItemsPruned (length (sc_items m) - nat (lastCommittedItemIndex m + 1))] else [])"
    using i(2) by (auto simp: pruned_events_def)
  obtain m' where m': "commitPendingItem now m = Some m'" "sc_items m' =
      take (nat (lastCommittedItemIndex m + 1)) (sc_items m) @
      [SetTimestamp (fst (GetSmoothedTime now (sc_timeSmoother m))) (ResetForCommit p)]"
    "lastCommittedItemIndex m' = lastCommittedItemIndex m + 1" "previousItemIndex m' = lastCommittedItemIndex m"
    "pendingItem m' = None" "transientItem m' = None"
    "delegate_calls m' = delegate_calls m @ pruned_events m @
      [OnNavigationItemCommitted (Committed (nat (lastCommittedItemIndex m + 1)))]"
    using commitPendingItem_new [OF inv i(1) assms(2)] by blast
  have len: "min (length (sc_items m)) (nat (lastCommittedItemIndex m + 1)) = nat (lastCommittedItemIndex m + 1)"
    using i by auto
  have "GetVisibleURL W m' = GetVirtualURL W p"
    using m'(2,3,5,6) i(2) len
    by (simp add: GetVisibleURL_def GetVisibleItem_def visibleItem_def virtual_url_of_def lastCommittedItem_def
        nth_append item_defs GetVirtualURL_def)
  with m' ev show ?thesis by (simp add: CommitPendingItem_def item_defs)
qed

theorem commit_new_navigation_witness:
  "\<exists>m m'. nav_reachable demo_web m \<and> CommitPendingItem 7 m = Some m' \<and> length (sc_items m') = 5 \<and>
    GetVisibleURL demo_web m' = demo_page ''d.com''"
proof -
  obtain m where m: "LoadURLWithParams demo_web demo_params demo_history = Some m"
    using demo_load by auto
  have r: "nav_reachable demo_web m"
    by (rule nav_run.stepped [OF demo_history_reachable, where c = "Nav_LoadURLWithParams demo_params"])
       (simp_all add: m)
  have "map_option (\<lambda>m. (map_option (GetVirtualURL demo_web) (sc_pendingItem m), length (sc_items m), lastCommittedItemIndex m))
      (LoadURLWithParams demo_web demo_params demo_history) = Some (Some (demo_page ''d.com''), 4, 3)"
    by code_simp
  then obtain p where "sc_pendingItem m = Some p" "GetVirtualURL demo_web p = demo_page ''d.com''" "length (sc_items m) = 4"
    "lastCommittedItemIndex m = 3" using m by auto
  with commit_new_navigation [OF r, of p 7] r show ?thesis by fastforce
qed

text \<open>
  C15. Merging histories, as documented: with A B *C* D in the source and E F *G* here the result is
  A B C *G*. The source's items up to its last committed one are copied in front of this manager's
  last committed item, which stays the last committed and visible one; a pending new navigation
  survives. When the history may not be pruned, nothing changes.
\<close>

theorem copy_state_and_prune:
  assumes "nav_reachable W m" "nav_reachable W s" "sc_items s \<noteq> []"
  shows "\<exists>m'. CopyStateFromAndPrune W s m = Some m' \<and>
    (if CanPruneAllButLastCommittedItem m
     then sc_items m' = map (NavigationItemImpl_copy W) (take (nat (lastCommittedItemIndex s) + 1) (sc_items s)) @
        [sc_items m ! nat (lastCommittedItemIndex m)] \<and>
      lastCommittedItemIndex m' = lastCommittedItemIndex s + 1 \<and> previousItemIndex m' = - 1 \<and>
      sc_pendingItem m' = sc_pendingItem m \<and> GetVisibleURL W m' = GetVisibleURL W m \<and> nav_inv m'
     else m' = m)"
proof (cases "CanPruneAllButLastCommittedItem m")
  case False
  then show ?thesis
    by (simp add: CopyStateFromAndPrune_def copyStateFromSessionControllerAndPrune_def
        CanPruneAllButLastCommittedItem_def)
next
  case True
  note im = nav_reachable_inv [OF assms(1)] and ins = nav_reachable_inv [OF assms(2)]
  have r: "0 \<le> lastCommittedItemIndex s" "nat (lastCommittedItemIndex s) < length (sc_items s)"
    "0 \<le> lastCommittedItemIndex m" "nat (lastCommittedItemIndex m) < length (sc_items m)"
    using im ins assms(3) True by (auto simp: nav_inv_def CanPruneAllButLastCommittedItem_def
        canPruneAllButLastCommittedItem_def)
  let ?items = "map (NavigationItemImpl_copy W) (take (nat (lastCommittedItemIndex s) + 1) (sc_items s)) @
      [sc_items m ! nat (lastCommittedItemIndex m)]"
  have take: "map (\<lambda>i. NavigationItemImpl_copy W (sc_items s ! i)) [0..<nat (lastCommittedItemIndex s) + 1] =
      map (NavigationItemImpl_copy W) (take (nat (lastCommittedItemIndex s) + 1) (sc_items s))"
    using r(2) by (intro nth_equalityI) (auto simp del: upt_Suc)
  have len: "length ?items = nat (lastCommittedItemIndex s) + 2" using r(2) by simp
  let ?m = "m\<lparr>sc_items := ?items, previousItemIndex := - 1, lastCommittedItemIndex := lastCommittedItemIndex s + 1\<rparr>"
  have eq: "CopyStateFromAndPrune W s m = Some ?m"
    using True r assms(3) unfolding CopyStateFromAndPrune_def copyStateFromSessionControllerAndPrune_def take Let_def
    by (simp add: CanPruneAllButLastCommittedItem_def lastCommittedItem_def)
  have "GetVisibleURL W ?m = GetVisibleURL W m"
    using True r by (auto simp: GetVisibleURL_def GetVisibleItem_def virtual_url_of_def visibleItem_def transientItem_def pendingItem_def
        lastCommittedItem_def nth_append nat_add_distrib CanPruneAllButLastCommittedItem_def
        canPruneAllButLastCommittedItem_def Let_def split: option.splits)
  moreover have "nav_inv ?m"
    using copyState_inv [OF eq [unfolded CopyStateFromAndPrune_def] im] len r(1) by (simp add: nav_inv_def)
  ultimately show ?thesis using eq True by simp
qed

theorem copy_state_and_prune_witness:
  "\<exists>m'. CopyStateFromAndPrune demo_web demo_history demo_history = Some m' \<and>
    map item_url (sc_items m') = map demo_page [''a.com'', ''b.com'', ''b.com/in'', ''c.com'', ''c.com'']"
proof -
  have "CanPruneAllButLastCommittedItem demo_history" "sc_items demo_history \<noteq> []"
    by (simp_all add: CanPruneAllButLastCommittedItem_def canPruneAllButLastCommittedItem_def transientItem_def
        demo_items_def)
  with copy_state_and_prune [OF demo_history_reachable demo_history_reachable, of demo_web] obtain m' where
    "CopyStateFromAndPrune demo_web demo_history demo_history = Some m'"
    "sc_items m' = map (NavigationItemImpl_copy demo_web) (take (nat 3 + 1) demo_items) @ [demo_items ! nat 3]"
    by auto
  then show ?thesis
    by (simp add: demo_items_def demo_item_def NavigationItemImpl_copy_def item_defs NavigationItemImpl_def)
qed

text \<open>
  The documented meaning of \<open>PageTransitionIsRedirect\<close>, and the items the manager can go back to,
  in the order of \<open>GetBackwardItems\<close>.
\<close>

definition redirect_mask_ok :: "'u web_lib \<Rightarrow> bool" where
  "redirect_mask_ok W \<longleftrightarrow>
     (\<forall>t. PageTransitionIsRedirect W t \<longleftrightarrow> and t (PAGE_TRANSITION_IS_REDIRECT_MASK W) \<noteq> 0)"

text \<open>The index of the last committed item as the public interface reports it is the stored one.\<close>

definition committed_visible :: "'u web_lib \<Rightarrow> 'u nav_manager \<Rightarrow> bool" where
  "committed_visible W m \<longleftrightarrow> GetLastCommittedItemIndex W m = lastCommittedItemIndex m"

lemma GetIndexForOffset_back:
  assumes inv: "nav_invp st m" and "committed_visible W m" "pendingItemIndex m = - 1" "sc_items m \<noteq> []"
    and "length (sc_items m) < 2 ^ 31" "1 \<le> k" "k \<le> 2 ^ 31"
  defines "k' \<equiv> (if sc_transientItem m = None then k else k - 1)"
    and "bt \<equiv> back_targets W m (nat (lastCommittedItemIndex m))"
  shows "GetIndexForOffset W (- int k) m = (if k' = 0 then lastCommittedItemIndex m
    else if k' \<le> length bt then int (bt ! (k' - 1)) else - int (k' - length bt))"
proof -
  let ?l = "nat (lastCommittedItemIndex m)"
  have l: "0 \<le> lastCommittedItemIndex m" "lastCommittedItemIndex m < int (length (sc_items m))"
    using inv assms(4) by (auto simp: nav_inv_def)
  obtain rest result where loop: "go_back_loop W m k' (int ?l) = (rest, result)" by fastforce
  let ?r = "if k' = 0 then int ?l else if k' \<le> length bt then int (bt ! (k' - 1)) else - int (k' - length bt)"
  have eq: "result - int rest = ?r" using go_back_loop_eq [OF loop] by (simp add: bt_def)
  have "bt ! (k' - 1) < ?l" if "k' \<noteq> 0" "k' \<le> length bt"
    using that unfolding bt_def by (intro back_targets_less [OF nth_mem]) simp
  then have bnd: "- (2 ^ 31) \<le> ?r" "?r < int (length (sc_items m))"
    using l assms(7) by (auto simp: k'_def)
  then have "wrap_int (result - int rest) = ?r"
    unfolding eq using assms(5) by (intro wrap_int_id) (auto simp: INT_MIN_def INT_MAX_def)
  moreover have "nat (- (if GetTransientItem m \<noteq> None \<and> pendingItemIndex m = - 1 then - int k + 1 else - int k)) = k'"
    using assms(3,6) by (auto simp: GetTransientItem_def transientItem_def k'_def)
  ultimately have "GetIndexForOffset W (- int k) m = (if ?r > GetItemCount m then INT_MIN else ?r)"
    using assms(2,3,6) l(1) loop by (simp add: GetIndexForOffset_def committed_visible_def Let_def del: not_None_eq)
  then show ?thesis using bnd(2) l(1) by (simp add: GetItemCount_def)
qed

text \<open>
  C16. Going back is what the list of backward items says. In a session without a pending history
  navigation, the k-th item of \<open>GetBackwardItems\<close> is the item that offset -k designates, for
  every k, redirects skipped and a transient item counted as one step; the offset is possible
  exactly for the items of the list, and beyond the list the computed index is negative for every
  32-bit offset, without wrapping.
\<close>

theorem backward_items_are_offsets:
  assumes "nav_reachable W m" "redirect_mask_ok W" "committed_visible W m"
    and "pendingItemIndex m = - 1" "sc_items m \<noteq> []" "length (sc_items m) < 2 ^ 31"
  shows "\<exists>rs. GetBackwardItems W m = Some rs \<and>
    (\<forall>k. 1 \<le> k \<and> k \<le> 2 ^ 31 \<longrightarrow>
      (CanGoToOffset W (- int k) m \<longleftrightarrow> k \<le> length rs) \<and>
      (if k \<le> length rs then rs ! (k - 1) = Committed (nat (GetIndexForOffset W (- int k) m))
       else GetIndexForOffset W (- int k) m < 0))"
proof -
  let ?l = "nat (lastCommittedItemIndex m)"
  let ?bt = "back_targets W m ?l"
  let ?rs = "(if sc_transientItem m = None then [] else [Committed ?l]) @ map Committed ?bt"
  note inv = nav_reachable_inv [OF assms(1)]
  have l: "0 \<le> lastCommittedItemIndex m" "lastCommittedItemIndex m < int (length (sc_items m))"
    using inv assms(5) by (auto simp: nav_inv_def)
  have bl: "backward_loop W m ?l = Some (map Committed ?bt)"
    using assms(2) l by (intro backward_loop_eq) (auto simp: redirect_mask_ok_def)
  have "GetBackwardItems W m = Some ?rs"
    using l(1) bl by (auto simp: GetBackwardItems_def backwardItems_def lastCommittedItem_def transientItem_def)
  moreover have "(CanGoToOffset W (- int k) m \<longleftrightarrow> k \<le> length ?rs) \<and>
      (if k \<le> length ?rs then ?rs ! (k - 1) = Committed (nat (GetIndexForOffset W (- int k) m))
       else GetIndexForOffset W (- int k) m < 0)" if k: "1 \<le> k" "k \<le> 2 ^ 31" for k
  proof -
    note g = GetIndexForOffset_back [OF inv assms(3-6) k]
    have lt: "?bt ! j < length (sc_items m)" if "j < length ?bt" for j
      using back_targets_less [OF nth_mem [OF that]] l by linarith
    have lt1: "?bt ! (k - Suc 0) < length (sc_items m)" if "k \<le> length ?bt"
      using that k by (intro lt) simp
    have lt2: "?bt ! (k - Suc (Suc 0)) < length (sc_items m)" if "k \<le> Suc (length ?bt)" "k \<noteq> Suc 0"
      using that k by (intro lt) simp
    have z: "k - Suc 0 \<noteq> 0 \<Longrightarrow> (Committed ?l # map Committed ?bt) ! (k - Suc 0) = map Committed ?bt ! (k - 2)"
      by (auto simp: nth_Cons' numeral_2_eq_2)
    show ?thesis
      using l k lt1 lt2 z
      by (cases "sc_transientItem m") (auto simp: g CanGoToOffset_def GetItemCount_def numeral_2_eq_2)
  qed
  ultimately show ?thesis by blast
qed

lemma demo_committed_visible: "committed_visible demo_web demo_history"
  unfolding committed_visible_def by code_simp

theorem backward_items_are_offsets_witness:
  "GetBackwardItems demo_web demo_history = Some [Committed 2, Committed 0] \<and>
   GetIndexForOffset demo_web (- 2) demo_history = 0 \<and> \<not> CanGoToOffset demo_web (- 3) demo_history"
proof -
  have b: "GetBackwardItems demo_web demo_history = Some [Committed 2, Committed 0]" by code_simp
  have "redirect_mask_ok demo_web" by (simp add: redirect_mask_ok_def demo_web_def)
  moreover have "sc_items demo_history \<noteq> []" "length (sc_items demo_history) < 2 ^ 31"
    by (simp_all add: demo_items_def)
  ultimately obtain rs where rs: "GetBackwardItems demo_web demo_history = Some rs"
    "\<forall>k. 1 \<le> k \<and> k \<le> 2 ^ 31 \<longrightarrow>
      (CanGoToOffset demo_web (- int k) demo_history \<longleftrightarrow> k \<le> length rs) \<and>
      (if k \<le> length rs then rs ! (k - 1) = Committed (nat (GetIndexForOffset demo_web (- int k) demo_history))
       else GetIndexForOffset demo_web (- int k) demo_history < 0)"
    using backward_items_are_offsets [OF demo_history_reachable _ demo_committed_visible] by auto
  have "rs = [Committed 2, Committed 0]" using b rs(1) by simp
  then have "CanGoToOffset demo_web (- 2) demo_history" "\<not> CanGoToOffset demo_web (- 3) demo_history"
    "Committed (nat (GetIndexForOffset demo_web (- 2) demo_history)) = Committed 0"
    using rs(2) [rule_format, of 2] rs(2) [rule_format, of 3] by simp_all
  then show ?thesis using b by (auto simp: CanGoToOffset_def Let_def)
qed

text \<open>
  \<open>RemoveItemAtIndex\<close> returns false and changes nothing exactly for an index out of range, of
  the last committed item or of the pending item. Otherwise it takes out that one item, discards
  pending and transient items, and the last committed item is the same item as before.
\<close>

theorem remove_item_keeps_committed:
  assumes "nav_reachable W m" "committed_visible W m"
  shows "\<exists>b m'. RemoveItemAtIndex W index m = Some (b, m') \<and>
    (b \<longleftrightarrow> 0 \<le> index \<and> index < int (length (sc_items m)) \<and> index \<noteq> lastCommittedItemIndex m \<and>
           index \<noteq> GetPendingItemIndex W m) \<and>
    (if b then sc_items m' = remove_at (nat index) (sc_items m) \<and> pendingItem m' = None \<and> transientItem m' = None \<and>
        nat (lastCommittedItemIndex m') < length (sc_items m') \<and>
        sc_items m' ! nat (lastCommittedItemIndex m') = sc_items m ! nat (lastCommittedItemIndex m) \<and>
        delegate_calls m' = delegate_calls m @ [OnNavigationItemsPruned 1]
     else m' = m)"
proof (cases "0 \<le> index \<and> index < int (length (sc_items m)) \<and> index \<noteq> lastCommittedItemIndex m \<and>
           index \<noteq> GetPendingItemIndex W m")
  case False
  then have "RemoveItemAtIndex W index m = Some (False, m)"
    using assms(2) by (auto simp: RemoveItemAtIndex_def committed_visible_def GetItemCount_def)
  with False show ?thesis by auto
next
  case True
  note inv = nav_reachable_inv [OF assms(1)]
  let ?m = "m\<lparr>sc_transientItem := None, sc_pendingItem := None, pendingItemIndex := - 1,
      sc_items := remove_at (nat index) (sc_items m),
      lastCommittedItemIndex := (if lastCommittedItemIndex m > index then lastCommittedItemIndex m - 1
        else lastCommittedItemIndex m),
      previousItemIndex := (if previousItemIndex m \<ge> index then previousItemIndex m - 1 else previousItemIndex m)\<rparr>"
  have "removeItemAtIndex index m = Some (tell (OnNavigationItemsPruned 1) ?m)"
    using True inv by (simp add: removeItemAtIndex_def nav_inv_def)
  then have r: "RemoveItemAtIndex W index m = Some (True, tell (OnNavigationItemsPruned 1) ?m)"
    using True assms(2) by (simp add: RemoveItemAtIndex_def committed_visible_def GetItemCount_def)
  have b: "0 \<le> lastCommittedItemIndex m" "lastCommittedItemIndex m < int (length (sc_items m))"
    using inv True by (auto simp: nav_inv_def)
  have s: "remove_at (nat index) (sc_items m) ! nat (lastCommittedItemIndex ?m) = sc_items m ! nat (lastCommittedItemIndex m)"
    "nat (lastCommittedItemIndex ?m) < length (remove_at (nat index) (sc_items m))"
    using True b by (auto simp: nth_remove_at Suc_nat_eq_nat_zadd1)
  show ?thesis using r s True
    by (intro exI [of _ True] exI [of _ "tell (OnNavigationItemsPruned 1) ?m"])
       (simp add: pendingItem_def transientItem_def)
qed

theorem remove_item_keeps_committed_witness:
  "\<exists>m'. RemoveItemAtIndex demo_web 1 demo_history = Some (True, m') \<and>
    sc_items m' ! nat (lastCommittedItemIndex m') = demo_items ! 3 \<and> length (sc_items m') = 3"
proof -
  have "GetPendingItemIndex demo_web demo_history = - 1"
    by (simp add: GetPendingItemIndex_def GetPendingItem_def pendingItem_def)
  then obtain m' where "RemoveItemAtIndex demo_web 1 demo_history = Some (True, m')"
    "sc_items m' = remove_at (nat 1) demo_items"
    "sc_items m' ! nat (lastCommittedItemIndex m') = demo_items ! nat 3"
    using remove_item_keeps_committed [OF demo_history_reachable demo_committed_visible, of 1]
    by (auto simp: demo_items_def)
  then show ?thesis by (auto simp: demo_items_def remove_at_def)
qed

definition previous_url :: "'u web_lib \<Rightarrow> 'u nav_manager \<Rightarrow> 'u" where
  "previous_url W m =
     (case GetLastCommittedItem W m of Some r \<Rightarrow> item_url (the (deref m r)) | None \<Rightarrow> empty_gurl (gl W))"

text \<open>
  C17. Rewriting cannot raise privileges. When a page that is not app-specific starts a load of a
  URL that is not app-specific, then whatever transient and permanent rewriters are installed, the
  created item does not have an app-specific URL; and the transient rewriters are used up.
\<close>

theorem renderer_load_not_app_specific:
  assumes "CreateNavigationItem W url referrer transition RENDERER_INITIATED m = Some (item, m')"
    and "\<not> is_app_specific_url (gl W) url" "\<not> is_app_specific_url (gl W) (previous_url W m)"
  shows "\<not> is_app_specific_url (gl W) (item_url item) \<and>
    original_request_url item = item_url item \<and> transient_url_rewriters m' = []"
proof -
  have c: "CreateNavigationItemWithRewriters W no_placeholder url referrer transition RENDERER_INITIATED
      (previous_url W m) (transient_url_rewriters m) (unique_id_counter m) = Some item"
    using assms(1) by (auto simp: CreateNavigationItem_def previous_url_def Let_def bind_eq_Some_conv)
  have "\<not> is_app_specific_url (gl W) (loaded_url_for W no_placeholder url RENDERER_INITIATED
      (previous_url W m) (transient_url_rewriters m))"
    using assms(2,3) by (auto simp: loaded_url_for_def Let_def)
  then show ?thesis
    using created_item_fields(1,3) [OF c] CreateNavigationItem_frame [OF assms(1)] by simp
qed

text \<open>
  A library with a rewriter that sends \<open>d.com\<close> to an application page, and a manager with a transient rewriter
  that does it for \<open>e.com\<close>. The rewriting is undone for a load that a page started, and happens for the
  same load of the browser.
\<close>

definition demo_rewriter :: "string \<Rightarrow> demo_url url_rewriter" where
  "demo_rewriter host u = (if u = demo_page host then (True, Demo_URL ''chrome'' ''chrome://version'' [] []) else (False, u))"

definition demo_rewriting_web :: "demo_url web_lib" where
  "demo_rewriting_web = demo_web\<lparr>browser_url_rewriters := [demo_rewriter ''d.com'']\<rparr>"

definition demo_rewriting_history :: "demo_url nav_manager" where
  "demo_rewriting_history = demo_history\<lparr>transient_url_rewriters := [demo_rewriter ''e.com'']\<rparr>"

definition demo_created :: "string \<Rightarrow> navigation_initiation_type \<Rightarrow> (demo_url navigation_item \<times> demo_url nav_manager) option" where
  "demo_created host initiation = CreateNavigationItem demo_rewriting_web (demo_page host) (Referrer demo_rewriting_web) 0
     initiation demo_rewriting_history"

theorem renderer_load_not_app_specific_witness:
  "\<exists>d e d' e' md me md' me'.
     demo_created ''d.com'' RENDERER_INITIATED = Some (d, md) \<and> \<not> is_app_specific_url demo_lib (item_url d) \<and>
     demo_created ''e.com'' RENDERER_INITIATED = Some (e, me) \<and> \<not> is_app_specific_url demo_lib (item_url e) \<and>
     demo_created ''d.com'' BROWSER_INITIATED = Some (d', md') \<and> is_app_specific_url demo_lib (item_url d') \<and>
     demo_created ''e.com'' BROWSER_INITIATED = Some (e', me') \<and> is_app_specific_url demo_lib (item_url e')"
proof -
  have "map (\<lambda>h. demo_created h RENDERER_INITIATED = None) [''d.com'', ''e.com''] = [False, False]"
    "map (\<lambda>h. map_option (\<lambda>(i, m). is_app_specific_url demo_lib (item_url i)) (demo_created h BROWSER_INITIATED))
       [''d.com'', ''e.com''] = [Some True, Some True]"
    by code_simp+
  then obtain d e d' e' md me md' me' where r: "demo_created ''d.com'' RENDERER_INITIATED = Some (d, md)"
      "demo_created ''e.com'' RENDERER_INITIATED = Some (e, me)"
      "demo_created ''d.com'' BROWSER_INITIATED = Some (d', md')" "is_app_specific_url demo_lib (item_url d')"
      "demo_created ''e.com'' BROWSER_INITIATED = Some (e', me')" "is_app_specific_url demo_lib (item_url e')"
    by auto
  have p: "\<not> is_app_specific_url (gl demo_rewriting_web) (demo_page h)" for h
    by (simp add: demo_rewriting_web_def demo_web_def demo_lib_def demo_page_def)
  have c: "\<not> is_app_specific_url (gl demo_rewriting_web) (previous_url demo_rewriting_web demo_rewriting_history)"
    by code_simp
  have "\<not> is_app_specific_url demo_lib (item_url d)" "\<not> is_app_specific_url demo_lib (item_url e)"
    using renderer_load_not_app_specific [OF r(1) [unfolded demo_created_def] p c]
      renderer_load_not_app_specific [OF r(2) [unfolded demo_created_def] p c]
    by (simp_all add: demo_rewriting_web_def demo_web_def)
  with r show ?thesis by blast
qed

lemma same_document_loop_sound:
  "same_document_loop W u m is = Some True \<Longrightarrow> i \<in> set is \<Longrightarrow> i < length (sc_items m) \<and>
    (is_created_from_push_state (sc_items m ! i) \<or> is_created_from_hash_change (sc_items m ! i)) \<and>
    GetOrigin W (item_url (sc_items m ! i)) = GetOrigin W u"
  by (induction "is")
     (auto split: if_splits simp: IsHistoryStateChangeValid_def bind_check bind_eq_Some_conv)

lemma indexOfItem_Committed: "i < length (sc_items m) \<Longrightarrow> indexOfItem (Committed i) m = int i"
  unfolding indexOfItem_def by (rule find_index_eqI) auto

text \<open>A same-document answer between two committed items vouches for every item between them.\<close>

lemma same_document_sound:
  assumes "isSameDocumentNavigationBetweenItem W (Some (Committed a)) (Some (Committed b)) m = Some True"
    "min a b < i" "i \<le> max a b"
  shows "a \<noteq> b \<and> (is_created_from_push_state (sc_items m ! i) \<or> is_created_from_hash_change (sc_items m ! i)) \<and>
    GetOrigin W (item_url (sc_items m ! i)) = GetOrigin W (item_url (sc_items m ! a))"
proof -
  have ab: "a < length (sc_items m)" "b < length (sc_items m)" "a \<noteq> b"
    using assms(1) by (auto simp: isSameDocumentNavigationBetweenItem_def split: if_splits)
  let ?s = "if int a < int b then int a else int b" and ?e = "if int a < int b then int b else int a"
  have loop: "same_document_loop W (item_url (sc_items m ! a)) m [nat ?s + 1..<nat ?e + 1] = Some True"
    using assms(1) ab indexOfItem_Committed [OF ab(1)] indexOfItem_Committed [OF ab(2)]
    unfolding isSameDocumentNavigationBetweenItem_def
    by (simp add: Let_def del: upt_Suc split: if_splits)
  have mem: "i \<in> set [nat ?s + 1..<nat ?e + 1]" using assms(2,3) by (auto simp: min_def max_def split: if_splits)
  show ?thesis using same_document_loop_sound [OF loop mem] ab(3) by blast
qed

lemma forward_back_update:
  assumes "update_item (Committed i) (\<lambda>i. Some (SetTransitionType (f i) i)) m = Some m1"
  shows "i < length (sc_items m) \<and> m1 = m\<lparr>sc_items := (sc_items m)[i := SetTransitionType (f (sc_items m ! i)) (sc_items m ! i)]\<rparr>"
  using assms by (auto simp: update_item_def split: if_splits)

lemma update_keeps: "f (g (xs ! i)) = f (xs ! i) \<Longrightarrow> f ((xs[i := g (xs ! i)]) ! j) = f (xs ! j)"
  by (cases "i < length xs") (auto simp: nth_list_update list_update_beyond)

lemma SetTransitionType_keeps [simp]:
  "item_url (SetTransitionType t i) = item_url i"
  "is_created_from_push_state (SetTransitionType t i) = is_created_from_push_state i"
  "is_created_from_hash_change (SetTransitionType t i) = is_created_from_hash_change i"
  by (simp_all add: SetTransitionType_def)

lemma SetTransitionType_nth:
  "item_url ((xs[i := SetTransitionType t (xs ! i)]) ! j) = item_url (xs ! j)"
  "is_created_from_push_state ((xs[i := SetTransitionType t (xs ! i)]) ! j) = is_created_from_push_state (xs ! j)"
  "is_created_from_hash_change ((xs[i := SetTransitionType t (xs ! i)]) ! j) = is_created_from_hash_change (xs ! j)"
  by (rule update_keeps, simp)+

lemma map_SetTransitionType: "map item_url (xs[i := SetTransitionType t (xs ! i)]) = map item_url xs"
  by (rule nth_equalityI) (simp_all add: SetTransitionType_nth)

text \<open>
  \<open>GoToIndex\<close>, for an index of the history: either it is a navigation within the document,
  taken only when every item from one index to the other was created by \<open>pushState\<close> or a hash
  change in the same origin, and then the last committed index moves at once and nothing is
  loaded; or the item becomes the pending one, a load is requested, and the user is shown the
  last committed item until it commits. The URLs of the history never change.
\<close>

lemma go_to_index:
  assumes "nav_reachable W m" "committed_visible W m" "GoToIndex W index type gesture m = Some m'"
  shows "0 \<le> index \<and> index < int (length (sc_items m)) \<and>
    map item_url (sc_items m') = map item_url (sc_items m) \<and> transientItem m' = None \<and>
    (lastCommittedItemIndex m' = index \<and> previousItemIndex m' = lastCommittedItemIndex m \<and>
       (\<exists>d. delegate_calls m' = d @ [OnGoToIndexSameDocumentNavigation type gesture]) \<and>
       (\<forall>i. min (nat index) (nat (lastCommittedItemIndex m)) < i \<longrightarrow> i \<le> max (nat index) (nat (lastCommittedItemIndex m)) \<longrightarrow>
          (is_created_from_push_state (sc_items m ! i) \<or> is_created_from_hash_change (sc_items m ! i)) \<and>
          GetOrigin W (item_url (sc_items m ! i)) = GetOrigin W (item_url (sc_items m ! nat (lastCommittedItemIndex m)))) \<or>
     lastCommittedItemIndex m' = lastCommittedItemIndex m \<and> pendingItem m' = Some (Committed (nat index)) \<and>
       visibleItem m' = lastCommittedItem m \<and>
       (\<exists>d. delegate_calls m' = d @ [LoadCurrentItem type]))"
proof -
  have r: "0 \<le> index" "index < int (length (sc_items m))"
    using assms(3) by (auto simp: GoToIndex_def GetItemCount_def split: if_splits)
  let ?l = "nat (lastCommittedItemIndex m)"
  have l: "0 \<le> lastCommittedItemIndex m" "?l < length (sc_items m)"
    using nav_reachable_inv [OF assms(1)] r by (auto simp: nav_inv_def)
  from assms(3) obtain m0 where m0: "FinishGoToIndex W (nat index) type gesture m0 = Some m'"
    and s0: "sc_items m0 = sc_items m" "lastCommittedItemIndex m0 = lastCommittedItemIndex m"
    unfolding GoToIndex_def Let_def by (auto split: if_splits elim!: bind_SomeE)
  have prev: "GetLastCommittedItem W m0 = Some (Committed ?l)"
    using assms(2) l s0
    by (auto simp: GetLastCommittedItem_def committed_visible_def GetLastCommittedItemIndex_def
        IsRestoreSessionInProgress_def lastCommittedItem_def split: if_splits)
  from m0 obtain m1 same where
    u: "update_item (Committed (nat index)) (\<lambda>i. Some (SetTransitionType
            (or (transition_type i) (PAGE_TRANSITION_FORWARD_BACK W)) i)) m0 = Some m1" and
    sd: "isSameDocumentNavigationBetweenItem W (Some (Committed ?l)) (Some (Committed (nat index))) m1 = Some same" and
    m': "(if same
     then do { m \<leftarrow> goToItemAtIndex (int (nat index)) True m1;
               Some (tell (OnGoToIndexSameDocumentNavigation type gesture) m) }
     else do { m \<leftarrow> discardNonCommittedItems m1; m \<leftarrow> setPendingItemIndex (int (nat index)) m;
               Some (tell (LoadCurrentItem type) m) }) = Some m'"
    unfolding FinishGoToIndex_def Let_def prev by (elim bind_SomeE)
  note m1 = forward_back_update [OF u]
  show ?thesis
  proof (cases same)
    case False
    with m' have "m' = tell (LoadCurrentItem type)
        (m1\<lparr>sc_transientItem := None, sc_pendingItem := None, pendingItemIndex := int (nat index)\<rparr>)"
      by (auto elim!: bind_SomeE simp: setPendingItemIndex_Some)
    with m1 r s0 show ?thesis
      by (simp add: pendingItem_def transientItem_def visibleItem_def lastCommittedItem_def Let_def
          map_SetTransitionType)
  next
    case True
    have sd': "isSameDocumentNavigationBetweenItem W (Some (Committed ?l)) (Some (Committed (nat index))) m1 = Some True"
      using sd True by simp
    note sound = same_document_sound [OF sd']
    have ne: "nat index \<noteq> ?l" using sd True by (auto simp: isSameDocumentNavigationBetweenItem_def)
    have "lastCommittedItemIndex m' = index \<and> previousItemIndex m' = lastCommittedItemIndex m \<and>
        transientItem m' = None \<and> sc_items m' = sc_items m1 \<and>
        (\<exists>d. delegate_calls m' = d @ [OnGoToIndexSameDocumentNavigation type gesture])"
      using m' True m1 r ne s0
      by (auto simp: goToItemAtIndex_def discardTransientItem_def transientItem_def Let_def split: if_splits)
    moreover have "(is_created_from_push_state (sc_items m ! i) \<or> is_created_from_hash_change (sc_items m ! i)) \<and>
          GetOrigin W (item_url (sc_items m ! i)) = GetOrigin W (item_url (sc_items m ! ?l))"
      if "min (nat index) ?l < i" "i \<le> max (nat index) ?l" for i
      using sound [of i] that m1 s0 by (simp add: min.commute max.commute SetTransitionType_nth)
    ultimately show ?thesis using r m1 s0 by (simp add: map_SetTransitionType)
  qed
qed

lemma go_to_index_witness:
  "\<exists>m'. GoToIndex demo_web 1 BROWSER_INITIATED True demo_history = Some m' \<and>
    pendingItem m' = Some (Committed 1) \<and> visibleItem m' = Some (Committed 3)"
proof -
  have "GoToIndex demo_web 1 BROWSER_INITIATED True demo_history \<noteq> None" by code_simp
  then obtain m' where m': "GoToIndex demo_web 1 BROWSER_INITIATED True demo_history = Some m'" by auto
  have "map_option lastCommittedItemIndex (GoToIndex demo_web 1 BROWSER_INITIATED True demo_history) = Some 3"
    by code_simp
  then have "lastCommittedItemIndex m' = 3" using m' by simp
  with go_to_index [OF demo_history_reachable demo_committed_visible m'] m' show ?thesis
    by (auto simp: lastCommittedItem_def)
qed

section \<open>The legacy manager behind the interface\<close>

text \<open>A history in which no item has an invalid URL.\<close>

definition nav_settled :: "'u web_lib \<Rightarrow> 'u nav_manager \<Rightarrow> bool" where
  "nav_settled W m \<longleftrightarrow> nav_invp False m \<and> (\<forall>item \<in> set (sc_items m). is_valid (gl W) (item_url item))"

lemma same_document_loop_returns:
  assumes "\<forall>i \<in> set is. i < length (sc_items m)"
    "\<forall>b \<in> set (sc_items m). is_valid (gl W) (item_url b)" "is_valid (gl W) u"
  shows "same_document_loop W u m is \<noteq> None"
  using assms(1)
proof (induction "is")
  case (Cons i rest)
  then have i: "i < length (sc_items m)" and rest: "same_document_loop W u m rest \<noteq> None" by simp_all
  have "IsHistoryStateChangeValid W u (item_url (sc_items m ! i)) = Some (GetOrigin W (item_url (sc_items m ! i)) = GetOrigin W u)"
    using assms(2,3) i by (simp add: IsHistoryStateChangeValid_def)
  with i rest show ?case by (simp del: not_None_eq)
qed simp

lemma same_document_returns:
  assumes "a < length (sc_items m)" "b < length (sc_items m)"
    "\<forall>x \<in> set (sc_items m). is_valid (gl W) (item_url x)"
  shows "isSameDocumentNavigationBetweenItem W (Some (Committed a)) (Some (Committed b)) m \<noteq> None"
proof -
  let ?s = "if int a < int b then int a else int b" and ?e = "if int a < int b then int b else int a"
  have "\<forall>i \<in> set [nat ?s + 1..<nat ?e + 1]. i < length (sc_items m)" using assms(1,2) by (auto simp del: upt_Suc)
  then have "same_document_loop W (item_url (sc_items m ! a)) m [nat ?s + 1..<nat ?e + 1] \<noteq> None"
    by (rule same_document_loop_returns) (use assms(1,3) in auto)
  then show ?thesis
    using assms(1,2) indexOfItem_Committed [OF assms(1)] indexOfItem_Committed [OF assms(2)]
    unfolding isSameDocumentNavigationBetweenItem_def by (simp add: Let_def del: upt_Suc not_None_eq)
qed

lemma valid_urls_transition:
  assumes "\<forall>x \<in> set xs. P (item_url x)"
  shows "\<forall>x \<in> set (xs[i := SetTransitionType t (xs ! i)]). P (item_url x)"
proof -
  have "item_url ` set (xs[i := SetTransitionType t (xs ! i)]) = item_url ` set xs"
    using map_SetTransitionType [of xs i t] by (metis list.set_map)
  with assms show ?thesis by (metis (no_types, lifting) imageE image_eqI)
qed

lemma FinishGoToIndex_returns:
  assumes "nav_settled W m" "i < length (sc_items m)"
  shows "\<exists>m'. FinishGoToIndex W i type gesture m = Some m'"
proof -
  let ?m = "m\<lparr>sc_items := (sc_items m)[i := SetTransitionType
    (or (transition_type (sc_items m ! i)) (PAGE_TRANSITION_FORWARD_BACK W)) (sc_items m ! i)]\<rparr>"
  have u: "update_item (Committed i) (\<lambda>i. Some (SetTransitionType
      (or (transition_type i) (PAGE_TRANSITION_FORWARD_BACK W)) i)) m = Some ?m"
    using assms(2) by (simp add: update_item_def)
  have v: "\<forall>x \<in> set (sc_items ?m). is_valid (gl W) (item_url x)"
    using assms(1) valid_urls_transition [of "sc_items m" "is_valid (gl W)"] by (simp add: nav_settled_def)
  have "isSameDocumentNavigationBetweenItem W (GetLastCommittedItem W m) (Some (Committed i)) ?m \<noteq> None"
  proof (cases "GetLastCommittedItem W m")
    case (Some r)
    then obtain l where "r = Committed l" "l < length (sc_items m)"
      using assms(1) by (auto simp: GetLastCommittedItem_def lastCommittedItem_def nav_settled_def nav_inv_def
          split: if_splits option.splits)
    with Some same_document_returns [of l ?m i W] v assms(2) show ?thesis by simp
  qed (simp add: isSameDocumentNavigationBetweenItem_def)
  then obtain s where s: "isSameDocumentNavigationBetweenItem W (GetLastCommittedItem W m) (Some (Committed i)) ?m = Some s"
    by auto
  have "\<exists>m'. goToItemAtIndex (int i) True ?m = Some m'" by (simp add: goToItemAtIndex_def Let_def)
  with u s assms(2) show ?thesis
    by (cases s) (auto simp: FinishGoToIndex_def setPendingItemIndex_def pendingItem_def bind_check Let_def)
qed

lemma nav_settled_tell [simp]: "nav_settled W (tell e m) = nav_settled W m"
  by (simp add: nav_settled_def)

lemma GoToIndex_returns:
  assumes "nav_settled W m" "0 \<le> index" "index < GetItemCount m"
  shows "\<exists>m'. GoToIndex W index type gesture m = Some m'"
proof -
  have i: "nat index < length (sc_items m)" using assms(2,3) by (simp add: GetItemCount_def)
  let ?f = "\<lambda>a b m. (if b then tell WillChangeUserAgentType (tell ClearTransientContent
    (if a then tell RecordPageStateInNavigationItem m else m)) else tell ClearTransientContent
    (if a then tell RecordPageStateInNavigationItem m else m))"
  have "\<exists>m'. FinishGoToIndex W (nat index) type gesture (?f a b m) = Some m'" for a b
    by (rule FinishGoToIndex_returns) (use assms(1) i in simp_all)
  with assms(2,3) i show ?thesis
    by (auto simp: GoToIndex_def GetItemAtIndex_def itemAtIndex_def GetItemCount_def Let_def)
qed

interpretation legacy_manager: navigation_manager "nav_settled W" GetItemCount "GetIndexForOffset W" "CanGoToOffset W"
  "\<lambda>i. GoToIndex W i type gesture" for W type gesture
proof unfold_locales
  show "nav_settled W m \<Longrightarrow> CanGoToOffset W k m \<longleftrightarrow> 0 \<le> GetIndexForOffset W k m \<and> GetIndexForOffset W k m < GetItemCount m"
    for m k by (simp add: CanGoToOffset_def Let_def)
  show "nav_settled W m \<Longrightarrow> 0 \<le> i \<Longrightarrow> i < GetItemCount m \<Longrightarrow> \<exists>m'. GoToIndex W i type gesture m = Some m'" for m i
    by (rule GoToIndex_returns)
  show "GoToIndex W i type gesture m = Some m' \<Longrightarrow> 0 \<le> i \<and> i < GetItemCount m" for i m m'
    by (simp add: GoToIndex_def split: if_splits)
qed

end
