(* ===== verification/Web_State_List.thy ===== *)
theory Web_State_List
  imports Prelude
begin

unbundle bit_operations_syntax

text \<open>
  The tab strip model of Chrome for iOS, \<open>chrome/browser/web_state_list\<close>: \<open>WebStateOpener\<close>,
  the wrapper class, the side-effect free queries of \<open>WebStateList\<close>, the order controller that
  chooses insertion and selection indices, and every mutating operation of \<open>WebStateList\<close>.
  The calls made to the observers and to the delegate are recorded, in order, in the field
  \<open>calls\<close>, each with what the callee can see of the list at that moment.
\<close>

section \<open>Data\<close>

type_synonym web_state = "nat option"
type_synonym gurl = string

text \<open>What the list asks of the \<open>web::WebState\<close> objects it holds.\<close>

record web_env =
  visible_url :: "web_state \<Rightarrow> gurl"
  last_committed_item_index :: "web_state \<Rightarrow> int"

definition kInvalidIndex :: int where
  "kInvalidIndex = - 1"

definition INSERT_NO_FLAGS :: int where "INSERT_NO_FLAGS = 0"
definition INSERT_ACTIVATE :: int where "INSERT_ACTIVATE = 1"
definition INSERT_FORCE_INDEX :: int where "INSERT_FORCE_INDEX = 2"
definition INSERT_INHERIT_OPENER :: int where "INSERT_INHERIT_OPENER = 4"
definition CLOSE_NO_FLAGS :: int where "CLOSE_NO_FLAGS = 0"
definition CLOSE_USER_ACTION :: int where "CLOSE_USER_ACTION = 1"

definition CHANGE_REASON_NONE :: int where "CHANGE_REASON_NONE = 0"
definition CHANGE_REASON_REPLACED :: int where "CHANGE_REASON_REPLACED = 1"
definition CHANGE_REASON_USER_ACTION :: int where "CHANGE_REASON_USER_ACTION = 2"

lemmas wsl_consts =
  kInvalidIndex_def INSERT_NO_FLAGS_def INSERT_ACTIVATE_def INSERT_FORCE_INDEX_def
  INSERT_INHERIT_OPENER_def CLOSE_NO_FLAGS_def CLOSE_USER_ACTION_def CHANGE_REASON_NONE_def
  CHANGE_REASON_REPLACED_def CHANGE_REASON_USER_ACTION_def

definition IsInsertionFlagSet :: "int \<Rightarrow> int \<Rightarrow> bool" where
  "IsInsertionFlagSet flagset flag \<longleftrightarrow> flagset AND flag = flag"

definition IsClosingFlagSet :: "int \<Rightarrow> int \<Rightarrow> bool" where
  "IsClosingFlagSet flagset flag \<longleftrightarrow> flagset AND flag = flag"

record web_state_opener =
  opener :: web_state
  navigation_index :: int

definition NavigationIndexFromWebState :: "web_env \<Rightarrow> web_state \<Rightarrow> int" where
  "NavigationIndexFromWebState env ws =
     (if ws = None then - 1 else last_committed_item_index env ws)"

definition WebStateOpener :: "web_env \<Rightarrow> web_state \<Rightarrow> web_state_opener" where
  "WebStateOpener env ws = \<lparr>opener = ws, navigation_index = NavigationIndexFromWebState env ws\<rparr>"

definition null_opener :: web_state_opener where
  "null_opener = \<lparr>opener = None, navigation_index = - 1\<rparr>"

lemma null_opener_eq: "null_opener = WebStateOpener env None"
  by (simp add: null_opener_def WebStateOpener_def NavigationIndexFromWebState_def)

lemma opener_null_opener [simp]: "opener null_opener = None"
  by (simp add: null_opener_def)

lemma opener_WebStateOpener [simp]: "opener (WebStateOpener env ws) = ws"
  by (simp add: WebStateOpener_def)

record web_state_wrapper =
  wrapped :: web_state
  wrapper_opener :: web_state_opener

definition make_wrapper :: "web_state \<Rightarrow> web_state_wrapper option" where
  "make_wrapper ws = do {
     check (ws \<noteq> None);
     Some \<lparr>wrapped = ws, wrapper_opener = null_opener\<rparr> }"

definition wrapper_ReplaceWebState ::
  "web_state \<Rightarrow> web_state_wrapper \<Rightarrow> (web_state \<times> web_state_wrapper) option" where
  "wrapper_ReplaceWebState ws w = do {
     check (ws \<noteq> wrapped w);
     Some (wrapped w, \<lparr>wrapped = ws, wrapper_opener = null_opener\<rparr>) }"

definition WasOpenedBy :: "web_state \<Rightarrow> int \<Rightarrow> bool \<Rightarrow> web_state_wrapper \<Rightarrow> bool" where
  "WasOpenedBy op opener_navigation_index use_group w =
     (if opener (wrapper_opener w) \<noteq> op then False
      else if \<not> use_group then True
      else navigation_index (wrapper_opener w) = opener_navigation_index)"

text \<open>The callbacks of \<open>WebStateListObserver\<close> and of \<open>WebStateListDelegate\<close>.\<close>

datatype wsl_event =
    WebStateInsertedAt web_state int bool
  | WebStateMoved web_state int int
  | WebStateReplacedAt web_state web_state int
  | WillDetachWebStateAt web_state int
  | WebStateDetachedAt web_state int
  | WillCloseWebStateAt web_state int bool
  | WebStateActivatedAt web_state web_state int int

datatype delegate_call = WillAddWebState web_state | WebStateDetached web_state

text \<open>What a callee can read from the list while it is being called.\<close>

record wsl_view =
  seen_web_states :: "web_state list"
  seen_active_index :: int
  seen_locked :: bool

datatype wsl_call =
    NotifyObserver nat wsl_event wsl_view
  | CallDelegate delegate_call wsl_view

record web_state_list =
  web_state_wrappers :: "web_state_wrapper list"
  active_index :: int
  locked :: bool
  observers :: "nat list"
  calls :: "wsl_call list"

definition new_web_state_list :: web_state_list where
  "new_web_state_list =
     \<lparr>web_state_wrappers = [], active_index = kInvalidIndex, locked = False, observers = [],
      calls = []\<rparr>"

abbreviation web_states :: "web_state_list \<Rightarrow> web_state list" where
  "web_states s \<equiv> map wrapped (web_state_wrappers s)"

section \<open>Queries\<close>

definition wsl_empty :: "web_state_list \<Rightarrow> bool" where
  [query_defs]: "wsl_empty s \<longleftrightarrow> web_state_wrappers s = []"

definition wsl_count :: "web_state_list \<Rightarrow> int" where
  [query_defs]: "wsl_count s = int (length (web_state_wrappers s))"

definition ContainsIndex :: "int \<Rightarrow> web_state_list \<Rightarrow> bool" where
  [query_defs]: "ContainsIndex index s \<longleftrightarrow> 0 \<le> index \<and> index < wsl_count s"

definition GetWebStateAt :: "int \<Rightarrow> web_state_list \<Rightarrow> web_state option" where
  "GetWebStateAt index s = do {
     check (ContainsIndex index s);
     Some (wrapped (web_state_wrappers s ! nat index)) }"

definition GetActiveWebState :: "web_state_list \<Rightarrow> web_state option" where
  "GetActiveWebState s =
     (if active_index s \<noteq> kInvalidIndex then GetWebStateAt (active_index s) s else Some None)"

definition GetIndexOfWebState :: "web_state \<Rightarrow> web_state_list \<Rightarrow> int" where
  "GetIndexOfWebState ws s = find_index (\<lambda>w. wrapped w = ws) (web_state_wrappers s)"

definition GetIndexOfWebStateWithURL :: "web_env \<Rightarrow> gurl \<Rightarrow> web_state_list \<Rightarrow> int" where
  "GetIndexOfWebStateWithURL env url s =
     find_index (\<lambda>w. visible_url env (wrapped w) = url) (web_state_wrappers s)"

fun inactive_url_loop :: "web_env \<Rightarrow> gurl \<Rightarrow> int \<Rightarrow> web_state_wrapper list \<Rightarrow> int \<Rightarrow> int" where
  "inactive_url_loop env url active [] index = kInvalidIndex"
| "inactive_url_loop env url active (w # ws) index =
     (if index = active then inactive_url_loop env url active ws (index + 1)
      else if visible_url env (wrapped w) = url then index
      else inactive_url_loop env url active ws (index + 1))"

definition GetIndexOfInactiveWebStateWithURL :: "web_env \<Rightarrow> gurl \<Rightarrow> web_state_list \<Rightarrow> int" where
  "GetIndexOfInactiveWebStateWithURL env url s =
     inactive_url_loop env url (active_index s) (web_state_wrappers s) 0"

definition GetOpenerOfWebStateAt :: "int \<Rightarrow> web_state_list \<Rightarrow> web_state_opener option" where
  "GetOpenerOfWebStateAt index s = do {
     check (ContainsIndex index s);
     Some (wrapper_opener (web_state_wrappers s ! nat index)) }"

fun opened_by_loop :: "(web_state_wrapper \<Rightarrow> bool) \<Rightarrow> web_state_wrapper list \<Rightarrow> int \<Rightarrow> int \<Rightarrow> int \<Rightarrow> int"
where
  "opened_by_loop P [] index found_index n = found_index"
| "opened_by_loop P (w # ws) index found_index n =
     (if n = 0 then found_index
      else if P w then opened_by_loop P ws (index + 1) index (n - 1)
      else if found_index \<noteq> kInvalidIndex then found_index
      else opened_by_loop P ws (index + 1) found_index n)"

definition GetIndexOfNthWebStateOpenedBy ::
  "web_env \<Rightarrow> web_state \<Rightarrow> int \<Rightarrow> bool \<Rightarrow> int \<Rightarrow> web_state_list \<Rightarrow> int" where
  "GetIndexOfNthWebStateOpenedBy env op start_index use_group n s =
     (if op = None \<or> \<not> ContainsIndex start_index s \<or> start_index = INT_MAX then kInvalidIndex
      else
        let opener_navigation_index = (if use_group then last_committed_item_index env op else - 1)
        in opened_by_loop (WasOpenedBy op opener_navigation_index use_group)
             (drop (nat (start_index + 1)) (web_state_wrappers s)) (start_index + 1)
             kInvalidIndex n)"

definition GetIndexOfNextWebStateOpenedBy ::
  "web_env \<Rightarrow> web_state \<Rightarrow> int \<Rightarrow> bool \<Rightarrow> web_state_list \<Rightarrow> int" where
  "GetIndexOfNextWebStateOpenedBy env op start_index use_group s =
     GetIndexOfNthWebStateOpenedBy env op start_index use_group 1 s"

definition GetIndexOfLastWebStateOpenedBy ::
  "web_env \<Rightarrow> web_state \<Rightarrow> int \<Rightarrow> bool \<Rightarrow> web_state_list \<Rightarrow> int" where
  "GetIndexOfLastWebStateOpenedBy env op start_index use_group s =
     GetIndexOfNthWebStateOpenedBy env op start_index use_group INT_MAX s"

section \<open>The order controller\<close>

definition DetermineInsertionIndex :: "web_env \<Rightarrow> web_state \<Rightarrow> web_state_list \<Rightarrow> int option" where
  "DetermineInsertionIndex env op s =
     (if op = None then Some (wsl_count s)
      else do {
        let opener_index = GetIndexOfWebState op s;
        check (opener_index \<noteq> kInvalidIndex);
        let list_child_index = GetIndexOfLastWebStateOpenedBy env op opener_index True s;
        let reference_index =
          (if list_child_index \<noteq> kInvalidIndex then list_child_index else opener_index);
        check (reference_index < INT_MAX);
        Some (reference_index + 1) })"

definition GetValidIndex :: "int \<Rightarrow> int \<Rightarrow> int" where
  "GetValidIndex index removing_index =
     (if removing_index < index then min 0 (index - 1) else index)"

definition DetermineNewActiveIndex :: "web_env \<Rightarrow> int \<Rightarrow> web_state_list \<Rightarrow> int option" where
  "DetermineNewActiveIndex env removing_index s = do {
     check (ContainsIndex removing_index s);
     removing \<leftarrow> GetWebStateAt removing_index s;
     let index = GetIndexOfNextWebStateOpenedBy env removing removing_index False s;
     if index \<noteq> kInvalidIndex then Some (GetValidIndex index removing_index)
     else do {
       op \<leftarrow> GetOpenerOfWebStateAt removing_index s;
       if opener op \<noteq> None then
         (let index = GetIndexOfNextWebStateOpenedBy env (opener op) removing_index False s in
          if index \<noteq> kInvalidIndex then Some (GetValidIndex index removing_index)
          else Some (GetValidIndex (GetIndexOfWebState (opener op) s) removing_index))
       else if wsl_count s = 1 then Some kInvalidIndex
       else if removing_index \<ge> wsl_count s - 1 then Some (removing_index - 1)
       else Some removing_index } }"

section \<open>Operations\<close>

definition view_of :: "web_state_list \<Rightarrow> wsl_view" where
  "view_of s = \<lparr>seen_web_states = web_states s, seen_active_index = active_index s,
                seen_locked = locked s\<rparr>"

definition notify :: "wsl_event \<Rightarrow> web_state_list \<Rightarrow> web_state_list" where
  "notify ev s =
     s\<lparr>calls := calls s @ map (\<lambda>obs. NotifyObserver obs ev (view_of s)) (observers s)\<rparr>"

definition call_delegate :: "delegate_call \<Rightarrow> web_state_list \<Rightarrow> web_state_list" where
  "call_delegate c s = s\<lparr>calls := calls s @ [CallDelegate c (view_of s)]\<rparr>"

definition NotifyIfActiveWebStateChanged ::
  "web_state \<Rightarrow> int \<Rightarrow> web_state_list \<Rightarrow> web_state_list option" where
  "NotifyIfActiveWebStateChanged old_web_state reason s = do {
     new_web_state \<leftarrow> GetActiveWebState s;
     if old_web_state = new_web_state then Some s
     else Some (notify (WebStateActivatedAt old_web_state new_web_state (active_index s) reason) s) }"

definition clear_opener_if :: "web_state \<Rightarrow> web_state_wrapper \<Rightarrow> web_state_wrapper" where
  "clear_opener_if old w =
     (if opener (wrapper_opener w) = old then w\<lparr>wrapper_opener := null_opener\<rparr> else w)"

definition ClearOpenersReferencing :: "int \<Rightarrow> web_state_list \<Rightarrow> web_state_list" where
  "ClearOpenersReferencing index s =
     (let old = wrapped (web_state_wrappers s ! nat index) in
      s\<lparr>web_state_wrappers := map (clear_opener_if old) (web_state_wrappers s)\<rparr>)"

definition SetOpenerOfWebStateAt ::
  "int \<Rightarrow> web_state_opener \<Rightarrow> web_state_list \<Rightarrow> web_state_list option" where
  "SetOpenerOfWebStateAt index op s = do {
     check (ContainsIndex index s);
     check (ContainsIndex (GetIndexOfWebState (opener op) s) s);
     Some (s\<lparr>web_state_wrappers :=
       (web_state_wrappers s)[nat index :=
          (web_state_wrappers s ! nat index)\<lparr>wrapper_opener := op\<rparr>]\<rparr>) }"

definition ActivateWebStateAt :: "int \<Rightarrow> web_state_list \<Rightarrow> web_state_list option" where
  "ActivateWebStateAt index s = do {
     check (ContainsIndex index s);
     old_web_state \<leftarrow> GetActiveWebState s;
     NotifyIfActiveWebStateChanged old_web_state CHANGE_REASON_USER_ACTION
       (s\<lparr>active_index := index\<rparr>) }"

text \<open>The index at which an insertion takes place, and the opener it records.\<close>

definition insertion_opener ::
  "web_env \<Rightarrow> int \<Rightarrow> web_state_opener \<Rightarrow> web_state_list \<Rightarrow> web_state_opener option" where
  "insertion_opener env insertion_flags op s =
     (if IsInsertionFlagSet insertion_flags INSERT_INHERIT_OPENER
      then map_option (WebStateOpener env) (GetActiveWebState s) else Some op)"

definition insertion_index ::
  "web_env \<Rightarrow> int \<Rightarrow> int \<Rightarrow> web_state \<Rightarrow> web_state_list \<Rightarrow> int option" where
  "insertion_index env index insertion_flags op s =
     (if \<not> IsInsertionFlagSet insertion_flags INSERT_FORCE_INDEX then do {
        index \<leftarrow> DetermineInsertionIndex env op s;
        Some (if index < 0 \<or> wsl_count s < index then wsl_count s else index) }
      else Some index)"

definition InsertWebState ::
  "web_env \<Rightarrow> int \<Rightarrow> web_state \<Rightarrow> int \<Rightarrow> web_state_opener \<Rightarrow> web_state_list
   \<Rightarrow> (int \<times> web_state_list) option" where
  "InsertWebState env index web_state insertion_flags op s = do {
     let activating = IsInsertionFlagSet insertion_flags INSERT_ACTIVATE;
     check (\<not> locked s);
     let s = s\<lparr>locked := True\<rparr>;
     op \<leftarrow> insertion_opener env insertion_flags op s;
     index \<leftarrow> insertion_index env index insertion_flags (opener op) s;
     check (ContainsIndex index s \<or> index = wsl_count s);
     let s = call_delegate (WillAddWebState web_state) s;
     w \<leftarrow> make_wrapper web_state;
     let s = s\<lparr>web_state_wrappers := insert_at (nat index) w (web_state_wrappers s)\<rparr>;
     let s = s\<lparr>active_index :=
                 (if active_index s \<ge> index then active_index s + 1 else active_index s)\<rparr>;
     let s = notify (WebStateInsertedAt web_state index activating) s;
     s \<leftarrow> (if opener op \<noteq> None then SetOpenerOfWebStateAt index op s else Some s);
     let s = s\<lparr>locked := False\<rparr>;
     s \<leftarrow> (if activating then ActivateWebStateAt index s else Some s);
     Some (index, s) }"

definition moved_active_index :: "int \<Rightarrow> int \<Rightarrow> int \<Rightarrow> int" where
  "moved_active_index from_index to_index active =
     (if active = from_index then to_index
      else
        let lo = min from_index to_index; hi = max from_index to_index;
            delta = (if from_index < to_index then - 1 else 1)
        in if lo \<le> active \<and> active \<le> hi then active + delta else active)"

definition MoveWebStateAt :: "int \<Rightarrow> int \<Rightarrow> web_state_list \<Rightarrow> web_state_list option" where
  "MoveWebStateAt from_index to_index s = do {
     check (\<not> locked s);
     let s = s\<lparr>locked := True\<rparr>;
     check (ContainsIndex from_index s);
     check (ContainsIndex to_index s);
     if from_index = to_index then Some (s\<lparr>locked := False\<rparr>)
     else do {
       let w = web_state_wrappers s ! nat from_index;
       let s = s\<lparr>web_state_wrappers :=
                 insert_at (nat to_index) w (remove_at (nat from_index) (web_state_wrappers s))\<rparr>;
       let s = s\<lparr>active_index := moved_active_index from_index to_index (active_index s)\<rparr>;
       let s = notify (WebStateMoved (wrapped w) from_index to_index) s;
       Some (s\<lparr>locked := False\<rparr>) } }"

definition ReplaceWebStateAt ::
  "int \<Rightarrow> web_state \<Rightarrow> web_state_list \<Rightarrow> (web_state \<times> web_state_list) option" where
  "ReplaceWebStateAt index web_state s = do {
     check (ContainsIndex index s);
     let s = call_delegate (WillAddWebState web_state) s;
     let s = ClearOpenersReferencing index s;
     (old, w) \<leftarrow> wrapper_ReplaceWebState web_state (web_state_wrappers s ! nat index);
     let s = s\<lparr>web_state_wrappers := (web_state_wrappers s)[nat index := w]\<rparr>;
     let s = notify (WebStateReplacedAt old web_state index) s;
     s \<leftarrow> NotifyIfActiveWebStateChanged old CHANGE_REASON_REPLACED s;
     Some (old, call_delegate (WebStateDetached old) s) }"

text \<open>
  \<open>DetachWebStateAt\<close> asks the plugged-in order controller which index becomes active: the
  controller's answer is the argument \<open>determine\<close>, instantiated below with
  \<^const>\<open>DetermineNewActiveIndex\<close>.
\<close>

definition DetachWebStateAt_with ::
  "(int \<Rightarrow> web_state_list \<Rightarrow> int option) \<Rightarrow> int \<Rightarrow> web_state_list
   \<Rightarrow> (web_state \<times> web_state_list) option" where
  "DetachWebStateAt_with determine index s = do {
     check (\<not> locked s);
     let s = s\<lparr>locked := True\<rparr>;
     check (ContainsIndex index s);
     new_active_index \<leftarrow> determine index s;
     let web_state = wrapped (web_state_wrappers s ! nat index);
     let s = notify (WillDetachWebStateAt web_state index) s;
     let s = ClearOpenersReferencing index s;
     (detached, w) \<leftarrow> wrapper_ReplaceWebState None (web_state_wrappers s ! nat index);
     let s = s\<lparr>web_state_wrappers := remove_at (nat index) (web_state_wrappers s)\<rparr>;
     let active_web_state_was_closed = (index = active_index s);
     let s = s\<lparr>active_index :=
                 (if active_index s > index then active_index s - 1
                  else if active_index s = index then new_active_index else active_index s)\<rparr>;
     let s = notify (WebStateDetachedAt web_state index) s;
     s \<leftarrow> (if active_web_state_was_closed
          then NotifyIfActiveWebStateChanged web_state CHANGE_REASON_NONE s else Some s);
     let s = call_delegate (WebStateDetached web_state) s;
     Some (detached, s\<lparr>locked := False\<rparr>) }"

definition DetachWebStateAt ::
  "web_env \<Rightarrow> int \<Rightarrow> web_state_list \<Rightarrow> (web_state \<times> web_state_list) option" where
  "DetachWebStateAt env = DetachWebStateAt_with (DetermineNewActiveIndex env)"

definition CloseWebStateAt :: "web_env \<Rightarrow> int \<Rightarrow> int \<Rightarrow> web_state_list \<Rightarrow> web_state_list option" where
  "CloseWebStateAt env index close_flags s = do {
     (detached, s) \<leftarrow> DetachWebStateAt env index s;
     check (\<not> locked s);
     let s = s\<lparr>locked := True\<rparr>;
     let user_action = IsClosingFlagSet close_flags CLOSE_USER_ACTION;
     let s = notify (WillCloseWebStateAt detached index user_action) s;
     Some (s\<lparr>locked := False\<rparr>) }"

partial_function (option) CloseAllWebStates ::
  "web_env \<Rightarrow> int \<Rightarrow> web_state_list \<Rightarrow> web_state_list option" where
  "CloseAllWebStates env close_flags s =
     (if \<not> wsl_empty s
      then Option.bind (CloseWebStateAt env (wsl_count s - 1) close_flags s)
             (CloseAllWebStates env close_flags)
      else Some s)"

definition destroy_web_state_list :: "web_env \<Rightarrow> web_state_list \<Rightarrow> web_state_list option" where
  "destroy_web_state_list env s = do {
     check (\<not> locked s);
     CloseAllWebStates env CLOSE_NO_FLAGS s }"

text \<open>
  \<open>base::ObserverList\<close> is not part of the repository: its effect on the registered observers is
  the argument \<open>ol\<close>.
\<close>

definition AddObserver :: "(nat \<Rightarrow> nat list \<Rightarrow> nat list) \<Rightarrow> nat \<Rightarrow> web_state_list \<Rightarrow> web_state_list"
  where "AddObserver ol obs s = s\<lparr>observers := ol obs (observers s)\<rparr>"

definition RemoveObserver :: "(nat \<Rightarrow> nat list \<Rightarrow> nat list) \<Rightarrow> nat \<Rightarrow> web_state_list \<Rightarrow> web_state_list"
  where "RemoveObserver ol obs s = s\<lparr>observers := ol obs (observers s)\<rparr>"

end
