(* ===== verification/Web_State_List_Laws.thy ===== *)
theory Web_State_List_Laws
  imports Web_State_List
begin

text \<open>
  What \<open>WebStateList\<close> guarantees. The first half characterises the queries and the order
  controller; the second half gives, for each operation, its exact result on a well-formed list,
  from which the invariant, the refinement of the abstract tab strip and the contract towards
  the observers follow.
\<close>

section \<open>Invariant and abstract specification\<close>

text \<open>
  Every opener is a tab of the list. The header of \<open>SetOpenerOfWebStateAt\<close> does not forbid a tab as its own opener;
  lists that are \<open>strict\<close> have none.
\<close>

definition opener_ok :: "bool \<Rightarrow> web_state set \<Rightarrow> web_state_wrapper \<Rightarrow> bool" where
  "opener_ok strict W w \<longleftrightarrow>
     opener (wrapper_opener w) = None \<or>
     opener (wrapper_opener w) \<in> W \<and> (strict \<longrightarrow> opener (wrapper_opener w) \<noteq> wrapped w)"

definition wsl_wfp :: "bool \<Rightarrow> web_state_list \<Rightarrow> bool" where
  "wsl_wfp strict s \<longleftrightarrow>
     None \<notin> set (web_states s) \<and> distinct (web_states s) \<and>
     (active_index s = kInvalidIndex \<or> ContainsIndex (active_index s) s) \<and>
     list_all (opener_ok strict (set (web_states s))) (web_state_wrappers s) \<and>
     wsl_count s \<le> INT_MAX"

definition wsl_invp :: "bool \<Rightarrow> web_state_list \<Rightarrow> bool" where
  "wsl_invp strict s \<longleftrightarrow> wsl_wfp strict s \<and> \<not> locked s"

abbreviation wsl_wf :: "web_state_list \<Rightarrow> bool" where
  "wsl_wf \<equiv> wsl_wfp True"

abbreviation wsl_inv :: "web_state_list \<Rightarrow> bool" where
  "wsl_inv \<equiv> wsl_invp True"

lemmas wsl_wf_def = wsl_wfp_def
lemmas wsl_inv_def = wsl_invp_def

text \<open>The abstract tab strip: the tabs in order, and the selected tab itself (not its index).\<close>

record tab_strip =
  tabs :: "web_state list"
  selected :: web_state

definition abs_wsl :: "web_state_list \<Rightarrow> tab_strip" where
  "abs_wsl s = \<lparr>tabs = web_states s,
     selected = (if active_index s = kInvalidIndex then None
                 else wrapped (web_state_wrappers s ! nat (active_index s)))\<rparr>"

definition spec_insert :: "int \<Rightarrow> web_state \<Rightarrow> bool \<Rightarrow> tab_strip \<Rightarrow> tab_strip" where
  [spec_defs]: "spec_insert index ws activating t =
     \<lparr>tabs = insert_at (nat index) ws (tabs t), selected = (if activating then ws else selected t)\<rparr>"

definition spec_move :: "int \<Rightarrow> int \<Rightarrow> tab_strip \<Rightarrow> tab_strip" where
  [spec_defs]: "spec_move from_index to_index t =
     t\<lparr>tabs := insert_at (nat to_index) (tabs t ! nat from_index)
                 (remove_at (nat from_index) (tabs t))\<rparr>"

definition spec_replace :: "int \<Rightarrow> web_state \<Rightarrow> tab_strip \<Rightarrow> tab_strip" where
  [spec_defs]: "spec_replace index ws t =
     \<lparr>tabs = (tabs t)[nat index := ws],
      selected = (if selected t = tabs t ! nat index then ws else selected t)\<rparr>"

definition spec_detach :: "int \<Rightarrow> web_state \<Rightarrow> tab_strip \<Rightarrow> tab_strip" where
  [spec_defs]: "spec_detach index next_selected t =
     \<lparr>tabs = remove_at (nat index) (tabs t),
      selected = (if selected t = tabs t ! nat index then next_selected else selected t)\<rparr>"

definition spec_activate :: "int \<Rightarrow> tab_strip \<Rightarrow> tab_strip" where
  [spec_defs]: "spec_activate index t = t\<lparr>selected := tabs t ! nat index\<rparr>"

text \<open>What \<open>web_state_list_observer.h\<close> promises to the callee of each callback.\<close>

fun observer_contract :: "wsl_event \<Rightarrow> wsl_view \<Rightarrow> bool" where
  "observer_contract (WebStateInsertedAt ws index activating) v \<longleftrightarrow>
     elem_at (seen_web_states v) index = Some ws"
| "observer_contract (WebStateMoved ws from_index to_index) v \<longleftrightarrow>
     elem_at (seen_web_states v) to_index = Some ws"
| "observer_contract (WebStateReplacedAt old_ws new_ws index) v \<longleftrightarrow>
     elem_at (seen_web_states v) index = Some new_ws \<and> old_ws \<noteq> None \<and>
     old_ws \<notin> set (seen_web_states v)"
| "observer_contract (WillDetachWebStateAt ws index) v \<longleftrightarrow>
     ws \<noteq> None \<and> elem_at (seen_web_states v) index = Some ws"
| "observer_contract (WebStateDetachedAt ws index) v \<longleftrightarrow>
     ws \<noteq> None \<and> ws \<notin> set (seen_web_states v)"
| "observer_contract (WillCloseWebStateAt ws index user_action) v \<longleftrightarrow>
     ws \<noteq> None \<and> ws \<notin> set (seen_web_states v)"
| "observer_contract (WebStateActivatedAt old_ws new_ws index reason) v \<longleftrightarrow>
     index = seen_active_index v \<and> old_ws \<noteq> new_ws \<and>
     (if new_ws = None then index = kInvalidIndex
      else elem_at (seen_web_states v) index = Some new_ws)"

text \<open>What \<open>web_state_list_delegate.h\<close> promises: called before an addition and after a removal.\<close>

fun delegate_contract :: "delegate_call \<Rightarrow> wsl_view \<Rightarrow> bool" where
  "delegate_contract (WillAddWebState ws) v \<longleftrightarrow> ws \<notin> set (seen_web_states v)"
| "delegate_contract (WebStateDetached ws) v \<longleftrightarrow> ws \<notin> set (seen_web_states v)"

fun call_ok :: "wsl_call \<Rightarrow> bool" where
  "call_ok (NotifyObserver obs ev v) \<longleftrightarrow> observer_contract ev v"
| "call_ok (CallDelegate c v) \<longleftrightarrow> delegate_contract c v"

section \<open>Records, queries and notifications\<close>

lemma notify_simps [simp]:
  "web_state_wrappers (notify ev s) = web_state_wrappers s"
  "active_index (notify ev s) = active_index s"
  "locked (notify ev s) = locked s"
  "observers (notify ev s) = observers s"
  "calls (notify ev s) = calls s @ map (\<lambda>obs. NotifyObserver obs ev (view_of s)) (observers s)"
  by (simp_all add: notify_def)

lemma call_delegate_simps [simp]:
  "web_state_wrappers (call_delegate c s) = web_state_wrappers s"
  "active_index (call_delegate c s) = active_index s"
  "locked (call_delegate c s) = locked s"
  "observers (call_delegate c s) = observers s"
  "calls (call_delegate c s) = calls s @ [CallDelegate c (view_of s)]"
  by (simp_all add: call_delegate_def)

lemma view_of_simps [simp]:
  "seen_web_states (view_of s) = web_states s"
  "seen_active_index (view_of s) = active_index s"
  "seen_locked (view_of s) = locked s"
  by (simp_all add: view_of_def)

lemma ContainsIndex_in_range: "ContainsIndex i s \<longleftrightarrow> in_range i (web_state_wrappers s)"
  by (simp add: ContainsIndex_def wsl_count_def in_range_def)

lemma ContainsIndex_nat: "ContainsIndex i s \<Longrightarrow> nat i < length (web_state_wrappers s)"
  by (simp add: ContainsIndex_in_range in_range_nat)

lemma queries_locked [simp]:
  "wsl_count (s\<lparr>locked := b\<rparr>) = wsl_count s"
  "ContainsIndex i (s\<lparr>locked := b\<rparr>) = ContainsIndex i s"
  "GetWebStateAt i (s\<lparr>locked := b\<rparr>) = GetWebStateAt i s"
  "GetActiveWebState (s\<lparr>locked := b\<rparr>) = GetActiveWebState s"
  "GetIndexOfWebState ws (s\<lparr>locked := b\<rparr>) = GetIndexOfWebState ws s"
  "GetOpenerOfWebStateAt i (s\<lparr>locked := b\<rparr>) = GetOpenerOfWebStateAt i s"
  "GetIndexOfNthWebStateOpenedBy env ws i g n (s\<lparr>locked := b\<rparr>) =
     GetIndexOfNthWebStateOpenedBy env ws i g n s"
  "wsl_wfp strict (s\<lparr>locked := b\<rparr>) = wsl_wfp strict s"
  by (simp_all add: query_defs GetWebStateAt_def GetActiveWebState_def GetIndexOfWebState_def
      GetOpenerOfWebStateAt_def GetIndexOfNthWebStateOpenedBy_def wsl_wf_def)

lemma controller_locked [simp]:
  "DetermineInsertionIndex env ws (s\<lparr>locked := b\<rparr>) = DetermineInsertionIndex env ws s"
  "DetermineNewActiveIndex env i (s\<lparr>locked := b\<rparr>) = DetermineNewActiveIndex env i s"
  unfolding DetermineInsertionIndex_def DetermineNewActiveIndex_def
    GetIndexOfLastWebStateOpenedBy_def GetIndexOfNextWebStateOpenedBy_def queries_locked
  by (rule refl)+

lemma GetWebStateAt_ok [simp]:
  "ContainsIndex i s \<Longrightarrow> GetWebStateAt i s = Some (wrapped (web_state_wrappers s ! nat i))"
  by (simp add: GetWebStateAt_def)

lemma GetOpenerOfWebStateAt_ok [simp]:
  "ContainsIndex i s \<Longrightarrow>
   GetOpenerOfWebStateAt i s = Some (wrapper_opener (web_state_wrappers s ! nat i))"
  by (simp add: GetOpenerOfWebStateAt_def)

lemma GetActiveWebState_abs:
  "active_index s = kInvalidIndex \<or> ContainsIndex (active_index s) s \<Longrightarrow>
   GetActiveWebState s = Some (selected (abs_wsl s))"
  by (auto simp: GetActiveWebState_def abs_wsl_def)

lemma wsl_wf_active: "wsl_wfp b s \<Longrightarrow> GetActiveWebState s = Some (selected (abs_wsl s))"
  by (rule GetActiveWebState_abs) (simp add: wsl_wf_def)

lemma find_index_map: "find_index P (map f xs) = find_index (\<lambda>x. P (f x)) xs"
proof -
  have "find_index_from P (map f xs) i = find_index_from (\<lambda>x. P (f x)) xs i" for i
    by (induction xs arbitrary: i) auto
  then show ?thesis by (simp add: find_index_def)
qed

lemma GetIndexOfWebState_eq: "GetIndexOfWebState ws s = find_index (\<lambda>p. p = ws) (web_states s)"
  by (simp add: GetIndexOfWebState_def find_index_map)

lemma GetIndexOfWebState_mem:
  assumes "ws \<in> set (web_states s)"
  shows "ContainsIndex (GetIndexOfWebState ws s) s"
    "web_states s ! nat (GetIndexOfWebState ws s) = ws"
  using assms find_index_some [of "\<lambda>p. p = ws" "web_states s"] find_index_none [of "\<lambda>p. p = ws" "web_states s"]
  by (auto simp: GetIndexOfWebState_eq ContainsIndex_in_range)

lemma GetIndexOfWebState_not_mem:
  "ws \<notin> set (web_states s) \<Longrightarrow> GetIndexOfWebState ws s = kInvalidIndex"
  by (auto simp: GetIndexOfWebState_eq find_index_none kInvalidIndex_def)

lemma GetIndexOfWebState_Contains:
  "ContainsIndex (GetIndexOfWebState ws s) s \<longleftrightarrow> ws \<in> set (web_states s)"
  using GetIndexOfWebState_mem(1) [of ws s] GetIndexOfWebState_not_mem [of ws s]
  by (fastforce simp: ContainsIndex_def kInvalidIndex_def)

lemma GetIndexOfWebState_nth:
  assumes "distinct (web_states s)" "k < length (web_state_wrappers s)"
  shows "GetIndexOfWebState (wrapped (web_state_wrappers s ! k)) s = int k"
  using find_index_distinct [of "web_states s" k] assms by (simp add: GetIndexOfWebState_eq)

section \<open>The opener search loop\<close>

lemma opened_by_loop_zero [simp]: "opened_by_loop P ws i f 0 = f"
  by (cases ws) auto

lemma opened_by_loop_in_run:
  assumes "0 \<le> n" "0 < i"
  shows "opened_by_loop P ws i (i - 1) n = i - 1 + min n (int (length (takeWhile P ws)))"
  using assms
proof (induction ws arbitrary: i n)
  case Nil
  then show ?case by simp
next
  case (Cons w ws)
  show ?case
  proof (cases "n = 0 \<or> \<not> P w")
    case True
    with Cons.prems show ?thesis by (auto simp: kInvalidIndex_def)
  next
    case False
    with Cons.IH [of "n - 1" "i + 1"] Cons.prems show ?thesis by (simp add: min_def)
  qed
qed

lemma opened_by_loop_start:
  assumes "1 \<le> n" "0 \<le> i"
  shows "opened_by_loop P ws i kInvalidIndex n =
    (if \<exists>w\<in>set ws. P w
     then i + int (length (takeWhile (\<lambda>w. \<not> P w) ws))
            + min n (int (length (takeWhile P (dropWhile (\<lambda>w. \<not> P w) ws)))) - 1
     else kInvalidIndex)"
  using assms
proof (induction ws arbitrary: i)
  case Nil
  then show ?case by simp
next
  case (Cons w ws)
  show ?case
  proof (cases "P w")
    case True
    with opened_by_loop_in_run [of "n - 1" "i + 1" P ws] Cons.prems show ?thesis
      by (simp add: min_def)
  next
    case False
    with Cons.IH [of "i + 1"] Cons.prems show ?thesis by auto
  qed
qed

lemma GetIndexOfNth_eq:
  assumes "op \<noteq> None" "ContainsIndex start s" "start \<noteq> INT_MAX" "1 \<le> n"
  shows "GetIndexOfNthWebStateOpenedBy env op start use_group n s =
    (let P = WasOpenedBy op (if use_group then last_committed_item_index env op else - 1) use_group;
         rest = drop (nat (start + 1)) (web_state_wrappers s)
     in if \<exists>w\<in>set rest. P w
        then start + int (length (takeWhile (\<lambda>w. \<not> P w) rest))
               + min n (int (length (takeWhile P (dropWhile (\<lambda>w. \<not> P w) rest))))
        else kInvalidIndex)"
  using assms opened_by_loop_start [OF assms(4), of "start + 1"]
  by (cases op; cases use_group)
     (auto simp: GetIndexOfNthWebStateOpenedBy_def Let_def ContainsIndex_def)

lemma takeWhile_dropWhile_length:
  "length (takeWhile P xs) + length (takeWhile Q (dropWhile P xs)) \<le> length xs"
proof -
  have "length (takeWhile Q (dropWhile P xs)) \<le> length (dropWhile P xs)"
    by (rule length_takeWhile_le)
  moreover have "length (takeWhile P xs) + length (dropWhile P xs) = length xs"
    by (metis length_append takeWhile_dropWhile_id)
  ultimately show ?thesis by linarith
qed

lemma takeWhile_run_pos:
  "\<exists>w\<in>set xs. P w \<Longrightarrow> 0 < length (takeWhile P (dropWhile (\<lambda>w. \<not> P w) xs))"
  by (induction xs) auto

lemma GetIndexOfNth_range:
  assumes "1 \<le> n" "GetIndexOfNthWebStateOpenedBy env op start use_group n s \<noteq> kInvalidIndex"
  shows "start < GetIndexOfNthWebStateOpenedBy env op start use_group n s"
    "ContainsIndex (GetIndexOfNthWebStateOpenedBy env op start use_group n s) s"
proof -
  let ?g = "GetIndexOfNthWebStateOpenedBy env op start use_group n s"
  define P where
    "P = WasOpenedBy op (if use_group then last_committed_item_index env op else - 1) use_group"
  define rest where "rest = drop (nat (start + 1)) (web_state_wrappers s)"
  define a where "a = length (takeWhile (\<lambda>w. \<not> P w) rest)"
  define b where "b = length (takeWhile P (dropWhile (\<lambda>w. \<not> P w) rest))"
  have g: "op \<noteq> None" "ContainsIndex start s" "start \<noteq> INT_MAX"
    using assms(2) by (auto simp: GetIndexOfNthWebStateOpenedBy_def split: if_splits)
  have ex: "\<exists>w\<in>set rest. P w" and eq: "?g = start + int a + min n (int b)"
    using GetIndexOfNth_eq [OF g assms(1), of env use_group] assms(2)
    unfolding a_def b_def rest_def P_def Let_def by (metis (no_types, lifting))+
  have b: "0 < b" using takeWhile_run_pos [OF ex] unfolding b_def .
  have "a + b \<le> length rest" unfolding a_def b_def by (rule takeWhile_dropWhile_length)
  moreover have "length rest = length (web_state_wrappers s) - nat (start + 1)"
    by (simp add: rest_def)
  ultimately have "start + int a + int b < wsl_count s"
    using g(2) b by (auto simp: ContainsIndex_def wsl_count_def)
  moreover have "1 \<le> min n (int b)" using b assms(1) by simp
  ultimately show "start < ?g" "ContainsIndex ?g s"
    using eq g(2) by (auto simp: ContainsIndex_def)
qed

section \<open>The order controller\<close>

lemma wsl_wf_nth:
  assumes "wsl_wfp b s" "ContainsIndex i s"
  shows "wrapped (web_state_wrappers s ! nat i) \<noteq> None"
    "opener_ok b (set (web_states s)) (web_state_wrappers s ! nat i)"
proof -
  have m: "web_state_wrappers s ! nat i \<in> set (web_state_wrappers s)"
    using assms(2) by (auto simp: ContainsIndex_in_range)
  show "wrapped (web_state_wrappers s ! nat i) \<noteq> None"
    using assms(1) m unfolding wsl_wf_def by (metis image_eqI set_map)
  show "opener_ok b (set (web_states s)) (web_state_wrappers s ! nat i)"
    using assms(1) m unfolding wsl_wf_def list_all_iff by blast
qed

lemma GetValidIndex_after:
  "0 \<le> r \<Longrightarrow> r < i \<Longrightarrow> GetValidIndex i r = 0"
  by (simp add: GetValidIndex_def)

lemma GetIndexOfNext_range:
  assumes "GetIndexOfNextWebStateOpenedBy env op start g s \<noteq> kInvalidIndex"
  shows "start < GetIndexOfNextWebStateOpenedBy env op start g s"
    "ContainsIndex (GetIndexOfNextWebStateOpenedBy env op start g s) s"
  using assms GetIndexOfNth_range [of 1 env op start g s]
  by (simp_all add: GetIndexOfNextWebStateOpenedBy_def)

lemma opener_index:
  assumes wf: "wsl_wf s" and i: "ContainsIndex i s"
    and op: "opener (wrapper_opener (web_state_wrappers s ! nat i)) \<noteq> None"
  defines "k \<equiv> GetIndexOfWebState (opener (wrapper_opener (web_state_wrappers s ! nat i))) s"
  shows "ContainsIndex k s" "k \<noteq> i"
proof -
  let ?o = "opener (wrapper_opener (web_state_wrappers s ! nat i))"
  have o: "?o \<in> set (web_states s)" "?o \<noteq> wrapped (web_state_wrappers s ! nat i)"
    using wsl_wf_nth(2) [OF wf i] op by (auto simp: opener_ok_def)
  show "ContainsIndex k s" using GetIndexOfWebState_mem(1) [OF o(1)] by (simp add: k_def)
  show "k \<noteq> i"
    using GetIndexOfWebState_mem(2) [OF o(1)] o(2) ContainsIndex_nat [OF i]
    by (auto simp: k_def)
qed

lemma DetermineNewActiveIndex_valid:
  assumes wf: "wsl_wf s" and i: "ContainsIndex i s"
  shows "\<exists>na. DetermineNewActiveIndex env i s = Some na \<and>
    (na = kInvalidIndex \<and> wsl_count s = 1 \<or> 0 \<le> na \<and> na < wsl_count s - 1)"
proof -
  let ?w = "web_state_wrappers s ! nat i"
  let ?child = "GetIndexOfNextWebStateOpenedBy env (wrapped ?w) i False s"
  let ?sib = "GetIndexOfNextWebStateOpenedBy env (opener (wrapper_opener ?w)) i False s"
  have after: "GetValidIndex j i = 0 \<and> 0 < wsl_count s - 1" if "i < j" "ContainsIndex j s" for j
    using that i by (auto simp: ContainsIndex_def GetValidIndex_after)
  consider (child) "?child \<noteq> kInvalidIndex"
    | (sib) "?child = kInvalidIndex" "opener (wrapper_opener ?w) \<noteq> None" "?sib \<noteq> kInvalidIndex"
    | (op) "?child = kInvalidIndex" "opener (wrapper_opener ?w) \<noteq> None" "?sib = kInvalidIndex"
    | (none) "?child = kInvalidIndex" "opener (wrapper_opener ?w) = None"
    by blast
  then show ?thesis
  proof cases
    case child
    with after [OF GetIndexOfNext_range [OF child]] i show ?thesis
      by (simp add: DetermineNewActiveIndex_def)
  next
    case sib
    with after [OF GetIndexOfNext_range [OF sib(3)]] i show ?thesis
      by (simp add: DetermineNewActiveIndex_def Let_def)
  next
    case op
    from opener_index [OF wf i op(2)] after i
    have "0 \<le> GetValidIndex (GetIndexOfWebState (opener (wrapper_opener ?w)) s) i \<and>
          GetValidIndex (GetIndexOfWebState (opener (wrapper_opener ?w)) s) i < wsl_count s - 1"
      by (fastforce simp: GetValidIndex_def ContainsIndex_def)
    with op i show ?thesis by (simp add: DetermineNewActiveIndex_def Let_def)
  next
    case none
    with i show ?thesis
      by (auto simp: DetermineNewActiveIndex_def kInvalidIndex_def ContainsIndex_def)
  qed
qed

lemma DetermineNewActiveIndex_range:
  assumes wf: "wsl_wfp b s" and i: "ContainsIndex i s"
  shows "\<exists>na. DetermineNewActiveIndex env i s = Some na \<and>
    (na = i \<or> na = kInvalidIndex \<and> wsl_count s = 1 \<or> 0 \<le> na \<and> na < wsl_count s - 1)"
proof -
  let ?w = "web_state_wrappers s ! nat i"
  let ?child = "GetIndexOfNextWebStateOpenedBy env (wrapped ?w) i False s"
  let ?sib = "GetIndexOfNextWebStateOpenedBy env (opener (wrapper_opener ?w)) i False s"
  have after: "GetValidIndex j i = 0 \<and> 0 < wsl_count s - 1" if "i < j" "ContainsIndex j s" for j
    using that i by (auto simp: ContainsIndex_def GetValidIndex_after)
  have near: "GetValidIndex j i = i \<or> 0 \<le> GetValidIndex j i \<and> GetValidIndex j i < wsl_count s - 1"
    if "ContainsIndex j s" for j
    using that i by (fastforce simp: GetValidIndex_def ContainsIndex_def)
  have op: "ContainsIndex (GetIndexOfWebState (opener (wrapper_opener ?w)) s) s"
    if "opener (wrapper_opener ?w) \<noteq> None"
    using that wsl_wf_nth(2) [OF wf i] GetIndexOfWebState_mem(1) by (auto simp: opener_ok_def)
  show ?thesis
    using i after [OF GetIndexOfNext_range [of env "wrapped ?w" i False s]]
      after [OF GetIndexOfNext_range [of env "opener (wrapper_opener ?w)" i False s]] near [OF op]
    by (auto simp: DetermineNewActiveIndex_def Let_def ContainsIndex_def)
qed

lemma DetermineInsertionIndex_valid:
  assumes wf: "wsl_wfp b s" and op: "op = None \<or> op \<in> set (web_states s)"
  shows "\<exists>k. DetermineInsertionIndex env op s = Some k \<and> 0 \<le> k \<and> k \<le> wsl_count s"
proof (cases "op = None")
  case True
  then show ?thesis by (simp add: DetermineInsertionIndex_def wsl_count_def)
next
  case False
  let ?o = "GetIndexOfWebState op s"
  let ?c = "GetIndexOfLastWebStateOpenedBy env op ?o True s"
  have o: "ContainsIndex ?o s" using op False GetIndexOfWebState_mem(1) by blast
  have c: "?c \<noteq> kInvalidIndex \<Longrightarrow> ContainsIndex ?c s"
    using GetIndexOfNth_range(2) [of INT_MAX env op ?o True s]
    by (simp add: GetIndexOfLastWebStateOpenedBy_def)
  have r: "ContainsIndex (if ?c \<noteq> kInvalidIndex then ?c else ?o) s" using o c by simp
  have "wsl_count s \<le> INT_MAX" using wf by (simp add: wsl_wf_def)
  then have "(if ?c \<noteq> kInvalidIndex then ?c else ?o) < INT_MAX"
    using r unfolding ContainsIndex_def by linarith
  moreover have "?o \<noteq> kInvalidIndex" using o by (auto simp: ContainsIndex_def kInvalidIndex_def)
  ultimately have "DetermineInsertionIndex env op s = Some ((if ?c \<noteq> kInvalidIndex then ?c else ?o) + 1)"
    using False unfolding DetermineInsertionIndex_def Let_def by auto
  then show ?thesis using r unfolding ContainsIndex_def by fastforce
qed

section \<open>Results of the operations\<close>

text \<open>
  \<open>calls_ext s s'\<close>: between \<open>s\<close> and \<open>s'\<close> only calls that honour the contracts of the observer
  and delegate interfaces were made.
\<close>

definition calls_ext :: "web_state_list \<Rightarrow> web_state_list \<Rightarrow> bool" where
  "calls_ext s s' \<longleftrightarrow> (\<exists>cs. calls s' = calls s @ cs \<and> list_all call_ok cs)"

lemma calls_ext_refl [simp]: "calls_ext s s"
  by (simp add: calls_ext_def)

lemma calls_ext_trans: "calls_ext s s' \<Longrightarrow> calls_ext s' s'' \<Longrightarrow> calls_ext s s''"
  by (auto simp: calls_ext_def)

lemma calls_ext_eq: "calls s' = calls s \<Longrightarrow> calls_ext s s'"
  by (simp add: calls_ext_def)

lemma calls_ext_notify: "observer_contract ev (view_of s) \<Longrightarrow> calls_ext s (notify ev s)"
  by (auto simp: calls_ext_def list_all_iff)

lemma calls_ext_delegate: "delegate_contract c (view_of s) \<Longrightarrow> calls_ext s (call_delegate c s)"
  by (auto simp: calls_ext_def)

lemma calls_ext_ok: "calls_ext s s' \<Longrightarrow> list_all call_ok (calls s) \<Longrightarrow> list_all call_ok (calls s')"
  by (auto simp: calls_ext_def)

lemma wrapped_clear_opener_if [simp]: "wrapped (clear_opener_if old w) = wrapped w"
  by (simp add: clear_opener_if_def)

lemma ClearOpenersReferencing_simps [simp]:
  "web_state_wrappers (ClearOpenersReferencing i s) =
     map (clear_opener_if (wrapped (web_state_wrappers s ! nat i))) (web_state_wrappers s)"
  "active_index (ClearOpenersReferencing i s) = active_index s"
  "locked (ClearOpenersReferencing i s) = locked s"
  "observers (ClearOpenersReferencing i s) = observers s"
  "calls (ClearOpenersReferencing i s) = calls s"
  by (simp_all add: ClearOpenersReferencing_def Let_def)

text \<open>The data of the list without its call log.\<close>

definition same_data :: "web_state_list \<Rightarrow> web_state_list \<Rightarrow> bool" where
  "same_data s s' \<longleftrightarrow>
     web_state_wrappers s' = web_state_wrappers s \<and> active_index s' = active_index s \<and>
     locked s' = locked s \<and> observers s' = observers s"

lemma same_data_refl [simp]: "same_data s s"
  by (simp add: same_data_def)

lemma NotifyIfActive_result:
  assumes "active_index s = kInvalidIndex \<or> ContainsIndex (active_index s) s"
    and "None \<notin> set (web_states s)"
  shows "\<exists>s'. NotifyIfActiveWebStateChanged old r s = Some s' \<and> same_data s s' \<and> calls_ext s s'"
proof -
  have a: "GetActiveWebState s = Some (selected (abs_wsl s))"
    by (rule GetActiveWebState_abs [OF assms(1)])
  let ?ev = "WebStateActivatedAt old (selected (abs_wsl s)) (active_index s) r"
  have sel: "active_index s \<noteq> kInvalidIndex \<Longrightarrow>
      elem_at (web_states s) (active_index s) = Some (selected (abs_wsl s))"
    using assms(1) in_range_nat [of "active_index s" "web_state_wrappers s"]
    by (auto simp: elem_at_def abs_wsl_def ContainsIndex_in_range)
  then have "active_index s \<noteq> kInvalidIndex \<Longrightarrow> selected (abs_wsl s) \<noteq> None"
    using assms(2) elem_at_mem by metis
  moreover have "active_index s = kInvalidIndex \<Longrightarrow> selected (abs_wsl s) = None"
    by (simp add: abs_wsl_def)
  ultimately have "old \<noteq> selected (abs_wsl s) \<Longrightarrow> observer_contract ?ev (view_of s)"
    using sel by (cases "active_index s = kInvalidIndex") auto
  then show ?thesis
    using a calls_ext_notify [of ?ev s]
    by (auto simp: NotifyIfActiveWebStateChanged_def same_data_def)
qed

subsection \<open>Activation\<close>

lemma Activate_run:
  assumes a: "active_index s = kInvalidIndex \<or> ContainsIndex (active_index s) s"
    and nn: "None \<notin> set (web_states s)" and i: "ContainsIndex i s"
  shows "\<exists>s'. ActivateWebStateAt i s = Some s' \<and> same_data (s\<lparr>active_index := i\<rparr>) s' \<and> calls_ext s s'"
proof -
  let ?s = "s\<lparr>active_index := i\<rparr>"
  have "active_index ?s = kInvalidIndex \<or> ContainsIndex (active_index ?s) ?s"
    using i by (simp add: query_defs)
  moreover have "None \<notin> set (web_states ?s)" using nn by simp
  ultimately obtain s' where
    "NotifyIfActiveWebStateChanged (selected (abs_wsl s)) CHANGE_REASON_USER_ACTION ?s = Some s'"
    "same_data ?s s'" "calls_ext ?s s'"
    using NotifyIfActive_result by blast
  then show ?thesis
    using i GetActiveWebState_abs [OF a] by (simp add: ActivateWebStateAt_def calls_ext_def)
qed

lemma Activate_result:
  assumes "wsl_wfp b s" "ContainsIndex i s"
  shows "\<exists>s'. ActivateWebStateAt i s = Some s' \<and> same_data (s\<lparr>active_index := i\<rparr>) s' \<and> calls_ext s s'"
  using assms by (intro Activate_run) (simp_all add: wsl_wf_def)

subsection \<open>Detaching, for every lawful order controller\<close>

lemma detach_run:
  assumes inv: "wsl_invp b s" and i: "ContainsIndex i s"
    and na: "determine i (s\<lparr>locked := True\<rparr>) = Some na"
    and valid: "active_index s = i \<Longrightarrow> na = kInvalidIndex \<and> wsl_count s = 1 \<or> 0 \<le> na \<and> na < wsl_count s - 1"
  shows "\<exists>s'. DetachWebStateAt_with determine i s =
        Some (wrapped (web_state_wrappers s ! nat i), s') \<and>
      web_state_wrappers s' =
        remove_at (nat i)
          (map (clear_opener_if (wrapped (web_state_wrappers s ! nat i))) (web_state_wrappers s)) \<and>
      active_index s' = (if active_index s > i then active_index s - 1
                         else if active_index s = i then na else active_index s) \<and>
      \<not> locked s' \<and> observers s' = observers s \<and> calls_ext s s'"
proof -
  let ?w = "web_state_wrappers s ! nat i" and ?ws = "wrapped (web_state_wrappers s ! nat i)"
  have wf: "wsl_wfp b s" and nl: "\<not> locked s" using inv by (simp_all add: wsl_inv_def)
  have n: "nat i < length (web_state_wrappers s)" by (rule ContainsIndex_nat [OF i])
  define s1 where "s1 = notify (WillDetachWebStateAt ?ws i) (s\<lparr>locked := True\<rparr>)"
  define s2 where "s2 = (ClearOpenersReferencing i s1)
    \<lparr>web_state_wrappers := remove_at (nat i) (map (clear_opener_if ?ws) (web_state_wrappers s)),
     active_index := (if active_index s > i then active_index s - 1
                      else if active_index s = i then na else active_index s)\<rparr>"
  define s3 where "s3 = notify (WebStateDetachedAt ?ws i) s2"
  have ws: "?ws \<noteq> None" by (rule wsl_wf_nth(1) [OF wf i])
  have tabs: "web_states s2 = remove_at (nat i) (web_states s)"
    by (simp add: s2_def map_remove_at comp_def)
  have gone: "?ws \<notin> set (web_states s2)" "None \<notin> set (web_states s2)"
    using wf n set_remove_at [of "web_states s" "nat i"] by (auto simp: tabs wsl_wf_def)
  have c1: "calls_ext s s1"
    using calls_ext_notify [of "WillDetachWebStateAt ?ws i" "s\<lparr>locked := True\<rparr>"] ws i n
    by (simp add: s1_def elem_at_def ContainsIndex_in_range calls_ext_def)
  have c2: "calls_ext s1 s2" by (rule calls_ext_eq) (simp add: s2_def)
  have c3: "calls_ext s2 s3" unfolding s3_def
    by (rule calls_ext_notify) (use ws gone in simp)
  have act: "active_index s3 = kInvalidIndex \<or> ContainsIndex (active_index s3) s3"
    using wf valid i n by (auto simp: s3_def s2_def query_defs wsl_wf_def kInvalidIndex_def)
  have "None \<notin> set (web_states s3)" using gone(2) by (simp add: s3_def)
  with act obtain s4 where s4:
    "(if i = active_index s then NotifyIfActiveWebStateChanged ?ws CHANGE_REASON_NONE s3 else Some s3)
       = Some s4" "same_data s3 s4" "calls_ext s3 s4"
    using NotifyIfActive_result [of s3 ?ws CHANGE_REASON_NONE] by (cases "i = active_index s") auto
  define s5 where "s5 = call_delegate (WebStateDetached ?ws) s4"
  have c5: "calls_ext s4 s5" unfolding s5_def
    by (rule calls_ext_delegate) (use s4(2) gone in \<open>simp add: same_data_def s3_def\<close>)
  have w: "wrapped (web_state_wrappers (ClearOpenersReferencing i s1) ! nat i) = ?ws"
    using n by (simp add: s1_def)
  have nn: "None \<noteq> ?ws" using ws by metis
  have "DetachWebStateAt_with determine i s =
      (if i = active_index s then NotifyIfActiveWebStateChanged ?ws CHANGE_REASON_NONE s3
       else Some s3)
      \<bind> (\<lambda>s. Some (?ws, (call_delegate (WebStateDetached ?ws) s)\<lparr>locked := False\<rparr>))"
    using nl i na nn w
    by (simp del: not_None_eq add: DetachWebStateAt_with_def wrapper_ReplaceWebState_def Let_def bind_check
        s3_def s2_def s1_def)
  then have run: "DetachWebStateAt_with determine i s = Some (?ws, s5\<lparr>locked := False\<rparr>)"
    unfolding s4(1) by (simp add: s5_def)
  have "calls_ext s (s5\<lparr>locked := False\<rparr>)"
    using c1 c2 c3 s4(3) c5 by (auto intro: calls_ext_trans simp: calls_ext_def)
  with run s4(2) show ?thesis
    by (intro exI [of _ "s5\<lparr>locked := False\<rparr>"])
       (simp add: s5_def same_data_def s3_def s2_def s1_def)
qed

lemma detach_run_inv:
  assumes inv: "wsl_invp b s" and i: "ContainsIndex i s"
    and na: "determine i (s\<lparr>locked := True\<rparr>) = Some na"
    and valid: "active_index s = i \<Longrightarrow> na = kInvalidIndex \<and> wsl_count s = 1 \<or> 0 \<le> na \<and> na < wsl_count s - 1"
    and run: "DetachWebStateAt_with determine i s = Some (ws, s')"
  shows "wsl_invp b s' \<and> calls_ext s s'"
proof -
  have r: "web_state_wrappers s' =
        remove_at (nat i)
          (map (clear_opener_if (wrapped (web_state_wrappers s ! nat i))) (web_state_wrappers s))"
      "active_index s' = (if active_index s > i then active_index s - 1
                         else if active_index s = i then na else active_index s)"
      "\<not> locked s'" "calls_ext s s'"
    using detach_run [where determine = determine, OF inv i na valid] run by auto
  have wf: "wsl_wfp b s" using inv by (simp add: wsl_inv_def)
  let ?ws = "wrapped (web_state_wrappers s ! nat i)"
  have n: "nat i < length (web_state_wrappers s)" by (rule ContainsIndex_nat [OF i])
  have tabs: "web_states s' = remove_at (nat i) (web_states s)"
    by (simp add: r(1) map_remove_at comp_def)
  have set: "set (web_states s') = set (web_states s) - {?ws}"
    using wf n by (simp add: tabs set_remove_at wsl_wf_def)
  have "list_all (opener_ok b (set (web_states s'))) (web_state_wrappers s')"
  proof -
    have "opener_ok b (set (web_states s')) (clear_opener_if ?ws w)"
      if "w \<in> set (web_state_wrappers s)" for w
      using that wf unfolding set
      by (auto simp: opener_ok_def clear_opener_if_def wsl_wf_def list_all_iff)
    then show ?thesis
      using set_remove_at_subset by (fastforce simp: r(1) list_all_iff)
  qed
  moreover have "None \<notin> set (web_states s')" "distinct (web_states s')"
    using wf set by (auto simp: wsl_wf_def tabs)
  moreover have "wsl_count s' = wsl_count s - 1"
    using n by (simp add: wsl_count_def r(1) of_nat_diff Suc_leI)
  ultimately show ?thesis
    using wf r(2-4) valid i unfolding wsl_inv_def wsl_wf_def ContainsIndex_def kInvalidIndex_def by auto
qed

text \<open>
  The interface between \<open>WebStateList\<close> and the plugged-in \<open>WebStateListOrderController\<close>: the
  controller answers with a valid index of the list as it will be after the removal, and clears
  the selection exactly when the list becomes empty.
\<close>

locale order_controller =
  fixes determine :: "int \<Rightarrow> web_state_list \<Rightarrow> int option"
  assumes new_active_valid:
    "wsl_wf s \<Longrightarrow> ContainsIndex i s \<Longrightarrow>
     \<exists>na. determine i s = Some na \<and>
       (na = kInvalidIndex \<and> wsl_count s = 1 \<or> 0 \<le> na \<and> na < wsl_count s - 1)"
begin

lemma detach_result:
  assumes inv: "wsl_inv s" and i: "ContainsIndex i s"
  shows "\<exists>na s'. DetachWebStateAt_with determine i s =
        Some (wrapped (web_state_wrappers s ! nat i), s') \<and>
      web_state_wrappers s' =
        remove_at (nat i)
          (map (clear_opener_if (wrapped (web_state_wrappers s ! nat i))) (web_state_wrappers s)) \<and>
      active_index s' = (if active_index s > i then active_index s - 1
                         else if active_index s = i then na else active_index s) \<and>
      (na = kInvalidIndex \<and> wsl_count s = 1 \<or> 0 \<le> na \<and> na < wsl_count s - 1) \<and>
      \<not> locked s' \<and> observers s' = observers s \<and> calls_ext s s'"
proof -
  obtain na where na: "determine i (s\<lparr>locked := True\<rparr>) = Some na"
    "na = kInvalidIndex \<and> wsl_count s = 1 \<or> 0 \<le> na \<and> na < wsl_count s - 1"
    using new_active_valid [of "s\<lparr>locked := True\<rparr>" i] inv i by (auto simp: wsl_inv_def)
  from detach_run [where determine = determine, OF inv i na] na(2) show ?thesis by blast
qed

lemma detach_inv:
  assumes inv: "wsl_inv s" and run: "DetachWebStateAt_with determine i s = Some (ws, s')"
  shows "wsl_inv s'"
proof -
  have i: "ContainsIndex i s"
    using run by (simp add: DetachWebStateAt_with_def Let_def bind_check split: if_splits)
  obtain na where na: "determine i (s\<lparr>locked := True\<rparr>) = Some na"
    "na = kInvalidIndex \<and> wsl_count s = 1 \<or> 0 \<le> na \<and> na < wsl_count s - 1"
    using new_active_valid [of "s\<lparr>locked := True\<rparr>" i] inv i by (auto simp: wsl_inv_def)
  from detach_run_inv [where determine = determine, OF inv i na run] show ?thesis by blast
qed

end

interpretation default_order: order_controller "DetermineNewActiveIndex env" for env
  by unfold_locales (rule DetermineNewActiveIndex_valid)

lemmas Detach_result = default_order.detach_result [folded DetachWebStateAt_def]
lemmas Detach_inv = default_order.detach_inv [folded DetachWebStateAt_def]

text \<open>
  When tabs may be their own opener the order controller can answer with the index of the closed tab,
  which is no index of the remaining list when that tab is the last one: the query for the active tab
  then fails its check. Every detachment that returns keeps the invariant.
\<close>

lemma Detach_out_of_range:
  assumes inv: "wsl_invp b s" and i: "ContainsIndex i s" and a: "active_index s = i"
    and na: "DetermineNewActiveIndex env i s = Some i" and last: "i = wsl_count s - 1"
  shows "DetachWebStateAt env i s = None"
  using inv i a na last ContainsIndex_nat [OF i]
  by (simp add: DetachWebStateAt_def DetachWebStateAt_with_def Let_def bind_check wsl_inv_def
      wrapper_ReplaceWebState_def NotifyIfActiveWebStateChanged_def GetActiveWebState_def GetWebStateAt_def
      query_defs kInvalidIndex_def)

lemma Detach_returns:
  assumes inv: "wsl_invp b s" and run: "DetachWebStateAt env i s = Some (ws, s')"
  shows "wsl_invp b s' \<and> calls_ext s s' \<and> ws \<noteq> None \<and> ws \<notin> set (web_states s') \<and>
    length (web_states s') < length (web_states s)"
proof -
  have wf: "wsl_wfp b s" using inv by (simp add: wsl_inv_def)
  have i: "ContainsIndex i s"
    using run by (simp add: DetachWebStateAt_def DetachWebStateAt_with_def Let_def bind_check split: if_splits)
  have n: "nat i < length (web_state_wrappers s)" by (rule ContainsIndex_nat [OF i])
  obtain na where na: "DetermineNewActiveIndex env i s = Some na"
    "na = i \<or> na = kInvalidIndex \<and> wsl_count s = 1 \<or> 0 \<le> na \<and> na < wsl_count s - 1"
    using DetermineNewActiveIndex_range [OF wf i] by blast
  have valid: "na = kInvalidIndex \<and> wsl_count s = 1 \<or> 0 \<le> na \<and> na < wsl_count s - 1"
    if a: "active_index s = i"
  proof (rule ccontr)
    assume "\<not> ?thesis"
    with na(2) i have "na = i" "i = wsl_count s - 1" by (auto simp: ContainsIndex_def)
    with Detach_out_of_range [OF inv i a, of env] na(1) run show False by simp
  qed
  have na': "DetermineNewActiveIndex env i (s\<lparr>locked := True\<rparr>) = Some na" using na(1) by simp
  note r = detach_run [where determine = "DetermineNewActiveIndex env", OF inv i na' valid,
      folded DetachWebStateAt_def]
  have "ws = wrapped (web_state_wrappers s ! nat i)" "web_states s' = remove_at (nat i) (web_states s)"
    using r run by (auto simp: map_remove_at comp_def)
  then show ?thesis
    using detach_run_inv [where determine = "DetermineNewActiveIndex env", OF inv i na' valid,
        folded DetachWebStateAt_def, OF _ run] n wf
      wsl_wf_nth(1) [OF wf i] set_remove_at [of "web_states s" "nat i"]
    by (auto simp: wsl_wf_def)
qed

subsection \<open>Insertion\<close>

definition effective_opener ::
  "web_env \<Rightarrow> int \<Rightarrow> web_state_opener \<Rightarrow> web_state_list \<Rightarrow> web_state_opener" where
  "effective_opener env flags op s =
     (if IsInsertionFlagSet flags INSERT_INHERIT_OPENER then WebStateOpener env (selected (abs_wsl s))
      else op)"

text \<open>When \<open>InsertWebState\<close> may be called: the conditions its header and its checks state.\<close>

definition insert_pre ::
  "int \<Rightarrow> web_state \<Rightarrow> int \<Rightarrow> web_state_opener \<Rightarrow> web_state_list \<Rightarrow> bool" where
  "insert_pre index ws flags op s \<longleftrightarrow>
     ws \<noteq> None \<and> ws \<notin> set (web_states s) \<and> wsl_count s < INT_MAX \<and>
     (IsInsertionFlagSet flags INSERT_FORCE_INDEX \<longrightarrow> 0 \<le> index \<and> index \<le> wsl_count s) \<and>
     (IsInsertionFlagSet flags INSERT_INHERIT_OPENER \<or> opener op = None \<or>
      opener op \<in> set (web_states s))"

lemma selected_mem: "wsl_wfp b s \<Longrightarrow> selected (abs_wsl s) = None \<or> selected (abs_wsl s) \<in> set (web_states s)"
  by (auto simp: abs_wsl_def wsl_wf_def ContainsIndex_in_range)

lemma effective_opener_mem:
  assumes "wsl_wfp b s" "insert_pre index ws flags op s"
  shows "opener (effective_opener env flags op s) = None \<or>
         opener (effective_opener env flags op s) \<in> set (web_states s)"
  using assms selected_mem [OF assms(1)]
  by (auto simp: effective_opener_def insert_pre_def)

lemma insertion_index_ok:
  assumes wf: "wsl_wfp b s" and pre: "insert_pre index ws flags op s"
    and o: "o' = None \<or> o' \<in> set (web_states s)"
  shows "\<exists>k. insertion_index env index flags o' s = Some k \<and> 0 \<le> k \<and> k \<le> wsl_count s \<and>
    (if IsInsertionFlagSet flags INSERT_FORCE_INDEX then k = index
     else DetermineInsertionIndex env o' s = Some k)"
  using DetermineInsertionIndex_valid [OF wf o, of env] pre
  by (auto simp: insertion_index_def insert_pre_def)

lemma insertion_locked:
  "insertion_opener env flags op (s\<lparr>locked := b\<rparr>) = insertion_opener env flags op s"
  "insertion_index env index flags o' (s\<lparr>locked := b\<rparr>) = insertion_index env index flags o' s"
  unfolding insertion_opener_def insertion_index_def queries_locked controller_locked by (rule refl)+

definition recorded_opener :: "web_state_opener \<Rightarrow> web_state_opener" where
  "recorded_opener op = (if opener op \<noteq> None then op else null_opener)"

lemma wsl_wf_insert:
  assumes wf: "wsl_wfp b s" and pre: "ws \<noteq> None" "ws \<notin> set (web_states s)" "wsl_count s < INT_MAX"
    and op: "opener op = None \<or> opener op \<in> set (web_states s) \<or> opener op = ws \<and> \<not> b"
    and k: "0 \<le> k" "k \<le> wsl_count s"
    and w: "web_state_wrappers s' =
              insert_at (nat k) \<lparr>wrapped = ws, wrapper_opener = op\<rparr> (web_state_wrappers s)"
    and a: "active_index s' = (if active_index s \<ge> k then active_index s + 1 else active_index s)
            \<or> active_index s' = k"
  shows "wsl_wfp b s'"
proof -
  have tabs: "web_states s' = insert_at (nat k) ws (web_states s)"
    by (simp add: w map_insert_at)
  have c: "wsl_count s' = wsl_count s + 1" by (simp add: wsl_count_def w)
  have "list_all (opener_ok b (set (web_states s'))) (web_state_wrappers s')"
    using wf op pre(2) unfolding tabs w list_all_iff
    by (auto simp: opener_ok_def wsl_wf_def list_all_iff)
  moreover have "active_index s' = kInvalidIndex \<or> ContainsIndex (active_index s') s'"
    using a wf k c by (auto simp: wsl_wf_def ContainsIndex_def kInvalidIndex_def)
  ultimately show ?thesis
    using wf pre c by (auto simp: wsl_wf_def tabs)
qed

text \<open>The list of an insertion after its observers have been told, before the opener is recorded.\<close>

definition inserted_state :: "web_state \<Rightarrow> int \<Rightarrow> bool \<Rightarrow> web_state_list \<Rightarrow> web_state_list" where
  "inserted_state ws k activating s = notify (WebStateInsertedAt ws k activating)
     ((call_delegate (WillAddWebState ws) (s\<lparr>locked := True\<rparr>))
      \<lparr>web_state_wrappers := insert_at (nat k) \<lparr>wrapped = ws, wrapper_opener = null_opener\<rparr> (web_state_wrappers s),
       active_index := (if active_index s \<ge> k then active_index s + 1 else active_index s)\<rparr>)"

lemma inserted_state_data [simp]:
  "web_state_wrappers (inserted_state ws k a s) =
     insert_at (nat k) \<lparr>wrapped = ws, wrapper_opener = null_opener\<rparr> (web_state_wrappers s)"
  "active_index (inserted_state ws k a s) = (if active_index s \<ge> k then active_index s + 1 else active_index s)"
  "observers (inserted_state ws k a s) = observers s"
  by (simp_all add: inserted_state_def)

lemma inserted_state_calls:
  assumes "0 \<le> k" "k \<le> wsl_count s" "ws \<noteq> None" "ws \<notin> set (web_states s)"
  shows "calls_ext s (inserted_state ws k a s)"
proof -
  let ?s1 = "call_delegate (WillAddWebState ws) (s\<lparr>locked := True\<rparr>)"
  let ?s2 = "?s1\<lparr>web_state_wrappers := insert_at (nat k) \<lparr>wrapped = ws, wrapper_opener = null_opener\<rparr> (web_state_wrappers s),
       active_index := (if active_index s \<ge> k then active_index s + 1 else active_index s)\<rparr>"
  have "nat k \<le> length (web_state_wrappers s)" using assms by (simp add: wsl_count_def)
  then have "calls_ext ?s2 (notify (WebStateInsertedAt ws k a) ?s2)"
    by (intro calls_ext_notify) (use assms in \<open>simp add: elem_at_def in_range_def map_insert_at\<close>)
  moreover have "calls_ext (s\<lparr>locked := True\<rparr>) ?s1"
    by (rule calls_ext_delegate) (use assms in simp)
  ultimately show ?thesis by (auto simp: inserted_state_def calls_ext_def)
qed

lemma inserted_state_opener:
  assumes "0 \<le> k" "k \<le> wsl_count s"
    and "opener op' = None \<or> opener op' \<in> set (web_states s) \<or> opener op' = ws"
  shows "(if opener op' \<noteq> None then SetOpenerOfWebStateAt k op' (inserted_state ws k a s)
          else Some (inserted_state ws k a s)) =
    Some ((inserted_state ws k a s)\<lparr>web_state_wrappers :=
      insert_at (nat k) \<lparr>wrapped = ws, wrapper_opener = recorded_opener op'\<rparr> (web_state_wrappers s)\<rparr>)"
proof (cases "opener op' = None")
  case True
  then show ?thesis by (simp add: recorded_opener_def inserted_state_def notify_def)
next
  case False
  have kn: "nat k \<le> length (web_state_wrappers s)" using assms by (simp add: wsl_count_def)
  have "ContainsIndex (GetIndexOfWebState (opener op') (inserted_state ws k a s)) (inserted_state ws k a s)"
    using False assms(3) by (auto simp: GetIndexOfWebState_Contains map_insert_at)
  moreover have "ContainsIndex k (inserted_state ws k a s)"
    using assms kn by (auto simp: query_defs)
  ultimately show ?thesis
    using False kn by (auto simp: SetOpenerOfWebStateAt_def recorded_opener_def)
qed

lemma Insert_run:
  assumes inv: "wsl_invp b s" and ws: "ws \<noteq> None" "ws \<notin> set (web_states s)" "wsl_count s < INT_MAX"
    and op: "op' = effective_opener env flags op s"
      "opener op' = None \<or> opener op' \<in> set (web_states s) \<or> opener op' = ws \<and> \<not> b"
    and k: "insertion_index env index flags (opener op') s = Some k" "0 \<le> k" "k \<le> wsl_count s"
  shows "\<exists>s'. InsertWebState env index ws flags op s = Some (k, s') \<and> wsl_invp b s' \<and>
    web_state_wrappers s' =
      insert_at (nat k) \<lparr>wrapped = ws, wrapper_opener = recorded_opener op'\<rparr> (web_state_wrappers s) \<and>
    active_index s' = (if IsInsertionFlagSet flags INSERT_ACTIVATE then k
      else if active_index s \<ge> k then active_index s + 1 else active_index s) \<and>
    observers s' = observers s \<and> calls_ext s s'"
proof -
  have wf: "wsl_wfp b s" and nl: "\<not> locked s" using inv by (simp_all add: wsl_inv_def)
  let ?act = "IsInsertionFlagSet flags INSERT_ACTIVATE"
  have kn: "nat k \<le> length (web_state_wrappers s)" using k by (simp add: wsl_count_def)
  define s3 where "s3 = inserted_state ws k ?act s"
  define s5 where "s5 = s3\<lparr>web_state_wrappers :=
      insert_at (nat k) \<lparr>wrapped = ws, wrapper_opener = recorded_opener op'\<rparr> (web_state_wrappers s), locked := False\<rparr>"
  have "opener op' = None \<or> opener op' \<in> set (web_states s) \<or> opener op' = ws" using op(2) by blast
  note set_op = inserted_state_opener [OF k(2,3) this, of ?act, folded s3_def]
  have c: "calls_ext s s5"
    using inserted_state_calls [OF k(2,3) ws(1,2), of ?act] by (simp add: calls_ext_def s5_def s3_def)
  have wf5: "wsl_wfp b s5"
    by (rule wsl_wf_insert [OF wf ws, of "recorded_opener op'" k])
       (use op(2) k in \<open>auto simp: recorded_opener_def s5_def s3_def\<close>)
  have k5: "ContainsIndex k s5" using k by (auto simp: query_defs s5_def)
  then obtain s6 where s6:
    "(if ?act then ActivateWebStateAt k s5 else Some s5) = Some s6"
    "same_data (if ?act then s5\<lparr>active_index := k\<rparr> else s5) s6" "calls_ext s5 s6"
    using Activate_result [OF wf5] by (cases ?act) auto
  have nn: "ws \<noteq> None \<longleftrightarrow> True" using ws by simp
  have io: "insertion_opener env flags op s = Some op'"
    using wsl_wf_active [OF wf] by (simp add: insertion_opener_def op(1) effective_opener_def)
  have kk: "ContainsIndex k s \<or> k = wsl_count s" using k by (auto simp: ContainsIndex_def)
  have "InsertWebState env index ws flags op s =
      (if opener op' \<noteq> None then SetOpenerOfWebStateAt k op' s3 else Some s3)
      \<bind> (\<lambda>s. (if ?act then ActivateWebStateAt k (s\<lparr>locked := False\<rparr>)
                else Some (s\<lparr>locked := False\<rparr>)) \<bind> (\<lambda>s. Some (k, s)))"
    using nl io k(1) kk nn
    by (simp del: not_None_eq add: InsertWebState_def Let_def bind_check make_wrapper_def
        insertion_locked s3_def inserted_state_def)
  then have run: "InsertWebState env index ws flags op s = Some (k, s6)"
    unfolding set_op using s6(1) by (simp add: s5_def [symmetric] split: if_splits)
  have "calls_ext s s6" using c s6(3) by (rule calls_ext_trans)
  moreover have "wsl_invp b s6"
    using wf5 k5 s6(2) by (auto simp: wsl_inv_def wsl_wf_def same_data_def query_defs s5_def split: if_splits)
  ultimately show ?thesis
    using run k s6(2)
    by (intro exI [of _ s6]) (simp add: same_data_def s5_def s3_def split: if_splits)
qed

lemma Insert_result:
  assumes inv: "wsl_invp b s" and pre: "insert_pre index ws flags op s"
  shows "\<exists>k s'. InsertWebState env index ws flags op s = Some (k, s') \<and> wsl_invp b s' \<and>
    0 \<le> k \<and> k \<le> wsl_count s \<and>
    (if IsInsertionFlagSet flags INSERT_FORCE_INDEX then k = index
     else DetermineInsertionIndex env (opener (effective_opener env flags op s)) s = Some k) \<and>
    web_state_wrappers s' =
      insert_at (nat k)
        \<lparr>wrapped = ws, wrapper_opener = recorded_opener (effective_opener env flags op s)\<rparr>
        (web_state_wrappers s) \<and>
    active_index s' = (if IsInsertionFlagSet flags INSERT_ACTIVATE then k
      else if active_index s \<ge> k then active_index s + 1 else active_index s) \<and>
    \<not> locked s' \<and> observers s' = observers s \<and> calls_ext s s'"
proof -
  have wf: "wsl_wfp b s" using inv by (simp add: wsl_inv_def)
  have ws: "ws \<noteq> None" "ws \<notin> set (web_states s)" "wsl_count s < INT_MAX"
    using pre by (auto simp: insert_pre_def)
  let ?op = "effective_opener env flags op s"
  note m = effective_opener_mem [OF wf pre, of env]
  obtain k where k: "insertion_index env index flags (opener ?op) s = Some k" "0 \<le> k" "k \<le> wsl_count s"
      "if IsInsertionFlagSet flags INSERT_FORCE_INDEX then k = index
       else DetermineInsertionIndex env (opener ?op) s = Some k"
    using insertion_index_ok [OF wf pre m] by blast
  have "opener ?op = None \<or> opener ?op \<in> set (web_states s) \<or> opener ?op = ws \<and> \<not> b" using m by blast
  from Insert_run [OF inv ws refl this k(1-3)] k show ?thesis unfolding wsl_inv_def by blast
qed

lemma Insert_inv:
  assumes "wsl_invp b s" "insert_pre index ws flags op s"
    and "InsertWebState env index ws flags op s = Some (k, s')"
  shows "wsl_invp b s'"
  using Insert_result [OF assms(1,2), of env] assms(3) by auto

text \<open>
  An insertion that returns, whatever opener it is given: the checks of \<open>SetOpenerOfWebStateAt\<close> leave
  the new state itself as the only opener that was not in the list before.
\<close>

lemma Insert_returns:
  assumes inv: "wsl_invp False s" and ws: "ws \<noteq> None" "ws \<notin> set (web_states s)" "wsl_count s < INT_MAX"
    and run: "InsertWebState env index ws flags op s = Some (k, s')"
  shows "wsl_invp False s' \<and> calls_ext s s'"
proof -
  have wf: "wsl_wfp False s" and nl: "\<not> locked s" using inv by (simp_all add: wsl_inv_def)
  define op' where "op' = effective_opener env flags op s"
  have io: "insertion_opener env flags op s = Some op'"
    using wsl_wf_active [OF wf] by (simp add: insertion_opener_def op'_def effective_opener_def)
  obtain j where j: "insertion_index env index flags (opener op') s = Some j"
      "ContainsIndex j s \<or> j = wsl_count s"
      "(if opener op' \<noteq> None
        then SetOpenerOfWebStateAt j op' (inserted_state ws j (IsInsertionFlagSet flags INSERT_ACTIVATE) s)
        else Some s) \<noteq> None"
    using run nl io ws(1)
    by (auto simp: InsertWebState_def Let_def bind_check make_wrapper_def insertion_locked
        inserted_state_def Option.bind_eq_Some_conv split: if_splits)
  have jr: "0 \<le> j" "j \<le> wsl_count s" using j(2) by (auto simp: ContainsIndex_def wsl_count_def)
  have "opener op' = None \<or> opener op' \<in> set (web_states s) \<or> opener op' = ws \<and> \<not> False"
    using j(3) by (auto simp: SetOpenerOfWebStateAt_def bind_check GetIndexOfWebState_Contains map_insert_at
        split: if_splits)
  from Insert_run [OF inv ws op'_def this j(1) jr] run show ?thesis by auto
qed

subsection \<open>Moving\<close>

lemma moved_list_nth:
  assumes "f < length xs" "t < length xs" "a < length xs"
  shows "insert_at t (xs ! f) (remove_at f xs) ! nat (moved_active_index (int f) (int t) (int a)) = xs ! a"
proof -
  have r: "t \<le> length (remove_at f xs)" "length (remove_at f xs) = length xs - 1"
    using assms by auto
  consider "a = f" | "a < f" "a < t" | "a < f" "t \<le> a" | "f < a" "a \<le> t" | "f < a" "t < a"
    by linarith
  then show ?thesis
    using assms r
    by cases (auto simp: moved_active_index_def Let_def nth_insert_at nth_remove_at nat_add_distrib
        nat_diff_distrib)
qed

lemma set_move: "f < length xs \<Longrightarrow> set (insert_at t (xs ! f) (remove_at f xs)) = set xs"
  using set_remove_at_subset [of f xs] remove_at_split [of f xs]
  by (auto simp: remove_at_def) (metis Un_iff append_Cons in_set_conv_decomp_first set_append set_ConsD)

lemma Move_result:
  assumes inv: "wsl_invp b s" and f: "ContainsIndex f s" and t: "ContainsIndex t s"
  shows "\<exists>s'. MoveWebStateAt f t s = Some s' \<and>
    web_state_wrappers s' =
      insert_at (nat t) (web_state_wrappers s ! nat f) (remove_at (nat f) (web_state_wrappers s)) \<and>
    active_index s' = moved_active_index f t (active_index s) \<and>
    \<not> locked s' \<and> observers s' = observers s \<and> calls_ext s s'"
proof (cases "f = t")
  case True
  then show ?thesis
    using inv f ContainsIndex_nat [OF f]
    by (auto simp: MoveWebStateAt_def wsl_inv_def insert_at_remove_at moved_active_index_def
        Let_def calls_ext_def)
next
  case False
  let ?w = "web_state_wrappers s ! nat f"
  define s1 where "s1 = s\<lparr>locked := True, web_state_wrappers :=
      insert_at (nat t) ?w (remove_at (nat f) (web_state_wrappers s)),
      active_index := moved_active_index f t (active_index s)\<rparr>"
  have "nat t \<le> length (remove_at (nat f) (web_state_wrappers s))"
    using ContainsIndex_nat [OF f] ContainsIndex_nat [OF t] by simp
  then have "observer_contract (WebStateMoved (wrapped ?w) f t) (view_of s1)"
    using t ContainsIndex_nat [OF f] ContainsIndex_nat [OF t]
    by (simp add: s1_def elem_at_def in_range_def ContainsIndex_def)
  then have "calls_ext s1 (notify (WebStateMoved (wrapped ?w) f t) s1)"
    by (rule calls_ext_notify)
  then show ?thesis
    using inv f t False
    by (simp add: MoveWebStateAt_def wsl_inv_def Let_def calls_ext_def s1_def)
qed

lemma distinct_move:
  assumes "f < length xs" "distinct xs"
  shows "distinct (insert_at t (xs ! f) (remove_at f xs))"
  using assms by (simp add: set_remove_at)

lemma moved_active_range:
  assumes "ContainsIndex f s" "ContainsIndex t s"
  shows "ContainsIndex a s \<Longrightarrow> ContainsIndex (moved_active_index f t a) s"
    "moved_active_index f t kInvalidIndex = kInvalidIndex"
  using assms by (auto simp: moved_active_index_def ContainsIndex_def kInvalidIndex_def Let_def)

lemma Move_inv:
  assumes inv: "wsl_invp b s" and run: "MoveWebStateAt f t s = Some s'"
  shows "wsl_invp b s'"
proof -
  have ft: "ContainsIndex f s" "ContainsIndex t s"
    using run by (simp_all add: MoveWebStateAt_def Let_def bind_check split: if_splits)
  have wf: "wsl_wfp b s" using inv by (simp add: wsl_inv_def)
  note r = Move_result [OF inv ft, unfolded run option.inject]
  have w: "web_state_wrappers s' =
      insert_at (nat t) (web_state_wrappers s ! nat f) (remove_at (nat f) (web_state_wrappers s))"
    and a: "active_index s' = moved_active_index f t (active_index s)" and l: "\<not> locked s'"
    using r by auto
  have n: "nat f < length (web_state_wrappers s)" by (rule ContainsIndex_nat [OF ft(1)])
  have tabs: "web_states s' = insert_at (nat t) (web_states s ! nat f) (remove_at (nat f) (web_states s))"
    using n by (simp add: w map_insert_at map_remove_at)
  have sets: "set (web_states s') = set (web_states s)"
      "set (web_state_wrappers s') = set (web_state_wrappers s)" "wsl_count s' = wsl_count s"
    using n set_move [of "nat f" "web_states s"] set_move [OF n] unfolding tabs
    by (simp_all add: w wsl_count_def)
  have "distinct (web_states s')"
    using wf n distinct_move [of "nat f" "web_states s"] unfolding tabs by (simp add: wsl_wf_def)
  moreover have "active_index s' = kInvalidIndex \<or> ContainsIndex (active_index s') s'"
    using wf moved_active_range [OF ft] sets(3) unfolding wsl_wf_def a ContainsIndex_def by metis
  ultimately show ?thesis
    using wf l sets unfolding wsl_inv_def wsl_wf_def list_all_iff by auto
qed

subsection \<open>Replacing\<close>

lemma Replace_result:
  assumes inv: "wsl_invp b s" and i: "ContainsIndex i s"
    and ws: "ws \<noteq> None" "ws \<notin> set (web_states s)"
  shows "\<exists>s'. ReplaceWebStateAt i ws s = Some (wrapped (web_state_wrappers s ! nat i), s') \<and>
    web_state_wrappers s' =
      (map (clear_opener_if (wrapped (web_state_wrappers s ! nat i))) (web_state_wrappers s))
        [nat i := \<lparr>wrapped = ws, wrapper_opener = null_opener\<rparr>] \<and>
    active_index s' = active_index s \<and> \<not> locked s' \<and> observers s' = observers s \<and> calls_ext s s'"
proof -
  let ?old = "wrapped (web_state_wrappers s ! nat i)"
  have wf: "wsl_wfp b s" using inv by (simp add: wsl_inv_def)
  have n: "nat i < length (web_state_wrappers s)" by (rule ContainsIndex_nat [OF i])
  have old: "?old \<noteq> None" "?old \<in> set (web_states s)" "ws \<noteq> ?old"
    using wsl_wf_nth(1) [OF wf i] n ws by auto
  define s1 where "s1 = call_delegate (WillAddWebState ws) s"
  define s2 where "s2 = (ClearOpenersReferencing i s1)\<lparr>web_state_wrappers :=
      (map (clear_opener_if ?old) (web_state_wrappers s))
        [nat i := \<lparr>wrapped = ws, wrapper_opener = null_opener\<rparr>]\<rparr>"
  define s3 where "s3 = notify (WebStateReplacedAt ?old ws i) s2"
  have tabs: "web_states s2 = (web_states s)[nat i := ws]"
    by (simp add: s2_def map_update comp_def)
  have set2: "set (web_states s2) = insert ws (set (web_states s) - {?old})"
    using set_update_distinct [of "web_states s" "nat i" ws] wf n
    unfolding tabs by (simp add: wsl_wf_def)
  have gone: "?old \<notin> set (web_states s2)" and nn: "None \<notin> set (web_states s2)"
    using old(3) ws wf unfolding set2 wsl_wf_def by auto
  have c1: "calls_ext s s1" unfolding s1_def by (rule calls_ext_delegate) (use ws in simp)
  have c2: "calls_ext s2 s3" unfolding s3_def
    by (rule calls_ext_notify)
       (use gone old i n in \<open>auto simp: elem_at_def ContainsIndex_in_range tabs [symmetric] s2_def\<close>)
  have "active_index s3 = kInvalidIndex \<or> ContainsIndex (active_index s3) s3"
    using wf by (simp add: s3_def s2_def s1_def query_defs wsl_wf_def)
  then obtain s4 where s4: "NotifyIfActiveWebStateChanged ?old CHANGE_REASON_REPLACED s3 = Some s4"
      "same_data s3 s4" "calls_ext s3 s4"
    using NotifyIfActive_result [of s3 ?old] nn by (auto simp: s3_def)
  define s5 where "s5 = call_delegate (WebStateDetached ?old) s4"
  have c5: "calls_ext s4 s5" unfolding s5_def
    by (rule calls_ext_delegate) (use s4(2) gone in \<open>simp add: same_data_def s3_def\<close>)
  have run: "ReplaceWebStateAt i ws s = Some (?old, s5)"
    using i n old(3) s4(1)
    by (simp add: ReplaceWebStateAt_def wrapper_ReplaceWebState_def Let_def bind_check
        s3_def s2_def s1_def s5_def)
  have "calls_ext s s5"
    using c1 c2 s4(3) c5 by (auto simp: calls_ext_def s2_def)
  with run s4(2) inv show ?thesis
    by (intro exI [of _ s5])
       (simp add: s5_def same_data_def s3_def s2_def s1_def wsl_inv_def)
qed

lemma Replace_inv:
  assumes inv: "wsl_invp b s" and ws: "ws \<noteq> None" "ws \<notin> set (web_states s)"
    and run: "ReplaceWebStateAt i ws s = Some (old, s')"
  shows "wsl_invp b s'"
proof -
  have i: "ContainsIndex i s"
    using run by (simp add: ReplaceWebStateAt_def Let_def bind_check split: if_splits)
  have wf: "wsl_wfp b s" using inv by (simp add: wsl_inv_def)
  let ?old = "wrapped (web_state_wrappers s ! nat i)"
  have n: "nat i < length (web_state_wrappers s)" by (rule ContainsIndex_nat [OF i])
  have w: "web_state_wrappers s' =
      (map (clear_opener_if ?old) (web_state_wrappers s))
        [nat i := \<lparr>wrapped = ws, wrapper_opener = null_opener\<rparr>]"
    and a: "active_index s' = active_index s" and l: "\<not> locked s'"
    using Replace_result [OF inv i ws] run by auto
  have tabs: "web_states s' = (web_states s)[nat i := ws]"
    by (simp add: w map_update comp_def)
  have set: "set (web_states s') = insert ws (set (web_states s) - {?old})"
    using set_update_distinct [of "web_states s" "nat i" ws] wf n
    unfolding tabs by (simp add: wsl_wf_def)
  have "distinct (web_states s')"
    using wf ws n unfolding tabs by (intro distinct_list_update) (auto simp: wsl_wf_def)
  moreover have "list_all (opener_ok b (set (web_states s'))) (web_state_wrappers s')"
  proof -
    have "opener_ok b (set (web_states s')) (clear_opener_if ?old w)"
      if "w \<in> set (web_state_wrappers s)" for w
      using that wf unfolding set
      by (auto simp: opener_ok_def clear_opener_if_def wsl_wf_def list_all_iff)
    moreover have "opener_ok b (set (web_states s')) \<lparr>wrapped = ws, wrapper_opener = null_opener\<rparr>"
      by (simp add: opener_ok_def)
    ultimately show ?thesis
      using set_update_subset_insert
        [of "map (clear_opener_if ?old) (web_state_wrappers s)" "nat i"
            "\<lparr>wrapped = ws, wrapper_opener = null_opener\<rparr>"]
      unfolding list_all_iff w by auto
  qed
  ultimately show ?thesis
    using wf ws l a set unfolding wsl_inv_def wsl_wf_def
    by (auto simp: query_defs w)
qed

subsection \<open>Closing\<close>

lemma Close_result:
  assumes inv: "wsl_inv s" and i: "ContainsIndex i s"
  shows "\<exists>s'. CloseWebStateAt env i flags s = Some s' \<and> wsl_inv s' \<and>
    web_states s' = remove_at (nat i) (web_states s) \<and> observers s' = observers s \<and> calls_ext s s'"
proof -
  let ?ws = "wrapped (web_state_wrappers s ! nat i)"
  obtain s1 where s1: "DetachWebStateAt env i s = Some (?ws, s1)"
      "web_state_wrappers s1 = remove_at (nat i) (map (clear_opener_if ?ws) (web_state_wrappers s))"
      "\<not> locked s1" "observers s1 = observers s" "calls_ext s s1"
    using Detach_result [OF inv i, of env] by blast
  have wf: "wsl_wf s" using inv by (simp add: wsl_inv_def)
  have n: "nat i < length (web_state_wrappers s)" by (rule ContainsIndex_nat [OF i])
  have tabs: "web_states s1 = remove_at (nat i) (web_states s)"
    by (simp add: s1(2) map_remove_at comp_def)
  have "?ws \<notin> set (web_states s1)"
    using wf n set_remove_at [of "web_states s" "nat i"] by (auto simp: tabs wsl_wf_def)
  then have "calls_ext (s1\<lparr>locked := True\<rparr>)
      (notify (WillCloseWebStateAt ?ws i (IsClosingFlagSet flags CLOSE_USER_ACTION)) (s1\<lparr>locked := True\<rparr>))"
    using wsl_wf_nth(1) [OF wf i] by (intro calls_ext_notify) simp
  moreover have "wsl_inv s1" by (rule Detach_inv [OF inv s1(1)])
  ultimately show ?thesis
    using s1 tabs
    by (simp add: CloseWebStateAt_def Let_def wsl_inv_def wsl_wf_def query_defs calls_ext_def) auto
qed

lemma Close_returns:
  assumes inv: "wsl_invp b s" and run: "CloseWebStateAt env i flags s = Some s'"
  shows "wsl_invp b s' \<and> calls_ext s s' \<and> length (web_states s') < length (web_states s)"
proof -
  obtain ws s1 where s1: "DetachWebStateAt env i s = Some (ws, s1)"
    "s' = (notify (WillCloseWebStateAt ws i (IsClosingFlagSet flags CLOSE_USER_ACTION))
             (s1\<lparr>locked := True\<rparr>))\<lparr>locked := False\<rparr>"
    using run by (auto simp: CloseWebStateAt_def Let_def bind_check Option.bind_eq_Some_conv split: if_splits)
  note d = Detach_returns [OF inv s1(1)]
  have "calls_ext (s1\<lparr>locked := True\<rparr>)
      (notify (WillCloseWebStateAt ws i (IsClosingFlagSet flags CLOSE_USER_ACTION)) (s1\<lparr>locked := True\<rparr>))"
    using d by (intro calls_ext_notify) simp
  then show ?thesis
    using d by (auto simp: s1(2) wsl_inv_def wsl_wf_def query_defs calls_ext_def)
qed

lemma CloseAll_returns:
  assumes "wsl_invp b s" "CloseAllWebStates env flags s = Some s'"
  shows "wsl_invp b s' \<and> calls_ext s s'"
  using assms
proof (induction "length (web_states s)" arbitrary: s rule: less_induct)
  case less
  show ?case
  proof (cases "wsl_empty s")
    case True
    with less.prems show ?thesis by (subst (asm) CloseAllWebStates.simps) simp
  next
    case False
    with less.prems(2) obtain s1 where s1: "CloseWebStateAt env (wsl_count s - 1) flags s = Some s1"
        "CloseAllWebStates env flags s1 = Some s'"
      by (subst (asm) CloseAllWebStates.simps) (auto simp: Option.bind_eq_Some_conv)
    note c = Close_returns [OF less.prems(1) s1(1)]
    with less.hyps [of s1] s1(2) show ?thesis by (auto intro: calls_ext_trans)
  qed
qed

lemma CloseAll_result:
  assumes "wsl_inv s"
  shows "\<exists>s'. CloseAllWebStates env flags s = Some s' \<and> wsl_inv s' \<and> web_states s' = [] \<and>
    observers s' = observers s \<and> calls_ext s s'"
  using assms
proof (induction "length (web_state_wrappers s)" arbitrary: s)
  case 0
  then show ?case by (subst CloseAllWebStates.simps) (simp add: wsl_empty_def)
next
  case (Suc n)
  let ?i = "wsl_count s - 1"
  have i: "ContainsIndex ?i s" and ne: "\<not> wsl_empty s"
    using Suc.hyps(2) by (auto simp: query_defs)
  obtain s1 where s1: "CloseWebStateAt env ?i flags s = Some s1" "wsl_inv s1"
      "web_states s1 = remove_at (nat ?i) (web_states s)" "observers s1 = observers s" "calls_ext s s1"
    using Close_result [OF Suc.prems i] by blast
  have "length (web_states s1) = n"
    using s1(3) Suc.hyps(2) by (simp add: wsl_count_def)
  then have "n = length (web_state_wrappers s1)" by simp
  from Suc.hyps(1) [OF this s1(2)] show ?case
    using ne s1 by (subst CloseAllWebStates.simps) (auto intro: calls_ext_trans)
qed

end
