(* ===== verification/Web_State_List_Props.thy ===== *)
theory Web_State_List_Props
  imports Web_State_List_Laws
begin

text \<open>
  The properties of \<open>WebStateList\<close>: the reachable lists and their invariant, refinement of the
  abstract tab strip by each operation, the placement of children next to their opener, the
  selection after closing a tab, and the search by URL.
\<close>

section \<open>Reachable lists\<close>

inductive wsl_step :: "web_state_list \<Rightarrow> web_state_list \<Rightarrow> bool" where
  insert: "ws \<noteq> None \<Longrightarrow> ws \<notin> set (web_states s) \<Longrightarrow> wsl_count s < INT_MAX \<Longrightarrow>
     InsertWebState env index ws flags op s = Some (k, s') \<Longrightarrow> wsl_step s s'"
| move: "MoveWebStateAt from_index to_index s = Some s' \<Longrightarrow> wsl_step s s'"
| replace: "ws \<noteq> None \<Longrightarrow> ws \<notin> set (web_states s) \<Longrightarrow>
     ReplaceWebStateAt index ws s = Some (old, s') \<Longrightarrow> wsl_step s s'"
| detach: "DetachWebStateAt env index s = Some (ws, s') \<Longrightarrow> wsl_step s s'"
| close: "CloseWebStateAt env index flags s = Some s' \<Longrightarrow> wsl_step s s'"
| close_all: "CloseAllWebStates env flags s = Some s' \<Longrightarrow> wsl_step s s'"
| activate: "ActivateWebStateAt index s = Some s' \<Longrightarrow> wsl_step s s'"
| set_opener: "SetOpenerOfWebStateAt index op s = Some s' \<Longrightarrow> wsl_step s s'"
| add_observer: "wsl_step s (AddObserver ol obs s)"
| remove_observer: "wsl_step s (RemoveObserver ol obs s)"

inductive_cases wsl_stepE: "wsl_step s s'"

inductive wsl_reachable :: "web_state_list \<Rightarrow> bool" where
  start: "wsl_reachable new_web_state_list"
| step: "wsl_reachable s \<Longrightarrow> wsl_step s s' \<Longrightarrow> wsl_reachable s'"

lemma new_wsl_inv: "wsl_invp b new_web_state_list"
  by (simp add: wsl_inv_def wsl_wf_def new_web_state_list_def wsl_count_def INT_MAX_def)

lemma Activate_inv:
  assumes "wsl_invp b s" "ActivateWebStateAt i s = Some s'"
  shows "wsl_invp b s'" "calls_ext s s'"
proof -
  have "wsl_wfp b s" "ContainsIndex i s"
    using assms by (simp_all add: wsl_inv_def ActivateWebStateAt_def bind_check split: if_splits)
  from Activate_result [OF this] assms this(2) show "wsl_invp b s'" "calls_ext s s'"
    by (auto simp: wsl_inv_def wsl_wf_def same_data_def query_defs)
qed

lemma SetOpener_inv:
  assumes inv: "wsl_invp b s" and op: "b \<Longrightarrow> elem_at (web_states s) i \<noteq> Some (opener op)"
    and run: "SetOpenerOfWebStateAt i op s = Some s'"
  shows "wsl_invp b s'" "calls_ext s s'"
proof -
  let ?w = "(web_state_wrappers s ! nat i)\<lparr>wrapper_opener := op\<rparr>"
  have i: "ContainsIndex i s" and m: "opener op \<in> set (web_states s)"
    and s': "s' = s\<lparr>web_state_wrappers := (web_state_wrappers s)[nat i := ?w]\<rparr>"
    using run by (auto simp: SetOpenerOfWebStateAt_def bind_check GetIndexOfWebState_Contains
        split: if_splits)
  have n: "nat i < length (web_state_wrappers s)" by (rule ContainsIndex_nat [OF i])
  have "map wrapped ((web_state_wrappers s)[nat i := ?w]) =
      (web_states s)[nat i := wrapped (web_state_wrappers s ! nat i)]"
    by (simp add: map_update)
  also have "\<dots> = web_states s"
    using n list_update_id [of "web_states s" "nat i"] by simp
  finally have tabs: "web_states s' = web_states s" by (simp add: s')
  have "opener_ok b (set (web_states s)) ?w"
    using m op i n by (auto simp: opener_ok_def elem_at_def ContainsIndex_in_range)
  then have "list_all (opener_ok b (set (web_states s))) (web_state_wrappers s')"
    using inv set_update_subset_insert [of "web_state_wrappers s" "nat i" ?w]
    by (auto simp: s' wsl_inv_def wsl_wf_def list_all_iff)
  moreover have "wsl_count s' = wsl_count s" "active_index s' = active_index s" "\<not> locked s'"
    using inv by (simp_all add: s' wsl_count_def wsl_inv_def)
  ultimately show "wsl_invp b s'"
    using inv unfolding wsl_inv_def wsl_wf_def tabs ContainsIndex_def by auto
  show "calls_ext s s'" by (simp add: s' calls_ext_def)
qed

lemma wsl_step_inv:
  assumes "wsl_step s s'" "wsl_invp False s"
  shows "wsl_invp False s' \<and> calls_ext s s'"
  using assms
proof (cases rule: wsl_step.cases)
  case (insert ws env index flags op k)
  then show ?thesis using Insert_returns [OF assms(2)] by blast
next
  case (move f t)
  then have "ContainsIndex f s" "ContainsIndex t s"
    by (simp_all add: MoveWebStateAt_def Let_def bind_check split: if_splits)
  with move show ?thesis using Move_inv [OF assms(2)] Move_result [OF assms(2)] by fastforce
next
  case (replace ws index old)
  then have "ContainsIndex index s"
    by (simp add: ReplaceWebStateAt_def Let_def bind_check split: if_splits)
  with replace show ?thesis
    using Replace_inv [OF assms(2)] Replace_result [OF assms(2)] by fastforce
next
  case (detach env index ws)
  then show ?thesis using Detach_returns [OF assms(2)] by blast
next
  case (close env index flags)
  then show ?thesis using Close_returns [OF assms(2)] by blast
next
  case (close_all env flags)
  then show ?thesis using CloseAll_returns [OF assms(2)] by blast
next
  case (activate index)
  then show ?thesis using Activate_inv [OF assms(2)] by blast
next
  case (set_opener index op)
  then show ?thesis using SetOpener_inv [OF assms(2)] by blast
qed (use assms(2) in \<open>simp_all add: AddObserver_def RemoveObserver_def wsl_inv_def wsl_wf_def
      query_defs calls_ext_def\<close>)


definition demo_env :: web_env where
  "demo_env = \<lparr>visible_url = (\<lambda>ws. if ws = Some 1 then ''a'' else ''b''),
               last_committed_item_index = (\<lambda>_. 0)\<rparr>"

definition demo_list :: "nat list \<Rightarrow> web_state_list" where
  "demo_list ids = \<lparr>web_state_wrappers =
       map (\<lambda>i. \<lparr>wrapped = Some i, wrapper_opener = null_opener\<rparr>) ids,
     active_index = 0, locked = False, observers = [7], calls = []\<rparr>"

definition self_opener_demo :: web_state_list where
  "self_opener_demo = (demo_list [1, 2, 3])\<lparr>active_index := 2, web_state_wrappers :=
       [\<lparr>wrapped = Some 1, wrapper_opener = null_opener\<rparr>,
        \<lparr>wrapped = Some 2, wrapper_opener = null_opener\<rparr>,
        \<lparr>wrapped = Some 3, wrapper_opener = \<lparr>opener = Some 3, navigation_index = 0\<rparr>\<rparr>]\<rparr>"


text \<open>
  \<open>SetOpenerOfWebStateAt\<close> accepts a tab as its own opener. When that tab is the active and last one
  and opened no later tab, the order controller answers with its own index, so that closing it leaves
  an active index past the end of the list: the next query for the active tab fails its check.
\<close>

lemma self_opener_stops:
  "SetOpenerOfWebStateAt 2 \<lparr>opener = Some 3, navigation_index = 0\<rparr> ((demo_list [1, 2, 3])\<lparr>active_index := 2\<rparr>)
     = Some self_opener_demo \<and>
   DetermineNewActiveIndex demo_env 2 self_opener_demo = Some 2 \<and>
   CloseWebStateAt demo_env 2 CLOSE_NO_FLAGS self_opener_demo = None"
proof -
  have inv: "wsl_invp False self_opener_demo" and i: "ContainsIndex 2 self_opener_demo"
    by (simp_all add: wsl_inv_def wsl_wf_def demo_list_def query_defs opener_ok_def INT_MAX_def
        self_opener_demo_def)
  have na: "DetermineNewActiveIndex demo_env 2 self_opener_demo = Some 2"
    by (simp add: DetermineNewActiveIndex_def GetIndexOfNextWebStateOpenedBy_def
        GetIndexOfNthWebStateOpenedBy_def query_defs self_opener_demo_def demo_list_def WasOpenedBy_def
        wsl_consts INT_MAX_def GetWebStateAt_def GetOpenerOfWebStateAt_def GetIndexOfWebState_def
        find_index_def GetValidIndex_def)
  have "DetachWebStateAt demo_env 2 self_opener_demo = None"
    by (rule Detach_out_of_range [OF inv i _ na])
       (simp_all add: self_opener_demo_def demo_list_def wsl_count_def)
  moreover have "SetOpenerOfWebStateAt 2 \<lparr>opener = Some 3, navigation_index = 0\<rparr>
      ((demo_list [1, 2, 3])\<lparr>active_index := 2\<rparr>) = Some self_opener_demo"
    by (simp add: SetOpenerOfWebStateAt_def self_opener_demo_def demo_list_def query_defs
        GetIndexOfWebState_def find_index_def bind_check numeral_2_eq_2)
  ultimately show ?thesis using na by (simp add: CloseWebStateAt_def)
qed

section \<open>Refinement of the abstract tab strip\<close>

lemma insert_selected:
  assumes "wsl_wf s" "0 \<le> k" "k \<le> wsl_count s"
    "web_state_wrappers s' = insert_at (nat k) w (web_state_wrappers s)"
    "active_index s' = (if active_index s \<ge> k then active_index s + 1 else active_index s)"
  shows "selected (abs_wsl s') = selected (abs_wsl s)"
  using assms
  by (auto simp: abs_wsl_def wsl_wf_def query_defs kInvalidIndex_def nth_insert_at nat_add_distrib
      nat_less_iff split: if_splits)

text \<open>
  C2. Under the conditions of its header, \<open>InsertWebState\<close> never fails a check. It returns the
  index at which the new state really is; the abstract tab strip changes exactly by that
  insertion, the selected tab staying selected unless \<open>INSERT_ACTIVATE\<close> is given; a forced index
  is respected; and the opener of the new tab is the effective opener (the active tab for
  \<open>INSERT_INHERIT_OPENER\<close>, otherwise the argument).
\<close>

theorem InsertWebState_refines:
  assumes "wsl_inv s" "insert_pre index ws flags op s"
  shows "\<exists>k s'. InsertWebState env index ws flags op s = Some (k, s') \<and>
    0 \<le> k \<and> k \<le> wsl_count s \<and>
    (IsInsertionFlagSet flags INSERT_FORCE_INDEX \<longrightarrow> k = index) \<and>
    abs_wsl s' = spec_insert k ws (IsInsertionFlagSet flags INSERT_ACTIVATE) (abs_wsl s) \<and>
    GetOpenerOfWebStateAt k s' = Some (recorded_opener (effective_opener env flags op s))"
proof -
  have wf: "wsl_wf s" using assms(1) by (simp add: wsl_inv_def)
  obtain k s' where r: "InsertWebState env index ws flags op s = Some (k, s')"
      "0 \<le> k" "k \<le> wsl_count s" "IsInsertionFlagSet flags INSERT_FORCE_INDEX \<Longrightarrow> k = index"
      "web_state_wrappers s' = insert_at (nat k)
         \<lparr>wrapped = ws, wrapper_opener = recorded_opener (effective_opener env flags op s)\<rparr>
         (web_state_wrappers s)"
      "active_index s' = (if IsInsertionFlagSet flags INSERT_ACTIVATE then k
         else if active_index s \<ge> k then active_index s + 1 else active_index s)"
    using Insert_result [OF assms, of env] by (auto split: if_splits)
  have kn: "nat k \<le> length (web_state_wrappers s)" using r(3) by (simp add: wsl_count_def)
  have "web_states s' = insert_at (nat k) ws (web_states s)" by (simp add: r(5) map_insert_at)
  moreover have "selected (abs_wsl s') =
      (if IsInsertionFlagSet flags INSERT_ACTIVATE then ws else selected (abs_wsl s))"
    using insert_selected [OF wf r(2,3,5)] r(2,5,6) kn by (auto simp: abs_wsl_def kInvalidIndex_def)
  ultimately have "abs_wsl s' = spec_insert k ws (IsInsertionFlagSet flags INSERT_ACTIVATE) (abs_wsl s)"
    by (simp add: spec_insert_def abs_wsl_def)
  moreover have "ContainsIndex k s'" using r(2,3,5) by (simp add: query_defs)
  then have "GetOpenerOfWebStateAt k s' = Some (recorded_opener (effective_opener env flags op s))"
    using kn by (simp add: r(5))
  ultimately show ?thesis using r(1-4) by blast
qed

lemma demo_list_inv: "wsl_inv (demo_list [1, 2, 3])"
  by (simp add: wsl_inv_def wsl_wf_def demo_list_def query_defs opener_ok_def INT_MAX_def)

theorem InsertWebState_refines_witness:
  "\<exists>k s'. InsertWebState demo_env 0 (Some 9) 5 null_opener (demo_list [1, 2, 3]) = Some (k, s') \<and>
     abs_wsl s' = spec_insert k (Some 9) True (abs_wsl (demo_list [1, 2, 3]))"
proof -
  have "insert_pre 0 (Some 9) 5 null_opener (demo_list [1, 2, 3])"
    by (simp add: insert_pre_def demo_list_def query_defs wsl_consts INT_MAX_def
        IsInsertionFlagSet_def)
  from InsertWebState_refines [OF demo_list_inv this, of demo_env] show ?thesis
    by (auto simp: IsInsertionFlagSet_def wsl_consts)
qed

text \<open>
  C3. \<open>MoveWebStateAt\<close> between two valid indices moves exactly that tab, and whatever the
  positions of the moved tab and of the active tab, the selected tab stays the same one.
\<close>

theorem MoveWebStateAt_refines:
  assumes "wsl_inv s" "ContainsIndex from_index s" "ContainsIndex to_index s"
  shows "\<exists>s'. MoveWebStateAt from_index to_index s = Some s' \<and> wsl_inv s' \<and>
    abs_wsl s' = spec_move from_index to_index (abs_wsl s)"
proof -
  obtain s' where r: "MoveWebStateAt from_index to_index s = Some s'"
      "web_state_wrappers s' = insert_at (nat to_index) (web_state_wrappers s ! nat from_index)
         (remove_at (nat from_index) (web_state_wrappers s))"
      "active_index s' = moved_active_index from_index to_index (active_index s)"
    using Move_result [OF assms] by blast
  have n: "nat from_index < length (web_state_wrappers s)" "nat to_index < length (web_state_wrappers s)"
    using assms(2,3) by (auto dest: ContainsIndex_nat)
  have "web_states s' = insert_at (nat to_index) (web_states s ! nat from_index)
      (remove_at (nat from_index) (web_states s))"
    using n by (simp add: r(2) map_insert_at map_remove_at)
  moreover have "selected (abs_wsl s') = selected (abs_wsl s)"
  proof (cases "active_index s = kInvalidIndex")
    case True
    then show ?thesis using moved_active_range(2) [OF assms(2,3)] by (simp add: abs_wsl_def r(3))
  next
    case False
    then have a: "ContainsIndex (active_index s) s"
      using assms(1) by (simp add: wsl_inv_def wsl_wf_def)
    have "active_index s' \<noteq> kInvalidIndex"
      using moved_active_range(1) [OF assms(2,3) a] by (auto simp: r(3) ContainsIndex_def kInvalidIndex_def)
    then show ?thesis
      using moved_list_nth [OF n ContainsIndex_nat [OF a]] False a assms(2,3)
      by (simp add: abs_wsl_def r(2,3) ContainsIndex_def)
  qed
  ultimately have "abs_wsl s' = spec_move from_index to_index (abs_wsl s)"
    by (simp add: spec_move_def abs_wsl_def)
  then show ?thesis using r(1) Move_inv [OF assms(1) r(1)] by blast
qed

theorem MoveWebStateAt_refines_witness:
  "\<exists>s'. MoveWebStateAt 0 2 (demo_list [1, 2, 3]) = Some s' \<and>
     tabs (abs_wsl s') = [Some 2, Some 3, Some 1] \<and> selected (abs_wsl s') = Some 1"
proof -
  have "ContainsIndex 0 (demo_list [1, 2, 3])" "ContainsIndex 2 (demo_list [1, 2, 3])"
    by (simp_all add: demo_list_def query_defs)
  moreover have "spec_move 0 2 (abs_wsl (demo_list [1, 2, 3])) =
      \<lparr>tabs = [Some 2, Some 3, Some 1], selected = Some 1\<rparr>"
    by (simp add: spec_move_def abs_wsl_def demo_list_def wsl_consts insert_at_def remove_at_def)
  ultimately show ?thesis using MoveWebStateAt_refines [OF demo_list_inv, of 0 2] by auto
qed

lemma selected_eq_iff:
  assumes "wsl_wf s" "ContainsIndex i s"
  shows "selected (abs_wsl s) = web_states s ! nat i \<longleftrightarrow> active_index s = i"
proof (cases "active_index s = kInvalidIndex")
  case True
  have "web_states s ! nat i \<noteq> None"
    using wsl_wf_nth(1) [OF assms] ContainsIndex_nat [OF assms(2)] by simp
  moreover have "i \<noteq> kInvalidIndex" using assms(2) by (auto simp: ContainsIndex_def kInvalidIndex_def)
  ultimately show ?thesis using True by (auto simp: abs_wsl_def)
next
  case False
  then have a: "ContainsIndex (active_index s) s" using assms(1) by (simp add: wsl_wf_def)
  then have "selected (abs_wsl s) = web_states s ! nat (active_index s)"
    using False ContainsIndex_nat [OF a] by (simp add: abs_wsl_def)
  moreover have "distinct (web_states s)" using assms(1) by (simp add: wsl_wf_def)
  then have "web_states s ! nat (active_index s) = web_states s ! nat i \<longleftrightarrow>
      nat (active_index s) = nat i"
    using ContainsIndex_nat [OF a] ContainsIndex_nat [OF assms(2)] by (intro nth_eq_iff_index_eq) simp_all
  ultimately show ?thesis using a assms(2) by (auto simp: ContainsIndex_def)
qed

lemma detach_selected:
  assumes wf: "wsl_wf s" and i: "ContainsIndex i s" and ne: "active_index s \<noteq> i"
    and w: "web_states s' = remove_at (nat i) (web_states s)"
    and a: "active_index s' = (if active_index s > i then active_index s - 1 else active_index s)"
  shows "selected (abs_wsl s') = selected (abs_wsl s)"
proof (cases "active_index s = kInvalidIndex")
  case True
  then show ?thesis using a i by (auto simp: abs_wsl_def ContainsIndex_def kInvalidIndex_def)
next
  case False
  then have c: "0 \<le> active_index s" "active_index s < int (length (web_states s))"
    using wf by (auto simp: wsl_wf_def query_defs)
  have l: "length (web_state_wrappers s') = length (web_states s) - 1"
    using arg_cong [OF w, of length] ContainsIndex_nat [OF i] by simp
  have "web_states s' ! nat (active_index s') = web_states s ! nat (active_index s)"
    unfolding w a using ne c i ContainsIndex_nat [OF i]
    by (auto simp: nth_remove_at ContainsIndex_def nat_diff_distrib nat_less_iff Suc_nat_eq_nat_zadd1)
  moreover have "active_index s' \<noteq> kInvalidIndex"
    "nat (active_index s') < length (web_state_wrappers s')"
    using ne c a i l by (auto simp: kInvalidIndex_def ContainsIndex_def query_defs)
  ultimately show ?thesis using False c by (simp add: abs_wsl_def nat_less_iff)
qed



text \<open>
  \<open>ReplaceWebStateAt\<close> at a valid index, with a new tab, returns the old tab and puts the new
  one in its place; if the old tab was selected the new one is, otherwise the selection does not
  change; the new tab has no opener and no tab keeps the old tab as its opener.
\<close>

lemma ReplaceWebStateAt_refines:
  assumes "wsl_inv s" "ContainsIndex i s" "ws \<noteq> None" "ws \<notin> set (web_states s)"
  shows "\<exists>s'. ReplaceWebStateAt i ws s = Some (tabs (abs_wsl s) ! nat i, s') \<and> wsl_inv s' \<and>
    abs_wsl s' = spec_replace i ws (abs_wsl s) \<and>
    GetOpenerOfWebStateAt i s' = Some null_opener \<and>
    (\<forall>w\<in>set (web_state_wrappers s'). opener (wrapper_opener w) \<noteq> tabs (abs_wsl s) ! nat i)"
proof -
  let ?old = "wrapped (web_state_wrappers s ! nat i)"
  have wf: "wsl_wf s" using assms(1) by (simp add: wsl_inv_def)
  have n: "nat i < length (web_state_wrappers s)" by (rule ContainsIndex_nat [OF assms(2)])
  obtain s' where r: "ReplaceWebStateAt i ws s = Some (?old, s')"
      "web_state_wrappers s' = (map (clear_opener_if ?old) (web_state_wrappers s))
        [nat i := \<lparr>wrapped = ws, wrapper_opener = null_opener\<rparr>]"
      "active_index s' = active_index s"
    using Replace_result [OF assms] by blast
  have old: "?old = tabs (abs_wsl s) ! nat i" "?old \<noteq> None"
    using n wsl_wf_nth(1) [OF wf assms(2)] by (simp_all add: abs_wsl_def)
  have tabs: "web_states s' = (web_states s)[nat i := ws]" by (simp add: r(2) map_update comp_def)
  have "selected (abs_wsl s') = (if active_index s = i then ws else selected (abs_wsl s))"
    using n assms(2) wf
    by (auto simp: abs_wsl_def r(2,3) nth_list_update wsl_wf_def query_defs kInvalidIndex_def)
  then have "abs_wsl s' = spec_replace i ws (abs_wsl s)"
    using selected_eq_iff [OF wf assms(2)] tabs by (simp add: spec_replace_def abs_wsl_def)
  moreover have "GetOpenerOfWebStateAt i s' = Some null_opener"
    using assms(2) n by (simp add: GetOpenerOfWebStateAt_def ContainsIndex_def wsl_count_def r(2))
  moreover have "opener (wrapper_opener w) \<noteq> ?old" if "w \<in> set (web_state_wrappers s')" for w
    using set_update_subset_insert [of "map (clear_opener_if ?old) (web_state_wrappers s)" "nat i"
        "\<lparr>wrapped = ws, wrapper_opener = null_opener\<rparr>"] that old(2)
    unfolding r(2) by (auto simp: clear_opener_if_def)
  moreover have "wsl_inv s'" by (rule Replace_inv [OF assms(1,3,4) r(1)])
  ultimately show ?thesis using r(1) old by metis
qed

lemma ReplaceWebStateAt_refines_witness:
  "\<exists>s'. ReplaceWebStateAt 0 (Some 9) (demo_list [1, 2, 3]) = Some (Some 1, s') \<and>
     abs_wsl s' = \<lparr>tabs = [Some 9, Some 2, Some 3], selected = Some 9\<rparr>"
proof -
  have "ContainsIndex 0 (demo_list [1, 2, 3])" "(Some 9 :: web_state) \<noteq> None"
    "Some 9 \<notin> set (web_states (demo_list [1, 2, 3]))"
    by (simp_all add: demo_list_def query_defs)
  note r = ReplaceWebStateAt_refines [OF demo_list_inv this]
  have "spec_replace 0 (Some 9) (abs_wsl (demo_list [1, 2, 3])) =
      \<lparr>tabs = [Some 9, Some 2, Some 3], selected = Some 9\<rparr>"
    "tabs (abs_wsl (demo_list [1, 2, 3])) ! nat 0 = Some 1"
    by (simp_all add: spec_replace_def abs_wsl_def demo_list_def wsl_consts)
  with r show ?thesis by auto
qed



section \<open>Placement and selection\<close>

text \<open>
  \<open>last_opened_spec\<close>: the last index of the first uninterrupted run of tabs opened by \<open>op\<close> after
  \<open>start\<close>, as the header describes it.
\<close>

definition last_opened_spec :: "web_env \<Rightarrow> web_state \<Rightarrow> int \<Rightarrow> bool \<Rightarrow> web_state_list \<Rightarrow> int" where
  "last_opened_spec env op start use_group s =
     (let P = WasOpenedBy op (if use_group then last_committed_item_index env op else - 1) use_group;
          rest = drop (nat (start + 1)) (web_state_wrappers s);
          run = takeWhile P (dropWhile (\<lambda>w. \<not> P w) rest)
      in if run = [] then kInvalidIndex
         else start + int (length (takeWhile (\<lambda>w. \<not> P w) rest)) + int (length run))"

lemma takeWhile_run_empty: "takeWhile P (dropWhile (\<lambda>w. \<not> P w) xs) = [] \<longleftrightarrow> \<not> (\<exists>w\<in>set xs. P w)"
  by (induction xs) auto

lemma GetIndexOfLast_spec:
  assumes "op \<noteq> None" "ContainsIndex start s" "wsl_count s \<le> INT_MAX"
  shows "GetIndexOfLastWebStateOpenedBy env op start use_group s = last_opened_spec env op start use_group s"
proof -
  let ?P = "WasOpenedBy op (if use_group then last_committed_item_index env op else - 1) use_group"
  let ?rest = "drop (nat (start + 1)) (web_state_wrappers s)"
  have "start \<noteq> INT_MAX" using assms(2,3) unfolding ContainsIndex_def by linarith
  note eq = GetIndexOfNth_eq [OF assms(1,2) this, of INT_MAX env use_group]
  have "length (takeWhile ?P (dropWhile (\<lambda>w. \<not> ?P w) ?rest)) \<le> length (web_state_wrappers s)"
    using takeWhile_dropWhile_length [of "\<lambda>w. \<not> ?P w" ?rest ?P] by simp
  then have "int (length (takeWhile ?P (dropWhile (\<lambda>w. \<not> ?P w) ?rest))) \<le> INT_MAX"
    using assms(3) unfolding wsl_count_def by linarith
  then have "min INT_MAX (int (length (takeWhile ?P (dropWhile (\<lambda>w. \<not> ?P w) ?rest)))) =
      int (length (takeWhile ?P (dropWhile (\<lambda>w. \<not> ?P w) ?rest)))" by (rule min.absorb2)
  then show ?thesis
    using eq
    by (simp only: GetIndexOfLastWebStateOpenedBy_def last_opened_spec_def Let_def INT_MAX_pos
        takeWhile_run_empty if_not_P if_P) simp
qed

text \<open>
  C6. A tab opened from another one is placed right after the last tab of the uninterrupted group
  of tabs that its opener opened from its current page, and right after the opener itself when
  there is none; a tab without opener is placed at the end.
\<close>

theorem insertion_next_to_group:
  assumes "wsl_inv s" "op = None \<or> op \<in> set (web_states s)"
  shows "DetermineInsertionIndex env op s =
    Some (if op = None then wsl_count s
          else let o_index = GetIndexOfWebState op s; last = last_opened_spec env op o_index True s
               in (if last \<noteq> kInvalidIndex then last else o_index) + 1)"
proof (cases "op = None")
  case True
  then show ?thesis by (simp add: DetermineInsertionIndex_def)
next
  case False
  have wf: "wsl_wf s" using assms(1) by (simp add: wsl_inv_def)
  have c: "ContainsIndex (GetIndexOfWebState op s) s"
    using assms(2) False GetIndexOfWebState_mem(1) by blast
  have "GetIndexOfLastWebStateOpenedBy env op (GetIndexOfWebState op s) True s =
      last_opened_spec env op (GetIndexOfWebState op s) True s"
    using GetIndexOfLast_spec [OF False c] wf by (simp add: wsl_wf_def)
  then show ?thesis
    using DetermineInsertionIndex_valid [OF wf assms(2), of env] False
    by (auto simp: DetermineInsertionIndex_def Let_def bind_check split: if_splits)
qed

definition group_demo :: web_state_list where
  "group_demo = (demo_list [1, 2, 3])\<lparr>web_state_wrappers :=
       [\<lparr>wrapped = Some 1, wrapper_opener = null_opener\<rparr>,
        \<lparr>wrapped = Some 2, wrapper_opener = \<lparr>opener = Some 1, navigation_index = 0\<rparr>\<rparr>,
        \<lparr>wrapped = Some 3, wrapper_opener = null_opener\<rparr>]\<rparr>"

theorem insertion_next_to_group_witness:
  "DetermineInsertionIndex demo_env (Some 1) group_demo = Some 2"
proof -
  have inv: "wsl_inv group_demo"
    by (simp add: wsl_inv_def wsl_wf_def demo_list_def query_defs opener_ok_def INT_MAX_def group_demo_def)
  have mem: "(Some 1 :: web_state) = None \<or> Some 1 \<in> set (web_states group_demo)"
    by (simp add: group_demo_def)
  show ?thesis
    unfolding insertion_next_to_group [OF inv mem]
    by (simp add: Let_def last_opened_spec_def group_demo_def
        GetIndexOfWebState_def find_index_def WasOpenedBy_def demo_env_def wsl_consts)
qed

text \<open>
  When the detached tab has a child, or a sibling opened by the same opener, further right in
  the list, the order controller answers index 0, wherever that child or sibling is: the
  adjustment \<open>std::min(0, index - 1)\<close> of \<open>GetValidIndex\<close> is 0 for every later index. The comments
  of the controller say that the first tab of the group is selected, which is at \<open>index - 1\<close>.
\<close>

theorem new_active_index_is_first_tab:
  assumes "wsl_inv s" "ContainsIndex i s"
    and "GetWebStateAt i s = Some ws" "GetOpenerOfWebStateAt i s = Some op"
    and "GetIndexOfNextWebStateOpenedBy env ws i False s \<noteq> kInvalidIndex \<or>
         opener op \<noteq> None \<and> GetIndexOfNextWebStateOpenedBy env (opener op) i False s \<noteq> kInvalidIndex"
  shows "DetermineNewActiveIndex env i s = Some 0"
proof -
  have zero: "GetValidIndex (GetIndexOfNextWebStateOpenedBy env ws' i False s) i = 0"
    if "GetIndexOfNextWebStateOpenedBy env ws' i False s \<noteq> kInvalidIndex" for ws'
    using GetIndexOfNext_range(1) [OF that] assms(2)
    by (intro GetValidIndex_after) (simp_all add: ContainsIndex_def)
  show ?thesis
    using assms(2-5) zero
    by (cases "GetIndexOfNextWebStateOpenedBy env ws i False s = kInvalidIndex")
       (auto simp: DetermineNewActiveIndex_def Let_def)
qed

definition opener_demo :: web_state_list where
  "opener_demo = (demo_list [1, 2, 3])\<lparr>active_index := 1, web_state_wrappers :=
       [\<lparr>wrapped = Some 1, wrapper_opener = null_opener\<rparr>,
        \<lparr>wrapped = Some 2, wrapper_opener = null_opener\<rparr>,
        \<lparr>wrapped = Some 3, wrapper_opener = \<lparr>opener = Some 2, navigation_index = 0\<rparr>\<rparr>]\<rparr>"

theorem new_active_index_is_first_tab_witness:
  "DetermineNewActiveIndex demo_env 1 opener_demo = Some 0 \<and>
   GetIndexOfNextWebStateOpenedBy demo_env (Some 2) 1 False opener_demo = 2"
proof -
  have inv: "wsl_inv opener_demo" "ContainsIndex 1 opener_demo"
    by (simp_all add: wsl_inv_def wsl_wf_def demo_list_def query_defs opener_ok_def INT_MAX_def
        opener_demo_def)
  have i: "GetIndexOfNextWebStateOpenedBy demo_env (Some 2) 1 False opener_demo = 2"
    by (simp add: GetIndexOfNextWebStateOpenedBy_def GetIndexOfNthWebStateOpenedBy_def query_defs
        opener_demo_def demo_list_def WasOpenedBy_def wsl_consts INT_MAX_def)
  moreover have "GetWebStateAt 1 opener_demo = Some (Some 2)"
      "GetOpenerOfWebStateAt 1 opener_demo = Some null_opener"
    using inv(2) by (simp_all add: opener_demo_def demo_list_def)
  ultimately show ?thesis
    using new_active_index_is_first_tab [OF inv, of "Some 2" null_opener demo_env]
    by (simp add: kInvalidIndex_def)
qed

section \<open>Search by URL\<close>

lemma inactive_url_loop_none:
  assumes "0 \<le> k"
  shows "inactive_url_loop env url a ws k = kInvalidIndex \<longleftrightarrow>
    (\<forall>j<length ws. k + int j = a \<or> visible_url env (wrapped (ws ! j)) \<noteq> url)"
  using assms
proof (induction ws arbitrary: k)
  case Nil
  then show ?case by simp
next
  case (Cons w ws)
  then show ?case
    by (auto simp: kInvalidIndex_def less_Suc_eq_0_disj algebra_simps)
qed

lemma inactive_url_loop_some:
  assumes "0 \<le> k" "inactive_url_loop env url a ws k \<noteq> kInvalidIndex"
  shows "\<exists>j<length ws. inactive_url_loop env url a ws k = k + int j \<and> k + int j \<noteq> a \<and>
    visible_url env (wrapped (ws ! j)) = url \<and>
    (\<forall>j'<j. k + int j' = a \<or> visible_url env (wrapped (ws ! j')) \<noteq> url)"
  using assms
proof (induction ws arbitrary: k)
  case Nil
  then show ?case by simp
next
  case (Cons w ws)
  show ?case
  proof (cases "k \<noteq> a \<and> visible_url env (wrapped w) = url")
    case True
    then show ?thesis by (intro exI [of _ 0]) simp
  next
    case False
    then have eq: "inactive_url_loop env url a (w # ws) k = inactive_url_loop env url a ws (k + 1)"
      by auto
    from Cons.IH [of "k + 1"] Cons.prems obtain j where j: "j < length ws"
      "inactive_url_loop env url a ws (k + 1) = k + 1 + int j" "k + 1 + int j \<noteq> a"
      "visible_url env (wrapped (ws ! j)) = url"
      "\<forall>j'<j. k + 1 + int j' = a \<or> visible_url env (wrapped (ws ! j')) \<noteq> url"
      unfolding eq by auto
    with False eq show ?thesis
      by (intro exI [of _ "Suc j"]) (auto simp: less_Suc_eq_0_disj algebra_simps)
  qed
qed

definition inactive_with_url :: "web_env \<Rightarrow> gurl \<Rightarrow> web_state_list \<Rightarrow> nat \<Rightarrow> bool" where
  "inactive_with_url env url s j \<longleftrightarrow>
     int j \<noteq> active_index s \<and> visible_url env (wrapped (web_state_wrappers s ! j)) = url"

text \<open>
  \<open>GetIndexOfInactiveWebStateWithURL\<close> returns \<open>kInvalidIndex\<close> exactly when no tab other than
  the active one shows the URL; otherwise it returns the smallest index of such a tab.
\<close>

theorem GetIndexOfInactiveWebStateWithURL_first:
  "if \<exists>j<length (web_state_wrappers s). inactive_with_url env url s j
   then \<exists>j<length (web_state_wrappers s).
     GetIndexOfInactiveWebStateWithURL env url s = int j \<and> inactive_with_url env url s j \<and>
     (\<forall>j'<j. \<not> inactive_with_url env url s j')
   else GetIndexOfInactiveWebStateWithURL env url s = kInvalidIndex"
  using inactive_url_loop_none [of 0 env url "active_index s" "web_state_wrappers s"]
    inactive_url_loop_some [of 0 env url "active_index s" "web_state_wrappers s"]
  by (auto simp: GetIndexOfInactiveWebStateWithURL_def inactive_with_url_def)

theorem GetIndexOfInactiveWebStateWithURL_first_witness:
  "GetIndexOfInactiveWebStateWithURL demo_env ''b'' (demo_list [2, 3, 4]) = 1 \<and>
   inactive_with_url demo_env ''b'' (demo_list [2, 3, 4]) 1"
proof -
  let ?s = "demo_list [2, 3, 4]"
  have hit: "inactive_with_url demo_env ''b'' ?s 1" and first: "\<not> inactive_with_url demo_env ''b'' ?s 0"
    and len: "length (web_state_wrappers ?s) = 3"
    by (simp_all add: inactive_with_url_def demo_env_def demo_list_def)
  have "\<exists>j<length (web_state_wrappers ?s). inactive_with_url demo_env ''b'' ?s j"
    by (intro exI [of _ 1]) (use hit len in simp)
  then obtain j where j: "GetIndexOfInactiveWebStateWithURL demo_env ''b'' ?s = int j"
    "inactive_with_url demo_env ''b'' ?s j" "\<forall>j'<j. \<not> inactive_with_url demo_env ''b'' ?s j'"
    using GetIndexOfInactiveWebStateWithURL_first [of ?s demo_env "''b''"] by auto
  have "j \<noteq> 0" using j(2) first by metis
  moreover have "\<not> 1 < j" using j(3) hit by blast
  ultimately have "j = 1" by simp
  with j(1) hit show ?thesis by simp
qed

end
