(* ===== verification/Session_Serialization.thy ===== *)
theory Session_Serialization
  imports Web_State_List_Props
begin

text \<open>
  Saving and restoring a window: \<open>SerializableUserDataManager\<close> (\<open>web/navigation\<close>),
  \<open>SessionWindowIOS\<close> (\<open>chrome/browser/sessions\<close>) and the two functions of
  \<open>web_state_list_serialization.mm\<close> that write a \<open>WebStateList\<close> into a session window and read it
  back. The main result is the round trip: tabs, opener links and selection survive.
\<close>

section \<open>User data\<close>

datatype ns_value = NSNumber int | NSNull | NSOther string

type_synonym user_data = "string \<rightharpoonup> ns_value"

definition AddSerializableData :: "ns_value \<Rightarrow> string \<Rightarrow> user_data \<Rightarrow> user_data option" where
  "AddSerializableData data key d = do {
     check (key \<noteq> []);
     Some (d(key \<mapsto> data)) }"

definition GetValueForSerializationKey :: "string \<Rightarrow> user_data \<Rightarrow> ns_value option" where
  "GetValueForSerializationKey key d = d key"

definition CreateSerializableUserData :: "user_data \<Rightarrow> user_data" where
  "CreateSerializableUserData d = d"

definition AddSerializableUserData :: "user_data option \<Rightarrow> user_data \<Rightarrow> user_data" where
  "AddSerializableUserData data d = (case data of None \<Rightarrow> d | Some d' \<Rightarrow> d')"

text \<open>\<open>base::mac::ObjCCast<NSNumber>\<close>, and \<open>intValue\<close> of the result.\<close>

definition as_number :: "ns_value option \<Rightarrow> int option" where
  "as_number v = (case v of Some (NSNumber n) \<Rightarrow> Some n | _ \<Rightarrow> None)"

section \<open>Session windows\<close>

text \<open>
  A \<open>CRWSessionStorage\<close>: the user data of the saved web state, and the rest of the saved state.
\<close>

record session_storage =
  storage_user_data :: user_data
  storage_content :: nat

record session_window =
  sessions :: "session_storage list"
  selectedIndex :: nat

definition NSNotFound :: nat where
  "NSNotFound = 9223372036854775807"

definition IsIndexValidForSessionCount :: "nat \<Rightarrow> nat \<Rightarrow> bool" where
  "IsIndexValidForSessionCount index session_count =
     (if session_count = 0 then index = NSNotFound else index < session_count)"

definition initWithSessions :: "session_storage list \<Rightarrow> nat \<Rightarrow> session_window option" where
  "initWithSessions ss index = do {
     check (IsIndexValidForSessionCount index (length ss));
     Some \<lparr>sessions = ss, selectedIndex = index\<rparr> }"

definition initSessionWindowWithCoder :: "session_storage list option \<Rightarrow> nat \<Rightarrow> session_window option" where
  "initSessionWindowWithCoder decoded index =
     (let ss = (case decoded of None \<Rightarrow> [] | Some l \<Rightarrow> l);
          index = (if \<not> IsIndexValidForSessionCount index (length ss)
                   then (if length ss = 0 then NSNotFound else 0) else index)
      in initWithSessions ss index)"

definition encodeSessionWindow :: "session_window \<Rightarrow> session_storage list option \<times> nat" where
  "encodeSessionWindow w = (Some (sessions w), selectedIndex w)"

interpretation window_coding: nscoding encodeSessionWindow "\<lambda>(decoded, index). initSessionWindowWithCoder decoded index"
  "\<lambda>w. IsIndexValidForSessionCount (selectedIndex w) (length (sessions w))"
  by unfold_locales (simp add: encodeSessionWindow_def initSessionWindowWithCoder_def initWithSessions_def)

section \<open>Serialization of a web state list\<close>

definition kOpenerIndexKey :: string where "kOpenerIndexKey = ''OpenerIndex''"
definition kOpenerNavigationIndexKey :: string where
  "kOpenerNavigationIndexKey = ''OpenerNavigationIndex''"

text \<open>
  The user data of the live web states is a store \<open>ud\<close> indexed by the web state; \<open>content\<close> is the
  rest of what \<open>BuildSessionStorage\<close> saves of a web state.
\<close>

definition serialize_one ::
  "(web_state \<Rightarrow> nat) \<Rightarrow> web_state_list \<Rightarrow> int \<Rightarrow> (web_state \<Rightarrow> user_data)
   \<Rightarrow> (session_storage \<times> (web_state \<Rightarrow> user_data)) option" where
  "serialize_one content s index ud = do {
     web_state \<leftarrow> GetWebStateAt index s;
     op \<leftarrow> GetOpenerOfWebStateAt index s;
     d \<leftarrow> (if opener op \<noteq> None then do {
             let opener_index = GetIndexOfWebState (opener op) s;
             check (opener_index \<noteq> kInvalidIndex);
             d \<leftarrow> AddSerializableData (NSNumber opener_index) kOpenerIndexKey (ud web_state);
             AddSerializableData (NSNumber (navigation_index op)) kOpenerNavigationIndexKey d }
          else do {
             d \<leftarrow> AddSerializableData NSNull kOpenerIndexKey (ud web_state);
             AddSerializableData NSNull kOpenerNavigationIndexKey d });
     Some (\<lparr>storage_user_data = CreateSerializableUserData d, storage_content = content web_state\<rparr>,
           ud(web_state := d)) }"

fun serialize_loop ::
  "(web_state \<Rightarrow> nat) \<Rightarrow> web_state_list \<Rightarrow> int list \<Rightarrow> (web_state \<Rightarrow> user_data)
   \<Rightarrow> (session_storage list \<times> (web_state \<Rightarrow> user_data)) option" where
  "serialize_loop content s [] ud = Some ([], ud)"
| "serialize_loop content s (i # is) ud = do {
     (st, ud) \<leftarrow> serialize_one content s i ud;
     (sts, ud) \<leftarrow> serialize_loop content s is ud;
     Some (st # sts, ud) }"

definition SerializeWebStateList ::
  "(web_state \<Rightarrow> nat) \<Rightarrow> web_state_list \<Rightarrow> (web_state \<Rightarrow> user_data)
   \<Rightarrow> (session_window \<times> (web_state \<Rightarrow> user_data)) option" where
  "SerializeWebStateList content s ud = do {
     (serialized_session, ud) \<leftarrow> serialize_loop content s [0..wsl_count s - 1] ud;
     let selected_index = (if active_index s \<noteq> kInvalidIndex then nat (active_index s) else NSNotFound);
     w \<leftarrow> initWithSessions serialized_session selected_index;
     Some (w, ud) }"

text \<open>
  \<open>factory j st\<close> is the web state that the \<open>WebStateFactory\<close> creates for the \<open>j\<close>-th stored
  session \<open>st\<close>; \<open>ud\<close> is the user data of the web states it creates.
\<close>

fun deserialize_insert_loop ::
  "web_env \<Rightarrow> (nat \<Rightarrow> session_storage \<Rightarrow> web_state) \<Rightarrow> session_storage list \<Rightarrow> nat \<Rightarrow> web_state_list
   \<Rightarrow> web_state_list option" where
  "deserialize_insert_loop env factory [] j s = Some s"
| "deserialize_insert_loop env factory (st # sts) j s = do {
     (k, s) \<leftarrow> InsertWebState env (wsl_count s) (factory j st) INSERT_FORCE_INDEX null_opener s;
     deserialize_insert_loop env factory sts (Suc j) s }"

definition restore_opener ::
  "(web_state \<Rightarrow> user_data) \<Rightarrow> int \<Rightarrow> int \<Rightarrow> web_state_list \<Rightarrow> web_state_list option" where
  "restore_opener ud old_count index s = do {
     web_state \<leftarrow> GetWebStateAt index s;
     case (as_number (GetValueForSerializationKey kOpenerIndexKey (ud web_state)),
           as_number (GetValueForSerializationKey kOpenerNavigationIndexKey (ud web_state))) of
       (Some boxed_opener_index, Some boxed_opener_navigation_index) \<Rightarrow>
         (let opener_index = boxed_opener_index + old_count in
          if opener_index < old_count \<or> opener_index \<ge> wsl_count s then Some s
          else do {
            op \<leftarrow> GetWebStateAt opener_index s;
            SetOpenerOfWebStateAt index
              \<lparr>opener = op, navigation_index = boxed_opener_navigation_index\<rparr> s })
     | _ \<Rightarrow> Some s }"

fun restore_loop ::
  "(web_state \<Rightarrow> user_data) \<Rightarrow> int \<Rightarrow> int list \<Rightarrow> web_state_list \<Rightarrow> web_state_list option" where
  "restore_loop ud old_count [] s = Some s"
| "restore_loop ud old_count (i # is) s = do {
     s \<leftarrow> restore_opener ud old_count i s;
     restore_loop ud old_count is s }"

definition DeserializeWebStateList ::
  "web_env \<Rightarrow> (nat \<Rightarrow> session_storage \<Rightarrow> web_state) \<Rightarrow> (web_state \<Rightarrow> user_data) \<Rightarrow> session_window
   \<Rightarrow> web_state_list \<Rightarrow> web_state_list option" where
  "DeserializeWebStateList env factory ud w s = do {
     let old_count = wsl_count s;
     s \<leftarrow> deserialize_insert_loop env factory (sessions w) 0 s;
     s \<leftarrow> restore_loop ud old_count [old_count..wsl_count s - 1] s;
     if selectedIndex w \<noteq> NSNotFound then do {
       check (selectedIndex w < length (sessions w));
       check (int (selectedIndex w) < INT_MAX);
       ActivateWebStateAt (old_count + int (selectedIndex w)) s }
     else Some s }"

section \<open>The round trip\<close>

subsection \<open>Writing\<close>

definition opener_link :: "web_state_list \<Rightarrow> web_state_wrapper \<Rightarrow> (int \<times> int) option" where
  "opener_link s w =
     (if opener (wrapper_opener w) = None then None
      else Some (GetIndexOfWebState (opener (wrapper_opener w)) s, navigation_index (wrapper_opener w)))"

definition saved_data :: "web_state_list \<Rightarrow> web_state_wrapper \<Rightarrow> user_data \<Rightarrow> user_data" where
  "saved_data s w d =
     (case opener_link s w of
        None \<Rightarrow> d(kOpenerIndexKey \<mapsto> NSNull, kOpenerNavigationIndexKey \<mapsto> NSNull)
      | Some (i, n) \<Rightarrow>
          d(kOpenerIndexKey \<mapsto> NSNumber i, kOpenerNavigationIndexKey \<mapsto> NSNumber n))"

lemma keys_ok [simp]:
  "kOpenerIndexKey \<noteq> []" "kOpenerNavigationIndexKey \<noteq> []"
  "kOpenerIndexKey \<noteq> kOpenerNavigationIndexKey" "kOpenerNavigationIndexKey \<noteq> kOpenerIndexKey"
  by (simp_all add: kOpenerIndexKey_def kOpenerNavigationIndexKey_def)

lemma saved_data_numbers:
  "as_number (GetValueForSerializationKey kOpenerIndexKey (saved_data s w d)) =
     map_option fst (opener_link s w)"
  "as_number (GetValueForSerializationKey kOpenerNavigationIndexKey (saved_data s w d)) =
     map_option snd (opener_link s w)"
  by (auto simp: saved_data_def as_number_def GetValueForSerializationKey_def split: option.splits)

definition storage_of ::
  "(web_state \<Rightarrow> nat) \<Rightarrow> (web_state \<Rightarrow> user_data) \<Rightarrow> web_state_list \<Rightarrow> web_state_wrapper \<Rightarrow> session_storage"
where
  "storage_of content ud s w =
     \<lparr>storage_user_data = saved_data s w (ud (wrapped w)), storage_content = content (wrapped w)\<rparr>"

lemma opener_link_range:
  assumes "wsl_wf s" "ContainsIndex i s" "opener_link s (web_state_wrappers s ! nat i) = Some (j, n)"
  shows "ContainsIndex j s" "j \<noteq> i"
  using opener_index [OF assms(1,2)] assms(3) by (auto simp: opener_link_def split: if_splits)

lemma serialize_one_result:
  assumes wf: "wsl_wf s" and i: "ContainsIndex i s"
  defines "w \<equiv> web_state_wrappers s ! nat i"
  shows "serialize_one content s i ud =
    Some (storage_of content ud s w, ud(wrapped w := saved_data s w (ud (wrapped w))))"
proof (cases "opener (wrapper_opener w) = None")
  case True
  then show ?thesis
    using i by (simp add: serialize_one_def w_def AddSerializableData_def storage_of_def
        saved_data_def opener_link_def CreateSerializableUserData_def)
next
  case False
  have "GetIndexOfWebState (opener (wrapper_opener w)) s \<noteq> kInvalidIndex"
    using opener_index(1) [OF wf i] False
    by (auto simp: w_def ContainsIndex_def kInvalidIndex_def)
  then show ?thesis
    using i False by (auto simp: serialize_one_def w_def AddSerializableData_def storage_of_def
        saved_data_def opener_link_def CreateSerializableUserData_def Let_def)
qed

lemma serialize_loop_result:
  assumes wf: "wsl_wf s" and "distinct is" "\<forall>i\<in>set is. ContainsIndex i s"
  shows "\<exists>ud'. serialize_loop content s is ud =
    Some (map (\<lambda>i. storage_of content ud s (web_state_wrappers s ! nat i)) is, ud')"
  using assms(2,3)
proof (induction "is" arbitrary: ud)
  case Nil
  then show ?case by simp
next
  case (Cons i "is")
  let ?w = "web_state_wrappers s ! nat i"
  let ?ud = "ud(wrapped ?w := saved_data s ?w (ud (wrapped ?w)))"
  have d: "distinct (web_states s)" using wf by (simp add: wsl_wf_def)
  have "storage_of content ?ud s (web_state_wrappers s ! nat j) =
        storage_of content ud s (web_state_wrappers s ! nat j)" if "j \<in> set is" for j
  proof -
    have ij: "0 \<le> i" "0 \<le> j" "i \<noteq> j" using that Cons.prems by (auto simp: ContainsIndex_def)
    then have "nat j \<noteq> nat i" by simp
    then have "web_states s ! nat j \<noteq> web_states s ! nat i"
      using that Cons.prems d ContainsIndex_nat [of i s] ContainsIndex_nat [of j s]
      by (subst nth_eq_iff_index_eq) auto
    then show ?thesis
      using that Cons.prems ContainsIndex_nat [of i s] ContainsIndex_nat [of j s]
      by (simp add: storage_of_def)
  qed
  then have "map (\<lambda>i. storage_of content ?ud s (web_state_wrappers s ! nat i)) is =
      map (\<lambda>i. storage_of content ud s (web_state_wrappers s ! nat i)) is" by simp
  moreover obtain ud' where "serialize_loop content s is ?ud =
      Some (map (\<lambda>i. storage_of content ?ud s (web_state_wrappers s ! nat i)) is, ud')"
    using Cons.IH [of ?ud] Cons.prems by (metis distinct.simps(2) list.set_intros(2))
  ultimately have "serialize_loop content s (i # is) ud =
      Some (map (\<lambda>i. storage_of content ud s (web_state_wrappers s ! nat i)) (i # is), ud')"
    using Cons.prems serialize_one_result [OF wf, of i content ud]
    by (simp del: fun_upd_apply)
  then show ?case by (rule exI [of _ ud'])
qed

lemma upto_indices: "[0..int n - 1] = map int [0..<n]"
  by (rule nth_equalityI) simp_all

lemma Serialize_result:
  assumes inv: "wsl_inv s" and sel: "wsl_empty s \<or> active_index s \<noteq> kInvalidIndex"
  shows "\<exists>ud'. SerializeWebStateList content s ud =
    Some (\<lparr>sessions = map (storage_of content ud s) (web_state_wrappers s),
           selectedIndex = (if active_index s \<noteq> kInvalidIndex then nat (active_index s) else NSNotFound)\<rparr>,
          ud')"
proof -
  have wf: "wsl_wf s" using inv by (simp add: wsl_inv_def)
  let ?is = "[0..wsl_count s - 1]"
  have "\<forall>i\<in>set ?is. ContainsIndex i s" by (auto simp: ContainsIndex_def)
  then obtain ud' where ud': "serialize_loop content s ?is ud =
      Some (map (\<lambda>i. storage_of content ud s (web_state_wrappers s ! nat i)) ?is, ud')"
    using serialize_loop_result [OF wf, of ?is content ud] by auto
  have m: "map (\<lambda>i. storage_of content ud s (web_state_wrappers s ! nat i)) ?is =
      map (storage_of content ud s) (web_state_wrappers s)"
    by (rule nth_equalityI) (simp_all add: wsl_count_def upto_indices)
  have "IsIndexValidForSessionCount
      (if active_index s \<noteq> kInvalidIndex then nat (active_index s) else NSNotFound)
      (length (web_state_wrappers s))"
    using sel wf
    by (auto simp: IsIndexValidForSessionCount_def wsl_empty_def wsl_wf_def ContainsIndex_def wsl_count_def
        kInvalidIndex_def)
  then show ?thesis
    using ud' by (simp add: SerializeWebStateList_def m initWithSessions_def)
qed

subsection \<open>Reading\<close>

fun made :: "(nat \<Rightarrow> session_storage \<Rightarrow> web_state) \<Rightarrow> session_storage list \<Rightarrow> nat \<Rightarrow> web_state list" where
  "made factory [] j = []"
| "made factory (st # sts) j = factory j st # made factory sts (Suc j)"

lemma length_made [simp]: "length (made factory sts j) = length sts"
  by (induction sts arbitrary: j) auto

lemma nth_made: "k < length sts \<Longrightarrow> made factory sts j ! k = factory (j + k) (sts ! k)"
  by (induction sts arbitrary: j k) (auto simp: nth_Cons' Suc_diff_Suc)

lemma insert_at_end: "insert_at (length xs) x xs = xs @ [x]"
  by (simp add: insert_at_def)

lemma insert_forced_end:
  assumes "wsl_inv s" "ws \<noteq> None" "ws \<notin> set (web_states s)" "wsl_count s < INT_MAX"
  shows "\<exists>s'. InsertWebState env (wsl_count s) ws INSERT_FORCE_INDEX null_opener s =
      Some (wsl_count s, s') \<and> wsl_inv s' \<and>
    web_state_wrappers s' = web_state_wrappers s @ [\<lparr>wrapped = ws, wrapper_opener = null_opener\<rparr>] \<and>
    active_index s' = active_index s"
proof -
  have pre: "insert_pre (wsl_count s) ws INSERT_FORCE_INDEX null_opener s"
    using assms by (auto simp: insert_pre_def wsl_count_def)
  have f: "IsInsertionFlagSet INSERT_FORCE_INDEX INSERT_FORCE_INDEX"
    "\<not> IsInsertionFlagSet INSERT_FORCE_INDEX INSERT_ACTIVATE"
    "\<not> IsInsertionFlagSet INSERT_FORCE_INDEX INSERT_INHERIT_OPENER"
    by (simp_all add: IsInsertionFlagSet_def wsl_consts)
  have "active_index s < wsl_count s"
    using assms(1) by (auto simp: wsl_inv_def wsl_wf_def ContainsIndex_def wsl_count_def kInvalidIndex_def)
  then show ?thesis
    using Insert_result [OF assms(1) pre, of env] Insert_inv [OF assms(1) pre, of env] f
    by (auto simp: effective_opener_def recorded_opener_def wsl_count_def insert_at_end)
qed

lemma deserialize_insert_result:
  assumes "wsl_inv s" "distinct (web_states s @ made factory sts j)" "None \<notin> set (made factory sts j)"
    "wsl_count s + int (length sts) \<le> INT_MAX"
  shows "\<exists>s'. deserialize_insert_loop env factory sts j s = Some s' \<and> wsl_inv s' \<and>
    web_state_wrappers s' = web_state_wrappers s @
      map (\<lambda>ws. \<lparr>wrapped = ws, wrapper_opener = null_opener\<rparr>) (made factory sts j) \<and>
    active_index s' = active_index s"
  using assms
proof (induction sts arbitrary: j s)
  case Nil
  then show ?case by simp
next
  case (Cons st sts)
  let ?ws = "factory j st"
  have "?ws \<noteq> None" "?ws \<notin> set (web_states s)" "wsl_count s < INT_MAX"
    using Cons.prems by auto
  then obtain s1 where s1:
    "InsertWebState env (wsl_count s) ?ws INSERT_FORCE_INDEX null_opener s = Some (wsl_count s, s1)"
    "wsl_inv s1" "active_index s1 = active_index s"
    "web_state_wrappers s1 = web_state_wrappers s @ [\<lparr>wrapped = ?ws, wrapper_opener = null_opener\<rparr>]"
    using insert_forced_end [OF Cons.prems(1)] by blast
  have "wsl_count s1 = wsl_count s + 1" by (simp add: wsl_count_def s1(4))
  then show ?case
    using Cons.IH [of s1 "Suc j"] Cons.prems s1 by auto
qed

definition restored ::
  "(web_state \<Rightarrow> user_data) \<Rightarrow> int \<Rightarrow> web_state list \<Rightarrow> web_state_wrapper \<Rightarrow> web_state_wrapper" where
  "restored ud old_count all w =
     (case (as_number (GetValueForSerializationKey kOpenerIndexKey (ud (wrapped w))),
            as_number (GetValueForSerializationKey kOpenerNavigationIndexKey (ud (wrapped w)))) of
        (Some oi, Some ni) \<Rightarrow>
          (if oi < 0 \<or> oi + old_count \<ge> int (length all) then w
           else w\<lparr>wrapper_opener := \<lparr>opener = all ! nat (oi + old_count), navigation_index = ni\<rparr>\<rparr>)
      | _ \<Rightarrow> w)"

lemma wrapped_restored [simp]: "wrapped (restored ud old_count all w) = wrapped w"
  by (simp add: restored_def split: option.splits)

lemma restore_opener_result:
  assumes i: "ContainsIndex i s" and old: "0 \<le> old_count"
  shows "restore_opener ud old_count i s =
    Some (s\<lparr>web_state_wrappers := (web_state_wrappers s)
      [nat i := restored ud old_count (web_states s) (web_state_wrappers s ! nat i)]\<rparr>)"
proof -
  have set: "SetOpenerOfWebStateAt i \<lparr>opener = web_states s ! nat k, navigation_index = n\<rparr> s =
      Some (s\<lparr>web_state_wrappers := (web_state_wrappers s)[nat i :=
        (web_state_wrappers s ! nat i)\<lparr>wrapper_opener :=
          \<lparr>opener = web_states s ! nat k, navigation_index = n\<rparr>\<rparr>]\<rparr>)"
    if k: "ContainsIndex k s" for k n
  proof -
    have "web_states s ! nat k \<in> set (web_states s)"
      using ContainsIndex_nat [OF k] by (intro nth_mem) simp
    then show ?thesis using i by (simp add: SetOpenerOfWebStateAt_def GetIndexOfWebState_Contains)
  qed
  have k: "ContainsIndex (oi + old_count) s"
    if "\<not> oi < 0" "\<not> oi + old_count \<ge> int (length (web_states s))" for oi
    using that old by (simp add: ContainsIndex_def wsl_count_def)
  show ?thesis
    using i set [OF k] ContainsIndex_nat [OF k]
    by (auto simp: restore_opener_def restored_def wsl_count_def Let_def GetWebStateAt_ok [OF k]
        split: option.splits)
qed

lemma restore_loop_result:
  assumes "distinct is" "\<forall>i\<in>set is. ContainsIndex i s" "0 \<le> old_count"
  shows "\<exists>s'. restore_loop ud old_count is s = Some s' \<and> web_states s' = web_states s \<and>
    active_index s' = active_index s \<and>
    (\<forall>k<length (web_state_wrappers s). web_state_wrappers s' ! k =
       (if int k \<in> set is then restored ud old_count (web_states s) (web_state_wrappers s ! k)
        else web_state_wrappers s ! k))"
  using assms(1,2)
proof (induction "is" arbitrary: s)
  case Nil
  then show ?case by simp
next
  case (Cons i "is")
  let ?r = "restored ud old_count (web_states s) (web_state_wrappers s ! nat i)"
  define s1 where "s1 = s\<lparr>web_state_wrappers := (web_state_wrappers s)[nat i := ?r]\<rparr>"
  have i: "ContainsIndex i s" using Cons.prems by simp
  have n: "nat i < length (web_state_wrappers s)" by (rule ContainsIndex_nat [OF i])
  have "web_states s1 = (web_states s)[nat i := web_states s ! nat i]"
    using n by (simp add: s1_def map_update)
  then have tabs: "web_states s1 = web_states s" by simp
  have "\<forall>j\<in>set is. ContainsIndex j s1"
    using Cons.prems by (simp add: s1_def query_defs)
  then obtain s' where s': "restore_loop ud old_count is s1 = Some s'" "web_states s' = web_states s1"
    "active_index s' = active_index s1"
    "\<forall>k<length (web_state_wrappers s1). web_state_wrappers s' ! k =
       (if int k \<in> set is then restored ud old_count (web_states s1) (web_state_wrappers s1 ! k)
        else web_state_wrappers s1 ! k)"
    using Cons.IH [of s1] Cons.prems by auto
  have "restore_loop ud old_count (i # is) s = Some s'"
    using restore_opener_result [OF i assms(3)] s'(1) by (simp add: s1_def)
  moreover have "web_state_wrappers s' ! k =
      (if int k \<in> set (i # is) then restored ud old_count (web_states s) (web_state_wrappers s ! k)
       else web_state_wrappers s ! k)" if "k < length (web_state_wrappers s)" for k
    using s'(4) that Cons.prems i tabs
    by (cases "k = nat i") (auto simp: s1_def ContainsIndex_def)
  ultimately show ?case using s'(2,3) tabs by (auto simp: s1_def)
qed

subsection \<open>Both\<close>

text \<open>
  What the round trip asks of the environment: the factory makes new, distinct, non-null web
  states, there is room for them, and their user data is the stored one.
\<close>

definition factory_ok ::
  "(nat \<Rightarrow> session_storage \<Rightarrow> web_state) \<Rightarrow> (web_state \<Rightarrow> user_data) \<Rightarrow> session_storage list
   \<Rightarrow> web_state_list \<Rightarrow> bool" where
  "factory_ok factory ud sts t \<longleftrightarrow>
     distinct (web_states t @ made factory sts 0) \<and> None \<notin> set (made factory sts 0) \<and>
     wsl_count t + int (length sts) \<le> INT_MAX \<and>
     (\<forall>j<length sts. ud (factory j (sts ! j)) = storage_user_data (sts ! j))"

lemma restored_link:
  assumes wf: "wsl_wf s" and j: "j < length (web_state_wrappers s)"
    and ud: "ud (wrapped w) = saved_data s (web_state_wrappers s ! j) d"
    and w: "wrapper_opener w = null_opener"
    and all: "distinct (web_states t)" "None \<notin> set (web_states t)"
      "length (web_states t) = old + length (web_state_wrappers s)"
  shows "opener_link t (restored ud (int old) (web_states t) w) =
    map_option (\<lambda>(i, n). (i + int old, n)) (opener_link s (web_state_wrappers s ! j))"
proof (cases "opener_link s (web_state_wrappers s ! j)")
  case None
  then show ?thesis using ud w by (simp add: restored_def saved_data_numbers opener_link_def)
next
  case (Some p)
  then obtain i n where p: "opener_link s (web_state_wrappers s ! j) = Some (i, n)" by (cases p) auto
  have "ContainsIndex (int j) s" using j by (simp add: ContainsIndex_def wsl_count_def)
  then have i: "ContainsIndex i s" using opener_link_range(1) [OF wf _ ] p by simp
  then have r: "restored ud (int old) (web_states t) w =
      w\<lparr>wrapper_opener := \<lparr>opener = web_states t ! nat (i + int old), navigation_index = n\<rparr>\<rparr>"
    using ud p all(3) by (auto simp: restored_def saved_data_numbers ContainsIndex_def wsl_count_def)
  have k: "nat (i + int old) < length (web_state_wrappers t)"
    using i all(3) by (auto simp: ContainsIndex_def wsl_count_def)
  have "web_states t ! nat (i + int old) \<noteq> None" using all(2) k by (metis length_map nth_mem)
  moreover have "GetIndexOfWebState (web_states t ! nat (i + int old)) t = i + int old"
    using GetIndexOfWebState_nth [OF all(1) k] i k by (simp add: ContainsIndex_def)
  ultimately show ?thesis using p r by (auto simp: opener_link_def)
qed

definition fresh_wrapper :: "web_state \<Rightarrow> web_state_wrapper" where
  "fresh_wrapper ws = \<lparr>wrapped = ws, wrapper_opener = null_opener\<rparr>"

lemma fresh_wrapper_simps [simp]:
  "wrapped (fresh_wrapper ws) = ws" "wrapper_opener (fresh_wrapper ws) = null_opener"
  by (simp_all add: fresh_wrapper_def)

lemma restore_loop_tail:
  assumes "n \<le> length (web_state_wrappers s)"
  shows "\<exists>s'. restore_loop ud (int n) [int n..wsl_count s - 1] s = Some s' \<and>
    web_states s' = web_states s \<and> active_index s' = active_index s \<and>
    drop n (web_state_wrappers s') =
      map (restored ud (int n) (web_states s)) (drop n (web_state_wrappers s))"
proof -
  let ?is = "[int n..wsl_count s - 1]"
  have v: "\<forall>i\<in>set ?is. ContainsIndex i s" by (auto simp: ContainsIndex_def)
  obtain s' where s': "restore_loop ud (int n) ?is s = Some s'" "web_states s' = web_states s"
      "active_index s' = active_index s"
      "\<forall>k<length (web_state_wrappers s). web_state_wrappers s' ! k =
         (if int k \<in> set ?is then restored ud (int n) (web_states s) (web_state_wrappers s ! k)
          else web_state_wrappers s ! k)"
    using restore_loop_result [OF distinct_upto v, of "int n"] by auto
  have "length (web_state_wrappers s') = length (web_state_wrappers s)"
    using arg_cong [OF s'(2), of length] by simp
  then have "drop n (web_state_wrappers s') =
      map (restored ud (int n) (web_states s)) (drop n (web_state_wrappers s))"
    using s'(4) assms by (intro nth_equalityI) (simp_all add: wsl_count_def)
  with s' show ?thesis by blast
qed

lemma Deserialize_result:
  assumes t: "wsl_inv t" "factory_ok factory ud (sessions win) t"
    and sel: "selectedIndex win < length (sessions win)"
  shows "\<exists>t'. DeserializeWebStateList env factory ud win t = Some t' \<and>
    web_states t' = web_states t @ made factory (sessions win) 0 \<and>
    None \<notin> set (web_states t') \<and>
    drop (length (web_states t)) (web_state_wrappers t') =
      map (\<lambda>ws. restored ud (wsl_count t) (web_states t') (fresh_wrapper ws))
        (made factory (sessions win) 0) \<and>
    active_index t' = wsl_count t + int (selectedIndex win)"
proof -
  let ?new = "made factory (sessions win) 0" and ?sel = "wsl_count t + int (selectedIndex win)"
  have fo: "distinct (web_states t @ ?new)" "None \<notin> set ?new"
      "wsl_count t + int (length (sessions win)) \<le> INT_MAX"
    using t(2) by (auto simp: factory_ok_def)
  obtain t1 where t1: "deserialize_insert_loop env factory (sessions win) 0 t = Some t1" "wsl_inv t1"
      "web_state_wrappers t1 = web_state_wrappers t @ map fresh_wrapper ?new"
    using deserialize_insert_result [OF t(1) fo] unfolding fresh_wrapper_def by blast
  have tabs1: "web_states t1 = web_states t @ ?new" by (simp add: t1(3) comp_def)
  obtain t2 where t2: "restore_loop ud (wsl_count t) [wsl_count t..wsl_count t1 - 1] t1 = Some t2"
      "web_states t2 = web_states t1" "active_index t2 = active_index t1"
      "drop (length (web_states t)) (web_state_wrappers t2) =
         map (restored ud (wsl_count t) (web_states t1)) (map fresh_wrapper ?new)"
    using restore_loop_tail [of "length (web_state_wrappers t)" t1 ud]
    by (auto simp: t1(3) wsl_count_def)
  have c2: "ContainsIndex i t2 = ContainsIndex i t1" for i
    using arg_cong [OF t2(2), of length] by (simp add: query_defs)
  have wf1: "wsl_wf t1" using t1(2) by (simp add: wsl_inv_def)
  have v: "ContainsIndex ?sel t2" using sel unfolding c2 by (simp add: query_defs t1(3))
  have nn: "None \<notin> set (web_states t2)" using wf1 t2(2) by (simp add: wsl_wf_def)
  have "active_index t2 = kInvalidIndex \<or> ContainsIndex (active_index t2) t2"
    using wf1 t2(3) c2 by (auto simp: wsl_wf_def)
  from Activate_run [OF this nn v] obtain t' where
    t': "ActivateWebStateAt ?sel t2 = Some t'" "same_data (t2\<lparr>active_index := ?sel\<rparr>) t'" by blast
  have small: "int (selectedIndex win) < INT_MAX" using fo(3) sel by (simp add: wsl_count_def)
  then have "selectedIndex win \<noteq> NSNotFound" by (auto simp: NSNotFound_def INT_MAX_def)
  then have "DeserializeWebStateList env factory ud win t = Some t'"
    using t1(1) t2(1) t'(1) sel small by (simp add: DeserializeWebStateList_def Let_def)
  moreover have w': "web_state_wrappers t' = web_state_wrappers t2" "active_index t' = ?sel"
    using t'(2) by (simp_all add: same_data_def)
  moreover have "None \<notin> set (web_states t')" using nn unfolding w'(1) .
  ultimately show ?thesis using t2(2,4) tabs1 by (simp del: set_map add: comp_def)
qed

text \<open>
  Round trip of a window. Serializing a list of tabs with a selected tab and deserializing
  the session window into any list \<open>t\<close> succeeds and appends one restored tab per saved tab, in
  order, behind the tabs of \<open>t\<close>; the opener of every restored tab is the restored tab at the
  saved opener's position, with the saved navigation index; and the selected tab is selected.
\<close>

lemma session_round_trip:
  assumes s: "wsl_inv s" "active_index s \<noteq> kInvalidIndex"
    and ser: "SerializeWebStateList content s ud = Some (win, ud')"
    and t: "wsl_inv t" "factory_ok factory ud2 (sessions win) t"
  shows "\<exists>t'. DeserializeWebStateList env factory ud2 win t = Some t' \<and>
    web_states t' = web_states t @ made factory (sessions win) 0 \<and>
    map storage_content (sessions win) = map content (web_states s) \<and>
    map (opener_link t') (drop (length (web_states t)) (web_state_wrappers t')) =
      map (\<lambda>w. map_option (\<lambda>(i, n). (i + wsl_count t, n)) (opener_link s w)) (web_state_wrappers s) \<and>
    active_index t' = wsl_count t + active_index s"
proof -
  have wf: "wsl_wf s" using s(1) by (simp add: wsl_inv_def)
  have win: "sessions win = map (storage_of content ud s) (web_state_wrappers s)"
      "selectedIndex win = nat (active_index s)"
    using Serialize_result [OF s(1), of content ud] s(2) ser by auto
  have act: "0 \<le> active_index s" "selectedIndex win < length (sessions win)"
    using s(2) wf by (auto simp: wsl_wf_def ContainsIndex_def wsl_count_def win)
  let ?new = "made factory (sessions win) 0"
  obtain t' where t': "DeserializeWebStateList env factory ud2 win t = Some t'"
      "web_states t' = web_states t @ ?new" "None \<notin> set (web_states t')"
      "drop (length (web_states t)) (web_state_wrappers t') =
         map (\<lambda>ws. restored ud2 (wsl_count t) (web_states t') (fresh_wrapper ws)) ?new"
      "active_index t' = wsl_count t + int (selectedIndex win)"
    using Deserialize_result [OF t act(2)] by blast
  have d: "distinct (web_states t')" using t(2) t'(2) by (simp add: factory_ok_def)
  have "opener_link t' (restored ud2 (wsl_count t) (web_states t') (fresh_wrapper (?new ! j))) =
      map_option (\<lambda>(i, n). (i + wsl_count t, n)) (opener_link s (web_state_wrappers s ! j))"
    if j: "j < length (web_state_wrappers s)" for j
  proof -
    have "ud2 (?new ! j) = saved_data s (web_state_wrappers s ! j) (ud (wrapped (web_state_wrappers s ! j)))"
      using t(2) j by (simp add: factory_ok_def nth_made win(1) storage_of_def)
    then show ?thesis
      using restored_link [OF wf j, of ud2 "fresh_wrapper (?new ! j)" _ t' "length (web_states t)"]
        d t'(2,3) by (simp add: wsl_count_def win(1))
  qed
  then have "map (opener_link t') (drop (length (web_states t)) (web_state_wrappers t')) =
      map (\<lambda>w. map_option (\<lambda>(i, n). (i + wsl_count t, n)) (opener_link s w)) (web_state_wrappers s)"
    unfolding t'(4) by (intro nth_equalityI) (simp_all add: win(1))
  then show ?thesis
    using t' act(1) by (simp add: win storage_of_def comp_def)
qed

definition demo_factory :: "nat \<Rightarrow> session_storage \<Rightarrow> web_state" where
  "demo_factory j st = Some (100 + j)"

lemma session_round_trip_witness:
  "\<exists>win ud' ud2 t'. SerializeWebStateList (\<lambda>_. 0) opener_demo (\<lambda>_. Map.empty) = Some (win, ud') \<and>
     DeserializeWebStateList demo_env demo_factory ud2 win new_web_state_list = Some t' \<and>
     web_states t' = [Some 100, Some 101, Some 102] \<and> active_index t' = 1"
proof -
  have inv: "wsl_inv opener_demo" "active_index opener_demo \<noteq> kInvalidIndex"
    by (simp_all add: wsl_inv_def wsl_wf_def demo_list_def query_defs opener_ok_def INT_MAX_def
        opener_demo_def kInvalidIndex_def)
  then obtain win ud' where w: "SerializeWebStateList (\<lambda>_. 0) opener_demo (\<lambda>_. Map.empty) = Some (win, ud')"
      "sessions win = map (storage_of (\<lambda>_. 0) (\<lambda>_. Map.empty) opener_demo) (web_state_wrappers opener_demo)"
    using Serialize_result [OF inv(1), of "\<lambda>_. 0" "\<lambda>_. Map.empty"] by auto
  have l: "length (sessions win) = 3" by (simp add: w(2) opener_demo_def)
  then have m: "made demo_factory (sessions win) 0 = [Some 100, Some 101, Some 102]"
    by (cases "sessions win"; cases "tl (sessions win)"; cases "tl (tl (sessions win))")
       (auto simp: demo_factory_def)
  define ud2 where "ud2 = (\<lambda>ws. case ws of None \<Rightarrow> Map.empty
      | Some k \<Rightarrow> storage_user_data (sessions win ! (k - 100)))"
  have "factory_ok demo_factory ud2 (sessions win) new_web_state_list"
    using l m by (simp add: factory_ok_def new_web_state_list_def wsl_count_def INT_MAX_def
        ud2_def demo_factory_def)
  from session_round_trip [OF inv w(1) new_wsl_inv this, of demo_env] m
  obtain t' where "DeserializeWebStateList demo_env demo_factory ud2 win new_web_state_list = Some t'"
     "web_states t' = [Some 100, Some 101, Some 102]" "active_index t' = 1"
    by (auto simp: new_web_state_list_def wsl_count_def opener_demo_def)
  with w(1) show ?thesis
    by (rule_tac exI [of _ win], rule_tac exI [of _ ud'], rule_tac exI [of _ ud2],
        rule_tac exI [of _ t']) simp
qed

end
