(* ===== verification/Session_Storage.thy ===== *)
theory Session_Storage
  imports Navigation_Props Session_Serialization
begin

text \<open>
  The persisted state of one tab: \<open>CRWSessionStorage\<close> (\<open>web/public/crw_session_storage.mm\<close>), the
  certificate decisions of the user (\<open>crw_session_certificate_policy_cache_storage.mm\<close>,
  \<open>session_certificate_policy_cache_impl.mm\<close> and its storage builder), the encoded user data
  (\<open>serializable_user_data_manager_impl.mm\<close>), and the \<open>SessionStorageBuilder\<close>
  (\<open>session_storage_builder.mm\<close>) that saves a \<open>WebStateImpl\<close> into a storage and restores it.

  A \<open>NSSet\<close> of storages is a list; X.509 certificates are identities, and their bytes and parser
  are the record \<open>x509_lib\<close>.
\<close>

section \<open>Certificate decisions\<close>

record x509_lib =
  cert_bytes :: "nat \<Rightarrow> string"
  CreateFromBytes :: "string \<Rightarrow> nat option"

record certificate_storage =
  cs_certificate :: nat
  cs_host :: string
  cs_status :: "32 word"

definition initWithCertificate :: "nat option \<Rightarrow> string \<Rightarrow> 32 word \<Rightarrow> certificate_storage option" where
  "initWithCertificate cert host status = do {
     certificate \<leftarrow> cert;
     check (host \<noteq> []);
     Some \<lparr>cs_certificate = certificate, cs_host = host, cs_status = status\<rparr> }"

text \<open>The archived form: certificate data, host name, status, each possibly missing.\<close>

type_synonym cert_archive = "string option \<times> string option \<times> 32 word option"

text \<open>\<open>initWithCertData:\<close> returns \<open>nil\<close> when the parameters cannot be converted.\<close>

definition initWithCertData :: "x509_lib \<Rightarrow> cert_archive \<Rightarrow> certificate_storage option" where
  "initWithCertData X a =
     (let (certData, hostName, certStatus) = a;
          cert = Option.bind certData (CreateFromBytes X);
          host = (case hostName of Some h \<Rightarrow> h | None \<Rightarrow> [])
      in if cert = None \<or> host = [] \<or> certStatus = None then None
         else initWithCertificate cert host (the certStatus))"

definition encodeCertificate :: "x509_lib \<Rightarrow> certificate_storage \<Rightarrow> cert_archive" where
  "encodeCertificate X c = (Some (cert_bytes X (cs_certificate c)), Some (cs_host c), Some (cs_status c))"

text \<open>The deprecated form: an array of certificate data, host and status, in this order.\<close>

datatype deprecated_field = DepCertificateData string | DepHostString string | DepStatus "32 word"

definition initWithDeprecatedSerialization ::
  "x509_lib \<Rightarrow> deprecated_field list \<Rightarrow> certificate_storage option" where
  "initWithDeprecatedSerialization X serialization =
     (case serialization of
        [DepCertificateData d, DepHostString h, DepStatus s] \<Rightarrow> initWithCertData X (Some d, Some h, Some s)
      | _ \<Rightarrow> None)"

definition cert_storable :: "x509_lib \<Rightarrow> certificate_storage \<Rightarrow> bool" where
  "cert_storable X c \<longleftrightarrow>
     CreateFromBytes X (cert_bytes X (cs_certificate c)) = Some (cs_certificate c) \<and> cs_host c \<noteq> []"

interpretation cert_coding: nscoding "encodeCertificate X" "initWithCertData X" "cert_storable X"
  for X :: x509_lib
  by unfold_locales
     (simp add: encodeCertificate_def initWithCertData_def cert_storable_def initWithCertificate_def)

text \<open>
  The policy cache of a session. \<open>UpdateCertificatePolicyCache\<close> posts one \<open>AllowCertForHost\<close> per
  decision; here it returns the posted calls.
\<close>

type_synonym session_certs = "certificate_storage list"

definition RegisterAllowedCertificate ::
  "nat option \<Rightarrow> string \<Rightarrow> 32 word \<Rightarrow> session_certs \<Rightarrow> session_certs option" where
  "RegisterAllowedCertificate certificate host status allowed_certs = do {
     c \<leftarrow> initWithCertificate certificate host status;
     Some (allowed_certs @ [c]) }"

definition UpdateCertificatePolicyCache :: "session_certs \<Rightarrow> (nat \<times> string \<times> 32 word) list" where
  "UpdateCertificatePolicyCache allowed_certs =
     map (\<lambda>c. (cs_certificate c, cs_host c, cs_status c)) allowed_certs"

text \<open>\<open>-[CRWSessionCertificatePolicyCacheStorage initWithCoder:]\<close>, with the deprecated key.\<close>

type_synonym cert_cache_archive = "cert_archive list option \<times> deprecated_field list list"

definition initCertCacheWithCoder :: "x509_lib \<Rightarrow> cert_cache_archive \<Rightarrow> session_certs option" where
  "initCertCacheWithCoder X aDecoder = do {
     let (certificateStorages, deprecatedSerializations) = aDecoder;
     certs \<leftarrow> (case certificateStorages of None \<Rightarrow> Some [] | Some cs \<Rightarrow> those (map (initWithCertData X) cs));
     Some (if certs = [] then List.map_filter (initWithDeprecatedSerialization X) deprecatedSerializations
           else certs) }"

definition encodeCertCacheWithCoder :: "x509_lib \<Rightarrow> session_certs \<Rightarrow> cert_cache_archive" where
  "encodeCertCacheWithCoder X certificateStorages = (Some (map (encodeCertificate X) certificateStorages), [])"

interpretation cert_cache_coding: nscoding "encodeCertCacheWithCoder X" "initCertCacheWithCoder X" "list_all (cert_storable X)"
  for X :: x509_lib
  by unfold_locales
     (simp add: encodeCertCacheWithCoder_def initCertCacheWithCoder_def list_all_iff map_filter_simps
        cert_coding.array_round_trip [simplified])

section \<open>The session storage\<close>

record 'u crw_session_storage =
  ss_hasOpener :: bool
  ss_lastCommittedItemIndex :: int
  ss_previousItemIndex :: int
  ss_itemStorages :: "'u navigation_item_storage list"
  ss_certPolicyCacheStorage :: "session_certs option"
  ss_userData :: "user_data option"

text \<open>The keyed archive of a session: one field per key; \<^const>\<open>None\<close> when the key is absent.\<close>

record 'u session_archive =
  a_openedByDOM :: "bool option"
  a_lastCommittedItemIndex :: "int option"
  a_currentNavigationIndex :: "int option"
  a_previousItemIndex :: "int option"
  a_previousNavigationIndex :: "int option"
  a_entries :: "'u archive list option"
  a_certificatePolicyCacheStorage :: "cert_cache_archive option"
  a_certificatePolicyManager :: "cert_cache_archive option"
  a_serializedUserData :: "user_data option"

definition decoded_int :: "int option \<Rightarrow> int" where
  "decoded_int v = (case v of Some i \<Rightarrow> i | None \<Rightarrow> 0)"

definition UserData_Encode :: "user_data \<Rightarrow> 'u session_archive \<Rightarrow> 'u session_archive" where
  "UserData_Encode data coder = coder\<lparr>a_serializedUserData := Some data\<rparr>"

definition UserData_Decode :: "'u session_archive \<Rightarrow> user_data" where
  "UserData_Decode coder = (case a_serializedUserData coder of Some d \<Rightarrow> d | None \<Rightarrow> Map.empty)"

definition decode_cert_cache :: "x509_lib \<Rightarrow> cert_cache_archive option \<Rightarrow> session_certs option option" where
  "decode_cert_cache X archived =
     (case archived of None \<Rightarrow> Some None
      | Some a \<Rightarrow> map_option Some (initCertCacheWithCoder X a))"

definition initSessionWithCoder ::
  "'u web_lib \<Rightarrow> x509_lib \<Rightarrow> 'u session_archive \<Rightarrow> 'u crw_session_storage option" where
  "initSessionWithCoder W X decoder = do {
     let hasOpener = (a_openedByDOM decoder = Some True);
     let lastCommittedItemIndex =
       (case a_lastCommittedItemIndex decoder of
          Some i \<Rightarrow> i | None \<Rightarrow> decoded_int (a_currentNavigationIndex decoder));
     let previousItemIndex =
       (case a_previousItemIndex decoder of
          Some i \<Rightarrow> i | None \<Rightarrow> decoded_int (a_previousNavigationIndex decoder));
     itemStorages \<leftarrow>
       (case a_entries decoder of None \<Rightarrow> Some [] | Some es \<Rightarrow> those (map (initStorageWithCoder W) es));
     let lastCommittedItemIndex = (if length itemStorages = 0 then - 1 else lastCommittedItemIndex);
     certs \<leftarrow> decode_cert_cache X (a_certificatePolicyCacheStorage decoder);
     certs \<leftarrow> (if certs = None then decode_cert_cache X (a_certificatePolicyManager decoder) else Some certs);
     Some \<lparr>ss_hasOpener = hasOpener, ss_lastCommittedItemIndex = lastCommittedItemIndex,
       ss_previousItemIndex = previousItemIndex, ss_itemStorages = itemStorages,
       ss_certPolicyCacheStorage = certs, ss_userData = Some (UserData_Decode decoder)\<rparr> }"

text \<open>\<open>encodeInt:\<close> takes a 32-bit \<open>int\<close>.\<close>

definition encodeSessionWithCoder ::
  "'u web_lib \<Rightarrow> x509_lib \<Rightarrow> 'u crw_session_storage \<Rightarrow> 'u session_archive" where
  "encodeSessionWithCoder W X s =
     (let coder = \<lparr>a_openedByDOM = Some (ss_hasOpener s),
            a_lastCommittedItemIndex = Some (wrap_int (ss_lastCommittedItemIndex s)),
            a_currentNavigationIndex = None,
            a_previousItemIndex = Some (wrap_int (ss_previousItemIndex s)),
            a_previousNavigationIndex = None,
            a_entries = Some (map (encodeStorageWithCoder W) (ss_itemStorages s)),
            a_certificatePolicyCacheStorage =
              map_option (encodeCertCacheWithCoder X) (ss_certPolicyCacheStorage s),
            a_certificatePolicyManager = None,
            a_serializedUserData = None\<rparr>
      in case ss_userData s of Some d \<Rightarrow> UserData_Encode d coder | None \<Rightarrow> coder)"

section \<open>Saving and restoring a web state\<close>

record 'u web_state_impl =
  created_with_opener :: bool
  navigation_manager :: "'u nav_manager"
  certificate_policy_cache :: session_certs
  ws_user_data :: user_data

definition BuildSessionStorage :: "'u web_lib \<Rightarrow> 'u web_state_impl \<Rightarrow> 'u crw_session_storage" where
  "BuildSessionStorage W web_state =
     (let m = navigation_manager web_state in
      \<lparr>ss_hasOpener = created_with_opener web_state,
       ss_lastCommittedItemIndex = GetLastCommittedItemIndex W m,
       ss_previousItemIndex = previousItemIndex m,
       ss_itemStorages = map (BuildStorage W) (sc_items m),
       ss_certPolicyCacheStorage = Some (certificate_policy_cache web_state),
       ss_userData = Some (CreateSerializableUserData (ws_user_data web_state))\<rparr>)"

text \<open>The loop of \<open>ExtractSessionState\<close>: each item draws a new identifier.\<close>

fun restore_items :: "'u web_lib \<Rightarrow> int \<Rightarrow> 'u navigation_item_storage list \<Rightarrow> 'u navigation_item list" where
  "restore_items W counter [] = []"
| "restore_items W counter (s # ss) =
     RewriteItemURLIfNecessary W (BuildNavigationItemImpl W counter s) #
     restore_items W (GetUniqueIDInConstructor counter) ss"

definition ExtractSessionState ::
  "'u web_lib \<Rightarrow> 'u crw_session_storage \<Rightarrow> 'u web_state_impl \<Rightarrow> 'u web_state_impl option" where
  "ExtractSessionState W storage web_state = do {
     let web_state = web_state\<lparr>created_with_opener := ss_hasOpener storage\<rparr>;
     let m = navigation_manager web_state;
     let items = restore_items W (unique_id_counter m) (ss_itemStorages storage);
     let m = m\<lparr>unique_id_counter := unique_id_counter m + int (length (ss_itemStorages storage))\<rparr>;
     m \<leftarrow> Restore (ss_lastCommittedItemIndex storage) items m;
     let m = setPreviousItemIndex (ss_previousItemIndex storage) m;
     let cert_policy_cache = (case ss_certPolicyCacheStorage storage of Some c \<Rightarrow> c | None \<Rightarrow> []);
     Some (web_state\<lparr>navigation_manager := m, certificate_policy_cache := cert_policy_cache,
       ws_user_data := AddSerializableUserData (ss_userData storage) (ws_user_data web_state)\<rparr>) }"

section \<open>Laws\<close>

definition session_storable :: "'u web_lib \<Rightarrow> x509_lib \<Rightarrow> 'u crw_session_storage \<Rightarrow> bool" where
  "session_storable W X s \<longleftrightarrow>
     list_all (storage_storable W) (ss_itemStorages s) \<and>
     (\<exists>c. ss_certPolicyCacheStorage s = Some c \<and> list_all (cert_storable X) c) \<and>
     ss_userData s \<noteq> None \<and>
     (ss_itemStorages s = [] \<longrightarrow> ss_lastCommittedItemIndex s = - 1) \<and>
     - 1 \<le> ss_lastCommittedItemIndex s \<and> ss_lastCommittedItemIndex s < 2 ^ 31 \<and>
     - 1 \<le> ss_previousItemIndex s \<and> ss_previousItemIndex s < 2 ^ 31"

lemma decode_encode_session:
  assumes "session_storable W X s"
  shows "initSessionWithCoder W X (encodeSessionWithCoder W X s) = Some s"
proof -
  from assms obtain c d where c: "ss_certPolicyCacheStorage s = Some c" "list_all (cert_storable X) c"
    and d: "ss_userData s = Some d" by (auto simp: session_storable_def)
  have w: "wrap_int (ss_lastCommittedItemIndex s) = ss_lastCommittedItemIndex s"
    "wrap_int (ss_previousItemIndex s) = ss_previousItemIndex s"
    using assms by (auto simp: session_storable_def INT_MIN_def INT_MAX_def intro!: wrap_int_id)
  have i: "those (map (initStorageWithCoder W) (map (encodeStorageWithCoder W) (ss_itemStorages s))) =
      Some (ss_itemStorages s)"
    using assms by (intro item_coding.array_round_trip) (auto simp: session_storable_def list_all_iff)
  have e: "initCertCacheWithCoder X (encodeCertCacheWithCoder X c) = Some c"
    by (rule cert_cache_coding.decode_encode [OF c(2)])
  have "length (ss_itemStorages s) = 0 \<longrightarrow> ss_lastCommittedItemIndex s = - 1"
    using assms by (simp add: session_storable_def)
  with i e c(1) d w show ?thesis
    by (simp add: initSessionWithCoder_def encodeSessionWithCoder_def UserData_Encode_def UserData_Decode_def
        decode_cert_cache_def Let_def del: map_map)
qed

interpretation session_coding: nscoding "encodeSessionWithCoder W X" "initSessionWithCoder W X" "session_storable W X"
  for W :: "'u web_lib" and X :: x509_lib
  by unfold_locales (rule decode_encode_session)

lemma rewritten_item_storage:
  assumes "is_empty W (empty_gurl (gl W))" "\<not> is_empty W (st_virtualURL s)"
  shows "BuildStorage W (RewriteItemURLIfNecessary W (BuildNavigationItemImpl W n s)) = s"
  using assms
  by (auto simp: RewriteItemURLIfNecessary_def BuildStorage_def BuildNavigationItemImpl_def NavigationItemImpl_def
      item_defs GetVirtualURL_def Let_def split: prod.splits)

lemma restored_items_storage:
  assumes "is_empty W (empty_gurl (gl W))" "\<And>s. s \<in> set ss \<Longrightarrow> \<not> is_empty W (st_virtualURL s)"
  shows "map (BuildStorage W) (restore_items W n ss) = ss"
  using assms(2) by (induction ss arbitrary: n) (simp_all add: rewritten_item_storage [OF assms(1)])

lemma length_restore_items [simp]: "length (restore_items W n ss) = length ss"
  by (induction ss arbitrary: n) simp_all

lemma Restore_result:
  assumes "sc_items m = []" "pendingItem m = None" "- 1 \<le> i" "i < int (length items)" "i = - 1 \<longleftrightarrow> items = []"
  shows "\<exists>m'. Restore i items m = Some m' \<and> sc_items m' = items \<and> lastCommittedItemIndex m' = i \<and>
    pendingItem m' = None \<and> transientItem m' = None \<and> pendingItemIndex m' = - 1 \<and> nav_inv m'"
proof -
  have "Restore i items m = Some ((initWithNavigationItems (nm_browser_state m) items i m)\<lparr>sc_navigationManager := True\<rparr>)"
    using assms by (auto simp: Restore_def GetItemCount_def GetPendingItem_def IsRestoreSessionInProgress_def
        setNavigationManager_def initWithNavigationItems_def initWithBrowserState_def Let_def)
  with assms Restore_inv [OF this assms(3)] show ?thesis
    by (auto simp: initWithNavigationItems_def initWithBrowserState_def pendingItem_def transientItem_def)
qed

text \<open>
  A web state that can be saved: its history is reachable, with valid indices of the previous item, and its URLs
  and certificates are storable.
\<close>

definition saveable :: "'u web_lib \<Rightarrow> x509_lib \<Rightarrow> 'u web_state_impl \<Rightarrow> bool" where
  "saveable W X ws \<longleftrightarrow>
     nav_run True W (navigation_manager ws) \<and> committed_visible W (navigation_manager ws) \<and>
     length (sc_items (navigation_manager ws)) < 2 ^ 31 \<and>
     (\<forall>i\<in>set (sc_items (navigation_manager ws)).
        \<not> is_empty W (GetVirtualURL W i) \<and> storage_storable W (BuildStorage W i)) \<and>
     list_all (cert_storable X) (certificate_policy_cache ws)"

lemma saveable_storable:
  assumes "saveable W X ws" shows "session_storable W X (BuildSessionStorage W ws)"
proof -
  have inv: "nav_inv (navigation_manager ws)" using assms nav_run_inv by (auto simp: saveable_def)
  with assms show ?thesis
    by (auto simp: saveable_def session_storable_def BuildSessionStorage_def Let_def list_all_iff
        committed_visible_def nav_inv_def)
qed

section \<open>Properties\<close>

text \<open>
  C26. A tab survives saving, archiving, decoding and restoring into a new web state: the persisted
  state of every history item, in order and whatever URL rewriters are installed, the last
  committed and previous indices, the certificate decisions, the user data and the opener flag are
  what they were; nothing is pending; and the restored history satisfies the history invariant.
\<close>

theorem session_state_round_trip:
  assumes "saveable W X ws" "is_empty W (empty_gurl (gl W))"
    and "sc_items (navigation_manager new) = []" "pendingItem (navigation_manager new) = None"
  shows "\<exists>storage ws'.
    initSessionWithCoder W X (encodeSessionWithCoder W X (BuildSessionStorage W ws)) = Some storage \<and>
    ExtractSessionState W storage new = Some ws' \<and>
    map (BuildStorage W) (sc_items (navigation_manager ws')) = map (BuildStorage W) (sc_items (navigation_manager ws)) \<and>
    lastCommittedItemIndex (navigation_manager ws') = lastCommittedItemIndex (navigation_manager ws) \<and>
    previousItemIndex (navigation_manager ws') = previousItemIndex (navigation_manager ws) \<and>
    pendingItem (navigation_manager ws') = None \<and> transientItem (navigation_manager ws') = None \<and>
    certificate_policy_cache ws' = certificate_policy_cache ws \<and> ws_user_data ws' = ws_user_data ws \<and>
    created_with_opener ws' = created_with_opener ws \<and> nav_inv (navigation_manager ws')"
proof -
  let ?s = "BuildSessionStorage W ws" and ?m = "navigation_manager ws"
  let ?new = "(navigation_manager new)\<lparr>unique_id_counter :=
      unique_id_counter (navigation_manager new) + int (length (sc_items ?m))\<rparr>"
  let ?items = "restore_items W (unique_id_counter (navigation_manager new)) (ss_itemStorages ?s)"
  have inv: "nav_inv ?m" using assms(1) nav_run_inv by (auto simp: saveable_def)
  have dec: "initSessionWithCoder W X (encodeSessionWithCoder W X ?s) = Some ?s"
    by (rule session_coding.decode_encode [OF saveable_storable [OF assms(1)]])
  have items: "map (BuildStorage W) ?items = map (BuildStorage W) (sc_items ?m)"
    using assms(1,2) by (subst restored_items_storage)
      (auto simp: saveable_def BuildSessionStorage_def Let_def BuildStorage_def)
  have len: "length ?items = length (sc_items ?m)" by (simp add: BuildSessionStorage_def Let_def)
  have lci: "ss_lastCommittedItemIndex ?s = lastCommittedItemIndex ?m" "ss_previousItemIndex ?s = previousItemIndex ?m"
    using assms(1) by (auto simp: saveable_def BuildSessionStorage_def committed_visible_def Let_def)
  have pre: "sc_items ?new = []" "pendingItem ?new = None" "- 1 \<le> lastCommittedItemIndex ?m"
    "lastCommittedItemIndex ?m < int (length ?items)" "lastCommittedItemIndex ?m = - 1 \<longleftrightarrow> ?items = []"
  proof -
    show "sc_items ?new = []" using assms(3) by simp
    show "pendingItem ?new = None" using assms(4) by (simp add: pendingItem_def split: if_splits)
    show "- 1 \<le> lastCommittedItemIndex ?m" "lastCommittedItemIndex ?m < int (length ?items)"
      using inv len by (simp_all add: nav_inv_def)
    have "?items = [] \<longleftrightarrow> sc_items ?m = []" using len by (metis length_0_conv)
    then show "lastCommittedItemIndex ?m = - 1 \<longleftrightarrow> ?items = []" using inv by (simp add: nav_inv_def)
  qed
  obtain m' where m': "Restore (lastCommittedItemIndex ?m) ?items ?new = Some m'"
    "sc_items m' = ?items" "lastCommittedItemIndex m' = lastCommittedItemIndex ?m"
    "pendingItem m' = None" "transientItem m' = None" "pendingItemIndex m' = - 1" "nav_inv m'"
    using Restore_result [OF pre] by blast
  let ?m' = "setPreviousItemIndex (previousItemIndex ?m) m'"
  have p: "nav_inv ?m'" "pendingItem ?m' = None" "transientItem ?m' = None"
    using m' inv len by (auto simp: nav_inv_def setPreviousItemIndex_def pendingItem_def transientItem_def)
  have n: "length (ss_itemStorages ?s) = length (sc_items ?m)" by (simp add: BuildSessionStorage_def Let_def)
  have "ExtractSessionState W ?s new = Some (new\<lparr>created_with_opener := created_with_opener ws, navigation_manager := ?m',
      certificate_policy_cache := certificate_policy_cache ws, ws_user_data := ws_user_data ws\<rparr>)"
    using m'(1) unfolding ExtractSessionState_def lci n
    by (simp add: Let_def)
       (simp add: BuildSessionStorage_def AddSerializableUserData_def CreateSerializableUserData_def Let_def)
  with dec p items m'(2,3) show ?thesis by (simp add: setPreviousItemIndex_def)
qed

definition demo_x509 :: x509_lib where
  "demo_x509 = \<lparr>cert_bytes = (\<lambda>n. replicate n CHR ''x''), CreateFromBytes = (\<lambda>s. Some (length s))\<rparr>"

definition demo_tab :: "demo_url web_state_impl" where
  "demo_tab = \<lparr>created_with_opener = True, navigation_manager = demo_history,
     certificate_policy_cache = [\<lparr>cs_certificate = 5, cs_host = ''a.com'', cs_status = 2\<rparr>],
     ws_user_data = [kOpenerIndexKey \<mapsto> NSNull]\<rparr>"

definition demo_new_tab :: "demo_url web_state_impl" where
  "demo_new_tab = \<lparr>created_with_opener = False, navigation_manager = demo_manager,
     certificate_policy_cache = [], ws_user_data = Map.empty\<rparr>"

lemma demo_item_url [simp]: "GetVirtualURL demo_web (demo_item h t) = demo_page h"
  by (simp add: demo_item_def GetVirtualURL_def item_defs NavigationItemImpl_def demo_web_def demo_lib_def demo_spec_def)

lemma demo_storable: "\<not> starts_with h kAboutBlankURL \<Longrightarrow> \<not> starts_with h ''chrome://'' \<Longrightarrow> url_storable demo_web (demo_page h)"
  by (simp add: url_storable_def demo_page_def demo_web_def demo_lib_def demo_spec_def demo_parse_def kAboutScheme_def)

lemma demo_item_storable:
  assumes "\<not> starts_with h kAboutBlankURL" "\<not> starts_with h ''chrome://''"
  shows "storage_storable demo_web (BuildStorage demo_web (demo_item h t))"
proof -
  have "ref_url (item_referrer (demo_item h t)) = demo_page ''r.com''" by (simp add: demo_item_def item_defs)
  moreover have "\<not> starts_with ''r.com'' kAboutBlankURL" "\<not> starts_with ''r.com'' ''chrome://''"
    by (simp_all add: starts_with_def kAboutBlankURL_def)
  ultimately show ?thesis using demo_storable assms by (simp add: storage_storable_def BuildStorage_def)
qed

lemma demo_tab_saveable: "saveable demo_web demo_x509 demo_tab"
proof -
  have "\<not> is_empty demo_web (demo_page h)" for h by (simp add: demo_web_def demo_page_def)
  then have "\<not> is_empty demo_web (GetVirtualURL demo_web i) \<and> storage_storable demo_web (BuildStorage demo_web i)"
    if "i \<in> set demo_items" for i
    using that by (auto simp: demo_items_def starts_with_def kAboutBlankURL_def intro!: demo_item_storable)
  then show ?thesis
    using demo_history_reachable demo_committed_visible
    by (simp add: saveable_def demo_tab_def cert_storable_def demo_x509_def) (simp add: demo_items_def)
qed

theorem session_state_round_trip_witness:
  "\<exists>storage ws'. initSessionWithCoder demo_web demo_x509
      (encodeSessionWithCoder demo_web demo_x509 (BuildSessionStorage demo_web demo_tab)) = Some storage \<and>
    ExtractSessionState demo_web storage demo_new_tab = Some ws' \<and>
    lastCommittedItemIndex (navigation_manager ws') = 3 \<and>
    certificate_policy_cache ws' = [\<lparr>cs_certificate = 5, cs_host = ''a.com'', cs_status = 2\<rparr>]"
proof -
  have "is_empty demo_web (empty_gurl (gl demo_web))" by (simp add: demo_web_def demo_lib_def demo_spec_def)
  moreover have "sc_items (navigation_manager demo_new_tab) = []" "pendingItem (navigation_manager demo_new_tab) = None"
    by (simp_all add: demo_new_tab_def demo_manager_def NavigationManagerImpl_def pendingItem_def)
  moreover have "navigation_manager demo_tab = demo_history" "certificate_policy_cache demo_tab =
      [\<lparr>cs_certificate = 5, cs_host = ''a.com'', cs_status = 2\<rparr>]" by (simp_all add: demo_tab_def)
  ultimately show ?thesis
    using session_state_round_trip [OF demo_tab_saveable, of demo_new_tab] by auto
qed

end
