(* ===== verification/Distiller_Viewer.thy ===== *)
theory Distiller_Viewer
  imports Wk_Navigation_Util
begin

text \<open>
  \<open>chrome/browser/dom_distiller/distiller_viewer.cc\<close>: the viewer that collects the script sent by
  the distiller and, once an article is distilled, hands the page, its images and its title to a
  callback. The article template, the script the base class sends for an article and the common
  script belong to \<open>components/dom_distiller\<close>; they are the fields of \<open>distiller_lib\<close>.
\<close>

record 'u image_info =
  img_url :: 'u
  img_data :: string

record article_image =
  proto_url :: string
  proto_data :: string

record distilled_page =
  page_html :: string
  page_images :: "article_image list"

record article_proto =
  pages :: "distilled_page list"
  article_title :: string

record 'u distiller_lib =
  dgl :: "'u gurl_lib"
  common_javascript :: "string list"
  article_javascript :: "article_proto \<Rightarrow> string list"
  GetUnsafeArticleTemplateHtml :: "string \<Rightarrow> string"

text \<open>
  \<open>dv_distilling\<close> says that the distiller has not yet reported its article: the distiller calls the
  finished callback once.
\<close>

record 'u distiller_viewer =
  dv_url :: 'u
  dv_js_buffer :: string
  dv_distilling :: bool

definition SendJavaScript :: "string \<Rightarrow> 'u distiller_viewer \<Rightarrow> 'u distiller_viewer" where
  "SendJavaScript buffer v = v\<lparr>dv_js_buffer := dv_js_buffer v @ buffer\<rparr>"

definition new_DistillerViewer :: "'u distiller_lib \<Rightarrow> 'u \<Rightarrow> 'u distiller_viewer option" where
  "new_DistillerViewer D url = do {
     check (is_valid (dgl D) url);
     Some (fold SendJavaScript (common_javascript D)
             \<lparr>dv_url = url, dv_js_buffer = [], dv_distilling = True\<rparr>) }"

definition article_images :: "'u distiller_lib \<Rightarrow> article_proto \<Rightarrow> 'u image_info list" where
  "article_images D article =
     concat (map (\<lambda>p. map (\<lambda>i. \<lparr>img_url = parse (dgl D) (proto_url i), img_data = proto_data i\<rparr>)
                          (page_images p)) (pages article))"

text \<open>The arguments with which the finished callback is run, and the viewer afterwards.\<close>

type_synonym 'u distillation = "'u \<times> string \<times> 'u image_info list \<times> string"

definition OnArticleReady ::
  "'u distiller_lib \<Rightarrow> article_proto \<Rightarrow> 'u distiller_viewer
   \<Rightarrow> 'u distillation \<times> 'u distiller_viewer" where
  "OnArticleReady D article v =
     (let v = fold SendJavaScript (article_javascript D article) v;
          is_empty = (pages article = [] \<or> page_html (hd (pages article)) = [])
      in (if \<not> is_empty
          then (dv_url v,
                GetUnsafeArticleTemplateHtml D (spec (dgl D) (dv_url v)) @
                  ''<script> distiller_on_ios = true; '' @ dv_js_buffer v @ ''</script>'',
                article_images D article, article_title article)
          else (dv_url v, [], [], []), v))"

definition OnDistillerFinished ::
  "'u distiller_lib \<Rightarrow> article_proto \<Rightarrow> 'u distiller_viewer
   \<Rightarrow> 'u distillation \<times> 'u distiller_viewer" where
  "OnDistillerFinished D article v = OnArticleReady D article (v\<lparr>dv_distilling := False\<rparr>)"

lemma SendJavaScript_fold [simp]:
  "fold SendJavaScript bs v = v\<lparr>dv_js_buffer := dv_js_buffer v @ concat bs\<rparr>"
  by (induction bs arbitrary: v) (simp_all add: SendJavaScript_def)

lemma new_DistillerViewer_eq [simp]:
  "new_DistillerViewer D url =
     (if is_valid (dgl D) url
      then Some \<lparr>dv_url = url, dv_js_buffer = concat (common_javascript D), dv_distilling = True\<rparr>
      else None)"
  by (simp add: new_DistillerViewer_def bind_check)

lemma OnDistillerFinished_url: "fst (fst (OnDistillerFinished D article v)) = dv_url v"
  by (simp add: OnDistillerFinished_def OnArticleReady_def Let_def)

lemma OnDistillerFinished_viewer:
  "dv_distilling (snd (OnDistillerFinished D article v)) = False"
  "dv_url (snd (OnDistillerFinished D article v)) = dv_url v"
  by (simp_all add: OnDistillerFinished_def OnArticleReady_def Let_def)

lemma OnDistillerFinished_nonempty:
  "fst (snd (fst (OnDistillerFinished D article v))) = [] \<longleftrightarrow>
     pages article = [] \<or> page_html (hd (pages article)) = []"
  by (simp add: OnDistillerFinished_def OnArticleReady_def Let_def)

end
