(* ===== verification/Url_Downloader.thy ===== *)
theory Url_Downloader
  imports Distiller_Viewer
begin

text \<open>
  \<open>chrome/browser/reading_list/url_downloader.cc\<close>: the queue of downloads and deletions of offline
  pages. The members of \<open>URLDownloader\<close> are the fields of \<open>url_downloader\<close>; the work posted to the
  task runner and the replies it posts back are two lists, \<open>posted\<close> and \<open>replies\<close>, so that every
  interleaving of the clients, the background sequence and the web page is a sequence of steps.

  The file functions of \<open>base\<close> are the fields of \<open>file_lib\<close>, over any type of disk; the path
  functions of \<open>components/reading_list\<close>, the MD5 hash and the HTML escaping are the fields of
  \<open>offline_lib\<close>. A computation that contains an assertion, or a loop that may not end, has an
  \<open>option\<close> result.
\<close>

section \<open>Library\<close>

type_synonym file_path = string

datatype offline_file_type = OFFLINE_TYPE_HTML | OFFLINE_TYPE_PDF

record 'u offline_lib =
  dl :: "'u distiller_lib"
  is_cryptographic :: "'u \<Rightarrow> bool"
  EscapeForHTML :: "string \<Rightarrow> string"
  MD5String :: "string \<Rightarrow> string"
  OfflineURLDirectoryID :: "'u \<Rightarrow> string"
  OfflineRootDirectoryPath :: "file_path \<Rightarrow> file_path"
  OfflineURLDirectoryAbsolutePath :: "file_path \<Rightarrow> 'u \<Rightarrow> file_path"
  OfflinePagePath :: "'u \<Rightarrow> offline_file_type \<Rightarrow> file_path"
  OfflineURLAbsolutePathFromRelativePath :: "file_path \<Rightarrow> file_path \<Rightarrow> file_path"
  Append :: "file_path \<Rightarrow> string \<Rightarrow> file_path"
  BaseName :: "file_path \<Rightarrow> string"

abbreviation gurls :: "'u offline_lib \<Rightarrow> 'u gurl_lib" where
  "gurls L \<equiv> dgl (dl L)"

record 'fs file_lib =
  PathExists :: "file_path \<Rightarrow> 'fs \<Rightarrow> bool"
  DirectoryExists :: "file_path \<Rightarrow> 'fs \<Rightarrow> bool"
  CreateDirectoryAndGetError :: "file_path \<Rightarrow> 'fs \<Rightarrow> bool \<times> 'fs"
  DeleteFile :: "file_path \<Rightarrow> 'fs \<Rightarrow> bool \<times> 'fs"
  WriteFile :: "file_path \<Rightarrow> string \<Rightarrow> 'fs \<Rightarrow> int \<times> 'fs"
  Move :: "file_path \<Rightarrow> file_path \<Rightarrow> 'fs \<Rightarrow> bool \<times> 'fs"
  GetFileSize :: "file_path \<Rightarrow> 'fs \<Rightarrow> int option"
  SubDirectories :: "file_path \<Rightarrow> 'fs \<Rightarrow> file_path list"

definition kDataScheme :: string where "kDataScheme = ''data''"
definition kPDFMimeType :: string where "kPDFMimeType = ''application/pdf''"

definition kDisableImageContextMenuScript :: string where
  "kDisableImageContextMenuScript =
    ''<script>'' @
    ''document.addEventListener('' @ [CHR 0x27] @ ''DOMContentLoaded'' @ [CHR 0x27] @
    '', function (event) {'' @
    ''    var imgMenuDisabler = document.createElement('' @ [CHR 0x27] @ ''style'' @ [CHR 0x27] @ '');'' @
    ''    imgMenuDisabler.innerHTML = '' @ [CHR 0x27] @ ''img { -webkit-touch-callout: none; }'' @
    [CHR 0x27] @ '';'' @
    ''    document.head.appendChild(imgMenuDisabler);'' @
    ''}, false);'' @
    ''</script>''"

section \<open>State\<close>

datatype success_state = DOWNLOAD_SUCCESS | DOWNLOAD_EXISTS | ERROR

datatype task_type = DELETE | DOWNLOAD

type_synonym 'u task = "task_type \<times> 'u"

text \<open>Work posted to the task runner, with what its reply is bound to.\<close>

datatype 'u job =
    JobDelete 'u file_path
  | JobExists 'u file_path
  | JobCleanUp file_path 'u string file_path success_state
  | JobSavePDF file_path 'u file_path
  | JobSaveHTML 'u "'u image_info list" string string file_path

datatype 'u reply =
    ReplyDelete 'u bool
  | ReplyExists 'u bool
  | ReplyCleaned 'u string file_path success_state
  | ReplySaved 'u string file_path success_state

record 'u url_loader_job =
  ld_url :: 'u
  ld_loading :: bool

record 'u url_downloader =
  tasks :: "'u task list"
  working :: bool
  base_directory :: file_path
  original_url :: 'u
  distilled_url :: 'u
  saved_size :: int
  mime_type :: string
  url_loader :: "'u url_loader_job option"
  distiller :: "'u distiller_viewer option"
  posted :: "'u job list"
  replies :: "'u reply list"

text \<open>The runs of the two completion callbacks.\<close>

datatype 'u completion =
    DownloadCompletion 'u 'u success_state file_path int string
  | DeleteCompletion 'u bool

definition new_URLDownloader :: "'u offline_lib \<Rightarrow> file_path \<Rightarrow> int \<Rightarrow> 'u url_downloader" where
  "new_URLDownloader L chrome_profile_path uninitialised =
     \<lparr>tasks = [], working = False, base_directory = chrome_profile_path,
      original_url = empty_gurl (gurls L), distilled_url = empty_gurl (gurls L),
      saved_size = uninitialised, mime_type = [], url_loader = None, distiller = None,
      posted = [], replies = []\<rparr>"

section \<open>The queue of tasks\<close>

definition post :: "'u job \<Rightarrow> 'u url_downloader \<Rightarrow> 'u url_downloader" where
  "post j s = s\<lparr>posted := posted s @ [j]\<rparr>"

definition OfflinePathExists :: "file_path \<Rightarrow> 'u \<Rightarrow> 'u url_downloader \<Rightarrow> 'u url_downloader" where
  "OfflinePathExists path url s = post (JobExists url path) s"

definition HandleNextTask ::
  "'u offline_lib \<Rightarrow> 'u url_downloader \<Rightarrow> 'u url_downloader option" where
  "HandleNextTask L s =
     (if working s then Some s
      else case tasks s of
        [] \<Rightarrow> Some s
      | (ty, url) # rest \<Rightarrow>
          let s = s\<lparr>working := True, tasks := rest\<rparr>;
              directory_path = OfflineURLDirectoryAbsolutePath L (base_directory s) url
          in (case ty of
                DELETE \<Rightarrow> Some (post (JobDelete url directory_path) s)
              | DOWNLOAD \<Rightarrow> do {
                  check (distiller s = None);
                  Some (OfflinePathExists directory_path url s) }))"

definition CancelDownloadOfflineURL :: "'u \<Rightarrow> 'u url_downloader \<Rightarrow> 'u url_downloader" where
  "CancelDownloadOfflineURL url s = s\<lparr>tasks := filter (\<lambda>t. t \<noteq> (DOWNLOAD, url)) (tasks s)\<rparr>"

definition RemoveOfflineURL ::
  "'u offline_lib \<Rightarrow> 'u \<Rightarrow> 'u url_downloader \<Rightarrow> 'u url_downloader option" where
  "RemoveOfflineURL L url s =
     (let s = CancelDownloadOfflineURL url s
      in HandleNextTask L (s\<lparr>tasks := tasks s @ [(DELETE, url)]\<rparr>))"

definition DownloadOfflineURL ::
  "'u offline_lib \<Rightarrow> 'u \<Rightarrow> 'u url_downloader \<Rightarrow> 'u url_downloader option" where
  "DownloadOfflineURL L url s =
     (if \<not> List.member (tasks s) (DOWNLOAD, url)
      then HandleNextTask L (s\<lparr>tasks := tasks s @ [(DOWNLOAD, url)]\<rparr>)
      else Some s)"

text \<open>\<open>CancelTask\<close> cancels the posted work and its replies, and drops the viewer.\<close>

definition CancelTask :: "'u url_downloader \<Rightarrow> 'u url_downloader" where
  "CancelTask s = s\<lparr>posted := [], replies := [], distiller := None\<rparr>"

section \<open>Completion\<close>

type_synonym 'u outcome = "('u completion list \<times> 'u url_downloader) option"

text \<open>The closure \<open>post_delete\<close> of \<open>DownloadCompletionHandler\<close>.\<close>

definition post_delete ::
  "'u offline_lib \<Rightarrow> 'u \<Rightarrow> string \<Rightarrow> file_path \<Rightarrow> success_state \<Rightarrow> 'u url_downloader \<Rightarrow> 'u outcome" where
  "post_delete L url title offline_path success s =
     map_option
       (Pair [DownloadCompletion url (distilled_url s) success offline_path (saved_size s) title])
       (HandleNextTask L (s\<lparr>distiller := None, working := False\<rparr>))"

definition DownloadCompletionHandler ::
  "'u offline_lib \<Rightarrow> 'u \<Rightarrow> string \<Rightarrow> file_path \<Rightarrow> success_state \<Rightarrow> 'u url_downloader \<Rightarrow> 'u outcome" where
  "DownloadCompletionHandler L url title offline_path success s = do {
     check (working s);
     if success = ERROR
     then Some ([], post (JobCleanUp (OfflineURLDirectoryAbsolutePath L (base_directory s) url)
                            url title offline_path success) s)
     else post_delete L url title offline_path success s }"

definition DeleteCompletionHandler ::
  "'u offline_lib \<Rightarrow> 'u \<Rightarrow> bool \<Rightarrow> 'u url_downloader \<Rightarrow> 'u outcome" where
  "DeleteCompletionHandler L url success s = do {
     check (working s);
     map_option (Pair [DeleteCompletion url success]) (HandleNextTask L (s\<lparr>working := False\<rparr>)) }"

section \<open>Downloading a page\<close>

definition DownloadURL ::
  "'u offline_lib \<Rightarrow> 'u \<Rightarrow> bool \<Rightarrow> 'u url_downloader \<Rightarrow> 'u outcome" where
  "DownloadURL L url offline_url_exists s =
     (if offline_url_exists then DownloadCompletionHandler L url [] [] DOWNLOAD_EXISTS s
      else do {
        viewer \<leftarrow> new_DistillerViewer (dl L) url;
        Some ([], s\<lparr>original_url := url, distilled_url := url, saved_size := 0,
                    distiller := Some viewer\<rparr>) })"

definition DistilledPageRedirectedToURL ::
  "'u \<Rightarrow> 'u \<Rightarrow> 'u url_downloader \<Rightarrow> 'u url_downloader option" where
  "DistilledPageRedirectedToURL page_url redirected_url s = do {
     check (original_url s = page_url);
     Some (s\<lparr>distilled_url := redirected_url\<rparr>) }"

definition DistilledPageHasMimeType ::
  "'u \<Rightarrow> string \<Rightarrow> 'u url_downloader \<Rightarrow> 'u url_downloader option" where
  "DistilledPageHasMimeType url mime s = do {
     check (original_url s = url);
     Some (s\<lparr>mime_type := mime\<rparr>) }"

definition FetchPDFFile :: "'u offline_lib \<Rightarrow> 'u url_downloader \<Rightarrow> 'u url_downloader" where
  "FetchPDFFile L s =
     (let pdf_url = (if is_valid (gurls L) (distilled_url s) then distilled_url s else original_url s)
      in s\<lparr>url_loader := Some \<lparr>ld_url = pdf_url, ld_loading = True\<rparr>\<rparr>)"

text \<open>\<open>response_info\<close> is the MIME type of \<open>url_loader_->ResponseInfo()\<close>, when there is one.\<close>

definition OnURLLoadComplete ::
  "'u offline_lib \<Rightarrow> 'u \<Rightarrow> file_path \<Rightarrow> string option \<Rightarrow> 'u url_downloader \<Rightarrow> 'u outcome" where
  "OnURLLoadComplete L url response_path response_info s = do {
     check (mime_type s = kPDFMimeType);
     check (url_loader s \<noteq> None);
     let path = OfflinePagePath L (original_url s) OFFLINE_TYPE_PDF;
         mime = (case response_info of Some m \<Rightarrow> m | None \<Rightarrow> [])
     in if response_path = [] \<or> mime \<noteq> mime_type s
        then DownloadCompletionHandler L (original_url s) [] path ERROR s
        else Some ([], (post (JobSavePDF response_path url path) s)\<lparr>url_loader := None\<rparr>) }"

definition DistillerCallback ::
  "'u offline_lib \<Rightarrow> 'u \<Rightarrow> string \<Rightarrow> 'u image_info list \<Rightarrow> string \<Rightarrow> 'u url_downloader \<Rightarrow> 'u outcome" where
  "DistillerCallback L page_url html images title s =
     (if html = [] then
        if mime_type s = kPDFMimeType then Some ([], FetchPDFFile L s)
        else DownloadCompletionHandler L page_url [] [] ERROR s
      else Some ([], post (JobSaveHTML page_url images html title
                             (OfflinePagePath L page_url OFFLINE_TYPE_HTML)) s))"

section \<open>Saving to the disk\<close>

definition CreateOfflineURLDirectory ::
  "'u offline_lib \<Rightarrow> 'fs file_lib \<Rightarrow> 'u \<Rightarrow> 'u url_downloader \<Rightarrow> 'fs \<Rightarrow> bool \<times> 'fs" where
  "CreateOfflineURLDirectory L F url s fs =
     (let directory_path = OfflineURLDirectoryAbsolutePath L (base_directory s) url
      in if \<not> DirectoryExists F directory_path fs
         then CreateDirectoryAndGetError F directory_path fs else (True, fs))"

text \<open>The size of the file that was just moved has to be readable: it is added to the total.\<close>

definition SavePDFFile ::
  "'u offline_lib \<Rightarrow> 'fs file_lib \<Rightarrow> file_path \<Rightarrow> 'u url_downloader \<Rightarrow> 'fs
   \<Rightarrow> (success_state \<times> 'u url_downloader \<times> 'fs) option" where
  "SavePDFFile L F temporary_path s fs =
     (let (created, fs) = CreateOfflineURLDirectory L F (original_url s) s fs
      in if created then
           let path = OfflinePagePath L (original_url s) OFFLINE_TYPE_PDF;
               absolute_path = OfflineURLAbsolutePathFromRelativePath L (base_directory s) path;
               (moved, fs) = Move F temporary_path absolute_path fs
           in if moved then do {
                pdf_file_size \<leftarrow> GetFileSize F absolute_path fs;
                Some (DOWNLOAD_SUCCESS, s\<lparr>saved_size := saved_size s + pdf_file_size\<rparr>, fs) }
              else Some (ERROR, s, fs)
         else Some (ERROR, s, fs))"

definition SaveImage ::
  "'u offline_lib \<Rightarrow> 'fs file_lib \<Rightarrow> 'u \<Rightarrow> 'u \<Rightarrow> string \<Rightarrow> 'u url_downloader \<Rightarrow> 'fs
   \<Rightarrow> bool \<times> string \<times> 'u url_downloader \<times> 'fs" where
  "SaveImage L F url image_url data s fs =
     (let image_hash = MD5String L (spec (gurls L) image_url);
          directory_path = OfflineURLDirectoryAbsolutePath L (base_directory s) url;
          path = Append L directory_path image_hash
      in if \<not> PathExists F path fs then
           let (written, fs) = WriteFile F path data fs
           in if written \<le> 0 then (False, image_hash, s, fs)
              else (True, image_hash, s\<lparr>saved_size := saved_size s + written\<rparr>, fs)
         else (True, image_hash, s, fs))"

text \<open>\<open>std::string::find\<close> and the loop that replaces every occurrence it finds.\<close>

definition find_str :: "string \<Rightarrow> string \<Rightarrow> nat \<Rightarrow> nat option" where
  "find_str pat s pos =
     (if pos \<le> length s
      then List.find (\<lambda>i. take (length pat) (drop i s) = pat) [pos..<Suc (length s)]
      else None)"

definition replace_str :: "string \<Rightarrow> nat \<Rightarrow> nat \<Rightarrow> string \<Rightarrow> string" where
  "replace_str s pos n r = take pos s @ r @ drop (pos + n) s"

partial_function (option) replace_loop ::
  "string \<Rightarrow> string \<Rightarrow> string \<Rightarrow> nat \<Rightarrow> bool \<Rightarrow> (string \<times> bool) option" where
  "replace_loop image_url local_name html from found =
     (case find_str image_url html from of
        None \<Rightarrow> Some (html, found)
      | Some pos \<Rightarrow>
          replace_loop image_url local_name
            (replace_str html pos (length image_url) local_name) (pos + length local_name) True)"

declare replace_loop.simps [code]

text \<open>
  The loop over the images. The accumulators are \<open>mutable_html\<close> and \<open>local_images_found\<close>; the result
  is \<^const>\<open>None\<close> inside when an image could not be saved (the code returns an empty string).
\<close>

definition save_one_image ::
  "'u offline_lib \<Rightarrow> 'fs file_lib \<Rightarrow> 'u \<Rightarrow> 'u image_info \<Rightarrow> 'u url_downloader \<Rightarrow> 'fs
   \<Rightarrow> bool \<times> string \<times> 'u url_downloader \<times> 'fs" where
  "save_one_image L F url img s fs =
     (let image_is_mixed_content = is_cryptographic L (distilled_url s) \<and>
                                   \<not> is_cryptographic L (img_url img)
      in if \<not> image_is_mixed_content \<and> is_valid (gurls L) (img_url img) \<and> img_data img \<noteq> []
         then SaveImage L F url (img_url img) (img_data img) s fs
         else (True, [], s, fs))"

fun replace_images ::
  "'u offline_lib \<Rightarrow> 'fs file_lib \<Rightarrow> 'u \<Rightarrow> 'u image_info list \<Rightarrow> string \<Rightarrow> bool
   \<Rightarrow> 'u url_downloader \<Rightarrow> 'fs \<Rightarrow> ((string \<times> bool) option \<times> 'u url_downloader \<times> 'fs) option" where
  "replace_images L F url [] html found s fs = Some (Some (html, found), s, fs)"
| "replace_images L F url (img # images) html found s fs =
     (if scheme_is (gurls L) kDataScheme (img_url img)
      then replace_images L F url images html found s fs
      else let (saved, local_image_name, s, fs) = save_one_image L F url img s fs
           in if \<not> saved then Some (None, s, fs)
              else do {
                (html, found) \<leftarrow>
                  replace_loop (EscapeForHTML L (spec (gurls L) (img_url img)))
                    local_image_name html 0 found;
                replace_images L F url images html found s fs })"

definition SaveAndReplaceImagesInHTML ::
  "'u offline_lib \<Rightarrow> 'fs file_lib \<Rightarrow> 'u \<Rightarrow> string \<Rightarrow> 'u image_info list \<Rightarrow> 'u url_downloader \<Rightarrow> 'fs
   \<Rightarrow> (string \<times> 'u url_downloader \<times> 'fs) option" where
  "SaveAndReplaceImagesInHTML L F url html images s fs = do {
     (result, s, fs) \<leftarrow> replace_images L F url images html False s fs;
     Some (case result of
             None \<Rightarrow> []
           | Some (html, local_images_found) \<Rightarrow>
               (if local_images_found then html @ kDisableImageContextMenuScript else html), s, fs) }"

definition SaveHTMLForURL ::
  "'u offline_lib \<Rightarrow> 'fs file_lib \<Rightarrow> string \<Rightarrow> 'u \<Rightarrow> 'u url_downloader \<Rightarrow> 'fs
   \<Rightarrow> bool \<times> 'u url_downloader \<times> 'fs" where
  "SaveHTMLForURL L F html url s fs =
     (if html = [] then (False, s, fs)
      else let path = OfflineURLAbsolutePathFromRelativePath L (base_directory s)
                        (OfflinePagePath L url OFFLINE_TYPE_HTML);
               (written, fs) = WriteFile F path html fs
           in if written \<le> 0 then (False, s, fs)
              else (True, s\<lparr>saved_size := saved_size s + written\<rparr>, fs))"

definition SaveDistilledHTML ::
  "'u offline_lib \<Rightarrow> 'fs file_lib \<Rightarrow> 'u \<Rightarrow> 'u image_info list \<Rightarrow> string \<Rightarrow> 'u url_downloader \<Rightarrow> 'fs
   \<Rightarrow> (success_state \<times> 'u url_downloader \<times> 'fs) option" where
  "SaveDistilledHTML L F url images html s fs =
     (let (created, fs) = CreateOfflineURLDirectory L F url s fs
      in if created then do {
           (html, s, fs) \<leftarrow> SaveAndReplaceImagesInHTML L F url html images s fs;
           let (saved, s, fs) = SaveHTMLForURL L F html url s fs
           in Some (if saved then DOWNLOAD_SUCCESS else ERROR, s, fs) }
         else Some (ERROR, s, fs))"

section \<open>The background sequence and the events\<close>

fun run_job ::
  "'u offline_lib \<Rightarrow> 'fs file_lib \<Rightarrow> 'u job \<Rightarrow> 'u url_downloader \<Rightarrow> 'fs
   \<Rightarrow> ('u reply \<times> 'u url_downloader \<times> 'fs) option" where
  "run_job L F (JobDelete url path) s fs =
     (let (deleted, fs) = DeleteFile F path fs in Some (ReplyDelete url deleted, s, fs))"
| "run_job L F (JobExists url path) s fs = Some (ReplyExists url (PathExists F path fs), s, fs)"
| "run_job L F (JobCleanUp directory url title path success) s fs =
     Some (ReplyCleaned url title path success, s, snd (DeleteFile F directory fs))"
| "run_job L F (JobSavePDF temporary_path url path) s fs =
     map_option (map_prod (ReplySaved url [] path) id) (SavePDFFile L F temporary_path s fs)"
| "run_job L F (JobSaveHTML url images html title path) s fs =
     map_option (map_prod (ReplySaved url title path) id) (SaveDistilledHTML L F url images html s fs)"

fun run_reply :: "'u offline_lib \<Rightarrow> 'u reply \<Rightarrow> 'u url_downloader \<Rightarrow> 'u outcome" where
  "run_reply L (ReplyDelete url success) s = DeleteCompletionHandler L url success s"
| "run_reply L (ReplyExists url exists) s = DownloadURL L url exists s"
| "run_reply L (ReplyCleaned url title path success) s = post_delete L url title path success s"
| "run_reply L (ReplySaved url title path success) s = DownloadCompletionHandler L url title path success s"

text \<open>
  One event: a call of a client, the next piece of background work, the next reply, a notification
  of the page being distilled, the distilled article, the end of the PDF request.
\<close>

datatype 'u dl_event =
    Download 'u | CancelDownload 'u | Remove 'u | Cancel
  | RunJob | RunReply
  | Redirected 'u | HasMimeType string | Distilled article_proto
  | Loaded file_path "string option"

fun dl_enabled :: "'u dl_event \<Rightarrow> 'u url_downloader \<Rightarrow> bool" where
  "dl_enabled RunJob s = (posted s \<noteq> [])"
| "dl_enabled RunReply s = (replies s \<noteq> [])"
| "dl_enabled (Redirected u) s = (case distiller s of Some v \<Rightarrow> dv_distilling v | None \<Rightarrow> False)"
| "dl_enabled (HasMimeType m) s = (case distiller s of Some v \<Rightarrow> dv_distilling v | None \<Rightarrow> False)"
| "dl_enabled (Distilled a) s = (case distiller s of Some v \<Rightarrow> dv_distilling v | None \<Rightarrow> False)"
| "dl_enabled (Loaded p i) s = (case url_loader s of Some l \<Rightarrow> ld_loading l | None \<Rightarrow> False)"
| "dl_enabled _ s = True"

definition on_article ::
  "'u offline_lib \<Rightarrow> article_proto \<Rightarrow> 'u url_downloader \<Rightarrow> 'u outcome" where
  "on_article L a s = do {
     v \<leftarrow> distiller s;
     let ((url, html, images, title), v) = OnDistillerFinished (dl L) a v
     in DistillerCallback L url html images title (s\<lparr>distiller := Some v\<rparr>) }"

definition on_loaded ::
  "'u offline_lib \<Rightarrow> file_path \<Rightarrow> string option \<Rightarrow> 'u url_downloader \<Rightarrow> 'u outcome" where
  "on_loaded L path info s = do {
     l \<leftarrow> url_loader s;
     OnURLLoadComplete L (ld_url l) path info (s\<lparr>url_loader := Some (l\<lparr>ld_loading := False\<rparr>)\<rparr>) }"

fun dl_front :: "'u offline_lib \<Rightarrow> 'u dl_event \<Rightarrow> 'u url_downloader \<Rightarrow> 'u outcome" where
  "dl_front L (Download url) s = map_option (Pair []) (DownloadOfflineURL L url s)"
| "dl_front L (CancelDownload url) s = Some ([], CancelDownloadOfflineURL url s)"
| "dl_front L (Remove url) s = map_option (Pair []) (RemoveOfflineURL L url s)"
| "dl_front L Cancel s = Some ([], CancelTask s)"
| "dl_front L RunReply s =
     (case replies s of [] \<Rightarrow> None | r # rs \<Rightarrow> run_reply L r (s\<lparr>replies := rs\<rparr>))"
| "dl_front L (Redirected url) s = do {
     v \<leftarrow> distiller s;
     map_option (Pair []) (DistilledPageRedirectedToURL (dv_url v) url s) }"
| "dl_front L (HasMimeType m) s = do {
     v \<leftarrow> distiller s;
     map_option (Pair []) (DistilledPageHasMimeType (dv_url v) m s) }"
| "dl_front L (Distilled a) s = on_article L a s"
| "dl_front L (Loaded path info) s = on_loaded L path info s"
| "dl_front L RunJob s = None"

fun dl_step ::
  "'u offline_lib \<Rightarrow> 'fs file_lib \<Rightarrow> 'u dl_event \<Rightarrow> 'u url_downloader \<times> 'fs
   \<Rightarrow> ('u completion list \<times> 'u url_downloader \<times> 'fs) option" where
  "dl_step L F RunJob (s, fs) =
     (case posted s of
        [] \<Rightarrow> None
      | j # js \<Rightarrow> do {
          (r, s, fs) \<leftarrow> run_job L F j (s\<lparr>posted := js\<rparr>) fs;
          Some ([], s\<lparr>replies := replies s @ [r]\<rparr>, fs) })"
| "dl_step L F ev (s, fs) = map_option (\<lambda>(out, s). (out, s, fs)) (dl_front L ev s)"

end
