(* ===== verification/Event_Machine.thy ===== *)
theory Event_Machine
  imports Prelude
begin

text \<open>
  Components that react to events: callbacks, posted tasks, user actions. A step that returns
  \<open>None\<close> fails an assertion. The first interface promises that no event the environment may send
  fails and that an invariant is kept; the second says which events can ask a component for work.
\<close>

fun run_events :: "('e \<Rightarrow> 's \<Rightarrow> 's option) \<Rightarrow> 'e list \<Rightarrow> 's \<Rightarrow> 's option" where
  "run_events step [] s = Some s"
| "run_events step (e # es) s = Option.bind (step e s) (run_events step es)"

text \<open>Every event is one the environment may send in the state it meets.\<close>

fun allowed_run :: "('e \<Rightarrow> 's \<Rightarrow> bool) \<Rightarrow> ('e \<Rightarrow> 's \<Rightarrow> 's option) \<Rightarrow> 'e list \<Rightarrow> 's \<Rightarrow> bool" where
  "allowed_run allowed step [] s \<longleftrightarrow> True"
| "allowed_run allowed step (e # es) s \<longleftrightarrow>
     allowed e s \<and> (case step e s of None \<Rightarrow> True | Some s' \<Rightarrow> allowed_run allowed step es s')"

lemma run_events_append:
  "run_events step (es @ fs) s = Option.bind (run_events step es s) (run_events step fs)"
  by (induction es arbitrary: s) (auto split: bind_splits)

lemma run_events_total: "run_events (\<lambda>e s. Some (f e s)) es s = Some (fold f es s)"
  by (induction es arbitrary: s) simp_all

lemma allowed_run_always: "(\<And>e s. allowed e s) \<Longrightarrow> allowed_run allowed step es s"
  by (induction es arbitrary: s) (auto split: option.splits)

text \<open>A run keeps to a narrower rule up to its end or up to the first event that breaks it.\<close>

lemma allowed_run_split:
  assumes "allowed_run allowed step es s"
  obtains "allowed_run good step es s"
  | pre e post s' where "es = pre @ e # post" "run_events step pre s = Some s'" "allowed_run good step pre s"
      "allowed e s'" "\<not> good e s'"
proof -
  have "allowed_run good step es s \<or> (\<exists>pre e post s'. es = pre @ e # post \<and> run_events step pre s = Some s' \<and>
      allowed_run good step pre s \<and> allowed e s' \<and> \<not> good e s')"
    using assms
  proof (induction es arbitrary: s)
    case (Cons e es)
    show ?case
    proof (cases "good e s")
      case False
      with Cons.prems show ?thesis by (intro disjI2 exI [of _ "[]"] exI [of _ e] exI [of _ es]) auto
    next
      case True
      show ?thesis
      proof (cases "step e s")
        case (Some t)
        with Cons consider "allowed_run good step es t"
          | pre e' post s' where "es = pre @ e' # post" "run_events step pre t = Some s'"
              "allowed_run good step pre t" "allowed e' s'" "\<not> good e' s'" by auto blast
        then show ?thesis
        proof cases
          case 2
          with True Some show ?thesis
            by (intro disjI2 exI [of _ "e # pre"] exI [of _ e'] exI [of _ post] exI [of _ s']) auto
        qed (use True Some in simp)
      qed (use True in simp)
    qed
  qed simp
  with that show thesis by blast
qed

locale event_machine =
  fixes allowed :: "'e \<Rightarrow> 's \<Rightarrow> bool" and step :: "'e \<Rightarrow> 's \<Rightarrow> 's option" and inv :: "'s \<Rightarrow> bool"
  assumes step_ok: "inv s \<Longrightarrow> allowed e s \<Longrightarrow> \<exists>s'. step e s = Some s' \<and> inv s'"
begin

lemma run_ok: "inv s \<Longrightarrow> allowed_run allowed step es s \<Longrightarrow> \<exists>s'. run_events step es s = Some s' \<and> inv s'"
proof (induction es arbitrary: s)
  case (Cons e es)
  with step_ok [of s e] obtain s' where "step e s = Some s'" "inv s'" by auto
  with Cons show ?case by simp
qed simp

text \<open>A quantity that no step decreases is not decreased by a run.\<close>

lemma run_mono:
  fixes f :: "'s \<Rightarrow> 'a::preorder"
  assumes "\<And>e s s'. inv s \<Longrightarrow> allowed e s \<Longrightarrow> step e s = Some s' \<Longrightarrow> f s \<le> f s'"
    and "inv s" "allowed_run allowed step es s" "run_events step es s = Some s'"
  shows "f s \<le> f s'"
  using assms(2-)
proof (induction es arbitrary: s)
  case (Cons e es)
  with step_ok [of s e] obtain t where t: "step e s = Some t" "inv t" by auto
  with Cons have "f t \<le> f s'" by simp
  moreover have "f s \<le> f t" using assms(1) t Cons.prems by auto
  ultimately show ?case by (rule order_trans [rotated])
qed simp

end

locale request_machine =
  fixes step :: "'e \<Rightarrow> 's \<Rightarrow> 's option" and pending :: "'u \<Rightarrow> 's \<Rightarrow> bool" and requests :: "'e \<Rightarrow> 'u \<Rightarrow> bool"
  assumes step_requests: "step e s = Some s' \<Longrightarrow> pending u s' \<Longrightarrow> pending u s \<or> requests e u"
begin

lemma run_requests:
  "run_events step es s = Some s' \<Longrightarrow> pending u s' \<Longrightarrow> pending u s \<or> (\<exists>e \<in> set es. requests e u)"
proof (induction es arbitrary: s)
  case (Cons e es)
  then obtain t where t: "step e s = Some t" "run_events step es t = Some s'" by (auto split: bind_splits)
  from Cons.IH [OF t(2) Cons.prems(2)] step_requests [OF t(1), of u] show ?case by auto
qed simp

end

end
