(* ===== verification/Url_Downloader_Props.thy ===== *)
theory Url_Downloader_Props
  imports Url_Downloader Event_Machine
begin

text \<open>
  Properties of the offline page downloader: its invariant over every interleaving of clients,
  background work and pages, the refinement of a queue of tasks, the order of downloads and
  deletions of one URL, and the replacement of image references in a saved page.
\<close>

section \<open>The work in flight\<close>

definition distilling :: "'u url_downloader \<Rightarrow> bool" where
  "distilling s = (case distiller s of Some v \<Rightarrow> dv_distilling v | None \<Rightarrow> False)"

definition loading :: "'u url_downloader \<Rightarrow> bool" where
  "loading s = (case url_loader s of Some l \<Rightarrow> ld_loading l | None \<Rightarrow> False)"

definition in_flight :: "'u url_downloader \<Rightarrow> nat" where
  "in_flight s = length (posted s) + length (replies s) + of_bool (distilling s) + of_bool (loading s)"

fun job_ok :: "'u offline_lib \<Rightarrow> 'u url_downloader \<Rightarrow> 'u job \<Rightarrow> bool" where
  "job_ok L s (JobDelete u p) = (distiller s = None)"
| "job_ok L s (JobExists u p) = (distiller s = None \<and> is_valid (gurls L) u)"
| "job_ok L s _ = True"

fun reply_ok :: "'u offline_lib \<Rightarrow> 'u url_downloader \<Rightarrow> 'u reply \<Rightarrow> bool" where
  "reply_ok L s (ReplyDelete u b) = (distiller s = None)"
| "reply_ok L s (ReplyExists u b) = (distiller s = None \<and> is_valid (gurls L) u)"
| "reply_ok L s _ = True"

text \<open>
  At most one operation is under way and none is while the downloader is not working; a downloader
  that is not working has nothing to do. With \<open>c\<close> false no task was cancelled from outside, and a
  working downloader has exactly one operation under way.
\<close>

definition dl_inv :: "'u offline_lib \<Rightarrow> bool \<Rightarrow> 'u url_downloader \<Rightarrow> bool" where
  "dl_inv L c s \<longleftrightarrow>
     in_flight s \<le> 1 \<and>
     (\<not> c \<longrightarrow> working s \<longrightarrow> in_flight s = 1) \<and>
     (\<not> working s \<longrightarrow> tasks s = [] \<and> in_flight s = 0 \<and> distiller s = None) \<and>
     (\<forall>v. distiller s = Some v \<longrightarrow> dv_url v = original_url s) \<and>
     (loading s \<longrightarrow> mime_type s = kPDFMimeType) \<and>
     (\<forall>t\<in>set (tasks s). is_valid (gurls L) (snd t)) \<and>
     list_all (job_ok L s) (posted s) \<and> list_all (reply_ok L s) (replies s)"

lemmas flight_defs = in_flight_def distilling_def loading_def

section \<open>The queue behind the downloader\<close>

fun job_task :: "'u url_downloader \<Rightarrow> 'u job \<Rightarrow> 'u task" where
  "job_task s (JobDelete u p) = (DELETE, u)"
| "job_task s (JobExists u p) = (DOWNLOAD, u)"
| "job_task s _ = (DOWNLOAD, original_url s)"

fun reply_task :: "'u url_downloader \<Rightarrow> 'u reply \<Rightarrow> 'u task" where
  "reply_task s (ReplyDelete u b) = (DELETE, u)"
| "reply_task s (ReplyExists u b) = (DOWNLOAD, u)"
| "reply_task s _ = (DOWNLOAD, original_url s)"

definition current_task :: "'u url_downloader \<Rightarrow> 'u task list" where
  "current_task s =
     (if \<not> working s then []
      else [case posted s of
              j # _ \<Rightarrow> job_task s j
            | [] \<Rightarrow> (case replies s of r # _ \<Rightarrow> reply_task s r | [] \<Rightarrow> (DOWNLOAD, original_url s))])"

definition task_queue :: "'u url_downloader \<Rightarrow> 'u task list" where
  "task_queue s = current_task s @ tasks s"

text \<open>
  The specification: the head of the queue is the task under way, requests act on the rest, and a
  completion removes the head.
\<close>

fun request :: "'u dl_event \<Rightarrow> 'u task list \<Rightarrow> 'u task list" where
  "request (Download u) q = (if (DOWNLOAD, u) \<in> set (tl q) then q else q @ [(DOWNLOAD, u)])"
| "request (CancelDownload u) q = take 1 q @ filter (\<lambda>t. t \<noteq> (DOWNLOAD, u)) (tl q)"
| "request (Remove u) q = take 1 q @ filter (\<lambda>t. t \<noteq> (DOWNLOAD, u)) (tl q) @ [(DELETE, u)]"
| "request _ q = q"

fun completes :: "'u completion \<Rightarrow> 'u task \<Rightarrow> bool" where
  "completes (DeleteCompletion u b) t = (t = (DELETE, u))"
| "completes (DownloadCompletion u d r p n ti) t = (fst t = DOWNLOAD)"

definition dl_good ::
  "'u offline_lib \<Rightarrow> bool \<Rightarrow> 'u task list \<Rightarrow> 'u outcome \<Rightarrow> bool" where
  "dl_good L c q res \<longleftrightarrow>
     (\<exists>outs s'. res = Some (outs, s') \<and> dl_inv L c s' \<and>
        (\<not> c \<longrightarrow> task_queue s' = drop (length outs) q \<and>
               (outs = [] \<or> (\<exists>o'. outs = [o'] \<and> q \<noteq> [] \<and> completes o' (hd q)))))"

lemma dl_good_Some:
  "dl_good L c q (Some ([], s')) \<longleftrightarrow> dl_inv L c s' \<and> (\<not> c \<longrightarrow> task_queue s' = q)"
  by (auto simp: dl_good_def)

section \<open>Every operation keeps the invariant and follows the queue\<close>

lemma HandleNextTask_idle:
  assumes "\<not> working s" "posted s = []" "replies s = []" "\<not> loading s" "distiller s = None"
    "\<forall>t\<in>set (tasks s). is_valid (gurls L) (snd t)"
  shows "\<exists>s'. HandleNextTask L s = Some s' \<and> dl_inv L c s' \<and> task_queue s' = tasks s"
proof (cases "tasks s")
  case Nil
  with assms show ?thesis
    by (auto simp: HandleNextTask_def dl_inv_def task_queue_def current_task_def flight_defs)
next
  case (Cons t ts)
  then obtain ty u where "t = (ty, u)" by fastforce
  with Cons assms show ?thesis
    by (cases ty)
       (auto simp: HandleNextTask_def dl_inv_def task_queue_def current_task_def flight_defs
                   OfflinePathExists_def post_def Let_def split: option.splits)
qed

lemma post_delete_good:
  assumes "posted s = []" "replies s = []" "\<not> loading s"
    "\<forall>t\<in>set (tasks s). is_valid (gurls L) (snd t)"
  shows "dl_good L c ((DOWNLOAD, w) # tasks s) (post_delete L url title path success s)"
proof -
  have "\<exists>s'. HandleNextTask L (s\<lparr>distiller := None, working := False\<rparr>) = Some s' \<and> dl_inv L c s' \<and>
      task_queue s' = tasks s"
    using HandleNextTask_idle [of "s\<lparr>distiller := None, working := False\<rparr>" L c] assms
    by (simp add: loading_def)
  then show ?thesis by (auto simp: dl_good_def post_delete_def)
qed

lemma DownloadCompletionHandler_good:
  assumes "posted s = []" "replies s = []" "\<not> loading s" "\<not> distilling s" "working s"
    "\<forall>t\<in>set (tasks s). is_valid (gurls L) (snd t)"
    "\<forall>v. distiller s = Some v \<longrightarrow> dv_url v = original_url s"
    "success = ERROR \<Longrightarrow> w = original_url s"
  shows "dl_good L c ((DOWNLOAD, w) # tasks s) (DownloadCompletionHandler L url title path success s)"
proof (cases "success = ERROR")
  case True
  with assms show ?thesis
    by (auto simp: DownloadCompletionHandler_def dl_good_Some post_def dl_inv_def flight_defs
                   task_queue_def current_task_def)
next
  case False
  with assms show ?thesis
    by (simp add: DownloadCompletionHandler_def post_delete_good)
qed

lemma DeleteCompletionHandler_good:
  assumes "posted s = []" "replies s = []" "\<not> loading s" "working s" "distiller s = None"
    "\<forall>t\<in>set (tasks s). is_valid (gurls L) (snd t)"
  shows "dl_good L c ((DELETE, u) # tasks s) (DeleteCompletionHandler L u b s)"
proof -
  have "\<exists>s'. HandleNextTask L (s\<lparr>working := False\<rparr>) = Some s' \<and> dl_inv L c s' \<and>
      task_queue s' = tasks s"
    using HandleNextTask_idle [of "s\<lparr>working := False\<rparr>" L c] assms by (simp add: loading_def)
  then show ?thesis using assms by (auto simp: dl_good_def DeleteCompletionHandler_def)
qed

lemma DownloadURL_good:
  assumes "posted s = []" "replies s = []" "\<not> loading s" "working s" "distiller s = None"
    "\<forall>t\<in>set (tasks s). is_valid (gurls L) (snd t)" "is_valid (gurls L) u"
  shows "dl_good L c ((DOWNLOAD, u) # tasks s) (DownloadURL L u b s)"
proof (cases b)
  case True
  with assms show ?thesis
    by (auto simp: DownloadURL_def distilling_def intro!: DownloadCompletionHandler_good)
next
  case False
  with assms show ?thesis
    by (auto simp: DownloadURL_def dl_good_Some dl_inv_def flight_defs task_queue_def current_task_def)
qed

lemma dl_invD:
  assumes "dl_inv L c s"
  shows "in_flight s \<le> 1" "\<not> working s \<Longrightarrow> tasks s = [] \<and> in_flight s = 0 \<and> distiller s = None"
    "distiller s = Some v \<Longrightarrow> dv_url v = original_url s" "loading s \<Longrightarrow> mime_type s = kPDFMimeType"
    "\<forall>t\<in>set (tasks s). is_valid (gurls L) (snd t)"
    "list_all (job_ok L s) (posted s)" "list_all (reply_ok L s) (replies s)"
    "\<not> c \<Longrightarrow> working s \<Longrightarrow> in_flight s = 1"
  using assms by (auto simp: dl_inv_def)

lemma working_if_flight: "dl_inv L c s \<Longrightarrow> 0 < in_flight s \<Longrightarrow> working s"
  by (auto simp: dl_inv_def)

lemma run_reply_good:
  assumes inv: "dl_inv L c s" and r: "replies s = r # rs"
  shows "dl_good L c (task_queue s) (run_reply L r (s\<lparr>replies := rs\<rparr>))"
proof -
  have fl: "posted s = []" "rs = []" "\<not> distilling s" "\<not> loading s"
    using dl_invD(1) [OF inv] r by (auto simp: in_flight_def split: if_splits)
  have w: "working s" using working_if_flight [OF inv] r by (simp add: in_flight_def)
  have q: "task_queue s = reply_task s r # tasks s"
    using fl w r by (simp add: task_queue_def current_task_def)
  have ok: "reply_ok L s r" using dl_invD(7) [OF inv] r by simp
  show ?thesis
    unfolding q
  proof (cases r)
    case (ReplySaved u ti p su)
    then show "dl_good L c (reply_task s r # tasks s) (run_reply L r (s\<lparr>replies := rs\<rparr>))"
      using DownloadCompletionHandler_good [of "s\<lparr>replies := rs\<rparr>" L su "original_url s" c u ti p]
        fl w dl_invD(3,5) [OF inv] by (auto simp: distilling_def loading_def)
  next
    case (ReplyCleaned u ti p su)
    then show "dl_good L c (reply_task s r # tasks s) (run_reply L r (s\<lparr>replies := rs\<rparr>))"
      using post_delete_good [of "s\<lparr>replies := rs\<rparr>" L c "original_url s" u ti p su]
        fl w dl_invD(5) [OF inv] by (auto simp: loading_def)
  next
    case (ReplyExists u b)
    then show "dl_good L c (reply_task s r # tasks s) (run_reply L r (s\<lparr>replies := rs\<rparr>))"
      using DownloadURL_good [of "s\<lparr>replies := rs\<rparr>" L u c b] ok
        fl w dl_invD(5) [OF inv] by (auto simp: loading_def)
  next
    case (ReplyDelete u b)
    then show "dl_good L c (reply_task s r # tasks s) (run_reply L r (s\<lparr>replies := rs\<rparr>))"
      using DeleteCompletionHandler_good [of "s\<lparr>replies := rs\<rparr>" L c u b] ok
        fl w dl_invD(5) [OF inv] by (auto simp: loading_def)
  qed
qed

lemma ok_cong:
  assumes "distiller s' = distiller s"
  shows "job_ok L s' j = job_ok L s j" "reply_ok L s' r = reply_ok L s r"
  by (cases j; simp add: assms) (cases r; simp add: assms)

lemma task_cong:
  assumes "original_url s' = original_url s"
  shows "job_task s' j = job_task s j" "reply_task s' r = reply_task s r"
  by (cases j; simp add: assms) (cases r; simp add: assms)

lemma ok_tasks [simp]:
  "job_ok L (s\<lparr>tasks := ts\<rparr>) = job_ok L s" "reply_ok L (s\<lparr>tasks := ts\<rparr>) = reply_ok L s"
  by (auto intro!: ok_cong)

lemma task_tasks [simp]:
  "job_task (s\<lparr>tasks := ts\<rparr>) = job_task s" "reply_task (s\<lparr>tasks := ts\<rparr>) = reply_task s"
  by (auto intro!: task_cong)

lemma current_task_tasks [simp]: "current_task (s\<lparr>tasks := ts\<rparr>) = current_task s"
  by (simp add: current_task_def split: list.splits)

lemma dl_inv_tasks:
  assumes "dl_inv L c s" "working s \<or> ts = []" "\<forall>t\<in>set ts. is_valid (gurls L) (snd t)"
  shows "dl_inv L c (s\<lparr>tasks := ts\<rparr>)"
  using assms by (auto simp: dl_inv_def flight_defs)

lemma enqueue_good:
  assumes inv: "dl_inv L c s" and v: "is_valid (gurls L) (snd t)"
    and sub: "set ts \<subseteq> set (tasks s)" and q: "q = current_task s @ ts @ [t]"
  shows "dl_good L c q (map_option (Pair []) (HandleNextTask L (s\<lparr>tasks := ts @ [t]\<rparr>)))"
proof (cases "working s")
  case True
  have "dl_inv L c (s\<lparr>tasks := ts @ [t]\<rparr>)"
    using v sub dl_invD(5) [OF inv] True by (intro dl_inv_tasks [OF inv]) auto
  then show ?thesis
    using True q by (simp add: HandleNextTask_def dl_good_Some task_queue_def)
next
  case False
  from dl_invD(2) [OF inv False]
  have i: "posted s = []" "replies s = []" "\<not> loading s" "distiller s = None" "ts = []"
    using sub by (auto simp: in_flight_def split: if_splits)
  have "\<exists>s'. HandleNextTask L (s\<lparr>tasks := [t]\<rparr>) = Some s' \<and> dl_inv L c s' \<and> task_queue s' = [t]"
    using HandleNextTask_idle [of "s\<lparr>tasks := [t]\<rparr>" L c] i v False by (simp add: loading_def)
  then show ?thesis
    using i(5) False q by (auto simp: dl_good_def current_task_def)
qed

lemma current_task_Nil: "dl_inv L c s \<Longrightarrow> current_task s = [] \<Longrightarrow> tasks s = []"
  by (auto simp: current_task_def dl_inv_def split: if_splits)

lemma task_queue_tl:
  assumes "dl_inv L c s"
  shows "tl (task_queue s) = tasks s" "take 1 (task_queue s) = current_task s"
  using current_task_Nil [OF assms] by (auto simp: task_queue_def current_task_def)

lemma client_good:
  assumes inv: "dl_inv L c s"
  shows "is_valid (gurls L) u \<Longrightarrow> dl_good L c (request (Download u) (task_queue s)) (dl_front L (Download u) s)"
    "is_valid (gurls L) u \<Longrightarrow> dl_good L c (request (Remove u) (task_queue s)) (dl_front L (Remove u) s)"
    "dl_good L c (request (CancelDownload u) (task_queue s)) (dl_front L (CancelDownload u) s)"
proof -
  note tl = task_queue_tl [OF inv]
  show "dl_good L c (request (Download u) (task_queue s)) (dl_front L (Download u) s)"
    if "is_valid (gurls L) u"
  proof (cases "(DOWNLOAD, u) \<in> set (tasks s)")
    case True
    then show ?thesis
      using tl inv by (simp add: DownloadOfflineURL_def dl_good_Some)
  next
    case False
    with enqueue_good [OF inv, of "(DOWNLOAD, u)" "tasks s"] that tl show ?thesis
      by (simp add: DownloadOfflineURL_def task_queue_def)
  qed
  show "dl_good L c (request (Remove u) (task_queue s)) (dl_front L (Remove u) s)"
    if "is_valid (gurls L) u"
    using enqueue_good [OF inv, of "(DELETE, u)" "filter (\<lambda>t. t \<noteq> (DOWNLOAD, u)) (tasks s)"] that tl
    by (simp add: RemoveOfflineURL_def CancelDownloadOfflineURL_def Let_def del: One_nat_def)
  show "dl_good L c (request (CancelDownload u) (task_queue s)) (dl_front L (CancelDownload u) s)"
  proof -
    have "working s \<or> tasks s = []" using dl_invD(2) [OF inv] by blast
    then have "dl_inv L c (s\<lparr>tasks := filter (\<lambda>t. t \<noteq> (DOWNLOAD, u)) (tasks s)\<rparr>)"
      using dl_invD(5) [OF inv] by (intro dl_inv_tasks [OF inv]) auto
    with tl show ?thesis
      by (simp add: CancelDownloadOfflineURL_def dl_good_Some task_queue_def del: One_nat_def)
  qed
qed

lemma CancelTask_inv: "dl_inv L True s \<Longrightarrow> dl_inv L True (CancelTask s)"
  by (auto simp: dl_inv_def CancelTask_def flight_defs)

text \<open>The notifications of the page that is being distilled.\<close>

lemma distilling_flight:
  assumes "dl_inv L c s" "distilling s"
  obtains v where "posted s = []" "replies s = []" "\<not> loading s" "working s"
    "distiller s = Some v" "dv_distilling v" "dv_url v = original_url s"
    "task_queue s = (DOWNLOAD, original_url s) # tasks s"
proof -
  have fl: "posted s = []" "replies s = []" "\<not> loading s"
    using dl_invD(1) [OF assms(1)] assms(2) by (auto simp: in_flight_def split: if_splits)
  have w: "working s" using working_if_flight [OF assms(1)] assms(2) by (simp add: in_flight_def)
  obtain v where v: "distiller s = Some v" "dv_distilling v"
    using assms(2) by (auto simp: distilling_def split: option.splits)
  have "task_queue s = (DOWNLOAD, original_url s) # tasks s"
    using fl w by (simp add: task_queue_def current_task_def)
  with that fl w v dl_invD(3) [OF assms(1) v(1)] show thesis by blast
qed

lemma page_good:
  assumes inv: "dl_inv L c s" and d: "distilling s"
  shows "dl_good L c (task_queue s) (dl_front L (Redirected u) s)"
    "dl_good L c (task_queue s) (dl_front L (HasMimeType m) s)"
proof -
  from inv d obtain v where v: "posted s = []" "replies s = []" "\<not> loading s" "working s"
    "distiller s = Some v" "dv_distilling v" "dv_url v = original_url s"
    "task_queue s = (DOWNLOAD, original_url s) # tasks s"
    by (rule distilling_flight)
  then show "dl_good L c (task_queue s) (dl_front L (Redirected u) s)"
    "dl_good L c (task_queue s) (dl_front L (HasMimeType m) s)"
    using inv
    by (auto simp: DistilledPageRedirectedToURL_def DistilledPageHasMimeType_def dl_good_Some
                   dl_inv_def flight_defs task_queue_def current_task_def)
qed

lemma article_good:
  assumes inv: "dl_inv L c s" and d: "distilling s"
  shows "dl_good L c (task_queue s) (on_article L a s)"
proof -
  from inv d obtain v where v: "posted s = []" "replies s = []" "\<not> loading s" "working s"
    "distiller s = Some v" "dv_distilling v" "dv_url v = original_url s"
    and q: "task_queue s = (DOWNLOAD, original_url s) # tasks s"
    by (rule distilling_flight)
  obtain url html images title v' where
    f: "OnDistillerFinished (dl L) a v = ((url, html, images, title), v')"
    by (metis prod.exhaust)
  have v': "\<not> dv_distilling v'" "dv_url v' = original_url s" and u: "url = original_url s"
    using OnDistillerFinished_viewer [of "dl L" a v] OnDistillerFinished_url [of "dl L" a v] f v(7)
    by simp_all
  let ?s = "s\<lparr>distiller := Some v'\<rparr>"
  have s: "posted ?s = []" "replies ?s = []" "\<not> loading ?s" "\<not> distilling ?s" "working ?s"
    "\<forall>t\<in>set (tasks ?s). is_valid (gurls L) (snd t)" "\<forall>v. distiller ?s = Some v \<longrightarrow> dv_url v = original_url ?s"
    using v v' dl_invD(5) [OF inv] by (auto simp: flight_defs)
  consider "html = []" "mime_type s = kPDFMimeType" | "html = []" "mime_type s \<noteq> kPDFMimeType"
    | "html \<noteq> []" by blast
  then have "dl_good L c ((DOWNLOAD, original_url s) # tasks s) (DistillerCallback L url html images title ?s)"
  proof cases
    case 1
    with s show ?thesis
      by (auto simp: DistillerCallback_def FetchPDFFile_def Let_def dl_good_Some dl_inv_def flight_defs
                     task_queue_def current_task_def)
  next
    case 2
    with DownloadCompletionHandler_good [OF s(1-7), of ERROR "original_url s" c url "[]" "[]"]
    show ?thesis by (simp add: DistillerCallback_def)
  next
    case 3
    with s show ?thesis
      by (auto simp: DistillerCallback_def post_def dl_good_Some dl_inv_def flight_defs
                     task_queue_def current_task_def)
  qed
  with q v(5) f show ?thesis by (simp add: on_article_def)
qed

lemma loaded_good:
  assumes inv: "dl_inv L c s" and d: "loading s"
  shows "dl_good L c (task_queue s) (on_loaded L path info s)"
proof -
  have fl: "posted s = []" "replies s = []" "\<not> distilling s"
    using dl_invD(1) [OF inv] d by (auto simp: in_flight_def split: if_splits)
  have w: "working s" using working_if_flight [OF inv] d by (simp add: in_flight_def)
  obtain l where l: "url_loader s = Some l" "ld_loading l"
    using d by (auto simp: loading_def split: option.splits)
  have q: "task_queue s = (DOWNLOAD, original_url s) # tasks s"
    using fl w by (simp add: task_queue_def current_task_def)
  let ?s = "s\<lparr>url_loader := Some (l\<lparr>ld_loading := False\<rparr>)\<rparr>"
  have s: "posted ?s = []" "replies ?s = []" "\<not> loading ?s" "\<not> distilling ?s" "working ?s"
    "\<forall>t\<in>set (tasks ?s). is_valid (gurls L) (snd t)" "\<forall>v. distiller ?s = Some v \<longrightarrow> dv_url v = original_url ?s"
    and m: "mime_type ?s = kPDFMimeType"
    using fl w dl_invD(3,5) [OF inv] dl_invD(4) [OF inv d] by (auto simp: flight_defs)
  have "dl_good L c ((DOWNLOAD, original_url s) # tasks s)
    (OnURLLoadComplete L (ld_url l) path info ?s)"
  proof (cases "path = [] \<or> (case info of Some m \<Rightarrow> m | None \<Rightarrow> []) \<noteq> mime_type s")
    case True
    with DownloadCompletionHandler_good [OF s(1-7), of ERROR "original_url s" c "original_url s" "[]"] m
    show ?thesis by (auto simp: OnURLLoadComplete_def Let_def)
  next
    case False
    with s m show ?thesis
      by (auto simp: OnURLLoadComplete_def Let_def post_def dl_good_Some dl_inv_def flight_defs
                     task_queue_def current_task_def)
  qed
  with q l show ?thesis by (simp add: on_loaded_def)
qed

text \<open>Background work changes the disk and the size saved, and answers for the task it was posted for.\<close>

definition same_but_size :: "'u url_downloader \<Rightarrow> 'u url_downloader \<Rightarrow> bool" where
  "same_but_size s s' \<longleftrightarrow> s\<lparr>saved_size := 0\<rparr> = s'\<lparr>saved_size := 0\<rparr>"

lemma same_but_size_simps [simp]:
  "same_but_size s s" "same_but_size s (s'\<lparr>saved_size := n\<rparr>) = same_but_size s s'"
  by (simp_all add: same_but_size_def)

lemma same_but_size_trans [trans]:
  "same_but_size s s' \<Longrightarrow> same_but_size s' s'' \<Longrightarrow> same_but_size s s''"
  by (simp add: same_but_size_def)

lemma same_tasks: "same_but_size s s' \<Longrightarrow> tasks s' = tasks s"
  by (cases s; cases s') (simp add: same_but_size_def)

lemma same_but_size_eq: "same_but_size s s' \<Longrightarrow> s' = s\<lparr>saved_size := saved_size s'\<rparr>"
  by (cases s; cases s') (simp add: same_but_size_def)

lemma SavePDFFile_frame: "SavePDFFile L F t s fs = Some (r, s', fs') \<Longrightarrow> same_but_size s s'"
  by (auto simp: SavePDFFile_def Let_def bind_eq_Some_conv split: if_splits prod.splits)

lemma save_one_image_frame:
  "save_one_image L F url img s fs = (b, n, s', fs') \<Longrightarrow> same_but_size s s'"
  by (auto simp: save_one_image_def SaveImage_def Let_def split: if_splits prod.splits)

lemma replace_images_frame:
  "replace_images L F url images html found s fs = Some (res, s', fs') \<Longrightarrow> same_but_size s s'"
proof (induction images arbitrary: html found s fs)
  case Nil
  then show ?case by simp
next
  case (Cons img images)
  obtain b n s1 fs1 where i: "save_one_image L F url img s fs = (b, n, s1, fs1)"
    by (metis prod.exhaust)
  note f = save_one_image_frame [OF i]
  show ?case
  proof (cases "scheme_is (gurls L) kDataScheme (img_url img)")
    case True
    with Cons show ?thesis by simp
  next
    case False
    with Cons.prems i f show ?thesis
      by (auto simp: bind_eq_Some_conv split: if_splits
               intro: same_but_size_trans dest: Cons.IH)
  qed
qed

lemma SaveHTMLForURL_frame: "SaveHTMLForURL L F html url s fs = (b, s', fs') \<Longrightarrow> same_but_size s s'"
  by (auto simp: SaveHTMLForURL_def Let_def split: if_splits prod.splits)

lemma SaveAndReplaceImagesInHTML_frame:
  "SaveAndReplaceImagesInHTML L F url html images s fs = Some (h, s', fs') \<Longrightarrow> same_but_size s s'"
  unfolding SaveAndReplaceImagesInHTML_def
  by (elim bind_SomeE) (auto dest: replace_images_frame)

lemma SaveDistilledHTML_frame:
  assumes "SaveDistilledHTML L F url images html s fs = Some (r, s', fs')"
  shows "same_but_size s s'"
proof -
  obtain created fs1 where c: "CreateOfflineURLDirectory L F url s fs = (created, fs1)" by fastforce
  show ?thesis
  proof (cases created)
    case True
    with assms c obtain h s2 fs2 where
      h: "SaveAndReplaceImagesInHTML L F url html images s fs1 = Some (h, s2, fs2)"
      "(let (saved, s, fs) = SaveHTMLForURL L F h url s2 fs2
        in Some (if saved then DOWNLOAD_SUCCESS else ERROR, s, fs)) = Some (r, s', fs')"
      unfolding SaveDistilledHTML_def by (auto elim!: bind_SomeE)
    obtain b where "SaveHTMLForURL L F h url s2 fs2 = (b, s', fs')"
      using h(2) by (auto split: prod.splits)
    from same_but_size_trans [OF SaveAndReplaceImagesInHTML_frame [OF h(1)] SaveHTMLForURL_frame [OF this]]
    show ?thesis .
  next
    case False
    with assms c show ?thesis by (simp add: SaveDistilledHTML_def)
  qed
qed

lemma run_job_frame:
  assumes "run_job L F j s fs = Some (r, s', fs')"
  shows "same_but_size s s'" "reply_task s r = job_task s j" "reply_ok L s r = job_ok L s j"
  using assms
  by (cases j; auto simp: Let_def dest: SavePDFFile_frame SaveDistilledHTML_frame split: prod.splits)+

lemma job_good:
  assumes inv: "dl_inv L c s" and st: "dl_step L F RunJob (s, fs) = Some (outs, s', fs')"
  shows "outs = []" "dl_inv L c s'" "task_queue s' = task_queue s"
proof -
  from st obtain j js r s1 where j: "posted s = j # js" "outs = []"
    "run_job L F j (s\<lparr>posted := js\<rparr>) fs = Some (r, s1, fs')"
    "s' = s1\<lparr>replies := replies s1 @ [r]\<rparr>"
    by (auto simp: bind_eq_Some_conv split: list.splits)
  note fr = run_job_frame [OF j(3)]
  have fl: "js = []" "replies s = []" "\<not> distilling s" "\<not> loading s"
    using dl_invD(1) [OF inv] j(1) by (auto simp: in_flight_def split: if_splits)
  have w: "working s" using working_if_flight [OF inv] j(1) by (simp add: in_flight_def)
  obtain n where "s1 = s\<lparr>posted := [], saved_size := n\<rparr>"
    using same_but_size_eq [OF fr(1)] fl(1) by auto
  then have e: "s' = s\<lparr>posted := [], replies := [r], saved_size := n\<rparr>"
    using j(4) fl(2) by simp
  show "outs = []" by (rule j(2))
  have "job_ok L s j" using dl_invD(6) [OF inv] j(1) by simp
  then have rok: "reply_ok L s r"
    using fr(3) ok_cong [of "s\<lparr>posted := js\<rparr>" s] by simp
  have task: "reply_task s r = job_task s j"
    using fr(2) task_cong [of "s\<lparr>posted := js\<rparr>" s] by simp
  have "reply_ok L s' r" "reply_task s' r = reply_task s r"
    using rok ok_cong(2) [of s' s] task_cong(2) [of s' s] by (simp_all add: e)
  then show "dl_inv L c s'" "task_queue s' = task_queue s"
    using inv fl w j(1) task
    by (simp_all add: dl_inv_def flight_defs task_queue_def current_task_def) (simp_all add: e)
qed

section \<open>Reachable states\<close>

text \<open>
  Clients pass valid URLs; \<open>c\<close> says whether \<open>CancelTask\<close> may be called.
\<close>

fun event_ok :: "'u offline_lib \<Rightarrow> bool \<Rightarrow> 'u dl_event \<Rightarrow> bool" where
  "event_ok L c (Download u) = is_valid (gurls L) u"
| "event_ok L c (Remove u) = is_valid (gurls L) u"
| "event_ok L c Cancel = c"
| "event_ok L c _ = True"

inductive dl_reachable ::
  "'u offline_lib \<Rightarrow> 'fs file_lib \<Rightarrow> bool \<Rightarrow> 'u url_downloader \<times> 'fs \<Rightarrow> bool" for L F c where
  dl_init: "dl_reachable L F c (new_URLDownloader L path n, fs)"
| dl_next: "dl_reachable L F c sf \<Longrightarrow> dl_enabled ev (fst sf) \<Longrightarrow> event_ok L c ev \<Longrightarrow>
    dl_step L F ev sf = Some (outs, sf') \<Longrightarrow> dl_reachable L F c sf'"

lemma front_good:
  assumes "dl_inv L c s" "dl_enabled ev s" "event_ok L c ev" "ev \<noteq> RunJob"
  shows "dl_good L c (request ev (task_queue s)) (dl_front L ev s)"
proof (cases ev)
  case RunReply
  with assms obtain r rs where "replies s = r # rs" by (auto simp: neq_Nil_conv)
  with RunReply run_reply_good [OF assms(1) this] show ?thesis by simp
next
  case Cancel
  with assms have c by simp
  with assms(1) CancelTask_inv Cancel show ?thesis by (auto simp: dl_good_Some)
next
  case (Distilled a)
  with assms article_good show ?thesis by (fastforce simp: distilling_def)
next
  case (Loaded p i)
  with assms loaded_good show ?thesis by (fastforce simp: loading_def)
next
  case (Redirected u)
  with assms page_good(1) [OF assms(1)] show ?thesis by (auto simp: distilling_def)
next
  case (HasMimeType m)
  with assms page_good(2) [OF assms(1)] show ?thesis by (auto simp: distilling_def)
qed (use assms client_good [OF assms(1)] in auto)

lemma dl_step_front:
  "ev \<noteq> RunJob \<Longrightarrow> dl_step L F ev (s, fs) = map_option (\<lambda>(out, s). (out, s, fs)) (dl_front L ev s)"
  by (cases ev) simp_all

lemma step_good:
  assumes "dl_inv L c s" "dl_enabled ev s" "event_ok L c ev"
    "dl_step L F ev (s, fs) = Some (outs, s', fs')"
  shows "dl_good L c (request ev (task_queue s)) (Some (outs, s'))"
proof (cases "ev = RunJob")
  case True
  with job_good [OF assms(1), of F fs outs s' fs'] assms(4) show ?thesis
    by (simp add: dl_good_Some)
next
  case False
  with front_good [OF assms(1-3)] assms(4) show ?thesis
    by (auto simp: dl_step_front dl_good_def)
qed

lemma dl_reachable_inv: "dl_reachable L F c sf \<Longrightarrow> dl_inv L c (fst sf)"
proof (induction rule: dl_reachable.induct)
  case (dl_init path n fs)
  show ?case by (simp add: dl_inv_def new_URLDownloader_def flight_defs)
next
  case (dl_next sf ev outs sf')
  with step_good [of L c "fst sf" ev F "snd sf" outs "fst sf'" "snd sf'"]
  show ?case by (auto simp: dl_good_def)
qed

text \<open>
  C27. The downloader handles one task at a time. After any interleaving of requests, cancellations,
  background work, replies and page notifications, at most one operation is under way, an idle
  downloader has an empty queue, and no event can make one of its assertions fail.
\<close>

theorem one_task_at_a_time:
  assumes "dl_reachable L F c (s, fs)"
  shows "in_flight s \<le> 1 \<and> (\<not> working s \<longrightarrow> tasks s = [] \<and> in_flight s = 0) \<and>
    (\<forall>ev. dl_enabled ev s \<and> event_ok L c ev \<and> ev \<noteq> RunJob \<longrightarrow> dl_step L F ev (s, fs) \<noteq> None)"
proof -
  have inv: "dl_inv L c s" using dl_reachable_inv [OF assms] by simp
  have "dl_step L F ev (s, fs) \<noteq> None" if "dl_enabled ev s" "event_ok L c ev" "ev \<noteq> RunJob" for ev
    using front_good [OF inv that] that(3) by (auto simp: dl_step_front dl_good_def)
  with dl_invD(1,2) [OF inv] show ?thesis by blast
qed

text \<open>
  C28. The downloader refines a queue. Without outside cancellation, every step acts on the queue
  (the task under way, then the tasks that wait) as its event says: a download is appended unless it
  already waits, a deletion removes the waiting downloads of its URL and is appended, and a step
  that runs a completion callback runs one, for the head of the queue, which it removes.
\<close>

theorem downloader_refines_queue:
  assumes "dl_reachable L F False (s, fs)" "dl_enabled ev s" "event_ok L False ev"
    "dl_step L F ev (s, fs) = Some (outs, s', fs')"
  shows "task_queue s' = drop (length outs) (request ev (task_queue s)) \<and>
    (outs = [] \<or> (\<exists>out. outs = [out] \<and> task_queue s \<noteq> [] \<and> completes out (hd (task_queue s))))"
proof -
  have inv: "dl_inv L False s" using dl_reachable_inv [OF assms(1)] by simp
  have q: "request ev (task_queue s) \<noteq> [] \<and> hd (request ev (task_queue s)) = hd (task_queue s)"
    if "task_queue s \<noteq> []"
    using that by (cases ev; cases "task_queue s") auto
  have "outs = []" if "task_queue s = []"
  proof -
    have w: "\<not> working s" using that by (auto simp: task_queue_def current_task_def split: if_splits)
    with dl_invD(2) [OF inv w] have "posted s = []" "replies s = []" "\<not> distilling s" "\<not> loading s"
      by (auto simp: in_flight_def split: if_splits)
    with assms(2,4) show ?thesis
      by (cases ev) (auto simp: distilling_def loading_def split: option.splits)
  qed
  with q step_good [OF inv assms(2-4)] show ?thesis by (fastforce simp: dl_good_def)
qed

section \<open>Downloads and deletions of one URL\<close>

text \<open>
  The tasks that wait for one URL: deletions, then at most one download.
\<close>

definition url_tasks :: "'u \<Rightarrow> 'u task list \<Rightarrow> 'u task list" where
  "url_tasks u ts = filter (\<lambda>t. snd t = u) ts"

definition deletes_first :: "'u task list \<Rightarrow> bool" where
  "deletes_first ts \<longleftrightarrow>
     (\<forall>u. url_tasks u ts = replicate (length (url_tasks u ts)) (DELETE, u) \<or>
          url_tasks u ts = replicate (length (url_tasks u ts) - 1) (DELETE, u) @ [(DOWNLOAD, u)])"

lemma deletes_first_iff:
  "deletes_first ts \<longleftrightarrow>
     (\<forall>u. \<exists>n. url_tasks u ts = replicate n (DELETE, u) \<or>
              url_tasks u ts = replicate n (DELETE, u) @ [(DOWNLOAD, u)])"
  unfolding deletes_first_def by (metis length_replicate length_append_singleton diff_Suc_1)

lemma deletes_first_tl: "deletes_first (t # ts) \<Longrightarrow> deletes_first ts"
proof -
  assume d: "deletes_first (t # ts)"
  have "\<exists>n. url_tasks u ts = replicate n (DELETE, u) \<or> url_tasks u ts = replicate n (DELETE, u) @ [(DOWNLOAD, u)]"
    for u
  proof -
    obtain n where n: "url_tasks u (t # ts) = replicate n (DELETE, u) \<or>
      url_tasks u (t # ts) = replicate n (DELETE, u) @ [(DOWNLOAD, u)]"
      using d unfolding deletes_first_iff by blast
    show ?thesis
    proof (cases "snd t = u")
      case True
      with n show ?thesis
        by (cases n) (auto simp: url_tasks_def intro: exI [of _ "0::nat"])
    next
      case False
      with n show ?thesis by (auto simp: url_tasks_def)
    qed
  qed
  then show "deletes_first ts" by (simp add: deletes_first_iff)
qed

lemma url_tasks_cancel:
  "url_tasks v (filter (\<lambda>t. t \<noteq> (DOWNLOAD, u)) ts) =
     (if v = u then filter (\<lambda>t. t = (DELETE, u)) ts else url_tasks v ts)"
  unfolding url_tasks_def
  by (induction ts) (auto, (metis (full_types) task_type.exhaust)+)

lemma filter_eq_replicate: "filter (\<lambda>t. t = x) ts = replicate (length (filter (\<lambda>t. t = x) ts)) x"
  by (induction ts) auto

lemma deletes_first_cancel:
  assumes "deletes_first ts"
  shows "deletes_first (filter (\<lambda>t. t \<noteq> (DOWNLOAD, u)) ts)"
  unfolding deletes_first_iff url_tasks_cancel
proof
  fix v
  show "\<exists>n. (if v = u then filter (\<lambda>t. t = (DELETE, u)) ts else url_tasks v ts) = replicate n (DELETE, v) \<or>
      (if v = u then filter (\<lambda>t. t = (DELETE, u)) ts else url_tasks v ts) =
        replicate n (DELETE, v) @ [(DOWNLOAD, v)]"
    using assms filter_eq_replicate [of "(DELETE, u)" ts] unfolding deletes_first_iff
    by (cases "v = u") auto
qed

lemma deletes_first_remove:
  assumes "deletes_first ts"
  shows "deletes_first (filter (\<lambda>t. t \<noteq> (DOWNLOAD, u)) ts @ [(DELETE, u)])"
proof -
  have e: "filter (\<lambda>t. t = (DELETE, u)) ts @ [(DELETE, u)] =
      replicate (Suc (length (filter (\<lambda>t. t = (DELETE, u)) ts))) (DELETE, u)"
    by (subst filter_eq_replicate) (simp add: replicate_append_same)
  have "url_tasks v (xs @ [(DELETE, u)]) = url_tasks v xs @ (if v = u then [(DELETE, u)] else [])" for v xs
    by (simp add: url_tasks_def)
  with assms e show ?thesis
    unfolding deletes_first_iff by (auto simp: url_tasks_cancel simp del: replicate_Suc)
qed

lemma deletes_first_download:
  assumes "deletes_first ts" "(DOWNLOAD, u) \<notin> set ts"
  shows "deletes_first (ts @ [(DOWNLOAD, u)])"
proof -
  have a: "url_tasks v (ts @ [(DOWNLOAD, u)]) = url_tasks v ts @ (if v = u then [(DOWNLOAD, u)] else [])" for v
    by (simp add: url_tasks_def)
  have "(DOWNLOAD, u) \<notin> set (url_tasks u ts)" using assms(2) by (simp add: url_tasks_def)
  moreover obtain n where "url_tasks u ts = replicate n (DELETE, u) \<or>
      url_tasks u ts = replicate n (DELETE, u) @ [(DOWNLOAD, u)]"
    using assms(1) unfolding deletes_first_iff by blast
  ultimately have "url_tasks u ts = replicate n (DELETE, u)" by auto
  with assms(1) a show ?thesis unfolding deletes_first_iff by auto
qed

text \<open>The tasks after a step are those after a request, or their tail.\<close>

lemma HandleNextTask_tasks:
  "HandleNextTask L s = Some s' \<Longrightarrow> tasks s' = tasks s \<or> tasks s' = tl (tasks s)"
  by (auto simp: HandleNextTask_def post_def OfflinePathExists_def Let_def bind_eq_Some_conv
           split: if_splits list.splits task_type.splits)

lemma post_delete_tasks:
  "post_delete L url t p r s = Some (outs, s') \<Longrightarrow> tasks s' = tasks s \<or> tasks s' = tl (tasks s)"
  by (auto simp: post_delete_def dest: HandleNextTask_tasks)

lemma DownloadCompletionHandler_tasks:
  "DownloadCompletionHandler L url t p r s = Some (outs, s') \<Longrightarrow> tasks s' = tasks s \<or> tasks s' = tl (tasks s)"
  by (auto simp: DownloadCompletionHandler_def post_def bind_eq_Some_conv
           split: if_splits dest: post_delete_tasks)

lemma run_reply_tasks:
  "run_reply L r s = Some (outs, s') \<Longrightarrow> tasks s' = tasks s \<or> tasks s' = tl (tasks s)"
  by (cases r)
     (auto simp: DownloadURL_def DeleteCompletionHandler_def bind_eq_Some_conv
           split: if_splits dest: post_delete_tasks DownloadCompletionHandler_tasks HandleNextTask_tasks)

lemma DistillerCallback_tasks:
  "DistillerCallback L url h is t s = Some (outs, s') \<Longrightarrow> tasks s' = tasks s \<or> tasks s' = tl (tasks s)"
  by (auto simp: DistillerCallback_def FetchPDFFile_def post_def Let_def
           split: if_splits dest: DownloadCompletionHandler_tasks)

lemma OnURLLoadComplete_tasks:
  "OnURLLoadComplete L url p i s = Some (outs, s') \<Longrightarrow> tasks s' = tasks s \<or> tasks s' = tl (tasks s)"
  by (auto simp: OnURLLoadComplete_def post_def Let_def bind_eq_Some_conv
           split: if_splits dest: DownloadCompletionHandler_tasks)

definition requested :: "'u dl_event \<Rightarrow> 'u task list \<Rightarrow> 'u task list" where
  "requested ev ts =
     (case ev of
        Download u \<Rightarrow> (if (DOWNLOAD, u) \<in> set ts then ts else ts @ [(DOWNLOAD, u)])
      | CancelDownload u \<Rightarrow> filter (\<lambda>t. t \<noteq> (DOWNLOAD, u)) ts
      | Remove u \<Rightarrow> filter (\<lambda>t. t \<noteq> (DOWNLOAD, u)) ts @ [(DELETE, u)]
      | _ \<Rightarrow> ts)"

lemma dl_front_tasks:
  assumes "dl_front L ev s = Some (outs, s')"
  shows "tasks s' = requested ev (tasks s) \<or> tasks s' = tl (requested ev (tasks s))"
proof (cases ev)
  case (Distilled a)
  with assms obtain v where v: "distiller s = Some v" by (auto simp: on_article_def bind_eq_Some_conv)
  obtain url h ims t v' where "OnDistillerFinished (dl L) a v = ((url, h, ims, t), v')"
    by (metis prod.exhaust)
  with assms Distilled v show ?thesis
    by (auto simp: requested_def on_article_def dest!: DistillerCallback_tasks)
next
  case (Loaded p i)
  with assms show ?thesis
    by (auto simp: requested_def on_loaded_def bind_eq_Some_conv dest!: OnURLLoadComplete_tasks)
next
  case RunReply
  with assms show ?thesis
    by (auto simp: requested_def split: list.splits dest!: run_reply_tasks)
next
  case (Download u)
  with assms show ?thesis
    by (auto simp: requested_def DownloadOfflineURL_def split: if_splits dest!: HandleNextTask_tasks)
next
  case (Remove u)
  with assms show ?thesis
    by (auto simp: requested_def RemoveOfflineURL_def CancelDownloadOfflineURL_def Let_def
             dest!: HandleNextTask_tasks)
qed (use assms in \<open>auto simp: requested_def CancelDownloadOfflineURL_def CancelTask_def bind_eq_Some_conv
       DistilledPageRedirectedToURL_def DistilledPageHasMimeType_def\<close>)

lemma deletes_first_requested: "deletes_first ts \<Longrightarrow> deletes_first (requested ev ts)"
  by (cases ev) (simp_all add: requested_def deletes_first_download deletes_first_cancel deletes_first_remove)

lemma dl_step_tasks:
  assumes "dl_step L F ev sf = Some (outs, sf')"
  shows "tasks (fst sf') = requested ev (tasks (fst sf)) \<or> tasks (fst sf') = tl (requested ev (tasks (fst sf)))"
proof (cases "ev = RunJob")
  case True
  obtain s fs s' fs' where p: "sf = (s, fs)" "sf' = (s', fs')" by fastforce
  with assms True obtain j js r s1 where
    j: "run_job L F j (s\<lparr>posted := js\<rparr>) fs = Some (r, s1, fs')" "s' = s1\<lparr>replies := replies s1 @ [r]\<rparr>"
    by (auto simp: bind_eq_Some_conv split: list.splits)
  then have "tasks s1 = tasks s" "tasks s' = tasks s1"
    using same_tasks [OF run_job_frame(1) [OF j(1)]] by simp_all
  with p True show ?thesis by (simp add: requested_def)
next
  case False
  obtain s fs s' fs' where p: "sf = (s, fs)" "sf' = (s', fs')" by fastforce
  with assms False dl_front_tasks [of L ev s outs s'] show ?thesis
    by (auto simp: dl_step_front)
qed

text \<open>
  C29. In every reachable state the tasks that wait for one URL are deletions followed by at most
  one download: a deletion cancels the downloads requested before it, and a URL never waits twice
  for its download.
\<close>

theorem deletions_before_download:
  assumes "dl_reachable L F c (s, fs)"
  shows "deletes_first (tasks s)"
proof -
  have "deletes_first (tasks (fst sf))" if "dl_reachable L F c sf" for sf
    using that
  proof (induction rule: dl_reachable.induct)
    case (dl_init path n fs)
    show ?case by (simp add: new_URLDownloader_def deletes_first_def url_tasks_def)
  next
    case (dl_next sf ev outs sf')
    from dl_step_tasks [OF dl_next(4)] deletes_first_requested [OF dl_next(5), of ev] show ?case
      by (metis deletes_first_tl list.collapse list.sel(2))
  qed
  from this [OF assms] show ?thesis by simp
qed

section \<open>Runs\<close>

fun dl_run ::
  "'u offline_lib \<Rightarrow> 'fs file_lib \<Rightarrow> bool \<Rightarrow> 'u dl_event list \<Rightarrow> 'u url_downloader \<times> 'fs
   \<Rightarrow> ('u completion list \<times> 'u url_downloader \<times> 'fs) option" where
  "dl_run L F c [] sf = Some ([], sf)"
| "dl_run L F c (ev # evs) sf = do {
     check (dl_enabled ev (fst sf) \<and> event_ok L c ev);
     (out, sf) \<leftarrow> dl_step L F ev sf;
     (outs, sf) \<leftarrow> dl_run L F c evs sf;
     Some (out @ outs, sf) }"

lemma dl_run_reachable:
  "dl_reachable L F c sf \<Longrightarrow> dl_run L F c evs sf = Some (outs, sf') \<Longrightarrow> dl_reachable L F c sf'"
proof (induction evs arbitrary: sf outs)
  case (Cons ev evs)
  from Cons.prems(2) obtain o1 sf1 o2 where r: "dl_enabled ev (fst sf)" "event_ok L c ev"
    "dl_step L F ev sf = Some (o1, sf1)" "dl_run L F c evs sf1 = Some (o2, sf')"
    by (auto simp: bind_eq_Some_conv)
  from Cons.IH [OF dl_next [OF Cons.prems(1) r(1-3)] r(4)] show ?case .
qed simp

text \<open>
  A downloader whose task was cancelled while work was posted keeps its \<open>working_\<close> flag and has
  nothing under way: from then on no task completes.
\<close>

definition stalled :: "'u url_downloader \<Rightarrow> bool" where
  "stalled s \<longleftrightarrow> working s \<and> in_flight s = 0"

lemma CancelTask_stalls: "working s \<Longrightarrow> \<not> loading s \<Longrightarrow> stalled (CancelTask s)"
  by (simp add: stalled_def CancelTask_def flight_defs)

lemma stalled_step:
  assumes "stalled (fst sf)" "dl_enabled ev (fst sf)" "dl_step L F ev sf = Some (outs, sf')"
  shows "outs = [] \<and> stalled (fst sf')"
proof -
  obtain s fs where sf: "sf = (s, fs)" by fastforce
  have "posted s = []" "replies s = []" "\<not> distilling s" "\<not> loading s" "working s"
    using assms(1) sf by (auto simp: stalled_def in_flight_def split: if_splits)
  with assms(2,3) sf show ?thesis
    by (cases ev) (auto simp: stalled_def flight_defs DownloadOfflineURL_def RemoveOfflineURL_def
        HandleNextTask_def CancelDownloadOfflineURL_def CancelTask_def Let_def split: option.splits if_splits)
qed

lemma stalled_forever:
  "stalled (fst sf) \<Longrightarrow> dl_run L F c evs sf = Some (outs, sf') \<Longrightarrow> outs = [] \<and> stalled (fst sf')"
proof (induction evs arbitrary: sf outs)
  case (Cons ev evs)
  from Cons.prems(2) obtain o1 sf1 o2 where r: "dl_enabled ev (fst sf)"
    "dl_step L F ev sf = Some (o1, sf1)" "dl_run L F c evs sf1 = Some (o2, sf')" "outs = o1 @ o2"
    by (auto simp: bind_eq_Some_conv)
  from stalled_step [OF Cons.prems(1) r(1,2)] Cons.IH [OF _ r(3)] r(4) show ?case by simp
qed simp

section \<open>A concrete disk\<close>

text \<open>Directories and files by their paths; a directory has no content.\<close>

type_synonym demo_disk = "(string \<times> string option) list"

definition demo_files :: "demo_disk file_lib" where
  "demo_files =
     \<lparr>PathExists = (\<lambda>p d. map_of d p \<noteq> None),
      DirectoryExists = (\<lambda>p d. map_of d p = Some None),
      CreateDirectoryAndGetError = (\<lambda>p d. (True, (p, None) # d)),
      DeleteFile = (\<lambda>p d. (True, filter (\<lambda>(q, _). q \<noteq> p \<and> take (Suc (length p)) q \<noteq> p @ ''/'') d)),
      WriteFile = (\<lambda>p c d. (int (length c), (p, Some c) # d)),
      Move = (\<lambda>p q d. (case map_of d p of
                 Some c \<Rightarrow> (True, (q, c) # filter (\<lambda>(r, _). r \<noteq> p) d) | None \<Rightarrow> (False, d))),
      GetFileSize = (\<lambda>p d. (case map_of d p of Some (Some c) \<Rightarrow> Some (int (length c)) | _ \<Rightarrow> None)),
      SubDirectories = (\<lambda>p d. remdups (filter (\<lambda>q. map_of d q = Some None \<and> take (length p) q = p \<and> q \<noteq> p \<and>
                                  CHR ''/'' \<notin> set (drop (length p) q)) (map fst d)))\<rparr>"

definition demo_offline :: "demo_url offline_lib" where
  "demo_offline =
     \<lparr>dl = \<lparr>dgl = demo_lib, common_javascript = [''js;''], article_javascript = (\<lambda>a. [article_title a]),
           GetUnsafeArticleTemplateHtml = (\<lambda>s. ''<img src=u.v/i>'')\<rparr>,
      is_cryptographic = (\<lambda>u. d_scheme u = ''https''), EscapeForHTML = (\<lambda>s. s),
      MD5String = (\<lambda>s. ''m''), OfflineURLDirectoryID = d_path,
      OfflineRootDirectoryPath = (\<lambda>b. b @ ''/''),
      OfflineURLDirectoryAbsolutePath = (\<lambda>b u. b @ ''/'' @ d_path u),
      OfflinePagePath = (\<lambda>u ty. d_path u @ (case ty of OFFLINE_TYPE_HTML \<Rightarrow> ''.html''
                                                      | OFFLINE_TYPE_PDF \<Rightarrow> ''.pdf'')),
      OfflineURLAbsolutePathFromRelativePath = (\<lambda>b r. b @ ''/'' @ r),
      Append = (\<lambda>p n. p @ ''/'' @ n), BaseName = drop 2\<rparr>"

abbreviation demo_page :: demo_url where
  "demo_page \<equiv> Demo_URL ''http'' ''u.v'' [] []"

abbreviation demo_other :: demo_url where
  "demo_other \<equiv> Demo_URL ''http'' ''x.y'' [] []"

abbreviation demo_start :: "demo_url url_downloader \<times> demo_disk" where
  "demo_start \<equiv> (new_URLDownloader demo_offline ''d'' 7, [(''t'', Some ''pdf'')])"

definition demo_article :: article_proto where
  "demo_article = \<lparr>pages = [\<lparr>page_html = ''h'',
     page_images = [\<lparr>proto_url = ''u.v/i'', proto_data = ''png''\<rparr>]\<rparr>], article_title = ''T''\<rparr>"

definition no_article :: article_proto where
  "no_article = \<lparr>pages = [], article_title = []\<rparr>"

text \<open>A page is saved with its image, then deleted.\<close>

lemma demo_download:
  "map_option fst (dl_run demo_offline demo_files False
     [Download demo_page, RunJob, RunReply, HasMimeType ''text/html'', Distilled demo_article, RunJob,
      Remove demo_page, RunReply, RunJob, RunReply] demo_start) =
   Some [DownloadCompletion demo_page demo_page DOWNLOAD_SUCCESS ''u.v.html''
           (int (3 + length (''<img src=m>'' @ ''<script> distiller_on_ios = true; js;T</script>'' @
              kDisableImageContextMenuScript))) ''T'',
         DeleteCompletion demo_page True]"
  by code_simp

text \<open>
  A PDF whose page was redirected is reported under the URL it was redirected to, not under the URL
  that was requested.
\<close>

lemma redirected_pdf_completes_under_redirected_url:
  "map_option fst (dl_run demo_offline demo_files False
     [Download demo_page, RunJob, RunReply, Redirected demo_other, HasMimeType kPDFMimeType,
      Distilled no_article, Loaded ''t'' (Some kPDFMimeType), RunJob, RunReply] demo_start) =
   Some [DownloadCompletion demo_other demo_other DOWNLOAD_SUCCESS ''u.v.pdf'' 3 []]"
  by code_simp

text \<open>
  A page whose directory exists is reported with an empty path and with the size and the distilled
  URL of the download before it.
\<close>

lemma existing_page_reports_stale_data:
  "map_option fst (dl_run demo_offline demo_files False
     [Download demo_page, RunJob, RunReply, Download demo_other, HasMimeType kPDFMimeType,
      Distilled no_article, Loaded ''t'' (Some kPDFMimeType), RunJob, RunReply, RunJob, RunReply]
     (new_URLDownloader demo_offline ''d'' 7, [(''t'', Some ''pdf''), (''d/x.y'', None)])) =
   Some [DownloadCompletion demo_page demo_page DOWNLOAD_SUCCESS ''u.v.pdf'' 3 [],
         DownloadCompletion demo_other demo_page DOWNLOAD_EXISTS [] 3 []]"
  by code_simp

theorem one_task_at_a_time_witness:
  "\<exists>s fs. dl_run demo_offline demo_files True [Download demo_page, Download demo_other, RunJob, RunReply]
      demo_start = Some ([], s, fs) \<and> in_flight s \<le> 1 \<and>
      dl_step demo_offline demo_files (HasMimeType kPDFMimeType) (s, fs) \<noteq> None"
proof -
  let ?r = "dl_run demo_offline demo_files True [Download demo_page, Download demo_other, RunJob, RunReply]
      demo_start"
  have "map_option (\<lambda>(o', s, fs). o' = [] \<and> dl_enabled (HasMimeType kPDFMimeType) s) ?r = Some True"
    by code_simp
  then obtain s fs where r: "?r = Some ([], s, fs)" "dl_enabled (HasMimeType kPDFMimeType) s"
    by auto
  have "dl_reachable demo_offline demo_files True (s, fs)"
    by (rule dl_run_reachable [OF dl_init r(1)])
  note t = one_task_at_a_time [OF this]
  have "dl_step demo_offline demo_files (HasMimeType kPDFMimeType) (s, fs) \<noteq> None"
    using t r(2) by (metis dl_event.distinct(75) dl_event.simps event_ok.simps(8))
  with t r(1) show ?thesis by blast
qed

theorem downloader_refines_queue_witness:
  "\<exists>s fs s' fs'. dl_run demo_offline demo_files False [Download demo_page, Download demo_other] demo_start =
      Some ([], s, fs) \<and> dl_step demo_offline demo_files (Remove demo_other) (s, fs) = Some ([], s', fs') \<and>
      task_queue s' = request (Remove demo_other) (task_queue s)"
proof -
  let ?r = "dl_run demo_offline demo_files False [Download demo_page, Download demo_other] demo_start"
  have "map_option (\<lambda>(o', sf). o' = [] \<and>
      map_option fst (dl_step demo_offline demo_files (Remove demo_other) sf) = Some []) ?r = Some True"
    by code_simp
  then obtain s fs s' fs' where r: "?r = Some ([], s, fs)"
    "dl_step demo_offline demo_files (Remove demo_other) (s, fs) = Some ([], s', fs')" by auto
  have d: "dl_reachable demo_offline demo_files False (s, fs)"
    by (rule dl_run_reachable [OF dl_init r(1)])
  have "event_ok demo_offline False (Remove demo_other)" by code_simp
  from downloader_refines_queue [OF d _ this r(2)] have "task_queue s' = request (Remove demo_other) (task_queue s)"
    by simp
  with r show ?thesis by blast
qed

theorem deletions_before_download_witness:
  "\<exists>s fs. dl_run demo_offline demo_files False [Download demo_other, Download demo_page, Remove demo_page,
      Download demo_page] demo_start = Some ([], s, fs) \<and> deletes_first (tasks s)"
proof -
  let ?r = "dl_run demo_offline demo_files False [Download demo_other, Download demo_page, Remove demo_page,
      Download demo_page] demo_start"
  have "map_option fst ?r = Some []" by code_simp
  then obtain s fs where r: "?r = Some ([], s, fs)" by auto
  have "dl_reachable demo_offline demo_files False (s, fs)"
    by (rule dl_run_reachable [OF dl_init r])
  from deletions_before_download [OF this] r show ?thesis by blast
qed

end
