(* ===== verification/Offline_Pages.thy ===== *)
theory Offline_Pages
  imports Url_Downloader_Props
begin

text \<open>
  The pages \<open>URLDownloader\<close> writes: the loop that replaces the image references of a distilled page
  computes a left-to-right replacement of all occurrences, saving the images and editing the page are
  independent, and the whole returns unless an image has an empty URL, for which it does not end.
\<close>

section \<open>The replacement loop\<close>

fun replace_all :: "string \<Rightarrow> string \<Rightarrow> string \<Rightarrow> string" where
  "replace_all pat rep [] = []"
| "replace_all pat rep (ch # cs) =
     (if pat \<noteq> [] \<and> take (length pat) (ch # cs) = pat
      then rep @ replace_all pat rep (drop (length pat - 1) cs)
      else ch # replace_all pat rep cs)"

definition occurs_at :: "string \<Rightarrow> string \<Rightarrow> nat \<Rightarrow> bool" where
  "occurs_at pat s i \<longleftrightarrow> take (length pat) (drop i s) = pat"

lemma occurs_at_drop: "occurs_at pat (drop n s) i = occurs_at pat s (n + i)"
  by (simp add: occurs_at_def add.commute)

lemma occurs_at_length: "occurs_at pat s i \<Longrightarrow> pat \<noteq> [] \<Longrightarrow> i + length pat \<le> length s"
  unfolding occurs_at_def
  by (metis add.commute drop_eq_Nil le_diff_conv2 length_drop length_take linorder_le_cases
      min.absorb_iff2 take_Nil)

lemma find_upt:
  "List.find P [m..<n] = (if \<exists>i. m \<le> i \<and> i < n \<and> P i then Some (LEAST i. m \<le> i \<and> i < n \<and> P i) else None)"
proof (cases "List.find P [m..<n]")
  case None
  then show ?thesis by (auto simp: find_None_iff)
next
  case (Some k)
  then obtain j where j: "j < length [m..<n]" "P ([m..<n] ! j)" "k = [m..<n] ! j"
    "\<forall>i<j. \<not> P ([m..<n] ! i)"
    by (auto simp: find_Some_iff)
  then have k: "k = m + j" "k < n" "P k" by auto
  have "\<not> P i" if "m \<le> i" "i < k" for i
    using j(1,4) that k(1) by (metis add_diff_inverse_nat length_upt less_diff_conv2 linorder_not_less
        nat_add_left_cancel_less nth_upt order_less_trans add.commute less_diff_conv)
  then have "(LEAST i. m \<le> i \<and> i < n \<and> P i) = k"
    using k by (intro Least_equality) (auto simp: not_less [symmetric])
  with Some k show ?thesis by auto
qed

lemma find_str_Some:
  assumes "find_str pat s from = Some p"
  shows "from \<le> p" "p \<le> length s" "occurs_at pat s p" "\<And>i. from \<le> i \<Longrightarrow> i < p \<Longrightarrow> \<not> occurs_at pat s i"
proof -
  let ?P = "\<lambda>i. from \<le> i \<and> i < Suc (length s) \<and> occurs_at pat s i"
  have ex: "\<exists>i. ?P i" and p: "p = (LEAST i. ?P i)"
    using assms by (auto simp: find_str_def find_upt occurs_at_def simp del: upt_Suc split: if_splits)
  from ex have "?P p" unfolding p by (rule LeastI_ex)
  then show "from \<le> p" "p \<le> length s" "occurs_at pat s p" by simp_all
  show "\<not> occurs_at pat s i" if "from \<le> i" "i < p" for i
    using not_less_Least [of i ?P] that \<open>?P p\<close> p by auto
qed

lemma find_str_None:
  assumes "find_str pat s from = None" "from \<le> length s" "from \<le> i" "i \<le> length s"
  shows "\<not> occurs_at pat s i"
  using assms by (auto simp: find_str_def find_None_iff occurs_at_def split: if_splits)

lemma replace_all_skip:
  assumes "n \<le> length s" "\<And>i. i < n \<Longrightarrow> \<not> occurs_at pat s i"
  shows "replace_all pat rep s = take n s @ replace_all pat rep (drop n s)"
  using assms
proof (induction n arbitrary: s)
  case (Suc n)
  then obtain ch cs where s: "s = ch # cs" by (cases s) auto
  have "\<not> occurs_at pat s 0" using Suc.prems(2) by simp
  moreover have "replace_all pat rep cs = take n cs @ replace_all pat rep (drop n cs)"
    using Suc.prems s occurs_at_drop [of pat 1 s] by (intro Suc.IH) auto
  ultimately show ?case by (simp add: s occurs_at_def)
qed simp

lemma replace_all_match:
  "pat \<noteq> [] \<Longrightarrow> occurs_at pat s 0 \<Longrightarrow> replace_all pat rep s = rep @ replace_all pat rep (drop (length pat) s)"
  by (cases s; cases pat) (auto simp: occurs_at_def)

lemma replace_all_none:
  assumes "\<And>i. i < length s \<Longrightarrow> \<not> occurs_at pat s i"
  shows "replace_all pat rep s = s"
  using replace_all_skip [of "length s" s pat rep] assms by simp

lemma replace_loop_from:
  assumes "pat \<noteq> []" "from \<le> length html"
  shows "replace_loop pat rep html from found =
     Some (take from html @ replace_all pat rep (drop from html),
           found \<or> find_str pat html from \<noteq> None)"
  using assms(2)
proof (induction "length html - from" arbitrary: html "from" found rule: less_induct)
  case less
  show ?case
  proof (cases "find_str pat html from")
    case None
    have "replace_all pat rep (drop from html) = drop from html"
      by (rule replace_all_none) (use find_str_None [OF None less.prems] in \<open>auto simp: occurs_at_drop\<close>)
    with None show ?thesis by (simp add: replace_loop.simps)
  next
    case (Some p)
    note f = find_str_Some [OF Some]
    have len: "p + length pat \<le> length html" by (rule occurs_at_length [OF f(3) assms(1)])
    let ?h = "replace_str html p (length pat) rep"
    have lh: "p + length rep \<le> length ?h" and tk: "take (p + length rep) ?h = take p html @ rep"
      and dr: "drop (p + length rep) ?h = drop (p + length pat) html"
      using len by (simp_all add: replace_str_def)
    have "length (drop (p + length rep) ?h) < length (drop from html)"
      unfolding dr using f(1) len assms(1) by (cases pat) auto
    then have smaller: "length ?h - (p + length rep) < length html - from" by simp
    have "drop from html = take (p - from) (drop from html) @ drop p html"
      using f(1) by (metis append_take_drop_id drop_drop le_add_diff_inverse2)
    have "replace_all pat rep (drop from html) =
        take (p - from) (drop from html) @ replace_all pat rep (drop p html)"
      using replace_all_skip [of "p - from" "drop from html" pat rep] f len
      by (auto simp: occurs_at_drop)
    also have "replace_all pat rep (drop p html) = rep @ replace_all pat rep (drop (p + length pat) html)"
      using replace_all_match [OF assms(1), of "drop p html" rep] f(3)
      by (simp add: occurs_at_drop add.commute)
    finally have ra: "take from html @ replace_all pat rep (drop from html) =
        take p html @ rep @ replace_all pat rep (drop (p + length pat) html)"
      using f(1) by (simp add: take_add [symmetric] flip: append_assoc)
    have "replace_loop pat rep html from found = replace_loop pat rep ?h (p + length rep) True"
      using Some by (subst replace_loop.simps) simp
    also have "\<dots> = Some (take (p + length rep) ?h @ replace_all pat rep (drop (p + length rep) ?h), True)"
      using less.hyps [OF smaller lh, of True] by simp
    finally show ?thesis using ra Some tk dr by simp
  qed
qed

lemma replace_loop_eq:
  "pat \<noteq> [] \<Longrightarrow> replace_loop pat rep html 0 found =
     Some (replace_all pat rep html, found \<or> find_str pat html 0 \<noteq> None)"
  using replace_loop_from [of pat 0 html rep found] by simp

text \<open>With an empty pattern and an empty replacement the loop makes no progress.\<close>

lemma replace_loop_empty: "replace_loop [] [] html 0 found = None"
proof (rule ccontr)
  assume "replace_loop [] [] html 0 found \<noteq> None"
  then obtain r where "replace_loop [] [] html 0 found = Some r" by auto
  moreover have "\<not> (pat = [] \<and> rep = [] \<and> pos = 0)"
    if "replace_loop pat rep h pos f = Some r'" for pat rep h pos f r'
  proof (rule replace_loop.raw_induct [of "\<lambda>pat rep h pos f r'. \<not> (pat = [] \<and> rep = [] \<and> pos = 0)", OF _ that])
    fix loop :: "string \<Rightarrow> string \<Rightarrow> string \<Rightarrow> nat \<Rightarrow> bool \<Rightarrow> (string \<times> bool) option" and pat rep h pos f r'
    assume ih: "\<And>pat rep h pos f r'. loop pat rep h pos f = Some r' \<Longrightarrow> \<not> (pat = [] \<and> rep = [] \<and> pos = 0)"
      and body: "(case find_str pat h pos of None \<Rightarrow> Some (h, f)
        | Some p \<Rightarrow> loop pat rep (replace_str h p (length pat) rep) (p + length rep) True) = Some r'"
    have "find_str [] h 0 = Some 0"
      by (auto simp: find_str_def find_upt Least_equality simp del: upt_Suc)
    with ih body show "\<not> (pat = [] \<and> rep = [] \<and> pos = 0)" by fastforce
  qed
  ultimately show False by blast
qed

section \<open>Pages with images\<close>

text \<open>The name that replaces the URL of an image, and the edits of a page.\<close>

definition local_name :: "'u offline_lib \<Rightarrow> 'u \<Rightarrow> 'u image_info \<Rightarrow> string" where
  "local_name L page img =
     (if \<not> (is_cryptographic L page \<and> \<not> is_cryptographic L (img_url img)) \<and>
         is_valid (gurls L) (img_url img) \<and> img_data img \<noteq> []
      then MD5String L (spec (gurls L) (img_url img)) else [])"

definition stored_images :: "'u offline_lib \<Rightarrow> 'u image_info list \<Rightarrow> 'u image_info list" where
  "stored_images L images = filter (\<lambda>i. \<not> scheme_is (gurls L) kDataScheme (img_url i)) images"

definition reference_of :: "'u offline_lib \<Rightarrow> 'u image_info \<Rightarrow> string" where
  "reference_of L img = EscapeForHTML L (spec (gurls L) (img_url img))"

fun edit_page ::
  "'u offline_lib \<Rightarrow> 'u \<Rightarrow> 'u image_info list \<Rightarrow> string \<times> bool \<Rightarrow> string \<times> bool" where
  "edit_page L page [] hf = hf"
| "edit_page L page (img # images) (html, found) =
     edit_page L page images
       (replace_all (reference_of L img) (local_name L page img) html,
        found \<or> find_str (reference_of L img) html 0 \<noteq> None)"

fun save_images ::
  "'u offline_lib \<Rightarrow> 'fs file_lib \<Rightarrow> 'u \<Rightarrow> 'u image_info list \<Rightarrow> 'u url_downloader \<Rightarrow> 'fs
   \<Rightarrow> bool \<times> 'u url_downloader \<times> 'fs" where
  "save_images L F url [] s fs = (True, s, fs)"
| "save_images L F url (img # images) s fs =
     (let (saved, name, s, fs) = save_one_image L F url img s fs
      in if saved then save_images L F url images s fs else (False, s, fs))"

lemma save_one_image_name:
  "save_one_image L F url img s fs = (b, n, s', fs') \<Longrightarrow>
   n = local_name L (distilled_url s) img \<and> distilled_url s' = distilled_url s"
  by (auto simp: save_one_image_def SaveImage_def local_name_def Let_def split: if_splits prod.splits)

lemma replace_images_eq:
  assumes "\<And>img. img \<in> set (stored_images L images) \<Longrightarrow> reference_of L img \<noteq> []"
  shows "replace_images L F url images html found s fs =
     (let (ok, s', fs') = save_images L F url (stored_images L images) s fs
      in Some (if ok then Some (edit_page L (distilled_url s) (stored_images L images) (html, found))
               else None, s', fs'))"
  using assms
proof (induction images arbitrary: html found s fs)
  case Nil
  then show ?case by (simp add: stored_images_def)
next
  case (Cons img images)
  show ?case
  proof (cases "scheme_is (gurls L) kDataScheme (img_url img)")
    case True
    then have st: "stored_images L (img # images) = stored_images L images"
      by (simp add: stored_images_def)
    show ?thesis unfolding st using True Cons st by simp
  next
    case False
    then have st: "stored_images L (img # images) = img # stored_images L images"
      by (simp add: stored_images_def)
    obtain b n s1 fs1 where i: "save_one_image L F url img s fs = (b, n, s1, fs1)"
      by (metis prod.exhaust)
    note n = save_one_image_name [OF i]
    have "reference_of L img \<noteq> []" using Cons.prems st by simp
    note loop = replace_loop_eq [OF this, of n html found]
    have ih: "replace_images L F url images h f s1 fs1 =
       (let (ok, s', fs') = save_images L F url (stored_images L images) s1 fs1
        in Some (if ok then Some (edit_page L (distilled_url s1) (stored_images L images) (h, f))
                 else None, s', fs'))" for h f
      using Cons.IH [of h f s1 fs1] Cons.prems st by (simp split: prod.split)
    show ?thesis
      unfolding st using False i n loop
      by (cases b) (simp_all add: ih reference_of_def [symmetric] split: prod.split)
  qed
qed

text \<open>
  C30. Saving the images of a page and editing the page are independent. When every image that is
  not a data URI has a non-empty URL, the routine returns: an empty string if some image could not
  be saved, and otherwise the page in which, image after image, every occurrence of the URL of the
  image is replaced by its local name (by nothing for mixed content, invalid URLs and empty images),
  followed by the script that disables the context menu if some occurrence was found.
\<close>

theorem SaveAndReplaceImagesInHTML_correct:
  assumes "\<forall>img\<in>set (stored_images L images). reference_of L img \<noteq> []"
  shows "SaveAndReplaceImagesInHTML L F url html images s fs =
     (let (ok, s', fs') = save_images L F url (stored_images L images) s fs;
          (page, found) = edit_page L (distilled_url s) (stored_images L images) (html, False)
      in Some (if ok then page @ (if found then kDisableImageContextMenuScript else []) else [], s', fs'))"
  using replace_images_eq [of L images F url html False s fs] assms
  by (auto simp: SaveAndReplaceImagesInHTML_def split: prod.splits)

theorem SaveAndReplaceImagesInHTML_correct_witness:
  "map_option fst (SaveAndReplaceImagesInHTML demo_offline demo_files demo_page ''a u.v/i b u.v/i''
     (article_images (dl demo_offline) demo_article) (fst demo_start) []) =
   Some (''a m b m'' @ kDisableImageContextMenuScript)"
proof -
  let ?i = "article_images (dl demo_offline) demo_article"
  have "\<forall>img\<in>set (stored_images demo_offline ?i). reference_of demo_offline img \<noteq> []" by code_simp
  note t = SaveAndReplaceImagesInHTML_correct [OF this, of demo_files demo_page "''a u.v/i b u.v/i''"
      "fst demo_start" "[]"]
  have "fst (save_images demo_offline demo_files demo_page (stored_images demo_offline ?i) (fst demo_start) [])"
    "edit_page demo_offline (distilled_url (fst demo_start)) (stored_images demo_offline ?i)
       (''a u.v/i b u.v/i'', False) = (''a m b m'', True)"
    by code_simp+
  with t show ?thesis by (auto split: prod.splits)
qed

text \<open>
  An image without data whose escaped URL is empty makes the routine run forever: the background
  sequence never gets to its reply.
\<close>

lemma empty_image_url_never_returns:
  assumes "\<not> scheme_is (gurls L) kDataScheme (img_url img)" "reference_of L img = []" "img_data img = []"
  shows "SaveAndReplaceImagesInHTML L F url html (img # images) s fs = None"
  using assms replace_loop_empty
  by (simp add: SaveAndReplaceImagesInHTML_def save_one_image_def reference_of_def)

end
