(* ===== verification/Offline_Url.thy ===== *)
theory Offline_Url
  imports Url_Downloader
begin

text \<open>
  \<open>chrome/browser/reading_list/offline_url_utils.cc\<close>: the \<open>chrome://offline\<close> URLs under which the
  saved pages are shown. The reading list model is \<open>components/reading_list\<close>: what the code reads of
  an entry is the record \<open>rl_entry\<close>, and the operations of the model are the fields of
  \<open>rl_model_lib\<close>, over any type of model.
\<close>

section \<open>The reading list model\<close>

datatype distillation_state = WAITING | PROCESSING | PROCESSED | WILL_RETRY | DISTILLATION_ERROR

record 'u rl_entry =
  entry_URL :: 'u
  DistilledState :: distillation_state
  FailedDownloadCounter :: int
  IsRead :: bool
  DistilledPath :: file_path
  DistilledURL :: 'u

record ('m, 'u) rl_model_lib =
  loaded :: "'m \<Rightarrow> bool"
  Keys :: "'m \<Rightarrow> 'u list"
  GetEntryByURL :: "'m \<Rightarrow> 'u \<Rightarrow> 'u rl_entry option"
  SetEntryDistilledState :: "'u \<Rightarrow> distillation_state \<Rightarrow> 'm \<Rightarrow> 'm"
  SetEntryDistilledInfo :: "'u \<Rightarrow> file_path \<Rightarrow> 'u \<Rightarrow> int \<Rightarrow> int \<Rightarrow> 'm \<Rightarrow> 'm"
  SetEntryTitle :: "'u \<Rightarrow> string \<Rightarrow> 'm \<Rightarrow> 'm"
  DeleteAllEntries :: "'m \<Rightarrow> bool \<times> 'm"
  url_set :: "'u list \<Rightarrow> 'u list"
  CollapseWhitespaceASCII :: "string \<Rightarrow> string"

section \<open>Offline URLs\<close>

record 'u offline_url_lib =
  ogl :: "'u gurl_lib"
  replace_path :: "string \<Rightarrow> 'u \<Rightarrow> 'u"
  url_host :: "'u \<Rightarrow> string"
  resolve :: "'u \<Rightarrow> string \<Rightarrow> 'u"

definition kChromeUIScheme :: string where "kChromeUIScheme = ''chrome''"
definition kChromeUIOfflineHost :: string where "kChromeUIOfflineHost = ''offline''"
definition kChromeUIOfflineURL :: string where "kChromeUIOfflineURL = ''chrome://offline/''"
definition kEntryURLQueryParam :: string where "kEntryURLQueryParam = ''entryURL''"
definition kVirtualURLQueryParam :: string where "kVirtualURLQueryParam = ''virtualURL''"

definition OfflineURLForPath ::
  "'u offline_url_lib \<Rightarrow> file_path \<Rightarrow> 'u \<Rightarrow> 'u \<Rightarrow> 'u option" where
  "OfflineURLForPath U distilled_path entry_url virtual_url = do {
     check (distilled_path \<noteq> []);
     check (is_valid (ogl U) entry_url);
     check (is_valid (ogl U) virtual_url);
     let page_url = replace_path U distilled_path (parse (ogl U) kChromeUIOfflineURL);
         page_url = append_query_parameter (ogl U) page_url kEntryURLQueryParam (spec (ogl U) entry_url)
     in Some (append_query_parameter (ogl U) page_url kVirtualURLQueryParam (spec (ogl U) virtual_url)) }"

definition EntryURLForOfflineURL :: "'u offline_url_lib \<Rightarrow> 'u \<Rightarrow> 'u" where
  "EntryURLForOfflineURL U offline_url =
     (case get_value_for_key_in_query (ogl U) offline_url kEntryURLQueryParam of
        Some entry_url_string \<Rightarrow>
          let entry_url = parse (ogl U) entry_url_string
          in if is_valid (ogl U) entry_url then entry_url else empty_gurl (ogl U)
      | None \<Rightarrow> empty_gurl (ogl U))"

definition VirtualURLForOfflineURL :: "'u offline_url_lib \<Rightarrow> 'u \<Rightarrow> 'u" where
  "VirtualURLForOfflineURL U offline_url =
     (case get_value_for_key_in_query (ogl U) offline_url kVirtualURLQueryParam of
        Some virtual_url_string \<Rightarrow>
          let virtual_url = parse (ogl U) virtual_url_string
          in if is_valid (ogl U) virtual_url then virtual_url else empty_gurl (ogl U)
      | None \<Rightarrow> empty_gurl (ogl U))"

text \<open>The second component is what is stored through \<open>resources_root_url\<close>.\<close>

definition FileURLForDistilledURL ::
  "'u offline_url_lib \<Rightarrow> 'u \<Rightarrow> file_path \<Rightarrow> ('u \<times> 'u option) option" where
  "FileURLForDistilledURL U url offline_path =
     (if \<not> is_valid (ogl U) url then Some (empty_gurl (ogl U), None)
      else do {
        check (scheme_is (ogl U) kChromeUIScheme url);
        let file_url = parse (ogl U) (kFileScheme @ ''://'' @ offline_path @ url_path (ogl U) url)
        in Some (file_url, Some (resolve U file_url ''.'')) })"

definition IsOfflineURL :: "'u offline_url_lib \<Rightarrow> 'u \<Rightarrow> bool" where
  "IsOfflineURL U url \<longleftrightarrow> scheme_is (ogl U) kChromeUIScheme url \<and> url_host U url = kChromeUIOfflineHost"

definition IsOfflineURLValid ::
  "'u offline_url_lib \<Rightarrow> ('m, 'u) rl_model_lib \<Rightarrow> 'u \<Rightarrow> 'm option \<Rightarrow> bool option" where
  "IsOfflineURLValid U R url model =
     (if \<not> IsOfflineURL U url then Some False
      else let entry_url = EntryURLForOfflineURL U url
           in case model of
                None \<Rightarrow> Some False
              | Some m \<Rightarrow>
                  if \<not> is_valid (ogl U) entry_url \<or> \<not> loaded R m then Some False
                  else case GetEntryByURL R m entry_url of
                    None \<Rightarrow> Some False
                  | Some entry \<Rightarrow>
                      if DistilledState entry \<noteq> PROCESSED then Some False
                      else do {
                        u \<leftarrow> OfflineURLForPath U (DistilledPath entry) (entry_URL entry) (DistilledURL entry);
                        Some (url = u) })"

section \<open>Properties\<close>

text \<open>
  What the URL library promises: a query parameter that is appended is read back, unless the key was there before, and leaves the other keys, the scheme, the
  host and the path alone; the path put into \<open>chrome://offline/\<close> is read back behind its slash; the
  URLs built from valid ones are valid; the empty URL is not.
\<close>

definition offline_url_lib_ok :: "'u offline_url_lib \<Rightarrow> bool" where
  "offline_url_lib_ok U \<longleftrightarrow>
     (\<forall>u k v k'. get_value_for_key_in_query (ogl U) (append_query_parameter (ogl U) u k v) k' =
        (case get_value_for_key_in_query (ogl U) u k' of
           Some w \<Rightarrow> Some w | None \<Rightarrow> if k' = k then Some v else None)) \<and>
     (\<forall>u k v s. scheme_is (ogl U) s (append_query_parameter (ogl U) u k v) = scheme_is (ogl U) s u) \<and>
     (\<forall>u k v. url_host U (append_query_parameter (ogl U) u k v) = url_host U u) \<and>
     (\<forall>u k v. url_path (ogl U) (append_query_parameter (ogl U) u k v) = url_path (ogl U) u) \<and>
     (\<forall>u k v. is_valid (ogl U) (append_query_parameter (ogl U) u k v) = is_valid (ogl U) u) \<and>
     (\<forall>p. let u = replace_path U p (parse (ogl U) kChromeUIOfflineURL) in
        scheme_is (ogl U) kChromeUIScheme u \<and> url_host U u = kChromeUIOfflineHost \<and>
        url_path (ogl U) u = ''/'' @ p \<and> is_valid (ogl U) u \<and>
        (\<forall>k. get_value_for_key_in_query (ogl U) u k = None)) \<and>
     \<not> is_valid (ogl U) (empty_gurl (ogl U))"

lemma offline_url_lib_okD:
  assumes "offline_url_lib_ok U"
  shows "get_value_for_key_in_query (ogl U) (append_query_parameter (ogl U) u k v) k' =
        (case get_value_for_key_in_query (ogl U) u k' of
           Some w \<Rightarrow> Some w | None \<Rightarrow> if k' = k then Some v else None)"
    "scheme_is (ogl U) sc (append_query_parameter (ogl U) u k v) = scheme_is (ogl U) sc u"
    "url_host U (append_query_parameter (ogl U) u k v) = url_host U u"
    "url_path (ogl U) (append_query_parameter (ogl U) u k v) = url_path (ogl U) u"
    "is_valid (ogl U) (append_query_parameter (ogl U) u k v) = is_valid (ogl U) u"
    "scheme_is (ogl U) kChromeUIScheme (replace_path U p (parse (ogl U) kChromeUIOfflineURL))"
    "url_host U (replace_path U p (parse (ogl U) kChromeUIOfflineURL)) = kChromeUIOfflineHost"
    "url_path (ogl U) (replace_path U p (parse (ogl U) kChromeUIOfflineURL)) = ''/'' @ p"
    "is_valid (ogl U) (replace_path U p (parse (ogl U) kChromeUIOfflineURL))"
    "get_value_for_key_in_query (ogl U) (replace_path U p (parse (ogl U) kChromeUIOfflineURL)) k = None"
    "\<not> is_valid (ogl U) (empty_gurl (ogl U))"
  using assms unfolding offline_url_lib_ok_def Let_def by blast+

lemma query_params_differ: "kEntryURLQueryParam \<noteq> kVirtualURLQueryParam"
  by (simp add: kEntryURLQueryParam_def kVirtualURLQueryParam_def)

lemma OfflineURLForPath_facts:
  assumes ok: "offline_url_lib_ok U" and u: "OfflineURLForPath U path e v = Some u"
    and tx: "parse (ogl U) (spec (ogl U) e) = e" "parse (ogl U) (spec (ogl U) v) = v"
  shows "EntryURLForOfflineURL U u = e" "VirtualURLForOfflineURL U u = v" "IsOfflineURL U u"
    "is_valid (ogl U) u" "scheme_is (ogl U) kChromeUIScheme u" "url_path (ogl U) u = ''/'' @ path"
proof -
  note lib = offline_url_lib_okD [OF ok]
  from u have v: "is_valid (ogl U) e" "is_valid (ogl U) v" and
    ue: "u = append_query_parameter (ogl U) (append_query_parameter (ogl U)
        (replace_path U path (parse (ogl U) kChromeUIOfflineURL)) kEntryURLQueryParam (spec (ogl U) e))
        kVirtualURLQueryParam (spec (ogl U) v)"
    unfolding OfflineURLForPath_def by (auto elim!: check_SomeE simp: Let_def)
  show "EntryURLForOfflineURL U u = e" "VirtualURLForOfflineURL U u = v"
    using tx v query_params_differ
    unfolding ue EntryURLForOfflineURL_def VirtualURLForOfflineURL_def by (simp_all add: lib(1,10))
  show "IsOfflineURL U u" "is_valid (ogl U) u" "scheme_is (ogl U) kChromeUIScheme u"
    "url_path (ogl U) u = ''/'' @ path"
    unfolding ue by (simp_all add: IsOfflineURL_def lib(2-9))
qed

text \<open>
  Offline URLs carry what they were made from. The entry URL and the virtual URL of an offline
  URL are those it was built with, it is loaded from the file at its path below the offline
  directory, and it is valid for a loaded model exactly when the model has a processed entry under
  the entry URL whose own offline URL is this one.
\<close>

lemma offline_url_round_trip:
  assumes "offline_url_lib_ok U" "OfflineURLForPath U path e v = Some u"
    "parse (ogl U) (spec (ogl U) e) = e" "parse (ogl U) (spec (ogl U) v) = v" "loaded R m"
    "\<And>entry. GetEntryByURL R m e = Some entry \<Longrightarrow> DistilledState entry = PROCESSED \<Longrightarrow>
       DistilledPath entry \<noteq> [] \<and> entry_URL entry = e \<and> is_valid (ogl U) (DistilledURL entry)"
  shows "EntryURLForOfflineURL U u = e \<and> VirtualURLForOfflineURL U u = v \<and>
    map_option fst (FileURLForDistilledURL U u root) =
      Some (parse (ogl U) (''file://'' @ root @ ''/'' @ path)) \<and>
    (IsOfflineURLValid U R u (Some m) = Some True \<longleftrightarrow>
       (\<exists>entry. GetEntryByURL R m e = Some entry \<and> DistilledState entry = PROCESSED \<and>
          OfflineURLForPath U (DistilledPath entry) e (DistilledURL entry) = Some u))"
proof -
  note f = OfflineURLForPath_facts [OF assms(1-4)]
  have v: "is_valid (ogl U) e"
    using assms(2) unfolding OfflineURLForPath_def by (auto elim!: check_SomeE)
  have "IsOfflineURLValid U R u (Some m) = Some True \<longleftrightarrow>
       (\<exists>entry. GetEntryByURL R m e = Some entry \<and> DistilledState entry = PROCESSED \<and>
          OfflineURLForPath U (DistilledPath entry) e (DistilledURL entry) = Some u)"
    using f assms(5,6) v
    by (auto simp: IsOfflineURLValid_def Let_def bind_eq_Some_conv split: option.splits)
  with f show ?thesis
    by (simp add: FileURLForDistilledURL_def kFileScheme_def Let_def)
qed

section \<open>A concrete library\<close>

text \<open>URLs as scheme, host, path and query parameters; one web address has a text.\<close>

datatype param_url = Param_URL (p_scheme: string) (p_host: string) (p_path: string) (p_query: "(string \<times> string) list")

abbreviation param_page :: param_url where
  "param_page \<equiv> Param_URL ''http'' ''h'' ''/p'' []"

definition param_lib :: "param_url offline_url_lib" where
  "param_lib =
     \<lparr>ogl = \<lparr>spec = (\<lambda>u. ''http://h/p''),
        parse = (\<lambda>s. if s = kChromeUIOfflineURL then Param_URL ''chrome'' ''offline'' ''/'' []
                     else if s = ''http://h/p'' then param_page
                     else Param_URL ''file'' [] (drop 7 s) []),
        is_valid = (\<lambda>u. p_scheme u \<noteq> []), empty_gurl = Param_URL [] [] [] [],
        scheme_is = (\<lambda>s u. p_scheme u = s), url_path = p_path, url_query = (\<lambda>u. []), url_ref = (\<lambda>u. []),
        is_about_blank = (\<lambda>u. False), replace_scheme_path = (\<lambda>s p u. u), replace_ref = (\<lambda>r u. u),
        append_query_parameter = (\<lambda>u k v. Param_URL (p_scheme u) (p_host u) (p_path u) (p_query u @ [(k, v)])),
        get_value_for_key_in_query = (\<lambda>u k. map_of (p_query u) k),
        escape_query_param_value = (\<lambda>s. s), unescape_url_component = (\<lambda>s. s), write_json = (\<lambda>i us ts. []),
        restore_session_resource_path = [], is_app_specific_url = (\<lambda>u. False)\<rparr>,
      replace_path = (\<lambda>p u. Param_URL (p_scheme u) (p_host u) (''/'' @ p) (p_query u)),
      url_host = p_host, resolve = (\<lambda>u s. u)\<rparr>"

lemma param_lib_ok: "offline_url_lib_ok param_lib"
  by (simp add: offline_url_lib_ok_def param_lib_def Let_def map_add_def kChromeUIScheme_def
      kChromeUIOfflineHost_def split: option.split)

text \<open>A model with the entries of an association list, in which failures are counted.\<close>

type_synonym 'u demo_model = "('u \<times> 'u rl_entry) list"

definition demo_set_state :: "'u \<Rightarrow> distillation_state \<Rightarrow> 'u demo_model \<Rightarrow> 'u demo_model" where
  "demo_set_state u st m =
     map (\<lambda>(v, e). if v = u
        then (v, e\<lparr>DistilledState := st, DistilledPath := [],
                   FailedDownloadCounter := FailedDownloadCounter e +
                     (if (st = WILL_RETRY \<or> st = DISTILLATION_ERROR) \<and>
                         DistilledState e \<noteq> WILL_RETRY \<and> DistilledState e \<noteq> DISTILLATION_ERROR then 1 else 0)\<rparr>)
        else (v, e)) m"

definition demo_model_lib :: "('u demo_model, 'u) rl_model_lib" where
  "demo_model_lib =
     \<lparr>loaded = (\<lambda>m. True), Keys = map fst,
      GetEntryByURL = (\<lambda>m u. map_option (\<lambda>e. e\<lparr>entry_URL := u\<rparr>) (map_of m u)),
      SetEntryDistilledState = demo_set_state,
      SetEntryDistilledInfo = (\<lambda>u p d n t. map (\<lambda>(v, e). if v = u
         then (v, e\<lparr>DistilledState := PROCESSED, FailedDownloadCounter := 0, DistilledPath := p, DistilledURL := d\<rparr>) else (v, e))),
      SetEntryTitle = (\<lambda>u t m. m), DeleteAllEntries = (\<lambda>m. (True, [])), url_set = remdups,
      CollapseWhitespaceASCII = (\<lambda>s. s)\<rparr>"

lemma offline_url_round_trip_witness:
  "\<exists>u. OfflineURLForPath param_lib ''d/page.html'' param_page param_page = Some u \<and>
     EntryURLForOfflineURL param_lib u = param_page \<and>
     map_option fst (FileURLForDistilledURL param_lib u ''/root'') =
       Some (Param_URL ''file'' [] ''/root/d/page.html'' []) \<and>
     IsOfflineURLValid param_lib demo_model_lib u
       (Some [(param_page, \<lparr>entry_URL = param_page, DistilledState = PROCESSED, FailedDownloadCounter = 0,
          IsRead = False, DistilledPath = ''d/page.html'', DistilledURL = param_page\<rparr>)]) = Some True"
proof -
  let ?e = "\<lparr>entry_URL = param_page, DistilledState = PROCESSED, FailedDownloadCounter = 0,
          IsRead = False, DistilledPath = ''d/page.html'', DistilledURL = param_page\<rparr>"
  obtain u where u: "OfflineURLForPath param_lib ''d/page.html'' param_page param_page = Some u"
    by (simp add: OfflineURLForPath_def param_lib_def)
  have p: "parse (ogl param_lib) (spec (ogl param_lib) param_page) = param_page"
    by (simp add: param_lib_def kChromeUIOfflineURL_def)
  have g: "GetEntryByURL demo_model_lib [(param_page, ?e)] param_page = Some entry \<longleftrightarrow> entry = ?e" for entry
    by (auto simp: demo_model_lib_def)
  have l: "loaded demo_model_lib [(param_page, ?e)]" by (simp add: demo_model_lib_def)
  have "is_valid (ogl param_lib) param_page" by (simp add: param_lib_def)
  with offline_url_round_trip [OF param_lib_ok u p p l, of "''/root''"] g u show ?thesis
    by (intro exI [of _ u]) (simp add: param_lib_def kChromeUIOfflineURL_def)
qed

end
