(* ===== verification/Reading_List_Service.thy ===== *)
theory Reading_List_Service
  imports Url_Downloader_Props Offline_Url
begin

text \<open>
  \<open>chrome/browser/reading_list/reading_list_download_service.cc\<close>, the service that downloads the
  entries of the reading list, and \<open>reading_list_remover_helper.cc\<close>. The service owns a downloader
  and is its only client, so that its steps are those of the downloader together with the
  notifications of the model and of the network. Delayed calls of \<open>DownloadEntry\<close> may run in any
  order: the list \<open>scheduled\<close> holds them, and a step runs any one of them.
\<close>

section \<open>State\<close>

datatype uma_download_status = UMA_SUCCESS | UMA_FAILURE | UMA_RETRY

definition kNumberOfFailsBeforeWifiOnly :: int where "kNumberOfFailsBeforeWifiOnly = 5"
definition kNumberOfFailsBeforeStop :: int where "kNumberOfFailsBeforeStop = 7"

datatype connection_type =
  CONNECTION_UNKNOWN | CONNECTION_NONE | CONNECTION_WIFI | CONNECTION_OTHER nat

text \<open>The network as the code sees it; the type may not be known yet.\<close>

record network =
  IsOffline :: bool
  known_connection :: "connection_type option"

record ('m, 'u) rl_service =
  rs_model :: 'm
  rs_path :: file_path
  rs_downloader :: "'u url_downloader"
  url_to_download_cellular :: "'u list"
  url_to_download_wifi :: "'u list"
  had_connection :: bool
  observing :: bool
  scheduled :: "'u list"
  cleanups :: "(file_path \<times> string list \<times> 'u list) list"
  cleanup_replies :: "'u list list"
  released_web_states :: nat
  uma_status :: "uma_download_status list"

definition new_ReadingListDownloadService ::
  "'u offline_lib \<Rightarrow> 'm \<Rightarrow> file_path \<Rightarrow> int \<Rightarrow> network \<Rightarrow> ('m, 'u) rl_service" where
  "new_ReadingListDownloadService L m path uninitialised net =
     \<lparr>rs_model = m, rs_path = path, rs_downloader = new_URLDownloader L path uninitialised,
      url_to_download_cellular = [], url_to_download_wifi = [], had_connection = \<not> IsOffline net,
      observing = False, scheduled = [], cleanups = [], cleanup_replies = [],
      released_web_states = 0, uma_status = []\<rparr>"

definition Initialize :: "('m, 'u) rl_service \<Rightarrow> ('m, 'u) rl_service" where
  "Initialize s = s\<lparr>observing := True\<rparr>"

definition Shutdown :: "('m, 'u) rl_service \<Rightarrow> ('m, 'u) rl_service" where
  "Shutdown s = s\<lparr>observing := False\<rparr>"

definition OfflineRoot :: "'u offline_lib \<Rightarrow> ('m, 'u) rl_service \<Rightarrow> file_path" where
  "OfflineRoot L s = OfflineRootDirectoryPath L (rs_path s)"

definition Clear :: "('m, 'u) rl_service \<Rightarrow> ('m, 'u) rl_service" where
  "Clear s = s\<lparr>released_web_states := Suc (released_web_states s)\<rparr>"

section \<open>Operations\<close>

text \<open>The condition under which \<open>ScheduleDownloadEntry\<close> and \<open>DownloadEntry\<close> give up.\<close>

definition not_to_download :: "'u rl_entry option \<Rightarrow> bool" where
  "not_to_download entry =
     (case entry of
        None \<Rightarrow> True
      | Some e \<Rightarrow> DistilledState e = DISTILLATION_ERROR \<or> DistilledState e = PROCESSED \<or> IsRead e)"

definition ScheduleDownloadEntry ::
  "('m, 'u) rl_model_lib \<Rightarrow> 'u \<Rightarrow> ('m, 'u) rl_service \<Rightarrow> ('m, 'u) rl_service option" where
  "ScheduleDownloadEntry R url s = do {
     check (loaded R (rs_model s));
     Some (if not_to_download (GetEntryByURL R (rs_model s) url) then s
           else s\<lparr>scheduled := scheduled s @ [url]\<rparr>) }"

definition start_download ::
  "('m, 'u) rl_model_lib \<Rightarrow> 'u offline_lib \<Rightarrow> 'u \<Rightarrow> ('m, 'u) rl_service \<Rightarrow> ('m, 'u) rl_service option" where
  "start_download R L url s = do {
     d \<leftarrow> DownloadOfflineURL L url (rs_downloader s);
     Some (s\<lparr>rs_model := SetEntryDistilledState R url PROCESSING (rs_model s), rs_downloader := d\<rparr>) }"

definition DownloadEntry ::
  "('m, 'u) rl_model_lib \<Rightarrow> 'u offline_lib \<Rightarrow> network \<Rightarrow> 'u \<Rightarrow> ('m, 'u) rl_service
   \<Rightarrow> ('m, 'u) rl_service option" where
  "DownloadEntry R L net url s = do {
     check (loaded R (rs_model s));
     case GetEntryByURL R (rs_model s) url of
       None \<Rightarrow> Some s
     | Some entry \<Rightarrow>
         if not_to_download (Some entry) then Some s
         else if IsOffline net then
           (let s = (if FailedDownloadCounter entry < kNumberOfFailsBeforeWifiOnly
                     then s\<lparr>url_to_download_cellular := url_to_download_cellular s @ [entry_URL entry]\<rparr>
                     else s)
            in Some (if FailedDownloadCounter entry < kNumberOfFailsBeforeStop
                     then s\<lparr>url_to_download_wifi := url_to_download_wifi s @ [entry_URL entry]\<rparr>
                     else s))
         else if FailedDownloadCounter entry < kNumberOfFailsBeforeWifiOnly
           then start_download R L (entry_URL entry) s
         else if FailedDownloadCounter entry < kNumberOfFailsBeforeStop then
           (let connection_type = (case known_connection net of Some t \<Rightarrow> t | None \<Rightarrow> CONNECTION_UNKNOWN)
            in if connection_type = CONNECTION_WIFI then start_download R L (entry_URL entry) s
               else Some (s\<lparr>url_to_download_wifi := url_to_download_wifi s @ [entry_URL entry]\<rparr>))
         else Some s }"

definition RemoveDownloadedEntry ::
  "('m, 'u) rl_model_lib \<Rightarrow> 'u offline_lib \<Rightarrow> 'u \<Rightarrow> ('m, 'u) rl_service \<Rightarrow> ('m, 'u) rl_service option" where
  "RemoveDownloadedEntry R L url s = do {
     check (loaded R (rs_model s));
     d \<leftarrow> RemoveOfflineURL L url (rs_downloader s);
     Some (s\<lparr>rs_downloader := d\<rparr>) }"

definition ProcessNewEntry ::
  "('m, 'u) rl_model_lib \<Rightarrow> 'u \<Rightarrow> ('m, 'u) rl_service \<Rightarrow> ('m, 'u) rl_service option" where
  "ProcessNewEntry R url s =
     (case GetEntryByURL R (rs_model s) url of
        None \<Rightarrow> Some (s\<lparr>rs_downloader := CancelDownloadOfflineURL url (rs_downloader s)\<rparr>)
      | Some entry \<Rightarrow>
          if IsRead entry
          then Some (s\<lparr>rs_downloader := CancelDownloadOfflineURL url (rs_downloader s)\<rparr>)
          else ScheduleDownloadEntry R url s)"

text \<open>\<open>SyncWithModel\<close>: the loop over the keys, then the posted cleanup with its reply.\<close>

fun sync_entries ::
  "('m, 'u) rl_model_lib \<Rightarrow> 'u offline_lib \<Rightarrow> 'm \<Rightarrow> 'u list \<Rightarrow> (string list \<times> 'u list) option" where
  "sync_entries R L m [] = Some ([], [])"
| "sync_entries R L m (url # urls) = do {
     entry \<leftarrow> GetEntryByURL R m url;
     (processed_directories, unprocessed_entries) \<leftarrow> sync_entries R L m urls;
     Some (case DistilledState entry of
        PROCESSED \<Rightarrow> (OfflineURLDirectoryID L url # processed_directories, unprocessed_entries)
      | WAITING \<Rightarrow> (processed_directories, url # unprocessed_entries)
      | PROCESSING \<Rightarrow> (processed_directories, url # unprocessed_entries)
      | WILL_RETRY \<Rightarrow> (processed_directories, url # unprocessed_entries)
      | DISTILLATION_ERROR \<Rightarrow> (processed_directories, unprocessed_entries)) }"

definition SyncWithModel ::
  "('m, 'u) rl_model_lib \<Rightarrow> 'u offline_lib \<Rightarrow> ('m, 'u) rl_service \<Rightarrow> ('m, 'u) rl_service option" where
  "SyncWithModel R L s = do {
     check (loaded R (rs_model s));
     (processed_directories, unprocessed_entries) \<leftarrow> sync_entries R L (rs_model s) (Keys R (rs_model s));
     Some (s\<lparr>cleanups := cleanups s @
       [(OfflineRoot L s, processed_directories, url_set R unprocessed_entries)]\<rparr>) }"

fun clean_up_directories ::
  "'u offline_lib \<Rightarrow> 'fs file_lib \<Rightarrow> string list \<Rightarrow> file_path list \<Rightarrow> 'fs \<Rightarrow> 'fs" where
  "clean_up_directories L F processed [] fs = fs"
| "clean_up_directories L F processed (sub_directory # rest) fs =
     clean_up_directories L F processed rest
       (if \<not> List.member processed (BaseName L sub_directory)
        then snd (DeleteFile F sub_directory fs) else fs)"

definition CleanUpFiles ::
  "'u offline_lib \<Rightarrow> 'fs file_lib \<Rightarrow> file_path \<Rightarrow> string list \<Rightarrow> 'fs \<Rightarrow> 'fs" where
  "CleanUpFiles L F root processed_directories fs =
     clean_up_directories L F processed_directories (SubDirectories F root fs) fs"

fun DownloadUnprocessedEntries ::
  "('m, 'u) rl_model_lib \<Rightarrow> 'u list \<Rightarrow> ('m, 'u) rl_service \<Rightarrow> ('m, 'u) rl_service option" where
  "DownloadUnprocessedEntries R [] s = Some s"
| "DownloadUnprocessedEntries R (url # urls) s =
     Option.bind (ScheduleDownloadEntry R url s) (DownloadUnprocessedEntries R urls)"

definition ReadingListModelLoaded ::
  "('m, 'u) rl_model_lib \<Rightarrow> 'u offline_lib \<Rightarrow> ('m, 'u) rl_service \<Rightarrow> ('m, 'u) rl_service option" where
  "ReadingListModelLoaded R L s = SyncWithModel R L s"

definition ReadingListWillRemoveEntry ::
  "('m, 'u) rl_model_lib \<Rightarrow> 'u offline_lib \<Rightarrow> 'u \<Rightarrow> ('m, 'u) rl_service \<Rightarrow> ('m, 'u) rl_service option" where
  "ReadingListWillRemoveEntry R L url s = do {
     check (GetEntryByURL R (rs_model s) url \<noteq> None);
     RemoveDownloadedEntry R L url s }"

definition ReadingListDidAddEntry ::
  "('m, 'u) rl_model_lib \<Rightarrow> 'u \<Rightarrow> ('m, 'u) rl_service \<Rightarrow> ('m, 'u) rl_service option" where
  "ReadingListDidAddEntry R url s = ProcessNewEntry R url s"

definition ReadingListDidMoveEntry ::
  "('m, 'u) rl_model_lib \<Rightarrow> 'u \<Rightarrow> ('m, 'u) rl_service \<Rightarrow> ('m, 'u) rl_service option" where
  "ReadingListDidMoveEntry R url s = ProcessNewEntry R url s"

text \<open>The two outcomes of a download, and the callback that chooses between them.\<close>

definition download_succeeded ::
  "('m, 'u) rl_model_lib \<Rightarrow> int \<Rightarrow> 'u \<Rightarrow> 'u \<Rightarrow> file_path \<Rightarrow> int \<Rightarrow> string \<Rightarrow> ('m, 'u) rl_service
   \<Rightarrow> ('m, 'u) rl_service" where
  "download_succeeded R now url distilled path n title s =
     (let m = SetEntryDistilledInfo R url path distilled n now (rs_model s);
          trimmed_title = CollapseWhitespaceASCII R title;
          m = (if trimmed_title \<noteq> [] then SetEntryTitle R url trimmed_title m else m)
      in s\<lparr>rs_model := m, uma_status := uma_status s @ [UMA_SUCCESS]\<rparr>)"

definition download_failed ::
  "('m, 'u) rl_model_lib \<Rightarrow> 'u \<Rightarrow> ('m, 'u) rl_service \<Rightarrow> ('m, 'u) rl_service option" where
  "download_failed R url s =
     (if (case GetEntryByURL R (rs_model s) url of
            Some entry \<Rightarrow> FailedDownloadCounter entry + 1 < kNumberOfFailsBeforeStop | None \<Rightarrow> False)
      then do {
        s \<leftarrow> ScheduleDownloadEntry R url
               (s\<lparr>rs_model := SetEntryDistilledState R url WILL_RETRY (rs_model s)\<rparr>);
        Some (s\<lparr>uma_status := uma_status s @ [UMA_RETRY]\<rparr>) }
      else Some (s\<lparr>uma_status := uma_status s @ [UMA_FAILURE],
                   rs_model := SetEntryDistilledState R url DISTILLATION_ERROR (rs_model s)\<rparr>))"

definition OnDownloadEnd ::
  "('m, 'u) rl_model_lib \<Rightarrow> int \<Rightarrow> 'u \<Rightarrow> 'u \<Rightarrow> success_state \<Rightarrow> file_path \<Rightarrow> int \<Rightarrow> string
   \<Rightarrow> ('m, 'u) rl_service \<Rightarrow> ('m, 'u) rl_service option" where
  "OnDownloadEnd R now url distilled success path n title s = do {
     check (loaded R (rs_model s));
     let real_success_value = (if path = [] then ERROR else success)
     in case real_success_value of
          DOWNLOAD_SUCCESS \<Rightarrow> Some (download_succeeded R now url distilled path n title s)
        | DOWNLOAD_EXISTS \<Rightarrow> Some (download_succeeded R now url distilled path n title s)
        | ERROR \<Rightarrow> download_failed R url s }"

definition OnDeleteEnd :: "'u \<Rightarrow> bool \<Rightarrow> ('m, 'u) rl_service \<Rightarrow> ('m, 'u) rl_service" where
  "OnDeleteEnd url success s = s"

definition OnConnectionChanged ::
  "('m, 'u) rl_model_lib \<Rightarrow> connection_type \<Rightarrow> ('m, 'u) rl_service \<Rightarrow> ('m, 'u) rl_service option" where
  "OnConnectionChanged R type s =
     (if type = CONNECTION_NONE then Some (s\<lparr>had_connection := False\<rparr>)
      else do {
        s \<leftarrow> (if \<not> had_connection s
              then DownloadUnprocessedEntries R (url_to_download_cellular s) (s\<lparr>had_connection := True\<rparr>)
              else Some s);
        if type = CONNECTION_WIFI
        then DownloadUnprocessedEntries R (url_to_download_wifi s) s
        else Some s })"

section \<open>Steps\<close>

fun on_completion ::
  "('m, 'u) rl_model_lib \<Rightarrow> int \<Rightarrow> 'u completion \<Rightarrow> ('m, 'u) rl_service \<Rightarrow> ('m, 'u) rl_service option" where
  "on_completion R now (DownloadCompletion url distilled success path n title) s =
     OnDownloadEnd R now url distilled success path n title s"
| "on_completion R now (DeleteCompletion url success) s = Some (OnDeleteEnd url success s)"

fun on_completions ::
  "('m, 'u) rl_model_lib \<Rightarrow> int \<Rightarrow> 'u completion list \<Rightarrow> ('m, 'u) rl_service \<Rightarrow> ('m, 'u) rl_service option" where
  "on_completions R now [] s = Some s"
| "on_completions R now (c # cs) s = Option.bind (on_completion R now c s) (on_completions R now cs)"

datatype ('m, 'u) svc_event =
    ModelLoaded | WillRemoveEntry 'u | DidAddEntry 'u | DidMoveEntry 'u | ModelChanged 'm
  | RunScheduled nat | RunCleanUp | CleanUpDone | ConnectionChanged connection_type
  | Background "'u dl_event" int | ClearQueue

text \<open>The events of the downloader that are not calls of its client.\<close>

fun internal :: "'u dl_event \<Rightarrow> bool" where
  "internal (Download u) = False"
| "internal (CancelDownload u) = False"
| "internal (Remove u) = False"
| "internal Cancel = False"
| "internal _ = True"

fun svc_step ::
  "('m, 'u) rl_model_lib \<Rightarrow> 'u offline_lib \<Rightarrow> 'fs file_lib \<Rightarrow> network \<Rightarrow> ('m, 'u) svc_event
   \<Rightarrow> ('m, 'u) rl_service \<times> 'fs \<Rightarrow> (('m, 'u) rl_service \<times> 'fs) option" where
  "svc_step R L F net ModelLoaded (s, fs) = map_option (\<lambda>s. (s, fs)) (ReadingListModelLoaded R L s)"
| "svc_step R L F net (WillRemoveEntry u) (s, fs) =
     map_option (\<lambda>s. (s, fs)) (ReadingListWillRemoveEntry R L u s)"
| "svc_step R L F net (DidAddEntry u) (s, fs) = map_option (\<lambda>s. (s, fs)) (ReadingListDidAddEntry R u s)"
| "svc_step R L F net (DidMoveEntry u) (s, fs) = map_option (\<lambda>s. (s, fs)) (ReadingListDidMoveEntry R u s)"
| "svc_step R L F net (ModelChanged m) (s, fs) = Some (s\<lparr>rs_model := m\<rparr>, fs)"
| "svc_step R L F net (RunScheduled i) (s, fs) = do {
     check (i < length (scheduled s));
     map_option (\<lambda>s. (s, fs))
       (DownloadEntry R L net (scheduled s ! i) (s\<lparr>scheduled := remove_at i (scheduled s)\<rparr>)) }"
| "svc_step R L F net RunCleanUp (s, fs) =
     (case cleanups s of
        [] \<Rightarrow> None
      | (root, processed, unprocessed) # rest \<Rightarrow>
          Some (s\<lparr>cleanups := rest, cleanup_replies := cleanup_replies s @ [unprocessed]\<rparr>,
                CleanUpFiles L F root processed fs))"
| "svc_step R L F net CleanUpDone (s, fs) =
     (case cleanup_replies s of
        [] \<Rightarrow> None
      | unprocessed # rest \<Rightarrow>
          map_option (\<lambda>s. (s, fs)) (DownloadUnprocessedEntries R unprocessed (s\<lparr>cleanup_replies := rest\<rparr>)))"
| "svc_step R L F net (ConnectionChanged t) (s, fs) =
     map_option (\<lambda>s. (s, fs)) (OnConnectionChanged R t s)"
| "svc_step R L F net (Background ev now) (s, fs) = do {
     check (internal ev \<and> dl_enabled ev (rs_downloader s));
     (outs, d, fs) \<leftarrow> dl_step L F ev (rs_downloader s, fs);
     map_option (\<lambda>s. (s, fs)) (on_completions R now outs (s\<lparr>rs_downloader := d\<rparr>)) }"
| "svc_step R L F net ClearQueue (s, fs) = Some (Clear s, fs)"

end
