(* ===== verification/Reading_List_Props.thy ===== *)
theory Reading_List_Props
  imports Reading_List_Service
begin

text \<open>
  Properties of the reading list service: which downloads enter the queue of the downloader, how
  often a page is retried, what a synchronisation with the model does to the disk and to the
  schedule; and the helper that removes all entries.
\<close>

section \<open>Downloads enter the queue only for eligible entries\<close>

definition wants :: "'u \<Rightarrow> 'u url_downloader \<Rightarrow> bool" where
  "wants u d \<longleftrightarrow> (DOWNLOAD, u) \<in> set (tasks d) \<or> (\<exists>p. JobExists u p \<in> set (posted d))"

lemma wants_HandleNextTask: "HandleNextTask L d = Some d' \<Longrightarrow> wants u d' = wants u d"
  by (auto simp: HandleNextTask_def wants_def post_def OfflinePathExists_def Let_def bind_eq_Some_conv
           split: if_splits list.splits task_type.splits) blast

lemma wants_DownloadOfflineURL: "DownloadOfflineURL L v d = Some d' \<Longrightarrow> wants u d' \<longleftrightarrow> u = v \<or> wants u d"
  by (auto simp: DownloadOfflineURL_def wants_def split: if_splits dest!: wants_HandleNextTask [of L _ _ u])

lemma wants_RemoveOfflineURL: "RemoveOfflineURL L v d = Some d' \<Longrightarrow> wants u d' \<Longrightarrow> wants u d"
  by (auto simp: RemoveOfflineURL_def CancelDownloadOfflineURL_def wants_def Let_def
           dest!: wants_HandleNextTask [of L _ _ u])

lemma wants_Cancel: "wants u (CancelDownloadOfflineURL v d) \<Longrightarrow> wants u d"
  by (auto simp: CancelDownloadOfflineURL_def wants_def)

lemma wants_CancelTask: "wants u (CancelTask d) \<Longrightarrow> wants u d"
  by (auto simp: CancelTask_def wants_def)

lemma wants_new: "\<not> wants u (new_URLDownloader L path n)"
  by (simp add: new_URLDownloader_def wants_def)

lemma wants_post_delete: "post_delete L w t p r d = Some (outs, d') \<Longrightarrow> wants u d' = wants u d"
  by (auto simp: post_delete_def wants_def dest!: wants_HandleNextTask [of L _ _ u])

lemma wants_DownloadCompletionHandler:
  "DownloadCompletionHandler L w t p r d = Some (outs, d') \<Longrightarrow> wants u d' = wants u d"
  unfolding DownloadCompletionHandler_def
  by (elim check_SomeE) (auto simp: post_def wants_def split: if_splits dest!: wants_post_delete [of L _ _ _ _ _ _ _ u])

lemma wants_run_reply: "run_reply L r d = Some (outs, d') \<Longrightarrow> wants u d' = wants u d"
proof (cases r)
  case (ReplyDelete v b)
  then show "run_reply L r d = Some (outs, d') \<Longrightarrow> wants u d' = wants u d"
    unfolding run_reply.simps DeleteCompletionHandler_def
    by (auto elim!: check_SomeE simp: DeleteCompletionHandler_def wants_def dest!: wants_HandleNextTask [of L _ _ u])
next
  case (ReplyExists v b)
  then show "run_reply L r d = Some (outs, d') \<Longrightarrow> wants u d' = wants u d"
    by (auto simp: DownloadURL_def wants_def split: if_splits
             dest!: wants_DownloadCompletionHandler [of L _ _ _ _ _ _ _ u])
qed (auto dest: wants_post_delete wants_DownloadCompletionHandler)

lemma wants_on_article: "on_article L a d = Some (outs, d') \<Longrightarrow> wants u d' = wants u d"
proof -
  assume r: "on_article L a d = Some (outs, d')"
  then obtain v where v: "distiller d = Some v" by (auto simp: on_article_def bind_eq_Some_conv)
  obtain url h ims t v' where "OnDistillerFinished (dl L) a v = ((url, h, ims, t), v')"
    by (metis prod.exhaust)
  with r v show ?thesis
    by (auto simp: on_article_def DistillerCallback_def FetchPDFFile_def post_def wants_def Let_def
             split: if_splits dest!: wants_DownloadCompletionHandler [of L _ _ _ _ _ _ _ u])
qed

lemma wants_on_loaded: "on_loaded L p i d = Some (outs, d') \<Longrightarrow> wants u d' = wants u d"
  unfolding on_loaded_def OnURLLoadComplete_def
  by (elim bind_SomeE check_SomeE)
     (auto simp: post_def wants_def Let_def split: if_splits
           dest!: wants_DownloadCompletionHandler [of L _ _ _ _ _ _ _ u])

lemma same_posted: "same_but_size s s' \<Longrightarrow> posted s' = posted s"
  by (cases s; cases s') (simp add: same_but_size_def)

lemma wants_internal:
  assumes "internal ev" "dl_step L F ev (d, fs) = Some (outs, d', fs')" "wants u d'"
  shows "wants u d"
proof (cases "ev = RunJob")
  case True
  with assms(2) obtain j js r d1 where j: "posted d = j # js"
    "run_job L F j (d\<lparr>posted := js\<rparr>) fs = Some (r, d1, fs')" "d' = d1\<lparr>replies := replies d1 @ [r]\<rparr>"
    by (auto simp: bind_eq_Some_conv split: list.splits)
  from same_tasks [OF run_job_frame(1) [OF j(2)]] same_posted [OF run_job_frame(1) [OF j(2)]] j assms(3)
  show ?thesis by (auto simp: wants_def)
next
  case False
  with assms(2) have f: "dl_front L ev d = Some (outs, d')" by (auto simp: dl_step_front)
  show ?thesis
  proof (cases ev)
    case RunReply
    with f obtain r rs where "run_reply L r (d\<lparr>replies := rs\<rparr>) = Some (outs, d')"
      by (auto split: list.splits)
    from wants_run_reply [OF this, of u] assms(3) show ?thesis by (simp add: wants_def)
  next
    case (Distilled a)
    with f wants_on_article assms(3) show ?thesis by fastforce
  next
    case (Loaded p i)
    with f wants_on_loaded assms(3) show ?thesis by fastforce
  qed (use f assms in \<open>auto simp: DistilledPageRedirectedToURL_def DistilledPageHasMimeType_def
         bind_eq_Some_conv wants_def\<close>)
qed

text \<open>What the service relies on: the downloader wants a page only when it was asked for it.\<close>

interpretation wanted: request_machine "\<lambda>ev sf. map_option snd (dl_step L F ev sf)" "\<lambda>u sf. wants u (fst sf)"
  "\<lambda>ev u. ev = Download u" for L :: "'u offline_lib" and F :: "'fs file_lib"
proof
  fix ev :: "'u dl_event" and sf sf' :: "'u url_downloader \<times> 'fs" and u
  assume "map_option snd (dl_step L F ev sf) = Some sf'" and w: "wants u (fst sf')"
  then obtain d fs outs d' fs' where s: "sf = (d, fs)" "sf' = (d', fs')" "dl_step L F ev (d, fs) = Some (outs, d', fs')"
    by (cases sf; cases sf') auto
  show "wants u (fst sf) \<or> ev = Download u"
  proof (cases "internal ev")
    case True
    from wants_internal [OF this s(3)] w s show ?thesis by simp
  next
    case False
    then show ?thesis
      using s w
      by (cases ev) (auto dest: wants_CancelTask wants_DownloadOfflineURL [of L _ _ _ u] wants_RemoveOfflineURL wants_Cancel)
  qed
qed

lemma nothing_unasked:
  assumes "run_events (\<lambda>ev sf. map_option snd (dl_step L F ev sf)) evs (new_URLDownloader L path n, fs) = Some (d, fs')"
    "wants u d"
  shows "Download u \<in> set evs"
  using wanted.run_requests [OF assms(1), of u] assms(2)
  by (auto simp: wants_new)

lemma downloader_frame:
  "ScheduleDownloadEntry R v s = Some s' \<Longrightarrow> rs_downloader s' = rs_downloader s"
  "DownloadUnprocessedEntries R vs s = Some s' \<Longrightarrow> rs_downloader s' = rs_downloader s"
proof -
  show a: "ScheduleDownloadEntry R v s = Some s' \<Longrightarrow> rs_downloader s' = rs_downloader s" for v s s'
    by (auto simp: ScheduleDownloadEntry_def bind_eq_Some_conv)
  show "DownloadUnprocessedEntries R vs s = Some s' \<Longrightarrow> rs_downloader s' = rs_downloader s"
    by (induction vs arbitrary: s) (auto simp: bind_eq_Some_conv dest!: a)
qed

lemma on_completion_downloader: "on_completion R now c s = Some s' \<Longrightarrow> rs_downloader s' = rs_downloader s"
  by (cases c)
     (auto simp: OnDownloadEnd_def OnDeleteEnd_def download_failed_def download_succeeded_def Let_def
        bind_eq_Some_conv split: if_splits success_state.splits dest!: downloader_frame(1))

lemma on_completions_downloader: "on_completions R now cs s = Some s' \<Longrightarrow> rs_downloader s' = rs_downloader s"
  by (induction cs arbitrary: s) (auto simp: bind_eq_Some_conv dest!: on_completion_downloader)

definition eligible :: "network \<Rightarrow> 'u rl_entry option \<Rightarrow> bool" where
  "eligible net entry =
     (case entry of
        None \<Rightarrow> False
      | Some e \<Rightarrow>
          DistilledState e \<notin> {DISTILLATION_ERROR, PROCESSED} \<and> \<not> IsRead e \<and> \<not> IsOffline net \<and>
          (FailedDownloadCounter e < 5 \<or>
           FailedDownloadCounter e < 7 \<and> known_connection net = Some CONNECTION_WIFI))"

lemma DownloadEntry_wants:
  assumes "DownloadEntry R L net v s = Some s'" "wants u (rs_downloader s')" "\<not> wants u (rs_downloader s)"
    "\<And>e. GetEntryByURL R (rs_model s) v = Some e \<Longrightarrow> entry_URL e = v"
  shows "u = v \<and> eligible net (GetEntryByURL R (rs_model s) u) \<and>
     rs_model s' = SetEntryDistilledState R u PROCESSING (rs_model s)"
proof -
  from assms(1) have "loaded R (rs_model s)" by (auto simp: DownloadEntry_def bind_check split: if_splits)
  with assms show ?thesis
    by (auto simp: DownloadEntry_def start_download_def not_to_download_def eligible_def
          kNumberOfFailsBeforeWifiOnly_def kNumberOfFailsBeforeStop_def Let_def bind_eq_Some_conv
        split: option.splits if_splits dest!: wants_DownloadOfflineURL [of L _ _ _ u])
qed

text \<open>
  C31. A download is handed to the downloader only for an eligible entry. Whatever step of the
  service makes the downloader want a URL it did not want before, the step runs a delayed
  \<open>DownloadEntry\<close> for that URL while the network is on, the model has an unread entry for it that is
  neither processed nor given up, which failed fewer than five times, or fewer than seven times on
  wifi; and the step marks the entry as being processed.
\<close>

theorem downloads_only_eligible:
  assumes "svc_step R L F net ev (s, fs) = Some (s', fs')"
    "wants u (rs_downloader s')" "\<not> wants u (rs_downloader s)"
    "\<And>v e. GetEntryByURL R (rs_model s) v = Some e \<Longrightarrow> entry_URL e = v"
  shows "(\<exists>i. ev = RunScheduled i \<and> i < length (scheduled s) \<and> scheduled s ! i = u) \<and>
    eligible net (GetEntryByURL R (rs_model s) u) \<and>
    rs_model s' = SetEntryDistilledState R u PROCESSING (rs_model s)"
proof (cases ev)
  case (RunScheduled i)
  with assms(1) have i: "i < length (scheduled s)"
    and d: "DownloadEntry R L net (scheduled s ! i) (s\<lparr>scheduled := remove_at i (scheduled s)\<rparr>) = Some s'"
    by (auto elim!: check_SomeE)
  from DownloadEntry_wants [OF d assms(2)] assms(3,4) i RunScheduled show ?thesis by auto
next
  case (Background e now)
  with assms(1) obtain outs d fs1 where b: "internal e" "dl_step L F e (rs_downloader s, fs) = Some (outs, d, fs1)"
    "on_completions R now outs (s\<lparr>rs_downloader := d\<rparr>) = Some s'"
    by (auto simp: bind_eq_Some_conv)
  from on_completions_downloader [OF b(3)] wants_internal [OF b(1,2)] assms(2,3) show ?thesis by simp
next
  case (WillRemoveEntry v)
  with assms show ?thesis
    by (auto simp: ReadingListWillRemoveEntry_def RemoveDownloadedEntry_def bind_eq_Some_conv
             dest: wants_RemoveOfflineURL)
next
  case (DidAddEntry v)
  with assms show ?thesis
    by (auto simp: ReadingListDidAddEntry_def ProcessNewEntry_def split: option.splits if_splits
             dest: wants_Cancel downloader_frame(1))
next
  case (DidMoveEntry v)
  with assms show ?thesis
    by (auto simp: ReadingListDidMoveEntry_def ProcessNewEntry_def split: option.splits if_splits
             dest: wants_Cancel downloader_frame(1))
next
  case (ConnectionChanged t)
  with assms show ?thesis
    by (auto simp: OnConnectionChanged_def bind_eq_Some_conv split: if_splits dest!: downloader_frame(2))
qed (use assms in \<open>auto simp: ReadingListModelLoaded_def SyncWithModel_def Clear_def bind_eq_Some_conv
       split: list.splits dest!: downloader_frame(2)\<close>)

section \<open>Retries\<close>

text \<open>
  What the model promises about the operations the service uses: entries are found under their own URL;
  setting the state of an entry sets it and counts a failure when the entry goes from a state that is not
  an error to one that is, keeping whether it is read (the distilled path and URL may change); storing
  where the distilled page is resets the count; and no operation touches the entry of another URL.
\<close>

definition is_error_state :: "distillation_state \<Rightarrow> bool" where
  "is_error_state st \<longleftrightarrow> st = WILL_RETRY \<or> st = DISTILLATION_ERROR"

definition counted :: "distillation_state \<Rightarrow> 'u rl_entry \<Rightarrow> int" where
  "counted st e = FailedDownloadCounter e + (if is_error_state st \<and> \<not> is_error_state (DistilledState e) then 1 else 0)"

definition model_ok :: "('m, 'u) rl_model_lib \<Rightarrow> bool" where
  "model_ok R \<longleftrightarrow>
     (\<forall>m u e. GetEntryByURL R m u = Some e \<longrightarrow> entry_URL e = u) \<and>
     (\<forall>m u st. loaded R (SetEntryDistilledState R u st m) = loaded R m) \<and>
     (\<forall>m u st. case GetEntryByURL R m u of
        None \<Rightarrow> GetEntryByURL R (SetEntryDistilledState R u st m) u = None
      | Some e \<Rightarrow> \<exists>e'. GetEntryByURL R (SetEntryDistilledState R u st m) u = Some e' \<and> DistilledState e' = st \<and>
          IsRead e' = IsRead e \<and> FailedDownloadCounter e' = counted st e) \<and>
     (\<forall>m u v st. v \<noteq> u \<longrightarrow> GetEntryByURL R (SetEntryDistilledState R u st m) v = GetEntryByURL R m v) \<and>
     (\<forall>m u p d n t e. GetEntryByURL R (SetEntryDistilledInfo R u p d n t m) u = Some e \<longrightarrow> FailedDownloadCounter e = 0) \<and>
     (\<forall>m u v p d n t. v \<noteq> u \<longrightarrow> GetEntryByURL R (SetEntryDistilledInfo R u p d n t m) v = GetEntryByURL R m v) \<and>
     (\<forall>m u v t e. GetEntryByURL R (SetEntryTitle R u t m) v = Some e \<longrightarrow>
        (\<exists>e0. GetEntryByURL R m v = Some e0 \<and> DistilledState e0 = DistilledState e \<and>
           FailedDownloadCounter e0 = FailedDownloadCounter e))"

lemma model_okD:
  assumes "model_ok R"
  shows "GetEntryByURL R m u = Some e \<Longrightarrow> entry_URL e = u"
    "loaded R (SetEntryDistilledState R u st m) = loaded R m"
    "GetEntryByURL R m u = Some e \<Longrightarrow> \<exists>e'. GetEntryByURL R (SetEntryDistilledState R u st m) u = Some e' \<and>
       DistilledState e' = st \<and> IsRead e' = IsRead e \<and> FailedDownloadCounter e' = counted st e"
    "GetEntryByURL R m u = None \<Longrightarrow> GetEntryByURL R (SetEntryDistilledState R u st m) u = None"
    "v \<noteq> u \<Longrightarrow> GetEntryByURL R (SetEntryDistilledState R u st m) v = GetEntryByURL R m v"
proof -
  note laws = assms [unfolded model_ok_def]
  show "GetEntryByURL R m u = Some e \<Longrightarrow> entry_URL e = u" using conjunct1 [OF laws] by simp
  show "loaded R (SetEntryDistilledState R u st m) = loaded R m"
    using laws [THEN conjunct2, THEN conjunct1] by simp
  show "v \<noteq> u \<Longrightarrow> GetEntryByURL R (SetEntryDistilledState R u st m) v = GetEntryByURL R m v"
    using laws [THEN conjunct2, THEN conjunct2, THEN conjunct2, THEN conjunct1] by simp
  have *: "case GetEntryByURL R m u of
        None \<Rightarrow> GetEntryByURL R (SetEntryDistilledState R u st m) u = None
      | Some e \<Rightarrow> \<exists>e'. GetEntryByURL R (SetEntryDistilledState R u st m) u = Some e' \<and> DistilledState e' = st \<and>
          IsRead e' = IsRead e \<and> FailedDownloadCounter e' = counted st e"
    using laws [THEN conjunct2, THEN conjunct2, THEN conjunct1] by blast
  show "GetEntryByURL R m u = Some e \<Longrightarrow> \<exists>e'. GetEntryByURL R (SetEntryDistilledState R u st m) u = Some e' \<and>
       DistilledState e' = st \<and> IsRead e' = IsRead e \<and> FailedDownloadCounter e' = counted st e"
    "GetEntryByURL R m u = None \<Longrightarrow> GetEntryByURL R (SetEntryDistilledState R u st m) u = None"
    using * by simp_all
qed

lemma model_ok_infoD:
  assumes "model_ok R"
  shows "GetEntryByURL R (SetEntryDistilledInfo R u p d n t m) u = Some e \<Longrightarrow> FailedDownloadCounter e = 0"
    "v \<noteq> u \<Longrightarrow> GetEntryByURL R (SetEntryDistilledInfo R u p d n t m) v = GetEntryByURL R m v"
    "GetEntryByURL R (SetEntryTitle R u title m) v = Some e \<Longrightarrow>
       \<exists>e0. GetEntryByURL R m v = Some e0 \<and> DistilledState e0 = DistilledState e \<and>
         FailedDownloadCounter e0 = FailedDownloadCounter e"
proof -
  note laws = assms [unfolded model_ok_def, THEN conjunct2, THEN conjunct2, THEN conjunct2, THEN conjunct2]
  show "GetEntryByURL R (SetEntryDistilledInfo R u p d n t m) u = Some e \<Longrightarrow> FailedDownloadCounter e = 0"
    using conjunct1 [OF laws] by blast
  show "v \<noteq> u \<Longrightarrow> GetEntryByURL R (SetEntryDistilledInfo R u p d n t m) v = GetEntryByURL R m v"
    using laws [THEN conjunct2, THEN conjunct1] by simp
  show "GetEntryByURL R (SetEntryTitle R u title m) v = Some e \<Longrightarrow>
       \<exists>e0. GetEntryByURL R m v = Some e0 \<and> DistilledState e0 = DistilledState e \<and>
         FailedDownloadCounter e0 = FailedDownloadCounter e"
    using laws [THEN conjunct2, THEN conjunct2] by blast
qed

text \<open>No entry has failed more than seven times, and one that has failed seven times is given up.\<close>

definition attempts_bounded :: "('m, 'u) rl_model_lib \<Rightarrow> 'm \<Rightarrow> bool" where
  "attempts_bounded R m \<longleftrightarrow> (\<forall>u e. GetEntryByURL R m u = Some e \<longrightarrow>
     FailedDownloadCounter e \<le> 7 \<and> (FailedDownloadCounter e = 7 \<longrightarrow> DistilledState e = DISTILLATION_ERROR))"

lemma bounded_set_state:
  assumes "model_ok R" "attempts_bounded R m"
    "\<And>e. GetEntryByURL R m u = Some e \<Longrightarrow> counted st e \<le> 7 \<and> (counted st e = 7 \<longrightarrow> st = DISTILLATION_ERROR)"
  shows "attempts_bounded R (SetEntryDistilledState R u st m)"
  unfolding attempts_bounded_def
proof (intro allI impI)
  fix v e assume e: "GetEntryByURL R (SetEntryDistilledState R u st m) v = Some e"
  show "FailedDownloadCounter e \<le> 7 \<and> (FailedDownloadCounter e = 7 \<longrightarrow> DistilledState e = DISTILLATION_ERROR)"
  proof (cases "v = u")
    case True
    with e assms(1) obtain e0 where "GetEntryByURL R m u = Some e0"
      by (cases "GetEntryByURL R m u") (auto dest: model_okD(4) [OF assms(1), of m u st])
    with model_okD(3) [OF assms(1) this, of st] assms(3) e True show ?thesis by auto
  next
    case False
    then have "GetEntryByURL R m v = Some e" using e model_okD(5) [OF assms(1)] by metis
    with assms(2) show ?thesis by (auto simp: attempts_bounded_def)
  qed
qed

lemma bounded_set_info:
  assumes "model_ok R" "attempts_bounded R m"
  shows "attempts_bounded R (SetEntryDistilledInfo R u p d n t m)" "attempts_bounded R (SetEntryTitle R u title m)"
proof -
  have "FailedDownloadCounter e = 0 \<or> GetEntryByURL R m v = Some e"
    if "GetEntryByURL R (SetEntryDistilledInfo R u p d n t m) v = Some e" for v e
    using that model_ok_infoD(1,2) [OF assms(1)] by (cases "v = u") auto
  with assms(2) show "attempts_bounded R (SetEntryDistilledInfo R u p d n t m)"
    unfolding attempts_bounded_def by fastforce
  show "attempts_bounded R (SetEntryTitle R u title m)"
    using assms(2) unfolding attempts_bounded_def by (metis model_ok_infoD(3) [OF assms(1)])
qed

lemma schedule_model:
  "ScheduleDownloadEntry R v s = Some s' \<Longrightarrow> rs_model s' = rs_model s"
  "DownloadUnprocessedEntries R vs s = Some s' \<Longrightarrow> rs_model s' = rs_model s"
proof -
  show a: "ScheduleDownloadEntry R v s = Some s' \<Longrightarrow> rs_model s' = rs_model s" for v s s'
    by (auto simp: ScheduleDownloadEntry_def bind_eq_Some_conv)
  show "DownloadUnprocessedEntries R vs s = Some s' \<Longrightarrow> rs_model s' = rs_model s"
    by (induction vs arbitrary: s) (auto simp: bind_eq_Some_conv dest!: a)
qed

lemma download_failed_bounded:
  assumes "model_ok R" "attempts_bounded R (rs_model s)" "download_failed R u s = Some s'"
  shows "attempts_bounded R (rs_model s')"
proof -
  have e: "FailedDownloadCounter e \<le> 7 \<and> (FailedDownloadCounter e = 7 \<longrightarrow> DistilledState e = DISTILLATION_ERROR)"
    if "GetEntryByURL R (rs_model s) u = Some e" for e
    using assms(2) that by (auto simp: attempts_bounded_def)
  show ?thesis
  proof (cases "case GetEntryByURL R (rs_model s) u of
      Some entry \<Rightarrow> FailedDownloadCounter entry + 1 < kNumberOfFailsBeforeStop | None \<Rightarrow> False")
    case True
    with assms(3) have "rs_model s' = SetEntryDistilledState R u WILL_RETRY (rs_model s)"
      by (auto simp: download_failed_def bind_eq_Some_conv dest!: schedule_model(1))
    moreover have "counted WILL_RETRY e < 7" if "GetEntryByURL R (rs_model s) u = Some e" for e
      using True that by (simp add: counted_def kNumberOfFailsBeforeStop_def)
    ultimately show ?thesis using bounded_set_state [OF assms(1,2), of u WILL_RETRY] by fastforce
  next
    case False
    with assms(3) have "rs_model s' = SetEntryDistilledState R u DISTILLATION_ERROR (rs_model s)"
      by (auto simp: download_failed_def)
    moreover have "counted DISTILLATION_ERROR e \<le> 7" if "GetEntryByURL R (rs_model s) u = Some e" for e
      using e [OF that] by (auto simp: counted_def is_error_state_def)
    ultimately show ?thesis using bounded_set_state [OF assms(1,2), of u DISTILLATION_ERROR] by simp
  qed
qed

lemma on_completions_bounded:
  assumes "model_ok R" "attempts_bounded R (rs_model s)" "on_completions R now cs s = Some s'"
  shows "attempts_bounded R (rs_model s')"
  using assms(2,3)
proof (induction cs arbitrary: s)
  case (Cons c cs)
  from Cons.prems(2) obtain s1 where s1: "on_completion R now c s = Some s1" "on_completions R now cs s1 = Some s'"
    by (auto simp: bind_eq_Some_conv)
  have "attempts_bounded R (rs_model s1)"
    using s1(1) Cons.prems(1) download_failed_bounded [OF assms(1)] bounded_set_info [OF assms(1)]
    by (cases c) (auto simp: OnDownloadEnd_def OnDeleteEnd_def download_succeeded_def Let_def bind_eq_Some_conv
        split: success_state.splits if_splits)
  from Cons.IH [OF this s1(2)] show ?case .
qed simp

lemma DownloadEntry_bounded:
  assumes "model_ok R" "attempts_bounded R (rs_model s)" "DownloadEntry R L net u s = Some s'"
  shows "attempts_bounded R (rs_model s')"
proof -
  have "attempts_bounded R (SetEntryDistilledState R u PROCESSING (rs_model s))"
    if "GetEntryByURL R (rs_model s) u = Some e" "FailedDownloadCounter e < 7" for e
    using that by (intro bounded_set_state [OF assms(1,2)]) (auto simp: counted_def is_error_state_def)
  with assms(2,3) model_okD(1) [OF assms(1)] show ?thesis
    by (auto simp: DownloadEntry_def start_download_def kNumberOfFailsBeforeWifiOnly_def
        kNumberOfFailsBeforeStop_def Let_def bind_eq_Some_conv split: option.splits if_splits)
qed

lemma svc_step_bounded:
  assumes "model_ok R" "attempts_bounded R (rs_model s)" "svc_step R L F net ev (s, fs) = Some (s', fs')"
    "\<And>m. ev = ModelChanged m \<Longrightarrow> attempts_bounded R m"
  shows "attempts_bounded R (rs_model s')"
proof (cases ev)
  case (RunScheduled i)
  with assms(3) show ?thesis
    using DownloadEntry_bounded [OF assms(1), of "s\<lparr>scheduled := remove_at i (scheduled s)\<rparr>"] assms(2)
    by (auto elim!: check_SomeE)
next
  case (Background e now)
  with assms(3) obtain outs d fs1 where
    "on_completions R now outs (s\<lparr>rs_downloader := d\<rparr>) = Some s'" by (auto simp: bind_eq_Some_conv)
  from on_completions_bounded [OF assms(1) _ this] assms(2) show ?thesis by simp
next
  case (WillRemoveEntry v)
  with assms show ?thesis
    by (auto simp: ReadingListWillRemoveEntry_def RemoveDownloadedEntry_def bind_eq_Some_conv)
next
  case (DidAddEntry v)
  with assms show ?thesis
    by (auto simp: ReadingListDidAddEntry_def ProcessNewEntry_def split: option.splits if_splits
             dest: schedule_model(1))
next
  case (DidMoveEntry v)
  with assms show ?thesis
    by (auto simp: ReadingListDidMoveEntry_def ProcessNewEntry_def split: option.splits if_splits
             dest: schedule_model(1))
next
  case (ConnectionChanged t)
  with assms show ?thesis
    by (auto simp: OnConnectionChanged_def bind_eq_Some_conv split: if_splits dest!: schedule_model(2))
qed (use assms in \<open>auto simp: ReadingListModelLoaded_def SyncWithModel_def Clear_def bind_eq_Some_conv
       split: list.splits dest!: schedule_model(2)\<close>)

lemma svc_run_bounded:
  assumes "model_ok R" "attempts_bounded R (rs_model s)"
    "\<forall>(net, ev) \<in> set evs. \<forall>m. ev = ModelChanged m \<longrightarrow> attempts_bounded R m"
    "run_events (\<lambda>(net, ev). svc_step R L F net ev) evs (s, fs) = Some (s', fs')"
  shows "attempts_bounded R (rs_model s')"
  using assms(2-4)
proof (induction evs arbitrary: s fs)
  case (Cons x evs)
  obtain net ev where x: "x = (net, ev)" by fastforce
  from Cons.prems(3) obtain s1 fs1 where s1: "svc_step R L F net ev (s, fs) = Some (s1, fs1)"
    "run_events (\<lambda>(net, ev). svc_step R L F net ev) evs (s1, fs1) = Some (s', fs')"
    by (auto simp: x bind_eq_Some_conv)
  have "attempts_bounded R (rs_model s1)"
    by (rule svc_step_bounded [OF assms(1) Cons.prems(1) s1(1)]) (use Cons.prems(2) x in auto)
  from Cons.IH [OF this _ s1(2)] Cons.prems(2) show ?case by simp
qed simp

text \<open>A failure that the downloader reports for an entry that is being processed.\<close>

lemma failure_counts:
  assumes "model_ok R" "loaded R (rs_model s)" "GetEntryByURL R (rs_model s) u = Some e" "DistilledState e = PROCESSING"
    "\<not> IsRead e"
  shows "\<exists>s2 e2. download_failed R u s = Some s2 \<and> GetEntryByURL R (rs_model s2) u = Some e2 \<and>
    FailedDownloadCounter e2 = FailedDownloadCounter e + 1 \<and>
    (if FailedDownloadCounter e + 1 < 7 then DistilledState e2 = WILL_RETRY \<and> scheduled s2 = scheduled s @ [u]
     else DistilledState e2 = DISTILLATION_ERROR \<and> scheduled s2 = scheduled s)"
proof -
  have c: "counted st e = FailedDownloadCounter e + 1" if "is_error_state st" for st
    using that assms(4) by (simp add: counted_def is_error_state_def)
  have r: "is_error_state WILL_RETRY" "is_error_state DISTILLATION_ERROR" by (simp_all add: is_error_state_def)
  obtain e1 e2 where
    e1: "GetEntryByURL R (SetEntryDistilledState R u WILL_RETRY (rs_model s)) u = Some e1" "DistilledState e1 = WILL_RETRY"
      "\<not> IsRead e1" "FailedDownloadCounter e1 = FailedDownloadCounter e + 1" and
    e2: "GetEntryByURL R (SetEntryDistilledState R u DISTILLATION_ERROR (rs_model s)) u = Some e2"
      "DistilledState e2 = DISTILLATION_ERROR" "FailedDownloadCounter e2 = FailedDownloadCounter e + 1"
    using model_okD(3) [OF assms(1,3), of WILL_RETRY] model_okD(3) [OF assms(1,3), of DISTILLATION_ERROR]
      c [OF r(1)] c [OF r(2)] assms(5) by auto
  show ?thesis
    using assms(2,3) e1 e2 model_okD(2) [OF assms(1)]
    by (simp add: download_failed_def kNumberOfFailsBeforeStop_def ScheduleDownloadEntry_def not_to_download_def)
qed

text \<open>
  C32. A page is tried seven times. Over every sequence of steps of the service and its downloader, whatever
  the network does and as long as changes of the model from elsewhere respect the bound, no entry counts
  more than seven failures. When the downloader reports a failure for an unread entry that is being
  processed, the step counts it and puts the entry back on the schedule, or, the seventh time, marks it as
  failed for good and does not schedule it; from then on no delayed call and no new schedule of it does
  anything.
\<close>

theorem seven_attempts:
  assumes "model_ok R" "attempts_bounded R (rs_model s)"
    "\<forall>(net, ev) \<in> set evs. \<forall>m. ev = ModelChanged m \<longrightarrow> attempts_bounded R m"
    "run_events (\<lambda>(net, ev). svc_step R L F net ev) evs (s, fs) = Some (s', fs')"
  shows "attempts_bounded R (rs_model s') \<and>
    (\<forall>u e. loaded R (rs_model s') \<and> GetEntryByURL R (rs_model s') u = Some e \<longrightarrow>
      (FailedDownloadCounter e = 7 \<longrightarrow>
         (\<forall>net. DownloadEntry R L net u s' = Some s') \<and> ScheduleDownloadEntry R u s' = Some s') \<and>
      (\<forall>net ev now d fs2 distilled success path n title.
         DistilledState e = PROCESSING \<and> \<not> IsRead e \<and> internal ev \<and> dl_enabled ev (rs_downloader s') \<and>
         dl_step L F ev (rs_downloader s', fs') =
           Some ([DownloadCompletion u distilled success path n title], d, fs2) \<and> (success = ERROR \<or> path = []) \<longrightarrow>
         (\<exists>s2 e2. svc_step R L F net (Background ev now) (s', fs') = Some (s2, fs2) \<and>
            GetEntryByURL R (rs_model s2) u = Some e2 \<and> FailedDownloadCounter e2 = FailedDownloadCounter e + 1 \<and>
            (if FailedDownloadCounter e + 1 < 7 then DistilledState e2 = WILL_RETRY \<and> scheduled s2 = scheduled s' @ [u]
             else DistilledState e2 = DISTILLATION_ERROR \<and> scheduled s2 = scheduled s'))))"
proof (intro conjI allI impI; (elim conjE)?)
  note b = svc_run_bounded [OF assms]
  then show "attempts_bounded R (rs_model s')" .
  fix u e assume l: "loaded R (rs_model s')" and e: "GetEntryByURL R (rs_model s') u = Some e"
  {
    assume "FailedDownloadCounter e = 7"
    then have g: "DistilledState e = DISTILLATION_ERROR" using b e by (auto simp: attempts_bounded_def)
    show "DownloadEntry R L net u s' = Some s'" for net
      using l e g by (simp add: DownloadEntry_def not_to_download_def)
    show "ScheduleDownloadEntry R u s' = Some s'"
      using l e g by (simp add: ScheduleDownloadEntry_def not_to_download_def)
  }
  fix net ev now d fs2 distilled success path n title
  assume p: "DistilledState e = PROCESSING" "\<not> IsRead e" "internal ev" "dl_enabled ev (rs_downloader s')"
    "dl_step L F ev (rs_downloader s', fs') = Some ([DownloadCompletion u distilled success path n title], d, fs2)"
    "success = ERROR \<or> path = []"
  let ?s = "s'\<lparr>rs_downloader := d\<rparr>"
  have "OnDownloadEnd R now u distilled success path n title ?s = download_failed R u ?s"
    using l p(6) by (auto simp: OnDownloadEnd_def)
  then have "svc_step R L F net (Background ev now) (s', fs') = map_option (\<lambda>s. (s, fs2)) (download_failed R u ?s)"
    using p(3-5) by (cases "download_failed R u ?s") simp_all
  moreover obtain s2 e2 where "download_failed R u ?s = Some s2" "GetEntryByURL R (rs_model s2) u = Some e2"
    "FailedDownloadCounter e2 = FailedDownloadCounter e + 1"
    "if FailedDownloadCounter e + 1 < 7 then DistilledState e2 = WILL_RETRY \<and> scheduled s2 = scheduled s' @ [u]
     else DistilledState e2 = DISTILLATION_ERROR \<and> scheduled s2 = scheduled s'"
    using failure_counts [OF assms(1), of ?s u e] l e p(1,2) by auto
  ultimately show "\<exists>s2 e2. svc_step R L F net (Background ev now) (s', fs') = Some (s2, fs2) \<and>
      GetEntryByURL R (rs_model s2) u = Some e2 \<and> FailedDownloadCounter e2 = FailedDownloadCounter e + 1 \<and>
      (if FailedDownloadCounter e + 1 < 7 then DistilledState e2 = WILL_RETRY \<and> scheduled s2 = scheduled s' @ [u]
       else DistilledState e2 = DISTILLATION_ERROR \<and> scheduled s2 = scheduled s')"
    by auto
qed

section \<open>Synchronisation with the model\<close>

text \<open>
  What the file system promises: the subdirectories of a directory are listed once, and deleting one
  of them removes it from the list and keeps the others.
\<close>

definition disk_ok :: "'fs file_lib \<Rightarrow> file_path \<Rightarrow> bool" where
  "disk_ok F root \<longleftrightarrow>
     (\<forall>fs. distinct (SubDirectories F root fs)) \<and>
     (\<forall>fs d. d \<in> set (SubDirectories F root fs) \<longrightarrow>
        SubDirectories F root (snd (DeleteFile F d fs)) = filter (\<lambda>x. x \<noteq> d) (SubDirectories F root fs))"

lemma clean_up_directories_eq:
  assumes "disk_ok F root" "distinct ds" "set ds \<subseteq> set (SubDirectories F root fs)"
  shows "SubDirectories F root (clean_up_directories L F processed ds fs) =
    filter (\<lambda>x. x \<notin> set ds \<or> BaseName L x \<in> set processed) (SubDirectories F root fs)"
  using assms(2,3)
proof (induction ds arbitrary: fs)
  case Nil
  then show ?case by simp
next
  case (Cons d ds)
  show ?case
  proof (cases "BaseName L d \<in> set processed")
    case True
    with Cons show ?thesis by (auto intro: filter_cong)
  next
    case False
    have "SubDirectories F root (snd (DeleteFile F d fs)) = filter (\<lambda>x. x \<noteq> d) (SubDirectories F root fs)"
      using assms(1) Cons.prems(2) by (simp add: disk_ok_def)
    moreover from this have "set ds \<subseteq> set (SubDirectories F root (snd (DeleteFile F d fs)))"
      using Cons.prems by auto
    ultimately show ?thesis
      using Cons.IH [of "snd (DeleteFile F d fs)"] Cons.prems(1) False
      by (auto intro: filter_cong)
  qed
qed

lemma CleanUpFiles_keeps_processed:
  assumes "disk_ok F root"
  shows "SubDirectories F root (CleanUpFiles L F root processed fs) =
    filter (\<lambda>d. BaseName L d \<in> set processed) (SubDirectories F root fs)"
  using clean_up_directories_eq [OF assms, of "SubDirectories F root fs" fs L processed] assms
  by (auto simp: CleanUpFiles_def disk_ok_def intro: filter_cong)

definition in_state :: "('m, 'u) rl_model_lib \<Rightarrow> 'm \<Rightarrow> distillation_state set \<Rightarrow> 'u \<Rightarrow> bool" where
  "in_state R m sts u = (case GetEntryByURL R m u of Some e \<Rightarrow> DistilledState e \<in> sts | None \<Rightarrow> False)"

lemma sync_entries_eq:
  assumes "\<forall>u\<in>set urls. GetEntryByURL R m u \<noteq> None"
  shows "sync_entries R L m urls =
    Some (map (OfflineURLDirectoryID L) (filter (in_state R m {PROCESSED}) urls),
          filter (in_state R m {WAITING, PROCESSING, WILL_RETRY}) urls)"
  using assms
proof (induction urls)
  case (Cons u urls)
  then obtain e where "GetEntryByURL R m u = Some e" by auto
  with Cons show ?case by (cases "DistilledState e") (simp_all add: in_state_def)
qed simp

lemma DownloadUnprocessedEntries_eq:
  assumes "loaded R (rs_model s)"
  shows "DownloadUnprocessedEntries R urls s =
    Some (s\<lparr>scheduled := scheduled s @ filter (\<lambda>u. \<not> not_to_download (GetEntryByURL R (rs_model s) u)) urls\<rparr>)"
  using assms
  by (induction urls arbitrary: s) (simp_all add: ScheduleDownloadEntry_def)

text \<open>
  C33. A synchronisation with the model brings disk and schedule in line with the entries. When the
  model is loaded, the cleanup it posts keeps exactly the directories of processed entries, and its
  reply schedules exactly the entries that wait, are being processed or are to be retried, and are
  not read.
\<close>

theorem sync_with_model:
  assumes "loaded R (rs_model s)" "disk_ok F (OfflineRoot L s)" "cleanups s = []" "cleanup_replies s = []"
    "\<forall>u\<in>set (Keys R (rs_model s)). GetEntryByURL R (rs_model s) u \<noteq> None"
    "\<And>us. set (url_set R us) = set us"
  shows "\<exists>s' fs'. Option.bind (svc_step R L F net ModelLoaded (s, fs))
      (\<lambda>sf. Option.bind (svc_step R L F net RunCleanUp sf) (svc_step R L F net CleanUpDone)) = Some (s', fs') \<and>
    SubDirectories F (OfflineRoot L s) fs' =
      filter (\<lambda>d. \<exists>u\<in>set (Keys R (rs_model s)). in_state R (rs_model s) {PROCESSED} u \<and>
                BaseName L d = OfflineURLDirectoryID L u) (SubDirectories F (OfflineRoot L s) fs) \<and>
    (\<exists>new. scheduled s' = scheduled s @ new \<and>
       set new = {u \<in> set (Keys R (rs_model s)). in_state R (rs_model s) {WAITING, PROCESSING, WILL_RETRY} u \<and>
                    (\<exists>e. GetEntryByURL R (rs_model s) u = Some e \<and> \<not> IsRead e)})"
proof -
  let ?m = "rs_model s" and ?root = "OfflineRoot L s"
  let ?dirs = "map (OfflineURLDirectoryID L) (filter (in_state R ?m {PROCESSED}) (Keys R ?m))"
  let ?todo = "url_set R (filter (in_state R ?m {WAITING, PROCESSING, WILL_RETRY}) (Keys R ?m))"
  let ?new = "filter (\<lambda>u. \<not> not_to_download (GetEntryByURL R ?m u)) ?todo"
  have "svc_step R L F net ModelLoaded (s, fs) = Some (s\<lparr>cleanups := [(?root, ?dirs, ?todo)]\<rparr>, fs)"
    using assms(1,3) sync_entries_eq [OF assms(5), of L]
    by (simp add: ReadingListModelLoaded_def SyncWithModel_def)
  moreover have "svc_step R L F net RunCleanUp (s\<lparr>cleanups := [(?root, ?dirs, ?todo)]\<rparr>, fs) =
      Some (s\<lparr>cleanup_replies := [?todo]\<rparr>, CleanUpFiles L F ?root ?dirs fs)"
    using assms(3,4) by simp
  moreover have "svc_step R L F net CleanUpDone (s\<lparr>cleanup_replies := [?todo]\<rparr>, CleanUpFiles L F ?root ?dirs fs) =
      Some (s\<lparr>scheduled := scheduled s @ ?new\<rparr>, CleanUpFiles L F ?root ?dirs fs)"
    using assms(1,4) DownloadUnprocessedEntries_eq [of R "s\<lparr>cleanup_replies := []\<rparr>" ?todo] by simp
  moreover have "SubDirectories F ?root (CleanUpFiles L F ?root ?dirs fs) =
      filter (\<lambda>d. \<exists>u\<in>set (Keys R ?m). in_state R ?m {PROCESSED} u \<and>
                BaseName L d = OfflineURLDirectoryID L u) (SubDirectories F ?root fs)"
    unfolding CleanUpFiles_keeps_processed [OF assms(2)] by (rule filter_cong) auto
  moreover have "set ?new = {u \<in> set (Keys R ?m). in_state R ?m {WAITING, PROCESSING, WILL_RETRY} u \<and>
                    (\<exists>e. GetEntryByURL R ?m u = Some e \<and> \<not> IsRead e)}"
    by (auto simp: assms(6) not_to_download_def in_state_def split: option.splits)
  ultimately show ?thesis by simp
qed

section \<open>Removing all entries\<close>

text \<open>
  \<open>ReadingListRemoverHelper\<close>: the two pointers it holds, whether it observes the model, its
  completion, and the runs of the completion it has posted.
\<close>

record rl_remover =
  rm_model :: bool
  rm_download_service :: bool
  rm_observing :: bool
  rm_completion :: bool
  rm_posted :: "bool list"

definition new_ReadingListRemoverHelper :: "bool \<Rightarrow> bool \<Rightarrow> rl_remover" where
  "new_ReadingListRemoverHelper model service =
     \<lparr>rm_model = model, rm_download_service = service, rm_observing = False, rm_completion = False,
      rm_posted = []\<rparr>"

definition ReadlingListItemsRemoved :: "bool \<Rightarrow> rl_remover \<Rightarrow> rl_remover" where
  "ReadlingListItemsRemoved success h =
     (let h = h\<lparr>rm_model := False, rm_download_service := False\<rparr>
      in if rm_completion h then h\<lparr>rm_completion := False, rm_posted := rm_posted h @ [success]\<rparr> else h)"

definition remover_ModelLoaded ::
  "('m, 'u) rl_model_lib \<Rightarrow> rl_remover \<Rightarrow> ('m, 'u) rl_service \<Rightarrow> (rl_remover \<times> ('m, 'u) rl_service) option" where
  "remover_ModelLoaded R h s = do {
     check (rm_model h \<and> rm_observing h \<and> rm_download_service h);
     let (model_cleared, m) = DeleteAllEntries R (rs_model s)
     in Some (ReadlingListItemsRemoved model_cleared (h\<lparr>rm_observing := False\<rparr>),
              Clear (s\<lparr>rs_model := m\<rparr>)) }"

definition remover_ModelBeingDeleted :: "rl_remover \<Rightarrow> rl_remover option" where
  "remover_ModelBeingDeleted h = do {
     check (rm_model h \<and> rm_observing h);
     Some (ReadlingListItemsRemoved False (h\<lparr>rm_observing := False\<rparr>)) }"

text \<open>Adding the observer reports a model that is already loaded at once.\<close>

definition RemoveAllUserReadingListItemsIOS ::
  "('m, 'u) rl_model_lib \<Rightarrow> rl_remover \<Rightarrow> ('m, 'u) rl_service \<Rightarrow> (rl_remover \<times> ('m, 'u) rl_service) option" where
  "RemoveAllUserReadingListItemsIOS R h s =
     (let h = h\<lparr>rm_completion := True\<rparr>
      in if \<not> rm_model h then Some (ReadlingListItemsRemoved False h, s)
         else let h = h\<lparr>rm_observing := True\<rparr>
              in if loaded R (rs_model s) then remover_ModelLoaded R h s else Some (h, s))"

definition remover_destructor_ok :: "rl_remover \<Rightarrow> bool" where
  "remover_destructor_ok h \<longleftrightarrow> \<not> rm_model h \<and> \<not> rm_download_service h"

text \<open>
  The removal ends once, and its helper can be destroyed: at once for a model that is missing or
  loaded, and otherwise when the model is loaded or deleted.
\<close>

lemma removal_ends_once:
  assumes "RemoveAllUserReadingListItemsIOS R (new_ReadingListRemoverHelper model service) s = Some (h, s1)"
  shows "rm_observing h \<and> rm_posted h = [] \<or>
    remover_destructor_ok h \<and> \<not> rm_observing h \<and> length (rm_posted h) = 1"
    "rm_observing h \<Longrightarrow> remover_ModelLoaded R h s2 = Some (h', s3) \<Longrightarrow>
     remover_destructor_ok h' \<and> rm_posted h' = [fst (DeleteAllEntries R (rs_model s2))]"
    "rm_observing h \<Longrightarrow> remover_ModelBeingDeleted h = Some h' \<Longrightarrow>
     remover_destructor_ok h' \<and> rm_posted h' = [False]"
  using assms
  by (auto simp: RemoveAllUserReadingListItemsIOS_def new_ReadingListRemoverHelper_def
        remover_ModelLoaded_def remover_ModelBeingDeleted_def ReadlingListItemsRemoved_def
        remover_destructor_ok_def Let_def bind_check split: if_splits prod.splits)

section \<open>Witnesses\<close>

lemma map_of_demo_set_state:
  "map_of (demo_set_state u st m) v = (if v = u then map_option (\<lambda>e. e\<lparr>DistilledState := st, DistilledPath := [],
      FailedDownloadCounter := FailedDownloadCounter e +
        (if is_error_state st \<and> \<not> is_error_state (DistilledState e) then 1 else 0)\<rparr>) (map_of m u)
    else map_of m v)"
  by (induction m) (auto simp: demo_set_state_def is_error_state_def)

lemma map_of_update_value:
  "map_of (map (\<lambda>(v, e). if v = u then (v, f e) else (v, e)) m) v =
     (if v = u then map_option f (map_of m u) else map_of m v)"
  by (induction m) auto

lemma demo_model_ok: "model_ok demo_model_lib"
  by (auto simp: model_ok_def demo_model_lib_def map_of_demo_set_state map_of_update_value counted_def
      split: option.splits)

lemma separator_inside:
  assumes "take (length root) p = root" "take (Suc (length p)) q = p @ [x]"
  shows "x \<in> set (drop (length root) q)"
proof -
  obtain p' where p: "p = root @ p'" using assms(1) by (metis append_take_drop_id)
  have "q = (p @ [x]) @ drop (Suc (length p)) q" using assms(2) by (metis append_take_drop_id)
  then have "drop (length root) q = p' @ x # drop (Suc (length p)) q" using p by (metis append.assoc append_Cons append_eq_conv_conj append_self_conv2)
  then show ?thesis by simp
qed

lemma map_of_filter_key: "map_of (filter (\<lambda>(q, _). P q) d) q = (if P q then map_of d q else None)"
  by (induction d) auto

lemma map_fst_filter_key: "map fst (filter (\<lambda>(q, _). P q) d) = filter P (map fst d)"
  by (induction d) auto

lemma demo_disk_ok: "disk_ok demo_files root"
  unfolding disk_ok_def
proof (intro conjI allI impI)
  fix fs show "distinct (SubDirectories demo_files root fs)" by (simp add: demo_files_def)
next
  fix d and fs :: demo_disk
  let ?sub = "\<lambda>fs q. map_of fs q = Some None \<and> take (length root) q = root \<and> q \<noteq> root \<and>
    CHR ''/'' \<notin> set (drop (length root) q)"
  let ?keep = "\<lambda>q. q \<noteq> d \<and> take (Suc (length d)) q \<noteq> d @ ''/''"
  assume "d \<in> set (SubDirectories demo_files root fs)"
  then have d: "take (length root) d = root" by (simp add: demo_files_def)
  have "SubDirectories demo_files root (snd (DeleteFile demo_files d fs)) =
      remdups (filter (\<lambda>q. ?sub (filter (\<lambda>(q, _). ?keep q) fs) q) (filter ?keep (map fst fs)))"
    by (simp add: demo_files_def map_fst_filter_key [symmetric])
  also have "filter (\<lambda>q. ?sub (filter (\<lambda>(q, _). ?keep q) fs) q) (filter ?keep (map fst fs)) =
      filter (\<lambda>q. q \<noteq> d \<and> ?sub fs q) (map fst fs)"
    unfolding filter_filter map_of_filter_key
    by (rule filter_cong [OF refl]) (use separator_inside [OF d, of _ "CHR ''/''"] in auto)
  also have "remdups \<dots> = filter (\<lambda>x. x \<noteq> d) (SubDirectories demo_files root fs)"
    by (simp add: demo_files_def remdups_filter [symmetric] conj_commute)
  finally show "SubDirectories demo_files root (snd (DeleteFile demo_files d fs)) =
      filter (\<lambda>x. x \<noteq> d) (SubDirectories demo_files root fs)" .
qed

abbreviation demo_net :: network where
  "demo_net \<equiv> \<lparr>IsOffline = False, known_connection = Some CONNECTION_WIFI\<rparr>"

abbreviation demo_entry :: "distillation_state \<Rightarrow> demo_url rl_entry" where
  "demo_entry st \<equiv> \<lparr>entry_URL = demo_page, DistilledState = st, FailedDownloadCounter = 0, IsRead = False,
     DistilledPath = [], DistilledURL = demo_page\<rparr>"

definition demo_service :: "(demo_url demo_model, demo_url) rl_service" where
  "demo_service = (new_ReadingListDownloadService demo_offline
     [(demo_page, demo_entry WAITING), (demo_other, demo_entry PROCESSED)] ''d'' 0 demo_net)
       \<lparr>scheduled := [demo_page]\<rparr>"

theorem downloads_only_eligible_witness:
  "eligible demo_net (GetEntryByURL demo_model_lib (rs_model demo_service) demo_page)"
proof -
  let ?r = "svc_step demo_model_lib demo_offline demo_files demo_net (RunScheduled 0) (demo_service, [])"
  have "map_option (\<lambda>sf. filter (\<lambda>t. t = (DOWNLOAD, demo_page)) (task_queue (rs_downloader (fst sf))) \<noteq> [] \<and>
      map (job_task (rs_downloader (fst sf))) (posted (rs_downloader (fst sf))) = [(DOWNLOAD, demo_page)] \<and>
      list_all (\<lambda>j. case j of JobExists u p \<Rightarrow> u = demo_page | _ \<Rightarrow> False) (posted (rs_downloader (fst sf)))) ?r = Some True"
    by code_simp
  then obtain s fs where r: "?r = Some (s, fs)" and
    j: "map (job_task (rs_downloader s)) (posted (rs_downloader s)) = [(DOWNLOAD, demo_page)]"
    "list_all (\<lambda>j. case j of JobExists u p \<Rightarrow> u = demo_page | _ \<Rightarrow> False) (posted (rs_downloader s))"
    by auto
  from j(1) obtain jb where jb: "posted (rs_downloader s) = [jb]" by auto
  with j(2) have "wants demo_page (rs_downloader s)"
    by (cases jb) (auto simp: wants_def)
  moreover have "\<not> wants demo_page (rs_downloader demo_service)"
    by (simp add: demo_service_def wants_def new_ReadingListDownloadService_def new_URLDownloader_def)
  moreover have "entry_URL e = v" if "GetEntryByURL demo_model_lib (rs_model demo_service) v = Some e" for v e
    using model_okD(1) [OF demo_model_ok that] .
  ultimately show ?thesis using downloads_only_eligible [OF r, of demo_page] by blast
qed

text \<open>Seven downloads that fail, each through the queue, the distiller and the clean-up of the downloader.\<close>

definition failing_round :: "nat \<Rightarrow> (network \<times> (demo_url demo_model, demo_url) svc_event) list" where
  "failing_round i = map (Pair demo_net) (RunScheduled i #
     map (\<lambda>ev. Background ev 0) [RunJob, RunReply, Distilled no_article, RunJob, RunReply])"

definition failing_run :: "((demo_url demo_model, demo_url) rl_service \<times> demo_disk) option" where
  "failing_run = run_events (\<lambda>(net, ev). svc_step demo_model_lib demo_offline demo_files net ev)
     (concat (replicate 7 (failing_round 0))) (demo_service, [])"

theorem seven_attempts_witness:
  "\<exists>s' fs'. failing_run = Some (s', fs') \<and>
     GetEntryByURL demo_model_lib (rs_model s') demo_page \<noteq> None \<and> scheduled s' = [] \<and>
     (\<forall>net. DownloadEntry demo_model_lib demo_offline net demo_page s' = Some s')"
proof -
  have "map_option (\<lambda>(s, fs). (scheduled s, map_option FailedDownloadCounter (GetEntryByURL demo_model_lib (rs_model s) demo_page)))
      failing_run = Some ([], Some 7)"
    by code_simp
  then obtain s' fs' e where r: "failing_run = Some (s', fs')" "scheduled s' = []"
    "GetEntryByURL demo_model_lib (rs_model s') demo_page = Some e" "FailedDownloadCounter e = 7" by auto
  have b: "attempts_bounded demo_model_lib (rs_model demo_service)"
    by (auto simp: attempts_bounded_def demo_model_lib_def demo_service_def new_ReadingListDownloadService_def
        split: if_splits)
  have "\<forall>(net, ev) \<in> set (concat (replicate 7 (failing_round 0))). \<forall>m. ev = ModelChanged m \<longrightarrow>
      attempts_bounded demo_model_lib m"
    by (auto simp: failing_round_def)
  from seven_attempts [OF demo_model_ok b this r(1) [unfolded failing_run_def]] r show ?thesis
    by (auto simp: demo_model_lib_def)
qed

theorem sync_with_model_witness:
  "\<exists>s' fs'. Option.bind (svc_step demo_model_lib demo_offline demo_files demo_net ModelLoaded
        (demo_service, [(''d/u.v'', None), (''d/x.y'', None)]))
      (\<lambda>sf. Option.bind (svc_step demo_model_lib demo_offline demo_files demo_net RunCleanUp sf)
              (svc_step demo_model_lib demo_offline demo_files demo_net CleanUpDone)) = Some (s', fs') \<and>
     SubDirectories demo_files ''d/'' fs' = [''d/x.y'']"
proof -
  have r: "OfflineRoot demo_offline demo_service = ''d/''" by code_simp
  have k: "Keys demo_model_lib (rs_model demo_service) = [demo_page, demo_other]" by code_simp
  have p: "\<not> in_state demo_model_lib (rs_model demo_service) {PROCESSED} demo_page"
    "in_state demo_model_lib (rs_model demo_service) {PROCESSED} demo_other"
    by (simp_all add: in_state_def demo_model_lib_def demo_service_def new_ReadingListDownloadService_def)
  have i: "OfflineURLDirectoryID demo_offline demo_other = ''x.y''" "BaseName demo_offline = drop 2"
    by (simp_all add: demo_offline_def)
  have sub: "SubDirectories demo_files ''d/'' [(''d/u.v'', None), (''d/x.y'', None)] = [''d/u.v'', ''d/x.y'']"
    by code_simp
  have "GetEntryByURL demo_model_lib (rs_model demo_service) demo_page \<noteq> None"
    "GetEntryByURL demo_model_lib (rs_model demo_service) demo_other \<noteq> None"
    by (simp_all add: demo_model_lib_def demo_service_def new_ReadingListDownloadService_def)
  then have g: "\<forall>u\<in>set (Keys demo_model_lib (rs_model demo_service)).
      GetEntryByURL demo_model_lib (rs_model demo_service) u \<noteq> None" unfolding k by simp
  have l: "loaded demo_model_lib (rs_model demo_service)" "cleanups demo_service = []"
    "cleanup_replies demo_service = []" "\<And>us :: demo_url list. set (url_set demo_model_lib us) = set us"
    by (simp_all add: demo_model_lib_def demo_service_def new_ReadingListDownloadService_def)
  from sync_with_model [where net = demo_net and L = demo_offline and fs = "[(''d/u.v'', None), (''d/x.y'', None)]",
      OF l(1) demo_disk_ok l(2,3) g l(4)]
  obtain s' fs' where "Option.bind (svc_step demo_model_lib demo_offline demo_files demo_net ModelLoaded
        (demo_service, [(''d/u.v'', None), (''d/x.y'', None)]))
      (\<lambda>sf. Option.bind (svc_step demo_model_lib demo_offline demo_files demo_net RunCleanUp sf)
              (svc_step demo_model_lib demo_offline demo_files demo_net CleanUpDone)) = Some (s', fs')"
    and "SubDirectories demo_files ''d/'' fs' =
      filter (\<lambda>d. \<exists>u\<in>{demo_page, demo_other}. in_state demo_model_lib (rs_model demo_service) {PROCESSED} u \<and>
                drop 2 d = OfflineURLDirectoryID demo_offline u) [''d/u.v'', ''d/x.y'']"
    unfolding r k sub i by auto
  with p i show ?thesis by (intro exI [of _ s'] exI [of _ fs']) simp
qed

end
