(* ===== verification/Web_Thread.thy ===== *)
theory Web_Thread
  imports Prelude "HOL-Library.Word"
begin

text \<open>
  \<open>web/web_thread_impl.cc\<close> and \<open>web/web_sub_thread.cc\<close>: the two well-known threads, the table that
  maps them to task runners, posting of tasks, and the life of the physical thread behind one. A task
  runner is named by the physical thread it posts to, so that it belongs to the current thread when
  the names agree. The lock of the globals is held by every operation for its whole duration, except
  for the unlocked read of \<open>PostTaskHelper\<close>: operations are atomic steps.
\<close>

section \<open>Identifiers and globals\<close>

datatype web_thread_id = UI | IO | ID_COUNT

fun id_value :: "web_thread_id \<Rightarrow> nat" where
  "id_value UI = 0"
| "id_value IO = 1"
| "id_value ID_COUNT = 2"

datatype web_thread_state = UNINITIALIZED | RUNNING | SHUTDOWN

type_synonym physical_thread = nat

text \<open>
  A task that was posted: the thread it was posted to, its name, its delay in microseconds, and
  whether it may be nested. The globals are a lazy instance that is created with the values of
  \<open>initial_globals\<close>, so that the tests for its existence agree with a look-up in the initial table.
\<close>

type_synonym time_delta = int
type_synonym posted_task = "physical_thread \<times> nat \<times> time_delta \<times> bool"

record web_thread_globals =
  states :: "web_thread_id \<Rightarrow> web_thread_state"
  task_runners :: "web_thread_id \<Rightarrow> physical_thread option"
  thread_queue :: "posted_task list"
  executor_registered :: bool
  io_delegate :: "nat option"

definition initial_globals :: web_thread_globals where
  "initial_globals = \<lparr>states = (\<lambda>_. UNINITIALIZED), task_runners = (\<lambda>_. None), thread_queue = [],
     executor_registered = False, io_delegate = None\<rparr>"

definition valid_id :: "web_thread_id \<Rightarrow> bool" where
  "valid_id identifier \<longleftrightarrow> id_value identifier < id_value ID_COUNT"

section \<open>Queries\<close>

definition IsThreadInitialized :: "web_thread_id \<Rightarrow> web_thread_globals \<Rightarrow> bool option" where
  "IsThreadInitialized identifier g = do {
     check (valid_id identifier);
     Some (states g identifier = RUNNING) }"

definition CurrentlyOn :: "physical_thread \<Rightarrow> web_thread_id \<Rightarrow> web_thread_globals \<Rightarrow> bool option" where
  "CurrentlyOn current identifier g = do {
     check (valid_id identifier);
     Some (task_runners g identifier = Some current) }"

definition DCHECK_CURRENTLY_ON ::
  "physical_thread \<Rightarrow> web_thread_id \<Rightarrow> web_thread_globals \<Rightarrow> unit option" where
  "DCHECK_CURRENTLY_ON current identifier g = do {
     on \<leftarrow> CurrentlyOn current identifier g;
     check on }"

definition GetCurrentThreadIdentifier ::
  "physical_thread \<Rightarrow> web_thread_globals \<Rightarrow> web_thread_id option" where
  "GetCurrentThreadIdentifier current g =
     List.find (\<lambda>i. task_runners g i = Some current) [UI, IO]"

definition GetThreadName :: "web_thread_id \<Rightarrow> string" where
  "GetThreadName thread =
     (if thread = UI then ''Web_UIThread'' else if thread = IO then ''Web_IOThread'' else ''Unknown Thread'')"

definition GetDCheckCurrentlyOnErrorMessage :: "string \<Rightarrow> web_thread_id \<Rightarrow> string" where
  "GetDCheckCurrentlyOnErrorMessage platform_thread_name expected =
     (let actual_name = (if platform_thread_name = [] then ''Unknown Thread'' else platform_thread_name)
      in ''Must be called on '' @ GetThreadName expected @ ''; actually called on '' @ actual_name @ ''.'')"

section \<open>Registration\<close>

definition new_WebThreadImpl ::
  "web_thread_id \<Rightarrow> physical_thread \<Rightarrow> web_thread_globals \<Rightarrow> web_thread_globals option" where
  "new_WebThreadImpl identifier task_runner g = do {
     check (valid_id identifier);
     check (states g identifier = UNINITIALIZED);
     check (task_runners g identifier = None);
     Some (g\<lparr>states := (states g)(identifier := RUNNING),
             task_runners := (task_runners g)(identifier := Some task_runner)\<rparr>) }"

definition delete_WebThreadImpl :: "web_thread_id \<Rightarrow> web_thread_globals \<Rightarrow> web_thread_globals option" where
  "delete_WebThreadImpl identifier g = do {
     check (states g identifier = RUNNING);
     Some (g\<lparr>states := (states g)(identifier := SHUTDOWN)\<rparr>) }"

definition ResetGlobalsForTesting :: "web_thread_id \<Rightarrow> web_thread_globals \<Rightarrow> web_thread_globals option" where
  "ResetGlobalsForTesting identifier g = do {
     check (states g identifier = SHUTDOWN);
     Some (g\<lparr>states := (states g)(identifier := UNINITIALIZED),
             task_runners := (task_runners g)(identifier := None)\<rparr>) }"

definition CreateTaskExecutor :: "web_thread_globals \<Rightarrow> web_thread_globals option" where
  "CreateTaskExecutor g = do {
     check (\<not> executor_registered g);
     Some (g\<lparr>executor_registered := True\<rparr>) }"

definition ResetTaskExecutorForTesting :: "web_thread_globals \<Rightarrow> web_thread_globals option" where
  "ResetTaskExecutorForTesting g = do {
     check (executor_registered g);
     Some (g\<lparr>executor_registered := False\<rparr>) }"

definition SetIOThreadDelegate :: "nat option \<Rightarrow> web_thread_globals \<Rightarrow> web_thread_globals option" where
  "SetIOThreadDelegate delegate g = do {
     initialized \<leftarrow> IsThreadInitialized IO g;
     check (\<not> initialized);
     check (io_delegate g = None \<or> delegate = None);
     Some (g\<lparr>io_delegate := delegate\<rparr>) }"

section \<open>Posting\<close>

text \<open>
  The first component of the result says whether the lock is taken; the second is the value returned.
\<close>

definition target_thread_outlives_current ::
  "physical_thread \<Rightarrow> web_thread_id \<Rightarrow> web_thread_globals \<Rightarrow> bool" where
  "target_thread_outlives_current current identifier g =
     (case GetCurrentThreadIdentifier current g of
        Some current_thread \<Rightarrow> id_value identifier \<le> id_value current_thread
      | None \<Rightarrow> False)"

definition PostTaskHelper ::
  "physical_thread \<Rightarrow> web_thread_id \<Rightarrow> nat \<Rightarrow> time_delta \<Rightarrow> bool \<Rightarrow> web_thread_globals
   \<Rightarrow> (bool \<times> bool \<times> web_thread_globals) option" where
  "PostTaskHelper current identifier task delay nestable g = do {
     check (valid_id identifier);
     let locked = (\<not> target_thread_outlives_current current identifier g);
         accepting_tasks = (states g identifier = RUNNING)
     in if accepting_tasks then do {
          task_runner \<leftarrow> task_runners g identifier;
          Some (locked, True, g\<lparr>thread_queue := thread_queue g @ [(task_runner, task, delay, nestable)]\<rparr>) }
        else Some (locked, False, g) }"

datatype shutdown_behavior = CONTINUE_ON_SHUTDOWN | SKIP_ON_SHUTDOWN | BLOCK_SHUTDOWN

record task_traits =
  traits_thread :: web_thread_id
  traits_nestable :: bool
  explicit_shutdown :: "shutdown_behavior option"

definition GetWebThreadIdentifier :: "task_traits \<Rightarrow> web_thread_id option" where
  "GetWebThreadIdentifier traits = do {
     let id = traits_thread traits
     in do {
       check (valid_id id);
       check (case explicit_shutdown traits of
                None \<Rightarrow> True
              | Some b \<Rightarrow> (id = UI \<longrightarrow> b = SKIP_ON_SHUTDOWN) \<and> (id = IO \<longrightarrow> b = BLOCK_SHUTDOWN));
       Some id } }"

definition PostDelayedTaskWithTraits ::
  "physical_thread \<Rightarrow> task_traits \<Rightarrow> nat \<Rightarrow> time_delta \<Rightarrow> web_thread_globals
   \<Rightarrow> (bool \<times> bool \<times> web_thread_globals) option" where
  "PostDelayedTaskWithTraits current traits task delay g = do {
     id \<leftarrow> GetWebThreadIdentifier traits;
     PostTaskHelper current id task delay (traits_nestable traits) g }"

text \<open>
  The extension identifier of the traits is the key under which the executor is registered. The
  task runner of a well-known thread: it posts through the executor with the traits of its
  thread, and asks the globals whether it is on its thread. \<open>DeleteOnThread\<close> deletes an object at
  once on the right thread, and posts its deletion otherwise; the result says whether it was deleted
  at once.
\<close>

definition runner_PostDelayedTask ::
  "physical_thread \<Rightarrow> web_thread_id \<Rightarrow> nat \<Rightarrow> time_delta \<Rightarrow> web_thread_globals
   \<Rightarrow> (bool \<times> bool \<times> web_thread_globals) option" where
  "runner_PostDelayedTask current identifier task delay g =
     PostDelayedTaskWithTraits current
       \<lparr>traits_thread = identifier, traits_nestable = True, explicit_shutdown = None\<rparr> task delay g"

definition runner_PostNonNestableDelayedTask ::
  "physical_thread \<Rightarrow> web_thread_id \<Rightarrow> nat \<Rightarrow> time_delta \<Rightarrow> web_thread_globals
   \<Rightarrow> (bool \<times> bool \<times> web_thread_globals) option" where
  "runner_PostNonNestableDelayedTask current identifier task delay g =
     PostDelayedTaskWithTraits current
       \<lparr>traits_thread = identifier, traits_nestable = False, explicit_shutdown = None\<rparr> task delay g"

definition runner_RunsTasksInCurrentSequence ::
  "physical_thread \<Rightarrow> web_thread_id \<Rightarrow> web_thread_globals \<Rightarrow> bool option" where
  "runner_RunsTasksInCurrentSequence current identifier g = CurrentlyOn current identifier g"

definition GetTaskRunnerForThread :: "web_thread_id \<Rightarrow> web_thread_id option" where
  "GetTaskRunnerForThread identifier = do {
     check (valid_id identifier);
     Some identifier }"

definition CreateSingleThreadTaskRunnerWithTraits :: "task_traits \<Rightarrow> bool \<Rightarrow> web_thread_id option" where
  "CreateSingleThreadTaskRunnerWithTraits traits dedicated = do {
     check (\<not> dedicated);
     id \<leftarrow> GetWebThreadIdentifier traits;
     GetTaskRunnerForThread id }"

definition CreateTaskRunnerWithTraits :: "task_traits \<Rightarrow> web_thread_id option" where
  "CreateTaskRunnerWithTraits traits = do {
     id \<leftarrow> GetWebThreadIdentifier traits;
     GetTaskRunnerForThread id }"

definition DeleteOnThread ::
  "physical_thread \<Rightarrow> web_thread_id \<Rightarrow> nat \<Rightarrow> web_thread_globals \<Rightarrow> (bool \<times> web_thread_globals) option" where
  "DeleteOnThread current identifier deletion g = do {
     on_thread \<leftarrow> CurrentlyOn current identifier g;
     if on_thread then Some (True, g)
     else do {
       runner \<leftarrow> GetTaskRunnerForThread identifier;
       (locked, posted, g) \<leftarrow> runner_PostNonNestableDelayedTask current runner deletion 0 g;
       Some (False, g) } }"

section \<open>The physical thread of a well-known thread\<close>

text \<open>
  \<open>st_inits\<close> and \<open>st_cleanups\<close> are the calls made to the delegate of the IO thread, \<open>st_cancelled\<close>
  the number of times the URL fetchers were cancelled.
\<close>

record web_sub_thread =
  st_identifier :: web_thread_id
  st_thread :: physical_thread
  st_running :: bool
  st_blocking_allowed :: bool
  st_blocking_disallowed :: bool
  st_registered :: bool
  st_pending_init :: bool
  st_inits :: nat
  st_cleanups :: nat
  st_cancelled :: nat

definition new_WebSubThread :: "web_thread_id \<Rightarrow> physical_thread \<Rightarrow> web_sub_thread" where
  "new_WebSubThread identifier thread =
     \<lparr>st_identifier = identifier, st_thread = thread, st_running = False, st_blocking_allowed = False,
      st_blocking_disallowed = False, st_registered = False, st_pending_init = False,
      st_inits = 0, st_cleanups = 0, st_cancelled = 0\<rparr>"

definition AllowBlockingForTesting :: "web_sub_thread \<Rightarrow> web_sub_thread option" where
  "AllowBlockingForTesting t = do {
     check (\<not> st_running t);
     Some (t\<lparr>st_blocking_allowed := True\<rparr>) }"

text \<open>The start of the base class runs \<open>Init\<close> on the new thread.\<close>

definition sub_Init :: "web_sub_thread \<Rightarrow> web_sub_thread" where
  "sub_Init t = (if \<not> st_blocking_allowed t then t\<lparr>st_blocking_disallowed := True\<rparr> else t)"

definition sub_Start :: "web_sub_thread \<Rightarrow> web_sub_thread option" where
  "sub_Start t = do {
     check (\<not> st_running t);
     Some (sub_Init (t\<lparr>st_running := True\<rparr>)) }"

definition RegisterAsWebThread ::
  "web_sub_thread \<Rightarrow> web_thread_globals \<Rightarrow> (web_sub_thread \<times> web_thread_globals) option" where
  "RegisterAsWebThread t g = do {
     check (st_running t);
     check (\<not> st_registered t);
     g \<leftarrow> new_WebThreadImpl (st_identifier t) (st_thread t) g;
     Some (t\<lparr>st_registered := True, st_pending_init := True\<rparr>, g) }"

definition CompleteInitializationOnWebThread ::
  "web_sub_thread \<Rightarrow> web_thread_globals \<Rightarrow> web_sub_thread option" where
  "CompleteInitializationOnWebThread t g = do {
     check (st_pending_init t);
     let t = t\<lparr>st_pending_init := False\<rparr>
     in Some (if st_identifier t = IO \<and> io_delegate g \<noteq> None then t\<lparr>st_inits := Suc (st_inits t)\<rparr> else t) }"

definition IOThreadCleanUp :: "web_sub_thread \<Rightarrow> web_sub_thread" where
  "IOThreadCleanUp t = t\<lparr>st_cancelled := Suc (st_cancelled t)\<rparr>"

text \<open>\<open>CleanUp\<close> runs on the thread at the end of its loop; the last line destroys the registration.\<close>

definition sub_CleanUp ::
  "web_sub_thread \<Rightarrow> web_thread_globals \<Rightarrow> (web_sub_thread \<times> web_thread_globals) option" where
  "sub_CleanUp t g = do {
     on_io \<leftarrow> CurrentlyOn (st_thread t) IO g;
     let t = (if on_io then IOThreadCleanUp t else t);
         t = (if st_identifier t = IO \<and> io_delegate g \<noteq> None then t\<lparr>st_cleanups := Suc (st_cleanups t)\<rparr> else t)
     in if st_registered t then do {
          g \<leftarrow> delete_WebThreadImpl (st_identifier t) g;
          Some (t\<lparr>st_registered := False\<rparr>, g) }
        else Some (t, g) }"

text \<open>
  \<open>Stop\<close> of the base class: the tasks posted before it run first (the pending initialisation among
  them), then the loop ends and \<open>CleanUp\<close> runs.
\<close>

definition sub_Stop ::
  "web_sub_thread \<Rightarrow> web_thread_globals \<Rightarrow> (web_sub_thread \<times> web_thread_globals) option" where
  "sub_Stop t g =
     (if \<not> st_running t then Some (t, g)
      else do {
        t \<leftarrow> (if st_pending_init t then CompleteInitializationOnWebThread t g else Some t);
        (t, g) \<leftarrow> sub_CleanUp t g;
        Some (t\<lparr>st_running := False\<rparr>, g) })"

text \<open>Posting through a task runner made for traits is posting with these traits.\<close>

lemma runner_posts_with_its_traits:
  assumes "CreateTaskRunnerWithTraits traits = Some runner"
  shows "(if traits_nestable traits then runner_PostDelayedTask else runner_PostNonNestableDelayedTask)
     current runner task delay g = PostDelayedTaskWithTraits current traits task delay g"
  using assms
  by (auto simp: CreateTaskRunnerWithTraits_def GetTaskRunnerForThread_def runner_PostDelayedTask_def
      runner_PostNonNestableDelayedTask_def PostDelayedTaskWithTraits_def GetWebThreadIdentifier_def Let_def
      elim!: bind_SomeE check_SomeE)

lemma on_thread [simp]:
  "CurrentlyOn cur i g = Some True \<Longrightarrow> DCHECK_CURRENTLY_ON cur i g = Some ()"
  by (simp add: DCHECK_CURRENTLY_ON_def)

section \<open>Traits\<close>

text \<open>\<open>web/public/web_task_traits.h\<close>: the two bytes in which the traits of a task travel.\<close>

fun id_of_byte :: "8 word \<Rightarrow> web_thread_id" where
  "id_of_byte b = (if b = 0 then UI else if b = 1 then IO else ID_COUNT)"

definition Serialize :: "web_thread_id \<times> bool \<Rightarrow> 8 word list" where
  "Serialize tr = [of_nat (id_value (fst tr)), of_bool (snd tr)]"

definition Parse :: "8 word list \<Rightarrow> (web_thread_id \<times> bool) option" where
  "Parse data = (case data of a # b # _ \<Rightarrow> Some (id_of_byte a, b \<noteq> 0) | _ \<Rightarrow> None)"

interpretation traits_coding: nscoding Serialize Parse "\<lambda>_. True"
proof
  fix tr :: "web_thread_id \<times> bool"
  show "Parse (Serialize tr) = Some tr"
    by (cases tr; cases "fst tr") (auto simp: Serialize_def Parse_def)
qed

text \<open>
  The reset of one identifier leaves the executor registered, although its comment says that it also
  unregisters and deletes it: the next registration of the executor then fails.
\<close>

lemma ResetGlobalsForTesting_keeps_executor:
  assumes "ResetGlobalsForTesting i g = Some g'"
  shows "executor_registered g' = executor_registered g"
    "executor_registered g \<Longrightarrow> CreateTaskExecutor g' = None"
  using assms by (auto simp: ResetGlobalsForTesting_def CreateTaskExecutor_def elim!: check_SomeE)

section \<open>Reachable tables\<close>

datatype wt_op =
    Register web_thread_id physical_thread | Unregister web_thread_id
  | PostTask physical_thread task_traits nat time_delta | CreateExecutor | SetDelegate "nat option"
  | DeleteOn physical_thread web_thread_id nat

fun wt_step :: "wt_op \<Rightarrow> web_thread_globals \<Rightarrow> web_thread_globals option" where
  "wt_step (Register i t) g = new_WebThreadImpl i t g"
| "wt_step (Unregister i) g = delete_WebThreadImpl i g"
| "wt_step (PostTask cur traits task delay) g =
     map_option (\<lambda>(_, _, g). g) (PostDelayedTaskWithTraits cur traits task delay g)"
| "wt_step CreateExecutor g = CreateTaskExecutor g"
| "wt_step (SetDelegate d) g = SetIOThreadDelegate d g"
| "wt_step (DeleteOn cur i task) g = map_option snd (DeleteOnThread cur i task g)"

inductive wt_reachable :: "web_thread_globals \<Rightarrow> bool" where
  wt_init: "wt_reachable initial_globals"
| wt_next: "wt_reachable g \<Longrightarrow> wt_step c g = Some g' \<Longrightarrow> wt_reachable g'"

definition wt_wf :: "web_thread_globals \<Rightarrow> bool" where
  "wt_wf g \<longleftrightarrow> (\<forall>i. states g i = UNINITIALIZED \<longleftrightarrow> task_runners g i = None) \<and>
     states g ID_COUNT = UNINITIALIZED"

text \<open>What a step does to the table: nothing, a registration, or the end of one.\<close>

definition table_step :: "web_thread_globals \<Rightarrow> web_thread_globals \<Rightarrow> bool" where
  "table_step g g' \<longleftrightarrow>
     states g' = states g \<and> task_runners g' = task_runners g \<or>
     (\<exists>i t. valid_id i \<and> states g i = UNINITIALIZED \<and> states g' = (states g)(i := RUNNING) \<and>
        task_runners g' = (task_runners g)(i := Some t)) \<or>
     (\<exists>i. states g i = RUNNING \<and> states g' = (states g)(i := SHUTDOWN) \<and> task_runners g' = task_runners g)"

lemma PostTaskHelper_table:
  "PostTaskHelper cur i task delay n g = Some (l, b, g') \<Longrightarrow> states g' = states g \<and> task_runners g' = task_runners g"
  unfolding PostTaskHelper_def
  by (elim check_SomeE) (auto simp: Let_def split: if_splits elim!: bind_SomeE)

lemma PostDelayedTaskWithTraits_table:
  "PostDelayedTaskWithTraits cur traits task delay g = Some (l, b, g') \<Longrightarrow>
   states g' = states g \<and> task_runners g' = task_runners g"
  unfolding PostDelayedTaskWithTraits_def by (elim bind_SomeE) (rule PostTaskHelper_table)

lemma DeleteOnThread_table:
  "DeleteOnThread cur i task g = Some (b, g') \<Longrightarrow> states g' = states g \<and> task_runners g' = task_runners g"
  unfolding DeleteOnThread_def runner_PostNonNestableDelayedTask_def
  by (elim bind_SomeE) (auto split: if_splits elim!: bind_SomeE dest: PostDelayedTaskWithTraits_table)

lemma wt_step_table: "wt_step c g = Some g' \<Longrightarrow> table_step g g'"
proof (cases c)
  case (PostTask cur traits task delay)
  then show "wt_step c g = Some g' \<Longrightarrow> table_step g g'"
    by (auto simp: table_step_def dest: PostDelayedTaskWithTraits_table)
next
  case (DeleteOn cur i task)
  then show "wt_step c g = Some g' \<Longrightarrow> table_step g g'"
    by (auto simp: table_step_def dest: DeleteOnThread_table)
next
  case (Register i t)
  assume "wt_step c g = Some g'"
  with Register have "valid_id i" "states g i = UNINITIALIZED" "states g' = (states g)(i := RUNNING)"
    "task_runners g' = (task_runners g)(i := Some t)"
    by (auto simp: new_WebThreadImpl_def elim!: check_SomeE)
  then show ?thesis unfolding table_step_def by blast
next
  case (Unregister i)
  assume "wt_step c g = Some g'"
  with Unregister have "states g i = RUNNING" "states g' = (states g)(i := SHUTDOWN)"
    "task_runners g' = task_runners g"
    by (auto simp: delete_WebThreadImpl_def elim!: check_SomeE)
  then show ?thesis unfolding table_step_def by blast
qed (auto simp: CreateTaskExecutor_def SetIOThreadDelegate_def IsThreadInitialized_def table_step_def
      elim!: bind_SomeE check_SomeE)

lemma table_step_wf:
  assumes "table_step g g'" "wt_wf g"
  shows "wt_wf g'"
proof -
  have w: "states g j = UNINITIALIZED \<longleftrightarrow> task_runners g j = None" "states g ID_COUNT = UNINITIALIZED" for j
    using assms(2) by (simp_all add: wt_wf_def)
  from assms(1) consider
    (same) "states g' = states g" "task_runners g' = task_runners g"
    | (reg) i t where "valid_id i" "states g' = (states g)(i := RUNNING)"
        "task_runners g' = (task_runners g)(i := Some t)"
    | (unreg) i where "states g i = RUNNING" "states g' = (states g)(i := SHUTDOWN)"
        "task_runners g' = task_runners g"
    unfolding table_step_def by blast
  then show ?thesis
  proof cases
    case unreg
    then have "i \<noteq> ID_COUNT" "task_runners g i \<noteq> None" using w(1) [of i] w(2) by auto
    with unreg w show ?thesis by (simp add: wt_wf_def)
  qed (use w in \<open>auto simp: wt_wf_def valid_id_def\<close>)
qed

lemma wt_reachable_wf: "wt_reachable g \<Longrightarrow> wt_wf g"
proof (induction rule: wt_reachable.induct)
  case wt_init
  show ?case by (simp add: wt_wf_def initial_globals_def)
next
  case (wt_next g c g')
  then show ?case using table_step_wf wt_step_table by blast
qed

text \<open>
  The comment on \<open>task_runners\<close> says that the table is depopulated when the threads are destructed; the
  destructor only sets the state.
\<close>

lemma runner_outlives_thread:
  assumes "delete_WebThreadImpl i g = Some g'" "task_runners g i = Some t"
  shows "states g' i = SHUTDOWN \<and> task_runners g' i = Some t"
  using assms by (auto simp: delete_WebThreadImpl_def elim!: check_SomeE)

text \<open>
  C34. The table of the well-known threads is well formed: in every reachable state exactly the
  threads that were never registered lack a task runner, a runner stays in place after its thread has
  shut down (where the comment on the table has it removed), and posting never meets a missing runner. It accepts a task exactly when its thread is
  running, and then appends it to the queue of the runner with its delay and its nesting flag; a thread that has
  shut down never runs again.
\<close>

theorem thread_table_well_formed:
  assumes "wt_reachable g" "valid_id i"
  shows "(states g i = UNINITIALIZED \<longleftrightarrow> task_runners g i = None) \<and>
    (\<exists>l g'. PostTaskHelper cur i task delay n g = Some (l, states g i = RUNNING, g') \<and>
       thread_queue g' = thread_queue g @
         (if states g i = RUNNING then [(the (task_runners g i), task, delay, n)] else [])) \<and>
    (\<forall>c g'. wt_step c g = Some g' \<longrightarrow>
       (states g i \<noteq> UNINITIALIZED \<longrightarrow> task_runners g' i = task_runners g i) \<and>
       (states g i = SHUTDOWN \<longrightarrow> states g' i = SHUTDOWN))"
proof -
  have wf: "states g i = UNINITIALIZED \<longleftrightarrow> task_runners g i = None"
    using wt_reachable_wf [OF assms(1)] by (simp add: wt_wf_def)
  have "\<exists>l g'. PostTaskHelper cur i task delay n g = Some (l, states g i = RUNNING, g') \<and>
       thread_queue g' = thread_queue g @
         (if states g i = RUNNING then [(the (task_runners g i), task, delay, n)] else [])"
    using wf assms(2) by (cases "task_runners g i") (auto simp: PostTaskHelper_def Let_def)
  moreover have "(states g i \<noteq> UNINITIALIZED \<longrightarrow> task_runners g' i = task_runners g i) \<and>
       (states g i = SHUTDOWN \<longrightarrow> states g' i = SHUTDOWN)" if "wt_step c g = Some g'" for c g'
    using wt_step_table [OF that] by (auto simp: table_step_def)
  ultimately show ?thesis using wf by blast
qed

theorem thread_table_well_formed_witness:
  "\<exists>g l g'. Option.bind (wt_step (Register UI 1) initial_globals) (wt_step (Register IO 2)) = Some g \<and>
     PostTaskHelper 2 UI 7 50 True g = Some (l, True, g') \<and> thread_queue g' = [(1, 7, 50, True)]"
proof -
  let ?g1 = "initial_globals\<lparr>states := (states initial_globals)(UI := RUNNING),
    task_runners := (task_runners initial_globals)(UI := Some 1)\<rparr>"
  let ?g = "?g1\<lparr>states := (states ?g1)(IO := RUNNING), task_runners := (task_runners ?g1)(IO := Some 2)\<rparr>"
  have s: "wt_step (Register UI 1) initial_globals = Some ?g1" "wt_step (Register IO 2) ?g1 = Some ?g"
    by (simp_all add: new_WebThreadImpl_def valid_id_def initial_globals_def)
  have "wt_reachable ?g" by (rule wt_next [OF wt_next [OF wt_init s(1)] s(2)])
  from thread_table_well_formed [OF this, of UI 2 7 50 True] s show ?thesis
    by (auto simp: valid_id_def initial_globals_def)
qed

text \<open>
  The life of the IO thread: started, registered and stopped, its delegate is initialised once and
  cleaned up once, and its identifier ends in the shut down state.
\<close>

lemma io_thread_life:
  assumes "states g IO = UNINITIALIZED" "task_runners g IO = None" "io_delegate g = Some d"
    "sub_Start (new_WebSubThread IO th) = Some t1" "RegisterAsWebThread t1 g = Some (t2, g2)"
    "sub_Stop t2 g2 = Some (t3, g3)"
  shows "st_inits t3 = 1 \<and> st_cleanups t3 = 1 \<and> st_cancelled t3 = 1 \<and> states g3 IO = SHUTDOWN \<and>
    \<not> st_running t3 \<and> \<not> st_registered t3"
  using assms
  by (auto simp: sub_Start_def new_WebSubThread_def sub_Init_def RegisterAsWebThread_def sub_Stop_def
      new_WebThreadImpl_def CompleteInitializationOnWebThread_def sub_CleanUp_def CurrentlyOn_def
      IOThreadCleanUp_def delete_WebThreadImpl_def valid_id_def elim!: bind_SomeE)

end
