(* ===== verification/Ordered_Container.thy ===== *)
theory Ordered_Container
  imports Prelude "HOL-Library.List_Lexorder" "HOL-Library.Char_ord" "HOL-Library.Product_Lexorder"
begin

text \<open>
  The ordered containers of the standard library as the code uses them: a \<open>std::set\<close> is the list of
  its elements in the order of its comparator, without equivalent ones. What a comparator of the
  program promises is that it compares keys in a linear order.
\<close>

text \<open>\<open>insert\<close> keeps the equivalent element that is there.\<close>

fun set_insert :: "('a \<Rightarrow> 'a \<Rightarrow> bool) \<Rightarrow> 'a \<Rightarrow> 'a list \<Rightarrow> 'a list" where
  "set_insert lt x [] = [x]"
| "set_insert lt x (y # ys) =
     (if lt x y then x # y # ys else if lt y x then y # set_insert lt x ys else y # ys)"

definition set_from :: "('a \<Rightarrow> 'a \<Rightarrow> bool) \<Rightarrow> 'a list \<Rightarrow> 'a list" where
  "set_from lt xs = fold (set_insert lt) xs []"

text \<open>\<open>std::set_difference\<close> merges two sorted ranges.\<close>

fun set_difference :: "('a \<Rightarrow> 'a \<Rightarrow> bool) \<Rightarrow> 'a list \<Rightarrow> 'a list \<Rightarrow> 'a list" where
  "set_difference lt [] ys = []"
| "set_difference lt xs [] = xs"
| "set_difference lt (x # xs) (y # ys) =
     (if lt x y then x # set_difference lt xs (y # ys)
      else if lt y x then set_difference lt (x # xs) ys
      else set_difference lt xs ys)"

lemma set_insert_mem: "z \<in> set (set_insert lt x ys) \<Longrightarrow> z = x \<or> z \<in> set ys"
  by (induction ys) (auto split: if_splits)

locale comparator =
  fixes lt :: "'a \<Rightarrow> 'a \<Rightarrow> bool" and key :: "'a \<Rightarrow> 'k::linorder"
  assumes lt_iff: "lt a b \<longleftrightarrow> key a < key b"
begin

abbreviation in_order :: "'a list \<Rightarrow> bool" where
  "in_order s \<equiv> sorted_wrt (\<lambda>a b. key a < key b) s"

lemma strict_order:
  "\<not> lt a a" "lt a b \<Longrightarrow> lt b c \<Longrightarrow> lt a c" "\<not> lt a b \<Longrightarrow> \<not> lt b a \<Longrightarrow> key a = key b"
  by (auto simp: lt_iff)

lemma insert_in_order: "in_order s \<Longrightarrow> in_order (set_insert lt x s)"
  by (induction s) (auto simp: lt_iff dest!: set_insert_mem dest: less_trans)

lemma from_in_order: "in_order (set_from lt xs)"
proof -
  have "in_order s \<Longrightarrow> in_order (fold (set_insert lt) xs s)" for s
    by (induction xs arbitrary: s) (simp_all add: insert_in_order)
  then show ?thesis by (simp add: set_from_def)
qed

lemma keys_insert: "in_order s \<Longrightarrow> key ` set (set_insert lt x s) = insert (key x) (key ` set s)"
proof (induction s)
  case (Cons y ys)
  then show ?case by (cases "key x" "key y" rule: linorder_cases) (auto simp: lt_iff)
qed simp

lemma keys_from: "key ` set (set_from lt xs) = key ` set xs"
proof -
  have "in_order s \<Longrightarrow> key ` set (fold (set_insert lt) xs s) = key ` set s \<union> key ` set xs" for s
    by (induction xs arbitrary: s) (auto simp: insert_in_order keys_insert)
  from this [of "[]"] show ?thesis by (simp add: set_from_def)
qed

lemma insert_last: "(\<And>y. y \<in> set ys \<Longrightarrow> key y < key x) \<Longrightarrow> set_insert lt x ys = ys @ [x]"
  by (induction ys) (auto simp: lt_iff dest: less_asym)

text \<open>A list that is in order is the set it makes.\<close>

lemma from_id: "in_order xs \<Longrightarrow> set_from lt xs = xs"
proof -
  have "in_order (acc @ xs) \<Longrightarrow> fold (set_insert lt) xs acc = acc @ xs" for acc
    by (induction xs arbitrary: acc) (auto simp: insert_last sorted_wrt_append)
  from this [of "[]"] show "in_order xs \<Longrightarrow> set_from lt xs = xs" by (simp add: set_from_def)
qed

text \<open>The merge computes the difference of the keys.\<close>

lemma filter_drop_key:
  "(\<And>c. c \<in> set xs \<Longrightarrow> key c \<noteq> key y) \<Longrightarrow>
   filter (\<lambda>c. key c \<notin> key ` set (y # ys)) xs = filter (\<lambda>c. key c \<notin> key ` set ys) xs"
  by (intro filter_cong) auto

lemma difference_eq:
  assumes "in_order xs" "in_order ys"
  shows "set_difference lt xs ys = filter (\<lambda>c. key c \<notin> key ` set ys) xs"
  using assms
proof (induction l\<equiv>lt xs ys rule: set_difference.induct)
  case (3 x xs y ys)
  have xs: "\<And>c. c \<in> set xs \<Longrightarrow> key x < key c" and ys: "\<And>c. c \<in> set ys \<Longrightarrow> key y < key c"
    using "3.prems" by auto
  show ?case
  proof (cases "key x" "key y" rule: linorder_cases)
    case less
    then have "key x \<notin> key ` set (y # ys)" using ys by (force dest: less_trans)
    moreover have "set_difference lt xs (y # ys) = filter (\<lambda>c. key c \<notin> key ` set (y # ys)) xs"
      using "3.hyps"(1) "3.prems" less by (simp add: lt_iff)
    ultimately show ?thesis using less by (simp add: lt_iff)
  next
    case equal
    then have "filter (\<lambda>c. key c \<notin> key ` set (y # ys)) xs = filter (\<lambda>c. key c \<notin> key ` set ys) xs"
      using xs by (intro filter_drop_key) fastforce+
    with equal show ?thesis using "3.hyps"(3) "3.prems" by (simp add: lt_iff)
  next
    case greater
    then have "filter (\<lambda>c. key c \<notin> key ` set (y # ys)) (x # xs) = filter (\<lambda>c. key c \<notin> key ` set ys) (x # xs)"
      using xs by (intro filter_drop_key) fastforce+
    moreover have "set_difference lt (x # xs) ys = filter (\<lambda>c. key c \<notin> key ` set ys) (x # xs)"
      using "3.hyps"(2) "3.prems" greater by (simp add: lt_iff)
    moreover have "\<not> lt x y" "lt y x" using greater by (simp_all add: lt_iff)
    ultimately show ?thesis by (simp only: set_difference.simps if_True if_False)
  qed
qed simp_all

end

end
