(* ===== verification/Cert_Policy.thy ===== *)
theory Cert_Policy
  imports Web_Thread Ordered_Container "HOL-Library.Word"
begin

unbundle bit_operations_syntax

text \<open>
  \<open>web/net/cert_policy.cc\<close>, \<open>certificate_policy_cache.cc\<close> and \<open>cert_host_pair.cc\<close>: the decisions of
  the user about bad certificates, kept per host on the IO thread. The fingerprint of a certificate
  chain is a function of the certificate (\<open>net::X509Certificate\<close>), passed as an argument; a
  \<open>net::CertStatus\<close> is a 32-bit word of error flags.
\<close>

type_synonym cert_status = "32 word"
type_synonym sha256 = string

datatype cert_judgment = UNKNOWN | ALLOWED | DENIED

section \<open>One policy\<close>

type_synonym cert_policy = "sha256 \<rightharpoonup> cert_status"

definition new_CertPolicy :: cert_policy where
  "new_CertPolicy = (\<lambda>_. None)"

definition Check :: "('c \<Rightarrow> sha256) \<Rightarrow> 'c \<Rightarrow> cert_status \<Rightarrow> cert_policy \<Rightarrow> cert_judgment" where
  "Check fingerprint cert error allowed =
     (case allowed (fingerprint cert) of
        Some status \<Rightarrow>
          if status AND error \<noteq> 0 \<and> \<not> (NOT (status AND error) XOR NOT error \<noteq> 0)
          then ALLOWED else UNKNOWN
      | None \<Rightarrow> UNKNOWN)"

definition Allow :: "('c \<Rightarrow> sha256) \<Rightarrow> 'c \<Rightarrow> cert_status \<Rightarrow> cert_policy \<Rightarrow> cert_policy" where
  "Allow fingerprint cert error allowed = allowed(fingerprint cert \<mapsto> error)"

section \<open>The policies of all hosts\<close>

type_synonym certificate_policy_cache = "string \<rightharpoonup> cert_policy"

definition policy_for_host :: "string \<Rightarrow> certificate_policy_cache \<Rightarrow> cert_policy" where
  "policy_for_host host cache = (case cache host of Some p \<Rightarrow> p | None \<Rightarrow> new_CertPolicy)"

definition AllowCertForHost ::
  "('c \<Rightarrow> sha256) \<Rightarrow> physical_thread \<Rightarrow> web_thread_globals \<Rightarrow> 'c \<Rightarrow> string \<Rightarrow> cert_status
   \<Rightarrow> certificate_policy_cache \<Rightarrow> certificate_policy_cache option" where
  "AllowCertForHost fingerprint current g cert host error cache = do {
     DCHECK_CURRENTLY_ON current IO g;
     Some (cache(host \<mapsto> Allow fingerprint cert error (policy_for_host host cache))) }"

text \<open>A query creates the policy of its host when there is none.\<close>

definition QueryPolicy ::
  "('c \<Rightarrow> sha256) \<Rightarrow> physical_thread \<Rightarrow> web_thread_globals \<Rightarrow> 'c \<Rightarrow> string \<Rightarrow> cert_status
   \<Rightarrow> certificate_policy_cache \<Rightarrow> (cert_judgment \<times> certificate_policy_cache) option" where
  "QueryPolicy fingerprint current g cert host error cache = do {
     DCHECK_CURRENTLY_ON current IO g;
     Some (Check fingerprint cert error (policy_for_host host cache),
           cache(host \<mapsto> policy_for_host host cache)) }"

definition ClearCertificatePolicies ::
  "physical_thread \<Rightarrow> web_thread_globals \<Rightarrow> certificate_policy_cache \<Rightarrow> certificate_policy_cache option" where
  "ClearCertificatePolicies current g cache = do {
     DCHECK_CURRENTLY_ON current IO g;
     Some (\<lambda>_. None) }"

section \<open>Pairs of a certificate and a host\<close>

record 'c cert_host_pair =
  chp_cert :: 'c
  chp_host :: string
  chp_cert_hash :: sha256

definition new_CertHostPair :: "('c \<Rightarrow> sha256) \<Rightarrow> 'c \<Rightarrow> string \<Rightarrow> 'c cert_host_pair" where
  "new_CertHostPair fingerprint cert host =
     \<lparr>chp_cert = cert, chp_host = host, chp_cert_hash = fingerprint cert\<rparr>"

definition CertHostPair_less :: "'c cert_host_pair \<Rightarrow> 'c cert_host_pair \<Rightarrow> bool" where
  "CertHostPair_less p q \<longleftrightarrow>
     chp_host p < chp_host q \<or> \<not> chp_host q < chp_host p \<and> chp_cert_hash p < chp_cert_hash q"

text \<open>The order makes pairs keys of a container: it compares the host, then the hash of the chain.\<close>

interpretation cert_pairs: comparator CertHostPair_less "\<lambda>p. (chp_host p, chp_cert_hash p)"
  by standard (auto simp: CertHostPair_less_def less_prod_def')

lemmas CertHostPair_less_order = cert_pairs.strict_order

section \<open>Properties\<close>

lemma subset_test: "NOT (a AND e) XOR NOT e = 0 \<longleftrightarrow> a AND e = e" for a e :: cert_status
proof -
  have "NOT x XOR NOT y = x XOR y" for x y :: cert_status
    by (rule bit_eqI) (auto simp: bit_simps)
  moreover have "x XOR y = 0 \<longleftrightarrow> x = y" for x y :: cert_status
    by (metis xor.left_neutral xor.assoc xor_self_eq)
  ultimately show ?thesis by (simp only:)
qed

lemma covers_errors:
  "a AND e \<noteq> 0 \<and> \<not> (NOT (a AND e) XOR NOT e \<noteq> 0) \<longleftrightarrow> e \<noteq> 0 \<and> a AND e = e" for a e :: cert_status
  unfolding subset_test by auto

lemma Check_eq:
  "Check fp cert error p =
     (case p (fp cert) of
        Some status \<Rightarrow> if error \<noteq> 0 \<and> status AND error = error then ALLOWED else UNKNOWN
      | None \<Rightarrow> UNKNOWN)"
  unfolding Check_def covers_errors by (rule refl)

datatype 'c cert_op = AllowOp 'c string cert_status | QueryOp 'c string cert_status | ClearOp

fun cert_step ::
  "('c \<Rightarrow> sha256) \<Rightarrow> physical_thread \<Rightarrow> web_thread_globals \<Rightarrow> 'c cert_op \<Rightarrow> certificate_policy_cache
   \<Rightarrow> certificate_policy_cache option" where
  "cert_step fp cur g (AllowOp c h e) cache = AllowCertForHost fp cur g c h e cache"
| "cert_step fp cur g (QueryOp c h e) cache = map_option snd (QueryPolicy fp cur g c h e cache)"
| "cert_step fp cur g ClearOp cache = ClearCertificatePolicies cur g cache"

fun cert_run ::
  "('c \<Rightarrow> sha256) \<Rightarrow> physical_thread \<Rightarrow> web_thread_globals \<Rightarrow> 'c cert_op list \<Rightarrow> certificate_policy_cache
   \<Rightarrow> certificate_policy_cache option" where
  "cert_run fp cur g [] cache = Some cache"
| "cert_run fp cur g (c # cs) cache = Option.bind (cert_step fp cur g c cache) (cert_run fp cur g cs)"

text \<open>
  The specification: the status last allowed for the chain and the host, unless the decisions were
  cleared since.
\<close>

fun last_allowed :: "('c \<Rightarrow> sha256) \<Rightarrow> 'c \<Rightarrow> string \<Rightarrow> 'c cert_op list \<Rightarrow> cert_status option" where
  "last_allowed fp c h [] = None"
| "last_allowed fp c h (AllowOp c' h' e # later) =
     (if ClearOp \<in> set later then last_allowed fp c h later
      else case last_allowed fp c h later of
        Some s \<Rightarrow> Some s | None \<Rightarrow> if fp c' = fp c \<and> h' = h then Some e else None)"
| "last_allowed fp c h (_ # later) = last_allowed fp c h later"

lemma cert_run_lookup:
  assumes "CurrentlyOn cur IO g = Some True"
  shows "\<exists>cache'. cert_run fp cur g ops cache = Some cache' \<and>
     policy_for_host h cache' (fp c) =
       (case last_allowed fp c h ops of
          Some s \<Rightarrow> Some s
        | None \<Rightarrow> if ClearOp \<in> set ops then None else policy_for_host h cache (fp c))"
proof (induction ops arbitrary: cache)
  case Nil
  then show ?case by simp
next
  case (Cons x ops)
  show ?case
  proof (cases x)
    case (AllowOp c' h' e)
    let ?cache = "cache(h' \<mapsto> Allow fp c' e (policy_for_host h' cache))"
    have l: "policy_for_host h ?cache (fp c) =
        (if fp c' = fp c \<and> h' = h then Some e else policy_for_host h cache (fp c))"
      by (simp add: Allow_def policy_for_host_def)
    have st: "cert_step fp cur g x cache = Some ?cache"
      using assms AllowOp by (simp add: AllowCertForHost_def)
    obtain cache' where "cert_run fp cur g ops ?cache = Some cache'"
      "policy_for_host h cache' (fp c) = (case last_allowed fp c h ops of Some s \<Rightarrow> Some s
        | None \<Rightarrow> if ClearOp \<in> set ops then None else policy_for_host h ?cache (fp c))"
      using Cons.IH [of ?cache] by blast
    with l st AllowOp show ?thesis
      by (cases "last_allowed fp c h ops"; cases "ClearOp \<in> set ops") auto
  next
    case (QueryOp c' h' e)
    let ?cache = "cache(h' \<mapsto> policy_for_host h' cache)"
    have "policy_for_host h ?cache = policy_for_host h cache" by (simp add: policy_for_host_def)
    moreover have "cert_step fp cur g x cache = Some ?cache"
      using assms QueryOp by (simp add: QueryPolicy_def)
    moreover have "last_allowed fp c h (x # ops) = last_allowed fp c h ops"
      "ClearOp \<in> set (x # ops) \<longleftrightarrow> ClearOp \<in> set ops" using QueryOp by auto
    moreover have "cert_run fp cur g (x # ops) cache = Option.bind (cert_step fp cur g x cache) (cert_run fp cur g ops)"
      by simp
    ultimately show ?thesis using Cons.IH [of ?cache] by (simp only: bind.bind_lunit)
  next
    case ClearOp
    then have "cert_step fp cur g x cache = Some (\<lambda>_. None)"
      using assms by (simp add: ClearCertificatePolicies_def)
    moreover have "policy_for_host h (\<lambda>_. None) (fp c) = None"
      by (simp add: policy_for_host_def new_CertPolicy_def)
    ultimately show ?thesis
      using Cons.IH [of "\<lambda>_. None"] ClearOp by (cases "last_allowed fp c h ops") auto
  qed
qed

text \<open>
  C35. A certificate is allowed for a host exactly when the last decision recorded for its chain and
  that host, since the decisions were last cleared, covers all of its errors and there is an error to
  cover; other hosts and other chains play no part, and no certificate is ever denied.
\<close>

theorem certificate_decisions:
  assumes "CurrentlyOn cur IO g = Some True"
  shows "\<exists>cache cache'. cert_run fp cur g ops (\<lambda>_. None) = Some cache \<and>
    QueryPolicy fp cur g c h error cache =
      Some (case last_allowed fp c h ops of
              Some s \<Rightarrow> if error \<noteq> 0 \<and> s AND error = error then ALLOWED else UNKNOWN
            | None \<Rightarrow> UNKNOWN, cache')"
proof -
  obtain cache where "cert_run fp cur g ops (\<lambda>_. None) = Some cache"
    "policy_for_host h cache (fp c) = last_allowed fp c h ops"
    using cert_run_lookup [OF assms, of fp ops "\<lambda>_. None" h c]
    by (auto simp: policy_for_host_def new_CertPolicy_def split: option.splits if_splits)
  with assms show ?thesis by (auto simp: QueryPolicy_def Check_eq)
qed

theorem certificate_decisions_witness:
  "\<exists>cache cache'. cert_run (\<lambda>c::nat. if c = 0 then ''a'' else ''b'') 2
      (initial_globals\<lparr>task_runners := (\<lambda>_. None)(IO := Some 2)\<rparr>)
      [AllowOp 0 ''h'' 6, AllowOp 1 ''h'' 1] (\<lambda>_. None) = Some cache \<and>
    QueryPolicy (\<lambda>c::nat. if c = 0 then ''a'' else ''b'') 2
      (initial_globals\<lparr>task_runners := (\<lambda>_. None)(IO := Some 2)\<rparr>) 0 ''h'' 4 cache = Some (ALLOWED, cache')"
proof -
  let ?g = "initial_globals\<lparr>task_runners := (\<lambda>_. None)(IO := Some 2)\<rparr>"
  have "CurrentlyOn 2 IO ?g = Some True" by (simp add: CurrentlyOn_def valid_id_def)
  from certificate_decisions [OF this, of "\<lambda>c::nat. if c = 0 then ''a'' else ''b''"
      "[AllowOp 0 ''h'' 6, AllowOp 1 ''h'' 1]" 0 "''h''" 4]
  show ?thesis by simp
qed

end
