(* ===== verification/Cache_Counter.thy ===== *)
theory Cache_Counter
  imports Web_Thread
begin

text \<open>
  \<open>chrome/browser/browsing_data/cache_counter.cc\<close>: the counter of the bytes in the HTTP cache. It
  walks through its steps on the IO thread, waiting where the cache is not ready, and reports on the
  UI thread. What the cache and its backend return is given as arguments: a number of bytes or an
  error code, \<open>ERR_IO_PENDING\<close> when the answer comes later.
\<close>

definition net_ERR_IO_PENDING :: int where "net_ERR_IO_PENDING = - 1"

datatype count_step = STEP_GET_BACKEND | STEP_COUNT | STEP_CALLBACK | STEP_DONE

text \<open>\<open>cc_posted\<close> counts the calls of \<open>OnCountingFinished\<close> posted to the UI thread.\<close>

record cache_counter =
  next_step :: count_step
  cc_result :: int
  cc_backend :: bool
  cc_posted :: nat

definition new_IOThreadCacheCounter :: cache_counter where
  "new_IOThreadCacheCounter =
     \<lparr>next_step = STEP_GET_BACKEND, cc_result = 0, cc_backend = False, cc_posted = 0\<rparr>"

text \<open>
  What the cache answers: the result of \<open>GetBackend\<close>, which hands out a backend when it succeeds, and
  of \<open>CalculateSizeOfAllEntries\<close>.
\<close>

record cache_answers =
  GetBackend :: int
  CalculateSizeOfAllEntries :: int

fun steps_left :: "count_step \<Rightarrow> nat" where
  "steps_left STEP_GET_BACKEND = 3"
| "steps_left STEP_COUNT = 2"
| "steps_left STEP_CALLBACK = 1"
| "steps_left STEP_DONE = 0"

text \<open>One round of the loop. A backend that is pending is there when the loop is entered again.\<close>

definition count_round :: "cache_answers \<Rightarrow> int \<Rightarrow> cache_counter \<Rightarrow> (int \<times> cache_counter) option" where
  "count_round a rv c =
     (let step = (if rv < 0 then STEP_CALLBACK else next_step c)
      in case step of
           STEP_GET_BACKEND \<Rightarrow>
             Some (GetBackend a,
               c\<lparr>next_step := STEP_COUNT, cc_backend := (GetBackend a \<ge> 0 \<or> GetBackend a = net_ERR_IO_PENDING)\<rparr>)
         | STEP_COUNT \<Rightarrow> do {
             check (cc_backend c);
             Some (CalculateSizeOfAllEntries a, c\<lparr>next_step := STEP_CALLBACK\<rparr>) }
         | STEP_CALLBACK \<Rightarrow>
             Some (rv, c\<lparr>next_step := STEP_DONE, cc_result := rv, cc_posted := Suc (cc_posted c)\<rparr>)
         | STEP_DONE \<Rightarrow> None)"

lemma count_round_progress:
  "next_step c \<noteq> STEP_DONE \<Longrightarrow> count_round a rv c = Some (rv', c') \<Longrightarrow>
   steps_left (next_step c') < steps_left (next_step c)"
  by (cases "next_step c") (auto simp: count_round_def Let_def split: if_splits elim!: check_SomeE)

function count_loop :: "cache_answers \<Rightarrow> int \<Rightarrow> cache_counter \<Rightarrow> cache_counter option" where
  "count_loop a rv c =
     (if rv \<noteq> net_ERR_IO_PENDING \<and> next_step c \<noteq> STEP_DONE
      then (case count_round a rv c of None \<Rightarrow> None | Some (rv, c) \<Rightarrow> count_loop a rv c)
      else Some c)"
  by pat_completeness auto

termination
  by (relation "measure (\<lambda>(a, rv, c). steps_left (next_step c))") (auto dest: count_round_progress)

declare count_loop.simps [simp del]

definition CountInternal ::
  "physical_thread \<Rightarrow> web_thread_globals \<Rightarrow> cache_answers \<Rightarrow> int \<Rightarrow> cache_counter \<Rightarrow> cache_counter option" where
  "CountInternal current g a rv c = do {
     DCHECK_CURRENTLY_ON current IO g;
     count_loop a rv c }"

text \<open>The callback of the counter; the object deletes itself after it.\<close>

definition OnCountingFinished ::
  "physical_thread \<Rightarrow> web_thread_globals \<Rightarrow> cache_counter \<Rightarrow> int option" where
  "OnCountingFinished current g c = do {
     DCHECK_CURRENTLY_ON current UI g;
     Some (cc_result c) }"

text \<open>What \<open>CacheCounter\<close> reports: nothing for an error code.\<close>

definition OnCacheSizeCalculated :: "int \<Rightarrow> int option" where
  "OnCacheSizeCalculated result_bytes = (if result_bytes < 0 then None else Some result_bytes)"

section \<open>One report for every counting\<close>

definition cc_inv :: "cache_counter \<Rightarrow> bool" where
  "cc_inv c \<longleftrightarrow> (next_step c = STEP_COUNT \<longrightarrow> cc_backend c) \<and> cc_posted c = of_bool (next_step c = STEP_DONE)"

definition cc_ready :: "int \<Rightarrow> cache_counter \<Rightarrow> bool" where
  "cc_ready rv c \<longleftrightarrow>
     (next_step c = STEP_COUNT \<longrightarrow> 0 \<le> rv \<longrightarrow> cc_backend c) \<and> cc_posted c = of_bool (next_step c = STEP_DONE)"

lemma count_round_ready:
  assumes "cc_ready rv c" "next_step c \<noteq> STEP_DONE" "rv \<noteq> net_ERR_IO_PENDING"
  shows "\<exists>rv' c'. count_round a rv c = Some (rv', c') \<and> cc_ready rv' c' \<and>
    (rv' = net_ERR_IO_PENDING \<longrightarrow> cc_inv c' \<and> next_step c' \<noteq> STEP_DONE)"
  using assms
  by (cases "next_step c"; cases "rv < 0")
     (auto simp: count_round_def cc_ready_def cc_inv_def net_ERR_IO_PENDING_def)

text \<open>
  The loop ends without a failed assertion: it has either reported, once, or waits for the cache to
  call it again.
\<close>

lemma count_loop_ends:
  "cc_ready rv c \<Longrightarrow> rv \<noteq> net_ERR_IO_PENDING \<or> cc_inv c \<Longrightarrow>
   \<exists>c'. count_loop a rv c = Some c' \<and>
     (next_step c' = STEP_DONE \<and> cc_posted c' = 1 \<or> next_step c' \<noteq> STEP_DONE \<and> cc_inv c' \<and> cc_posted c' = 0)"
proof (induction a rv c rule: count_loop.induct)
  case (1 a rv c)
  show ?case
  proof (cases "rv \<noteq> net_ERR_IO_PENDING \<and> next_step c \<noteq> STEP_DONE")
    case True
    with count_round_ready [OF 1(2)] obtain rv' c' where
      r: "count_round a rv c = Some (rv', c')" "cc_ready rv' c'"
      "rv' = net_ERR_IO_PENDING \<longrightarrow> cc_inv c' \<and> next_step c' \<noteq> STEP_DONE" by blast
    from 1(1) [OF True r(1) refl r(2)] r(3) r(1) True show ?thesis
      by (subst count_loop.simps) auto
  next
    case False
    with 1(2,3) show ?thesis
      by (subst count_loop.simps) (auto simp: cc_ready_def cc_inv_def)
  qed
qed

lemma counter_reports_once:
  assumes "CurrentlyOn cur IO g = Some True"
  shows "\<exists>c. CountInternal cur g a 0 new_IOThreadCacheCounter = Some c \<and>
    (next_step c = STEP_DONE \<and> cc_posted c = 1 \<or> next_step c \<noteq> STEP_DONE \<and> cc_inv c \<and> cc_posted c = 0)"
    "cc_inv c0 \<Longrightarrow> rv \<noteq> net_ERR_IO_PENDING \<Longrightarrow> \<exists>c. CountInternal cur g a rv c0 = Some c \<and>
    (next_step c = STEP_DONE \<and> cc_posted c = 1 \<or> next_step c \<noteq> STEP_DONE \<and> cc_inv c \<and> cc_posted c = 0)"
proof -
  show "\<exists>c. CountInternal cur g a 0 new_IOThreadCacheCounter = Some c \<and>
    (next_step c = STEP_DONE \<and> cc_posted c = 1 \<or> next_step c \<noteq> STEP_DONE \<and> cc_inv c \<and> cc_posted c = 0)"
    using count_loop_ends [of 0 new_IOThreadCacheCounter a] assms
    by (simp add: CountInternal_def cc_ready_def new_IOThreadCacheCounter_def net_ERR_IO_PENDING_def)
  show "\<exists>c. CountInternal cur g a rv c0 = Some c \<and>
    (next_step c = STEP_DONE \<and> cc_posted c = 1 \<or> next_step c \<noteq> STEP_DONE \<and> cc_inv c \<and> cc_posted c = 0)"
    if "cc_inv c0" "rv \<noteq> net_ERR_IO_PENDING"
    using count_loop_ends [of rv c0 a] assms that
    by (simp add: CountInternal_def cc_ready_def cc_inv_def)
qed

end
