(* ===== verification/Cookie_Cache.thy ===== *)
theory Cookie_Cache
  imports Ordered_Container
begin

text \<open>
  \<open>net/cookies/cookie_cache.cc\<close>: the cookies last seen for a URL and a name, and what changed since.
  A \<open>std::set\<close> with a comparator is the list of its elements in the order of the comparator;
  inserting an equivalent element leaves the set alone, and \<open>std::set_difference\<close> is the merge of
  two such lists. Of a cookie the code reads domain, path, name and value; the other attributes are
  carried along.
\<close>

record canonical_cookie =
  Domain :: string
  Path :: string
  Name :: string
  Value :: string
  other_attributes :: int

definition CookieComparator :: "canonical_cookie \<Rightarrow> canonical_cookie \<Rightarrow> bool" where
  "CookieComparator lhs rhs =
     (if Domain lhs \<noteq> Domain rhs then Domain lhs < Domain rhs
      else if Path lhs \<noteq> Path rhs then Path lhs < Path rhs
      else if Name lhs \<noteq> Name rhs then Name lhs < Name rhs
      else False)"

definition CookieAndValueComparator :: "canonical_cookie \<Rightarrow> canonical_cookie \<Rightarrow> bool" where
  "CookieAndValueComparator lhs rhs =
     (if Domain lhs \<noteq> Domain rhs then Domain lhs < Domain rhs
      else if Path lhs \<noteq> Path rhs then Path lhs < Path rhs
      else if Name lhs \<noteq> Name rhs then Name lhs < Name rhs
      else if Value lhs \<noteq> Value rhs then Value lhs < Value rhs
      else False)"

type_synonym cookie_set = "canonical_cookie list"
type_synonym 'u cookie_key = "'u \<times> string"
type_synonym 'u cookie_cache = "'u cookie_key \<rightharpoonup> cookie_set"

text \<open>
  The result: whether the cookies changed, those removed and those added (what is appended to the two
  output vectors), and the cache.
\<close>

definition Update ::
  "'u \<Rightarrow> string \<Rightarrow> canonical_cookie list \<Rightarrow> 'u cookie_cache
   \<Rightarrow> bool \<times> canonical_cookie list \<times> canonical_cookie list \<times> 'u cookie_cache" where
  "Update url name new_cookies cache =
     (let key = (url, name);
          old_set = (case cache key of Some s \<Rightarrow> s | None \<Rightarrow> []);
          new_set = set_from CookieComparator new_cookies;
          added_cookies = set_from CookieComparator (set_difference CookieAndValueComparator new_set old_set);
          removed_cookies = set_from CookieComparator (set_difference CookieAndValueComparator old_set new_set)
      in if added_cookies = [] \<and> removed_cookies = []
         then (False, [], [], cache(key \<mapsto> old_set))
         else (True, removed_cookies, added_cookies, cache(key \<mapsto> new_set)))"

section \<open>The orders\<close>

definition cookie_id :: "canonical_cookie \<Rightarrow> string \<times> string \<times> string" where
  "cookie_id c = (Domain c, Path c, Name c)"

definition cookie_content :: "canonical_cookie \<Rightarrow> (string \<times> string \<times> string) \<times> string" where
  "cookie_content c = (cookie_id c, Value c)"

lemma CookieComparator_iff: "CookieComparator a b \<longleftrightarrow> cookie_id a < cookie_id b"
  by (auto simp: CookieComparator_def cookie_id_def less_prod_def' less_imp_neq)

lemma CookieAndValueComparator_iff: "CookieAndValueComparator a b \<longleftrightarrow> cookie_content a < cookie_content b"
  by (auto simp: CookieAndValueComparator_def cookie_content_def cookie_id_def less_prod_def' less_imp_neq)

interpretation cookie_ids: comparator CookieComparator cookie_id
  by standard (rule CookieComparator_iff)

interpretation cookie_contents: comparator CookieAndValueComparator cookie_content
  by standard (rule CookieAndValueComparator_iff)

text \<open>The finer order sorts whatever the coarser one sorts, so that the merge of \<open>Update\<close> is defined.\<close>

lemma contents_in_order: "cookie_ids.in_order s \<Longrightarrow> cookie_contents.in_order s"
  by (erule sorted_wrt_mono_rel [rotated]) (simp add: cookie_content_def less_prod_def')

lemma set_from_difference:
  assumes "cookie_ids.in_order xs" "cookie_ids.in_order ys"
  shows "set_from CookieComparator (set_difference CookieAndValueComparator xs ys) =
    filter (\<lambda>c. cookie_content c \<notin> cookie_content ` set ys) xs"
  unfolding cookie_contents.difference_eq [OF assms [THEN contents_in_order]]
  by (rule cookie_ids.from_id) (rule sorted_wrt_filter [OF assms(1)])

definition cache_ok :: "'u cookie_cache \<Rightarrow> bool" where
  "cache_ok cache \<longleftrightarrow> (\<forall>k s. cache k = Some s \<longrightarrow> cookie_ids.in_order s)"

definition cached :: "'u cookie_cache \<Rightarrow> 'u \<Rightarrow> string \<Rightarrow> cookie_set" where
  "cached cache url name = (case cache (url, name) of Some s \<Rightarrow> s | None \<Rightarrow> [])"

lemma cached_upd [simp]: "cached (cache((url, name) \<mapsto> s)) url name = s"
  by (simp add: cached_def)

lemma filter_content_Nil:
  "filter (\<lambda>c. cookie_content c \<notin> cookie_content ` set ys) xs = [] \<longleftrightarrow>
   cookie_content ` set xs \<subseteq> cookie_content ` set ys"
  by (auto simp: filter_empty_conv)

lemma content_filter:
  "cookie_content ` set (filter (\<lambda>c. cookie_content c \<notin> A) xs) = cookie_content ` set xs - A"
  by auto

lemma Update_eq:
  fixes url :: 'u and name cs
  assumes "cache_ok cache"
  defines "old \<equiv> cached cache url name" and "new \<equiv> set_from CookieComparator cs"
  shows "Update url name cs cache =
    (if cookie_content ` set new = cookie_content ` set old
     then (False, [], [], cache((url, name) \<mapsto> old))
     else (True, filter (\<lambda>c. cookie_content c \<notin> cookie_content ` set new) old,
           filter (\<lambda>c. cookie_content c \<notin> cookie_content ` set old) new, cache((url, name) \<mapsto> new)))"
proof -
  have so: "cookie_ids.in_order old"
    using assms(1) by (auto simp: old_def cached_def cache_ok_def split: option.splits)
  have sn: "cookie_ids.in_order new" by (simp add: new_def cookie_ids.from_in_order)
  have o: "(case cache (url, name) of Some s \<Rightarrow> s | None \<Rightarrow> []) = old" by (simp add: old_def cached_def)
  show ?thesis
    unfolding Update_def Let_def o new_def [symmetric] set_from_difference [OF sn so]
      set_from_difference [OF so sn] filter_content_Nil
    by auto
qed

text \<open>
  An update reports exactly the difference between the cookies it is given and those of the last
  update, by domain, path, name and value: the same cookies again report no change.
\<close>

lemma Update_reports_difference:
  assumes ok: "cache_ok cache" and u: "Update url name cs cache = (changed, removed, added, cache')"
  defines "old \<equiv> cookie_content ` set (cached cache url name)"
    and "new \<equiv> cookie_content ` set (set_from CookieComparator cs)"
  shows "changed \<longleftrightarrow> old \<noteq> new" "cookie_content ` set removed = old - new"
    "cookie_content ` set added = new - old" "cookie_content ` set (cached cache' url name) = new"
    "cache_ok cache'" "(url', name') \<noteq> (url, name) \<Longrightarrow> cached cache' url' name' = cached cache url' name'"
proof -
  note e = Update_eq [OF ok, of url name cs]
  show "changed \<longleftrightarrow> old \<noteq> new"
    using u unfolding e old_def new_def by (auto split: if_splits)
  show "cookie_content ` set removed = old - new" "cookie_content ` set added = new - old"
    using u unfolding e old_def new_def
    by (simp_all split: if_splits) (simp_all only: content_filter [symmetric])
  show "cookie_content ` set (cached cache' url name) = new"
    using u unfolding e new_def by (auto split: if_splits)
  show "cache_ok cache'"
    using u ok cookie_ids.from_in_order unfolding e
    by (auto simp: cache_ok_def cached_def split: if_splits option.splits)
  show "(url', name') \<noteq> (url, name) \<Longrightarrow> cached cache' url' name' = cached cache url' name'"
    using u unfolding e by (auto simp: cached_def split: if_splits)
qed

end
