(* ===== verification/X_Callback_Url.thy ===== *)
theory X_Callback_Url
  imports Prelude
begin

text \<open>
  \<open>chrome/common/x_callback_url.cc\<close>: URLs that other apps are opened with, and their parameters.
  \<open>GURL\<close>, \<open>net::AppendQueryParameter\<close> and \<open>net::QueryIterator\<close> are the fields of \<open>xc_lib\<close>; the
  parameters given to the code are a \<open>std::map\<close>, the list of its pairs in the order of the keys.
\<close>

record 'u xc_lib =
  xc_parse :: "string \<Rightarrow> 'u"
  xc_spec :: "'u \<Rightarrow> string"
  xc_is_valid :: "'u \<Rightarrow> bool"
  xc_IsStandard :: "'u \<Rightarrow> bool"
  xc_host :: "'u \<Rightarrow> string"
  xc_path :: "'u \<Rightarrow> string"
  xc_empty :: 'u
  xc_AppendQueryParameter :: "'u \<Rightarrow> string \<Rightarrow> string \<Rightarrow> 'u"
  xc_QueryIterator :: "'u \<Rightarrow> (string \<times> string) list"

definition kXCallbackURLHost :: string where "kXCallbackURLHost = ''x-callback-url''"
definition kSuccessURLParameterName :: string where "kSuccessURLParameterName = ''x-success''"
definition kErrorURLParameterName :: string where "kErrorURLParameterName = ''x-error''"
definition kCancelURLParameterName :: string where "kCancelURLParameterName = ''x-cancel''"

definition IsXCallbackURL :: "'u xc_lib \<Rightarrow> 'u \<Rightarrow> bool" where
  "IsXCallbackURL X url =
     (if \<not> xc_is_valid X url then False
      else if xc_IsStandard X url then xc_host X url = kXCallbackURLHost
      else let path_piece = xc_path X url;
               path_piece = (if take 2 path_piece = ''//'' then drop 2 path_piece else path_piece);
               path_piece = takeWhile (\<lambda>ch. ch \<noteq> CHR ''/'') path_piece
           in path_piece = kXCallbackURLHost)"

definition append_url :: "'u xc_lib \<Rightarrow> string \<Rightarrow> 'u \<Rightarrow> 'u \<Rightarrow> 'u" where
  "append_url X name value url =
     (if xc_is_valid X value then xc_AppendQueryParameter X url name (xc_spec X value) else url)"

definition CreateXCallbackURLWithParameters ::
  "'u xc_lib \<Rightarrow> string \<Rightarrow> string \<Rightarrow> 'u \<Rightarrow> 'u \<Rightarrow> 'u \<Rightarrow> (string \<times> string) list \<Rightarrow> 'u option" where
  "CreateXCallbackURLWithParameters X scheme action success_url error_url cancel_url parameters = do {
     check (scheme \<noteq> []);
     let url = xc_parse X (scheme @ ''://'' @ kXCallbackURLHost @ ''/'' @ action);
         url = append_url X kSuccessURLParameterName success_url url;
         url = append_url X kErrorURLParameterName error_url url;
         url = append_url X kCancelURLParameterName cancel_url url;
         url = fold (\<lambda>(k, v) url. xc_AppendQueryParameter X url k v) parameters url
     in do {
       check (IsXCallbackURL X url);
       Some url } }"

definition CreateXCallbackURL :: "'u xc_lib \<Rightarrow> string \<Rightarrow> string \<Rightarrow> 'u option" where
  "CreateXCallbackURL X scheme action =
     CreateXCallbackURLWithParameters X scheme action (xc_empty X) (xc_empty X) (xc_empty X) []"

text \<open>\<open>std::map::insert\<close> keeps the value that is there.\<close>

fun insert_all :: "(string \<times> string) list \<Rightarrow> (string \<rightharpoonup> string) \<Rightarrow> (string \<rightharpoonup> string)" where
  "insert_all [] m = m"
| "insert_all ((k, v) # kvs) m = insert_all kvs (if m k = None then m(k \<mapsto> v) else m)"

definition ExtractQueryParametersFromXCallbackURL :: "'u xc_lib \<Rightarrow> 'u \<Rightarrow> (string \<rightharpoonup> string) option" where
  "ExtractQueryParametersFromXCallbackURL X x_callback_url = do {
     check (IsXCallbackURL X x_callback_url);
     Some (insert_all (xc_QueryIterator X x_callback_url) Map.empty) }"

section \<open>Round trip\<close>

lemma insert_all_eq: "insert_all kvs m k = (case m k of Some v \<Rightarrow> Some v | None \<Rightarrow> map_of kvs k)"
  by (induction kvs arbitrary: m) (auto split: option.splits)

text \<open>
  What the libraries promise: a URL built from its text has no query, parameters are appended at the
  end and read back in order, and appending keeps the URL an x-callback URL.
\<close>

definition xc_lib_ok :: "'u xc_lib \<Rightarrow> bool" where
  "xc_lib_ok X \<longleftrightarrow>
     (\<forall>u k v. xc_QueryIterator X (xc_AppendQueryParameter X u k v) = xc_QueryIterator X u @ [(k, v)]) \<and>
     (\<forall>u k v. IsXCallbackURL X (xc_AppendQueryParameter X u k v) = IsXCallbackURL X u) \<and>
     (\<forall>scheme action. scheme \<noteq> [] \<longrightarrow>
        (let u = xc_parse X (scheme @ ''://'' @ kXCallbackURLHost @ ''/'' @ action)
         in IsXCallbackURL X u \<and> xc_QueryIterator X u = []))"

definition url_params :: "'u xc_lib \<Rightarrow> 'u \<Rightarrow> 'u \<Rightarrow> 'u \<Rightarrow> (string \<times> string) list" where
  "url_params X s e c =
     (if xc_is_valid X s then [(kSuccessURLParameterName, xc_spec X s)] else []) @
     (if xc_is_valid X e then [(kErrorURLParameterName, xc_spec X e)] else []) @
     (if xc_is_valid X c then [(kCancelURLParameterName, xc_spec X c)] else [])"

lemma append_params:
  assumes "xc_lib_ok X"
  shows "xc_QueryIterator X (fold (\<lambda>(k, v) url. xc_AppendQueryParameter X url k v) kvs u) =
      xc_QueryIterator X u @ kvs"
    "IsXCallbackURL X (fold (\<lambda>(k, v) url. xc_AppendQueryParameter X url k v) kvs u) = IsXCallbackURL X u"
  using assms by (induction kvs arbitrary: u) (auto simp: xc_lib_ok_def)

lemma append_url_params:
  assumes "xc_lib_ok X"
  shows "xc_QueryIterator X (append_url X k v u) =
      xc_QueryIterator X u @ (if xc_is_valid X v then [(k, xc_spec X v)] else [])"
    "IsXCallbackURL X (append_url X k v u) = IsXCallbackURL X u"
  using assms by (simp_all add: append_url_def xc_lib_ok_def)

text \<open>
  What is extracted from an x-callback URL is what it was created with; a parameter that has the name
  of one of the three URLs gives way to the URL.
\<close>

lemma x_callback_url_round_trip:
  assumes ok: "xc_lib_ok X" and "scheme \<noteq> []"
  shows "\<exists>url. CreateXCallbackURLWithParameters X scheme action s e c parameters = Some url \<and>
    IsXCallbackURL X url \<and>
    ExtractQueryParametersFromXCallbackURL X url = Some (map_of (url_params X s e c @ parameters))"
proof -
  let ?u = "xc_parse X (scheme @ ''://'' @ kXCallbackURLHost @ ''/'' @ action)"
  have "IsXCallbackURL X ?u" "xc_QueryIterator X ?u = []"
    using assms by (auto simp: xc_lib_ok_def Let_def)
  then show ?thesis
    using assms(2) unfolding CreateXCallbackURLWithParameters_def ExtractQueryParametersFromXCallbackURL_def Let_def
    by (auto simp: append_params [OF ok] append_url_params [OF ok] url_params_def insert_all_eq fun_eq_iff)
qed

end
