(* ===== verification/Chunked_Uploader.thy ===== *)
theory Chunked_Uploader
  imports Event_Machine
begin

text \<open>
  \<open>net/chunked_data_stream_uploader.cc\<close>: the stream that feeds chunks of a request body from the iOS
  layer to the network layer. A read of the network layer that finds no data stays pending until the
  iOS layer has some. The number of bytes the delegate reads into the buffer is an argument of the
  operations that may call it; the calls made to the base class are collected in \<open>up_calls\<close>.
\<close>

datatype upload_call = OnReadCompleted int | SetIsFinalChunk

datatype net_result = OK | ERR_FAILED | ERR_IO_PENDING | Bytes int

record uploader =
  pending_read_buffer :: "nat option"
  pending_read_buffer_length :: int
  pending_internal_read :: bool
  is_final_chunk :: bool
  is_front_of_stream :: bool
  up_calls :: "upload_call list"

definition new_ChunkedDataStreamUploader :: uploader where
  "new_ChunkedDataStreamUploader =
     \<lparr>pending_read_buffer = None, pending_read_buffer_length = 0, pending_internal_read = False,
      is_final_chunk = False, is_front_of_stream = True, up_calls = []\<rparr>"

definition InitInternal :: "uploader \<Rightarrow> net_result" where
  "InitInternal u = (if is_front_of_stream u then OK else ERR_FAILED)"

definition upload_done :: "int \<Rightarrow> uploader \<Rightarrow> net_result \<times> uploader" where
  "upload_done bytes_read u =
     (let u = u\<lparr>pending_read_buffer := None, pending_read_buffer_length := 0\<rparr>;
          u = (if pending_internal_read u
               then u\<lparr>pending_internal_read := False, up_calls := up_calls u @ [OnReadCompleted bytes_read]\<rparr>
               else u)
      in (Bytes bytes_read, u))"

definition Upload :: "int \<Rightarrow> uploader \<Rightarrow> (net_result \<times> uploader) option" where
  "Upload on_read u = do {
     check (pending_read_buffer u \<noteq> None);
     let u = u\<lparr>is_front_of_stream := False\<rparr>
     in Some (if is_final_chunk u
              then upload_done 0 (u\<lparr>up_calls := up_calls u @ [SetIsFinalChunk]\<rparr>)
              else if on_read \<le> 0 then (ERR_IO_PENDING, u\<lparr>pending_internal_read := True\<rparr>)
              else upload_done on_read u) }"

definition ReadInternal :: "nat \<Rightarrow> int \<Rightarrow> int \<Rightarrow> uploader \<Rightarrow> (net_result \<times> uploader) option" where
  "ReadInternal buffer buffer_length on_read u = do {
     check (0 < buffer_length);
     check (pending_read_buffer u = None);
     Upload on_read (u\<lparr>pending_read_buffer := Some buffer, pending_read_buffer_length := buffer_length\<rparr>) }"

definition ResetInternal :: "uploader \<Rightarrow> uploader" where
  "ResetInternal u = u\<lparr>pending_read_buffer := None, pending_read_buffer_length := 0,
     pending_internal_read := False, is_final_chunk := False\<rparr>"

definition UploadWhenReady :: "bool \<Rightarrow> int \<Rightarrow> uploader \<Rightarrow> uploader option" where
  "UploadWhenReady final on_read u =
     (let u = u\<lparr>is_final_chunk := final\<rparr>
      in if pending_internal_read u then map_option snd (Upload on_read u) else Some u)"

section \<open>Every read is answered once\<close>

text \<open>
  The network layer starts a read only when none is pending (the contract of \<open>UploadDataStream\<close>). A
  read is answered by the value it returns or by a later call of \<open>OnReadCompleted\<close>.
\<close>

datatype up_event = Read nat int int | Ready bool int

definition up_enabled :: "up_event \<Rightarrow> uploader \<Rightarrow> bool" where
  "up_enabled ev u = (case ev of Read b n r \<Rightarrow> 0 < n \<and> \<not> pending_internal_read u | Ready f r \<Rightarrow> True)"

fun up_step :: "up_event \<Rightarrow> uploader \<Rightarrow> (net_result option \<times> uploader) option" where
  "up_step (Read b n r) u = map_option (map_prod Some id) (ReadInternal b n r u)"
| "up_step (Ready f r) u = map_option (Pair None) (UploadWhenReady f r u)"

definition up_inv :: "uploader \<Rightarrow> bool" where
  "up_inv u \<longleftrightarrow> (pending_internal_read u \<longleftrightarrow> pending_read_buffer u \<noteq> None)"

definition completed :: "uploader \<Rightarrow> nat" where
  "completed u = length (filter (\<lambda>c. c \<noteq> SetIsFinalChunk) (up_calls u))"

lemmas up_defs = ReadInternal_def Upload_def upload_done_def UploadWhenReady_def up_inv_def up_enabled_def completed_def

text \<open>
  No assertion of the uploader fails, the buffer is kept exactly while a read is pending, and a read
  is answered at once or is the pending one, which one later step answers.
\<close>

lemma reads_answered_once:
  assumes "up_inv u" "up_enabled ev u"
  shows "\<exists>res u'. up_step ev u = Some (res, u') \<and> up_inv u' \<and>
    of_bool (pending_internal_read u') + (completed u' - completed u) +
      of_bool (\<exists>n. res = Some (Bytes n)) =
    of_bool (pending_internal_read u) + of_bool (\<exists>b n r. ev = Read b n r) \<and> completed u \<le> completed u'"
  using assms
  by (cases ev; cases "pending_internal_read u"; cases "is_final_chunk u")
     (auto simp: up_defs Let_def)

interpretation uploads: event_machine up_enabled "\<lambda>ev u. map_option snd (up_step ev u)" up_inv
proof
  fix u ev
  assume "up_inv u" "up_enabled ev u"
  from reads_answered_once [OF this] show "\<exists>u'. map_option snd (up_step ev u) = Some u' \<and> up_inv u'" by force
qed

text \<open>
  So no sequence of reads and data fails an assertion, whatever the delegate reads, and no read that
  was answered is taken back.
\<close>

lemma uploads_never_fail:
  assumes "allowed_run up_enabled (\<lambda>ev u. map_option snd (up_step ev u)) evs new_ChunkedDataStreamUploader"
  shows "\<exists>u. run_events (\<lambda>ev u. map_option snd (up_step ev u)) evs new_ChunkedDataStreamUploader = Some u \<and> up_inv u"
proof -
  have "up_inv new_ChunkedDataStreamUploader" by (simp add: up_inv_def new_ChunkedDataStreamUploader_def)
  from uploads.run_ok [OF this assms] show ?thesis .
qed

lemma answers_are_kept:
  assumes "up_inv u" "allowed_run up_enabled (\<lambda>ev u. map_option snd (up_step ev u)) evs u"
    "run_events (\<lambda>ev u. map_option snd (up_step ev u)) evs u = Some u'"
  shows "completed u \<le> completed u'"
  using uploads.run_mono [OF _ assms, of completed] reads_answered_once by fastforce

text \<open>A stream that has been read cannot be initialised again.\<close>

lemma no_rewind:
  "Upload r u = Some (res, u') \<Longrightarrow> InitInternal u' = ERR_FAILED \<and> InitInternal (ResetInternal u') = ERR_FAILED"
  by (auto simp: Upload_def upload_done_def InitInternal_def ResetInternal_def Let_def elim!: check_SomeE
      split: if_splits)

end
