(* ===== verification/Sync_Setup.thy ===== *)
theory Sync_Setup
  imports Prelude
begin

text \<open>
  \<open>chrome/browser/sync/sync_setup_service.cc\<close>: the configuration of sync, which takes effect when it
  is committed. The sync service and its user settings belong to \<open>components/sync\<close>; their operations
  are the fields of \<open>sync_lib\<close>, over any type of sync service. \<open>SetSyncEnabled\<close> and
  \<open>SetSyncingAllDataTypes\<close> call each other, so that they may not return.
\<close>

section \<open>Types\<close>

datatype sync_service_state =
    kNoSyncServiceError | kSyncServiceSignInNeedsUpdate | kSyncServiceCouldNotConnect
  | kSyncServiceServiceUnavailable | kSyncServiceNeedsPassphrase | kSyncServiceUnrecoverableError

datatype syncable_datatype =
    kSyncBookmarks | kSyncOmniboxHistory | kSyncPasswords | kSyncOpenTabs | kSyncAutofill
  | kSyncPreferences | kSyncReadingList

datatype model_type =
    BOOKMARKS | TYPED_URLS | PASSWORDS | PROXY_TABS | AUTOFILL | PREFERENCES | READING_LIST
  | Other_Model_Type nat

datatype auth_error_state =
    NONE | INVALID_GAIA_CREDENTIALS | USER_NOT_SIGNED_UP | CONNECTION_FAILED | CAPTCHA_REQUIRED
  | ACCOUNT_DELETED | ACCOUNT_DISABLED | SERVICE_UNAVAILABLE | TWO_FACTOR | REQUEST_CANCELED
  | HOSTED_NOT_ALLOWED_DEPRECATED | UNEXPECTED_SERVICE_RESPONSE | SERVICE_ERROR | WEB_LOGIN_REQUIRED
  | NUM_STATES

record 'y sync_lib =
  CanSyncFeatureStart :: "'y \<Rightarrow> bool"
  PreferredDataTypes :: "'y \<Rightarrow> model_type set"
  ActiveDataTypes :: "'y \<Rightarrow> model_type set"
  UserSelectableTypes :: "model_type set"
  IsSyncEverythingEnabled :: "'y \<Rightarrow> bool"
  IsFirstSetupComplete :: "'y \<Rightarrow> bool"
  IsFirstSetupInProgress :: "'y \<Rightarrow> bool"
  IsSetupInProgress :: "'y \<Rightarrow> bool"
  HasUnrecoverableError :: "'y \<Rightarrow> bool"
  IsPassphraseRequiredForDecryption :: "'y \<Rightarrow> bool"
  AuthErrorState :: "'y \<Rightarrow> auth_error_state"
  SetSyncRequested :: "bool \<Rightarrow> 'y \<Rightarrow> 'y"
  SetChosenDataTypes :: "bool \<Rightarrow> model_type set \<Rightarrow> 'y \<Rightarrow> 'y"
  SetFirstSetupComplete :: "'y \<Rightarrow> 'y"
  GetSetupInProgressHandle :: "'y \<Rightarrow> 'y"
  ReleaseHandle :: "'y \<Rightarrow> 'y"

definition kDataTypes :: "model_type list" where
  "kDataTypes = [BOOKMARKS, TYPED_URLS, PASSWORDS, PROXY_TABS, AUTOFILL, PREFERENCES, READING_LIST]"

fun datatype_index :: "syncable_datatype \<Rightarrow> nat" where
  "datatype_index kSyncBookmarks = 0"
| "datatype_index kSyncOmniboxHistory = 1"
| "datatype_index kSyncPasswords = 2"
| "datatype_index kSyncOpenTabs = 3"
| "datatype_index kSyncAutofill = 4"
| "datatype_index kSyncPreferences = 5"
| "datatype_index kSyncReadingList = 6"

record 'y sync_setup =
  sync_service :: 'y
  user_selectable_types :: "model_type set"
  sync_blocker :: bool

definition new_SyncSetupService :: "'y \<Rightarrow> 'y sync_setup" where
  "new_SyncSetupService service =
     \<lparr>sync_service = service, user_selectable_types = set kDataTypes, sync_blocker = False\<rparr>"

section \<open>Queries\<close>

definition GetModelType :: "syncable_datatype \<Rightarrow> model_type option" where
  "GetModelType datatype = do {
     check (datatype_index datatype < length kDataTypes);
     Some (kDataTypes ! datatype_index datatype) }"

definition GetPreferredDataTypes :: "'y sync_lib \<Rightarrow> 'y sync_setup \<Rightarrow> model_type set" where
  "GetPreferredDataTypes Y s = PreferredDataTypes Y (sync_service s)"

definition IsDataTypeActive :: "'y sync_lib \<Rightarrow> model_type \<Rightarrow> 'y sync_setup \<Rightarrow> bool" where
  "IsDataTypeActive Y ty s \<longleftrightarrow> ty \<in> ActiveDataTypes Y (sync_service s)"

definition IsDataTypePreferred :: "'y sync_lib \<Rightarrow> model_type \<Rightarrow> 'y sync_setup \<Rightarrow> bool" where
  "IsDataTypePreferred Y ty s \<longleftrightarrow> ty \<in> GetPreferredDataTypes Y s"

definition IsSyncingAllDataTypes :: "'y sync_lib \<Rightarrow> 'y sync_setup \<Rightarrow> bool" where
  "IsSyncingAllDataTypes Y s = IsSyncEverythingEnabled Y (sync_service s)"

definition IsSyncEnabled :: "'y sync_lib \<Rightarrow> 'y sync_setup \<Rightarrow> bool" where
  "IsSyncEnabled Y s = CanSyncFeatureStart Y (sync_service s)"

definition HasUncommittedChanges :: "'y sync_lib \<Rightarrow> 'y sync_setup \<Rightarrow> bool" where
  "HasUncommittedChanges Y s = IsSetupInProgress Y (sync_service s)"

definition HasFinishedInitialSetup :: "'y sync_lib \<Rightarrow> 'y sync_setup \<Rightarrow> bool" where
  "HasFinishedInitialSetup Y s \<longleftrightarrow>
     \<not> CanSyncFeatureStart Y (sync_service s) \<or> IsFirstSetupComplete Y (sync_service s)"

text \<open>The end of \<open>GetSyncServiceState\<close>, reached when there is no error to show for the account.\<close>

definition state_without_auth_error :: "'y sync_lib \<Rightarrow> 'y sync_setup \<Rightarrow> sync_service_state" where
  "state_without_auth_error Y s =
     (if HasUnrecoverableError Y (sync_service s) then kSyncServiceUnrecoverableError
      else if IsPassphraseRequiredForDecryption Y (sync_service s) then kSyncServiceNeedsPassphrase
      else kNoSyncServiceError)"

definition GetSyncServiceState :: "'y sync_lib \<Rightarrow> 'y sync_setup \<Rightarrow> sync_service_state option" where
  "GetSyncServiceState Y s =
     (case AuthErrorState Y (sync_service s) of
        REQUEST_CANCELED \<Rightarrow> Some kSyncServiceCouldNotConnect
      | SERVICE_UNAVAILABLE \<Rightarrow> Some kSyncServiceServiceUnavailable
      | INVALID_GAIA_CREDENTIALS \<Rightarrow> Some kSyncServiceSignInNeedsUpdate
      | NONE \<Rightarrow> Some (state_without_auth_error Y s)
      | CONNECTION_FAILED \<Rightarrow> Some (state_without_auth_error Y s)
      | USER_NOT_SIGNED_UP \<Rightarrow> Some (state_without_auth_error Y s)
      | UNEXPECTED_SERVICE_RESPONSE \<Rightarrow> Some (state_without_auth_error Y s)
      | _ \<Rightarrow> None)"

definition UserActionIsRequiredToHaveTabSyncWork :: "'y sync_lib \<Rightarrow> 'y sync_setup \<Rightarrow> bool option" where
  "UserActionIsRequiredToHaveTabSyncWork Y s =
     (if \<not> IsSyncEnabled Y s \<or> \<not> IsDataTypePreferred Y PROXY_TABS s then Some True
      else do {
        state \<leftarrow> GetSyncServiceState Y s;
        Some (case state of
                kNoSyncServiceError \<Rightarrow> False
              | kSyncServiceCouldNotConnect \<Rightarrow> False
              | kSyncServiceServiceUnavailable \<Rightarrow> False
              | kSyncServiceSignInNeedsUpdate \<Rightarrow> True
              | kSyncServiceNeedsPassphrase \<Rightarrow> True
              | kSyncServiceUnrecoverableError \<Rightarrow> True) })"

section \<open>Changes\<close>

definition take_blocker :: "'y sync_lib \<Rightarrow> 'y sync_setup \<Rightarrow> 'y sync_setup" where
  "take_blocker Y s =
     (if \<not> sync_blocker s
      then s\<lparr>sync_blocker := True, sync_service := GetSetupInProgressHandle Y (sync_service s)\<rparr> else s)"

definition SetSyncEnabledWithoutChangingDatatypes ::
  "'y sync_lib \<Rightarrow> bool \<Rightarrow> 'y sync_setup \<Rightarrow> 'y sync_setup" where
  "SetSyncEnabledWithoutChangingDatatypes Y sync_enabled s =
     (let s = take_blocker Y s in s\<lparr>sync_service := SetSyncRequested Y sync_enabled (sync_service s)\<rparr>)"

definition choose_all :: "'y sync_lib \<Rightarrow> bool \<Rightarrow> 'y sync_setup \<Rightarrow> 'y sync_setup" where
  "choose_all Y sync_all s =
     s\<lparr>sync_service := SetChosenDataTypes Y sync_all
         (GetPreferredDataTypes Y s \<inter> UserSelectableTypes Y) (sync_service s)\<rparr>"

text \<open>\<open>SetSyncEnabled\<close>, with the call of \<open>SetSyncingAllDataTypes(true)\<close> written out.\<close>

partial_function (option) SetSyncEnabled ::
  "'y sync_lib \<Rightarrow> bool \<Rightarrow> 'y sync_setup \<Rightarrow> 'y sync_setup option" where
  "SetSyncEnabled Y sync_enabled s =
     (if sync_enabled \<and> GetPreferredDataTypes Y (SetSyncEnabledWithoutChangingDatatypes Y sync_enabled s) = {}
      then (if \<not> IsSyncEnabled Y (take_blocker Y (SetSyncEnabledWithoutChangingDatatypes Y sync_enabled s))
            then Option.bind (SetSyncEnabled Y True (take_blocker Y
                     (SetSyncEnabledWithoutChangingDatatypes Y sync_enabled s)))
                   (\<lambda>s. Some (choose_all Y True s))
            else Some (choose_all Y True (take_blocker Y
                     (SetSyncEnabledWithoutChangingDatatypes Y sync_enabled s))))
      else Some (SetSyncEnabledWithoutChangingDatatypes Y sync_enabled s))"

definition SetSyncingAllDataTypes ::
  "'y sync_lib \<Rightarrow> bool \<Rightarrow> 'y sync_setup \<Rightarrow> 'y sync_setup option" where
  "SetSyncingAllDataTypes Y sync_all s =
     (let s = take_blocker Y s
      in do {
        s \<leftarrow> (if sync_all \<and> \<not> IsSyncEnabled Y s then SetSyncEnabled Y True s else Some s);
        Some (choose_all Y sync_all s) })"

lemma SetSyncEnabled_eq:
  "SetSyncEnabled Y sync_enabled s =
     (let s = SetSyncEnabledWithoutChangingDatatypes Y sync_enabled s
      in if sync_enabled \<and> GetPreferredDataTypes Y s = {} then SetSyncingAllDataTypes Y True s else Some s)"
  by (subst SetSyncEnabled.simps; cases sync_enabled) (auto simp: SetSyncingAllDataTypes_def Let_def)

definition SetDataTypeEnabled ::
  "'y sync_lib \<Rightarrow> model_type \<Rightarrow> bool \<Rightarrow> 'y sync_setup \<Rightarrow> 'y sync_setup option" where
  "SetDataTypeEnabled Y ty enabled s =
     (let s = take_blocker Y s;
          types = (if enabled then insert ty (GetPreferredDataTypes Y s) else GetPreferredDataTypes Y s - {ty});
          types = types \<inter> user_selectable_types s;
          s = (if enabled \<and> \<not> IsSyncEnabled Y s then SetSyncEnabledWithoutChangingDatatypes Y True s else s);
          s = s\<lparr>sync_service := SetChosenDataTypes Y (IsSyncingAllDataTypes Y s) types (sync_service s)\<rparr>
      in if GetPreferredDataTypes Y s = {} then SetSyncEnabled Y False s else Some s)"

definition PrepareForFirstSyncSetup :: "'y sync_lib \<Rightarrow> 'y sync_setup \<Rightarrow> 'y sync_setup option" where
  "PrepareForFirstSyncSetup Y s = do {
     check (\<not> IsFirstSetupComplete Y (sync_service s));
     Some (take_blocker Y s) }"

definition CommitChanges :: "'y sync_lib \<Rightarrow> 'y sync_setup \<Rightarrow> 'y sync_setup" where
  "CommitChanges Y s =
     (let s = (if IsFirstSetupInProgress Y (sync_service s) \<and> CanSyncFeatureStart Y (sync_service s)
               then s\<lparr>sync_service := SetFirstSetupComplete Y (sync_service s)\<rparr> else s)
      in if sync_blocker s
         then s\<lparr>sync_blocker := False, sync_service := ReleaseHandle Y (sync_service s)\<rparr> else s)"

section \<open>Properties\<close>

text \<open>Every user-selectable type of iOS has its own model type, and all of them are selectable.\<close>

lemma GetModelType_total:
  "\<exists>t. GetModelType d = Some t \<and> t \<in> user_selectable_types (new_SyncSetupService y)"
  by (cases d) (simp_all add: GetModelType_def kDataTypes_def new_SyncSetupService_def)

lemma GetModelType_inj: "GetModelType d = GetModelType d' \<Longrightarrow> d = d'"
  by (cases d; cases d') (simp_all add: GetModelType_def kDataTypes_def)

lemma take_blocker_blocks [simp]: "sync_blocker (take_blocker Y s)"
  by (simp add: take_blocker_def)

lemma blocker_kept [simp]:
  "sync_blocker (SetSyncEnabledWithoutChangingDatatypes Y b s)"
  "sync_blocker (choose_all Y b s) = sync_blocker s"
  by (simp_all add: SetSyncEnabledWithoutChangingDatatypes_def choose_all_def Let_def)

text \<open>Turning sync on returns if requesting sync starts it, and turning it off always returns.\<close>

lemma SetSyncEnabled_returns:
  assumes "\<And>y. CanSyncFeatureStart Y (SetSyncRequested Y True y)"
  shows "\<exists>s'. SetSyncEnabled Y b s = Some s' \<and> sync_blocker s'"
proof -
  let ?s = "SetSyncEnabledWithoutChangingDatatypes Y b s"
  have "take_blocker Y ?s = ?s" by (simp add: take_blocker_def)
  moreover have "IsSyncEnabled Y ?s" if b
    using assms that by (simp add: IsSyncEnabled_def SetSyncEnabledWithoutChangingDatatypes_def Let_def)
  ultimately show ?thesis by (subst SetSyncEnabled.simps; cases b) auto
qed

text \<open>
  When requesting sync neither starts it nor selects a data type, turning it on never returns: the
  two functions call each other without end.
\<close>

lemma SetSyncEnabled_never_returns:
  assumes "\<And>y. \<not> CanSyncFeatureStart Y y" "\<And>y. PreferredDataTypes Y y = {}"
  shows "SetSyncEnabled Y True s = None"
proof (rule ccontr)
  assume "SetSyncEnabled Y True s \<noteq> None"
  then obtain r where "SetSyncEnabled Y True s = Some r" by auto
  moreover have "\<not> (Y' = Y \<and> b)" if "SetSyncEnabled Y' b s = Some r" for Y' b s r
  proof (rule SetSyncEnabled.raw_induct [of "\<lambda>Y' b s r. \<not> (Y' = Y \<and> b)", OF _ that])
    fix f Y' b s r
    assume ih: "\<And>Y' b s r. f Y' b s = Some r \<Longrightarrow> \<not> (Y' = Y \<and> b)"
      and body: "(if b \<and> GetPreferredDataTypes Y' (SetSyncEnabledWithoutChangingDatatypes Y' b s) = {}
      then (if \<not> IsSyncEnabled Y' (take_blocker Y' (SetSyncEnabledWithoutChangingDatatypes Y' b s))
            then Option.bind (f Y' True (take_blocker Y' (SetSyncEnabledWithoutChangingDatatypes Y' b s)))
                   (\<lambda>s. Some (choose_all Y' True s))
            else Some (choose_all Y' True (take_blocker Y' (SetSyncEnabledWithoutChangingDatatypes Y' b s))))
      else Some (SetSyncEnabledWithoutChangingDatatypes Y' b s)) = Some r"
    show "\<not> (Y' = Y \<and> b)"
    proof
      assume "Y' = Y \<and> b"
      with body assms obtain s' r' where "f Y' True s' = Some r'"
        by (auto simp: GetPreferredDataTypes_def IsSyncEnabled_def bind_eq_Some_conv)
      with ih \<open>Y' = Y \<and> b\<close> show False by blast
    qed
  qed
  ultimately show False by blast
qed

text \<open>Every change takes the setup handle, which only a commit releases.\<close>

lemma changes_are_delayed:
  assumes "\<And>y. CanSyncFeatureStart Y (SetSyncRequested Y True y)"
  shows "\<exists>s'. SetSyncingAllDataTypes Y b s = Some s' \<and> sync_blocker s'"
    "\<exists>s'. SetDataTypeEnabled Y ty b s = Some s' \<and> sync_blocker s'"
    "\<not> sync_blocker (CommitChanges Y s)"
proof -
  note r = SetSyncEnabled_returns [OF assms]
  show "\<exists>s'. SetSyncingAllDataTypes Y b s = Some s' \<and> sync_blocker s'"
    using r [of True "take_blocker Y s"] by (auto simp: SetSyncingAllDataTypes_def Let_def)
  show "\<exists>s'. SetDataTypeEnabled Y ty b s = Some s' \<and> sync_blocker s'"
    using r by (auto simp: SetDataTypeEnabled_def Let_def)
  show "\<not> sync_blocker (CommitChanges Y s)" by (simp add: CommitChanges_def Let_def)
qed

end
