(* ===== verification/Page_Info.thy ===== *)
theory Page_Info
  imports Navigation_Item Offline_Url
begin

unbundle bit_operations_syntax

text \<open>
  \<open>chrome/browser/ui/page_info/page_info_model.cc\<close>: what the page info bubble says about the security
  of a page. Localised strings are looked up by message; the strings, the display name of the issuer,
  the descriptions of certificate errors and the tests of \<open>net\<close> on a certificate status are the
  fields of \<open>page_info_lib\<close>.
\<close>

datatype section_info_type =
  SECTION_INFO_IDENTITY | SECTION_INFO_CONNECTION | SECTION_INFO_FIRST_VISIT | SECTION_INFO_INTERNAL_PAGE

datatype section_state_icon =
    ICON_NONE | ICON_STATE_OK | ICON_STATE_ERROR | ICON_STATE_INFO | ICON_STATE_OFFLINE_PAGE
  | ICON_STATE_INTERNAL_PAGE

datatype button_action = BUTTON_NONE | BUTTON_SHOW_SECURITY_HELP | BUTTON_RELOAD

record section_info =
  icon_id :: section_state_icon
  headline :: string
  description :: string
  section_type :: section_info_type
  button :: button_action

datatype page_message =
    IDS_IOS_PAGE_INFO_OFFLINE_TITLE | IDS_IOS_PAGE_INFO_OFFLINE_PAGE | IDS_PAGE_INFO_INTERNAL_PAGE
  | IDS_PAGE_INFO_NOT_SECURE_SUMMARY | IDS_PAGE_INFO_NOT_SECURE_DETAILS
  | IDS_PAGE_INFO_SECURITY_TAB_INSECURE_IDENTITY | IDS_PAGE_INFO_MIXED_CONTENT_SUMMARY
  | IDS_PAGE_INFO_MIXED_CONTENT_DETAILS | IDS_PAGE_INFO_SECURE_SUMMARY | IDS_PAGE_INFO_SECURE_DETAILS

datatype icon_resource = IDR_IOS_PAGEINFO_GOOD | IDR_IOS_PAGEINFO_BAD | IDR_IOS_PAGEINFO_INFO | IDR_IOS_OMNIBOX_OFFLINE

record 'u page_info_lib =
  pi_urls :: "'u offline_url_lib"
  GetStringUTF16 :: "page_message \<Rightarrow> string"
  SecureIdentity :: "string \<Rightarrow> string"
  IssuerDisplayName :: "nat \<Rightarrow> string"
  ErrorsForCertStatus :: "nat \<Rightarrow> 32 word \<Rightarrow> 'u \<Rightarrow> string list"
  IsCertStatusError :: "32 word \<Rightarrow> bool"
  IsCertStatusMinorError :: "32 word \<Rightarrow> bool"
  CERT_STATUS_IS_EV :: "32 word"
  bullet :: string

definition spacer :: string where
  "spacer = [CHR 0x0A, CHR 0x0A]"

section \<open>The model\<close>

text \<open>Icon, summary, details and certificate details of a page that is not internal.\<close>

definition broken_details :: "'u page_info_lib \<Rightarrow> nat \<Rightarrow> 'u \<Rightarrow> ssl_status \<Rightarrow> string" where
  "broken_details P cert url status =
     GetStringUTF16 P IDS_PAGE_INFO_SECURITY_TAB_INSECURE_IDENTITY @
       concat (map (\<lambda>e. bullet P @ e) (ErrorsForCertStatus P cert (ssl_cert_status status) url))"

definition connection_info ::
  "'u page_info_lib \<Rightarrow> 'u \<Rightarrow> ssl_status \<Rightarrow> (section_state_icon \<times> string \<times> string \<times> string) option" where
  "connection_info P url status =
     (case ssl_certificate status of
        None \<Rightarrow>
          Some (ICON_STATE_INFO, GetStringUTF16 P IDS_PAGE_INFO_NOT_SECURE_SUMMARY,
                GetStringUTF16 P IDS_PAGE_INFO_NOT_SECURE_DETAILS, [])
      | Some cert \<Rightarrow>
          if IsCertStatusError P (ssl_cert_status status) \<or>
             ssl_security_style status = SECURITY_STYLE_AUTHENTICATION_BROKEN
          then do {
            check (\<not> IsCertStatusMinorError P (ssl_cert_status status));
            Some (ICON_STATE_ERROR, GetStringUTF16 P IDS_PAGE_INFO_NOT_SECURE_SUMMARY,
                  GetStringUTF16 P IDS_PAGE_INFO_NOT_SECURE_DETAILS, broken_details P cert url status) }
          else
            let issuer_name = IssuerDisplayName P cert;
                certificate_details = (if issuer_name \<noteq> [] then SecureIdentity P issuer_name else [])
            in if ssl_content_status status = DISPLAYED_INSECURE_CONTENT
               then Some (ICON_STATE_INFO, GetStringUTF16 P IDS_PAGE_INFO_MIXED_CONTENT_SUMMARY,
                          GetStringUTF16 P IDS_PAGE_INFO_MIXED_CONTENT_DETAILS, certificate_details)
               else do {
                 check (ssl_cert_status status AND CERT_STATUS_IS_EV P = 0);
                 Some (ICON_STATE_OK, GetStringUTF16 P IDS_PAGE_INFO_SECURE_SUMMARY,
                       GetStringUTF16 P IDS_PAGE_INFO_SECURE_DETAILS, certificate_details) })"

definition internal_section :: "'u page_info_lib \<Rightarrow> 'u \<Rightarrow> section_info" where
  "internal_section P url =
     (if url_host (pi_urls P) url = kChromeUIOfflineHost
      then \<lparr>icon_id = ICON_STATE_OFFLINE_PAGE, headline = GetStringUTF16 P IDS_IOS_PAGE_INFO_OFFLINE_TITLE,
            description = GetStringUTF16 P IDS_IOS_PAGE_INFO_OFFLINE_PAGE,
            section_type = SECTION_INFO_INTERNAL_PAGE, button = BUTTON_RELOAD\<rparr>
      else \<lparr>icon_id = ICON_STATE_INTERNAL_PAGE, headline = [],
            description = GetStringUTF16 P IDS_PAGE_INFO_INTERNAL_PAGE,
            section_type = SECTION_INFO_INTERNAL_PAGE, button = BUTTON_NONE\<rparr>)"

text \<open>The sections of the model; the certificate label is never set.\<close>

definition PageInfoModel :: "'u page_info_lib \<Rightarrow> 'u \<Rightarrow> ssl_status \<Rightarrow> section_info list option" where
  "PageInfoModel P url status =
     (if scheme_is (ogl (pi_urls P)) kChromeUIScheme url then Some [internal_section P url]
      else do {
        (icon, summary, details, certificate_details) \<leftarrow> connection_info P url status;
        Some [\<lparr>icon_id = icon, headline = url_host (pi_urls P) url,
               description = summary @ spacer @ details @
                 (if certificate_details \<noteq> [] then spacer @ certificate_details else []),
               section_type = SECTION_INFO_CONNECTION, button = BUTTON_SHOW_SECURITY_HELP\<rparr>] })"

definition GetSectionCount :: "section_info list \<Rightarrow> int" where
  "GetSectionCount sections = int (length sections)"

text \<open>A negative index is not excluded by the assertion; reading the vector there is undefined.\<close>

definition GetSectionInfo :: "int \<Rightarrow> section_info list \<Rightarrow> section_info option" where
  "GetSectionInfo index sections = do {
     check (index < int (length sections));
     elem_at sections index }"

fun GetIconImage :: "section_state_icon \<Rightarrow> icon_resource option" where
  "GetIconImage ICON_NONE = None"
| "GetIconImage ICON_STATE_INTERNAL_PAGE = None"
| "GetIconImage ICON_STATE_OK = Some IDR_IOS_PAGEINFO_GOOD"
| "GetIconImage ICON_STATE_ERROR = Some IDR_IOS_PAGEINFO_BAD"
| "GetIconImage ICON_STATE_INFO = Some IDR_IOS_PAGEINFO_INFO"
| "GetIconImage ICON_STATE_OFFLINE_PAGE = Some IDR_IOS_OMNIBOX_OFFLINE"

section \<open>The icon tells the truth\<close>

text \<open>
  The model has one section. Its icon is the good one only for a page with a certificate, no
  certificate error, an unbroken security style and no mixed content, and never for an internal page.
\<close>

lemma good_icon_only_when_secure:
  assumes "PageInfoModel P url status = Some sections" "sec \<in> set sections"
  shows "GetSectionCount sections = 1"
    "GetIconImage (icon_id sec) = Some IDR_IOS_PAGEINFO_GOOD \<longleftrightarrow>
       \<not> scheme_is (ogl (pi_urls P)) kChromeUIScheme url \<and> ssl_certificate status \<noteq> None \<and>
       \<not> IsCertStatusError P (ssl_cert_status status) \<and>
       ssl_security_style status \<noteq> SECURITY_STYLE_AUTHENTICATION_BROKEN \<and>
       ssl_content_status status \<noteq> DISPLAYED_INSECURE_CONTENT"
  using assms
  by (auto simp: PageInfoModel_def internal_section_def connection_info_def GetSectionCount_def Let_def
      bind_eq_Some_conv split: if_splits option.splits)

text \<open>The one assertion that can fail: a page whose security style is broken while its status has only a minor error.\<close>

lemma PageInfoModel_fails:
  "PageInfoModel P url status = None \<longleftrightarrow>
     \<not> scheme_is (ogl (pi_urls P)) kChromeUIScheme url \<and> ssl_certificate status \<noteq> None \<and>
     (if IsCertStatusError P (ssl_cert_status status) \<or>
         ssl_security_style status = SECURITY_STYLE_AUTHENTICATION_BROKEN
      then IsCertStatusMinorError P (ssl_cert_status status)
      else ssl_content_status status \<noteq> DISPLAYED_INSECURE_CONTENT \<and>
           ssl_cert_status status AND CERT_STATUS_IS_EV P \<noteq> 0)"
  by (auto simp: PageInfoModel_def connection_info_def Let_def bind_check split: option.splits)

end
