(* ===== verification/User_Action_Recorder.thy ===== *)
theory User_Action_Recorder
  imports Wk_Navigation_Util Event_Machine
begin

text \<open>
  \<open>chrome/browser/metrics/first_user_action_recorder.cc\<close>: which user action after a start of the app
  counts as the first one. An action that may be followed by a better one is posted back to the
  message loop once; \<open>pending_action\<close> is the callback that does it, \<open>None\<close> when there is none or it
  was cancelled or has run. Histogram samples are kept in a list.
\<close>

datatype device_family = HANDSET | TABLET

datatype first_user_action_type = NEW_TASK | CONTINUATION | EXPIRATION | START_ON_NTP

fun kFirstUserActionNewTaskHistogramName :: "device_family \<Rightarrow> string" where
  "kFirstUserActionNewTaskHistogramName HANDSET = ''FirstUserAction.BackgroundTimeNewTaskHandset''"
| "kFirstUserActionNewTaskHistogramName TABLET = ''FirstUserAction.BackgroundTimeNewTaskTablet''"

fun kFirstUserActionContinuationHistogramName :: "device_family \<Rightarrow> string" where
  "kFirstUserActionContinuationHistogramName HANDSET = ''FirstUserAction.BackgroundTimeContinuationHandset''"
| "kFirstUserActionContinuationHistogramName TABLET = ''FirstUserAction.BackgroundTimeContinuationTablet''"

fun kFirstUserActionExpirationHistogramName :: "device_family \<Rightarrow> string" where
  "kFirstUserActionExpirationHistogramName HANDSET = ''FirstUserAction.BackgroundTimeExpirationHandset''"
| "kFirstUserActionExpirationHistogramName TABLET = ''FirstUserAction.BackgroundTimeExpirationTablet''"

fun kFirstUserActionTypeHistogramName :: "device_family \<Rightarrow> string" where
  "kFirstUserActionTypeHistogramName HANDSET = ''FirstUserAction.HandsetUserActionType''"
| "kFirstUserActionTypeHistogramName TABLET = ''FirstUserAction.TabletUserActionType''"

definition kIgnoredActions :: "string list" where
  "kIgnoredActions =
     [''MobileOmniboxUse'', ''MobileFirstUserAction_Continuation'', ''MobileFirstUserAction_Expiration'',
      ''MobileFirstUserAction_NewTask'', ''MobileMenuCloseAllTabs'', ''MobileMenuCloseAllIncognitoTabs'',
      ''MobileMenuCloseTab'', ''MobileNewTabOpened'', ''MobileTabClosed'', ''MobileTabStripCloseTab'',
      ''MobileStackViewCloseTab'', ''MobileToolbarShowMenu'', ''MobileToolbarShowStackView'']"

definition kRethrownActions :: "string list" where
  "kRethrownActions = [''MobileTabSwitched'']"

definition kNewTaskActions :: "string list" where
  "kNewTaskActions =
     [''MobileMenuAllBookmarks'', ''MobileMenuHistory'', ''MobileMenuNewIncognitoTab'', ''MobileMenuNewTab'',
      ''MobileMenuRecentTabs'', ''MobileMenuVoiceSearch'', ''MobileBookmarkManagerEntryOpened'',
      ''MobileRecentTabManagerTabFromOtherDeviceOpened'', ''MobileNTPMostVisited'', ''MobileNTPShowBookmarks'',
      ''MobileNTPShowMostVisited'', ''MobileNTPShowOpenTabs'', ''MobileNTPShowHistory'',
      ''MobileNTPShowReadingList'', ''MobileNTPSwitchToBookmarks'', ''MobileNTPSwitchToMostVisited'',
      ''MobileNTPSwitchToOpenTabs'', ''MobileTabStripNewTab'', ''MobileToolbarNewTab'',
      ''MobileToolbarStackViewNewTab'', ''MobileToolbarVoiceSearch'', ''OmniboxInputInProgress'']"

text \<open>A sample of the enumeration histogram, or of a histogram of background minutes.\<close>

datatype histogram_sample = TypeSample string first_user_action_type | MinutesSample string int

record action_recorder =
  device_family :: device_family
  recorded_action :: bool
  action_pending :: bool
  background_minutes :: int
  pending_action :: "string option"
  samples :: "histogram_sample list"

definition new_FirstUserActionRecorder :: "bool \<Rightarrow> int \<Rightarrow> action_recorder" where
  "new_FirstUserActionRecorder is_ipad minutes =
     \<lparr>device_family = (if is_ipad then TABLET else HANDSET), recorded_action = False,
      action_pending = False, background_minutes = minutes, pending_action = None, samples = []\<rparr>"

fun ArrayContainsString :: "string list \<Rightarrow> string \<Rightarrow> bool" where
  "ArrayContainsString [] to_find = False"
| "ArrayContainsString (s # to_search) to_find = (s = to_find \<or> ArrayContainsString to_search to_find)"

fun duration_samples :: "first_user_action_type \<Rightarrow> action_recorder \<Rightarrow> histogram_sample list" where
  "duration_samples NEW_TASK r =
     [MinutesSample (kFirstUserActionNewTaskHistogramName (device_family r)) (background_minutes r)]"
| "duration_samples CONTINUATION r =
     [MinutesSample (kFirstUserActionContinuationHistogramName (device_family r)) (background_minutes r)]"
| "duration_samples EXPIRATION r =
     [MinutesSample (kFirstUserActionExpirationHistogramName (device_family r)) (background_minutes r)]"
| "duration_samples START_ON_NTP r = []"

definition RecordAction :: "first_user_action_type \<Rightarrow> action_recorder \<Rightarrow> action_recorder" where
  "RecordAction action_type r =
     (if \<not> recorded_action r
      then r\<lparr>recorded_action := True,
             samples := samples r @
               TypeSample (kFirstUserActionTypeHistogramName (device_family r)) action_type #
               duration_samples action_type r\<rparr>
      else r)"

definition Expire :: "action_recorder \<Rightarrow> action_recorder" where
  "Expire r = RecordAction EXPIRATION (r\<lparr>pending_action := None\<rparr>)"

definition RecordStartOnNTP :: "action_recorder \<Rightarrow> action_recorder" where
  "RecordStartOnNTP r = RecordAction START_ON_NTP r"

definition ShouldProcessAction :: "string \<Rightarrow> action_recorder \<Rightarrow> bool \<times> action_recorder" where
  "ShouldProcessAction action_name r =
     (if recorded_action r then (False, r)
      else if \<not> action_pending r \<and> ArrayContainsString kRethrownActions action_name
      then (False, r\<lparr>pending_action := Some action_name, action_pending := True\<rparr>)
      else let known_mobile_action =
                 starts_with action_name ''Mobile'' \<or> ArrayContainsString kNewTaskActions action_name
           in (known_mobile_action \<and> \<not> ArrayContainsString kIgnoredActions action_name, r))"

definition OnUserAction :: "string \<Rightarrow> action_recorder \<Rightarrow> action_recorder" where
  "OnUserAction action_name r =
     (let (process, r) = ShouldProcessAction action_name r
      in if process then
           if ArrayContainsString kNewTaskActions action_name then RecordAction NEW_TASK r
           else RecordAction CONTINUATION r
         else r)"

text \<open>The message loop runs the action that was posted back.\<close>

definition RunPending :: "action_recorder \<Rightarrow> action_recorder" where
  "RunPending r =
     (case pending_action r of
        None \<Rightarrow> r
      | Some a \<Rightarrow> OnUserAction a (r\<lparr>pending_action := None\<rparr>))"

section \<open>One action is recorded\<close>

datatype recorder_event = UserAction string | MessageLoop | Expired | StartOnNTP

fun recorder_step :: "recorder_event \<Rightarrow> action_recorder \<Rightarrow> action_recorder" where
  "recorder_step (UserAction a) r = OnUserAction a r"
| "recorder_step MessageLoop r = RunPending r"
| "recorder_step Expired r = Expire r"
| "recorder_step StartOnNTP r = RecordStartOnNTP r"

lemma ArrayContainsString_iff [simp]: "ArrayContainsString xs x \<longleftrightarrow> x \<in> set xs"
  by (induction xs) auto

definition type_samples :: "action_recorder \<Rightarrow> histogram_sample list" where
  "type_samples r = filter (\<lambda>s. case s of TypeSample _ _ \<Rightarrow> True | _ \<Rightarrow> False) (samples r)"

definition recorder_inv :: "action_recorder \<Rightarrow> bool" where
  "recorder_inv r \<longleftrightarrow> length (type_samples r) = of_bool (recorded_action r) \<and>
     (\<forall>a. pending_action r = Some a \<longrightarrow> action_pending r \<and> a \<in> set kRethrownActions)"

lemma RecordAction_inv: "recorder_inv r \<Longrightarrow> recorder_inv (RecordAction t r)"
  by (cases t) (auto simp: recorder_inv_def RecordAction_def type_samples_def)

lemma OnUserAction_inv: "recorder_inv r \<Longrightarrow> recorder_inv (OnUserAction a r)"
proof -
  assume i: "recorder_inv r"
  then have "recorder_inv (snd (ShouldProcessAction a r))"
    by (auto simp: ShouldProcessAction_def recorder_inv_def type_samples_def Let_def)
  then show ?thesis
    by (auto simp: OnUserAction_def RecordAction_inv split: prod.splits)
qed

lemma recorder_step_inv: "recorder_inv r \<Longrightarrow> recorder_inv (recorder_step ev r)"
proof (cases ev)
  case MessageLoop
  assume i: "recorder_inv r"
  then have "recorder_inv (r\<lparr>pending_action := None\<rparr>)" by (simp add: recorder_inv_def type_samples_def)
  with i MessageLoop show ?thesis by (auto simp: RunPending_def OnUserAction_inv split: option.splits)
next
  case Expired
  assume i: "recorder_inv r"
  then have "recorder_inv (r\<lparr>pending_action := None\<rparr>)" by (simp add: recorder_inv_def type_samples_def)
  with Expired show ?thesis by (simp add: Expire_def RecordAction_inv)
qed (simp_all add: OnUserAction_inv RecordStartOnNTP_def RecordAction_inv)

interpretation recorder: event_machine "\<lambda>_ _. True" "\<lambda>ev r. Some (recorder_step ev r)" recorder_inv
  by standard (simp add: recorder_step_inv)

text \<open>
  Whatever happens, at most one first action is recorded, and its type stays as it was recorded.
\<close>

lemma one_first_action:
  "length (type_samples (fold recorder_step evs (new_FirstUserActionRecorder ipad n))) \<le> 1"
proof -
  have "recorder_inv (new_FirstUserActionRecorder ipad n)"
    by (simp add: recorder_inv_def new_FirstUserActionRecorder_def type_samples_def)
  from recorder.run_ok [OF this allowed_run_always, of evs]
  have "recorder_inv (fold recorder_step evs (new_FirstUserActionRecorder ipad n))"
    by (simp add: run_events_total)
  then show ?thesis by (simp add: recorder_inv_def)
qed

lemma recorded_is_final: "recorded_action r \<Longrightarrow> samples (recorder_step ev r) = samples r"
  by (cases ev)
     (auto simp: OnUserAction_def ShouldProcessAction_def RunPending_def Expire_def RecordStartOnNTP_def
        RecordAction_def split: option.splits)

text \<open>
  A tab switch is held back: a new task that follows it before the message loop runs wins, and
  without one the switch counts as a continuation.
\<close>

lemma tab_switch_is_held_back:
  assumes "\<not> recorded_action r" "\<not> action_pending r" "t \<in> set kNewTaskActions"
  shows "samples (OnUserAction t (OnUserAction ''MobileTabSwitched'' r)) =
      samples r @ [TypeSample (kFirstUserActionTypeHistogramName (device_family r)) NEW_TASK,
        MinutesSample (kFirstUserActionNewTaskHistogramName (device_family r)) (background_minutes r)]"
    "samples (RunPending (OnUserAction ''MobileTabSwitched'' r)) =
      samples r @ [TypeSample (kFirstUserActionTypeHistogramName (device_family r)) CONTINUATION,
        MinutesSample (kFirstUserActionContinuationHistogramName (device_family r)) (background_minutes r)]"
proof -
  have n: "t \<notin> set kIgnoredActions" "''MobileTabSwitched'' \<notin> set kIgnoredActions"
    "''MobileTabSwitched'' \<notin> set kNewTaskActions" "''MobileTabSwitched'' \<in> set kRethrownActions"
    using assms(3) by (auto simp: kNewTaskActions_def kIgnoredActions_def kRethrownActions_def)
  have s: "starts_with ''MobileTabSwitched'' ''Mobile''" by (simp add: starts_with_def)
  have p: "OnUserAction ''MobileTabSwitched'' r =
      r\<lparr>pending_action := Some ''MobileTabSwitched'', action_pending := True\<rparr>"
    using assms(1,2) n by (simp add: OnUserAction_def ShouldProcessAction_def)
  show "samples (OnUserAction t (OnUserAction ''MobileTabSwitched'' r)) =
      samples r @ [TypeSample (kFirstUserActionTypeHistogramName (device_family r)) NEW_TASK,
        MinutesSample (kFirstUserActionNewTaskHistogramName (device_family r)) (background_minutes r)]"
    using assms n unfolding p by (simp add: OnUserAction_def ShouldProcessAction_def RecordAction_def)
  show "samples (RunPending (OnUserAction ''MobileTabSwitched'' r)) =
      samples r @ [TypeSample (kFirstUserActionTypeHistogramName (device_family r)) CONTINUATION,
        MinutesSample (kFirstUserActionContinuationHistogramName (device_family r)) (background_minutes r)]"
    using assms n s unfolding p
    by (simp add: RunPending_def OnUserAction_def ShouldProcessAction_def RecordAction_def)
qed

end
