(* ===== verification/Browser_State_Info.thy ===== *)
theory Browser_State_Info
  imports Url_Downloader "HOL-Library.List_Lexorder" "HOL-Library.Char_ord"
begin

text \<open>
  \<open>chrome/browser/browser_state/browser_state_info_cache.cc\<close>: what is remembered in local preferences
  about each browser state, addressed by the position of its key in a sorted vector. The preference is
  a dictionary of dictionaries; keys are read and written without path expansion, except that
  \<open>RemoveBrowserState\<close> calls \<open>DictionaryValue::Remove\<close>, which takes a path: it is an argument
  (\<open>RemovePath\<close>). Paths are split by functions of \<open>base::FilePath\<close>.
\<close>

definition kGAIAIdKey :: string where "kGAIAIdKey = ''gaia_id''"
definition kIsAuthErrorKey :: string where "kIsAuthErrorKey = ''is_auth_error''"
definition kUserNameKey :: string where "kUserNameKey = ''user_name''"

datatype info_value = Str string | Bool bool

type_synonym info_dict = "string \<rightharpoonup> info_value"
type_synonym info_pref = "string \<rightharpoonup> info_dict"

record path_lib =
  DirName :: "file_path \<Rightarrow> file_path"
  AsciiBaseName :: "file_path \<Rightarrow> string"
  AppendASCII :: "file_path \<Rightarrow> string \<Rightarrow> file_path"
  RemovePath :: "string \<Rightarrow> info_pref \<Rightarrow> info_pref"

datatype info_event = OnBrowserStateAdded file_path | OnBrowserStateWasRemoved file_path

record info_cache =
  info_prefs :: info_pref
  sorted_keys :: "string list"
  user_data_dir :: file_path
  info_observers :: "nat list"
  info_events :: "(nat \<times> info_event) list"

section \<open>Operations\<close>

text \<open>\<open>std::upper_bound\<close> on the sorted vector, then the insertion there.\<close>

fun upper_bound_insert :: "string \<Rightarrow> string list \<Rightarrow> string list" where
  "upper_bound_insert key [] = [key]"
| "upper_bound_insert key (k # ks) = (if key < k then key # k # ks else k # upper_bound_insert key ks)"

definition AddBrowserStateCacheKey :: "string \<Rightarrow> info_cache \<Rightarrow> info_cache" where
  "AddBrowserStateCacheKey key c = c\<lparr>sorted_keys := upper_bound_insert key (sorted_keys c)\<rparr>"

text \<open>The constructor adds the keys of the preference, in the order in which it lists them.\<close>

definition new_BrowserStateInfoCache :: "info_pref \<Rightarrow> string list \<Rightarrow> file_path \<Rightarrow> info_cache" where
  "new_BrowserStateInfoCache prefs listed_keys dir =
     fold AddBrowserStateCacheKey listed_keys
       \<lparr>info_prefs = prefs, sorted_keys = [], user_data_dir = dir, info_observers = [], info_events = []\<rparr>"

definition CacheKeyFromBrowserStatePath :: "path_lib \<Rightarrow> file_path \<Rightarrow> info_cache \<Rightarrow> string option" where
  "CacheKeyFromBrowserStatePath P path c = do {
     check (user_data_dir c = DirName P path);
     Some (AsciiBaseName P path) }"

definition notify_info :: "info_event \<Rightarrow> info_cache \<Rightarrow> info_cache" where
  "notify_info ev c = c\<lparr>info_events := info_events c @ map (\<lambda>ob. (ob, ev)) (info_observers c)\<rparr>"

definition AddBrowserState ::
  "path_lib \<Rightarrow> file_path \<Rightarrow> string \<Rightarrow> string \<Rightarrow> info_cache \<Rightarrow> info_cache option" where
  "AddBrowserState P path gaia_id user_name c = do {
     key \<leftarrow> CacheKeyFromBrowserStatePath P path c;
     let info = [kGAIAIdKey \<mapsto> Str gaia_id, kUserNameKey \<mapsto> Str user_name]
     in Some (notify_info (OnBrowserStateAdded path)
          (AddBrowserStateCacheKey key (c\<lparr>info_prefs := (info_prefs c)(key \<mapsto> info)\<rparr>))) }"

definition info_AddObserver :: "nat \<Rightarrow> info_cache \<Rightarrow> info_cache" where
  "info_AddObserver ob c = c\<lparr>info_observers := info_observers c @ [ob]\<rparr>"

definition info_RemoveObserver :: "nat \<Rightarrow> info_cache \<Rightarrow> info_cache" where
  "info_RemoveObserver ob c = c\<lparr>info_observers := remove1 ob (info_observers c)\<rparr>"

definition GetNumberOfBrowserStates :: "info_cache \<Rightarrow> nat" where
  "GetNumberOfBrowserStates c = length (sorted_keys c)"

text \<open>\<open>None\<close> inside is \<open>std::string::npos\<close>.\<close>

definition GetIndexOfBrowserStateWithPath :: "path_lib \<Rightarrow> file_path \<Rightarrow> info_cache \<Rightarrow> int option" where
  "GetIndexOfBrowserStateWithPath P path c =
     (if DirName P path \<noteq> user_data_dir c then Some (- 1)
      else do {
        search_key \<leftarrow> CacheKeyFromBrowserStatePath P path c;
        Some (find_index (\<lambda>k. k = search_key) (sorted_keys c)) })"

definition RemoveBrowserState :: "path_lib \<Rightarrow> file_path \<Rightarrow> info_cache \<Rightarrow> info_cache option" where
  "RemoveBrowserState P path c = do {
     browser_state_index \<leftarrow> GetIndexOfBrowserStateWithPath P path c;
     check (browser_state_index \<noteq> - 1);
     key \<leftarrow> CacheKeyFromBrowserStatePath P path c;
     Some (notify_info (OnBrowserStateWasRemoved path)
       (c\<lparr>info_prefs := RemovePath P key (info_prefs c), sorted_keys := remove1 key (sorted_keys c)\<rparr>)) }"

definition GetInfoForBrowserStateAtIndex :: "nat \<Rightarrow> info_cache \<Rightarrow> info_dict option" where
  "GetInfoForBrowserStateAtIndex index c = do {
     check (index < GetNumberOfBrowserStates c);
     info_prefs c (sorted_keys c ! index) }"

definition SetInfoForBrowserStateAtIndex :: "nat \<Rightarrow> info_dict \<Rightarrow> info_cache \<Rightarrow> info_cache option" where
  "SetInfoForBrowserStateAtIndex index info c = do {
     check (index < GetNumberOfBrowserStates c);
     Some (c\<lparr>info_prefs := (info_prefs c)(sorted_keys c ! index \<mapsto> info)\<rparr>) }"

definition string_in :: "info_dict \<Rightarrow> string \<Rightarrow> string" where
  "string_in info key = (case info key of Some (Str s) \<Rightarrow> s | _ \<Rightarrow> [])"

definition GetUserNameOfBrowserStateAtIndex :: "nat \<Rightarrow> info_cache \<Rightarrow> string option" where
  "GetUserNameOfBrowserStateAtIndex index c =
     map_option (\<lambda>info. string_in info kUserNameKey) (GetInfoForBrowserStateAtIndex index c)"

definition GetGAIAIdOfBrowserStateAtIndex :: "nat \<Rightarrow> info_cache \<Rightarrow> string option" where
  "GetGAIAIdOfBrowserStateAtIndex index c =
     map_option (\<lambda>info. string_in info kGAIAIdKey) (GetInfoForBrowserStateAtIndex index c)"

definition GetPathOfBrowserStateAtIndex :: "path_lib \<Rightarrow> nat \<Rightarrow> info_cache \<Rightarrow> file_path option" where
  "GetPathOfBrowserStateAtIndex P index c = do {
     check (index < GetNumberOfBrowserStates c);
     Some (AppendASCII P (user_data_dir c) (sorted_keys c ! index)) }"

definition BrowserStateIsAuthenticatedAtIndex :: "nat \<Rightarrow> info_cache \<Rightarrow> bool option" where
  "BrowserStateIsAuthenticatedAtIndex index c = do {
     gaia_id \<leftarrow> GetGAIAIdOfBrowserStateAtIndex index c;
     user_name \<leftarrow> GetUserNameOfBrowserStateAtIndex index c;
     Some (gaia_id \<noteq> [] \<or> user_name \<noteq> []) }"

definition BrowserStateIsAuthErrorAtIndex :: "nat \<Rightarrow> info_cache \<Rightarrow> bool option" where
  "BrowserStateIsAuthErrorAtIndex index c =
     map_option (\<lambda>info. case info kIsAuthErrorKey of Some (Bool b) \<Rightarrow> b | _ \<Rightarrow> False)
       (GetInfoForBrowserStateAtIndex index c)"

definition SetAuthInfoOfBrowserStateAtIndex ::
  "nat \<Rightarrow> string \<Rightarrow> string \<Rightarrow> info_cache \<Rightarrow> info_cache option" where
  "SetAuthInfoOfBrowserStateAtIndex index gaia_id user_name c = do {
     old_gaia \<leftarrow> GetGAIAIdOfBrowserStateAtIndex index c;
     old_name \<leftarrow> GetUserNameOfBrowserStateAtIndex index c;
     if gaia_id = old_gaia \<and> user_name = old_name then Some c
     else do {
       info \<leftarrow> GetInfoForBrowserStateAtIndex index c;
       SetInfoForBrowserStateAtIndex index
         (info(kGAIAIdKey \<mapsto> Str gaia_id, kUserNameKey \<mapsto> Str user_name)) c } }"

definition SetBrowserStateIsAuthErrorAtIndex :: "nat \<Rightarrow> bool \<Rightarrow> info_cache \<Rightarrow> info_cache option" where
  "SetBrowserStateIsAuthErrorAtIndex index value c = do {
     old \<leftarrow> BrowserStateIsAuthErrorAtIndex index c;
     if value = old then Some c
     else do {
       info \<leftarrow> GetInfoForBrowserStateAtIndex index c;
       SetInfoForBrowserStateAtIndex index (info(kIsAuthErrorKey \<mapsto> Bool value)) c } }"

section \<open>The keys and the preference agree\<close>

definition info_inv :: "info_cache \<Rightarrow> bool" where
  "info_inv c \<longleftrightarrow> sorted (sorted_keys c) \<and> distinct (sorted_keys c) \<and> set (sorted_keys c) = dom (info_prefs c)"

lemma set_upper_bound_insert [simp]: "set (upper_bound_insert k ks) = insert k (set ks)"
  by (induction ks) auto

lemma sorted_upper_bound_insert: "sorted ks \<Longrightarrow> sorted (upper_bound_insert k ks)"
  by (induction ks) auto

lemma distinct_upper_bound_insert: "distinct (upper_bound_insert k ks) \<longleftrightarrow> k \<notin> set ks \<and> distinct ks"
  by (induction ks) auto

lemma length_upper_bound_insert [simp]: "length (upper_bound_insert k ks) = Suc (length ks)"
  by (induction ks) auto

lemma notify_info_inv [simp]: "info_inv (notify_info ev c) = info_inv c"
  by (simp add: info_inv_def notify_info_def)

lemma AddBrowserState_inv:
  assumes "info_inv c" "AddBrowserState P path g u c = Some c'" "AsciiBaseName P path \<notin> dom (info_prefs c)"
  shows "info_inv c'" "GetNumberOfBrowserStates c' = Suc (GetNumberOfBrowserStates c)"
    "\<exists>i. GetIndexOfBrowserStateWithPath P path c' = Some (int i) \<and>
       GetGAIAIdOfBrowserStateAtIndex i c' = Some g \<and> GetUserNameOfBrowserStateAtIndex i c' = Some u \<and>
       BrowserStateIsAuthErrorAtIndex i c' = Some False"
proof -
  let ?k = "AsciiBaseName P path"
  let ?info = "[kGAIAIdKey \<mapsto> Str g, kUserNameKey \<mapsto> Str u]"
  from assms(2) have d: "user_data_dir c = DirName P path" and
    c': "c' = notify_info (OnBrowserStateAdded path)
          (AddBrowserStateCacheKey ?k (c\<lparr>info_prefs := (info_prefs c)(?k \<mapsto> ?info)\<rparr>))"
    by (auto simp: AddBrowserState_def CacheKeyFromBrowserStatePath_def elim!: check_SomeE)
  have k: "?k \<notin> set (sorted_keys c)" using assms(1,3) by (simp add: info_inv_def)
  show inv: "info_inv c'"
    using assms(1) k unfolding c'
    by (simp add: info_inv_def notify_info_def AddBrowserStateCacheKey_def sorted_upper_bound_insert distinct_upper_bound_insert)
  show "GetNumberOfBrowserStates c' = Suc (GetNumberOfBrowserStates c)"
    unfolding c' by (simp add: GetNumberOfBrowserStates_def notify_info_def AddBrowserStateCacheKey_def)
  have keys: "?k \<in> set (sorted_keys c')" "distinct (sorted_keys c')"
    using inv unfolding c' by (auto simp: info_inv_def notify_info_def AddBrowserStateCacheKey_def)
  then obtain i where i: "i < length (sorted_keys c')" "sorted_keys c' ! i = ?k" by (auto simp: in_set_conv_nth)
  have "find_index (\<lambda>x. x = ?k) (sorted_keys c') = int i"
    using find_index_distinct [OF keys(2) i(1)] i(2) by simp
  moreover have "user_data_dir c' = DirName P path" "info_prefs c' ?k = Some ?info"
    using d unfolding c' by (simp_all add: notify_info_def AddBrowserStateCacheKey_def)
  ultimately show "\<exists>i. GetIndexOfBrowserStateWithPath P path c' = Some (int i) \<and>
       GetGAIAIdOfBrowserStateAtIndex i c' = Some g \<and> GetUserNameOfBrowserStateAtIndex i c' = Some u \<and>
       BrowserStateIsAuthErrorAtIndex i c' = Some False"
    using i
    by (intro exI [of _ i])
       (simp add: GetIndexOfBrowserStateWithPath_def CacheKeyFromBrowserStatePath_def
          GetGAIAIdOfBrowserStateAtIndex_def GetUserNameOfBrowserStateAtIndex_def BrowserStateIsAuthErrorAtIndex_def
          GetInfoForBrowserStateAtIndex_def GetNumberOfBrowserStates_def string_in_def
          kGAIAIdKey_def kUserNameKey_def kIsAuthErrorKey_def)
qed

lemma RemoveBrowserState_inv:
  assumes "info_inv c" "RemoveBrowserState P path c = Some c'"
    "\<And>k d. CHR ''.'' \<notin> set k \<Longrightarrow> RemovePath P k d = d(k := None)" "CHR ''.'' \<notin> set (AsciiBaseName P path)"
  shows "info_inv c'" "GetIndexOfBrowserStateWithPath P path c' = Some (- 1)"
proof -
  let ?k = "AsciiBaseName P path"
  from assms(2) have d: "user_data_dir c = DirName P path" and
    c': "c' = notify_info (OnBrowserStateWasRemoved path)
          (c\<lparr>info_prefs := (info_prefs c)(?k := None), sorted_keys := remove1 ?k (sorted_keys c)\<rparr>)"
    using assms(3) [OF assms(4)]
    by (auto simp: RemoveBrowserState_def CacheKeyFromBrowserStatePath_def elim!: check_SomeE bind_SomeE)
  show "info_inv c'"
    using assms(1) unfolding c' by (auto simp: info_inv_def notify_info_def sorted_remove1)
  have "?k \<notin> set (remove1 ?k (sorted_keys c))" using assms(1) by (simp add: info_inv_def)
  then show "GetIndexOfBrowserStateWithPath P path c' = Some (- 1)"
    using d unfolding c'
    by (auto simp: GetIndexOfBrowserStateWithPath_def CacheKeyFromBrowserStatePath_def notify_info_def find_index_none)
qed

lemma SetAuthInfo_inv:
  assumes "info_inv c" "i < GetNumberOfBrowserStates c"
  shows "\<exists>c'. SetAuthInfoOfBrowserStateAtIndex i g u c = Some c' \<and> info_inv c' \<and> sorted_keys c' = sorted_keys c \<and>
    GetGAIAIdOfBrowserStateAtIndex i c' = Some g \<and> GetUserNameOfBrowserStateAtIndex i c' = Some u \<and>
    BrowserStateIsAuthErrorAtIndex i c' = BrowserStateIsAuthErrorAtIndex i c"
proof -
  have i: "i < length (sorted_keys c)" using assms(2) by (simp add: GetNumberOfBrowserStates_def)
  then have "sorted_keys c ! i \<in> dom (info_prefs c)" using assms(1) by (auto simp: info_inv_def)
  then obtain info where "info_prefs c (sorted_keys c ! i) = Some info" by auto
  then have g: "GetInfoForBrowserStateAtIndex i c = Some info"
    using i by (simp add: GetInfoForBrowserStateAtIndex_def GetNumberOfBrowserStates_def)
  then show ?thesis
    using assms i
    by (auto simp: SetAuthInfoOfBrowserStateAtIndex_def GetGAIAIdOfBrowserStateAtIndex_def
        GetUserNameOfBrowserStateAtIndex_def BrowserStateIsAuthErrorAtIndex_def SetInfoForBrowserStateAtIndex_def
        GetInfoForBrowserStateAtIndex_def GetNumberOfBrowserStates_def info_inv_def string_in_def
        kGAIAIdKey_def kUserNameKey_def kIsAuthErrorKey_def insert_absorb)
qed

text \<open>
  Adding a browser state a second time puts its key into the vector a second time, though the
  preference holds it once: the number of browser states is then too large.
\<close>

lemma AddBrowserState_twice:
  assumes "AddBrowserState P path g u c = Some c1" "AddBrowserState P path g' u' c1 = Some c2"
  shows "\<not> distinct (sorted_keys c2)" "dom (info_prefs c2) = dom (info_prefs c1)"
  using assms
  by (auto simp: AddBrowserState_def CacheKeyFromBrowserStatePath_def AddBrowserStateCacheKey_def
      notify_info_def distinct_upper_bound_insert elim!: check_SomeE)

end
