(* ===== verification/Browser_State_Manager.thy ===== *)
theory Browser_State_Manager
  imports Browser_State_Info Event_Machine
begin

text \<open>
  \<open>chrome/browser/browser_state/chrome_browser_state_manager_impl.cc\<close>, the metrics of
  \<open>browser_state_metrics/browser_state_metrics.cc\<close> and \<open>signin/signin_browser_state_info_updater.mm\<close>: the
  browser states of the process are loaded by path, entered in the \<open>BrowserStateInfoCache\<close>, and a service
  of each keeps the entry in step with the account that is signed in. Accounts and errors belong to
  the identity manager and the error controller of a browser state, which is named by its path. Names
  are in UTF-8 throughout.
\<close>

section \<open>State\<close>

text \<open>\<open>ChromeBrowserStateImpl\<close>: its path, and whether its incognito state exists.\<close>

record chrome_browser_state =
  state_path :: file_path
  otr_state :: bool

datatype service_init =
  AccountConsistencyService | OnNetworkInitialized | AccountReconcilor | UnifiedConsentService

record profile_counts =
  counts_total :: nat
  signedin :: nat
  auth_errors :: nat

record bs_manager =
  user_data_path :: "file_path option"
  last_used :: string
  local_info :: info_pref
  local_keys :: "string list"
  browser_states :: "(file_path \<times> chrome_browser_state) list"
  browser_state_info_cache :: "info_cache option"
  primary_account :: "file_path \<Rightarrow> (string \<times> string) option"
  signin_error :: "file_path \<Rightarrow> bool"
  updaters :: "file_path list"
  service_inits :: "(file_path \<times> service_init) list"
  size_tasks :: "file_path list"
  counts_logged :: "profile_counts list"

definition kIOSChromeInitialBrowserState :: string where
  "kIOSChromeInitialBrowserState = ''Default''"

section \<open>Operations\<close>

definition GetUserDataDir :: "bs_manager \<Rightarrow> file_path option" where
  "GetUserDataDir w = user_data_path w"

definition GetLastUsedBrowserStateDir :: "path_lib \<Rightarrow> file_path \<Rightarrow> bs_manager \<Rightarrow> file_path" where
  "GetLastUsedBrowserStateDir P dir w =
     (let name = (if last_used w = [] then kIOSChromeInitialBrowserState else last_used w)
      in AppendASCII P dir name)"

definition GetBrowserStateInfoCache :: "bs_manager \<Rightarrow> (info_cache \<times> bs_manager) option" where
  "GetBrowserStateInfoCache w =
     (case browser_state_info_cache w of
        Some c \<Rightarrow> Some (c, w)
      | None \<Rightarrow> do {
          dir \<leftarrow> GetUserDataDir w;
          let c = new_BrowserStateInfoCache (local_info w) (local_keys w) dir;
          Some (c, w\<lparr>browser_state_info_cache := Some c\<rparr>) })"

definition GetLoadedBrowserStates :: "bs_manager \<Rightarrow> chrome_browser_state list" where
  "GetLoadedBrowserStates w = map snd (browser_states w)"

text \<open>\<open>IdentityManager::GetPrimaryAccountInfo\<close> is empty when nobody is signed in.\<close>

definition GetPrimaryAccountInfo :: "file_path \<Rightarrow> bs_manager \<Rightarrow> string \<times> string" where
  "GetPrimaryAccountInfo path w = (case primary_account w path of None \<Rightarrow> ([], []) | Some a \<Rightarrow> a)"

definition AddBrowserStateToCache :: "path_lib \<Rightarrow> chrome_browser_state \<Rightarrow> bs_manager \<Rightarrow> bs_manager option" where
  "AddBrowserStateToCache P browser_state w = do {
     (c, w) \<leftarrow> GetBrowserStateInfoCache w;
     if DirName P (state_path browser_state) \<noteq> user_data_dir c then Some w
     else do {
       let (gaia, username) = GetPrimaryAccountInfo (state_path browser_state) w;
       index \<leftarrow> GetIndexOfBrowserStateWithPath P (state_path browser_state) c;
       c \<leftarrow> (if index \<noteq> - 1 then SetAuthInfoOfBrowserStateAtIndex (nat index) gaia username c
             else AddBrowserState P (state_path browser_state) gaia username c);
       Some (w\<lparr>browser_state_info_cache := Some c\<rparr>) } }"

definition DoFinalInitForServices :: "chrome_browser_state \<Rightarrow> bs_manager \<Rightarrow> bs_manager" where
  "DoFinalInitForServices browser_state w =
     w\<lparr>service_inits := service_inits w @ map (Pair (state_path browser_state))
        [AccountConsistencyService, OnNetworkInitialized, AccountReconcilor, UnifiedConsentService]\<rparr>"

text \<open>\<open>CountBrowserStateInformation\<close>, its loop and the value it returns.\<close>

fun count_states :: "nat list \<Rightarrow> info_cache \<Rightarrow> profile_counts \<Rightarrow> profile_counts option" where
  "count_states [] c n = Some n"
| "count_states (i # rest) c n = do {
     authenticated \<leftarrow> BrowserStateIsAuthenticatedAtIndex i c;
     if \<not> authenticated then count_states rest c n
     else do {
       let n = n\<lparr>signedin := signedin n + 1\<rparr>;
       err \<leftarrow> BrowserStateIsAuthErrorAtIndex i c;
       count_states rest c (if err then n\<lparr>auth_errors := auth_errors n + 1\<rparr> else n) } }"

definition CountBrowserStateInformation ::
  "bs_manager \<Rightarrow> profile_counts \<Rightarrow> (bool \<times> profile_counts \<times> bs_manager) option" where
  "CountBrowserStateInformation w n = do {
     (c, w) \<leftarrow> GetBrowserStateInfoCache w;
     let number_of_browser_states = GetNumberOfBrowserStates c;
     let n = n\<lparr>counts_total := number_of_browser_states\<rparr>;
     if number_of_browser_states = 0 then Some (False, n, w)
     else do {
       n \<leftarrow> count_states [0..<number_of_browser_states] c n;
       Some (True, n, w) } }"

definition LogNumberOfBrowserStates :: "bs_manager \<Rightarrow> bs_manager option" where
  "LogNumberOfBrowserStates w = do {
     (_, n, w) \<leftarrow> CountBrowserStateInformation w \<lparr>counts_total = 0, signedin = 0, auth_errors = 0\<rparr>;
     Some (w\<lparr>counts_logged := counts_logged w @ [n]\<rparr>) }"

definition DoFinalInit :: "path_lib \<Rightarrow> chrome_browser_state \<Rightarrow> bs_manager \<Rightarrow> bs_manager option" where
  "DoFinalInit P browser_state w = do {
     w \<leftarrow> AddBrowserStateToCache P browser_state (DoFinalInitForServices browser_state w);
     LogNumberOfBrowserStates (w\<lparr>size_tasks := size_tasks w @ [state_path browser_state]\<rparr>) }"

text \<open>The \<open>std::map\<close> of the browser states keeps its paths in order.\<close>

fun map_insert :: "file_path \<Rightarrow> chrome_browser_state \<Rightarrow> (file_path \<times> chrome_browser_state) list \<Rightarrow>
    (file_path \<times> chrome_browser_state) list" where
  "map_insert k v [] = [(k, v)]"
| "map_insert k v ((k', v') # m) = (if k < k' then (k, v) # (k', v') # m else (k', v') # map_insert k v m)"

definition GetBrowserState :: "path_lib \<Rightarrow> file_path \<Rightarrow> bs_manager \<Rightarrow> (chrome_browser_state \<times> bs_manager) option" where
  "GetBrowserState P path w =
     (case map_of (browser_states w) path of
        Some b \<Rightarrow> Some (b, w)
      | None \<Rightarrow> do {
          let b = \<lparr>state_path = path, otr_state = False\<rparr>;
          w \<leftarrow> DoFinalInit P b (w\<lparr>browser_states := map_insert path b (browser_states w)\<rparr>);
          Some (b, w) })"

definition GetLastUsedBrowserState :: "path_lib \<Rightarrow> bs_manager \<Rightarrow> (chrome_browser_state \<times> bs_manager) option" where
  "GetLastUsedBrowserState P w = do {
     dir \<leftarrow> GetUserDataDir w;
     GetBrowserState P (GetLastUsedBrowserStateDir P dir w) w }"

text \<open>
  The destructor: the states that are made inactive, with \<open>True\<close> for an incognito one. Whether
  \<open>ActiveStateManager\<close> exists for an incognito state is an argument.
\<close>

definition delete_ChromeBrowserStateManagerImpl :: "(file_path \<Rightarrow> bool) \<Rightarrow> bs_manager \<Rightarrow> (file_path \<times> bool) list" where
  "delete_ChromeBrowserStateManagerImpl ExistsForOtr w =
     concat (map (\<lambda>(path, b). (path, False) # (if \<not> otr_state b then [] else if \<not> ExistsForOtr path then []
        else [(path, True)])) (browser_states w))"

text \<open>\<open>ChromeBrowserStateImpl\<close>: the incognito state, created when it is asked for.\<close>

definition GetOffTheRecordChromeBrowserState :: "chrome_browser_state \<Rightarrow> chrome_browser_state" where
  "GetOffTheRecordChromeBrowserState b = (if \<not> otr_state b then b\<lparr>otr_state := True\<rparr> else b)"

definition DestroyOffTheRecordChromeBrowserState :: "chrome_browser_state \<Rightarrow> chrome_browser_state" where
  "DestroyOffTheRecordChromeBrowserState b = b\<lparr>otr_state := False\<rparr>"

definition update_loaded ::
  "file_path \<Rightarrow> (chrome_browser_state \<Rightarrow> chrome_browser_state) \<Rightarrow> bs_manager \<Rightarrow> bs_manager" where
  "update_loaded path f w =
     w\<lparr>browser_states := map (\<lambda>(p, b). (p, if p = path then f b else b)) (browser_states w)\<rparr>"

section \<open>The updater of the entry\<close>

definition UpdateBrowserStateInfo :: "path_lib \<Rightarrow> file_path \<Rightarrow> bs_manager \<Rightarrow> bs_manager option" where
  "UpdateBrowserStateInfo P path w = do {
     (c, w) \<leftarrow> GetBrowserStateInfoCache w;
     index \<leftarrow> GetIndexOfBrowserStateWithPath P path c;
     if index = - 1 then Some w
     else do {
       c \<leftarrow> (case primary_account w path of
               Some (gaia, email) \<Rightarrow> SetAuthInfoOfBrowserStateAtIndex (nat index) gaia email c
             | None \<Rightarrow> SetAuthInfoOfBrowserStateAtIndex (nat index) [] [] c);
       Some (w\<lparr>browser_state_info_cache := Some c\<rparr>) } }"

definition OnErrorChanged :: "path_lib \<Rightarrow> file_path \<Rightarrow> bs_manager \<Rightarrow> bs_manager option" where
  "OnErrorChanged P path w = do {
     (c, w) \<leftarrow> GetBrowserStateInfoCache w;
     index \<leftarrow> GetIndexOfBrowserStateWithPath P path c;
     if index = - 1 then Some w
     else do {
       c \<leftarrow> SetBrowserStateIsAuthErrorAtIndex (nat index) (signin_error w path) c;
       Some (w\<lparr>browser_state_info_cache := Some c\<rparr>) } }"

definition new_SigninBrowserStateInfoUpdater :: "path_lib \<Rightarrow> file_path \<Rightarrow> bs_manager \<Rightarrow> bs_manager option" where
  "new_SigninBrowserStateInfoUpdater P path w =
     UpdateBrowserStateInfo P path (w\<lparr>updaters := updaters w @ [path]\<rparr>)"

definition updater_Shutdown :: "file_path \<Rightarrow> bs_manager \<Rightarrow> bs_manager" where
  "updater_Shutdown path w = w\<lparr>updaters := remove1 path (updaters w)\<rparr>"

text \<open>\<open>OnPrimaryAccountSet\<close> and \<open>OnPrimaryAccountCleared\<close> of an updater.\<close>

definition OnPrimaryAccountChanged :: "path_lib \<Rightarrow> file_path \<Rightarrow> bs_manager \<Rightarrow> bs_manager option" where
  "OnPrimaryAccountChanged P path w = UpdateBrowserStateInfo P path w"

section \<open>Interleavings\<close>

datatype bs_event =
    LoadState file_path | LoadLastUsed | OpenIncognito file_path | CloseIncognito file_path
  | NewUpdater file_path | ShutdownUpdater file_path
  | PrimaryAccountChanged file_path "(string \<times> string) option" | SigninErrorChanged file_path bool

text \<open>The identity manager and the error controller of a browser state tell its updater, while there is one.\<close>

fun bs_step :: "path_lib \<Rightarrow> bs_event \<Rightarrow> bs_manager \<Rightarrow> bs_manager option" where
  "bs_step P (LoadState path) w = map_option snd (GetBrowserState P path w)"
| "bs_step P LoadLastUsed w = map_option snd (GetLastUsedBrowserState P w)"
| "bs_step P (OpenIncognito path) w = Some (update_loaded path GetOffTheRecordChromeBrowserState w)"
| "bs_step P (CloseIncognito path) w = Some (update_loaded path DestroyOffTheRecordChromeBrowserState w)"
| "bs_step P (NewUpdater path) w =
     (if path \<in> set (updaters w) then Some w else new_SigninBrowserStateInfoUpdater P path w)"
| "bs_step P (ShutdownUpdater path) w = Some (updater_Shutdown path w)"
| "bs_step P (PrimaryAccountChanged path a) w =
     (let w = w\<lparr>primary_account := (primary_account w)(path := a)\<rparr>
      in if path \<in> set (updaters w) then OnPrimaryAccountChanged P path w else Some w)"
| "bs_step P (SigninErrorChanged path e) w =
     (let w = w\<lparr>signin_error := (signin_error w)(path := e)\<rparr>
      in if path \<in> set (updaters w) then OnErrorChanged P path w else Some w)"

text \<open>The paths that are used; the entry of one is not the entry of another.\<close>

definition bs_allowed :: "path_lib \<Rightarrow> file_path set \<Rightarrow> bs_event \<Rightarrow> bs_manager \<Rightarrow> bool" where
  "bs_allowed P A e w =
     (case e of LoadState p \<Rightarrow> p \<in> A | NewUpdater p \<Rightarrow> p \<in> A | PrimaryAccountChanged p a \<Rightarrow> p \<in> A
      | SigninErrorChanged p b \<Rightarrow> p \<in> A
      | LoadLastUsed \<Rightarrow> (\<forall>dir. user_data_path w = Some dir \<longrightarrow> GetLastUsedBrowserStateDir P dir w \<in> A)
      | _ \<Rightarrow> True)"

definition one_entry_each :: "path_lib \<Rightarrow> file_path set \<Rightarrow> file_path \<Rightarrow> bool" where
  "one_entry_each P A dir \<longleftrightarrow> inj_on (AsciiBaseName P) {p \<in> A. DirName P p = dir}"

section \<open>Entries of the cache\<close>

definition account_matches :: "string \<times> string \<Rightarrow> info_dict \<Rightarrow> bool" where
  "account_matches a info \<longleftrightarrow> string_in info kGAIAIdKey = fst a \<and> string_in info kUserNameKey = snd a"

lemma fold_AddBrowserStateCacheKey:
  "fold AddBrowserStateCacheKey ks c = c\<lparr>sorted_keys := fold upper_bound_insert ks (sorted_keys c)\<rparr>"
  by (induction ks arbitrary: c) (simp_all add: AddBrowserStateCacheKey_def)

lemma fold_upper_bound_insert:
  "sorted l \<Longrightarrow> distinct (ks @ l) \<Longrightarrow>
     sorted (fold upper_bound_insert ks l) \<and> distinct (fold upper_bound_insert ks l) \<and>
     set (fold upper_bound_insert ks l) = set ks \<union> set l"
  by (induction ks arbitrary: l) (simp_all add: sorted_upper_bound_insert distinct_upper_bound_insert)

lemma new_cache_inv:
  assumes "distinct ks" "set ks = dom prefs"
  shows "info_inv (new_BrowserStateInfoCache prefs ks dir)"
    "user_data_dir (new_BrowserStateInfoCache prefs ks dir) = dir"
  using assms fold_upper_bound_insert [of "[]" ks]
  by (simp_all add: new_BrowserStateInfoCache_def fold_AddBrowserStateCacheKey info_inv_def)

lemma index_of_path:
  assumes "info_inv c" "DirName P p = user_data_dir c"
  shows "AsciiBaseName P p \<in> dom (info_prefs c) \<Longrightarrow> \<exists>i. GetIndexOfBrowserStateWithPath P p c = Some (int i) \<and>
      i < GetNumberOfBrowserStates c \<and> sorted_keys c ! i = AsciiBaseName P p"
    and "AsciiBaseName P p \<notin> dom (info_prefs c) \<Longrightarrow> GetIndexOfBrowserStateWithPath P p c = Some (- 1)"
proof -
  let ?k = "AsciiBaseName P p"
  have g: "GetIndexOfBrowserStateWithPath P p c = Some (find_index (\<lambda>k. k = ?k) (sorted_keys c))"
    using assms(2) by (simp add: GetIndexOfBrowserStateWithPath_def CacheKeyFromBrowserStatePath_def)
  show "\<exists>i. GetIndexOfBrowserStateWithPath P p c = Some (int i) \<and> i < GetNumberOfBrowserStates c \<and>
      sorted_keys c ! i = ?k" if "?k \<in> dom (info_prefs c)"
  proof -
    from that assms(1) obtain i where i: "i < length (sorted_keys c)" "sorted_keys c ! i = ?k"
      by (metis info_inv_def in_set_conv_nth)
    then show ?thesis
      using g find_index_distinct [OF _ i(1)] assms(1)
      by (auto simp: info_inv_def GetNumberOfBrowserStates_def)
  qed
  show "GetIndexOfBrowserStateWithPath P p c = Some (- 1)" if "?k \<notin> dom (info_prefs c)"
    using that g assms(1) by (auto simp: info_inv_def find_index_none)
qed

lemma info_at:
  assumes "info_inv c" "i < GetNumberOfBrowserStates c"
  obtains info where "info_prefs c (sorted_keys c ! i) = Some info" "GetInfoForBrowserStateAtIndex i c = Some info"
proof -
  have i: "i < length (sorted_keys c)" using assms(2) by (simp add: GetNumberOfBrowserStates_def)
  then have "sorted_keys c ! i \<in> dom (info_prefs c)" using assms(1) by (auto simp: info_inv_def)
  then obtain info where "info_prefs c (sorted_keys c ! i) = Some info" by auto
  with that i show ?thesis by (simp add: GetInfoForBrowserStateAtIndex_def GetNumberOfBrowserStates_def)
qed

lemma SetAuthInfo_entry:
  assumes "info_inv c" "i < GetNumberOfBrowserStates c"
  shows "\<exists>info. SetAuthInfoOfBrowserStateAtIndex i g u c =
      Some (c\<lparr>info_prefs := (info_prefs c)(sorted_keys c ! i \<mapsto> info)\<rparr>) \<and> account_matches (g, u) info"
proof -
  obtain info where info: "info_prefs c (sorted_keys c ! i) = Some info" "GetInfoForBrowserStateAtIndex i c = Some info"
    by (rule info_at [OF assms])
  have same: "c\<lparr>info_prefs := (info_prefs c)(sorted_keys c ! i \<mapsto> info)\<rparr> = c"
    using info(1) by (simp add: fun_upd_idem)
  show ?thesis
  proof (cases "account_matches (g, u) info")
    case True
    with info(2) same show ?thesis
      by (intro exI [of _ info])
        (auto simp: SetAuthInfoOfBrowserStateAtIndex_def GetGAIAIdOfBrowserStateAtIndex_def
          GetUserNameOfBrowserStateAtIndex_def account_matches_def)
  next
    case False
    with info(2) assms(2) show ?thesis
      by (intro exI [of _ "info(kGAIAIdKey \<mapsto> Str g, kUserNameKey \<mapsto> Str u)"])
        (auto simp: SetAuthInfoOfBrowserStateAtIndex_def GetGAIAIdOfBrowserStateAtIndex_def
          GetUserNameOfBrowserStateAtIndex_def account_matches_def SetInfoForBrowserStateAtIndex_def string_in_def
          kGAIAIdKey_def kUserNameKey_def)
  qed
qed

lemma SetAuthError_entry:
  assumes "info_inv c" "i < GetNumberOfBrowserStates c"
  shows "\<exists>info info'. SetBrowserStateIsAuthErrorAtIndex i v c =
      Some (c\<lparr>info_prefs := (info_prefs c)(sorted_keys c ! i \<mapsto> info')\<rparr>) \<and>
    info_prefs c (sorted_keys c ! i) = Some info \<and> (\<forall>a. account_matches a info' = account_matches a info)"
proof -
  obtain info where info: "info_prefs c (sorted_keys c ! i) = Some info" "GetInfoForBrowserStateAtIndex i c = Some info"
    by (rule info_at [OF assms])
  have same: "c\<lparr>info_prefs := (info_prefs c)(sorted_keys c ! i \<mapsto> info)\<rparr> = c"
    using info(1) by (simp add: fun_upd_idem)
  show ?thesis
  proof (cases "BrowserStateIsAuthErrorAtIndex i c = Some v")
    case True
    with info same show ?thesis
      by - (rule exI [of _ info], rule exI [of _ info], simp add: SetBrowserStateIsAuthErrorAtIndex_def)
  next
    case False
    with info assms(2) show ?thesis
      by - (rule exI [of _ info], rule exI [of _ "info(kIsAuthErrorKey \<mapsto> Bool v)"],
        auto simp: SetBrowserStateIsAuthErrorAtIndex_def BrowserStateIsAuthErrorAtIndex_def
          SetInfoForBrowserStateAtIndex_def account_matches_def string_in_def
          kGAIAIdKey_def kUserNameKey_def kIsAuthErrorKey_def)
  qed
qed

text \<open>
  A cache of the directory \<open>U\<close> with entries for the paths \<open>L\<close>, in which the entries of the paths \<open>T\<close> show
  their accounts.
\<close>

definition info_cache_ok ::
  "path_lib \<Rightarrow> file_path \<Rightarrow> file_path set \<Rightarrow> file_path set \<Rightarrow> (file_path \<Rightarrow> string \<times> string) \<Rightarrow> info_cache \<Rightarrow> bool" where
  "info_cache_ok P U L T acct c \<longleftrightarrow> info_inv c \<and> user_data_dir c = U \<and>
     (\<forall>p \<in> L. DirName P p = U \<longrightarrow> AsciiBaseName P p \<in> dom (info_prefs c)) \<and>
     (\<forall>p \<in> T. DirName P p = U \<longrightarrow>
        (\<forall>info. info_prefs c (AsciiBaseName P p) = Some info \<longrightarrow> account_matches (acct p) info))"

lemma info_cache_ok_entry:
  assumes "info_cache_ok P U L (T - {p}) acct c" "one_entry_each P A U" "T \<union> {p} \<subseteq> A" "DirName P p = U"
    "info_inv c'" "user_data_dir c' = U" "info_prefs c' = (info_prefs c)(AsciiBaseName P p \<mapsto> info)"
    "account_matches (acct p) info"
  shows "info_cache_ok P U (insert p L) (insert p T) acct c'"
  unfolding info_cache_ok_def
proof (intro conjI ballI impI allI)
  fix q i assume q: "q \<in> insert p T" "DirName P q = U" "info_prefs c' (AsciiBaseName P q) = Some i"
  show "account_matches (acct q) i"
  proof (cases "q = p")
    case True
    with q(3) assms(7,8) show ?thesis by simp
  next
    case False
    then have "AsciiBaseName P q \<noteq> AsciiBaseName P p"
      using assms(2-4) q(1,2) by (auto simp: one_entry_each_def dest: inj_onD)
    with False q assms(1,7) show ?thesis by (simp add: info_cache_ok_def)
  qed
qed (use assms in \<open>auto simp: info_cache_ok_def\<close>)

lemma info_cache_ok_outside:
  "info_cache_ok P U L (T - {p}) acct c \<Longrightarrow> DirName P p \<noteq> U \<Longrightarrow> info_cache_ok P U (insert p L) (insert p T) acct c"
  by (auto simp: info_cache_ok_def)

lemma info_cache_ok_absent:
  "info_cache_ok P U L (T - {p}) acct c \<Longrightarrow> AsciiBaseName P p \<notin> dom (info_prefs c) \<Longrightarrow>
     info_cache_ok P U L (insert p T) acct c"
  by (auto simp: info_cache_ok_def)

lemma info_cache_ok_mono: "info_cache_ok P U L T acct c \<Longrightarrow> L' \<subseteq> L \<Longrightarrow> T' \<subseteq> T \<Longrightarrow> info_cache_ok P U L' T' acct c"
  unfolding info_cache_ok_def by blast

lemma entry_keeps_inv:
  "info_inv c \<Longrightarrow> k \<in> dom (info_prefs c) \<Longrightarrow> info_inv (c\<lparr>info_prefs := (info_prefs c)(k \<mapsto> info)\<rparr>)"
  by (auto simp: info_inv_def)

text \<open>The account of \<open>p\<close> is written to its entry, which is created when \<open>AddBrowserState\<close> is called.\<close>

lemma SetAuthInfo_ok:
  assumes "info_cache_ok P U L (T - {p}) acct c" "one_entry_each P A U" "T \<union> {p} \<subseteq> A" "DirName P p = U"
    "GetIndexOfBrowserStateWithPath P p c = Some i" "i \<noteq> - 1"
  shows "\<exists>c'. SetAuthInfoOfBrowserStateAtIndex (nat i) (fst (acct p)) (snd (acct p)) c = Some c' \<and>
    info_cache_ok P U (insert p L) (insert p T) acct c'"
proof -
  have c: "info_inv c" "user_data_dir c = U" using assms(1) by (auto simp: info_cache_ok_def)
  from index_of_path [OF c(1), of P p] assms(4-6) c(2) obtain k where
    k: "i = int k" "k < GetNumberOfBrowserStates c" "sorted_keys c ! k = AsciiBaseName P p"
    by (cases "AsciiBaseName P p \<in> dom (info_prefs c)") auto
  from SetAuthInfo_entry [OF c(1) k(2), of "fst (acct p)" "snd (acct p)"] obtain info where
    info: "SetAuthInfoOfBrowserStateAtIndex k (fst (acct p)) (snd (acct p)) c =
        Some (c\<lparr>info_prefs := (info_prefs c)(AsciiBaseName P p \<mapsto> info)\<rparr>)" "account_matches (acct p) info"
    unfolding k(3) by auto
  have "AsciiBaseName P p \<in> dom (info_prefs c)"
    using k(2,3) c(1) by (metis GetNumberOfBrowserStates_def info_inv_def nth_mem)
  then have "info_inv (c\<lparr>info_prefs := (info_prefs c)(AsciiBaseName P p \<mapsto> info)\<rparr>)"
    by (rule entry_keeps_inv [OF c(1)])
  then have "info_cache_ok P U (insert p L) (insert p T) acct (c\<lparr>info_prefs := (info_prefs c)(AsciiBaseName P p \<mapsto> info)\<rparr>)"
    by (rule info_cache_ok_entry [OF assms(1-4)]) (use c(2) info(2) in simp_all)
  with info(1) k(1) show ?thesis by simp
qed

lemma AddBrowserState_ok:
  assumes "info_cache_ok P U L (T - {p}) acct c" "one_entry_each P A U" "T \<union> {p} \<subseteq> A" "DirName P p = U"
    "GetIndexOfBrowserStateWithPath P p c = Some (- 1)"
  shows "\<exists>c'. AddBrowserState P p (fst (acct p)) (snd (acct p)) c = Some c' \<and>
    info_cache_ok P U (insert p L) (insert p T) acct c'"
proof -
  let ?k = "AsciiBaseName P p"
  let ?info = "[kGAIAIdKey \<mapsto> Str (fst (acct p)), kUserNameKey \<mapsto> Str (snd (acct p))]"
  have c: "info_inv c" "user_data_dir c = U" using assms(1) by (auto simp: info_cache_ok_def)
  have k: "?k \<notin> dom (info_prefs c)" using index_of_path(1) [OF c(1), of P p] assms(4,5) c(2) by auto
  obtain c' where a: "AddBrowserState P p (fst (acct p)) (snd (acct p)) c = Some c'" and
    c': "c' = notify_info (OnBrowserStateAdded p)
        (AddBrowserStateCacheKey ?k (c\<lparr>info_prefs := (info_prefs c)(?k \<mapsto> ?info)\<rparr>))"
    using c(2) assms(4) by (simp add: AddBrowserState_def CacheKeyFromBrowserStatePath_def)
  have "account_matches (acct p) ?info"
    by (simp add: account_matches_def string_in_def kGAIAIdKey_def kUserNameKey_def)
  moreover have "user_data_dir c' = U" "info_prefs c' = (info_prefs c)(?k \<mapsto> ?info)"
    using c(2) by (simp_all add: c' notify_info_def AddBrowserStateCacheKey_def)
  ultimately have "info_cache_ok P U (insert p L) (insert p T) acct c'"
    by (intro info_cache_ok_entry [OF assms(1-4) AddBrowserState_inv(1) [OF c(1) a k]])
  with a show ?thesis by blast
qed

section \<open>The manager keeps the cache\<close>

definition cache_ready ::
  "path_lib \<Rightarrow> file_path \<Rightarrow> file_path set \<Rightarrow> file_path set \<Rightarrow> bs_manager \<Rightarrow> bool" where
  "cache_ready P U L T w \<longleftrightarrow> user_data_path w = Some U \<and>
     (case browser_state_info_cache w of
        None \<Rightarrow> L = {} \<and> T = {} \<and> distinct (local_keys w) \<and> set (local_keys w) = dom (local_info w)
      | Some c \<Rightarrow> info_cache_ok P U L T (\<lambda>p. GetPrimaryAccountInfo p w) c)"

lemma GetBrowserStateInfoCache_ready:
  assumes "cache_ready P U L T w"
  shows "\<exists>c. GetBrowserStateInfoCache w = Some (c, w\<lparr>browser_state_info_cache := Some c\<rparr>) \<and>
    info_cache_ok P U L T (\<lambda>p. GetPrimaryAccountInfo p w) c"
proof (cases "browser_state_info_cache w")
  case None
  with assms show ?thesis
    by (auto simp: cache_ready_def GetBrowserStateInfoCache_def GetUserDataDir_def info_cache_ok_def new_cache_inv Let_def)
next
  case (Some c)
  moreover from this have "w\<lparr>browser_state_info_cache := Some c\<rparr> = w" by simp
  ultimately show ?thesis using assms by (auto simp: cache_ready_def GetBrowserStateInfoCache_def)
qed

lemma AddBrowserStateToCache_ready:
  assumes "cache_ready P U L T w" "one_entry_each P A U" "T \<union> {p} \<subseteq> A" "state_path b = p"
  shows "\<exists>c. AddBrowserStateToCache P b w = Some (w\<lparr>browser_state_info_cache := Some c\<rparr>) \<and>
    info_cache_ok P U (insert p L) (insert p T) (\<lambda>p. GetPrimaryAccountInfo p w) c"
proof -
  let ?a = "\<lambda>p. GetPrimaryAccountInfo p w"
  from GetBrowserStateInfoCache_ready [OF assms(1)] obtain c where
    c: "GetBrowserStateInfoCache w = Some (c, w\<lparr>browser_state_info_cache := Some c\<rparr>)" "info_cache_ok P U L T ?a c"
    by blast
  then have d: "user_data_dir c = U" and i: "info_inv c" by (auto simp: info_cache_ok_def)
  have m: "info_cache_ok P U L (T - {p}) ?a c" by (rule info_cache_ok_mono [OF c(2)]) auto
  have g: "GetPrimaryAccountInfo p (w\<lparr>browser_state_info_cache := Some c\<rparr>) = ?a p"
    by (simp add: GetPrimaryAccountInfo_def)
  show ?thesis
  proof (cases "DirName P p = U")
    case False
    with c(1) d assms(4) info_cache_ok_outside [OF m False] show ?thesis
      by (intro exI [of _ c]) (simp add: AddBrowserStateToCache_def)
  next
    case True
    then obtain k where k: "GetIndexOfBrowserStateWithPath P p c = Some k"
      using index_of_path [OF i, of P p] d by (cases "AsciiBaseName P p \<in> dom (info_prefs c)") auto
    have "\<exists>c'. (if k \<noteq> - 1 then SetAuthInfoOfBrowserStateAtIndex (nat k) (fst (?a p)) (snd (?a p)) c
        else AddBrowserState P p (fst (?a p)) (snd (?a p)) c) = Some c' \<and> info_cache_ok P U (insert p L) (insert p T) ?a c'"
      using SetAuthInfo_ok [OF m assms(2,3) True k] AddBrowserState_ok [OF m assms(2,3) True] k by auto
    then show ?thesis
      using c(1) d assms(4) True k g
      by (auto simp: AddBrowserStateToCache_def split_beta simp del: if_not_P if_P)
  qed
qed

lemma UpdateBrowserStateInfo_ready:
  assumes "cache_ready P U L (T - {p}) w" "one_entry_each P A U" "T \<union> {p} \<subseteq> A"
  shows "\<exists>c. UpdateBrowserStateInfo P p w = Some (w\<lparr>browser_state_info_cache := Some c\<rparr>) \<and>
    info_cache_ok P U L (insert p T) (\<lambda>p. GetPrimaryAccountInfo p w) c"
proof -
  let ?a = "\<lambda>p. GetPrimaryAccountInfo p w"
  from GetBrowserStateInfoCache_ready [OF assms(1)] obtain c where
    c: "GetBrowserStateInfoCache w = Some (c, w\<lparr>browser_state_info_cache := Some c\<rparr>)" "info_cache_ok P U L (T - {p}) ?a c"
    by blast
  then have d: "user_data_dir c = U" and i: "info_inv c" by (auto simp: info_cache_ok_def)
  show ?thesis
  proof (cases "DirName P p = U \<and> AsciiBaseName P p \<in> dom (info_prefs c)")
    case False
    then have "GetIndexOfBrowserStateWithPath P p c = Some (- 1)"
      using index_of_path(2) [OF i, of P p] d by (auto simp: GetIndexOfBrowserStateWithPath_def)
    moreover have "info_cache_ok P U L (insert p T) ?a c"
      using False info_cache_ok_absent [OF c(2)] info_cache_ok_outside [OF c(2)] by (blast intro: info_cache_ok_mono)
    ultimately show ?thesis using c(1) by (intro exI [of _ c]) (simp add: UpdateBrowserStateInfo_def)
  next
    case True
    then obtain k where k: "GetIndexOfBrowserStateWithPath P p c = Some (int k)"
      using index_of_path(1) [OF i, of P p] d by auto
    from SetAuthInfo_ok [OF c(2) assms(2,3) _ k] True obtain c' where
      c': "SetAuthInfoOfBrowserStateAtIndex k (fst (?a p)) (snd (?a p)) c = Some c'"
        "info_cache_ok P U (insert p L) (insert p T) ?a c'" by auto
    then have "UpdateBrowserStateInfo P p w = Some (w\<lparr>browser_state_info_cache := Some c'\<rparr>)"
      using c(1) k by (auto simp: UpdateBrowserStateInfo_def GetPrimaryAccountInfo_def split: option.splits)
    with c'(2) show ?thesis by (blast intro: info_cache_ok_mono)
  qed
qed

lemma OnErrorChanged_ready:
  assumes "cache_ready P U L T w"
  shows "\<exists>c. OnErrorChanged P p w = Some (w\<lparr>browser_state_info_cache := Some c\<rparr>) \<and>
    info_cache_ok P U L T (\<lambda>p. GetPrimaryAccountInfo p w) c"
proof -
  let ?a = "\<lambda>p. GetPrimaryAccountInfo p w"
  from GetBrowserStateInfoCache_ready [OF assms(1)] obtain c where
    c: "GetBrowserStateInfoCache w = Some (c, w\<lparr>browser_state_info_cache := Some c\<rparr>)" "info_cache_ok P U L T ?a c"
    by blast
  then have d: "user_data_dir c = U" and i: "info_inv c" by (auto simp: info_cache_ok_def)
  show ?thesis
  proof (cases "DirName P p = U \<and> AsciiBaseName P p \<in> dom (info_prefs c)")
    case False
    then have "GetIndexOfBrowserStateWithPath P p c = Some (- 1)"
      using index_of_path(2) [OF i, of P p] d by (auto simp: GetIndexOfBrowserStateWithPath_def)
    with c show ?thesis by (intro exI [of _ c]) (simp add: OnErrorChanged_def)
  next
    case True
    then obtain k where k: "GetIndexOfBrowserStateWithPath P p c = Some (int k)" "k < GetNumberOfBrowserStates c"
      "sorted_keys c ! k = AsciiBaseName P p"
      using index_of_path(1) [OF i, of P p] d by auto
    from SetAuthError_entry [OF i k(2), of "signin_error w p"] obtain info info' where
      e: "SetBrowserStateIsAuthErrorAtIndex k (signin_error w p) c =
          Some (c\<lparr>info_prefs := (info_prefs c)(AsciiBaseName P p \<mapsto> info')\<rparr>)"
        "info_prefs c (AsciiBaseName P p) = Some info" "\<forall>a. account_matches a info' = account_matches a info"
      unfolding k(3) by blast
    have "info_inv (c\<lparr>info_prefs := (info_prefs c)(AsciiBaseName P p \<mapsto> info')\<rparr>)"
      using True by (intro entry_keeps_inv [OF i]) simp
    then have "info_cache_ok P U L T ?a (c\<lparr>info_prefs := (info_prefs c)(AsciiBaseName P p \<mapsto> info')\<rparr>)"
      using c(2) e(2) e(3) unfolding info_cache_ok_def by (simp del: split_paired_All)
    with c(1) k(1) e(1) show ?thesis
      by (intro exI [of _ "c\<lparr>info_prefs := (info_prefs c)(AsciiBaseName P p \<mapsto> info')\<rparr>"])
        (simp add: OnErrorChanged_def)
  qed
qed

text \<open>The counts that are logged: no index is out of range, and every sum is exact.\<close>

lemma count_states_exact:
  assumes "info_inv c" "\<forall>i \<in> set l. i < GetNumberOfBrowserStates c"
  shows "count_states l c n = Some (n\<lparr>
     signedin := signedin n + length (filter (\<lambda>i. BrowserStateIsAuthenticatedAtIndex i c = Some True) l),
     auth_errors := auth_errors n + length (filter (\<lambda>i. BrowserStateIsAuthenticatedAtIndex i c = Some True \<and>
        BrowserStateIsAuthErrorAtIndex i c = Some True) l)\<rparr>)"
  using assms(2)
proof (induction l arbitrary: n)
  case (Cons i l)
  then obtain info where "GetInfoForBrowserStateAtIndex i c = Some info" using info_at [OF assms(1)] by force
  then obtain a e where "BrowserStateIsAuthenticatedAtIndex i c = Some a" "BrowserStateIsAuthErrorAtIndex i c = Some e"
    by (simp add: BrowserStateIsAuthenticatedAtIndex_def BrowserStateIsAuthErrorAtIndex_def
        GetGAIAIdOfBrowserStateAtIndex_def GetUserNameOfBrowserStateAtIndex_def)
  with Cons show ?case by simp
qed simp

definition counts_of :: "info_cache \<Rightarrow> profile_counts" where
  "counts_of c =
     (let is = [0..<GetNumberOfBrowserStates c]; auth = (\<lambda>i. BrowserStateIsAuthenticatedAtIndex i c = Some True) in
      \<lparr>counts_total = length is, signedin = length (filter auth is),
       auth_errors = length (filter (\<lambda>i. auth i \<and> BrowserStateIsAuthErrorAtIndex i c = Some True) is)\<rparr>)"

lemma LogNumberOfBrowserStates_exact:
  assumes "browser_state_info_cache w = Some c" "info_inv c"
  shows "LogNumberOfBrowserStates w = Some (w\<lparr>counts_logged := counts_logged w @ [counts_of c]\<rparr>)"
  using assms count_states_exact [OF assms(2), of "[0..<GetNumberOfBrowserStates c]"]
  by (cases "GetNumberOfBrowserStates c = 0")
    (simp_all add: LogNumberOfBrowserStates_def CountBrowserStateInformation_def GetBrowserStateInfoCache_def
      counts_of_def Let_def)

section \<open>The invariant of the process\<close>

definition bs_inv :: "path_lib \<Rightarrow> file_path set \<Rightarrow> file_path \<Rightarrow> bs_manager \<Rightarrow> bool" where
  "bs_inv P A U w \<longleftrightarrow> one_entry_each P A U \<and>
     cache_ready P U (fst ` set (browser_states w)) (set (updaters w)) w \<and>
     fst ` set (browser_states w) \<union> set (updaters w) \<subseteq> A \<and> distinct (updaters w) \<and>
     sorted_wrt (<) (map fst (browser_states w)) \<and> (\<forall>(p, b) \<in> set (browser_states w). state_path b = p)"

lemma set_map_insert [simp]: "set (map_insert k v m) = insert (k, v) (set m)"
  by (induction m) (auto split: if_splits)

lemma sorted_map_insert:
  "sorted_wrt (<) (map fst m) \<Longrightarrow> k \<notin> fst ` set m \<Longrightarrow> sorted_wrt (<) (map fst (map_insert k v m))"
  by (induction m) (auto simp: not_less_iff_gr_or_eq, metis fst_conv order.strict_trans)

lemma GetPrimaryAccountInfo_cong [simp]:
  "GetPrimaryAccountInfo p (w\<lparr>browser_states := x\<rparr>) = GetPrimaryAccountInfo p w"
  "GetPrimaryAccountInfo p (w\<lparr>browser_state_info_cache := y\<rparr>) = GetPrimaryAccountInfo p w"
  "GetPrimaryAccountInfo p (w\<lparr>service_inits := i\<rparr>) = GetPrimaryAccountInfo p w"
  "GetPrimaryAccountInfo p (w\<lparr>size_tasks := z\<rparr>) = GetPrimaryAccountInfo p w"
  "GetPrimaryAccountInfo p (w\<lparr>counts_logged := n\<rparr>) = GetPrimaryAccountInfo p w"
  "GetPrimaryAccountInfo p (w\<lparr>updaters := t\<rparr>) = GetPrimaryAccountInfo p w"
  "GetPrimaryAccountInfo p (w\<lparr>signin_error := e\<rparr>) = GetPrimaryAccountInfo p w"
  by (simp_all add: GetPrimaryAccountInfo_def)

lemma GetBrowserState_inv:
  assumes "bs_inv P A U w" "path \<in> A"
  shows "\<exists>b w'. GetBrowserState P path w = Some (b, w') \<and> bs_inv P A U w' \<and> (path, b) \<in> set (browser_states w')"
proof (cases "map_of (browser_states w) path")
  case (Some b)
  with assms(1) show ?thesis by (auto simp: GetBrowserState_def dest: map_of_SomeD)
next
  case None
  let ?b = "\<lparr>state_path = path, otr_state = False\<rparr>"
  let ?L = "fst ` set (browser_states w)"
  define w1 where "w1 = DoFinalInitForServices ?b (w\<lparr>browser_states := map_insert path ?b (browser_states w)\<rparr>)"
  have i: "one_entry_each P A U" "cache_ready P U ?L (set (updaters w)) w" "?L \<union> set (updaters w) \<subseteq> A"
    using assms(1) by (auto simp: bs_inv_def)
  then have "cache_ready P U ?L (set (updaters w)) w1"
    by (simp add: w1_def DoFinalInitForServices_def cache_ready_def split: option.splits)
  from AddBrowserStateToCache_ready [OF this i(1), of path ?b] i(3) assms(2) obtain c where
    c: "AddBrowserStateToCache P ?b w1 = Some (w1\<lparr>browser_state_info_cache := Some c\<rparr>)"
      "info_cache_ok P U (insert path ?L) (insert path (set (updaters w))) (\<lambda>p. GetPrimaryAccountInfo p w1) c" by auto
  let ?w = "w1\<lparr>browser_state_info_cache := Some c, size_tasks := size_tasks w1 @ [path],
      counts_logged := counts_logged w1 @ [counts_of c]\<rparr>"
  have "GetBrowserState P path w = Some (?b, ?w)"
    using None c LogNumberOfBrowserStates_exact [of _ c]
    by (simp add: GetBrowserState_def DoFinalInit_def w1_def [symmetric] info_cache_ok_def)
  moreover have "path \<notin> ?L" using None by (simp add: map_of_eq_None_iff)
  then have "bs_inv P A U ?w"
    using assms i c(2) info_cache_ok_mono [OF c(2), of "insert path ?L" "set (updaters w)"]
    by (auto simp: bs_inv_def w1_def DoFinalInitForServices_def cache_ready_def sorted_map_insert)
  moreover have "(path, ?b) \<in> set (browser_states ?w)" by (simp add: w1_def DoFinalInitForServices_def)
  ultimately show ?thesis by blast
qed

text \<open>One function writes the cache, and all else that the invariant is about stays.\<close>

lemma bs_inv_cache:
  assumes "one_entry_each P A U" "user_data_path w = Some U" "fst ` set (browser_states w) \<union> set (updaters w) \<subseteq> A"
    "distinct (updaters w)" "sorted_wrt (<) (map fst (browser_states w))"
    "\<forall>(p, b) \<in> set (browser_states w). state_path b = p"
    "info_cache_ok P U (fst ` set (browser_states w)) (set (updaters w)) (\<lambda>p. GetPrimaryAccountInfo p w) c"
  shows "bs_inv P A U (w\<lparr>browser_state_info_cache := Some c\<rparr>)"
  using assms by (simp add: bs_inv_def cache_ready_def)

lemma new_updater_inv:
  assumes "bs_inv P A U w" "p \<in> A" "p \<notin> set (updaters w)"
  shows "\<exists>w'. new_SigninBrowserStateInfoUpdater P p w = Some w' \<and> bs_inv P A U w'"
proof -
  let ?w = "w\<lparr>updaters := updaters w @ [p]\<rparr>" and ?L = "fst ` set (browser_states w)"
  have "cache_ready P U ?L (set (updaters w) - {p}) ?w"
    using assms(1,3) by (auto simp: bs_inv_def cache_ready_def split: option.splits)
  from UpdateBrowserStateInfo_ready [OF this, of A] assms obtain c where
    c: "UpdateBrowserStateInfo P p ?w = Some (?w\<lparr>browser_state_info_cache := Some c\<rparr>)"
      "info_cache_ok P U ?L (insert p (set (updaters w))) (\<lambda>p. GetPrimaryAccountInfo p ?w) c"
    by (auto simp: bs_inv_def)
  have "bs_inv P A U (?w\<lparr>browser_state_info_cache := Some c\<rparr>)"
    by (rule bs_inv_cache) (use assms c(2) in \<open>auto simp: bs_inv_def cache_ready_def\<close>)
  with c(1) show ?thesis by (simp add: new_SigninBrowserStateInfoUpdater_def)
qed

lemma account_changed_inv:
  assumes "bs_inv P A U w" "p \<in> A"
  shows "\<exists>w'. bs_step P (PrimaryAccountChanged p a) w = Some w' \<and> bs_inv P A U w'"
proof -
  let ?w = "w\<lparr>primary_account := (primary_account w)(p := a)\<rparr>" and ?L = "fst ` set (browser_states w)"
  have r: "cache_ready P U ?L (set (updaters w) - {p}) ?w"
    using assms(1)
    by (auto simp: bs_inv_def cache_ready_def info_cache_ok_def GetPrimaryAccountInfo_def split: option.splits)
  show ?thesis
  proof (cases "p \<in> set (updaters w)")
    case True
    from UpdateBrowserStateInfo_ready [OF r, of A] assms True obtain c where
      c: "UpdateBrowserStateInfo P p ?w = Some (?w\<lparr>browser_state_info_cache := Some c\<rparr>)"
        "info_cache_ok P U ?L (set (updaters w)) (\<lambda>p. GetPrimaryAccountInfo p ?w) c"
      by (auto simp: bs_inv_def insert_absorb)
    have "bs_inv P A U (?w\<lparr>browser_state_info_cache := Some c\<rparr>)"
      by (rule bs_inv_cache) (use assms c(2) in \<open>auto simp: bs_inv_def cache_ready_def\<close>)
    with c(1) True show ?thesis by (simp add: OnPrimaryAccountChanged_def Let_def)
  next
    case False
    with r assms(1) have "bs_inv P A U ?w" by (simp add: bs_inv_def)
    with False show ?thesis by (simp add: Let_def)
  qed
qed

lemma error_changed_inv:
  assumes "bs_inv P A U w"
  shows "\<exists>w'. bs_step P (SigninErrorChanged p e) w = Some w' \<and> bs_inv P A U w'"
proof -
  let ?w = "w\<lparr>signin_error := (signin_error w)(p := e)\<rparr>" and ?L = "fst ` set (browser_states w)"
  have r: "cache_ready P U ?L (set (updaters w)) ?w"
    using assms(1) by (auto simp: bs_inv_def cache_ready_def split: option.splits)
  from OnErrorChanged_ready [OF this, of p] obtain c where
    c: "OnErrorChanged P p ?w = Some (?w\<lparr>browser_state_info_cache := Some c\<rparr>)"
      "info_cache_ok P U ?L (set (updaters w)) (\<lambda>p. GetPrimaryAccountInfo p ?w) c" by blast
  have "bs_inv P A U (?w\<lparr>browser_state_info_cache := Some c\<rparr>)"
    by (rule bs_inv_cache) (use assms c(2) in \<open>auto simp: bs_inv_def cache_ready_def\<close>)
  moreover have "bs_inv P A U ?w" using r assms by (simp add: bs_inv_def)
  ultimately show ?thesis using c(1) by (cases "p \<in> set (updaters w)") (simp_all add: Let_def)
qed

lemma update_loaded_inv:
  assumes "bs_inv P A U w" "\<And>b. state_path (f b) = state_path b"
  shows "bs_inv P A U (update_loaded p f w)"
proof -
  have k: "map fst (browser_states (update_loaded p f w)) = map fst (browser_states w)"
    by (auto simp: update_loaded_def)
  then have s: "fst ` set (browser_states (update_loaded p f w)) = fst ` set (browser_states w)" by (metis image_set)
  have "cache_ready P U (fst ` set (browser_states w)) (set (updaters w)) (update_loaded p f w)"
    using assms(1) by (auto simp: bs_inv_def update_loaded_def cache_ready_def split: option.splits)
  moreover have "\<forall>(q, b) \<in> set (browser_states (update_loaded p f w)). state_path b = q"
    using assms by (auto simp: bs_inv_def update_loaded_def)
  moreover have "updaters (update_loaded p f w) = updaters w" by (simp add: update_loaded_def)
  ultimately show ?thesis using assms(1) unfolding bs_inv_def k s by simp
qed

lemma bs_step_inv:
  assumes "bs_inv P A U w" "bs_allowed P A e w"
  shows "\<exists>w'. bs_step P e w = Some w' \<and> bs_inv P A U w'"
proof (cases e)
  case (LoadState p)
  with assms GetBrowserState_inv [OF assms(1), of p] show ?thesis by (auto simp: bs_allowed_def)
next
  case LoadLastUsed
  then have "user_data_path w = Some U" "GetLastUsedBrowserStateDir P U w \<in> A"
    using assms by (auto simp: bs_allowed_def bs_inv_def cache_ready_def)
  with LoadLastUsed GetBrowserState_inv [OF assms(1)] show ?thesis
    by (force simp: GetLastUsedBrowserState_def GetUserDataDir_def)
next
  case (OpenIncognito p)
  with assms(1) show ?thesis by (simp add: update_loaded_inv GetOffTheRecordChromeBrowserState_def)
next
  case (CloseIncognito p)
  with assms(1) show ?thesis by (simp add: update_loaded_inv DestroyOffTheRecordChromeBrowserState_def)
next
  case (NewUpdater p)
  then show ?thesis using assms new_updater_inv by (auto simp: bs_allowed_def)
next
  case (ShutdownUpdater p)
  have "cache_ready P U (fst ` set (browser_states w)) (set (updaters w) - {p}) w"
    using assms(1) by (auto simp: bs_inv_def cache_ready_def split: option.splits elim: info_cache_ok_mono)
  with ShutdownUpdater assms(1) show ?thesis
    by (auto simp: bs_inv_def updater_Shutdown_def cache_ready_def split: option.splits)
next
  case (PrimaryAccountChanged p a)
  then show ?thesis using assms account_changed_inv by (simp add: bs_allowed_def)
next
  case (SigninErrorChanged p b)
  then show ?thesis using assms error_changed_inv by simp
qed

interpretation browser_state_process: event_machine "bs_allowed P A" "bs_step P" "bs_inv P A U" for P A U
  by unfold_locales (rule bs_step_inv)

definition new_bs_manager ::
  "file_path \<Rightarrow> string \<Rightarrow> info_pref \<Rightarrow> string list \<Rightarrow> (file_path \<Rightarrow> (string \<times> string) option) \<Rightarrow> (file_path \<Rightarrow> bool) \<Rightarrow> bs_manager" where
  "new_bs_manager U recent prefs keys accounts errors =
     \<lparr>user_data_path = Some U, last_used = recent, local_info = prefs, local_keys = keys, browser_states = [],
      browser_state_info_cache = None, primary_account = accounts, signin_error = errors, updaters = [],
      service_inits = [], size_tasks = [], counts_logged = []\<rparr>"

text \<open>
  C37. Whatever is loaded, however accounts and errors change and updaters come and go, nothing fails; a
  loaded browser state below the user data directory has its entry, once; and while its updater lives
  the entry shows the account that is signed in.
\<close>

theorem entries_follow_accounts:
  assumes "distinct keys" "set keys = dom prefs" "one_entry_each P A U"
    "allowed_run (bs_allowed P A) (bs_step P) es (new_bs_manager U recent prefs keys accounts errors)"
  shows "\<exists>w. run_events (bs_step P) es (new_bs_manager U recent prefs keys accounts errors) = Some w \<and>
    distinct (map state_path (GetLoadedBrowserStates w)) \<and>
    (\<forall>b \<in> set (GetLoadedBrowserStates w). DirName P (state_path b) = U \<longrightarrow>
      (\<exists>c i. browser_state_info_cache w = Some c \<and> distinct (sorted_keys c) \<and>
        GetIndexOfBrowserStateWithPath P (state_path b) c = Some (int i) \<and>
        (state_path b \<in> set (updaters w) \<longrightarrow>
          GetGAIAIdOfBrowserStateAtIndex i c = Some (fst (GetPrimaryAccountInfo (state_path b) w)) \<and>
          GetUserNameOfBrowserStateAtIndex i c = Some (snd (GetPrimaryAccountInfo (state_path b) w)))))"
proof -
  have "bs_inv P A U (new_bs_manager U recent prefs keys accounts errors)"
    using assms(1-3) by (simp add: bs_inv_def new_bs_manager_def cache_ready_def)
  from browser_state_process.run_ok [OF this assms(4)] obtain w where
    w: "run_events (bs_step P) es (new_bs_manager U recent prefs keys accounts errors) = Some w" "bs_inv P A U w" by blast
  have paths: "map state_path (GetLoadedBrowserStates w) = map fst (browser_states w)"
    using w(2) by (auto simp: bs_inv_def GetLoadedBrowserStates_def)
  have "\<exists>c i. browser_state_info_cache w = Some c \<and> distinct (sorted_keys c) \<and>
      GetIndexOfBrowserStateWithPath P p c = Some (int i) \<and> (p \<in> set (updaters w) \<longrightarrow>
        GetGAIAIdOfBrowserStateAtIndex i c = Some (fst (GetPrimaryAccountInfo p w)) \<and>
        GetUserNameOfBrowserStateAtIndex i c = Some (snd (GetPrimaryAccountInfo p w)))"
    if p: "p \<in> set (map fst (browser_states w))" "DirName P p = U" for p
  proof -
    obtain c where c: "browser_state_info_cache w = Some c"
      "info_cache_ok P U (fst ` set (browser_states w)) (set (updaters w)) (\<lambda>p. GetPrimaryAccountInfo p w) c"
      using w(2) p(1) by (cases "browser_state_info_cache w") (auto simp: bs_inv_def cache_ready_def)
    then have k: "info_inv c" "user_data_dir c = U" "AsciiBaseName P p \<in> dom (info_prefs c)"
      using p by (auto simp: info_cache_ok_def)
    from index_of_path(1) [OF k(1) _ k(3)] p(2) k(2) obtain i where
      i: "GetIndexOfBrowserStateWithPath P p c = Some (int i)" "i < GetNumberOfBrowserStates c"
        "sorted_keys c ! i = AsciiBaseName P p" by auto
    from info_at [OF k(1) i(2)] obtain info where
      "info_prefs c (AsciiBaseName P p) = Some info" "GetInfoForBrowserStateAtIndex i c = Some info"
      unfolding i(3) by blast
    with c i(1) k(1) p(2) show ?thesis
      by (intro exI [of _ c] exI [of _ i])
        (auto simp: info_cache_ok_def account_matches_def GetGAIAIdOfBrowserStateAtIndex_def
          GetUserNameOfBrowserStateAtIndex_def info_inv_def)
  qed
  moreover have "distinct (map fst (browser_states w))"
    using w(2) by (auto simp: bs_inv_def strict_sorted_iff)
  ultimately show ?thesis using w(1) paths by (metis (no_types, lifting) imageI image_set)
qed

definition demo_path_lib :: path_lib where
  "demo_path_lib = \<lparr>DirName = (\<lambda>_. ''data''), AsciiBaseName = (\<lambda>p. p), AppendASCII = (\<lambda>d n. n),
     RemovePath = (\<lambda>k m. m(k := None))\<rparr>"

theorem entries_follow_accounts_witness:
  "\<exists>w. run_events (bs_step demo_path_lib)
      [LoadLastUsed, NewUpdater ''Default'', PrimaryAccountChanged ''Default'' (Some (''id'', ''name''))]
      (new_bs_manager ''data'' [] Map.empty [] (\<lambda>_. None) (\<lambda>_. False)) = Some w \<and>
    map state_path (GetLoadedBrowserStates w) = [''Default''] \<and>
    (\<exists>c i. browser_state_info_cache w = Some c \<and> GetGAIAIdOfBrowserStateAtIndex i c = Some ''id'')"
proof -
  let ?es = "[LoadLastUsed, NewUpdater ''Default'', PrimaryAccountChanged ''Default'' (Some (''id'', ''name''))]"
  let ?w = "new_bs_manager ''data'' [] Map.empty [] (\<lambda>_. None) (\<lambda>_. False)"
  have "bs_allowed demo_path_lib UNIV e w" for e w by (cases e) (simp_all add: bs_allowed_def)
  then have allowed: "allowed_run (bs_allowed demo_path_lib UNIV) (bs_step demo_path_lib) ?es ?w" by (rule allowed_run_always)
  have "one_entry_each demo_path_lib UNIV ''data''" by (simp add: one_entry_each_def demo_path_lib_def)
  from entries_follow_accounts [OF _ _ this allowed] obtain w where
    w: "run_events (bs_step demo_path_lib) ?es ?w = Some w"
    "\<forall>b \<in> set (GetLoadedBrowserStates w). DirName demo_path_lib (state_path b) = ''data'' \<longrightarrow>
      (\<exists>c i. browser_state_info_cache w = Some c \<and> (state_path b \<in> set (updaters w) \<longrightarrow>
        GetGAIAIdOfBrowserStateAtIndex i c = Some (fst (GetPrimaryAccountInfo (state_path b) w))))" by fastforce
  have "map_option (\<lambda>w. (map state_path (GetLoadedBrowserStates w), updaters w, primary_account w ''Default''))
      (run_events (bs_step demo_path_lib) ?es ?w) = Some ([''Default''], [''Default''], Some (''id'', ''name''))"
    by code_simp
  then have "map state_path (GetLoadedBrowserStates w) = [''Default'']" "updaters w = [''Default'']"
    "GetPrimaryAccountInfo ''Default'' w = (''id'', ''name'')"
    using w(1) by (auto simp: GetPrimaryAccountInfo_def)
  moreover from this(1) obtain b where "GetLoadedBrowserStates w = [b]" "state_path b = ''Default''" by auto
  ultimately show ?thesis using w by (force simp: demo_path_lib_def)
qed

text \<open>What is logged: nobody is counted twice, and errors only of those who are signed in.\<close>

lemma counts_of_bounds: "auth_errors (counts_of c) \<le> signedin (counts_of c)" "signedin (counts_of c) \<le> counts_total (counts_of c)"
proof -
  have "length (filter (\<lambda>i. a i \<and> e i) l) \<le> length (filter a l)" for a e and l :: "nat list"
    by (induction l) auto
  then show "auth_errors (counts_of c) \<le> signedin (counts_of c)" by (simp add: counts_of_def Let_def)
  show "signedin (counts_of c) \<le> counts_total (counts_of c)"
    unfolding counts_of_def Let_def by (simp add: order.trans [OF length_filter_le])
qed

end
