(* ===== verification/Url_Data_Manager.thy ===== *)
theory Url_Data_Manager
  imports Web_Thread Event_Machine "HOL-Library.AList"
begin

text \<open>
  \<open>web/webui/url_data_manager_ios.cc\<close> with \<open>AddDataSource\<close> and the destructor of
  \<open>url_data_manager_ios_backend.mm\<close> and \<open>url_data_source_ios_impl.cc\<close>: the sources of internal pages are
  added on the UI thread, registered on the IO thread, shared by reference counts, and deleted on the
  UI thread once nobody refers to them. A source is a number; its name and whether it replaces an
  older source of that name are arguments. The list of sources to delete is protected by a lock. A
  thread whose release was the last one (\<open>releasing\<close>) takes the lock in a step of its own, and posts the
  task for the UI thread (\<open>posting\<close>) in another one, so that other threads may step in between.
\<close>

section \<open>State\<close>

record source_lib =
  source_name :: "nat \<Rightarrow> string"
  ShouldReplaceExistingSource :: "nat \<Rightarrow> bool"

record url_data =
  data_sources :: "nat list option"
  releasing :: "nat list"
  posting :: nat
  ui_tasks :: nat
  io_tasks :: "nat list"
  backend_sources :: "(string \<times> nat) list"
  source_backend :: "nat set"
  source_refs :: "nat \<Rightarrow> nat"
  deleted_sources :: "nat list"
  io_responses :: "(nat \<times> int) list"
  delivered :: "(nat \<times> int) list"

definition new_url_data :: url_data where
  "new_url_data = \<lparr>data_sources = None, releasing = [], posting = 0, ui_tasks = 0, io_tasks = [], backend_sources = [],
     source_backend = {}, source_refs = (\<lambda>_. 0), deleted_sources = [], io_responses = [], delivered = []\<rparr>"

section \<open>Operations\<close>

text \<open>
  \<open>DeleteDataSource\<close>: on the UI thread the source is deleted; elsewhere it is put on the list with the
  lock held, and the thread that found the list empty posts the task afterwards (\<open>posting\<close>).
\<close>

definition DeleteDataSource :: "web_thread_id \<Rightarrow> nat \<Rightarrow> url_data \<Rightarrow> url_data" where
  "DeleteDataSource current data_source d =
     (if current = UI then d\<lparr>deleted_sources := deleted_sources d @ [data_source]\<rparr>
      else let sources = (case data_sources d of None \<Rightarrow> [] | Some l \<Rightarrow> l);
               schedule_delete = (sources = [])
           in d\<lparr>data_sources := Some (sources @ [data_source]),
                posting := posting d + (if schedule_delete then 1 else 0)\<rparr>)"

text \<open>The task that a thread posts after it released the lock.\<close>

definition post_deletion :: "url_data \<Rightarrow> url_data option" where
  "post_deletion d = do {
     check (posting d > 0);
     Some (d\<lparr>posting := posting d - 1, ui_tasks := ui_tasks d + 1\<rparr>) }"

definition DeleteDataSources :: "url_data \<Rightarrow> url_data" where
  "DeleteDataSources d =
     (case data_sources d of
        None \<Rightarrow> d
      | Some sources \<Rightarrow> d\<lparr>data_sources := Some [], deleted_sources := deleted_sources d @ sources\<rparr>)"

definition IsScheduledForDeletion :: "nat \<Rightarrow> url_data \<Rightarrow> bool" where
  "IsScheduledForDeletion data_source d \<longleftrightarrow>
     (case data_sources d of None \<Rightarrow> False | Some sources \<Rightarrow> data_source \<in> set sources)"

text \<open>\<open>scoped_refptr\<close>: the last release calls \<open>DeleteDataSource\<close>, in a later step when not on the UI thread.\<close>

definition AddRef :: "nat \<Rightarrow> url_data \<Rightarrow> url_data" where
  "AddRef s d = d\<lparr>source_refs := (source_refs d)(s := source_refs d s + 1)\<rparr>"

definition Release :: "web_thread_id \<Rightarrow> nat \<Rightarrow> url_data \<Rightarrow> url_data option" where
  "Release current s d = do {
     check (source_refs d s > 0);
     let d = d\<lparr>source_refs := (source_refs d)(s := source_refs d s - 1)\<rparr>;
     Some (if source_refs d s \<noteq> 0 then d
           else if current = UI then DeleteDataSource current s d
           else d\<lparr>releasing := releasing d @ [s]\<rparr>) }"

definition AddDataSource :: "nat \<Rightarrow> url_data \<Rightarrow> url_data" where
  "AddDataSource source d = (AddRef source d)\<lparr>io_tasks := io_tasks d @ [source]\<rparr>"

text \<open>\<open>URLDataManagerIOSBackend::AddDataSource\<close>; a replaced source is released by the assignment.\<close>

definition backend_AddDataSource :: "source_lib \<Rightarrow> nat \<Rightarrow> url_data \<Rightarrow> url_data option" where
  "backend_AddDataSource S source d =
     (let name = source_name S source in
      case map_of (backend_sources d) name of
        None \<Rightarrow> Some ((AddRef source d)\<lparr>backend_sources := AList.update name source (backend_sources d),
                  source_backend := insert source (source_backend d)\<rparr>)
      | Some old \<Rightarrow>
          if \<not> ShouldReplaceExistingSource S source then Some d
          else do {
            let d = d\<lparr>source_backend := source_backend d - {old}\<rparr>;
            let d = (AddRef source d)\<lparr>backend_sources := AList.update name source (backend_sources d)\<rparr>;
            d \<leftarrow> Release IO old d;
            Some (d\<lparr>source_backend := insert source (source_backend d)\<rparr>) })"

text \<open>\<open>AddDataSourceOnIOThread\<close>, whose argument is released when the task is gone.\<close>

definition AddDataSourceOnIOThread :: "source_lib \<Rightarrow> nat \<Rightarrow> url_data \<Rightarrow> url_data option" where
  "AddDataSourceOnIOThread S data_source d = do {
     d \<leftarrow> backend_AddDataSource S data_source d;
     Release IO data_source d }"

fun release_all :: "web_thread_id \<Rightarrow> nat list \<Rightarrow> url_data \<Rightarrow> url_data option" where
  "release_all current [] d = Some d"
| "release_all current (s # ss) d = Option.bind (Release current s d) (release_all current ss)"

definition delete_URLDataManagerIOSBackend :: "web_thread_id \<Rightarrow> url_data \<Rightarrow> url_data option" where
  "delete_URLDataManagerIOSBackend current d =
     release_all current (map snd (backend_sources d))
       (d\<lparr>source_backend := source_backend d - set (map snd (backend_sources d)), backend_sources := []\<rparr>)"

text \<open>\<open>GetDataSourceFromURL\<close>, for the host and the scheme of a URL.\<close>

definition GetDataSourceFromURL :: "string \<Rightarrow> string \<Rightarrow> url_data \<Rightarrow> nat option" where
  "GetDataSourceFromURL host scheme d =
     (case map_of (backend_sources d) host of
        Some s \<Rightarrow> Some s
      | None \<Rightarrow> map_of (backend_sources d) (scheme @ ''://''))"

text \<open>\<open>SendResponse\<close> holds a reference until its task has run; a source that is about to go away does not.\<close>

definition SendResponse :: "nat \<Rightarrow> int \<Rightarrow> url_data \<Rightarrow> url_data" where
  "SendResponse source request_id d =
     (if IsScheduledForDeletion source d then d
      else (AddRef source d)\<lparr>io_responses := io_responses d @ [(source, request_id)]\<rparr>)"

definition SendResponseOnIOThread :: "nat \<Rightarrow> int \<Rightarrow> url_data \<Rightarrow> url_data option" where
  "SendResponseOnIOThread source request_id d =
     Release IO source
       (if source \<in> source_backend d then d\<lparr>delivered := delivered d @ [(source, request_id)]\<rparr> else d)"

section \<open>Interleavings\<close>

datatype ud_event =
    UI_AddDataSource nat | IO_RunAdd | IO_Delete | Any_Post | UI_RunDeletion | UI_DeleteDataSources
  | DestroyBackend web_thread_id | UI_SendResponse nat int | IO_RunResponse

fun ud_step :: "source_lib \<Rightarrow> ud_event \<Rightarrow> url_data \<Rightarrow> url_data option" where
  "ud_step S (UI_AddDataSource s) d = Some (AddDataSource s d)"
| "ud_step S IO_RunAdd d =
     (case io_tasks d of [] \<Rightarrow> Some d | s # rest \<Rightarrow> AddDataSourceOnIOThread S s (d\<lparr>io_tasks := rest\<rparr>))"
| "ud_step S IO_Delete d =
     (case releasing d of [] \<Rightarrow> Some d | s # rest \<Rightarrow> Some (DeleteDataSource IO s (d\<lparr>releasing := rest\<rparr>)))"
| "ud_step S Any_Post d = (if posting d = 0 then Some d else post_deletion d)"
| "ud_step S UI_RunDeletion d =
     (if ui_tasks d = 0 then Some d else Some (DeleteDataSources (d\<lparr>ui_tasks := ui_tasks d - 1\<rparr>)))"
| "ud_step S UI_DeleteDataSources d = Some (DeleteDataSources d)"
| "ud_step S (DestroyBackend t) d = delete_URLDataManagerIOSBackend t d"
| "ud_step S (UI_SendResponse s r) d = Some (SendResponse s r d)"
| "ud_step S IO_RunResponse d =
     (case io_responses d of
        [] \<Rightarrow> Some d | (s, r) # rest \<Rightarrow> SendResponseOnIOThread s r (d\<lparr>io_responses := rest\<rparr>))"

text \<open>
  What the environment does: a source that is gone is not added again, a thread finishes its releases
  before its next task, and a response comes from a source that has not been deleted: one that is referenced,
  one that is scheduled for deletion, or one whose last reference has just been released. The last is a race
  that \<open>ud_raceless\<close> leaves out.
\<close>

definition waiting :: "url_data \<Rightarrow> nat list" where
  "waiting d = (case data_sources d of None \<Rightarrow> [] | Some l \<Rightarrow> l)"

definition gone :: "url_data \<Rightarrow> nat list" where
  "gone d = releasing d @ waiting d @ deleted_sources d"

definition ud_raceless :: "ud_event \<Rightarrow> url_data \<Rightarrow> bool" where
  "ud_raceless e d =
     (case e of
        UI_AddDataSource s \<Rightarrow> s \<notin> set (gone d)
      | UI_SendResponse s r \<Rightarrow> source_refs d s > 0 \<or> IsScheduledForDeletion s d
      | IO_RunAdd \<Rightarrow> releasing d = [] | IO_RunResponse \<Rightarrow> releasing d = []
      | DestroyBackend t \<Rightarrow> releasing d = []
      | _ \<Rightarrow> True)"

definition ud_allowed :: "ud_event \<Rightarrow> url_data \<Rightarrow> bool" where
  "ud_allowed e d \<longleftrightarrow> ud_raceless e d \<or> (\<exists>s \<in> set (releasing d). \<exists>r. e = UI_SendResponse s r)"

section \<open>The invariant\<close>

definition held :: "url_data \<Rightarrow> nat \<Rightarrow> nat" where
  "held d s = count_list (io_tasks d) s + count_list (map snd (backend_sources d)) s +
     count_list (map fst (io_responses d)) s"

text \<open>With references \<open>ex\<close> that are held by a function that is running.\<close>

definition ud_inv_with :: "(nat \<Rightarrow> nat) \<Rightarrow> url_data \<Rightarrow> bool" where
  "ud_inv_with ex d \<longleftrightarrow>
     (\<forall>s. source_refs d s = held d s + ex s) \<and> distinct (gone d) \<and> (\<forall>s \<in> set (gone d). source_refs d s = 0) \<and>
     (waiting d \<noteq> [] \<longrightarrow> posting d + ui_tasks d > 0) \<and> distinct (map fst (backend_sources d))"

definition ud_inv :: "url_data \<Rightarrow> bool" where
  "ud_inv d = ud_inv_with (\<lambda>_. 0) d"

text \<open>Only the references of the sources change, or who holds them.\<close>

lemma ud_inv_with_refs:
  assumes "ud_inv_with ex d" "gone d' = gone d" "waiting d' = waiting d"
    "posting d' = posting d" "ui_tasks d' = ui_tasks d" "distinct (map fst (backend_sources d'))"
    "\<And>x. x \<in> set (gone d) \<Longrightarrow> source_refs d' x = source_refs d x"
    "\<And>x. source_refs d x = held d x + ex x \<Longrightarrow> source_refs d' x = held d' x + ex' x"
  shows "ud_inv_with ex' d'"
proof -
  have "source_refs d' x = held d' x + ex' x" for x
    using assms(1) by (intro assms(8)) (simp add: ud_inv_with_def)
  moreover have "source_refs d' x = 0" if "x \<in> set (gone d)" for x
    using assms(1) assms(7) [OF that] that unfolding ud_inv_with_def by metis
  ultimately show ?thesis using assms(1-6) by (simp add: ud_inv_with_def)
qed

text \<open>A source without references goes.\<close>

lemma ud_inv_with_gone:
  assumes "ud_inv_with ex d" "s \<notin> set (gone d)" "source_refs d s = 0"
    "set (gone d') = insert s (set (gone d))" "distinct (gone d) \<Longrightarrow> distinct (gone d')"
    "source_refs d' = source_refs d" "held d' = held d" "backend_sources d' = backend_sources d"
    "(waiting d \<noteq> [] \<longrightarrow> posting d + ui_tasks d > 0) \<Longrightarrow> waiting d' \<noteq> [] \<longrightarrow> posting d' + ui_tasks d' > 0"
  shows "ud_inv_with ex d'"
  using assms unfolding ud_inv_with_def by (metis insertE)

lemma ud_inv_keys: "ud_inv_with ex d \<Longrightarrow> distinct (map fst (backend_sources d))"
  by (simp add: ud_inv_with_def)

lemmas ud_state_defs = held_def gone_def waiting_def AddRef_def

lemma AddRef_inv:
  assumes "ud_inv_with ex d" "s \<notin> set (gone d)"
  shows "ud_inv_with (ex(s := ex s + 1)) (AddRef s d)"
  by (rule ud_inv_with_refs [OF assms(1)]) (use assms(2) ud_inv_keys [OF assms(1)] in \<open>auto simp: ud_state_defs\<close>)

lemma DeleteDataSource_inv:
  assumes "ud_inv_with ex d" "s \<notin> set (gone d)" "source_refs d s = 0"
  shows "ud_inv_with ex (DeleteDataSource t s d)"
  by (rule ud_inv_with_gone [OF assms])
    (use assms(1,2) in \<open>auto simp: DeleteDataSource_def held_def gone_def waiting_def ud_inv_with_def Let_def
      split: option.splits\<close>)

lemma Release_inv:
  assumes "ud_inv_with (ex(s := ex s + 1)) d"
  shows "\<exists>d'. Release t s d = Some d' \<and> ud_inv_with ex d'"
proof -
  let ?d = "d\<lparr>source_refs := (source_refs d)(s := source_refs d s - 1)\<rparr>"
  have r: "source_refs d s = held d s + ex s + 1" and n: "s \<notin> set (gone d)"
    using assms by (auto simp: ud_inv_with_def)
  have g: "gone ?d = gone d" by (simp add: gone_def waiting_def)
  have i: "ud_inv_with ex ?d" "s \<notin> set (gone ?d)"
  proof (rule ud_inv_with_refs [OF assms g])
    show "distinct (map fst (backend_sources ?d))" using assms by (simp add: ud_inv_with_def)
    show "source_refs ?d x = source_refs d x" if "x \<in> set (gone d)" for x using that n by auto
    show "source_refs ?d x = held ?d x + ex x" if "source_refs d x = held d x + (ex(s := ex s + 1)) x" for x
      using that by (simp add: held_def split: if_splits)
    show "s \<notin> set (gone ?d)" using n g by simp
  qed (simp_all add: waiting_def)
  have "ud_inv_with ex (?d\<lparr>releasing := releasing d @ [s]\<rparr>)" if "source_refs ?d s = 0"
    by (rule ud_inv_with_gone [OF i that]) (use n in \<open>auto simp: held_def gone_def waiting_def\<close>)
  moreover have "ud_inv_with ex (DeleteDataSource t s ?d)" if "source_refs ?d s = 0"
    by (rule DeleteDataSource_inv [OF i that])
  moreover have "Release t s d = Some (if source_refs ?d s \<noteq> 0 then ?d
      else if t = UI then DeleteDataSource t s ?d else ?d\<lparr>releasing := releasing d @ [s]\<rparr>)"
    using r by (simp add: Release_def)
  ultimately show ?thesis using i(1) by (cases "source_refs ?d s = 0"; cases "t = UI") simp_all
qed

lemma release_all_inv:
  assumes "ud_inv_with (count_list ss) d"
  shows "\<exists>d'. release_all t ss d = Some d' \<and> ud_inv_with (\<lambda>_. 0) d'"
  using assms
proof (induction ss arbitrary: d)
  case Nil
  moreover have "count_list [] = (\<lambda>_. 0)" by auto
  ultimately show ?case by simp
next
  case (Cons s ss)
  have "count_list (s # ss) = (count_list ss)(s := count_list ss s + 1)" by auto
  then have "ud_inv_with ((count_list ss)(s := count_list ss s + 1)) d" using Cons.prems by metis
  from Release_inv [OF this, of t] obtain d' where
    "Release t s d = Some d'" "ud_inv_with (count_list ss) d'" by blast
  with Cons.IH show ?case by simp
qed

lemma count_update_new:
  "map_of l k = None \<Longrightarrow> count_list (map snd (AList.update k v l)) s = count_list (map snd l) s + of_bool (s = v)"
  by (induction l) (auto split: if_splits)

lemma count_update_old:
  "map_of l k = Some w \<Longrightarrow>
   count_list (map snd (AList.update k v l)) s + of_bool (s = w) = count_list (map snd l) s + of_bool (s = v)"
  by (induction l) (auto split: if_splits)

lemma held_update:
  "held (d\<lparr>io_tasks := x\<rparr>) s + count_list (io_tasks d) s = held d s + count_list x s"
  "held (d\<lparr>io_responses := r\<rparr>) s + count_list (map fst (io_responses d)) s = held d s + count_list (map fst r) s"
  by (simp_all add: held_def)

lemma backend_AddDataSource_inv:
  assumes "ud_inv_with ex d" "ex s > 0"
  shows "\<exists>d'. backend_AddDataSource S s d = Some d' \<and> ud_inv_with ex d'"
proof -
  let ?n = "source_name S s"
  have n: "s \<notin> set (gone d)" using assms by (auto simp: ud_inv_with_def)
  have dk: "distinct (map fst (AList.update ?n s (backend_sources d)))"
    using assms(1) by (simp add: ud_inv_with_def distinct_update)
  show ?thesis
  proof (cases "map_of (backend_sources d) ?n")
    case None
    have "ud_inv_with ex ((AddRef s d)\<lparr>backend_sources := AList.update ?n s (backend_sources d),
        source_backend := insert s (source_backend d)\<rparr>)"
      using n dk count_update_new [OF None, of s]
      by (intro ud_inv_with_refs [OF assms(1)]) (auto simp: ud_state_defs)
    with None show ?thesis by (simp add: backend_AddDataSource_def)
  next
    case (Some old)
    show ?thesis
    proof (cases "ShouldReplaceExistingSource S s")
      case False
      with Some assms(1) show ?thesis by (simp add: backend_AddDataSource_def)
    next
      case True
      let ?d = "d\<lparr>source_backend := source_backend d - {old}\<rparr>"
      let ?u = "(AddRef s ?d)\<lparr>backend_sources := AList.update ?n s (backend_sources ?d)\<rparr>"
      have c: "count_list (map snd (AList.update ?n s (backend_sources d))) x + of_bool (x = old) =
          count_list (map snd (backend_sources d)) x + of_bool (x = s)" for x
        by (rule count_update_old [OF Some])
      have "ud_inv_with (ex(old := ex old + 1)) ?u"
      proof (rule ud_inv_with_refs [OF assms(1)])
        show "source_refs ?u x = held ?u x + (ex(old := ex old + 1)) x" if "source_refs d x = held d x + ex x" for x
          using that c [of x] by (auto simp: AddRef_def held_def split: if_splits)
      qed (use n dk in \<open>auto simp: AddRef_def gone_def waiting_def\<close>)
      from Release_inv [OF this, of IO] obtain d' where "Release IO old ?u = Some d'" "ud_inv_with ex d'" by blast
      moreover from this have "ud_inv_with ex (d'\<lparr>source_backend := insert s (source_backend d')\<rparr>)"
        by (intro ud_inv_with_refs [OF \<open>ud_inv_with ex d'\<close>]) (auto simp: ud_state_defs dest: ud_inv_keys)
      ultimately show ?thesis using Some True by (simp add: backend_AddDataSource_def Let_def)
    qed
  qed
qed

lemma UI_AddDataSource_inv:
  assumes "ud_inv d" "s \<notin> set (gone d)"
  shows "ud_inv (AddDataSource s d)"
  unfolding ud_inv_def
  by (rule ud_inv_with_refs [OF assms(1) [unfolded ud_inv_def]])
    (use assms(2) ud_inv_keys [OF assms(1) [unfolded ud_inv_def]] in \<open>auto simp: AddDataSource_def ud_state_defs\<close>)

lemma SendResponse_inv:
  assumes "ud_inv d" "source_refs d s > 0 \<or> IsScheduledForDeletion s d"
  shows "ud_inv (SendResponse s r d)"
proof (cases "IsScheduledForDeletion s d")
  case True
  with assms(1) show ?thesis by (simp add: SendResponse_def)
next
  case False
  then have "s \<notin> set (gone d)" using assms by (auto simp: ud_inv_def ud_inv_with_def)
  then show ?thesis
    unfolding ud_inv_def using False ud_inv_keys [OF assms(1) [unfolded ud_inv_def]]
    by (intro ud_inv_with_refs [OF assms(1) [unfolded ud_inv_def]]) (auto simp: SendResponse_def ud_state_defs)
qed

lemma IO_RunAdd_inv:
  assumes "ud_inv d" "io_tasks d = s # rest"
  shows "\<exists>d'. AddDataSourceOnIOThread S s (d\<lparr>io_tasks := rest\<rparr>) = Some d' \<and> ud_inv d'"
proof -
  let ?d = "d\<lparr>io_tasks := rest\<rparr>" and ?ex = "(\<lambda>_. 0)(s := 0 + 1)"
  have "ud_inv_with ?ex ?d"
    using ud_inv_keys [OF assms(1) [unfolded ud_inv_def]] assms(2)
    by (intro ud_inv_with_refs [OF assms(1) [unfolded ud_inv_def]]) (auto simp: ud_state_defs split: if_splits)
  from backend_AddDataSource_inv [OF this, of s S] obtain d1 where
    d1: "backend_AddDataSource S s ?d = Some d1" "ud_inv_with ?ex d1" by auto
  from Release_inv [OF d1(2), of IO] d1(1) show ?thesis by (auto simp: AddDataSourceOnIOThread_def ud_inv_def)
qed

lemma IO_RunResponse_inv:
  assumes "ud_inv d" "io_responses d = (s, r) # rest"
  shows "\<exists>d'. SendResponseOnIOThread s r (d\<lparr>io_responses := rest\<rparr>) = Some d' \<and> ud_inv d'"
proof -
  let ?d = "d\<lparr>io_responses := rest\<rparr>"
  let ?u = "if s \<in> source_backend ?d then ?d\<lparr>delivered := delivered ?d @ [(s, r)]\<rparr> else ?d"
  have "ud_inv_with ((\<lambda>_. 0)(s := 0 + 1)) ?u"
    using ud_inv_keys [OF assms(1) [unfolded ud_inv_def]] assms(2)
    by (intro ud_inv_with_refs [OF assms(1) [unfolded ud_inv_def]]) (auto simp: ud_state_defs split: if_splits)
  from Release_inv [OF this, of IO] show ?thesis by (simp add: SendResponseOnIOThread_def ud_inv_def)
qed

lemma IO_Delete_inv:
  assumes "ud_inv d" "releasing d = s # rest"
  shows "ud_inv (DeleteDataSource IO s (d\<lparr>releasing := rest\<rparr>))"
proof -
  let ?d = "d\<lparr>releasing := rest\<rparr>"
  have "ud_inv_with (\<lambda>_. 0) ?d" "s \<notin> set (gone ?d)" "source_refs ?d s = 0"
    using assms by (auto simp: ud_inv_def ud_inv_with_def held_def gone_def waiting_def)
  from DeleteDataSource_inv [OF this, of IO] show ?thesis by (simp add: ud_inv_def)
qed

lemma delete_URLDataManagerIOSBackend_inv:
  assumes "ud_inv d"
  shows "\<exists>d'. delete_URLDataManagerIOSBackend t d = Some d' \<and> ud_inv d'"
proof -
  let ?d = "d\<lparr>source_backend := source_backend d - set (map snd (backend_sources d)), backend_sources := []\<rparr>"
  have "ud_inv_with (count_list (map snd (backend_sources d))) ?d"
    by (rule ud_inv_with_refs [OF assms [unfolded ud_inv_def]]) (auto simp: ud_state_defs)
  from release_all_inv [OF this, of t] show ?thesis by (simp add: delete_URLDataManagerIOSBackend_def ud_inv_def)
qed

lemma DeleteDataSources_inv: "ud_inv d \<Longrightarrow> ud_inv (DeleteDataSources (d\<lparr>ui_tasks := n\<rparr>))"
  by (auto simp: ud_inv_def ud_inv_with_def DeleteDataSources_def held_def gone_def waiting_def split: option.splits)

lemma post_deletion_inv:
  "ud_inv d \<Longrightarrow> posting d \<noteq> 0 \<Longrightarrow> \<exists>d'. post_deletion d = Some d' \<and> ud_inv d'"
  by (auto simp: ud_inv_def ud_inv_with_def post_deletion_def held_def gone_def waiting_def)

lemma ud_step_inv:
  assumes "ud_inv d" "ud_raceless e d"
  shows "\<exists>d'. ud_step S e d = Some d' \<and> ud_inv d'"
proof (cases e)
  case IO_RunAdd
  then show ?thesis using assms(1) IO_RunAdd_inv by (cases "io_tasks d") auto
next
  case IO_Delete
  then show ?thesis using assms(1) IO_Delete_inv by (cases "releasing d") auto
next
  case IO_RunResponse
  then show ?thesis using assms(1) IO_RunResponse_inv by (cases "io_responses d") auto
next
  case UI_RunDeletion
  then show ?thesis using assms(1) DeleteDataSources_inv by simp
next
  case UI_DeleteDataSources
  then show ?thesis using DeleteDataSources_inv [OF assms(1), of "ui_tasks d"] by simp
qed (use assms UI_AddDataSource_inv SendResponse_inv delete_URLDataManagerIOSBackend_inv post_deletion_inv in
    \<open>auto simp: ud_raceless_def\<close>)

interpretation sources: event_machine ud_raceless "ud_step S" ud_inv for S
  by unfold_locales (rule ud_step_inv)

definition deletions_ok :: "url_data \<Rightarrow> bool" where
  "deletions_ok d \<longleftrightarrow> distinct (deleted_sources d) \<and>
     (\<forall>s \<in> set (deleted_sources d). source_refs d s = 0 \<and> s \<notin> set (waiting d) \<and> s \<notin> set (releasing d)) \<and>
     (posting d = 0 \<and> ui_tasks d = 0 \<longrightarrow> waiting d = [])"

lemma raceless_run:
  assumes "allowed_run ud_raceless (ud_step S) es new_url_data"
  shows "\<exists>d. run_events (ud_step S) es new_url_data = Some d \<and> deletions_ok d"
proof -
  have "ud_inv new_url_data"
    by (simp add: ud_inv_def ud_inv_with_def new_url_data_def held_def gone_def waiting_def)
  from sources.run_ok [OF this assms] show ?thesis
    by (auto simp: deletions_ok_def ud_inv_def ud_inv_with_def gone_def)
qed

text \<open>
  C36. In every interleaving, up to its end or up to the one race that the test in \<open>SendResponse\<close> misses, no
  step fails, no source is deleted twice or while somebody refers to it, and as long as a source waits for its
  deletion a task for it is posted or about to be posted; so when the tasks have run nothing waits. The race
  is a response from a source whose last reference has been released and which is not yet in the list
  of sources to delete.
\<close>

theorem sources_deleted_once:
  assumes "allowed_run ud_allowed (ud_step S) es new_url_data"
  shows "\<exists>pre post d. es = pre @ post \<and> run_events (ud_step S) pre new_url_data = Some d \<and> distinct (deleted_sources d) \<and>
    (\<forall>s \<in> set (deleted_sources d). source_refs d s = 0 \<and> s \<notin> set (waiting d) \<and> s \<notin> set (releasing d)) \<and>
    (posting d = 0 \<and> ui_tasks d = 0 \<longrightarrow> waiting d = []) \<and>
    (post = [] \<or> (\<exists>s r rest. post = UI_SendResponse s r # rest \<and> s \<in> set (releasing d) \<and>
       source_refs d s = 0 \<and> \<not> IsScheduledForDeletion s d))"
  using assms
proof (rule allowed_run_split [where good = ud_raceless])
  assume "allowed_run ud_raceless (ud_step S) es new_url_data"
  from raceless_run [OF this] obtain d where "run_events (ud_step S) es new_url_data = Some d" "deletions_ok d" by blast
  then show ?thesis unfolding deletions_ok_def by (intro exI [of _ es] exI [of _ "[]"] exI [of _ d]) simp
next
  fix pre e post d
  assume es: "es = pre @ e # post" "run_events (ud_step S) pre new_url_data = Some d"
    "allowed_run ud_raceless (ud_step S) pre new_url_data" "ud_allowed e d" "\<not> ud_raceless e d"
  then obtain s r where e: "e = UI_SendResponse s r" "s \<in> set (releasing d)" by (auto simp: ud_allowed_def)
  with es(5) have "source_refs d s = 0" "\<not> IsScheduledForDeletion s d" by (auto simp: ud_raceless_def)
  moreover have "deletions_ok d" using raceless_run [OF es(3)] es(2) by auto
  ultimately show ?thesis
    using es(1,2) e unfolding deletions_ok_def by (intro exI [of _ pre] exI [of _ "e # post"] exI [of _ d]) auto
qed

theorem sources_deleted_once_witness:
  "\<exists>d. run_events (ud_step \<lparr>source_name = (\<lambda>_. ''a''), ShouldReplaceExistingSource = (\<lambda>_. True)\<rparr>)
      [UI_AddDataSource 0, IO_RunAdd, UI_AddDataSource 1, IO_RunAdd, IO_Delete, Any_Post, UI_RunDeletion] new_url_data = Some d \<and>
    set (deleted_sources d) = {0} \<and> source_refs d 0 = 0 \<and> waiting d = []"
proof -
  let ?S = "\<lparr>source_name = (\<lambda>_. ''a''), ShouldReplaceExistingSource = (\<lambda>_. True)\<rparr>"
  let ?es = "[UI_AddDataSource 0, IO_RunAdd, UI_AddDataSource 1, IO_RunAdd, IO_Delete, Any_Post, UI_RunDeletion]"
  note defs = new_url_data_def AddDataSource_def AddDataSourceOnIOThread_def backend_AddDataSource_def AddRef_def
    Release_def DeleteDataSource_def post_deletion_def DeleteDataSources_def Let_def ud_allowed_def ud_raceless_def
    gone_def waiting_def
  have "allowed_run ud_allowed (ud_step ?S) ?es new_url_data" by (simp add: defs)
  from sources_deleted_once [OF this] obtain pre post d where
    d: "?es = pre @ post" "run_events (ud_step ?S) pre new_url_data = Some d" "\<forall>s \<in> set (deleted_sources d). source_refs d s = 0"
      "posting d = 0 \<and> ui_tasks d = 0 \<longrightarrow> waiting d = []" "post = [] \<or> (\<exists>s r rest. post = UI_SendResponse s r # rest)" by blast
  have "UI_SendResponse s r \<notin> set ?es" for s r by simp
  with d(1,5) have "post = []" by (auto simp: append_eq_Cons_conv Cons_eq_append_conv)
  with d(1,2) have r: "run_events (ud_step ?S) ?es new_url_data = Some d" by simp
  then have "deleted_sources d = [0] \<and> posting d = 0 \<and> ui_tasks d = 0" by (simp add: defs) auto
  with d(3,4) r show ?thesis by simp
qed

text \<open>
  The test in \<open>SendResponse\<close> is meant to keep a source from being deleted twice. It misses the moment
  between the last release and the entry in the list: a response sent then is counted from zero, and its
  own release enters the source a second time. The callback that \<open>CallStartRequest\<close> binds holds a
  reference, so that a source that answers through it never is in this moment.
\<close>

lemma response_race_deletes_twice:
  "\<exists>d. run_events (ud_step \<lparr>source_name = (\<lambda>_. ''a''), ShouldReplaceExistingSource = (\<lambda>_. True)\<rparr>)
      [UI_AddDataSource 0, IO_RunAdd, DestroyBackend IO, UI_SendResponse 0 7, IO_Delete, IO_RunResponse,
       IO_Delete, Any_Post, UI_RunDeletion] new_url_data = Some d \<and> deleted_sources d = [0, 0]"
  by (simp add: new_url_data_def AddDataSource_def AddDataSourceOnIOThread_def backend_AddDataSource_def AddRef_def
      Release_def DeleteDataSource_def delete_URLDataManagerIOSBackend_def SendResponse_def IsScheduledForDeletion_def
      SendResponseOnIOThread_def post_deletion_def DeleteDataSources_def Let_def)

end
