(* ===== verification/Session_Service.thy ===== *)
theory Session_Service
  imports Session_Serialization Event_Machine
begin

text \<open>
  \<open>chrome/browser/sessions/session_service_ios.mm\<close> and \<open>session_ios.mm\<close>: sessions are saved to the file of
  their directory, at once or after a delay, by tasks on a sequence of their own, and loaded from
  there. A \<open>SessionIOSFactory\<close> is a block that is called when the delay is over: it is a number, and what
  it returns at that moment (\<open>nil\<close> once its tab model is gone) is an argument. A failed \<open>DCHECK\<close> and a
  \<open>NOTREACHED\<close> are \<open>None\<close>; what the file system and the archiver answer is an argument.
\<close>

section \<open>State\<close>

type_synonym ns_path = string

text \<open>
  What an archive holds at its root; archives of old versions hold a single window. A window is archived
  under two keys by \<^const>\<open>encodeSessionWindow\<close> and made from them by \<^const>\<open>initSessionWindowWithCoder\<close>, which
  give back every window that \<^const>\<open>initWithSessions\<close> builds: the archive holds the windows themselves.
\<close>

datatype root_object = RootNil | RootWindow session_window | RootSession "session_window list" | RootOther

datatype session_data = Archive root_object | Unreadable

datatype session_task = SaveTask session_data ns_path | DeleteTask ns_path nat

record session_lib =
  AppendingPathComponent :: "ns_path \<Rightarrow> string \<Rightarrow> ns_path"
  DeletingLastPathComponent :: "ns_path \<Rightarrow> ns_path"
  archiver_raises :: "session_window list option \<Rightarrow> bool"
  createDirectory :: "ns_path \<Rightarrow> bool"
  writeToFile :: "ns_path \<Rightarrow> bool"
  removeItem :: "ns_path \<Rightarrow> bool"

record session_service =
  pendingSessions :: "ns_path \<rightharpoonup> nat"
  performRequests :: "ns_path list"
  file_tasks :: "session_task list"
  session_files :: "ns_path \<rightharpoonup> session_data"
  disk_directories :: "ns_path \<rightharpoonup> bool"
  deletion_replies :: "nat list"

definition initWithTaskRunner :: "(ns_path \<rightharpoonup> session_data) \<Rightarrow> (ns_path \<rightharpoonup> bool) \<Rightarrow> session_service" where
  "initWithTaskRunner files dirs =
     \<lparr>pendingSessions = Map.empty, performRequests = [], file_tasks = [], session_files = files,
      disk_directories = dirs, deletion_replies = []\<rparr>"

section \<open>Operations\<close>

definition sessionPathForDirectory :: "session_lib \<Rightarrow> ns_path \<Rightarrow> ns_path" where
  "sessionPathForDirectory L directory = AppendingPathComponent L directory ''session.plist''"

text \<open>\<open>performSaveToPathInBackground:\<close>; \<open>current\<close> gives what a factory returns now.\<close>

definition root_of :: "session_window list option \<Rightarrow> root_object" where
  "root_of session = (case session of None \<Rightarrow> RootNil | Some ws \<Rightarrow> RootSession ws)"

definition performSaveToPathInBackground ::
  "session_lib \<Rightarrow> (nat \<Rightarrow> session_window list option) \<Rightarrow> ns_path \<Rightarrow> session_service \<Rightarrow> session_service option" where
  "performSaveToPathInBackground L current sessionPath s = do {
     factory \<leftarrow> pendingSessions s sessionPath;
     let s = s\<lparr>pendingSessions := (pendingSessions s)(sessionPath := None)\<rparr>;
     let session = current factory;
     check (\<not> archiver_raises L session);
     Some (s\<lparr>file_tasks := file_tasks s @ [SaveTask (Archive (root_of session)) sessionPath]\<rparr>) }"

text \<open>
  \<open>saveSession:directory:immediately:\<close>. \<open>cancelPreviousPerformRequestsWithTarget:\<close> cancels every request
  of the service, for every path.
\<close>

definition saveSession ::
  "session_lib \<Rightarrow> (nat \<Rightarrow> session_window list option) \<Rightarrow> nat \<Rightarrow> ns_path \<Rightarrow> bool \<Rightarrow> session_service \<Rightarrow> session_service option" where
  "saveSession L current factory directory immediately s =
     (let sessionPath = sessionPathForDirectory L directory;
          hadPendingSession = (pendingSessions s sessionPath \<noteq> None);
          s = s\<lparr>pendingSessions := (pendingSessions s)(sessionPath \<mapsto> factory)\<rparr>
      in if immediately then
           performSaveToPathInBackground L current sessionPath (s\<lparr>performRequests := []\<rparr>)
         else if \<not> hadPendingSession then Some (s\<lparr>performRequests := performRequests s @ [sessionPath]\<rparr>)
         else Some s)"

text \<open>\<open>loadSessionFromPath:\<close>; the outer \<open>None\<close> is a failed assertion, the inner one \<open>nil\<close>.\<close>

definition loadSessionFromPath :: "ns_path \<Rightarrow> session_service \<Rightarrow> session_window list option option" where
  "loadSessionFromPath sessionPath s =
     (case session_files s sessionPath of
        None \<Rightarrow> Some None
      | Some Unreadable \<Rightarrow> None
      | Some (Archive RootNil) \<Rightarrow> Some None
      | Some (Archive (RootWindow w)) \<Rightarrow> Some (Some [w])
      | Some (Archive (RootSession ws)) \<Rightarrow> Some (Some ws)
      | Some (Archive RootOther) \<Rightarrow> None)"

definition loadSessionFromDirectory :: "session_lib \<Rightarrow> ns_path \<Rightarrow> session_service \<Rightarrow> session_window list option option" where
  "loadSessionFromDirectory L directory s = loadSessionFromPath (sessionPathForDirectory L directory) s"

definition deleteLastSessionFileInDirectory :: "session_lib \<Rightarrow> ns_path \<Rightarrow> nat \<Rightarrow> session_service \<Rightarrow> session_service" where
  "deleteLastSessionFileInDirectory L directory callback s =
     s\<lparr>file_tasks := file_tasks s @ [DeleteTask (sessionPathForDirectory L directory) callback]\<rparr>"

text \<open>
  \<open>performSaveSessionData:sessionPath:\<close>. A known path is a directory (\<open>True\<close>) or a file (\<open>False\<close>).
\<close>

definition performSaveSessionData ::
  "session_lib \<Rightarrow> session_data \<Rightarrow> ns_path \<Rightarrow> session_service \<Rightarrow> session_service option" where
  "performSaveSessionData L sessionData sessionPath s = do {
     let directory = DeletingLastPathComponent L sessionPath;
     s \<leftarrow> (case disk_directories s directory of
             None \<Rightarrow> do {
               check (createDirectory L directory);
               Some (s\<lparr>disk_directories := (disk_directories s)(directory \<mapsto> True)\<rparr>) }
           | Some isDirectory \<Rightarrow> do { check isDirectory; Some s });
     check (writeToFile L sessionPath);
     Some (s\<lparr>session_files := (session_files s)(sessionPath \<mapsto> sessionData)\<rparr>) }"

definition run_file_task :: "session_lib \<Rightarrow> session_task \<Rightarrow> session_service \<Rightarrow> session_service option" where
  "run_file_task L task s =
     (case task of
        SaveTask sessionData sessionPath \<Rightarrow> performSaveSessionData L sessionData sessionPath s
      | DeleteTask sessionPath callback \<Rightarrow> do {
          s \<leftarrow> (if session_files s sessionPath = None then Some s
                else do {
                  check (removeItem L sessionPath);
                  Some (s\<lparr>session_files := (session_files s)(sessionPath := None)\<rparr>) });
          Some (s\<lparr>deletion_replies := deletion_replies s @ [callback]\<rparr>) })"

section \<open>Interleavings\<close>

text \<open>The delay of a request ends, and the next task of the sequence runs.\<close>

datatype session_event =
    SaveSession nat ns_path bool "nat \<Rightarrow> session_window list option"
  | RequestFires ns_path "nat \<Rightarrow> session_window list option"
  | RunFileTask | DeleteLastSession ns_path nat

fun session_step :: "session_lib \<Rightarrow> session_event \<Rightarrow> session_service \<Rightarrow> session_service option" where
  "session_step L (SaveSession f directory immediately current) s = saveSession L current f directory immediately s"
| "session_step L (RequestFires path current) s =
     (if path \<in> set (performRequests s)
      then performSaveToPathInBackground L current path (s\<lparr>performRequests := remove1 path (performRequests s)\<rparr>)
      else Some s)"
| "session_step L RunFileTask s =
     (case file_tasks s of [] \<Rightarrow> Some s | t # ts \<Rightarrow> run_file_task L t (s\<lparr>file_tasks := ts\<rparr>))"
| "session_step L (DeleteLastSession directory callback) s = Some (deleteLastSessionFileInDirectory L directory callback s)"

text \<open>A disk on which every operation works, and an archiver that does not raise.\<close>

definition file_system_ok :: "session_lib \<Rightarrow> bool" where
  "file_system_ok L \<longleftrightarrow> (\<forall>x. \<not> archiver_raises L x) \<and> (\<forall>p. createDirectory L p) \<and> (\<forall>p. writeToFile L p) \<and>
     (\<forall>p. removeItem L p)"

section \<open>No request without a session\<close>

definition service_inv :: "session_service \<Rightarrow> bool" where
  "service_inv s \<longleftrightarrow> distinct (performRequests s) \<and> set (performRequests s) \<subseteq> dom (pendingSessions s) \<and>
     (\<forall>d. disk_directories s d \<noteq> Some False)"

lemma performSave_eq:
  assumes "file_system_ok L" "pendingSessions s path = Some f"
  shows "performSaveToPathInBackground L current path s =
    Some (s\<lparr>pendingSessions := (pendingSessions s)(path := None),
            file_tasks := file_tasks s @ [SaveTask (Archive (root_of (current f))) path]\<rparr>)"
  using assms by (simp add: performSaveToPathInBackground_def file_system_ok_def Let_def)

lemma saveSession_immediately:
  assumes "file_system_ok L"
  shows "saveSession L current f d True s =
    Some (s\<lparr>performRequests := [], pendingSessions := (pendingSessions s)(sessionPathForDirectory L d := None),
            file_tasks := file_tasks s @ [SaveTask (Archive (root_of (current f))) (sessionPathForDirectory L d)]\<rparr>)"
  using performSave_eq [OF assms, of _ "sessionPathForDirectory L d" f current]
  by (simp add: saveSession_def Let_def)

lemma saveSession_inv:
  assumes "file_system_ok L" "service_inv s"
  shows "\<exists>s'. saveSession L current f d imm s = Some s' \<and> service_inv s'"
proof (cases imm)
  case True
  then show ?thesis
    using assms by (simp add: saveSession_immediately service_inv_def)
next
  case False
  then show ?thesis using assms(2) by (auto simp: saveSession_def Let_def service_inv_def)
qed

text \<open>What a task does to the files.\<close>

definition task_effect :: "session_task \<Rightarrow> (ns_path \<rightharpoonup> session_data) \<Rightarrow> (ns_path \<rightharpoonup> session_data)" where
  "task_effect t files = (case t of SaveTask x p \<Rightarrow> files(p \<mapsto> x) | DeleteTask p cb \<Rightarrow> files(p := None))"

lemma run_file_task_eq:
  assumes "file_system_ok L" "service_inv s"
  shows "\<exists>s'. run_file_task L t s = Some s' \<and> service_inv s' \<and> file_tasks s' = file_tasks s \<and>
    pendingSessions s' = pendingSessions s \<and> performRequests s' = performRequests s \<and>
    session_files s' = task_effect t (session_files s)"
proof (cases t)
  case (SaveTask x p)
  have "disk_directories s (DeletingLastPathComponent L p) \<noteq> Some False" using assms(2) by (simp add: service_inv_def)
  with SaveTask assms show ?thesis
    by (cases "disk_directories s (DeletingLastPathComponent L p)")
      (auto simp: run_file_task_def performSaveSessionData_def file_system_ok_def service_inv_def task_effect_def Let_def)
next
  case (DeleteTask p cb)
  with assms show ?thesis by (auto simp: run_file_task_def file_system_ok_def service_inv_def task_effect_def fun_upd_idem)
qed

lemma session_step_inv:
  assumes "service_inv s" "file_system_ok L"
  shows "\<exists>s'. session_step L e s = Some s' \<and> service_inv s'"
proof (cases e)
  case (SaveSession f d imm current)
  with saveSession_inv [OF assms(2,1)] show ?thesis by simp
next
  case (RequestFires path current)
  show ?thesis
  proof (cases "path \<in> set (performRequests s)")
    case True
    then obtain f where "pendingSessions s path = Some f" using assms(1) by (auto simp: service_inv_def)
    with True RequestFires assms show ?thesis
      by (auto simp: performSave_eq service_inv_def)
  qed (use RequestFires assms(1) in simp)
next
  case RunFileTask
  show ?thesis
  proof (cases "file_tasks s")
    case (Cons t ts)
    have "service_inv (s\<lparr>file_tasks := ts\<rparr>)" using assms(1) by (simp add: service_inv_def)
    from run_file_task_eq [OF assms(2) this, of t] RunFileTask Cons show ?thesis by auto
  qed (use RunFileTask assms(1) in simp)
next
  case (DeleteLastSession d cb)
  with assms(1) show ?thesis by (simp add: deleteLastSessionFileInDirectory_def service_inv_def)
qed

interpretation session_saving: event_machine "\<lambda>_ _. file_system_ok L" "session_step L" service_inv for L
  by unfold_locales (rule session_step_inv)

section \<open>What was saved is loaded\<close>

lemma run_all_file_tasks:
  assumes "file_system_ok L" "service_inv s"
  shows "\<exists>s'. run_events (session_step L) (replicate (length (file_tasks s)) RunFileTask) s = Some s' \<and>
    service_inv s' \<and> file_tasks s' = [] \<and> session_files s' = fold task_effect (file_tasks s) (session_files s)"
  using assms(2)
proof (induction "file_tasks s" arbitrary: s)
  case (Cons t ts)
  have "service_inv (s\<lparr>file_tasks := ts\<rparr>)" using Cons.prems by (simp add: service_inv_def)
  from run_file_task_eq [OF assms(1) this, of t] obtain s1 where
    s1: "run_file_task L t (s\<lparr>file_tasks := ts\<rparr>) = Some s1" "service_inv s1" "file_tasks s1 = ts"
      "session_files s1 = task_effect t (session_files s)" by auto
  from Cons.hyps(1) [OF _ s1(2)] s1(3,4) obtain s' where
    "run_events (session_step L) (replicate (length ts) RunFileTask) s1 = Some s'" "service_inv s'"
    "file_tasks s' = []" "session_files s' = fold task_effect ts (task_effect t (session_files s))" by auto
  with s1(1) Cons.hyps(2) [symmetric] show ?case by simp
qed simp

lemma saved_session_loads:
  assumes "file_system_ok L" "service_inv s" "current f = Some ws"
  shows "\<exists>s1 s2. saveSession L current f d True s = Some s1 \<and>
    run_events (session_step L) (replicate (length (file_tasks s1)) RunFileTask) s1 = Some s2 \<and> service_inv s2 \<and>
    loadSessionFromDirectory L d s2 = Some (Some ws)"
proof -
  let ?p = "sessionPathForDirectory L d"
  from saveSession_inv [OF assms(1,2), of current f d True] obtain s1 where
    s1: "saveSession L current f d True s = Some s1" "service_inv s1" by blast
  have t: "file_tasks s1 = file_tasks s @ [SaveTask (Archive (RootSession ws)) ?p]"
    using s1(1) assms(1,3) by (auto simp: saveSession_immediately root_of_def)
  from run_all_file_tasks [OF assms(1) s1(2)] obtain s2 where
    s2: "run_events (session_step L) (replicate (length (file_tasks s1)) RunFileTask) s1 = Some s2" "service_inv s2"
      "session_files s2 = fold task_effect (file_tasks s1) (session_files s1)" by blast
  then have "session_files s2 ?p = Some (Archive (RootSession ws))" by (simp add: t task_effect_def)
  with s1(1) s2 show ?thesis by (auto simp: loadSessionFromDirectory_def loadSessionFromPath_def)
qed

section \<open>Delayed saves\<close>

text \<open>Every pending session has its request, as long as no immediate save happens beside another pending session.\<close>

definition all_requested :: "session_service \<Rightarrow> bool" where
  "all_requested s \<longleftrightarrow> (\<forall>p f. pendingSessions s p = Some f \<longrightarrow> p \<in> set (performRequests s))"

definition saves_alone :: "session_lib \<Rightarrow> session_event \<Rightarrow> session_service \<Rightarrow> bool" where
  "saves_alone L e s \<longleftrightarrow>
     (case e of SaveSession f d True current \<Rightarrow> dom (pendingSessions s) \<subseteq> {sessionPathForDirectory L d} | _ \<Rightarrow> True)"

lemma session_step_requested:
  assumes "service_inv s \<and> all_requested s" "file_system_ok L \<and> saves_alone L e s"
  shows "\<exists>s'. session_step L e s = Some s' \<and> service_inv s' \<and> all_requested s'"
proof -
  from session_step_inv [of s L e] assms obtain s' where s': "session_step L e s = Some s'" "service_inv s'" by blast
  have "all_requested s'"
  proof (cases e)
    case (SaveSession f d imm current)
    show ?thesis
    proof (cases imm)
      case True
      then show ?thesis
        using assms s'(1) SaveSession
        by (auto simp: saveSession_immediately all_requested_def saves_alone_def split: if_splits) (blast intro: domI)
    next
      case False
      then show ?thesis
        using assms s'(1) SaveSession by (auto simp: saveSession_def Let_def all_requested_def split: if_splits)
    qed
  next
    case (RequestFires path current)
    show ?thesis
    proof (cases "path \<in> set (performRequests s)")
      case True
      then obtain f where "pendingSessions s path = Some f" using assms(1) by (auto simp: service_inv_def)
      with True RequestFires assms s'(1) show ?thesis by (auto simp: performSave_eq service_inv_def all_requested_def split: if_splits)
    qed (use RequestFires assms s'(1) in simp)
  next
    case RunFileTask
    show ?thesis
    proof (cases "file_tasks s")
      case (Cons t ts)
      have "service_inv (s\<lparr>file_tasks := ts\<rparr>)" using assms(1) by (simp add: service_inv_def)
      from run_file_task_eq [OF _ this, of L t] RunFileTask Cons assms s'(1) show ?thesis
        by (auto simp: all_requested_def)
    qed (use RunFileTask assms s'(1) in simp)
  next
    case (DeleteLastSession d cb)
    with assms s'(1) show ?thesis by (auto simp: deleteLastSessionFileInDirectory_def all_requested_def)
  qed
  with s' show ?thesis by blast
qed

interpretation delayed_saving: event_machine "\<lambda>e s. file_system_ok L \<and> saves_alone L e s" "session_step L"
  "\<lambda>s. service_inv s \<and> all_requested s" for L
  by unfold_locales (rule session_step_requested)

text \<open>
  C38. A delayed save is not lost. After every sequence of saves, timers, file tasks and deletions in which no
  immediate save happens beside another pending session, a pending session has its timer; when that
  fires, what the factory returns then is written, and loaded from the file once the tasks have run.
\<close>

theorem delayed_save_is_written:
  assumes "file_system_ok L" "\<And>d. dirs d \<noteq> Some False"
    "allowed_run (\<lambda>e s. file_system_ok L \<and> saves_alone L e s) (session_step L) es (initWithTaskRunner files dirs)"
  shows "\<exists>s. run_events (session_step L) es (initWithTaskRunner files dirs) = Some s \<and>
    (\<forall>d f current ws. pendingSessions s (sessionPathForDirectory L d) = Some f \<longrightarrow> current f = Some ws \<longrightarrow>
      (\<exists>s1 s2. session_step L (RequestFires (sessionPathForDirectory L d) current) s = Some s1 \<and>
        run_events (session_step L) (replicate (length (file_tasks s1)) RunFileTask) s1 = Some s2 \<and>
        loadSessionFromDirectory L d s2 = Some (Some ws)))"
proof -
  have "service_inv (initWithTaskRunner files dirs) \<and> all_requested (initWithTaskRunner files dirs)"
    using assms(2) by (simp add: service_inv_def all_requested_def initWithTaskRunner_def)
  from delayed_saving.run_ok [OF this assms(3)] obtain s where
    s: "run_events (session_step L) es (initWithTaskRunner files dirs) = Some s" "service_inv s" "all_requested s"
    by blast
  have "\<exists>s1 s2. session_step L (RequestFires (sessionPathForDirectory L d) current) s = Some s1 \<and>
        run_events (session_step L) (replicate (length (file_tasks s1)) RunFileTask) s1 = Some s2 \<and>
        loadSessionFromDirectory L d s2 = Some (Some ws)"
    if p: "pendingSessions s (sessionPathForDirectory L d) = Some f" "current f = Some ws" for d f current ws
  proof -
    let ?p = "sessionPathForDirectory L d"
    have "?p \<in> set (performRequests s)" using p(1) s(3) by (auto simp: all_requested_def)
    then obtain s1 where s1: "session_step L (RequestFires ?p current) s = Some s1" "service_inv s1"
      "file_tasks s1 = file_tasks s @ [SaveTask (Archive (RootSession ws)) ?p]"
      using session_step_inv [OF s(2) assms(1), of "RequestFires ?p current"] assms(1) p
      by (auto simp: performSave_eq root_of_def)
    from run_all_file_tasks [OF assms(1) s1(2)] obtain s2 where
      s2: "run_events (session_step L) (replicate (length (file_tasks s1)) RunFileTask) s1 = Some s2"
        "session_files s2 = fold task_effect (file_tasks s1) (session_files s1)" by blast
    then have "session_files s2 ?p = Some (Archive (RootSession ws))" by (simp add: s1(3) task_effect_def)
    with s1(1) s2(1) show ?thesis by (auto simp: loadSessionFromDirectory_def loadSessionFromPath_def)
  qed
  with s(1) show ?thesis by blast
qed

theorem delayed_save_is_written_witness:
  "\<exists>L s s1 s2. file_system_ok L \<and>
    run_events (session_step L) [SaveSession 1 ''d'' False Map.empty, SaveSession 2 ''d'' False Map.empty]
      (initWithTaskRunner Map.empty Map.empty) = Some s \<and>
    session_step L (RequestFires (sessionPathForDirectory L ''d'') [2 \<mapsto> []]) s = Some s1 \<and>
    run_events (session_step L) (replicate (length (file_tasks s1)) RunFileTask) s1 = Some s2 \<and>
    loadSessionFromDirectory L ''d'' s2 = Some (Some [])"
proof -
  define L where "L = \<lparr>AppendingPathComponent = (@), DeletingLastPathComponent = (\<lambda>p. p), archiver_raises = (\<lambda>_. False),
      createDirectory = (\<lambda>_. True), writeToFile = (\<lambda>_. True), removeItem = (\<lambda>_. True)\<rparr>"
  let ?es = "[SaveSession 1 ''d'' False Map.empty, SaveSession 2 ''d'' False Map.empty]"
  let ?s = "initWithTaskRunner Map.empty Map.empty"
  have ok: "file_system_ok L" by (simp add: file_system_ok_def L_def)
  have "allowed_run (\<lambda>e s. file_system_ok L \<and> saves_alone L e s) (session_step L) ?es ?s"
    using ok by (simp add: saves_alone_def saveSession_def Let_def)
  from delayed_save_is_written [OF ok _ this] obtain s where
    s: "run_events (session_step L) ?es ?s = Some s"
    "\<And>d f current ws. pendingSessions s (sessionPathForDirectory L d) = Some f \<Longrightarrow> current f = Some ws \<Longrightarrow>
      \<exists>s1 s2. session_step L (RequestFires (sessionPathForDirectory L d) current) s = Some s1 \<and>
        run_events (session_step L) (replicate (length (file_tasks s1)) RunFileTask) s1 = Some s2 \<and>
        loadSessionFromDirectory L d s2 = Some (Some ws)" by auto
  have "pendingSessions s (sessionPathForDirectory L ''d'') = Some 2"
    using s(1) by (auto simp: initWithTaskRunner_def saveSession_def Let_def)
  from s(2) [OF this, of "[2 \<mapsto> []]" "[]"] s(1) ok show ?thesis by fastforce
qed

text \<open>
  Beside another pending session an immediate save takes its request away and leaves it pending. From
  then on delayed saves for that path find it pending and do not ask again: until an immediate save for
  the path itself its file is not written.
\<close>

definition save_tasks :: "ns_path \<Rightarrow> session_task list \<Rightarrow> session_task list" where
  "save_tasks p ts = filter (\<lambda>t. case t of SaveTask x q \<Rightarrow> q = p | DeleteTask q cb \<Rightarrow> False) ts"

definition starved :: "ns_path \<Rightarrow> session_service \<Rightarrow> bool" where
  "starved p s \<longleftrightarrow> pendingSessions s p \<noteq> None \<and> p \<notin> set (performRequests s) \<and> save_tasks p (file_tasks s) = []"

fun saves_now :: "session_lib \<Rightarrow> ns_path \<Rightarrow> session_event \<Rightarrow> bool" where
  "saves_now L p (SaveSession f d immediately current) \<longleftrightarrow> immediately \<and> sessionPathForDirectory L d = p"
| "saves_now L p _ \<longleftrightarrow> False"

lemma starved_step:
  assumes "file_system_ok L" "service_inv s" "starved p s" "\<not> saves_now L p e" "session_step L e s = Some s'"
  shows "starved p s'" "session_files s' p = session_files s p \<or> session_files s' p = None"
proof -
  have "starved p s' \<and> (session_files s' p = session_files s p \<or> session_files s' p = None)"
  proof (cases e)
    case (SaveSession f d imm current)
    show ?thesis
    proof (cases imm)
      case True
      with SaveSession assms show ?thesis by (auto simp: saveSession_immediately starved_def save_tasks_def)
    next
      case False
      with SaveSession assms show ?thesis by (auto simp: saveSession_def Let_def starved_def split: if_splits)
    qed
  next
    case (RequestFires path current)
    show ?thesis
    proof (cases "path \<in> set (performRequests s)")
      case True
      then obtain f where "pendingSessions s path = Some f" using assms(2) by (auto simp: service_inv_def)
      with True RequestFires assms show ?thesis
        by (auto simp: performSave_eq starved_def save_tasks_def dest: notin_set_remove1)
    qed (use RequestFires assms in simp)
  next
    case RunFileTask
    show ?thesis
    proof (cases "file_tasks s")
      case (Cons t ts)
      have "service_inv (s\<lparr>file_tasks := ts\<rparr>)" using assms(2) by (simp add: service_inv_def)
      from run_file_task_eq [OF assms(1) this, of t] RunFileTask Cons assms(3,5) show ?thesis
        by (auto simp: starved_def save_tasks_def task_effect_def split: session_task.splits if_splits)
    qed (use RunFileTask assms in simp)
  next
    case (DeleteLastSession d cb)
    with assms show ?thesis by (auto simp: deleteLastSessionFileInDirectory_def starved_def save_tasks_def)
  qed
  then show "starved p s'" "session_files s' p = session_files s p \<or> session_files s' p = None" by auto
qed

theorem starved_session_not_saved:
  assumes "file_system_ok L" "service_inv s" "starved p s" "\<forall>e \<in> set es. \<not> saves_now L p e"
    "run_events (session_step L) es s = Some s'"
  shows "starved p s' \<and> (session_files s' p = session_files s p \<or> session_files s' p = None)"
  using assms(2-5)
proof (induction es arbitrary: s)
  case (Cons e es)
  from session_step_inv [OF Cons.prems(1) assms(1), of e] obtain s1 where
    s1: "session_step L e s = Some s1" "service_inv s1" by blast
  with Cons.prems starved_step [OF assms(1) Cons.prems(1,2) _ s1(1)]
  have "starved p s1" "session_files s1 p = session_files s p \<or> session_files s1 p = None" by auto
  with Cons s1 show ?case by force
qed simp

lemma other_directory_starves:
  assumes "file_system_ok L" "sessionPathForDirectory L d \<noteq> sessionPathForDirectory L d'"
    "save_tasks (sessionPathForDirectory L d) (file_tasks s) = []"
  shows "\<exists>s'. run_events (session_step L) [SaveSession f d False current, SaveSession f' d' True current] s = Some s' \<and>
    starved (sessionPathForDirectory L d) s'"
  using assms
  by (cases "pendingSessions s (sessionPathForDirectory L d)")
    (auto simp: saveSession_def [of L current f d False] saveSession_immediately Let_def starved_def save_tasks_def)

end
