(* ===== verification/Tab_Model.thy ===== *)
theory Tab_Model
  imports Session_Service
begin

unbundle bit_operations_syntax

text \<open>
  \<open>chrome/browser/tabs/tab_model.mm\<close>: the tabs of a window on top of \<open>WebStateList\<close>, and saving and restoring
  them through \<open>SessionServiceIOS\<close>. A tab is its web state. Web states are created by \<open>web::WebState\<close>:
  the new one is an argument. What a web state answers (its visible and last committed URL, its pending
  item) is in \<open>tab_env\<close>. Calls to helpers of the tabs and to recorders are kept in \<open>tm_calls\<close>.
\<close>

section \<open>State\<close>

datatype tm_call =
    LoadInto web_state | Placeholder web_state | FetchFavicon web_state gurl | RestorePolicies web_state
  | InitialRestoredTabs web_state "web_state list" | ResetSessionMetrics | TerminateNetworkActivity web_state
  | NotificationsDisabled bool | RecordPrimaryChange bool web_state | ClearPolicies

record tab_env =
  tab_web_env :: web_env
  visible_item_url :: "web_state \<Rightarrow> gurl option"
  url_is_valid :: "gurl \<Rightarrow> bool"
  has_pending_item :: "web_state \<Rightarrow> bool"
  last_committed_url :: "web_state \<Rightarrow> gurl"
  web_usage_enabled :: bool

record tab_model =
  webStateList :: web_state_list
  tm_browserState :: "(ns_path \<times> bool) option"
  tm_observers :: "nat list"
  tabUsageRecorder :: bool
  notificationObserver :: bool
  metricsObserver :: bool
  list_observers :: "nat list"
  tm_calls :: "tm_call list"

definition kChromeUINewTabURL :: gurl where
  "kChromeUINewTabURL = ''chrome://newtab/''"

definition kTabPositionAutomatically :: nat where
  "kTabPositionAutomatically = NSNotFound"

text \<open>
  The observers of the list that the initialiser creates: the model itself, closing, parenting, selected
  tab, bridge, favicon driver, metrics and notifications.
\<close>

definition kListObservers :: "nat list" where
  "kListObservers = [0, 1, 2, 3, 4, 5, 6, 7]"

definition initWithSessionService :: "(nat \<Rightarrow> nat list \<Rightarrow> nat list) \<Rightarrow> ns_path \<Rightarrow> bool \<Rightarrow> tab_model" where
  "initWithSessionService ol statePath offTheRecord =
     \<lparr>webStateList = fold (AddObserver ol) kListObservers new_web_state_list,
      tm_browserState = Some (statePath, offTheRecord), tm_observers = [], tabUsageRecorder = (\<not> offTheRecord),
      notificationObserver = True, metricsObserver = True, list_observers = kListObservers, tm_calls = []\<rparr>"

definition record_call :: "tm_call \<Rightarrow> tab_model \<Rightarrow> tab_model" where
  "record_call c m = m\<lparr>tm_calls := tm_calls m @ [c]\<rparr>"

section \<open>Tabs\<close>

text \<open>The outer \<open>None\<close> is a failed assertion, the inner one \<open>nil\<close>.\<close>

definition currentTab :: "tab_model \<Rightarrow> web_state option" where
  "currentTab m = GetActiveWebState (webStateList m)"

definition setCurrentTab :: "web_state \<Rightarrow> tab_model \<Rightarrow> tab_model option" where
  "setCurrentTab newTab m = do {
     let indexOfTab = GetIndexOfWebState newTab (webStateList m);
     check (indexOfTab \<noteq> kInvalidIndex);
     l \<leftarrow> ActivateWebStateAt indexOfTab (webStateList m);
     Some (m\<lparr>webStateList := l\<rparr>) }"

definition isOffTheRecord :: "tab_model \<Rightarrow> bool" where
  "isOffTheRecord m = (case tm_browserState m of None \<Rightarrow> False | Some (p, otr) \<Rightarrow> otr)"

definition tm_isEmpty :: "tab_model \<Rightarrow> bool" where
  "tm_isEmpty m = wsl_empty (webStateList m)"

definition tm_count :: "tab_model \<Rightarrow> nat option" where
  "tm_count m = do {
     check (wsl_count (webStateList m) \<ge> 0);
     Some (nat (wsl_count (webStateList m))) }"

definition tabAtIndex :: "nat \<Rightarrow> tab_model \<Rightarrow> web_state option" where
  "tabAtIndex index m = do {
     check (int index \<le> INT_MAX);
     GetWebStateAt (int index) (webStateList m) }"

definition indexOfTab :: "web_state \<Rightarrow> tab_model \<Rightarrow> nat option" where
  "indexOfTab tab m = do {
     let index = GetIndexOfWebState tab (webStateList m);
     if index = kInvalidIndex then Some NSNotFound
     else do {
       check (index \<ge> 0);
       Some (nat index) } }"

definition insertOpenByDOMTabWithOpener ::
  "tab_env \<Rightarrow> web_state \<Rightarrow> web_state \<Rightarrow> tab_model \<Rightarrow> (web_state \<times> tab_model) option" where
  "insertOpenByDOMTabWithOpener E new opener_tab m = do {
     check (tm_browserState m \<noteq> None);
     (insertedIndex, l) \<leftarrow> InsertWebState (tab_web_env E) (wsl_count (webStateList m)) new
       (INSERT_FORCE_INDEX OR INSERT_ACTIVATE) (WebStateOpener (tab_web_env E) opener_tab) (webStateList m);
     tab \<leftarrow> GetWebStateAt insertedIndex l;
     Some (tab, m\<lparr>webStateList := l\<rparr>) }"

text \<open>
  \<open>insertTabWithLoadParams\<close>: where the tab goes, and with which flags; \<open>is_link\<close> says whether the core type of the
  transition is \<open>PAGE_TRANSITION_LINK\<close>.
\<close>

definition insertion_place :: "nat \<Rightarrow> bool \<Rightarrow> bool \<Rightarrow> tab_model \<Rightarrow> (int \<times> int) option" where
  "insertion_place index is_link inBackground m = do {
     (insertionIndex, insertionFlags) \<leftarrow>
       (if index \<noteq> kTabPositionAutomatically then do {
          check (int index \<le> INT_MAX);
          Some (int index, INSERT_NO_FLAGS OR INSERT_FORCE_INDEX) }
        else if \<not> is_link then Some (wsl_count (webStateList m), INSERT_NO_FLAGS OR INSERT_FORCE_INDEX)
        else Some (kInvalidIndex, INSERT_NO_FLAGS));
     Some (insertionIndex, if \<not> inBackground then insertionFlags OR INSERT_ACTIVATE else insertionFlags) }"

definition insertTabWithLoadParams ::
  "tab_env \<Rightarrow> web_state \<Rightarrow> bool \<Rightarrow> web_state \<Rightarrow> nat \<Rightarrow> bool \<Rightarrow> tab_model \<Rightarrow> (web_state \<times> tab_model) option" where
  "insertTabWithLoadParams E new is_link parentTab index inBackground m = do {
     check (tm_browserState m \<noteq> None);
     n \<leftarrow> tm_count m;
     check (index = kTabPositionAutomatically \<or> index \<le> n);
     (insertionIndex, insertionFlags) \<leftarrow> insertion_place index is_link inBackground m;
     let m = record_call (LoadInto new) m;
     (insertionIndex, l) \<leftarrow> InsertWebState (tab_web_env E) insertionIndex new insertionFlags
       (WebStateOpener (tab_web_env E) parentTab) (webStateList m);
     tab \<leftarrow> GetWebStateAt insertionIndex l;
     Some (tab, m\<lparr>webStateList := l\<rparr>) }"

definition moveTab :: "web_state \<Rightarrow> nat \<Rightarrow> tab_model \<Rightarrow> tab_model option" where
  "moveTab tab toIndex m = do {
     check (int toIndex \<le> INT_MAX);
     let fromIndex = GetIndexOfWebState tab (webStateList m);
     l \<leftarrow> MoveWebStateAt fromIndex (int toIndex) (webStateList m);
     Some (m\<lparr>webStateList := l\<rparr>) }"

definition closeTabAtIndex :: "tab_env \<Rightarrow> nat \<Rightarrow> tab_model \<Rightarrow> tab_model option" where
  "closeTabAtIndex E index m = do {
     check (int index \<le> INT_MAX);
     l \<leftarrow> CloseWebStateAt (tab_web_env E) (int index) CLOSE_USER_ACTION (webStateList m);
     Some (m\<lparr>webStateList := l\<rparr>) }"

definition closeTab :: "tab_env \<Rightarrow> web_state \<Rightarrow> tab_model \<Rightarrow> tab_model option" where
  "closeTab E tab m = do {
     index \<leftarrow> indexOfTab tab m;
     closeTabAtIndex E index m }"

definition closeAllTabs :: "tab_env \<Rightarrow> tab_model \<Rightarrow> tab_model option" where
  "closeAllTabs E m = do {
     l \<leftarrow> CloseAllWebStates (tab_web_env E) CLOSE_USER_ACTION (webStateList m);
     Some (m\<lparr>webStateList := l\<rparr>) }"

definition haltAllTabs :: "tab_model \<Rightarrow> tab_model" where
  "haltAllTabs m = m\<lparr>tm_calls := tm_calls m @ map TerminateNetworkActivity (web_states (webStateList m))\<rparr>"

definition tm_addObserver :: "nat \<Rightarrow> tab_model \<Rightarrow> tab_model" where
  "tm_addObserver ob m = m\<lparr>tm_observers := tm_observers m @ [ob]\<rparr>"

definition tm_removeObserver :: "nat \<Rightarrow> tab_model \<Rightarrow> tab_model" where
  "tm_removeObserver ob m = m\<lparr>tm_observers := remove1 ob (tm_observers m)\<rparr>"

definition resetSessionMetrics :: "tab_model \<Rightarrow> tab_model" where
  "resetSessionMetrics m = (if metricsObserver m then record_call ResetSessionMetrics m else m)"

definition setPrimary :: "bool \<Rightarrow> tab_model \<Rightarrow> tab_model option" where
  "setPrimary primary m =
     (if tabUsageRecorder m then do {
        tab \<leftarrow> currentTab m;
        Some (record_call (RecordPrimaryChange primary tab) m) }
      else Some m)"

definition browserStateDestroyed :: "(nat \<Rightarrow> nat list \<Rightarrow> nat list) \<Rightarrow> tab_env \<Rightarrow> tab_model \<Rightarrow> tab_model option" where
  "browserStateDestroyed ol E m =
     (if tm_browserState m = None then Some m
      else do {
        let m = m\<lparr>tm_browserState := None, notificationObserver := False, metricsObserver := False\<rparr>;
        l \<leftarrow> CloseAllWebStates (tab_web_env E) CLOSE_NO_FLAGS (webStateList m);
        let l = fold (RemoveObserver ol) (list_observers m) l;
        Some (m\<lparr>webStateList := l, list_observers := [], tabUsageRecorder := False\<rparr>) })"

section \<open>Sessions\<close>

text \<open>\<open>sessionForSaving\<close>; the user data of the web states are written on the way.\<close>

definition sessionForSaving ::
  "(web_state \<Rightarrow> nat) \<Rightarrow> (web_state \<Rightarrow> user_data) \<Rightarrow> tab_model \<Rightarrow> session_window list option" where
  "sessionForSaving content ud m = do {
     (w, _) \<leftarrow> SerializeWebStateList content (webStateList m) ud;
     Some [w] }"

definition saveSessionImmediately ::
  "session_lib \<Rightarrow> (nat \<Rightarrow> session_window list option) \<Rightarrow> nat \<Rightarrow> bool \<Rightarrow> tab_model \<Rightarrow> session_service \<Rightarrow> session_service option" where
  "saveSessionImmediately L current self immediately m s = do {
     tab \<leftarrow> currentTab m;
     case tm_browserState m of
       None \<Rightarrow> Some s
     | Some (statePath, _) \<Rightarrow>
         if tab = None \<and> wsl_count (webStateList m) \<noteq> 0 then Some s
         else saveSession L current self statePath immediately s }"

fun restored_calls :: "tab_env \<Rightarrow> web_state list \<Rightarrow> tm_call list" where
  "restored_calls E [] = []"
| "restored_calls E (ws # rest) =
     (if visible_item_url E ws \<noteq> Some kChromeUINewTabURL then [Placeholder ws] else []) @
     (case visible_item_url E ws of None \<Rightarrow> [] | Some u \<Rightarrow> if url_is_valid E u then [FetchFavicon ws u] else []) @
     [RestorePolicies ws] @ restored_calls E rest"

text \<open>The new tab page that was the only tab is closed.\<close>

definition clobber_new_tab_page :: "tab_env \<Rightarrow> int \<Rightarrow> tab_model \<Rightarrow> (bool \<times> tab_model) option" where
  "clobber_new_tab_page E oldCount m =
     (if oldCount \<noteq> 1 then Some (False, m)
      else do {
        tab \<leftarrow> tabAtIndex 0 m;
        if \<not> has_pending_item E tab \<and> last_committed_url E tab = kChromeUINewTabURL
        then do { m \<leftarrow> closeTab E tab m; Some (True, m) }
        else Some (False, m) })"

definition restoreSessionWindow ::
  "tab_env \<Rightarrow> (nat \<Rightarrow> session_storage \<Rightarrow> web_state) \<Rightarrow> (web_state \<Rightarrow> user_data) \<Rightarrow> session_window option \<Rightarrow> bool \<Rightarrow>
   tab_model \<Rightarrow> (bool \<times> tab_model) option" where
  "restoreSessionWindow E factory ud window initialRestore m = do {
     check (tm_browserState m \<noteq> None);
     check (window \<noteq> None \<or> initialRestore);
     check (\<not> initialRestore \<or> tm_observers m = []);
     let quiet = (\<lambda>b m. if notificationObserver m then record_call (NotificationsDisabled b) m else m);
     let m = quiet True m;
     case window of
       None \<Rightarrow> Some (False, quiet False m)
     | Some w \<Rightarrow>
         if sessions w = [] then Some (False, quiet False m)
         else do {
           let oldCount = wsl_count (webStateList m);
           check (oldCount \<ge> 0);
           l \<leftarrow> DeserializeWebStateList (tab_web_env E) factory ud w (webStateList m);
           check (wsl_count l > oldCount);
           check (int (length (sessions w)) = wsl_count l - oldCount);
           let restoredWebStates = drop (nat oldCount) (web_states l);
           let m = m\<lparr>webStateList := l, tm_calls := tm_calls m @ restored_calls E restoredWebStates\<rparr>;
           (closedNTPTab, m) \<leftarrow> clobber_new_tab_page E oldCount m;
           m \<leftarrow> (if tabUsageRecorder m then do {
                   tab \<leftarrow> currentTab m;
                   Some (record_call (InitialRestoredTabs tab restoredWebStates) m) }
                 else Some m);
           let m = (if initialRestore then resetSessionMetrics m else m);
           Some (closedNTPTab, quiet False m) } }"

text \<open>\<open>applicationDidEnterBackground:\<close>, without the snapshots.\<close>

definition applicationDidEnterBackground ::
  "session_lib \<Rightarrow> (nat \<Rightarrow> session_window list option) \<Rightarrow> nat \<Rightarrow> tab_model \<Rightarrow> session_service \<Rightarrow>
   (tab_model \<times> session_service) option" where
  "applicationDidEnterBackground L current self m s =
     (if tm_browserState m = None then Some (m, s)
      else do {
        let m = record_call ClearPolicies m;
        s \<leftarrow> saveSessionImmediately L current self True m s;
        Some (m, s) })"

text \<open>What the block of a tab model returns: \<open>nil\<close> when the model is gone.\<close>

definition session_of_model ::
  "(web_state \<Rightarrow> nat) \<Rightarrow> (web_state \<Rightarrow> user_data) \<Rightarrow> (nat \<rightharpoonup> tab_model) \<Rightarrow> nat \<Rightarrow> session_window list option" where
  "session_of_model content ud models f = Option.bind (models f) (sessionForSaving content ud)"

end
