(* ===== verification/Tab_Model_Props.thy ===== *)
theory Tab_Model_Props
  imports Tab_Model
begin

text \<open>
  Properties of the tab model: user actions never fail, new tabs are placed and selected as asked, and
  what a window saves is what the next start restores.
\<close>

section \<open>Inserting tabs\<close>

definition tm_inv :: "tab_model \<Rightarrow> bool" where
  "tm_inv m \<longleftrightarrow> wsl_inv (webStateList m) \<and> (tm_browserState m = None \<longrightarrow> web_states (webStateList m) = [])"

definition can_insert :: "web_state \<Rightarrow> web_state \<Rightarrow> tab_model \<Rightarrow> bool" where
  "can_insert new parent m \<longleftrightarrow> tm_browserState m \<noteq> None \<and> new \<noteq> None \<and> new \<notin> set (web_states (webStateList m)) \<and>
     wsl_count (webStateList m) < INT_MAX \<and> (parent = None \<or> parent \<in> set (web_states (webStateList m)))"

lemma insertion_flags:
  "IsInsertionFlagSet (INSERT_FORCE_INDEX OR INSERT_ACTIVATE) INSERT_FORCE_INDEX"
  "IsInsertionFlagSet (INSERT_FORCE_INDEX OR INSERT_ACTIVATE) INSERT_ACTIVATE"
  "\<not> IsInsertionFlagSet (INSERT_FORCE_INDEX OR INSERT_ACTIVATE) INSERT_INHERIT_OPENER"
  "IsInsertionFlagSet INSERT_FORCE_INDEX INSERT_FORCE_INDEX" "\<not> IsInsertionFlagSet INSERT_FORCE_INDEX INSERT_ACTIVATE"
  "\<not> IsInsertionFlagSet INSERT_FORCE_INDEX INSERT_INHERIT_OPENER"
  "IsInsertionFlagSet INSERT_ACTIVATE INSERT_ACTIVATE" "\<not> IsInsertionFlagSet INSERT_ACTIVATE INSERT_FORCE_INDEX"
  "\<not> IsInsertionFlagSet INSERT_ACTIVATE INSERT_INHERIT_OPENER"
  "\<not> IsInsertionFlagSet INSERT_NO_FLAGS f \<or> f = 0"
  "INSERT_NO_FLAGS OR f = f"
  by (simp_all add: IsInsertionFlagSet_def INSERT_FORCE_INDEX_def INSERT_ACTIVATE_def INSERT_INHERIT_OPENER_def
      INSERT_NO_FLAGS_def)

text \<open>What \<open>InsertWebState\<close> gives a tab model: the tabs, the new selection, and the tab that is returned.\<close>

lemma insert_into_model:
  assumes "tm_inv m" "insert_pre index new flags op (webStateList m)" "tm_browserState m \<noteq> None"
  shows "\<exists>k l. InsertWebState env index new flags op (webStateList m) = Some (k, l) \<and>
    GetWebStateAt k l = Some new \<and> 0 \<le> k \<and> k \<le> wsl_count (webStateList m) \<and>
    (IsInsertionFlagSet flags INSERT_FORCE_INDEX \<longrightarrow> k = index) \<and>
    web_states l = insert_at (nat k) new (web_states (webStateList m)) \<and> tm_inv (m\<lparr>webStateList := l\<rparr>) \<and>
    GetActiveWebState l =
      (if IsInsertionFlagSet flags INSERT_ACTIVATE then Some new else GetActiveWebState (webStateList m))"
proof -
  let ?s = "webStateList m"
  have inv: "wsl_inv ?s" and wf: "wsl_wf ?s" using assms(1) by (auto simp: tm_inv_def wsl_inv_def)
  obtain k l where r: "InsertWebState env index new flags op ?s = Some (k, l)"
      "0 \<le> k" "k \<le> wsl_count ?s" "IsInsertionFlagSet flags INSERT_FORCE_INDEX \<longrightarrow> k = index"
      "web_state_wrappers l = insert_at (nat k)
         \<lparr>wrapped = new, wrapper_opener = recorded_opener (effective_opener env flags op ?s)\<rparr> (web_state_wrappers ?s)"
      "active_index l = (if IsInsertionFlagSet flags INSERT_ACTIVATE then k
         else if active_index ?s \<ge> k then active_index ?s + 1 else active_index ?s)"
    using Insert_result [OF inv assms(2), of env] by (auto split: if_splits)
  have linv: "wsl_inv l" by (rule Insert_inv [OF inv assms(2) r(1)])
  then have lwf: "wsl_wf l" by (simp add: wsl_inv_def)
  have kn: "nat k \<le> length (web_state_wrappers ?s)" using r(3) by (simp add: wsl_count_def)
  have states: "web_states l = insert_at (nat k) new (web_states ?s)" by (simp add: r(5) map_insert_at)
  have at: "web_state_wrappers l ! nat k =
      \<lparr>wrapped = new, wrapper_opener = recorded_opener (effective_opener env flags op ?s)\<rparr>"
    using kn by (simp add: r(5))
  have c: "ContainsIndex k l" using r(2,3) by (simp add: ContainsIndex_def wsl_count_def r(5))
  have "GetActiveWebState l =
      (if IsInsertionFlagSet flags INSERT_ACTIVATE then Some new else GetActiveWebState ?s)"
  proof (cases "IsInsertionFlagSet flags INSERT_ACTIVATE")
    case True
    with r(2,6) c at show ?thesis by (auto simp: GetActiveWebState_def kInvalidIndex_def)
  next
    case False
    with insert_selected [OF wf r(2,3,5)] r(6) show ?thesis by (simp add: wsl_wf_active [OF lwf] wsl_wf_active [OF wf])
  qed
  with r(1-4) states c at linv assms(3) show ?thesis by (auto simp: tm_inv_def)
qed

lemma insertion_place_ok:
  assumes "can_insert new parent m" "index = kTabPositionAutomatically \<or> int index \<le> wsl_count (webStateList m)"
    "wsl_inv (webStateList m)"
  shows "\<exists>i flags. insertion_place index is_link bg m = Some (i, flags) \<and>
    insert_pre i new flags (WebStateOpener env parent) (webStateList m) \<and>
    IsInsertionFlagSet flags INSERT_ACTIVATE = (\<not> bg) \<and>
    (index \<noteq> kTabPositionAutomatically \<longrightarrow> IsInsertionFlagSet flags INSERT_FORCE_INDEX \<and> i = int index) \<and>
    (index = kTabPositionAutomatically \<and> \<not> is_link \<longrightarrow>
       IsInsertionFlagSet flags INSERT_FORCE_INDEX \<and> i = wsl_count (webStateList m))"
proof -
  have n: "IsInsertionFlagSet INSERT_NO_FLAGS INSERT_ACTIVATE = False"
    "IsInsertionFlagSet INSERT_NO_FLAGS INSERT_FORCE_INDEX = False"
    "IsInsertionFlagSet INSERT_NO_FLAGS INSERT_INHERIT_OPENER = False"
    by (simp_all add: IsInsertionFlagSet_def INSERT_FORCE_INDEX_def INSERT_ACTIVATE_def INSERT_INHERIT_OPENER_def
        INSERT_NO_FLAGS_def)
  have op: "opener (WebStateOpener env parent) = parent" by (simp add: WebStateOpener_def)
  have "wsl_count (webStateList m) \<le> INT_MAX" "0 \<le> wsl_count (webStateList m)"
    using assms(3) by (auto simp: wsl_inv_def wsl_wf_def wsl_count_def)
  with assms(1,2) show ?thesis
    by (auto simp: insertion_place_def insert_pre_def can_insert_def insertion_flags n op)
qed

text \<open>A place that is given is taken; other tabs than links go to the end; and a tab is shown unless it opens in the background.\<close>

lemma insertTab_result:
  assumes "tm_inv m" "can_insert new parent m"
    "index = kTabPositionAutomatically \<or> int index \<le> wsl_count (webStateList m)"
  shows "\<exists>k m'. insertTabWithLoadParams E new is_link parent index bg m = Some (new, m') \<and> tm_inv m' \<and>
    k \<le> length (web_states (webStateList m)) \<and>
    web_states (webStateList m') = insert_at k new (web_states (webStateList m)) \<and>
    (index \<noteq> kTabPositionAutomatically \<longrightarrow> k = index) \<and>
    (index = kTabPositionAutomatically \<and> \<not> is_link \<longrightarrow> k = length (web_states (webStateList m))) \<and>
    currentTab m' = (if bg then currentTab m else Some new)"
proof -
  let ?s = "webStateList m"
  have inv: "wsl_inv ?s" using assms(1) by (simp add: tm_inv_def)
  obtain i flags where p: "insertion_place index is_link bg m = Some (i, flags)"
    "insert_pre i new flags (WebStateOpener (tab_web_env E) parent) ?s" "IsInsertionFlagSet flags INSERT_ACTIVATE = (\<not> bg)"
    "index \<noteq> kTabPositionAutomatically \<longrightarrow> IsInsertionFlagSet flags INSERT_FORCE_INDEX \<and> i = int index"
    "index = kTabPositionAutomatically \<and> \<not> is_link \<longrightarrow> IsInsertionFlagSet flags INSERT_FORCE_INDEX \<and> i = wsl_count ?s"
    using insertion_place_ok [OF assms(2,3) inv] by blast
  have b: "tm_browserState m \<noteq> None" using assms(2) by (simp add: can_insert_def)
  obtain k l where r: "InsertWebState (tab_web_env E) i new flags (WebStateOpener (tab_web_env E) parent) ?s = Some (k, l)"
    "GetWebStateAt k l = Some new" "0 \<le> k" "k \<le> wsl_count ?s"
    "IsInsertionFlagSet flags INSERT_FORCE_INDEX \<longrightarrow> k = i"
    "web_states l = insert_at (nat k) new (web_states ?s)" "tm_inv (m\<lparr>webStateList := l\<rparr>)"
    "GetActiveWebState l = (if IsInsertionFlagSet flags INSERT_ACTIVATE then Some new else GetActiveWebState ?s)"
    using insert_into_model [OF assms(1) p(2) b] by blast
  let ?m = "m\<lparr>tm_calls := tm_calls m @ [LoadInto new], webStateList := l\<rparr>"
  have "index = kTabPositionAutomatically \<or> index \<le> nat (wsl_count ?s)" using assms(3) by auto
  moreover have "tm_count m = Some (nat (wsl_count ?s))" by (simp add: tm_count_def wsl_count_def)
  ultimately have "insertTabWithLoadParams E new is_link parent index bg m = Some (new, ?m)"
    using b p(1) r(1,2) by (auto simp: insertTabWithLoadParams_def record_call_def)
  moreover have "tm_inv ?m" using r(7) by (simp add: tm_inv_def)
  moreover have "currentTab ?m = (if bg then currentTab m else Some new)" using r(8) p(3) by (simp add: currentTab_def)
  ultimately show ?thesis
    using p(4,5) r(3-6) by (intro exI [of _ "nat k"] exI [of _ ?m]) (auto simp: wsl_count_def)
qed

lemma insertByDOM_result:
  assumes "tm_inv m" "can_insert new parent m"
  shows "\<exists>m'. insertOpenByDOMTabWithOpener E new parent m = Some (new, m') \<and> tm_inv m' \<and>
    web_states (webStateList m') = web_states (webStateList m) @ [new] \<and> currentTab m' = Some new"
proof -
  let ?f = "INSERT_FORCE_INDEX OR INSERT_ACTIVATE" and ?s = "webStateList m"
  have "insert_pre (wsl_count ?s) new ?f (WebStateOpener (tab_web_env E) parent) ?s"
    using assms(2) by (auto simp: insert_pre_def can_insert_def insertion_flags WebStateOpener_def wsl_count_def)
  moreover have b: "tm_browserState m \<noteq> None" using assms(2) by (simp add: can_insert_def)
  ultimately obtain k l where
    r: "InsertWebState (tab_web_env E) (wsl_count ?s) new ?f (WebStateOpener (tab_web_env E) parent) ?s = Some (k, l)"
      "GetWebStateAt k l = Some new" "k = wsl_count ?s" "web_states l = insert_at (nat k) new (web_states ?s)"
      "tm_inv (m\<lparr>webStateList := l\<rparr>)" "GetActiveWebState l = Some new"
    using insert_into_model [OF assms(1)] by (metis insertion_flags(1,2))
  then have "web_states l = web_states ?s @ [new]" using insert_at_end [of "web_states ?s" new] by (simp add: wsl_count_def)
  with r b show ?thesis by (simp add: insertOpenByDOMTabWithOpener_def currentTab_def)
qed

section \<open>User actions\<close>

datatype tab_action =
    InsertTab web_state bool web_state nat bool | InsertOpenByDOMTab web_state web_state | MoveTab web_state nat
  | SetCurrentTab web_state | CloseTab web_state | CloseTabAtIndex nat | CloseAllTabs | BrowserStateDestroyed

fun tab_step :: "(nat \<Rightarrow> nat list \<Rightarrow> nat list) \<Rightarrow> tab_env \<Rightarrow> tab_action \<Rightarrow> tab_model \<Rightarrow> tab_model option" where
  "tab_step ol E (InsertTab new is_link parent index bg) m =
     map_option snd (insertTabWithLoadParams E new is_link parent index bg m)"
| "tab_step ol E (InsertOpenByDOMTab new parent) m = map_option snd (insertOpenByDOMTabWithOpener E new parent m)"
| "tab_step ol E (MoveTab tab i) m = moveTab tab i m"
| "tab_step ol E (SetCurrentTab tab) m = setCurrentTab tab m"
| "tab_step ol E (CloseTab tab) m = closeTab E tab m"
| "tab_step ol E (CloseTabAtIndex i) m = closeTabAtIndex E i m"
| "tab_step ol E CloseAllTabs m = closeAllTabs E m"
| "tab_step ol E BrowserStateDestroyed m = browserStateDestroyed ol E m"

text \<open>The user acts on tabs of the window and on positions in it.\<close>

fun tab_allowed :: "tab_action \<Rightarrow> tab_model \<Rightarrow> bool" where
  "tab_allowed (InsertTab new is_link parent index bg) m \<longleftrightarrow>
     can_insert new parent m \<and> (index = kTabPositionAutomatically \<or> int index \<le> wsl_count (webStateList m))"
| "tab_allowed (InsertOpenByDOMTab new parent) m \<longleftrightarrow> can_insert new parent m"
| "tab_allowed (MoveTab tab i) m \<longleftrightarrow> tab \<in> set (web_states (webStateList m)) \<and> int i < wsl_count (webStateList m)"
| "tab_allowed (SetCurrentTab tab) m \<longleftrightarrow> tab \<in> set (web_states (webStateList m))"
| "tab_allowed (CloseTab tab) m \<longleftrightarrow> tab \<in> set (web_states (webStateList m))"
| "tab_allowed (CloseTabAtIndex i) m \<longleftrightarrow> int i < wsl_count (webStateList m)"
| "tab_allowed CloseAllTabs m \<longleftrightarrow> True"
| "tab_allowed BrowserStateDestroyed m \<longleftrightarrow> True"

lemma closeTabAtIndex_result:
  assumes "tm_inv m" "int i < wsl_count (webStateList m)"
  shows "\<exists>m'. closeTabAtIndex E i m = Some m' \<and> tm_inv m' \<and>
    web_states (webStateList m') = remove_at i (web_states (webStateList m))"
proof -
  have inv: "wsl_inv (webStateList m)" using assms(1) by (simp add: tm_inv_def)
  have c: "ContainsIndex (int i) (webStateList m)" using assms(2) by (simp add: ContainsIndex_def)
  have "int i \<le> INT_MAX" using inv assms(2) by (simp add: wsl_inv_def wsl_wf_def)
  moreover from Close_result [OF inv c, of "tab_web_env E" CLOSE_USER_ACTION] obtain l where
    "CloseWebStateAt (tab_web_env E) (int i) CLOSE_USER_ACTION (webStateList m) = Some l" "wsl_inv l"
    "web_states l = remove_at i (web_states (webStateList m))" by auto
  moreover have "tm_browserState m \<noteq> None" using assms by (auto simp: tm_inv_def wsl_count_def)
  ultimately show ?thesis by (auto simp: closeTabAtIndex_def tm_inv_def)
qed

lemma indexOfTab_mem:
  assumes "tab \<in> set (web_states (webStateList m))"
  shows "\<exists>i. indexOfTab tab m = Some i \<and> GetIndexOfWebState tab (webStateList m) = int i \<and>
    int i < wsl_count (webStateList m) \<and> web_states (webStateList m) ! i = tab"
  using GetIndexOfWebState_mem [OF assms]
  by (intro exI [of _ "nat (GetIndexOfWebState tab (webStateList m))"])
    (auto simp: indexOfTab_def ContainsIndex_def kInvalidIndex_def)

lemma fold_RemoveObserver: "fold (RemoveObserver ol) obs l = l\<lparr>observers := fold ol obs (observers l)\<rparr>"
  by (induction obs arbitrary: l) (simp_all add: RemoveObserver_def)

lemma wsl_inv_observers [simp]: "wsl_inv (l\<lparr>observers := x\<rparr>) = wsl_inv l"
  by (simp add: wsl_inv_def wsl_wf_def query_defs)

lemma tab_step_inv:
  assumes "tm_inv m" "tab_allowed e m"
  shows "\<exists>m'. tab_step ol E e m = Some m' \<and> tm_inv m'"
proof -
  let ?s = "webStateList m"
  have inv: "wsl_inv ?s" and max: "wsl_count ?s \<le> INT_MAX" using assms(1) by (auto simp: tm_inv_def wsl_inv_def wsl_wf_def)
  note all = CloseAll_result [OF inv]
  show ?thesis
  proof (cases e)
    case (InsertTab new is_link parent index bg)
    with insertTab_result [OF assms(1), of new parent index E is_link bg] assms(2) show ?thesis by auto
  next
    case (InsertOpenByDOMTab new parent)
    with insertByDOM_result [OF assms(1), of new parent E] assms(2) show ?thesis by auto
  next
    case (MoveTab tab i)
    then have a: "tab \<in> set (web_states ?s)" "int i < wsl_count ?s" using assms(2) by auto
    then have "ContainsIndex (GetIndexOfWebState tab ?s) ?s" "ContainsIndex (int i) ?s"
      by (simp add: GetIndexOfWebState_Contains, simp add: ContainsIndex_def)
    from Move_result [OF inv this] obtain l where
      "MoveWebStateAt (GetIndexOfWebState tab ?s) (int i) ?s = Some l" by blast
    moreover from this Move_inv [OF inv] have "wsl_inv l" by blast
    moreover have "tm_browserState m \<noteq> None" using assms(1) a(1) by (auto simp: tm_inv_def)
    ultimately show ?thesis using MoveTab a(2) max by (auto simp: moveTab_def tm_inv_def)
  next
    case (SetCurrentTab tab)
    then have a: "tab \<in> set (web_states ?s)" using assms(2) by simp
    then have c: "ContainsIndex (GetIndexOfWebState tab ?s) ?s" by (simp add: GetIndexOfWebState_Contains)
    then obtain l where "ActivateWebStateAt (GetIndexOfWebState tab ?s) ?s = Some l"
      using Activate_result [of True ?s] inv by (auto simp: wsl_inv_def)
    moreover from this Activate_inv(1) [OF inv] have "wsl_inv l" by blast
    moreover have "tm_browserState m \<noteq> None" using assms(1) a(1) by (auto simp: tm_inv_def)
    ultimately show ?thesis
      using SetCurrentTab c by (auto simp: setCurrentTab_def tm_inv_def ContainsIndex_def kInvalidIndex_def)
  next
    case (CloseTab tab)
    then obtain i where "indexOfTab tab m = Some i" "int i < wsl_count ?s" using indexOfTab_mem [of tab m] assms(2) by auto
    with closeTabAtIndex_result [OF assms(1), of i E] CloseTab show ?thesis by (auto simp: closeTab_def)
  next
    case (CloseTabAtIndex i)
    with closeTabAtIndex_result [OF assms(1), of i E] assms(2) show ?thesis by auto
  next
    case CloseAllTabs
    with all [of "tab_web_env E" CLOSE_USER_ACTION] show ?thesis by (auto simp: closeAllTabs_def tm_inv_def)
  next
    case BrowserStateDestroyed
    with all [of "tab_web_env E" CLOSE_NO_FLAGS] assms(1) show ?thesis
      by (auto simp: browserStateDestroyed_def tm_inv_def fold_RemoveObserver)
  qed
qed

interpretation tab_actions: event_machine tab_allowed "tab_step ol E" tm_inv for ol E
  by unfold_locales (rule tab_step_inv)

lemma initWithSessionService_inv: "tm_inv (initWithSessionService ol path otr)"
proof -
  have "fold (AddObserver ol) obs l = l\<lparr>observers := fold ol obs (observers l)\<rparr>" for obs l
    by (induction obs arbitrary: l) (simp_all add: AddObserver_def)
  then show ?thesis using new_wsl_inv by (simp add: tm_inv_def initWithSessionService_def)
qed

section \<open>Saving and restoring\<close>

text \<open>The window has a selected tab, and its block returns what is serialized now.\<close>

lemma saves_current_tabs:
  assumes "tm_inv m" "tm_browserState m = Some (path, otr)" "active_index (webStateList m) \<noteq> kInvalidIndex"
    "models self = Some m"
  shows "\<exists>win ud'. SerializeWebStateList content (webStateList m) ud = Some (win, ud') \<and>
    length (sessions win) = length (web_states (webStateList m)) \<and> sessions win \<noteq> [] \<and>
    session_of_model content ud models self = Some [win] \<and>
    saveSessionImmediately L current self imm m s = saveSession L current self path imm s"
proof -
  have inv: "wsl_inv (webStateList m)" and wf: "wsl_wf (webStateList m)" using assms(1) by (auto simp: tm_inv_def wsl_inv_def)
  from Serialize_result [OF inv, of content ud] assms(3) obtain win ud' where
    w: "SerializeWebStateList content (webStateList m) ud = Some (win, ud')"
      "length (sessions win) = length (web_states (webStateList m))" by auto
  have a: "ContainsIndex (active_index (webStateList m)) (webStateList m)" using wf assms(3) by (simp add: wsl_wf_def)
  then have "sessions win \<noteq> []" using w(2) by (auto simp: ContainsIndex_def wsl_count_def)
  moreover have "\<exists>k. currentTab m = Some (Some k)"
  proof -
    have "wrapped (web_state_wrappers (webStateList m) ! nat (active_index (webStateList m))) \<noteq> None"
      using wsl_wf_nth(1) [OF wf a] by simp
    then show ?thesis using a assms(3) by (auto simp: currentTab_def GetActiveWebState_def)
  qed
  ultimately show ?thesis
    using w assms(2,4)
    by (auto simp: session_of_model_def sessionForSaving_def saveSessionImmediately_def)
qed

text \<open>Restoring, when no new tab page gives way to the restored tabs.\<close>

definition new_tab_page_alone :: "tab_env \<Rightarrow> tab_model \<Rightarrow> bool" where
  "new_tab_page_alone E m \<longleftrightarrow> (\<exists>tab. web_states (webStateList m) = [tab] \<and> \<not> has_pending_item E tab \<and>
     last_committed_url E tab = kChromeUINewTabURL)"

lemma restore_keeps_tabs:
  assumes "tm_inv m" "tm_browserState m \<noteq> None" "initial \<longrightarrow> tm_observers m = []" "sessions w \<noteq> []"
    "DeserializeWebStateList (tab_web_env E) factory ud w (webStateList m) = Some t"
    "web_states t = web_states (webStateList m) @ new" "length new = length (sessions w)"
    "GetActiveWebState t \<noteq> None" "\<not> new_tab_page_alone E m"
  shows "\<exists>m'. restoreSessionWindow E factory ud (Some w) initial m = Some (False, m') \<and> webStateList m' = t"
proof -
  let ?s = "webStateList m"
  define m1 where "m1 = (if notificationObserver m then record_call (NotificationsDisabled True) m else m)"
  define m2 where "m2 = m1\<lparr>webStateList := t, tm_calls := tm_calls m1 @ restored_calls E new\<rparr>"
  have len: "length (web_state_wrappers t) = length (web_state_wrappers ?s) + length (sessions w)"
    using assms(6,7) by (metis length_append length_map)
  have f: "webStateList m1 = ?s" "notificationObserver m1 = notificationObserver m" "webStateList m2 = t"
    by (simp_all add: m1_def m2_def record_call_def)
  have n: "wsl_count t > wsl_count ?s" "int (length (sessions w)) = wsl_count t - wsl_count ?s" "0 \<le> wsl_count ?s"
    "drop (nat (wsl_count ?s)) (web_states t) = new"
    using len assms(4,6) by (auto simp: wsl_count_def)
  have clobber: "clobber_new_tab_page E (wsl_count ?s) m2 = Some (False, m2)"
  proof (cases "wsl_count ?s = 1")
    case True
    then obtain tab where tab: "web_states ?s = [tab]"
      by (cases "web_state_wrappers ?s") (auto simp: wsl_count_def)
    have "wrapped (web_state_wrappers t ! 0) = tab"
      using assms(6) tab n(1) True by (metis append_Cons length_greater_0_conv length_map list.size(3) nth_Cons_0
          nth_map of_nat_0_less_iff of_nat_1 wsl_count_def zero_less_one less_trans)
    moreover have "ContainsIndex 0 t" using n(1) True by (simp add: ContainsIndex_def)
    ultimately have "tabAtIndex 0 m2 = Some tab" by (simp add: tabAtIndex_def f INT_MAX_def)
    moreover have "has_pending_item E tab \<or> last_committed_url E tab \<noteq> kChromeUINewTabURL"
      using assms(9) tab by (auto simp: new_tab_page_alone_def)
    ultimately show ?thesis using True by (auto simp: clobber_new_tab_page_def)
  qed (simp add: clobber_new_tab_page_def)
  obtain a where a: "currentTab m2 = Some a" using assms(8) f(3) by (auto simp: currentTab_def)
  show ?thesis
    using assms(2-5) n clobber a f
    by (simp add: restoreSessionWindow_def m1_def [symmetric] m2_def [symmetric] Let_def)
       (auto simp: record_call_def resetSessionMetrics_def m2_def)
qed

text \<open>
  C7. Saved tabs come back. A window that has its browser state and a selected tab saves its session at once,
  on a disk on which every operation works, and the file tasks run. Loading its directory then gives one
  session window, the one that the archived keys decode to. A window restores it that has its browser
  state, no observers if it restores for the first time, no tabs or tabs of its own but not a new tab page
  alone (which would give way to the restored tabs), room for the tabs, and a factory that makes new web
  states with the stored user data. It has one tab more for every saved tab, in order and behind its own,
  with the content saved for it, the openers and their navigation indices as they were, and the tab
  selected that was selected. Neither saving nor restoring fails a check.
\<close>

theorem session_survives_restart:
  assumes "file_system_ok L" "service_inv s"
    and m: "tm_inv m" "tm_browserState m = Some (path, otr)" "active_index (webStateList m) \<noteq> kInvalidIndex"
      "models self = Some m"
    and m0: "tm_inv m0" "tm_browserState m0 \<noteq> None" "initial \<longrightarrow> tm_observers m0 = []" "\<not> new_tab_page_alone E m0"
  shows "\<exists>s1 s2 win. saveSessionImmediately L (session_of_model content ud models) self True m s = Some s1 \<and>
    run_events (session_step L) (replicate (length (file_tasks s1)) RunFileTask) s1 = Some s2 \<and>
    loadSessionFromDirectory L path s2 = Some (Some [win]) \<and>
    (case encodeSessionWindow win of (decoded, index) \<Rightarrow> initSessionWindowWithCoder decoded index) = Some win \<and>
    length (sessions win) = length (web_states (webStateList m)) \<and>
    (\<forall>factory ud2. factory_ok factory ud2 (sessions win) (webStateList m0) \<longrightarrow>
      (\<exists>m'. restoreSessionWindow E factory ud2 (Some win) initial m0 = Some (False, m') \<and>
        web_states (webStateList m') = web_states (webStateList m0) @ made factory (sessions win) 0 \<and>
        map storage_content (sessions win) = map content (web_states (webStateList m)) \<and>
        map (opener_link (webStateList m')) (drop (length (web_states (webStateList m0))) (web_state_wrappers (webStateList m'))) =
          map (\<lambda>w. map_option (\<lambda>(i, n). (i + wsl_count (webStateList m0), n)) (opener_link (webStateList m) w))
            (web_state_wrappers (webStateList m)) \<and>
        currentTab m' = Some (made factory (sessions win) 0 ! nat (active_index (webStateList m)))))"
proof -
  let ?l = "webStateList m" and ?t = "webStateList m0"
  have inv: "wsl_inv ?l" "wsl_inv ?t" and wf: "wsl_wf ?l" using m(1) m0(1) by (auto simp: tm_inv_def wsl_inv_def)
  from saves_current_tabs [of m path otr models self content ud L "session_of_model content ud models" True s] m obtain win ud' where
    w: "SerializeWebStateList content ?l ud = Some (win, ud')" "length (sessions win) = length (web_states ?l)"
      "sessions win \<noteq> []" "session_of_model content ud models self = Some [win]"
      "saveSessionImmediately L (session_of_model content ud models) self True m s =
        saveSession L (session_of_model content ud models) self path True s" by blast
  from saved_session_loads [of L s "session_of_model content ud models" self "[win]" path] assms(1,2) w(4) obtain s1 s2 where
    s: "saveSession L (session_of_model content ud models) self path True s = Some s1"
      "run_events (session_step L) (replicate (length (file_tasks s1)) RunFileTask) s1 = Some s2"
      "loadSessionFromDirectory L path s2 = Some (Some [win])" by blast
  have "\<exists>m'. restoreSessionWindow E factory ud2 (Some win) initial m0 = Some (False, m') \<and>
        web_states (webStateList m') = web_states ?t @ made factory (sessions win) 0 \<and>
        map storage_content (sessions win) = map content (web_states ?l) \<and>
        map (opener_link (webStateList m')) (drop (length (web_states ?t)) (web_state_wrappers (webStateList m'))) =
          map (\<lambda>w. map_option (\<lambda>(i, n). (i + wsl_count ?t, n)) (opener_link ?l w)) (web_state_wrappers ?l) \<and>
        currentTab m' = Some (made factory (sessions win) 0 ! nat (active_index ?l))"
    if f: "factory_ok factory ud2 (sessions win) ?t" for factory ud2
  proof -
    from session_round_trip [OF inv(1) m(3) w(1) inv(2) f, of "tab_web_env E"] obtain t' where
      t': "DeserializeWebStateList (tab_web_env E) factory ud2 win ?t = Some t'"
        "web_states t' = web_states ?t @ made factory (sessions win) 0"
        "map storage_content (sessions win) = map content (web_states ?l)"
        "map (opener_link t') (drop (length (web_states ?t)) (web_state_wrappers t')) =
          map (\<lambda>w. map_option (\<lambda>(i, n). (i + wsl_count ?t, n)) (opener_link ?l w)) (web_state_wrappers ?l)"
        "active_index t' = wsl_count ?t + active_index ?l" by blast
    have i: "0 \<le> active_index ?l" "nat (active_index ?l) < length (sessions win)"
      using wf m(3) w(2) by (auto simp: wsl_wf_def ContainsIndex_def wsl_count_def)
    have "length (web_state_wrappers t') = length (web_state_wrappers ?t) + length (sessions win)"
      using t'(2) by (metis length_append length_made length_map)
    then have c: "ContainsIndex (active_index t') t'" using i by (auto simp: t'(5) ContainsIndex_def wsl_count_def)
    have "web_states t' ! nat (active_index t') = made factory (sessions win) 0 ! nat (active_index ?l)"
      using i by (simp add: t'(2,5) wsl_count_def nat_add_distrib nth_append)
    then have a: "GetActiveWebState t' = Some (made factory (sessions win) 0 ! nat (active_index ?l))"
      using c ContainsIndex_nat [OF c] by (auto simp: GetActiveWebState_def ContainsIndex_def kInvalidIndex_def)
    from restore_keeps_tabs [OF m0(1-3) w(3) t'(1,2) _ _ m0(4)] a obtain m' where
      "restoreSessionWindow E factory ud2 (Some win) initial m0 = Some (False, m')" "webStateList m' = t'" by auto
    with t' a show ?thesis by (auto simp: currentTab_def)
  qed
  moreover have "IsIndexValidForSessionCount (selectedIndex win) (length (sessions win))"
    using w(1) by (auto simp: SerializeWebStateList_def initWithSessions_def bind_check Let_def
        Option.bind_eq_Some_conv split: if_splits)
  ultimately show ?thesis using w(2,5) s window_coding.decode_encode by fastforce
qed

definition demo_session_lib :: session_lib where
  "demo_session_lib = \<lparr>AppendingPathComponent = (\<lambda>d f. d @ ''/'' @ f), DeletingLastPathComponent = (\<lambda>p. takeWhile (\<lambda>c. c \<noteq> CHR ''/'') p),
     archiver_raises = (\<lambda>_. False), createDirectory = (\<lambda>_. True), writeToFile = (\<lambda>_. True), removeItem = (\<lambda>_. True)\<rparr>"

definition demo_tab_env :: tab_env where
  "demo_tab_env = \<lparr>tab_web_env = demo_env, visible_item_url = (\<lambda>_. None), url_is_valid = (\<lambda>_. True),
     has_pending_item = (\<lambda>_. False), last_committed_url = (\<lambda>_. []), web_usage_enabled = True\<rparr>"

definition demo_tab_model :: tab_model where
  "demo_tab_model = (initWithSessionService (\<lambda>_ l. l) ''state'' False)\<lparr>webStateList := opener_demo\<rparr>"

theorem session_survives_restart_witness:
  "\<exists>s1 s2 win ud2 m'.
    saveSessionImmediately demo_session_lib (session_of_model (\<lambda>_. 0) (\<lambda>_. Map.empty) [1 \<mapsto> demo_tab_model]) 1 True
      demo_tab_model (initWithTaskRunner Map.empty Map.empty) = Some s1 \<and>
    run_events (session_step demo_session_lib) (replicate (length (file_tasks s1)) RunFileTask) s1 = Some s2 \<and>
    loadSessionFromDirectory demo_session_lib ''state'' s2 = Some (Some [win]) \<and>
    restoreSessionWindow demo_tab_env demo_factory ud2 (Some win) True (initWithSessionService (\<lambda>_ l. l) ''state'' False) =
      Some (False, m') \<and>
    web_states (webStateList m') = [Some 100, Some 101, Some 102] \<and> currentTab m' = Some (Some 101)"
proof -
  let ?m0 = "initWithSessionService (\<lambda>_ l. l) ''state'' False"
  have a: "file_system_ok demo_session_lib" "service_inv (initWithTaskRunner Map.empty Map.empty)"
    by (simp_all add: file_system_ok_def demo_session_lib_def service_inv_def initWithTaskRunner_def)
  have l: "webStateList demo_tab_model = opener_demo" by (simp add: demo_tab_model_def)
  have m: "tm_inv demo_tab_model" "tm_browserState demo_tab_model = Some (''state'', False)"
    "active_index (webStateList demo_tab_model) \<noteq> kInvalidIndex"
    by (simp_all add: tm_inv_def l, simp_all add: demo_tab_model_def initWithSessionService_def wsl_inv_def wsl_wf_def
        demo_list_def query_defs opener_ok_def INT_MAX_def opener_demo_def kInvalidIndex_def)
  have e: "web_states (webStateList ?m0) = []"
    by (simp add: initWithSessionService_def kListObservers_def AddObserver_def new_web_state_list_def)
  have m0: "tm_browserState ?m0 \<noteq> None" "True \<longrightarrow> tm_observers ?m0 = []" "\<not> new_tab_page_alone demo_tab_env ?m0"
    using e by (simp_all add: new_tab_page_alone_def initWithSessionService_def)
  have l3: "length (web_states opener_demo) = 3" by (simp add: opener_demo_def)
  obtain s1 s2 win where
    s: "saveSessionImmediately demo_session_lib (session_of_model (\<lambda>_. 0) (\<lambda>_. Map.empty) [1 \<mapsto> demo_tab_model]) 1 True
        demo_tab_model (initWithTaskRunner Map.empty Map.empty) = Some s1"
      "run_events (session_step demo_session_lib) (replicate (length (file_tasks s1)) RunFileTask) s1 = Some s2"
      "loadSessionFromDirectory demo_session_lib ''state'' s2 = Some (Some [win])"
      "length (sessions win) = 3"
    and r: "\<And>ud2. factory_ok demo_factory ud2 (sessions win) (webStateList ?m0) \<Longrightarrow>
      \<exists>m'. restoreSessionWindow demo_tab_env demo_factory ud2 (Some win) True ?m0 = Some (False, m') \<and>
        web_states (webStateList m') = web_states (webStateList ?m0) @ made demo_factory (sessions win) 0 \<and>
        currentTab m' = Some (made demo_factory (sessions win) 0 ! nat (active_index opener_demo))"
    using session_survives_restart [where m = demo_tab_model and ?m0.0 = ?m0 and initial = True and E = demo_tab_env and
        L = demo_session_lib and s = "initWithTaskRunner Map.empty Map.empty" and path = "''state''" and otr = False and
        models = "[1 \<mapsto> demo_tab_model]" and self = 1 and content = "\<lambda>_. 0" and ud = "\<lambda>_. Map.empty",
        OF a m fun_upd_same initWithSessionService_inv m0]
    unfolding l l3
    by (elim exE conjE) (rule that, assumption+, blast)
  have made: "made demo_factory (sessions win) 0 = [Some 100, Some 101, Some 102]"
    using s(4) by (cases "sessions win"; cases "tl (sessions win)"; cases "tl (tl (sessions win))") (auto simp: demo_factory_def)
  define ud2 where "ud2 = (\<lambda>ws. case ws of None \<Rightarrow> Map.empty | Some k \<Rightarrow> storage_user_data (sessions win ! (k - 100)))"
  have "wsl_count (webStateList ?m0) = 0" using e by (simp add: wsl_count_def)
  then have "factory_ok demo_factory ud2 (sessions win) (webStateList ?m0)"
    using e s(4) made by (simp add: factory_ok_def INT_MAX_def ud2_def demo_factory_def)
  from r [OF this] s(1-3) e made show ?thesis by (fastforce simp: opener_demo_def)
qed

section \<open>Delayed saves of a model that changed\<close>

text \<open>
  \<open>saveSessionImmediately:\<close> does nothing while there are tabs but none is selected. A delayed save that was
  asked for before is not held back by that: its block serializes the window and fails the check on
  the selected index.
\<close>

lemma transitional_state_not_serialized:
  assumes "tm_inv m" "active_index (webStateList m) = kInvalidIndex" "web_states (webStateList m) \<noteq> []"
  shows "saveSessionImmediately L current self imm m s = Some s" "sessionForSaving content ud m = None"
proof -
  let ?l = "webStateList m"
  have wf: "wsl_wf ?l" using assms(1) by (simp add: tm_inv_def wsl_inv_def)
  show "saveSessionImmediately L current self imm m s = Some s"
    using assms(2,3) by (simp add: saveSessionImmediately_def currentTab_def GetActiveWebState_def wsl_count_def split: option.splits)
  have n: "int (length (web_state_wrappers ?l)) \<le> INT_MAX" "web_state_wrappers ?l \<noteq> []"
    using wf assms(3) by (auto simp: wsl_wf_def wsl_count_def)
  have "distinct [0..wsl_count ?l - 1]" "\<forall>i \<in> set [0..wsl_count ?l - 1]. ContainsIndex i ?l" by (auto simp: ContainsIndex_def)
  from serialize_loop_result [OF wf this, of content ud] n show "sessionForSaving content ud m = None"
    by (auto simp: sessionForSaving_def SerializeWebStateList_def assms(2) initWithSessions_def
        IsIndexValidForSessionCount_def NSNotFound_def INT_MAX_def wsl_count_def)
qed

lemma background_tab_blocks_delayed_save:
  assumes "tm_inv m" "web_states (webStateList m) = []" "can_insert new None m"
  shows "\<exists>m'. insertTabWithLoadParams E new is_link None kTabPositionAutomatically True m = Some (new, m') \<and>
    saveSessionImmediately L current self imm m' s = Some s \<and> sessionForSaving content ud m' = None"
proof -
  from insertTab_result [OF assms(1,3), of kTabPositionAutomatically E is_link True] obtain k m' where
    m': "insertTabWithLoadParams E new is_link None kTabPositionAutomatically True m = Some (new, m')" "tm_inv m'"
      "k \<le> length (web_states (webStateList m))" "web_states (webStateList m') = insert_at k new (web_states (webStateList m))"
      "currentTab m' = currentTab m" by auto
  have t: "web_states (webStateList m') = [new]" using m'(3,4) assms(2) by (simp add: insert_at_def)
  have wf: "wsl_wf (webStateList m)" "wsl_wf (webStateList m')" using assms(1) m'(2) by (auto simp: tm_inv_def wsl_inv_def)
  have "active_index (webStateList m) = kInvalidIndex"
    using wf(1) assms(2) by (auto simp: wsl_wf_def ContainsIndex_def wsl_count_def)
  then have "GetActiveWebState (webStateList m') = Some None" using m'(5) by (simp add: currentTab_def GetActiveWebState_def)
  then have "active_index (webStateList m') = kInvalidIndex"
    using wf(2) wsl_wf_nth(1) [OF wf(2), of "active_index (webStateList m')"]
    by (auto simp: GetActiveWebState_def wsl_wf_def split: if_splits)
  from transitional_state_not_serialized [OF m'(2) this] t m'(1) show ?thesis by auto
qed

text \<open>
  \<open>browserStateDestroyed\<close> closes all tabs and leaves a delayed save pending: when it fires it writes an
  empty window over the session.
\<close>

lemma destroyed_model_saves_nothing:
  assumes "tm_inv m" "tm_browserState m \<noteq> None"
  shows "\<exists>m'. browserStateDestroyed ol E m = Some m' \<and>
    sessionForSaving content ud m' = Some [\<lparr>sessions = [], selectedIndex = NSNotFound\<rparr>]"
proof -
  have inv: "wsl_inv (webStateList m)" using assms(1) by (simp add: tm_inv_def)
  from CloseAll_result [OF inv, of "tab_web_env E" CLOSE_NO_FLAGS] obtain l where
    l: "CloseAllWebStates (tab_web_env E) CLOSE_NO_FLAGS (webStateList m) = Some l" "wsl_inv l" "web_states l = []" by blast
  let ?l = "l\<lparr>observers := fold ol (list_observers m) (observers l)\<rparr>"
  have "wsl_count ?l = 0" "active_index ?l = kInvalidIndex"
    using l(2,3) by (auto simp: wsl_count_def wsl_inv_def wsl_wf_def ContainsIndex_def)
  then have "SerializeWebStateList content ?l ud = Some (\<lparr>sessions = [], selectedIndex = NSNotFound\<rparr>, ud)"
    by (simp add: SerializeWebStateList_def initWithSessions_def IsIndexValidForSessionCount_def)
  then show ?thesis
    using assms(2) l(1) by (auto simp: browserStateDestroyed_def fold_RemoveObserver sessionForSaving_def)
qed

end
