(* ===== verification/Bookmarks.thy ===== *)
theory Bookmarks
  imports Event_Machine
begin

text \<open>
  \<open>chrome/browser/bookmarks/bookmarks_utils.cc\<close>, \<open>bookmark_client_impl.cc\<close> (what it answers about nodes) and
  \<open>bookmark_remover_helper.cc\<close>. The bookmark model and its nodes belong to \<open>components/bookmarks\<close>: a node is a
  number, what it answers is a field of the model, and removing all bookmarks is an argument.
\<close>

section \<open>The model\<close>

type_synonym bookmark_node = nat

datatype node_type = URL_NODE | FOLDER | BOOKMARK_BAR | OTHER_NODE | MOBILE

record bookmark_model =
  bm_loaded :: bool
  root_node :: bookmark_node
  mobile_node :: bookmark_node
  bookmark_bar_node :: bookmark_node
  other_node :: bookmark_node
  node_type_of :: "bookmark_node \<Rightarrow> node_type"
  node_parent :: "bookmark_node \<Rightarrow> bookmark_node option"
  node_children :: "bookmark_node \<Rightarrow> bookmark_node list"
  is_folder :: "bookmark_node \<Rightarrow> bool"
  node_IsVisible :: "bookmark_node \<Rightarrow> bool"

text \<open>What \<open>BookmarkClientImpl\<close> answers.\<close>

definition IsPermanentNodeVisible :: "bookmark_model \<Rightarrow> bookmark_node \<Rightarrow> bool" where
  "IsPermanentNodeVisible m n \<longleftrightarrow> node_type_of m n = MOBILE"

definition CanBeEditedByUser :: "bookmark_node \<Rightarrow> bool" where
  "CanBeEditedByUser n \<longleftrightarrow> True"

section \<open>Folders\<close>

definition PrimaryPermanentNodes :: "bookmark_model \<Rightarrow> bookmark_node list option" where
  "PrimaryPermanentNodes m = do {
     check (bm_loaded m);
     Some [mobile_node m, bookmark_bar_node m, other_node m] }"

definition RootLevelFolders :: "bookmark_model \<Rightarrow> bookmark_node list option" where
  "RootLevelFolders m = do {
     primary_permanent_nodes \<leftarrow> PrimaryPermanentNodes m;
     Some (concat (map (\<lambda>p. filter (\<lambda>n. is_folder m n \<and> node_IsVisible m n) (node_children m p)) primary_permanent_nodes)) }"

definition IsPrimaryPermanentNode :: "bookmark_node \<Rightarrow> bookmark_model \<Rightarrow> bool option" where
  "IsPrimaryPermanentNode n m = map_option (\<lambda>nodes. n \<in> set nodes) (PrimaryPermanentNodes m)"

text \<open>The loop of \<open>RootLevelFolderForNode\<close>; it ends in a folder of the first level or in a null pointer.\<close>

partial_function (option) climb ::
  "bookmark_model \<Rightarrow> bookmark_node list \<Rightarrow> bookmark_node option \<Rightarrow> bookmark_node option option" where
  "climb m root_folders top_node =
     (case top_node of
        None \<Rightarrow> Some None
      | Some n \<Rightarrow> if n \<in> set root_folders then Some (Some n) else climb m root_folders (node_parent m n))"

definition RootLevelFolderForNode :: "bookmark_node \<Rightarrow> bookmark_model \<Rightarrow> bookmark_node option option" where
  "RootLevelFolderForNode n m = do {
     check (CanBeEditedByUser n);
     root_folders \<leftarrow> RootLevelFolders m;
     climb m root_folders (Some n) }"

section \<open>Removing all bookmarks\<close>

fun emptied :: "bookmark_model \<Rightarrow> bookmark_node list \<Rightarrow> bool" where
  "emptied m [] \<longleftrightarrow> True"
| "emptied m (n # ns) \<longleftrightarrow>
     (if \<not> CanBeEditedByUser n then emptied m ns else if node_children m n \<noteq> [] then False else emptied m ns)"

text \<open>The result, the model, and the preference of the default folder.\<close>

definition RemoveAllUserBookmarksIOS ::
  "(bookmark_model \<Rightarrow> bookmark_model) \<Rightarrow> bookmark_model \<Rightarrow> int \<Rightarrow> bool \<times> bookmark_model \<times> int" where
  "RemoveAllUserBookmarksIOS RemoveAllUserBookmarks m folder_default =
     (if \<not> bm_loaded m then (False, m, folder_default)
      else let m = RemoveAllUserBookmarks m in
        if \<not> emptied m (node_children m (root_node m)) then (False, m, folder_default) else (True, m, - 1))"

text \<open>
  \<open>BookmarkRemoverHelper\<close>. A completion is a number; it is posted to the sequence. \<open>bookmark_model\<close> is what the
  factory returns, \<open>None\<close> for a null pointer.
\<close>

record remover =
  rm_browser_state :: bool
  completion :: "nat option"
  observing :: bool
  rm_model :: "bookmark_model option"
  folder_default :: int
  posted_completions :: "(nat \<times> bool) list"
  completed :: "(nat \<times> bool) list"

definition BookmarkRemoverHelper :: "bookmark_model option \<Rightarrow> int \<Rightarrow> remover" where
  "BookmarkRemoverHelper model folder =
     \<lparr>rm_browser_state = True, completion = None, observing = False, rm_model = model, folder_default = folder,
      posted_completions = [], completed = []\<rparr>"

definition BookmarksRemoved :: "bool \<Rightarrow> remover \<Rightarrow> remover" where
  "BookmarksRemoved success r =
     (let r = r\<lparr>rm_browser_state := False\<rparr> in
      case completion r of
        None \<Rightarrow> r
      | Some c \<Rightarrow> r\<lparr>posted_completions := posted_completions r @ [(c, success)], completion := None\<rparr>)"

definition remove_now :: "(bookmark_model \<Rightarrow> bookmark_model) \<Rightarrow> bookmark_model \<Rightarrow> remover \<Rightarrow> remover" where
  "remove_now RemoveAll m r =
     (let (success, m, folder) = RemoveAllUserBookmarksIOS RemoveAll m (folder_default r)
      in BookmarksRemoved success (r\<lparr>rm_model := Some m, folder_default := folder\<rparr>))"

definition helper_RemoveAllUserBookmarksIOS ::
  "(bookmark_model \<Rightarrow> bookmark_model) \<Rightarrow> nat \<Rightarrow> remover \<Rightarrow> remover" where
  "helper_RemoveAllUserBookmarksIOS RemoveAll c r =
     (let r = r\<lparr>completion := Some c\<rparr> in
      case rm_model r of
        None \<Rightarrow> BookmarksRemoved False r
      | Some m \<Rightarrow> if bm_loaded m then remove_now RemoveAll m r else r\<lparr>observing := True\<rparr>)"

definition BookmarkModelChanged :: "remover \<Rightarrow> remover option" where
  "BookmarkModelChanged r = None"

definition BookmarkModelLoaded :: "(bookmark_model \<Rightarrow> bookmark_model) \<Rightarrow> remover \<Rightarrow> remover option" where
  "BookmarkModelLoaded RemoveAll r = do {
     m \<leftarrow> rm_model r;
     Some (remove_now RemoveAll m (r\<lparr>observing := False\<rparr>)) }"

definition BookmarkModelBeingDeleted :: "remover \<Rightarrow> remover" where
  "BookmarkModelBeingDeleted r = BookmarksRemoved False (r\<lparr>observing := False\<rparr>)"

definition delete_BookmarkRemoverHelper :: "remover \<Rightarrow> unit option" where
  "delete_BookmarkRemoverHelper r = check (\<not> rm_browser_state r)"

section \<open>The loop ends\<close>

text \<open>The nodes form a forest: going up from a node ends.\<close>

definition parent_rel :: "bookmark_model \<Rightarrow> (bookmark_node \<times> bookmark_node) set" where
  "parent_rel m = {(p, n). node_parent m n = Some p}"

lemma climb_returns:
  assumes "wf (parent_rel m)"
  shows "\<exists>r. climb m F (Some n) = Some r \<and>
    (case r of None \<Rightarrow> \<forall>f. (f, n) \<in> (parent_rel m)\<^sup>* \<longrightarrow> f \<notin> set F
     | Some f \<Rightarrow> f \<in> set F \<and> (f, n) \<in> (parent_rel m)\<^sup>* \<and>
         (\<forall>g. (f, g) \<in> (parent_rel m)\<^sup>+ \<longrightarrow> (g, n) \<in> (parent_rel m)\<^sup>* \<longrightarrow> g \<notin> set F))"
  using assms
proof (induction n rule: wf_induct_rule)
  case (less n)
  have up: "f = n \<or> (\<exists>p. node_parent m n = Some p \<and> (f, p) \<in> (parent_rel m)\<^sup>*)" if "(f, n) \<in> (parent_rel m)\<^sup>*" for f
    using that by (cases rule: rtrancl.cases) (auto simp: parent_rel_def)
  show ?case
  proof (cases "n \<in> set F")
    case True
    have "(n, n) \<notin> (parent_rel m)\<^sup>+" using assms by (simp add: wf_not_refl wf_trancl)
    moreover have "(n, n) \<in> (parent_rel m)\<^sup>+" if "(n, g) \<in> (parent_rel m)\<^sup>+" "(g, n) \<in> (parent_rel m)\<^sup>*" for g
      using that by (rule trancl_rtrancl_trancl)
    ultimately show ?thesis using True by (subst climb.simps) auto
  next
    case False
    show ?thesis
    proof (cases "node_parent m n")
      case None
      have "climb m F (Some n) = Some None" using False None by (subst climb.simps, simp, subst climb.simps, simp)
      moreover have "\<forall>f. (f, n) \<in> (parent_rel m)\<^sup>* \<longrightarrow> f \<notin> set F" using up None False by auto
      ultimately show ?thesis by auto
    next
      case (Some p)
      then have p: "(p, n) \<in> parent_rel m" by (simp add: parent_rel_def)
      from less.IH [OF p] obtain r where
        r: "climb m F (Some p) = Some r"
          "case r of None \<Rightarrow> \<forall>f. (f, p) \<in> (parent_rel m)\<^sup>* \<longrightarrow> f \<notin> set F
           | Some f \<Rightarrow> f \<in> set F \<and> (f, p) \<in> (parent_rel m)\<^sup>* \<and>
             (\<forall>g. (f, g) \<in> (parent_rel m)\<^sup>+ \<longrightarrow> (g, p) \<in> (parent_rel m)\<^sup>* \<longrightarrow> g \<notin> set F)" by blast
      have "climb m F (Some n) = Some r" using r(1) False Some by (subst climb.simps) simp
      moreover have "case r of None \<Rightarrow> \<forall>f. (f, n) \<in> (parent_rel m)\<^sup>* \<longrightarrow> f \<notin> set F
           | Some f \<Rightarrow> f \<in> set F \<and> (f, n) \<in> (parent_rel m)\<^sup>* \<and>
             (\<forall>g. (f, g) \<in> (parent_rel m)\<^sup>+ \<longrightarrow> (g, n) \<in> (parent_rel m)\<^sup>* \<longrightarrow> g \<notin> set F)"
        using r(2) up Some False p by (cases r) (auto intro: rtrancl_into_rtrancl)
      ultimately show ?thesis by blast
    qed
  qed
qed

text \<open>On a loaded model it returns the nearest folder of the first level at or above the node, or null.\<close>

lemma RootLevelFolderForNode_returns:
  assumes "bm_loaded m" "wf (parent_rel m)"
  shows "\<exists>folders r. RootLevelFolders m = Some folders \<and> RootLevelFolderForNode n m = Some r \<and>
    (case r of None \<Rightarrow> \<forall>f. (f, n) \<in> (parent_rel m)\<^sup>* \<longrightarrow> f \<notin> set folders
     | Some f \<Rightarrow> f \<in> set folders \<and> is_folder m f \<and> node_IsVisible m f \<and> (f, n) \<in> (parent_rel m)\<^sup>*)"
proof -
  obtain folders where f: "RootLevelFolders m = Some folders" "\<forall>f \<in> set folders. is_folder m f \<and> node_IsVisible m f"
    using assms(1) by (auto simp: RootLevelFolders_def PrimaryPermanentNodes_def)
  from climb_returns [OF assms(2), of folders n] obtain r where
    "climb m folders (Some n) = Some r"
    "case r of None \<Rightarrow> \<forall>f. (f, n) \<in> (parent_rel m)\<^sup>* \<longrightarrow> f \<notin> set folders
     | Some f \<Rightarrow> f \<in> set folders \<and> (f, n) \<in> (parent_rel m)\<^sup>*" by (fastforce split: option.splits)
  with f show ?thesis
    by (intro exI [of _ folders] exI [of _ r]) (auto simp: RootLevelFolderForNode_def CanBeEditedByUser_def split: option.splits)
qed

section \<open>One answer\<close>

datatype remover_event = RemoveBookmarks nat | ModelLoaded bookmark_model | ModelBeingDeleted | RunCompletion

text \<open>The model that has been loaded is the one the factory returned before.\<close>

fun remover_step :: "(bookmark_model \<Rightarrow> bookmark_model) \<Rightarrow> remover_event \<Rightarrow> remover \<Rightarrow> remover option" where
  "remover_step RA (RemoveBookmarks c) r = Some (helper_RemoveAllUserBookmarksIOS RA c r)"
| "remover_step RA (ModelLoaded m) r = BookmarkModelLoaded RA (r\<lparr>rm_model := Some m\<rparr>)"
| "remover_step RA ModelBeingDeleted r = Some (BookmarkModelBeingDeleted r)"
| "remover_step RA RunCompletion r =
     (case posted_completions r of
        [] \<Rightarrow> Some r | c # cs \<Rightarrow> Some (r\<lparr>posted_completions := cs, completed := completed r @ [c]\<rparr>))"

text \<open>The helper is used once, and the model notifies its observers only.\<close>

definition untouched :: "remover \<Rightarrow> bool" where
  "untouched r \<longleftrightarrow> rm_browser_state r \<and> completion r = None \<and> \<not> observing r \<and> posted_completions r = [] \<and> completed r = []"

fun remover_allowed :: "remover_event \<Rightarrow> remover \<Rightarrow> bool" where
  "remover_allowed (RemoveBookmarks c) r \<longleftrightarrow> untouched r"
| "remover_allowed (ModelLoaded m) r \<longleftrightarrow> observing r \<and> bm_loaded m"
| "remover_allowed ModelBeingDeleted r \<longleftrightarrow> observing r"
| "remover_allowed RunCompletion r \<longleftrightarrow> True"

definition answer_true :: "remover \<Rightarrow> bool" where
  "answer_true r \<longleftrightarrow> (\<exists>m. rm_model r = Some m \<and> emptied m (node_children m (root_node m))) \<and> folder_default r = - 1"

definition remover_inv :: "remover \<Rightarrow> bool" where
  "remover_inv r \<longleftrightarrow> untouched r \<or>
     rm_browser_state r \<and> observing r \<and> completion r \<noteq> None \<and> posted_completions r = [] \<and> completed r = [] \<or>
     \<not> rm_browser_state r \<and> \<not> observing r \<and> completion r = None \<and>
       (\<exists>c b. completed r @ posted_completions r = [(c, b)] \<and> (b \<longrightarrow> answer_true r))"

lemma remove_now_inv:
  assumes "completion r = Some c" "\<not> observing r" "posted_completions r = []" "completed r = []"
  shows "remover_inv (remove_now RA m r)"
  using assms
  by (auto simp: remove_now_def RemoveAllUserBookmarksIOS_def BookmarksRemoved_def remover_inv_def answer_true_def Let_def)

lemma remover_step_inv:
  assumes "remover_inv r" "remover_allowed e r"
  shows "\<exists>r'. remover_step RA e r = Some r' \<and> remover_inv r'"
proof (cases e)
  case (RemoveBookmarks c)
  then have u: "untouched r" using assms(2) by simp
  show ?thesis
  proof (cases "rm_model r")
    case None
    with u RemoveBookmarks show ?thesis
      by (auto simp: helper_RemoveAllUserBookmarksIOS_def BookmarksRemoved_def remover_inv_def untouched_def)
  next
    case (Some m)
    show ?thesis
    proof (cases "bm_loaded m")
      case True
      have "remover_inv (remove_now RA m (r\<lparr>completion := Some c\<rparr>))"
        by (rule remove_now_inv [where c = c]) (use u in \<open>simp_all add: untouched_def\<close>)
      with True Some RemoveBookmarks show ?thesis by (simp add: helper_RemoveAllUserBookmarksIOS_def)
    next
      case False
      with u Some RemoveBookmarks show ?thesis
        by (simp add: helper_RemoveAllUserBookmarksIOS_def remover_inv_def untouched_def)
    qed
  qed
next
  case (ModelLoaded m)
  then obtain c where "completion r = Some c" "posted_completions r = []" "completed r = []"
    using assms by (auto simp: remover_inv_def untouched_def)
  then have "remover_inv (remove_now RA m (r\<lparr>rm_model := Some m, observing := False\<rparr>))"
    by (intro remove_now_inv [where c = c]) simp_all
  with ModelLoaded show ?thesis by (simp add: BookmarkModelLoaded_def)
next
  case ModelBeingDeleted
  with assms show ?thesis
    by (auto simp: BookmarkModelBeingDeleted_def BookmarksRemoved_def remover_inv_def untouched_def Let_def)
next
  case RunCompletion
  show ?thesis
  proof (cases "posted_completions r")
    case Nil
    with RunCompletion assms(1) show ?thesis by simp
  next
    case (Cons c cs)
    with RunCompletion assms(1) show ?thesis by (auto simp: remover_inv_def untouched_def answer_true_def)
  qed
qed

interpretation bookmark_removal: event_machine remover_allowed "remover_step RA" remover_inv for RA
  by unfold_locales (rule remover_step_inv)

text \<open>
  The completion is posted and run at most once, with success only when nothing that the user may edit
  is left and the default folder is reset; the destructor finds nothing pending once it is answered.
\<close>

lemma bookmarks_removed_once:
  assumes "allowed_run remover_allowed (remover_step RA) es (BookmarkRemoverHelper model folder)"
  shows "\<exists>r. run_events (remover_step RA) es (BookmarkRemoverHelper model folder) = Some r \<and>
    length (completed r @ posted_completions r) \<le> 1 \<and>
    (\<forall>(c, b) \<in> set (completed r @ posted_completions r). delete_BookmarkRemoverHelper r = Some () \<and> (b \<longrightarrow> answer_true r))"
proof -
  have "remover_inv (BookmarkRemoverHelper model folder)"
    by (simp add: remover_inv_def untouched_def BookmarkRemoverHelper_def)
  from bookmark_removal.run_ok [OF this assms] obtain r where
    r: "run_events (remover_step RA) es (BookmarkRemoverHelper model folder) = Some r" "remover_inv r" by blast
  from r(2) have "length (completed r @ posted_completions r) \<le> 1 \<and>
    (\<forall>(c, b) \<in> set (completed r @ posted_completions r). delete_BookmarkRemoverHelper r = Some () \<and> (b \<longrightarrow> answer_true r))"
    unfolding remover_inv_def
  proof (elim disjE conjE exE)
    fix c b
    assume "\<not> rm_browser_state r" "completed r @ posted_completions r = [(c, b)]" "b \<longrightarrow> answer_true r"
    then show ?thesis by (simp only:) (simp add: delete_BookmarkRemoverHelper_def)
  qed (simp_all add: untouched_def)
  with r(1) show ?thesis by blast
qed

end
