(* ===== verification/Search_Engines.thy ===== *)
theory Search_Engines
  imports Prelude
begin

text \<open>
  \<open>chrome/browser/search_engines/search_engines_util.cc\<close>: when the country of the user has changed, the
  prepopulated search engines are replaced, at once or when \<open>TemplateURLService\<close> has loaded. The service
  belongs to \<open>components/search_engines\<close>: its operations are \<open>template_lib\<close> on a state of its own, and what they
  promise is \<open>template_lib_ok\<close>. Engines that are added are given by their prepopulated ids.
\<close>

section \<open>The service and the preferences\<close>

record template_url =
  engine_id :: nat
  prepopulate_id :: int

text \<open>Removing the default engine is not allowed: \<open>None\<close>.\<close>

record 's template_lib =
  ts_loaded :: "'s \<Rightarrow> bool"
  LoadTemplateURLs :: "'s \<Rightarrow> 's"
  GetTemplateURLs :: "'s \<Rightarrow> template_url list"
  GetDefaultSearchProvider :: "'s \<Rightarrow> template_url option"
  is_default_search_managed :: "'s \<Rightarrow> bool"
  SetUserSelectedDefaultSearchProvider :: "template_url \<Rightarrow> 's \<Rightarrow> 's"
  RemoveTemplateURL :: "template_url \<Rightarrow> 's \<Rightarrow> 's option"
  AddTemplateURL :: "int \<Rightarrow> 's \<Rightarrow> 's"

record 's engine_state =
  kCountryIDAtInstall :: "int option"
  template_service :: "'s option"
  loaded_observer :: bool
  delete_soon :: nat

definition kGoogleEnginePrepopulatedId :: int where
  "kGoogleEnginePrepopulatedId = 1"

section \<open>Operations\<close>

fun remove_engines :: "'s template_lib \<Rightarrow> template_url list \<Rightarrow> 's \<Rightarrow> 's option" where
  "remove_engines T [] s = Some s"
| "remove_engines T (e # es) s =
     (if prepopulate_id e \<noteq> kGoogleEnginePrepopulatedId then Option.bind (RemoveTemplateURL T e s) (remove_engines T es)
      else remove_engines T es s)"

definition UpdateSearchEngine :: "'s template_lib \<Rightarrow> int list \<Rightarrow> nat \<Rightarrow> 's \<Rightarrow> 's option" where
  "UpdateSearchEngine T new_engines default_engine s = do {
     check (ts_loaded T s);
     let old_engines = GetTemplateURLs T s;
     check (default_engine = 0);
     check (new_engines \<noteq> [] \<and> new_engines ! 0 = kGoogleEnginePrepopulatedId);
     let s = fold (\<lambda>e s. if prepopulate_id e = kGoogleEnginePrepopulatedId
                          then SetUserSelectedDefaultSearchProvider T e s else s) old_engines s;
     s \<leftarrow> remove_engines T old_engines s;
     Some (fold (\<lambda>p s. if p \<noteq> kGoogleEnginePrepopulatedId then AddTemplateURL T p s else s) new_engines s) }"

definition new_LoadedObserver :: "'s template_lib \<Rightarrow> 's \<Rightarrow> 's engine_state \<Rightarrow> 's engine_state option" where
  "new_LoadedObserver T s st = do {
     check (\<not> ts_loaded T s);
     Some (st\<lparr>loaded_observer := True, template_service := Some (LoadTemplateURLs T s)\<rparr>) }"

definition OnTemplateURLServiceChanged ::
  "'s template_lib \<Rightarrow> int list \<Rightarrow> nat \<Rightarrow> 's engine_state \<Rightarrow> 's engine_state option" where
  "OnTemplateURLServiceChanged T new_engines default_engine st = do {
     s \<leftarrow> template_service st;
     s \<leftarrow> UpdateSearchEngine T new_engines default_engine s;
     Some (st\<lparr>loaded_observer := False, template_service := Some s, delete_soon := delete_soon st + 1\<rparr>) }"

definition UpdateSearchEnginesIfNeeded ::
  "'s template_lib \<Rightarrow> int \<Rightarrow> int list \<Rightarrow> nat \<Rightarrow> 's engine_state \<Rightarrow> 's engine_state option" where
  "UpdateSearchEnginesIfNeeded T country_id new_engines default_engine st =
     (case kCountryIDAtInstall st of
        None \<Rightarrow> Some st
      | Some old_country_id \<Rightarrow>
          if country_id = old_country_id then Some st
          else let st = st\<lparr>kCountryIDAtInstall := Some country_id\<rparr> in
            case template_service st of
              None \<Rightarrow> Some st
            | Some s \<Rightarrow>
                if is_default_search_managed T s then Some st
                else if ts_loaded T s then do {
                  s \<leftarrow> UpdateSearchEngine T new_engines default_engine s;
                  Some (st\<lparr>template_service := Some s\<rparr>) }
                else new_LoadedObserver T s st)"

text \<open>\<open>SupportsSearchByImage\<close>, for the image URL of an engine and whether it is valid.\<close>

definition SupportsSearchByImage ::
  "'s template_lib \<Rightarrow> (template_url \<Rightarrow> string) \<Rightarrow> (template_url \<Rightarrow> bool) \<Rightarrow> 's \<Rightarrow> bool" where
  "SupportsSearchByImage T image_url image_url_valid s =
     (case GetDefaultSearchProvider T s of None \<Rightarrow> False | Some d \<Rightarrow> image_url d \<noteq> [] \<and> image_url_valid d)"

section \<open>What the service promises\<close>

definition template_lib_ok :: "'s template_lib \<Rightarrow> bool" where
  "template_lib_ok T \<longleftrightarrow>
     (\<forall>s e. e \<in> set (GetTemplateURLs T s) \<longrightarrow> \<not> is_default_search_managed T s \<longrightarrow>
        (let s' = SetUserSelectedDefaultSearchProvider T e s in
         GetDefaultSearchProvider T s' = Some e \<and> GetTemplateURLs T s' = GetTemplateURLs T s \<and>
         \<not> is_default_search_managed T s')) \<and>
     (\<forall>s e. e \<in> set (GetTemplateURLs T s) \<longrightarrow> GetDefaultSearchProvider T s = Some e \<longrightarrow> RemoveTemplateURL T e s = None) \<and>
     (\<forall>s e. e \<in> set (GetTemplateURLs T s) \<longrightarrow> GetDefaultSearchProvider T s \<noteq> Some e \<longrightarrow>
        (\<exists>s'. RemoveTemplateURL T e s = Some s' \<and> GetDefaultSearchProvider T s' = GetDefaultSearchProvider T s \<and>
          set (GetTemplateURLs T s') = set (GetTemplateURLs T s) - {e})) \<and>
     (\<forall>s p. GetDefaultSearchProvider T (AddTemplateURL T p s) = GetDefaultSearchProvider T s \<and>
        (\<exists>e. prepopulate_id e = p \<and> set (GetTemplateURLs T (AddTemplateURL T p s)) = insert e (set (GetTemplateURLs T s))))"

lemma template_lib_okD:
  assumes "template_lib_ok T"
  shows "e \<in> set (GetTemplateURLs T s) \<Longrightarrow> \<not> is_default_search_managed T s \<Longrightarrow>
      GetDefaultSearchProvider T (SetUserSelectedDefaultSearchProvider T e s) = Some e \<and>
      GetTemplateURLs T (SetUserSelectedDefaultSearchProvider T e s) = GetTemplateURLs T s \<and>
      \<not> is_default_search_managed T (SetUserSelectedDefaultSearchProvider T e s)"
    and "e \<in> set (GetTemplateURLs T s) \<Longrightarrow> GetDefaultSearchProvider T s = Some e \<Longrightarrow> RemoveTemplateURL T e s = None"
    and "e \<in> set (GetTemplateURLs T s) \<Longrightarrow> GetDefaultSearchProvider T s \<noteq> Some e \<Longrightarrow>
      \<exists>s'. RemoveTemplateURL T e s = Some s' \<and> GetDefaultSearchProvider T s' = GetDefaultSearchProvider T s \<and>
        set (GetTemplateURLs T s') = set (GetTemplateURLs T s) - {e}"
    and "GetDefaultSearchProvider T (AddTemplateURL T p s) = GetDefaultSearchProvider T s"
    and "\<exists>e. prepopulate_id e = p \<and> set (GetTemplateURLs T (AddTemplateURL T p s)) = insert e (set (GetTemplateURLs T s))"
proof -
  note a = assms [unfolded template_lib_ok_def Let_def]
  note b = a [THEN conjunct2, THEN conjunct2, THEN conjunct2, rule_format, of p s]
  show "GetDefaultSearchProvider T (AddTemplateURL T p s) = GetDefaultSearchProvider T s"
    and "\<exists>e. prepopulate_id e = p \<and> set (GetTemplateURLs T (AddTemplateURL T p s)) = insert e (set (GetTemplateURLs T s))"
    using b [THEN conjunct1] b [THEN conjunct2] by this+
qed (rule assms [unfolded template_lib_ok_def Let_def, THEN conjunct1, rule_format]
    assms [unfolded template_lib_ok_def, THEN conjunct2, THEN conjunct1, rule_format]
    assms [unfolded template_lib_ok_def, THEN conjunct2, THEN conjunct2, THEN conjunct1, rule_format]; assumption)+

section \<open>The three passes\<close>

lemma google_pass:
  assumes "template_lib_ok T" "\<not> is_default_search_managed T s" "set l \<subseteq> set (GetTemplateURLs T s)"
  defines "pass \<equiv> \<lambda>e s. if prepopulate_id e = kGoogleEnginePrepopulatedId
                        then SetUserSelectedDefaultSearchProvider T e s else s"
  shows "GetTemplateURLs T (fold pass l s) = GetTemplateURLs T s \<and>
    ((\<exists>e \<in> set l. prepopulate_id e = kGoogleEnginePrepopulatedId) \<or>
       (\<exists>d. GetDefaultSearchProvider T s = Some d \<and> prepopulate_id d = kGoogleEnginePrepopulatedId) \<longrightarrow>
     (\<exists>d. GetDefaultSearchProvider T (fold pass l s) = Some d \<and> prepopulate_id d = kGoogleEnginePrepopulatedId))"
  using assms(2,3)
proof (induction l arbitrary: s)
  case (Cons e l)
  show ?case
  proof (cases "prepopulate_id e = kGoogleEnginePrepopulatedId")
    case True
    let ?s = "SetUserSelectedDefaultSearchProvider T e s"
    have s: "GetDefaultSearchProvider T ?s = Some e" "GetTemplateURLs T ?s = GetTemplateURLs T s"
      "\<not> is_default_search_managed T ?s" using template_lib_okD(1) [OF assms(1), of e s] Cons.prems by auto
    with Cons.IH [of ?s] Cons.prems True show ?thesis by (simp add: pass_def)
  next
    case False
    with Cons.IH [of s] Cons.prems show ?thesis by (auto simp: pass_def)
  qed
qed simp

lemma removal_pass:
  assumes "template_lib_ok T" "GetDefaultSearchProvider T s = Some d" "prepopulate_id d = kGoogleEnginePrepopulatedId"
    "set l \<subseteq> set (GetTemplateURLs T s)" "distinct l"
  shows "\<exists>s'. remove_engines T l s = Some s' \<and> GetDefaultSearchProvider T s' = Some d \<and>
    set (GetTemplateURLs T s') =
      set (GetTemplateURLs T s) - {e \<in> set l. prepopulate_id e \<noteq> kGoogleEnginePrepopulatedId}"
  using assms(2,4,5)
proof (induction l arbitrary: s)
  case (Cons e l)
  show ?case
  proof (cases "prepopulate_id e = kGoogleEnginePrepopulatedId")
    case True
    with Cons.IH [of s] Cons.prems show ?thesis by auto
  next
    case False
    with assms(3) Cons.prems(1) have "GetDefaultSearchProvider T s \<noteq> Some e" by auto
    with template_lib_okD(3) [OF assms(1), of e s] Cons.prems(2) obtain s1 where
      s1: "RemoveTemplateURL T e s = Some s1" "GetDefaultSearchProvider T s1 = GetDefaultSearchProvider T s"
        "set (GetTemplateURLs T s1) = set (GetTemplateURLs T s) - {e}" by auto
    moreover have "set l \<subseteq> set (GetTemplateURLs T s1)" using Cons.prems(2,3) s1(3) by auto
    ultimately obtain s' where "remove_engines T l s1 = Some s'" "GetDefaultSearchProvider T s' = Some d"
      "set (GetTemplateURLs T s') = set (GetTemplateURLs T s1) - {e \<in> set l. prepopulate_id e \<noteq> kGoogleEnginePrepopulatedId}"
      using Cons.IH [of s1] Cons.prems by auto
    with s1 False show ?thesis by auto
  qed
qed simp

lemma adding_pass:
  assumes "template_lib_ok T"
  defines "pass \<equiv> \<lambda>p s. if p \<noteq> kGoogleEnginePrepopulatedId then AddTemplateURL T p s else s"
  shows "GetDefaultSearchProvider T (fold pass l s) = GetDefaultSearchProvider T s \<and>
    set (GetTemplateURLs T s) \<subseteq> set (GetTemplateURLs T (fold pass l s)) \<and>
    prepopulate_id ` set (GetTemplateURLs T (fold pass l s)) =
      prepopulate_id ` set (GetTemplateURLs T s) \<union> (set l - {kGoogleEnginePrepopulatedId})"
proof (induction l arbitrary: s)
  case (Cons p l)
  show ?case
  proof (cases "p = kGoogleEnginePrepopulatedId")
    case True
    with Cons.IH [of s] show ?thesis by (simp add: pass_def)
  next
    case False
    from template_lib_okD(5) [OF assms(1), of p s] obtain e where
      "prepopulate_id e = p" "set (GetTemplateURLs T (AddTemplateURL T p s)) = insert e (set (GetTemplateURLs T s))" by blast
    with False Cons.IH [of "AddTemplateURL T p s"] template_lib_okD(4) [OF assms(1), of p s] show ?thesis
      by (auto simp: pass_def)
  qed
qed simp

text \<open>
  With Google among the old engines the update never removes the default engine: Google is the default
  afterwards, its engines are kept, and the engines are those of the new country.
\<close>

lemma UpdateSearchEngine_ok:
  assumes "template_lib_ok T" "ts_loaded T s" "\<not> is_default_search_managed T s" "distinct (GetTemplateURLs T s)"
    "e \<in> set (GetTemplateURLs T s)" "prepopulate_id e = kGoogleEnginePrepopulatedId"
    "new \<noteq> []" "new ! 0 = kGoogleEnginePrepopulatedId"
  shows "\<exists>s' d. UpdateSearchEngine T new 0 s = Some s' \<and> GetDefaultSearchProvider T s' = Some d \<and>
    prepopulate_id d = kGoogleEnginePrepopulatedId \<and> e \<in> set (GetTemplateURLs T s') \<and>
    prepopulate_id ` set (GetTemplateURLs T s') = set new"
proof -
  let ?old = "GetTemplateURLs T s" and ?g = kGoogleEnginePrepopulatedId
  define s1 where "s1 = fold (\<lambda>e s. if prepopulate_id e = ?g then SetUserSelectedDefaultSearchProvider T e s else s) ?old s"
  from google_pass [OF assms(1,3) subset_refl] assms(5,6) obtain d where
    d: "GetTemplateURLs T s1 = ?old" "GetDefaultSearchProvider T s1 = Some d" "prepopulate_id d = ?g"
    unfolding s1_def by blast
  from removal_pass [OF assms(1) d(2,3), of ?old] d(1) assms(4) obtain s2 where
    s2: "remove_engines T ?old s1 = Some s2" "GetDefaultSearchProvider T s2 = Some d"
      "set (GetTemplateURLs T s2) = {e \<in> set ?old. prepopulate_id e = ?g}" by auto
  define s3 where "s3 = fold (\<lambda>p s. if p \<noteq> ?g then AddTemplateURL T p s else s) new s2"
  have s3: "GetDefaultSearchProvider T s3 = Some d" "set (GetTemplateURLs T s2) \<subseteq> set (GetTemplateURLs T s3)"
    "prepopulate_id ` set (GetTemplateURLs T s3) = prepopulate_id ` set (GetTemplateURLs T s2) \<union> (set new - {?g})"
    using adding_pass [OF assms(1), of new s2] s2(2) unfolding s3_def by auto
  have "prepopulate_id ` set (GetTemplateURLs T s2) = {?g}" using s2(3) assms(5,6) by auto
  moreover have "?g \<in> set new" using assms(7,8) by (metis length_greater_0_conv nth_mem)
  ultimately have "prepopulate_id ` set (GetTemplateURLs T s3) = set new" using s3(3) by auto
  moreover have "UpdateSearchEngine T new 0 s = Some s3"
    using assms(2,7,8) s2(1) by (simp add: UpdateSearchEngine_def s1_def s3_def Let_def)
  moreover have "e \<in> set (GetTemplateURLs T s3)" using s2(3) s3(2) assms(5,6) by auto
  ultimately show ?thesis using s3(1) d(3) by blast
qed

text \<open>Without Google among them the default engine is one of those to remove, and removing it is not allowed.\<close>

lemma no_google_removes_default:
  assumes "template_lib_ok T" "\<forall>e \<in> set (GetTemplateURLs T s). prepopulate_id e \<noteq> kGoogleEnginePrepopulatedId"
    "distinct (GetTemplateURLs T s)" "GetDefaultSearchProvider T s = Some d" "d \<in> set (GetTemplateURLs T s)"
  shows "UpdateSearchEngine T new k s = None"
proof -
  have "remove_engines T l s' = None"
    if "d \<in> set l" "set l \<subseteq> set (GetTemplateURLs T s')" "distinct l" "GetDefaultSearchProvider T s' = Some d"
      "\<forall>e \<in> set l. prepopulate_id e \<noteq> kGoogleEnginePrepopulatedId" for l s'
    using that
  proof (induction l arbitrary: s')
    case (Cons e l)
    show ?case
    proof (cases "e = d")
      case True
      with template_lib_okD(2) [OF assms(1), of d s'] Cons.prems show ?thesis by simp
    next
      case False
      with template_lib_okD(3) [OF assms(1), of e s'] Cons.prems obtain s1 where
        "RemoveTemplateURL T e s' = Some s1" "GetDefaultSearchProvider T s1 = Some d"
        "set (GetTemplateURLs T s1) = set (GetTemplateURLs T s') - {e}" by auto
      moreover from this False Cons.prems have "remove_engines T l s1 = None" by (intro Cons.IH) auto
      ultimately show ?thesis using Cons.prems(5) by simp
    qed
  qed simp
  from this [OF assms(5) subset_refl assms(3,4,2)]
  have r: "remove_engines T (GetTemplateURLs T s) s = None" .
  have "fold (\<lambda>e s. if prepopulate_id e = kGoogleEnginePrepopulatedId then SetUserSelectedDefaultSearchProvider T e s else s) l s = s"
    if "\<forall>e \<in> set l. prepopulate_id e \<noteq> kGoogleEnginePrepopulatedId" for l
    using that by (induction l) simp_all
  from this [OF assms(2)] r show ?thesis by (simp add: UpdateSearchEngine_def Let_def)
qed

text \<open>
  The country is stored before the policy is looked at. While a policy manages the default engine nothing
  is updated, and after the policy is gone nothing is updated either, for the country is the stored one.
\<close>

lemma managed_update_is_lost:
  assumes "kCountryIDAtInstall st = Some old" "country \<noteq> old" "template_service st = Some s" "is_default_search_managed T s"
  shows "\<exists>st'. UpdateSearchEnginesIfNeeded T country new k st = Some st' \<and> template_service st' = Some s \<and>
    (\<forall>s'. UpdateSearchEnginesIfNeeded T country new k (st'\<lparr>template_service := Some s'\<rparr>) =
       Some (st'\<lparr>template_service := Some s'\<rparr>))"
  using assms by (simp add: UpdateSearchEnginesIfNeeded_def Let_def)

text \<open>The promises can hold: a service that is a list of engines, the default one, and whether it is managed.\<close>

definition demo_template_lib :: "(template_url list \<times> template_url option \<times> bool) template_lib" where
  "demo_template_lib =
     \<lparr>ts_loaded = (\<lambda>_. True), LoadTemplateURLs = (\<lambda>s. s), GetTemplateURLs = fst, GetDefaultSearchProvider = (\<lambda>s. fst (snd s)),
      is_default_search_managed = (\<lambda>s. snd (snd s)),
      SetUserSelectedDefaultSearchProvider = (\<lambda>e (l, d, b). (l, Some e, b)),
      RemoveTemplateURL = (\<lambda>e (l, d, b). if d = Some e then None else Some (filter (\<lambda>x. x \<noteq> e) l, d, b)),
      AddTemplateURL = (\<lambda>p (l, d, b). (l @ [\<lparr>engine_id = length l, prepopulate_id = p\<rparr>], d, b))\<rparr>"

lemma demo_template_lib_ok: "template_lib_ok demo_template_lib"
proof -
  have "\<exists>e. prepopulate_id e = p \<and> insert \<lparr>engine_id = n, prepopulate_id = p\<rparr> A = insert e A" for n p A
    by (rule exI [of _ "\<lparr>engine_id = n, prepopulate_id = p\<rparr>"]) simp
  then show ?thesis by (auto simp: template_lib_ok_def demo_template_lib_def Let_def)
qed

lemma UpdateSearchEngine_demo:
  "UpdateSearchEngine demo_template_lib [1, 7] 0
     ([\<lparr>engine_id = 0, prepopulate_id = 1\<rparr>, \<lparr>engine_id = 1, prepopulate_id = 3\<rparr>], Some \<lparr>engine_id = 1, prepopulate_id = 3\<rparr>, False) =
   Some ([\<lparr>engine_id = 0, prepopulate_id = 1\<rparr>, \<lparr>engine_id = 1, prepopulate_id = 7\<rparr>], Some \<lparr>engine_id = 0, prepopulate_id = 1\<rparr>, False)"
  by (simp add: UpdateSearchEngine_def demo_template_lib_def kGoogleEnginePrepopulatedId_def Let_def)

end
