(* ===== verification/Download_Task.thy ===== *)
theory Download_Task
  imports Event_Machine
begin

text \<open>
  \<open>web/download/download_task_impl.mm\<close> and \<open>web/web_state/error_translation_util.mm\<close>: a download, the
  delegate of its URL session, and the order in which their callbacks run. The session calls its
  delegate on a serial background queue, which posts to the UI thread and waits, for every range of bytes, until
  it is written. The writer belongs to the client: what its calls return is an argument, and a result
  \<open>ERR_IO_PENDING\<close> leaves a callback for later. A failed \<open>DCHECK\<close> and a null dereference are \<open>None\<close>.
\<close>

section \<open>Error codes\<close>

datatype net_error = NET_OK | ERR_IO_PENDING | ERR_FAILED | ERR_ABORTED | ERR_ACCESS_DENIED | ERR_CONNECTION_ABORTED
  | ERR_INVALID_URL | ERR_CONNECTION_TIMED_OUT | ERR_UNKNOWN_URL_SCHEME | ERR_NAME_NOT_RESOLVED
  | ERR_CONNECTION_FAILED | ERR_CONNECTION_CLOSED | ERR_NAME_RESOLUTION_FAILED | ERR_TOO_MANY_REDIRECTS
  | ERR_INSUFFICIENT_RESOURCES | ERR_INTERNET_DISCONNECTED | ERR_INVALID_RESPONSE | ERR_EMPTY_RESPONSE
  | ERR_CONTENT_DECODING_FAILED | ERR_CONTENT_LENGTH_MISMATCH | ERR_FILE_NOT_FOUND | ERR_INVALID_HANDLE
  | ERR_FILE_TOO_BIG | ERR_SSL_PROTOCOL_ERROR | ERR_CERT_DATE_INVALID | ERR_CERT_AUTHORITY_INVALID
  | ERR_BAD_SSL_CLIENT_AUTH_CERT | ERR_SSL_CLIENT_AUTH_CERT_NEEDED

text \<open>The codes of CFNetwork the translation knows, and all others.\<close>

datatype cf_error = kCFURLErrorBackgroundSessionInUseByAnotherProcess | kCFURLErrorBackgroundSessionWasDisconnected
  | kCFURLErrorUnknown | kCFURLErrorCancelled | kCFURLErrorBadURL | kCFURLErrorTimedOut | kCFURLErrorUnsupportedURL
  | kCFURLErrorCannotFindHost | kCFURLErrorCannotConnectToHost | kCFURLErrorNetworkConnectionLost
  | kCFURLErrorDNSLookupFailed | kCFURLErrorHTTPTooManyRedirects | kCFURLErrorResourceUnavailable
  | kCFURLErrorNotConnectedToInternet | kCFURLErrorRedirectToNonExistentLocation | kCFURLErrorBadServerResponse
  | kCFURLErrorUserCancelledAuthentication | kCFURLErrorUserAuthenticationRequired | kCFURLErrorZeroByteResource
  | kCFURLErrorCannotDecodeRawData | kCFURLErrorCannotDecodeContentData | kCFURLErrorCannotParseResponse
  | kCFURLErrorInternationalRoamingOff | kCFURLErrorCallIsActive | kCFURLErrorDataNotAllowed
  | kCFURLErrorRequestBodyStreamExhausted | kCFURLErrorFileDoesNotExist | kCFURLErrorFileIsDirectory
  | kCFURLErrorNoPermissionsToReadFile | kCFURLErrorDataLengthExceedsMaximum | kCFURLErrorSecureConnectionFailed
  | kCFURLErrorServerCertificateHasBadDate | kCFURLErrorServerCertificateUntrusted
  | kCFURLErrorServerCertificateHasUnknownRoot | kCFURLErrorServerCertificateNotYetValid
  | kCFURLErrorClientCertificateRejected | kCFURLErrorClientCertificateRequired | other_ios_code int

text \<open>\<open>GetNetErrorFromIOSErrorCode\<close>; \<^const>\<open>None\<close> is the result \<open>false\<close>.\<close>

fun GetNetErrorFromIOSErrorCode :: "bool \<Rightarrow> cf_error \<Rightarrow> net_error option" where
  "GetNetErrorFromIOSErrorCode app_specific kCFURLErrorBackgroundSessionInUseByAnotherProcess = Some ERR_ACCESS_DENIED"
| "GetNetErrorFromIOSErrorCode app_specific kCFURLErrorBackgroundSessionWasDisconnected = Some ERR_CONNECTION_ABORTED"
| "GetNetErrorFromIOSErrorCode app_specific kCFURLErrorUnknown = Some ERR_FAILED"
| "GetNetErrorFromIOSErrorCode app_specific kCFURLErrorCancelled = Some ERR_ABORTED"
| "GetNetErrorFromIOSErrorCode app_specific kCFURLErrorBadURL = Some ERR_INVALID_URL"
| "GetNetErrorFromIOSErrorCode app_specific kCFURLErrorTimedOut = Some ERR_CONNECTION_TIMED_OUT"
| "GetNetErrorFromIOSErrorCode app_specific kCFURLErrorUnsupportedURL =
     Some (if app_specific then ERR_INVALID_URL else ERR_UNKNOWN_URL_SCHEME)"
| "GetNetErrorFromIOSErrorCode app_specific kCFURLErrorCannotFindHost = Some ERR_NAME_NOT_RESOLVED"
| "GetNetErrorFromIOSErrorCode app_specific kCFURLErrorCannotConnectToHost = Some ERR_CONNECTION_FAILED"
| "GetNetErrorFromIOSErrorCode app_specific kCFURLErrorNetworkConnectionLost = Some ERR_CONNECTION_CLOSED"
| "GetNetErrorFromIOSErrorCode app_specific kCFURLErrorDNSLookupFailed = Some ERR_NAME_RESOLUTION_FAILED"
| "GetNetErrorFromIOSErrorCode app_specific kCFURLErrorHTTPTooManyRedirects = Some ERR_TOO_MANY_REDIRECTS"
| "GetNetErrorFromIOSErrorCode app_specific kCFURLErrorResourceUnavailable = Some ERR_INSUFFICIENT_RESOURCES"
| "GetNetErrorFromIOSErrorCode app_specific kCFURLErrorNotConnectedToInternet = Some ERR_INTERNET_DISCONNECTED"
| "GetNetErrorFromIOSErrorCode app_specific kCFURLErrorRedirectToNonExistentLocation = Some ERR_NAME_NOT_RESOLVED"
| "GetNetErrorFromIOSErrorCode app_specific kCFURLErrorBadServerResponse = Some ERR_INVALID_RESPONSE"
| "GetNetErrorFromIOSErrorCode app_specific kCFURLErrorUserCancelledAuthentication = Some ERR_ABORTED"
| "GetNetErrorFromIOSErrorCode app_specific kCFURLErrorUserAuthenticationRequired = Some ERR_FAILED"
| "GetNetErrorFromIOSErrorCode app_specific kCFURLErrorZeroByteResource = Some ERR_EMPTY_RESPONSE"
| "GetNetErrorFromIOSErrorCode app_specific kCFURLErrorCannotDecodeRawData = Some ERR_CONTENT_DECODING_FAILED"
| "GetNetErrorFromIOSErrorCode app_specific kCFURLErrorCannotDecodeContentData = Some ERR_CONTENT_DECODING_FAILED"
| "GetNetErrorFromIOSErrorCode app_specific kCFURLErrorCannotParseResponse = Some ERR_INVALID_RESPONSE"
| "GetNetErrorFromIOSErrorCode app_specific kCFURLErrorInternationalRoamingOff = Some ERR_INTERNET_DISCONNECTED"
| "GetNetErrorFromIOSErrorCode app_specific kCFURLErrorCallIsActive = Some ERR_CONNECTION_FAILED"
| "GetNetErrorFromIOSErrorCode app_specific kCFURLErrorDataNotAllowed = Some ERR_INTERNET_DISCONNECTED"
| "GetNetErrorFromIOSErrorCode app_specific kCFURLErrorRequestBodyStreamExhausted = Some ERR_CONTENT_LENGTH_MISMATCH"
| "GetNetErrorFromIOSErrorCode app_specific kCFURLErrorFileDoesNotExist = Some ERR_FILE_NOT_FOUND"
| "GetNetErrorFromIOSErrorCode app_specific kCFURLErrorFileIsDirectory = Some ERR_INVALID_HANDLE"
| "GetNetErrorFromIOSErrorCode app_specific kCFURLErrorNoPermissionsToReadFile = Some ERR_ACCESS_DENIED"
| "GetNetErrorFromIOSErrorCode app_specific kCFURLErrorDataLengthExceedsMaximum = Some ERR_FILE_TOO_BIG"
| "GetNetErrorFromIOSErrorCode app_specific kCFURLErrorSecureConnectionFailed = Some ERR_SSL_PROTOCOL_ERROR"
| "GetNetErrorFromIOSErrorCode app_specific kCFURLErrorServerCertificateHasBadDate = Some ERR_CERT_DATE_INVALID"
| "GetNetErrorFromIOSErrorCode app_specific kCFURLErrorServerCertificateUntrusted = Some ERR_CERT_AUTHORITY_INVALID"
| "GetNetErrorFromIOSErrorCode app_specific kCFURLErrorServerCertificateHasUnknownRoot = Some ERR_CERT_AUTHORITY_INVALID"
| "GetNetErrorFromIOSErrorCode app_specific kCFURLErrorServerCertificateNotYetValid = Some ERR_CERT_DATE_INVALID"
| "GetNetErrorFromIOSErrorCode app_specific kCFURLErrorClientCertificateRejected = Some ERR_BAD_SSL_CLIENT_AUTH_CERT"
| "GetNetErrorFromIOSErrorCode app_specific kCFURLErrorClientCertificateRequired = Some ERR_SSL_CLIENT_AUTH_CERT_NEEDED"
| "GetNetErrorFromIOSErrorCode app_specific (other_ios_code n) = None"

text \<open>
  Code outside the repository: the numbers of the net errors, the scheme and the parser of data URLs
  (the type it writes, and the data if it succeeds), and the client's test for its own URLs.
\<close>

record 'u download_lib =
  net_value :: "net_error \<Rightarrow> int"
  SchemeIs_data :: "'u \<Rightarrow> bool"
  DataURL_Parse :: "'u \<Rightarrow> string \<times> string option"
  client_IsAppSpecificURL :: "'u \<Rightarrow> bool"

text \<open>What \<open>net_errors.h\<close> documents: \<open>OK\<close> is zero, errors are negative, and their numbers differ.\<close>

definition net_errors_ok :: "'u download_lib \<Rightarrow> bool" where
  "net_errors_ok L \<longleftrightarrow> inj (net_value L) \<and> (\<forall>e. net_value L e \<le> 0) \<and> net_value L NET_OK = 0"

definition GetNetErrorCodeFromNSError :: "'u download_lib \<Rightarrow> cf_error option \<Rightarrow> 'u \<Rightarrow> int" where
  "GetNetErrorCodeFromNSError L error url =
     (case error of
        None \<Rightarrow> 0
      | Some code \<Rightarrow>
          (case GetNetErrorFromIOSErrorCode (client_IsAppSpecificURL L url) code of
             Some e \<Rightarrow> net_value L e | None \<Rightarrow> net_value L ERR_FAILED))"

text \<open>
  The properties of the session task when they are read. The quotient of the percentage is computed in \<open>double\<close> and truncated;
  for files below \<open>2 ^ 46\<close> bytes that is the integer quotient.
\<close>

record 'u task_info =
  currentRequest_URL :: 'u
  countOfBytesReceived :: int
  countOfBytesExpectedToReceive :: int
  response_MIMEType :: "string option"
  response_statusCode :: "int option"

definition GetTaskPercentComplete :: "'u task_info \<Rightarrow> int option" where
  "GetTaskPercentComplete task =
     (if countOfBytesExpectedToReceive task = 0 then Some 100
      else if countOfBytesExpectedToReceive task = - 1 then Some (- 1)
      else do {
        check (countOfBytesReceived task \<le> countOfBytesExpectedToReceive task);
        Some (100 * countOfBytesReceived task div countOfBytesExpectedToReceive task) })"

section \<open>State\<close>

datatype download_state = kNotStarted | kInProgress | kCancelled | kComplete

datatype download_call = OnDownloadUpdated nat download_state | OnDownloadDestroyed nat | OnTaskDestroyed

datatype writer_call = Write nat string | Finish nat int

datatype writer_callback = ChunkWritten | DataUrlWritten | DownloadFinished

text \<open>A task is a number; a writer is a number; the session is the list of its cookies.\<close>

record 'u download_task =
  dt_state :: download_state
  dt_writer :: "nat option"
  original_url :: 'u
  error_code :: int
  http_code :: int
  total_bytes :: int
  received_bytes :: int
  percent_complete :: int
  content_disposition :: string
  original_mime_type :: string
  mime_type :: string
  page_transition :: int
  task_identifier :: string
  has_performed_background_download :: bool
  has_delegate :: bool
  url_session :: "string list option"
  session_task :: "nat option"
  observers :: "nat list"
  task_destroyed :: bool

text \<open>
  The calls the system makes on the queue of the delegate, with the ranges still to be handled of the call
  that runs, and the blocks it posts to the UI thread.
\<close>

datatype session_call = didReceiveData nat "string list" | didCompleteWithError nat "cf_error option"

datatype ui_block = PropertiesBlock nat "cf_error option" bool | DataBlock nat string

text \<open>
  The task with everything that waits: cookies asked for, the delegate queue, its semaphore, posted
  blocks, callbacks of the writer, and session tasks that the system still runs; then what happened so far.
\<close>

record 'u downloads =
  dl_task :: "'u download_task"
  cookie_requests :: nat
  session_queue :: "session_call list"
  semaphore_wait :: bool
  ui_blocks :: "ui_block list"
  writer_callbacks :: "writer_callback list"
  running_tasks :: "nat list"
  started_tasks :: nat
  cancelled_tasks :: "nat list"
  writer_calls :: "writer_call list"
  dl_calls :: "download_call list"

definition DownloadTaskImpl :: "'u \<Rightarrow> string \<Rightarrow> int \<Rightarrow> string \<Rightarrow> int \<Rightarrow> string \<Rightarrow> 'u download_task" where
  "DownloadTaskImpl url disposition bytes mime transition ident =
     \<lparr>dt_state = kNotStarted, dt_writer = None, original_url = url, error_code = 0, http_code = - 1,
      total_bytes = bytes, received_bytes = 0, percent_complete = - 1, content_disposition = disposition,
      original_mime_type = mime, mime_type = mime, page_transition = transition, task_identifier = ident,
      has_performed_background_download = False, has_delegate = True, url_session = None, session_task = None,
      observers = [], task_destroyed = False\<rparr>"

definition new_download :: "'u download_task \<Rightarrow> 'u downloads" where
  "new_download t =
     \<lparr>dl_task = t, cookie_requests = 0, session_queue = [], semaphore_wait = False, ui_blocks = [],
      writer_callbacks = [], running_tasks = [], started_tasks = 0, cancelled_tasks = [], writer_calls = [],
      dl_calls = []\<rparr>"

abbreviation in_task :: "('u download_task \<Rightarrow> 'u download_task) \<Rightarrow> 'u downloads \<Rightarrow> 'u downloads" where
  "in_task f d \<equiv> d\<lparr>dl_task := f (dl_task d)\<rparr>"

section \<open>Operations\<close>

definition notify_updated :: "'u downloads \<Rightarrow> 'u downloads" where
  "notify_updated d =
     d\<lparr>dl_calls := dl_calls d @ map (\<lambda>ob. OnDownloadUpdated ob (dt_state (dl_task d))) (observers (dl_task d))\<rparr>"

definition OnDownloadFinished :: "int \<Rightarrow> 'u downloads \<Rightarrow> 'u downloads" where
  "OnDownloadFinished code d =
     notify_updated (in_task (\<lambda>t. t\<lparr>error_code := code, dt_state := kComplete, session_task := None\<rparr>) d)"

text \<open>\<open>writer_->Finish\<close> with the callback \<open>OnDownloadFinished\<close>; \<open>result\<close> is what the writer returns.\<close>

definition finish_writer :: "'u download_lib \<Rightarrow> int \<Rightarrow> int \<Rightarrow> 'u downloads \<Rightarrow> 'u downloads option" where
  "finish_writer L code result d = do {
     w \<leftarrow> dt_writer (dl_task d);
     let d = d\<lparr>writer_calls := writer_calls d @ [Finish w code]\<rparr>;
     Some (if result \<noteq> net_value L ERR_IO_PENDING then OnDownloadFinished code d
           else d\<lparr>writer_callbacks := writer_callbacks d @ [DownloadFinished]\<rparr>) }"

definition OnDataUrlWritten :: "'u download_lib \<Rightarrow> int \<Rightarrow> int \<Rightarrow> 'u downloads \<Rightarrow> 'u downloads option" where
  "OnDataUrlWritten L bytes_written result d =
     finish_writer L (net_value L NET_OK) result
       (in_task (\<lambda>t. t\<lparr>percent_complete := 100, total_bytes := bytes_written, received_bytes := bytes_written\<rparr>) d)"

definition StartDataUrlParsing :: "'u download_lib \<Rightarrow> int \<Rightarrow> int \<Rightarrow> 'u downloads \<Rightarrow> 'u downloads option" where
  "StartDataUrlParsing L written result d =
     (case DataURL_Parse L (original_url (dl_task d)) of
        (mime, None) \<Rightarrow>
          Some (OnDownloadFinished (net_value L ERR_INVALID_URL) (in_task (\<lambda>t. t\<lparr>mime_type := mime\<rparr>) d))
      | (mime, Some data) \<Rightarrow> do {
          w \<leftarrow> dt_writer (dl_task d);
          let d = in_task (\<lambda>t. t\<lparr>mime_type := mime\<rparr>) d;
          let d = d\<lparr>writer_calls := writer_calls d @ [Write w data]\<rparr>;
          if written \<noteq> net_value L ERR_IO_PENDING then OnDataUrlWritten L written result d
          else Some (d\<lparr>writer_callbacks := writer_callbacks d @ [DataUrlWritten]\<rparr>) })"

text \<open>\<open>Start\<close>; cookies are always delivered later, on iOS 10 as an empty array.\<close>

definition Start :: "'u download_lib \<Rightarrow> nat \<Rightarrow> int \<Rightarrow> int \<Rightarrow> 'u downloads \<Rightarrow> 'u downloads option" where
  "Start L writer written result d = do {
     check (dt_state (dl_task d) \<noteq> kInProgress);
     let d = in_task (\<lambda>t. t\<lparr>dt_writer := Some writer, percent_complete := 0, received_bytes := 0,
                           dt_state := kInProgress\<rparr>) d;
     if SchemeIs_data L (original_url (dl_task d)) then StartDataUrlParsing L written result d
     else Some (d\<lparr>cookie_requests := Suc (cookie_requests d)\<rparr>) }"

text \<open>\<open>CreateSession\<close> of the task; the session keeps its delegate until it is invalidated, which it never is.\<close>

definition CreateSession :: "string list \<Rightarrow> 'u downloads \<Rightarrow> 'u downloads option" where
  "CreateSession cookies d = do {
     check (task_identifier (dl_task d) \<noteq> []);
     check (has_delegate (dl_task d));
     Some (in_task (\<lambda>t. t\<lparr>url_session := Some cookies\<rparr>) d) }"

definition StartWithCookies :: "string list \<Rightarrow> bool \<Rightarrow> 'u downloads \<Rightarrow> 'u downloads option" where
  "StartWithCookies cookies application_active d = do {
     check (dt_writer (dl_task d) \<noteq> None);
     d \<leftarrow> (if url_session (dl_task d) = None then CreateSession cookies d else Some d);
     Some (notify_updated
       ((in_task (\<lambda>t. t\<lparr>has_performed_background_download := \<not> application_active,
                       session_task := Some (started_tasks d)\<rparr>) d)
        \<lparr>running_tasks := running_tasks d @ [started_tasks d], started_tasks := Suc (started_tasks d)\<rparr>)) }"

definition cancel_session_task :: "'u downloads \<Rightarrow> 'u downloads" where
  "cancel_session_task d =
     (in_task (\<lambda>t. t\<lparr>session_task := None\<rparr>) d)
       \<lparr>cancelled_tasks := cancelled_tasks d @ (case session_task (dl_task d) of None \<Rightarrow> [] | Some i \<Rightarrow> [i])\<rparr>"

definition Cancel :: "'u downloads \<Rightarrow> 'u downloads" where
  "Cancel d = notify_updated (in_task (\<lambda>t. t\<lparr>dt_state := kCancelled\<rparr>) (cancel_session_task d))"

definition ShutDown :: "'u downloads \<Rightarrow> 'u downloads" where
  "ShutDown d = in_task (\<lambda>t. t\<lparr>has_delegate := False\<rparr>) (cancel_session_task d)"

definition delete_DownloadTaskImpl :: "'u downloads \<Rightarrow> 'u downloads" where
  "delete_DownloadTaskImpl d =
     in_task (\<lambda>t. t\<lparr>task_destroyed := True\<rparr>) (ShutDown (d
       \<lparr>dl_calls := dl_calls d @ map OnDownloadDestroyed (observers (dl_task d)) @
          (if has_delegate (dl_task d) then [OnTaskDestroyed] else [])\<rparr>))"

definition WillResignActive :: "'u downloads \<Rightarrow> 'u downloads" where
  "WillResignActive d =
     (if dt_state (dl_task d) = kInProgress then in_task (\<lambda>t. t\<lparr>has_performed_background_download := True\<rparr>) d else d)"

definition IsDone :: "'u download_task \<Rightarrow> bool" where
  "IsDone t \<longleftrightarrow> dt_state t = kComplete \<or> dt_state t = kCancelled"

definition task_AddObserver :: "nat \<Rightarrow> 'u downloads \<Rightarrow> 'u downloads option" where
  "task_AddObserver ob d = do {
     check (ob \<notin> set (observers (dl_task d)));
     Some (in_task (\<lambda>t. t\<lparr>observers := observers t @ [ob]\<rparr>) d) }"

definition task_RemoveObserver :: "nat \<Rightarrow> 'u downloads \<Rightarrow> 'u downloads option" where
  "task_RemoveObserver ob d = do {
     check (ob \<in> set (observers (dl_task d)));
     Some (in_task (\<lambda>t. t\<lparr>observers := remove1 ob (observers t)\<rparr>) d) }"

section \<open>Callbacks\<close>

text \<open>The block of \<open>CreateSession\<close> that updates the properties; \<open>result\<close> is the writer's answer to \<open>Finish\<close>.\<close>

definition update_properties :: "'u download_lib \<Rightarrow> 'u task_info \<Rightarrow> cf_error option \<Rightarrow> 'u downloads \<Rightarrow> 'u downloads option" where
  "update_properties L task error d = do {
     percent \<leftarrow> GetTaskPercentComplete task;
     Some (in_task (\<lambda>t. t
       \<lparr>error_code := GetNetErrorCodeFromNSError L error (currentRequest_URL task),
        percent_complete := percent,
        received_bytes := countOfBytesReceived task,
        total_bytes := (if total_bytes t = - 1 \<or> countOfBytesExpectedToReceive task \<noteq> 0
                        then countOfBytesExpectedToReceive task else total_bytes t),
        mime_type := (case response_MIMEType task of None \<Rightarrow> mime_type t | Some mime \<Rightarrow> mime),
        http_code := (case response_statusCode task of None \<Rightarrow> http_code t | Some code \<Rightarrow> code)\<rparr>) d) }"

definition propertiesBlock ::
  "'u download_lib \<Rightarrow> 'u task_info \<Rightarrow> cf_error option \<Rightarrow> bool \<Rightarrow> int \<Rightarrow> 'u downloads \<Rightarrow> 'u downloads option" where
  "propertiesBlock L task error terminal_callback result d =
     (if task_destroyed (dl_task d) then Some d
      else do {
        d \<leftarrow> update_properties L task error d;
        if \<not> terminal_callback then Some (notify_updated d)
        else finish_writer L (error_code (dl_task d)) result d })"

text \<open>The block that writes data; the completion handler signals the semaphore.\<close>

definition dataBlock :: "'u download_lib \<Rightarrow> string \<Rightarrow> int \<Rightarrow> 'u downloads \<Rightarrow> 'u downloads option" where
  "dataBlock L buffer result d =
     (if task_destroyed (dl_task d) then Some (d\<lparr>semaphore_wait := False\<rparr>)
      else do {
        w \<leftarrow> dt_writer (dl_task d);
        let d = d\<lparr>writer_calls := writer_calls d @ [Write w buffer]\<rparr>;
        Some (if result = net_value L ERR_IO_PENDING
              then d\<lparr>writer_callbacks := writer_callbacks d @ [ChunkWritten]\<rparr>
              else d\<lparr>semaphore_wait := False\<rparr>) })"

text \<open>
  The delegate on its queue: \<open>didReceiveData\<close> posts a block for each range and waits; after the last one it posts the
  update. A call stays at the head of the queue until it returns.
\<close>

definition session_delegate_step :: "'u downloads \<Rightarrow> 'u downloads" where
  "session_delegate_step d =
     (if semaphore_wait d then d
      else case session_queue d of
        [] \<Rightarrow> d
      | didReceiveData i (bytes # ranges) # calls \<Rightarrow>
          d\<lparr>session_queue := didReceiveData i ranges # calls, ui_blocks := ui_blocks d @ [DataBlock i bytes],
            semaphore_wait := True\<rparr>
      | didReceiveData i [] # calls \<Rightarrow>
          d\<lparr>session_queue := calls, ui_blocks := ui_blocks d @ [PropertiesBlock i None False]\<rparr>
      | didCompleteWithError i error # calls \<Rightarrow>
          d\<lparr>session_queue := calls, ui_blocks := ui_blocks d @ [PropertiesBlock i error True]\<rparr>)"

section \<open>Events\<close>

text \<open>
  What the client, the system, the writer and the two threads may do next. The UI thread runs its
  first block, the writer answers its \<open>n\<close>th callback, and the system calls the delegate of the session.
\<close>

datatype 'u download_event =
    StartDownload nat int int | CancelDownload | ShutDownTask | DestroyTask | ResignActive
  | WatchDownload nat | UnwatchDownload nat
  | CookiesReady "string list" bool
  | SystemCalls session_call
  | DelegateRuns
  | UIRuns "'u task_info" int
  | WriterCalls nat int int

definition run_ui_block :: "'u download_lib \<Rightarrow> 'u task_info \<Rightarrow> int \<Rightarrow> 'u downloads \<Rightarrow> 'u downloads option" where
  "run_ui_block L task result d =
     (case ui_blocks d of
        [] \<Rightarrow> Some d
      | PropertiesBlock i error terminal # blocks \<Rightarrow> propertiesBlock L task error terminal result (d\<lparr>ui_blocks := blocks\<rparr>)
      | DataBlock i buffer # blocks \<Rightarrow> dataBlock L buffer result (d\<lparr>ui_blocks := blocks\<rparr>))"

definition run_writer_callback :: "'u download_lib \<Rightarrow> nat \<Rightarrow> int \<Rightarrow> int \<Rightarrow> 'u downloads \<Rightarrow> 'u downloads option" where
  "run_writer_callback L n code result d =
     (if n < length (writer_callbacks d) then
        (let callback = writer_callbacks d ! n; d = d\<lparr>writer_callbacks := remove_at n (writer_callbacks d)\<rparr>
         in case callback of
              ChunkWritten \<Rightarrow> Some (d\<lparr>semaphore_wait := False\<rparr>)
            | DataUrlWritten \<Rightarrow> (if task_destroyed (dl_task d) then Some d else OnDataUrlWritten L code result d)
            | DownloadFinished \<Rightarrow> Some (if task_destroyed (dl_task d) then d else OnDownloadFinished code d))
      else Some d)"

definition system_calls :: "session_call \<Rightarrow> 'u downloads \<Rightarrow> 'u downloads" where
  "system_calls c d = d\<lparr>session_queue := session_queue d @ [c],
     running_tasks := (case c of didReceiveData i rs \<Rightarrow> running_tasks d
                       | didCompleteWithError i e \<Rightarrow> filter (\<lambda>j. j \<noteq> i) (running_tasks d))\<rparr>"

definition cookies_ready :: "string list \<Rightarrow> bool \<Rightarrow> 'u downloads \<Rightarrow> 'u downloads option" where
  "cookies_ready cookies application_active d =
     (case cookie_requests d of
        0 \<Rightarrow> Some d
      | Suc n \<Rightarrow>
          (let d = d\<lparr>cookie_requests := n\<rparr>
           in if task_destroyed (dl_task d) then Some d else StartWithCookies cookies application_active d))"

fun download_step :: "'u download_lib \<Rightarrow> 'u download_event \<Rightarrow> 'u downloads \<Rightarrow> 'u downloads option" where
  "download_step L (StartDownload w written result) d = Start L w written result d"
| "download_step L CancelDownload d = Some (Cancel d)"
| "download_step L ShutDownTask d = Some (ShutDown d)"
| "download_step L DestroyTask d = Some (delete_DownloadTaskImpl d)"
| "download_step L ResignActive d = Some (WillResignActive d)"
| "download_step L (WatchDownload ob) d = task_AddObserver ob d"
| "download_step L (UnwatchDownload ob) d = task_RemoveObserver ob d"
| "download_step L (CookiesReady cookies active) d = cookies_ready cookies active d"
| "download_step L (SystemCalls c) d = Some (system_calls c d)"
| "download_step L DelegateRuns d = Some (session_delegate_step d)"
| "download_step L (UIRuns task result) d = run_ui_block L task result d"
| "download_step L (WriterCalls n code result) d = run_writer_callback L n code result d"

end
