(* ===== verification/Download_Task_Props.thy ===== *)
theory Download_Task_Props
  imports Download_Task "HOL-Library.Sublist"
begin

text \<open>
  What a client may rely on: a download that is started once hands its writer the bytes the system
  delivered, in order and each once, and finishes the writer after the last of them, whatever the order
  in which the queues run and the writer answers. The last section has the cases in which a download
  does not keep what \<open>web/public/download/download_task.h\<close> promises.
\<close>

section \<open>Bytes on their way\<close>

fun block_data :: "ui_block \<Rightarrow> string list" where
  "block_data (DataBlock i b) = [b]"
| "block_data (PropertiesBlock i e t) = []"

fun call_data :: "session_call \<Rightarrow> string list" where
  "call_data (didReceiveData i rs) = rs"
| "call_data (didCompleteWithError i e) = []"

fun write_data :: "writer_call \<Rightarrow> string list" where
  "write_data (Write w b) = [b]"
| "write_data (Finish w c) = []"

fun event_data :: "'u download_event \<Rightarrow> string list" where
  "event_data (SystemCalls c) = call_data c"
| "event_data _ = []"

definition written :: "'u downloads \<Rightarrow> string list" where
  "written d = concat (map write_data (writer_calls d))"

definition posted :: "'u downloads \<Rightarrow> string list" where
  "posted d = concat (map block_data (ui_blocks d))"

definition queued :: "'u downloads \<Rightarrow> string list" where
  "queued d = concat (map call_data (session_queue d))"

definition delivered :: "'u download_event list \<Rightarrow> string list" where
  "delivered es = concat (map event_data es)"

fun completes_call :: "session_call \<Rightarrow> bool" where
  "completes_call (didCompleteWithError i e) \<longleftrightarrow> True"
| "completes_call (didReceiveData i rs) \<longleftrightarrow> False"

fun terminal_block :: "ui_block \<Rightarrow> bool" where
  "terminal_block (PropertiesBlock i e t) \<longleftrightarrow> t"
| "terminal_block (DataBlock i b) \<longleftrightarrow> False"

fun finishes :: "writer_call \<Rightarrow> bool" where
  "finishes (Finish w c) \<longleftrightarrow> True"
| "finishes (Write w b) \<longleftrightarrow> False"

fun completion_last :: "session_call list \<Rightarrow> bool" where
  "completion_last [] \<longleftrightarrow> True"
| "completion_last (c # cs) \<longleftrightarrow> (completes_call c \<longrightarrow> cs = []) \<and> completion_last cs"

text \<open>The ends of the download: in the queue of the delegate, among the posted blocks, at the writer.\<close>

definition ends :: "'u downloads \<Rightarrow> nat" where
  "ends d = length (filter completes_call (session_queue d)) + length (filter terminal_block (ui_blocks d)) +
     length (filter finishes (writer_calls d))"

lemma completion_last_snoc: "completion_last (cs @ [c]) \<longleftrightarrow> completion_last cs \<and> filter completes_call cs = []"
  by (induction cs) auto

lemma count_list_remove_at:
  "n < length xs \<Longrightarrow> count_list xs y = count_list (remove_at n xs) y + (if xs ! n = y then 1 else 0)"
  by (subst (1) remove_at_split [of n]) (auto simp: remove_at_def)

section \<open>What the environment does\<close>

text \<open>
  The client starts a download once, does not use it after its destruction, and keeps the controller until the cookies have
  come; the system calls the delegate for tasks it runs, the completion last, and counts bytes as documented.
\<close>

definition bytes_ok :: "'u task_info \<Rightarrow> bool" where
  "bytes_ok task \<longleftrightarrow> countOfBytesExpectedToReceive task = - 1 \<or> countOfBytesExpectedToReceive task = 0 \<or>
     countOfBytesReceived task \<le> countOfBytesExpectedToReceive task"

definition by_client :: "'u download_event \<Rightarrow> bool" where
  "by_client e \<longleftrightarrow> (case e of StartDownload w a b \<Rightarrow> True | CancelDownload \<Rightarrow> True | ShutDownTask \<Rightarrow> True |
     DestroyTask \<Rightarrow> True | WatchDownload ob \<Rightarrow> True | UnwatchDownload ob \<Rightarrow> True | _ \<Rightarrow> False)"

definition download_allowed :: "'u download_event \<Rightarrow> 'u downloads \<Rightarrow> bool" where
  "download_allowed e d \<longleftrightarrow> (by_client e \<longrightarrow> \<not> task_destroyed (dl_task d)) \<and>
     (case e of
        StartDownload w a b \<Rightarrow> dt_writer (dl_task d) = None
      | WatchDownload ob \<Rightarrow> ob \<notin> set (observers (dl_task d))
      | UnwatchDownload ob \<Rightarrow> ob \<in> set (observers (dl_task d))
      | CookiesReady cookies active \<Rightarrow> task_destroyed (dl_task d) \<or> has_delegate (dl_task d)
      | SystemCalls (didReceiveData i rs) \<Rightarrow> i \<in> set (running_tasks d)
      | SystemCalls (didCompleteWithError i err) \<Rightarrow> i \<in> set (running_tasks d)
      | UIRuns task result \<Rightarrow> bytes_ok task
      | _ \<Rightarrow> True)"

section \<open>The invariant\<close>

definition once_started :: "'u downloads \<Rightarrow> bool" where
  "once_started d \<longleftrightarrow> cookie_requests d + started_tasks d \<le> 1 \<and>
     (dt_writer (dl_task d) = None \<longrightarrow> cookie_requests d + started_tasks d = 0 \<and> dt_state (dl_task d) \<noteq> kInProgress) \<and>
     running_tasks d \<in> {[], [0]} \<and>
     (started_tasks d = 0 \<longrightarrow> running_tasks d = [] \<and> session_queue d = [] \<and> ui_blocks d = [] \<and>
        writer_callbacks d = [] \<and> writer_calls d = [])"

definition one_range :: "'u downloads \<Rightarrow> bool" where
  "one_range d \<longleftrightarrow> length (posted d) + count_list (writer_callbacks d) ChunkWritten = of_bool (semaphore_wait d) \<and>
     DataUrlWritten \<notin> set (writer_callbacks d)"

definition ends_once :: "'u downloads \<Rightarrow> bool" where
  "ends_once d \<longleftrightarrow> completion_last (session_queue d) \<and> ends d \<le> 1 \<and> (ends d = 1 \<longrightarrow> running_tasks d = []) \<and>
     (filter terminal_block (ui_blocks d) \<noteq> [] \<or> filter finishes (writer_calls d) \<noteq> [] \<longrightarrow>
        posted d = [] \<and> session_queue d = [])"

definition writes_then_finish :: "'u downloads \<Rightarrow> bool" where
  "writes_then_finish d \<longleftrightarrow> (\<exists>w fin. writer_calls d = map (Write w) (written d) @ fin \<and>
     (fin = [] \<or> (\<exists>code. fin = [Finish w code])) \<and> (writer_calls d \<noteq> [] \<longrightarrow> dt_writer (dl_task d) = Some w))"

definition nothing_lost :: "string list \<Rightarrow> 'u downloads \<Rightarrow> bool" where
  "nothing_lost sent d \<longleftrightarrow> (\<exists>rest. sent = written d @ rest \<and>
     (\<not> task_destroyed (dl_task d) \<longrightarrow> rest = posted d @ queued d) \<and>
     (filter finishes (writer_calls d) \<noteq> [] \<longrightarrow> rest = []) \<and>
     (dt_state (dl_task d) = kComplete \<longrightarrow> filter finishes (writer_calls d) \<noteq> []) \<and>
     (DownloadFinished \<in> set (writer_callbacks d) \<longrightarrow> filter finishes (writer_calls d) \<noteq> []))"

definition download_inv :: "'u download_lib \<Rightarrow> string list \<Rightarrow> 'u downloads \<Rightarrow> bool" where
  "download_inv L sent d \<longleftrightarrow> \<not> SchemeIs_data L (original_url (dl_task d)) \<and> task_identifier (dl_task d) \<noteq> [] \<and>
     once_started d \<and> one_range d \<and> ends_once d \<and> writes_then_finish d \<and> nothing_lost sent d"

lemmas inv_parts = once_started_def one_range_def ends_once_def writes_then_finish_def nothing_lost_def
lemmas data_defs = written_def posted_def queued_def ends_def

text \<open>The bytes under way do not depend on the members of the task or on the waiting callbacks.\<close>

lemma data_frame [simp]:
  "written (d\<lparr>dl_task := x\<rparr>) = written d" "posted (d\<lparr>dl_task := x\<rparr>) = posted d" "queued (d\<lparr>dl_task := x\<rparr>) = queued d"
  "ends (d\<lparr>dl_task := x\<rparr>) = ends d" "written (d\<lparr>writer_callbacks := cb\<rparr>) = written d"
  "posted (d\<lparr>writer_callbacks := cb\<rparr>) = posted d" "queued (d\<lparr>writer_callbacks := cb\<rparr>) = queued d"
  "ends (d\<lparr>writer_callbacks := cb\<rparr>) = ends d" "written (d\<lparr>semaphore_wait := b\<rparr>) = written d"
  "posted (d\<lparr>semaphore_wait := b\<rparr>) = posted d" "queued (d\<lparr>semaphore_wait := b\<rparr>) = queued d"
  "ends (d\<lparr>semaphore_wait := b\<rparr>) = ends d"
  by (simp_all add: data_defs)

lemma download_inv_new:
  assumes "\<not> SchemeIs_data L url" "ident \<noteq> []"
  shows "download_inv L [] (new_download (DownloadTaskImpl url disposition bytes mime transition ident))"
  using assms by (auto simp: download_inv_def inv_parts data_defs new_download_def DownloadTaskImpl_def)

text \<open>Most operations leave alone what the invariant looks at.\<close>

definition same_payload :: "'u downloads \<Rightarrow> 'u downloads \<Rightarrow> bool" where
  "same_payload d d' \<longleftrightarrow> session_queue d' = session_queue d \<and> semaphore_wait d' = semaphore_wait d \<and>
     ui_blocks d' = ui_blocks d \<and> writer_callbacks d' = writer_callbacks d \<and> writer_calls d' = writer_calls d \<and>
     dt_writer (dl_task d') = dt_writer (dl_task d) \<and> original_url (dl_task d') = original_url (dl_task d) \<and>
     task_identifier (dl_task d') = task_identifier (dl_task d)"

definition same_traffic :: "'u downloads \<Rightarrow> 'u downloads \<Rightarrow> bool" where
  "same_traffic d d' \<longleftrightarrow> same_payload d d' \<and> cookie_requests d' = cookie_requests d \<and>
     started_tasks d' = started_tasks d \<and> running_tasks d' = running_tasks d"

lemma same_payload_inv:
  assumes "download_inv L sent d" "same_payload d d'" "once_started d'" "running_tasks d' = running_tasks d \<or> ends d = 0"
    "dt_state (dl_task d') = dt_state (dl_task d) \<or> dt_state (dl_task d') = kCancelled"
    "task_destroyed (dl_task d) \<longrightarrow> task_destroyed (dl_task d')"
  shows "download_inv L sent d'"
proof -
  have "written d' = written d" "posted d' = posted d" "queued d' = queued d" "ends d' = ends d"
    using assms(2) by (simp_all add: data_defs same_payload_def)
  note eqs = this assms(2) [unfolded same_payload_def]
  have inv: "one_range d" "ends_once d" "writes_then_finish d" "nothing_lost sent d"
    using assms(1) by (simp_all add: download_inv_def)
  have "one_range d'" "writes_then_finish d'"
    using eqs inv(1,3) by (simp_all add: one_range_def writes_then_finish_def)
  moreover have "ends_once d'" using eqs inv(2) assms(4) by (auto simp: ends_once_def)
  moreover have "nothing_lost sent d'" using assms(5,6) inv(4) eqs by (auto simp: nothing_lost_def)
  ultimately show ?thesis using assms(1,3) eqs by (simp add: download_inv_def)
qed

lemma same_traffic_inv:
  assumes "download_inv L sent d" "same_traffic d d'"
    "dt_state (dl_task d') = dt_state (dl_task d) \<or> dt_state (dl_task d') = kCancelled"
    "task_destroyed (dl_task d) \<longrightarrow> task_destroyed (dl_task d')"
  shows "download_inv L sent d'"
proof -
  have "once_started d" using assms(1) by (simp add: download_inv_def)
  then have "once_started d'"
    using assms(2,3) by (auto simp: once_started_def same_traffic_def same_payload_def)
  then show ?thesis
    using same_payload_inv [OF assms(1) _ _ _ assms(3,4)] assms(2) by (simp add: same_traffic_def)
qed

lemma notify_updated_traffic [simp]:
  "same_traffic d (notify_updated d')  \<longleftrightarrow> same_traffic d d'" "dl_task (notify_updated d) = dl_task d"
  "written (notify_updated d) = written d" "posted (notify_updated d) = posted d" "queued (notify_updated d) = queued d"
  "ends (notify_updated d) = ends d" "writer_calls (notify_updated d) = writer_calls d"
  "writer_callbacks (notify_updated d) = writer_callbacks d" "session_queue (notify_updated d) = session_queue d"
  "ui_blocks (notify_updated d) = ui_blocks d" "running_tasks (notify_updated d) = running_tasks d"
  "started_tasks (notify_updated d) = started_tasks d" "cookie_requests (notify_updated d) = cookie_requests d"
  "semaphore_wait (notify_updated d) = semaphore_wait d"
  by (simp_all add: same_traffic_def same_payload_def notify_updated_def data_defs)

lemma notify_updated_inv [simp]: "download_inv L sent (notify_updated d) \<longleftrightarrow> download_inv L sent d"
  by (simp add: download_inv_def inv_parts)

lemma step_client:
  assumes "download_inv L sent d" "download_allowed e d" "by_client e \<or> e = ResignActive"
  shows "\<exists>d'. download_step L e d = Some d' \<and> download_inv L sent d'"
proof (cases e)
  case (StartDownload w a b)
  have w: "dt_writer (dl_task d) = None" using assms(2) StartDownload by (simp add: download_allowed_def)
  let ?d = "(in_task (\<lambda>t. t\<lparr>dt_writer := Some w, percent_complete := 0, received_bytes := 0, dt_state := kInProgress\<rparr>) d)
    \<lparr>cookie_requests := Suc (cookie_requests d)\<rparr>"
  have s: "Start L w a b d = Some ?d"
    using assms(1) w by (simp add: Start_def download_inv_def once_started_def Let_def)
  have e: "cookie_requests d = 0" "started_tasks d = 0" "running_tasks d = []" "session_queue d = []" "ui_blocks d = []"
    "writer_callbacks d = []" "writer_calls d = []"
    using assms(1) w by (auto simp: download_inv_def once_started_def)
  have inv: "one_range d" "nothing_lost sent d" using assms(1) by (simp_all add: download_inv_def)
  have t: "\<not> task_destroyed (dl_task d)"
    using assms(2) StartDownload by (simp add: download_allowed_def by_client_def)
  have "written d = []" "posted d = []" "queued d = []" "ends d = 0" using e by (simp_all add: data_defs)
  then have "sent = []" "\<not> semaphore_wait d"
    using inv t e by (auto simp: nothing_lost_def one_range_def)
  then have "once_started ?d" "one_range ?d" "ends_once ?d" "writes_then_finish ?d" "nothing_lost sent ?d"
    using e t by (simp_all add: inv_parts data_defs)
  then have "download_inv L sent ?d" using assms(1) by (simp add: download_inv_def)
  with s StartDownload show ?thesis by simp
next
  case CancelDownload
  then show ?thesis
    using same_traffic_inv [OF assms(1), of "Cancel d"] by (simp add: Cancel_def cancel_session_task_def same_traffic_def same_payload_def)
next
  case ShutDownTask
  then show ?thesis
    using same_traffic_inv [OF assms(1), of "ShutDown d"] by (simp add: ShutDown_def cancel_session_task_def same_traffic_def same_payload_def)
next
  case DestroyTask
  then show ?thesis
    using same_traffic_inv [OF assms(1), of "delete_DownloadTaskImpl d"]
    by (simp add: delete_DownloadTaskImpl_def ShutDown_def cancel_session_task_def same_traffic_def same_payload_def)
next
  case (WatchDownload ob)
  with assms(2) show ?thesis
    using same_traffic_inv [OF assms(1), of "in_task (\<lambda>t. t\<lparr>observers := observers t @ [ob]\<rparr>) d"]
    by (simp add: task_AddObserver_def download_allowed_def same_traffic_def same_payload_def)
next
  case (UnwatchDownload ob)
  with assms(2) show ?thesis
    using same_traffic_inv [OF assms(1), of "in_task (\<lambda>t. t\<lparr>observers := remove1 ob (observers t)\<rparr>) d"]
    by (simp add: task_RemoveObserver_def download_allowed_def same_traffic_def same_payload_def)
next
  case ResignActive
  then show ?thesis
    using same_traffic_inv [OF assms(1), of "WillResignActive d"] by (simp add: WillResignActive_def same_traffic_def same_payload_def)
qed (use assms(3) in \<open>simp_all add: by_client_def\<close>)

lemma started_with_cookies:
  assumes "download_inv L sent d" "cookie_requests d \<noteq> 0" "has_delegate (dl_task d)"
  shows "\<exists>d'. StartWithCookies cookies active (d\<lparr>cookie_requests := cookie_requests d - 1\<rparr>) = Some d' \<and> download_inv L sent d'"
proof -
  have o: "once_started d" "task_identifier (dl_task d) \<noteq> []" using assms(1) by (simp_all add: download_inv_def)
  then have n: "cookie_requests d = 1" "started_tasks d = 0" "dt_writer (dl_task d) \<noteq> None" "ui_blocks d = []"
    "session_queue d = []" "writer_calls d = []" "running_tasks d = []" "writer_callbacks d = []"
    using assms(2) by (auto simp: once_started_def)
  let ?c = "d\<lparr>cookie_requests := cookie_requests d - 1\<rparr>"
  obtain e where e: "(if url_session (dl_task ?c) = None then CreateSession cookies ?c else Some ?c) = Some e"
    "same_payload d e" "cookie_requests e = 0" "started_tasks e = 0" "running_tasks e = []"
    "dt_state (dl_task e) = dt_state (dl_task d)" "task_destroyed (dl_task e) = task_destroyed (dl_task d)"
    using o(2) n(1,2,7) assms(3)
    by (cases "url_session (dl_task d)") (auto simp: CreateSession_def same_payload_def)
  let ?e = "(in_task (\<lambda>t. t\<lparr>has_performed_background_download := \<not> active, session_task := Some 0\<rparr>) e)
      \<lparr>running_tasks := [0], started_tasks := 1\<rparr>"
  have "once_started ?e" using n e(2-5) by (simp add: once_started_def same_payload_def)
  then have "download_inv L sent ?e"
    by (rule same_payload_inv [OF assms(1), rotated]) (use n e in \<open>simp_all add: same_payload_def ends_def\<close>)
  moreover have "StartWithCookies cookies active ?c = Some (notify_updated ?e)"
    unfolding StartWithCookies_def e(1) using e(4,5) n(3) by simp
  ultimately show ?thesis by simp
qed

lemma step_cookies:
  assumes "download_inv L sent d" "download_allowed (CookiesReady cookies active) d"
  shows "\<exists>d'. download_step L (CookiesReady cookies active) d = Some d' \<and> download_inv L sent d'"
proof (cases "cookie_requests d = 0 \<or> task_destroyed (dl_task d)")
  case True
  have "download_inv L sent (d\<lparr>cookie_requests := cookie_requests d - 1\<rparr>)" if "task_destroyed (dl_task d)"
  proof (rule same_payload_inv [OF assms(1)])
    show "once_started (d\<lparr>cookie_requests := cookie_requests d - 1\<rparr>)"
      using assms(1) by (auto simp: download_inv_def once_started_def)
  qed (use that in \<open>simp_all add: same_payload_def\<close>)
  with True assms(1) show ?thesis by (cases "cookie_requests d") (auto simp: cookies_ready_def Let_def)
next
  case False
  then have "has_delegate (dl_task d)" using assms(2) by (simp add: download_allowed_def)
  from started_with_cookies [OF assms(1) _ this, of cookies active] False show ?thesis
    by (cases "cookie_requests d") (auto simp: cookies_ready_def Let_def)
qed

lemma step_system:
  assumes "download_inv L sent d" "download_allowed (SystemCalls c) d"
  shows "download_inv L (sent @ call_data c) (system_calls c d)"
proof -
  have r: "running_tasks d = [0]" "ends d = 0" "started_tasks d = 1"
    using assms by (cases c; auto simp: download_inv_def once_started_def ends_once_def download_allowed_def)+
  have inv: "once_started d" "one_range d" "ends_once d" "writes_then_finish d" "nothing_lost sent d"
    using assms(1) by (simp_all add: download_inv_def)
  let ?d = "system_calls c d"
  have d: "written ?d = written d" "posted ?d = posted d" "queued ?d = queued d @ call_data c"
    "ends ?d = (if completes_call c then 1 else 0)" "dl_task ?d = dl_task d" "writer_calls ?d = writer_calls d"
    using r(2) by (cases c; simp add: system_calls_def data_defs)+
  have e: "filter terminal_block (ui_blocks d) = []" "filter finishes (writer_calls d) = []" "filter completes_call (session_queue d) = []"
    using r(2) by (simp_all add: ends_def)
  have "once_started ?d" using inv(1) r by (cases c) (auto simp: once_started_def system_calls_def)
  moreover have "one_range ?d" using inv(2) d by (simp add: one_range_def system_calls_def)
  moreover have "ends_once ?d" using inv(3) r e d assms(2)
    by (cases c) (auto simp: ends_once_def system_calls_def completion_last_snoc download_allowed_def)
  moreover have "writes_then_finish ?d" using inv(4) d by (simp add: writes_then_finish_def)
  moreover have "nothing_lost (sent @ call_data c) ?d"
    using inv(5) d e by (auto simp: nothing_lost_def system_calls_def)
  ultimately show ?thesis using assms(1) d by (simp add: download_inv_def)
qed

lemma step_delegate:
  assumes "download_inv L sent d"
  shows "download_inv L sent (session_delegate_step d)"
proof (cases "semaphore_wait d \<or> session_queue d = []")
  case False
  then obtain c cs where c: "session_queue d = c # cs" "\<not> semaphore_wait d" by (cases "session_queue d") auto
  have inv: "once_started d" "one_range d" "ends_once d" "writes_then_finish d" "nothing_lost sent d"
    using assms by (simp_all add: download_inv_def)
  have p: "posted d = []" "count_list (writer_callbacks d) ChunkWritten = 0"
    using inv(2) c(2) by (simp_all add: one_range_def)
  have e: "filter terminal_block (ui_blocks d) = []" "filter finishes (writer_calls d) = []"
    using inv(3) c(1) by (auto simp: ends_once_def)
  have s: "started_tasks d \<noteq> 0" using inv(1) c(1) by (auto simp: once_started_def)
  let ?d = "session_delegate_step d"
  have d: "written ?d = written d" "dl_task ?d = dl_task d" "writer_calls ?d = writer_calls d"
    "posted ?d @ queued ?d = posted d @ queued d" "ends ?d = ends d" "writer_callbacks ?d = writer_callbacks d"
    "cookie_requests ?d = cookie_requests d" "started_tasks ?d = started_tasks d" "running_tasks ?d = running_tasks d"
    using c p(1) by (auto simp: session_delegate_step_def data_defs split: session_call.splits list.splits)
  have "once_started ?d" using inv(1) s d by (simp add: once_started_def)
  moreover have "one_range ?d" using inv(2) c p d
    by (auto simp: one_range_def session_delegate_step_def posted_def split: session_call.splits list.splits)
  moreover have "ends_once ?d" using inv(3) c p e d
    by (auto simp: ends_once_def session_delegate_step_def posted_def split: session_call.splits list.splits)
  moreover have "writes_then_finish ?d" using inv(4) d by (simp add: writes_then_finish_def)
  moreover have "nothing_lost sent ?d" using inv(5) d e by (auto simp: nothing_lost_def)
  ultimately show ?thesis using assms d by (simp add: download_inv_def)
next
  case True
  then have "session_delegate_step d = d" by (auto simp: session_delegate_step_def)
  with assms show ?thesis by simp
qed

lemma update_properties_ok:
  "bytes_ok task \<Longrightarrow> \<exists>t. update_properties L task error d = Some (d\<lparr>dl_task := t\<rparr>) \<and> dt_state t = dt_state (dl_task d) \<and>
     task_destroyed t = task_destroyed (dl_task d) \<and> dt_writer t = dt_writer (dl_task d) \<and>
     original_url t = original_url (dl_task d) \<and> task_identifier t = task_identifier (dl_task d)"
  by (auto simp: update_properties_def GetTaskPercentComplete_def bytes_ok_def)

text \<open>A block that is not terminal, or whose task is gone, is taken from the queue without an effect on the data.\<close>

lemma drop_properties_block:
  assumes "download_inv L sent d" "ui_blocks d = PropertiesBlock i error terminal # blocks"
    "terminal \<longrightarrow> task_destroyed (dl_task d)"
  shows "download_inv L sent (d\<lparr>ui_blocks := blocks\<rparr>)"
proof -
  let ?d = "d\<lparr>ui_blocks := blocks\<rparr>"
  have d: "written ?d = written d" "posted ?d = posted d" "queued ?d = queued d" "ends ?d = ends d - of_bool terminal"
    using assms(2) by (simp_all add: data_defs)
  have inv: "once_started d" "one_range d" "ends_once d" "writes_then_finish d" "nothing_lost sent d"
    using assms(1) by (simp_all add: download_inv_def)
  have "once_started ?d" using inv(1) assms(2) by (auto simp: once_started_def)
  moreover have "one_range ?d" "writes_then_finish ?d" "nothing_lost sent ?d"
    using inv(2,4,5) d by (simp_all add: one_range_def writes_then_finish_def nothing_lost_def)
  moreover have "ends_once ?d" using inv(3) d assms(2) by (auto simp: ends_once_def)
  ultimately show ?thesis using assms(1) by (simp add: download_inv_def)
qed

lemma step_properties:
  assumes "download_inv L sent d" "ui_blocks d = PropertiesBlock i error terminal # blocks" "bytes_ok task"
  shows "\<exists>d'. propertiesBlock L task error terminal result (d\<lparr>ui_blocks := blocks\<rparr>) = Some d' \<and> download_inv L sent d'"
proof (cases "terminal \<and> \<not> task_destroyed (dl_task d)")
  case False
  let ?d = "d\<lparr>ui_blocks := blocks\<rparr>"
  have inv: "download_inv L sent ?d" using drop_properties_block [OF assms(1,2)] False by simp
  from update_properties_ok [OF assms(3), of L error ?d] obtain t where
    t: "update_properties L task error ?d = Some (?d\<lparr>dl_task := t\<rparr>)" "same_traffic ?d (?d\<lparr>dl_task := t\<rparr>)"
      "dt_state t = dt_state (dl_task ?d)" "task_destroyed t = task_destroyed (dl_task ?d)"
    by (auto simp: same_traffic_def same_payload_def)
  then have "download_inv L sent (?d\<lparr>dl_task := t\<rparr>)" using same_traffic_inv [OF inv t(2)] by simp
  with inv t(1) False show ?thesis by (auto simp: propertiesBlock_def)
next
  case True
  let ?d = "d\<lparr>ui_blocks := blocks\<rparr>"
  have inv: "once_started d" "one_range d" "ends_once d" "writes_then_finish d" "nothing_lost sent d"
    "\<not> SchemeIs_data L (original_url (dl_task d))" "task_identifier (dl_task d) \<noteq> []"
    using assms(1) by (simp_all add: download_inv_def)
  have tb: "terminal_block (hd (ui_blocks d))" "ui_blocks d \<noteq> []" using assms(2) True by simp_all
  have e: "posted d = []" "session_queue d = []" "queued d = []" "filter finishes (writer_calls d) = []"
    "filter terminal_block blocks = []" "running_tasks d = []"
    using inv(3) assms(2) True by (auto simp: ends_once_def ends_def queued_def)
  obtain w where w: "dt_writer (dl_task d) = Some w" "started_tasks d = 1" "cookie_requests d = 0"
    using inv(1) assms(2) by (cases "dt_writer (dl_task d)") (auto simp: once_started_def)
  have log: "writer_calls d = map (Write w) (written d)"
    using inv(4) e(4) w(1) by (auto simp: writes_then_finish_def)
  have sent: "sent = written d" "dt_state (dl_task d) \<noteq> kComplete" "DownloadFinished \<notin> set (writer_callbacks d)"
    using inv(5) e True by (auto simp: nothing_lost_def)
  from update_properties_ok [OF assms(3), of L error ?d] obtain t where
    t: "update_properties L task error ?d = Some (?d\<lparr>dl_task := t\<rparr>)"
      "dt_state t = dt_state (dl_task d)" "task_destroyed t = task_destroyed (dl_task d)" "dt_writer t = Some w"
      "original_url t = original_url (dl_task d)" "task_identifier t = task_identifier (dl_task d)"
    using w(1) by auto
  define f where "f = ?d\<lparr>dl_task := t, writer_calls := writer_calls d @ [Finish w (error_code t)]\<rparr>"
  let ?e = "if result \<noteq> net_value L ERR_IO_PENDING then OnDownloadFinished (error_code t) f
    else f\<lparr>writer_callbacks := writer_callbacks d @ [DownloadFinished]\<rparr>"
  have r: "propertiesBlock L task error terminal result ?d = Some ?e"
    using True t(1,4) by (simp add: propertiesBlock_def finish_writer_def Let_def f_def)
  have f: "posted f = []" "queued f = []" "written f = written d" "ends f = 1"
    using assms(2) e by (simp_all add: data_defs comp_def f_def)
  have c: "writer_calls f = map (Write w) (written d) @ [Finish w (error_code t)]" "session_queue f = []"
    "running_tasks f = []" "started_tasks f = 1" "cookie_requests f = 0" "dl_task f = t"
    "semaphore_wait f = semaphore_wait d" "writer_callbacks f = writer_callbacks d"
    using e w log by (simp_all add: f_def)
  have p: "posted ?e = []" "queued ?e = []" "written ?e = written d" "ends ?e = 1" "session_queue ?e = []"
    "writer_calls ?e = map (Write w) (written d) @ [Finish w (error_code t)]" "running_tasks ?e = []"
    "started_tasks ?e = 1" "cookie_requests ?e = 0" "dt_writer (dl_task ?e) = Some w" "semaphore_wait ?e = semaphore_wait d"
    "original_url (dl_task ?e) = original_url (dl_task d)" "task_identifier (dl_task ?e) = task_identifier (dl_task d)"
    "count_list (writer_callbacks ?e) ChunkWritten = count_list (writer_callbacks d) ChunkWritten"
    "DataUrlWritten \<in> set (writer_callbacks ?e) \<longleftrightarrow> DataUrlWritten \<in> set (writer_callbacks d)"
    using f c t by (simp_all add: OnDownloadFinished_def)
  have "once_started ?e" using p by (simp add: once_started_def)
  moreover have "one_range ?e" using inv(2) p e(1) by (simp add: one_range_def)
  moreover have "ends_once ?e" using p by (simp add: ends_once_def)
  moreover have "writes_then_finish ?e" unfolding writes_then_finish_def p by auto
  moreover have "nothing_lost sent ?e" unfolding nothing_lost_def p using sent(1) by simp
  ultimately show ?thesis using inv(6,7) p r by (simp add: download_inv_def)
qed

lemma step_data:
  assumes "download_inv L sent d" "ui_blocks d = DataBlock i buffer # blocks"
  shows "\<exists>d'. dataBlock L buffer result (d\<lparr>ui_blocks := blocks\<rparr>) = Some d' \<and> download_inv L sent d'"
proof -
  let ?d = "d\<lparr>ui_blocks := blocks\<rparr>"
  have inv: "once_started d" "one_range d" "ends_once d" "writes_then_finish d" "nothing_lost sent d"
    "\<not> SchemeIs_data L (original_url (dl_task d))" "task_identifier (dl_task d) \<noteq> []"
    using assms(1) by (simp_all add: download_inv_def)
  have r: "semaphore_wait d" "count_list (writer_callbacks d) ChunkWritten = 0" "posted ?d = []" "posted d = [buffer]"
    using inv(2) assms(2) by (cases "semaphore_wait d"; simp add: one_range_def posted_def)+
  have e: "filter terminal_block (ui_blocks d) = []" "filter finishes (writer_calls d) = []"
    using inv(3) r(4) by (auto simp: ends_once_def)
  have s: "started_tasks d = 1" "cookie_requests d = 0" using inv(1) assms(2) by (auto simp: once_started_def)
  then obtain w where w: "dt_writer (dl_task d) = Some w" using inv(1) by (auto simp: once_started_def)
  have log: "writer_calls d = map (Write w) (written d)" using inv(4) e(2) w by (auto simp: writes_then_finish_def)
  have lost: "dt_state (dl_task d) \<noteq> kComplete" "DownloadFinished \<notin> set (writer_callbacks d)"
    using inv(5) e(2) by (auto simp: nothing_lost_def)
  show ?thesis
  proof (cases "task_destroyed (dl_task d)")
    case True
    let ?e = "?d\<lparr>semaphore_wait := False\<rparr>"
    have p: "posted ?e = []" "written ?e = written d" "queued ?e = queued d" "ends ?e = ends d"
      using r(3) assms(2) by (simp_all add: data_defs)
    have "once_started ?e" using inv(1) s by (simp add: once_started_def)
    moreover have "one_range ?e" using inv(2) r p by (simp add: one_range_def)
    moreover have "ends_once ?e" using inv(3) p e assms(2) by (simp add: ends_once_def)
    moreover have "writes_then_finish ?e" using inv(4) p by (simp add: writes_then_finish_def)
    moreover have "nothing_lost sent ?e" using inv(5) True p by (simp add: nothing_lost_def)
    ultimately show ?thesis using inv(6,7) True by (simp add: dataBlock_def download_inv_def)
  next
    case False
    let ?w = "?d\<lparr>writer_calls := writer_calls d @ [Write w buffer]\<rparr>"
    let ?e = "if result = net_value L ERR_IO_PENDING then ?w\<lparr>writer_callbacks := writer_callbacks d @ [ChunkWritten]\<rparr>
      else ?w\<lparr>semaphore_wait := False\<rparr>"
    have "written ?e = written d @ [buffer]" "ends ?e = ends d" using assms(2) by (simp_all add: data_defs)
    then have p: "posted ?e = []" "written ?e = written d @ [buffer]" "queued ?e = queued d" "ends ?e = ends d"
      "dl_task ?e = dl_task d" "writer_calls ?e = map (Write w) (written d @ [buffer])" "cookie_requests ?e = 0"
      "started_tasks ?e = 1" "running_tasks ?e = running_tasks d" "session_queue ?e = session_queue d" "ui_blocks ?e = blocks"
      using r(3) assms(2) log s by (simp_all add: posted_def queued_def)
    have "once_started ?e" unfolding once_started_def p using inv(1) s w by (simp add: once_started_def)
    moreover have "one_range ?e" unfolding one_range_def p using inv(2) r by (simp add: one_range_def)
    moreover have "ends_once ?e" unfolding ends_once_def p using inv(3) e assms(2) by (simp add: ends_once_def comp_def)
    moreover have "writes_then_finish ?e" unfolding writes_then_finish_def p using w by auto
    moreover have "nothing_lost sent ?e"
      unfolding nothing_lost_def p using inv(5) r(4) False lost by (auto simp: nothing_lost_def)
    ultimately have "download_inv L sent ?e" unfolding download_inv_def p using inv(6,7) by simp
    moreover have "dataBlock L buffer result ?d = Some ?e" using False w by (simp add: dataBlock_def Let_def)
    ultimately show ?thesis by blast
  qed
qed

lemma step_ui:
  assumes "download_inv L sent d" "bytes_ok task"
  shows "\<exists>d'. run_ui_block L task result d = Some d' \<and> download_inv L sent d'"
proof (cases "ui_blocks d")
  case (Cons b blocks)
  then show ?thesis
    using step_properties [OF assms(1) _ assms(2)] step_data [OF assms(1)]
    by (cases b) (simp_all add: run_ui_block_def)
qed (use assms(1) in \<open>simp add: run_ui_block_def\<close>)

lemma finished_inv:
  assumes "download_inv L sent d" "filter finishes (writer_calls d) \<noteq> []"
  shows "download_inv L sent (OnDownloadFinished code d)"
proof -
  have inv: "once_started d" "one_range d" "ends_once d" "writes_then_finish d" "nothing_lost sent d"
    using assms(1) by (simp_all add: download_inv_def)
  let ?e = "in_task (\<lambda>t. t\<lparr>error_code := code, dt_state := kComplete, session_task := None\<rparr>) d"
  have "once_started ?e" using inv(1) by (auto simp: once_started_def)
  moreover have "one_range ?e" "ends_once ?e" "writes_then_finish ?e"
    using inv(2-4) by (simp_all add: one_range_def ends_once_def writes_then_finish_def)
  moreover have "nothing_lost sent ?e" using inv(5) assms(2) by (auto simp: nothing_lost_def)
  ultimately have "download_inv L sent ?e" using assms(1) by (simp add: download_inv_def)
  then show ?thesis by (simp add: OnDownloadFinished_def)
qed

lemma step_writer:
  assumes "download_inv L sent d"
  shows "\<exists>d'. run_writer_callback L n code result d = Some d' \<and> download_inv L sent d'"
proof (cases "n < length (writer_callbacks d)")
  case True
  let ?cb = "writer_callbacks d ! n" and ?d = "d\<lparr>writer_callbacks := remove_at n (writer_callbacks d)\<rparr>"
  have inv: "once_started d" "one_range d" "ends_once d" "writes_then_finish d" "nothing_lost sent d"
    "\<not> SchemeIs_data L (original_url (dl_task d))" "task_identifier (dl_task d) \<noteq> []"
    using assms by (simp_all add: download_inv_def)
  have cb: "?cb \<in> set (writer_callbacks d)" "set (remove_at n (writer_callbacks d)) \<subseteq> set (writer_callbacks d)"
    using True set_remove_at_subset by (simp, metis)
  note count = count_list_remove_at [OF True, of ChunkWritten]
  define e where "e = (if ?cb = ChunkWritten then ?d\<lparr>semaphore_wait := False\<rparr> else ?d)"
  have u: "once_started e" using inv(1) cb by (auto simp: once_started_def e_def remove_at_def)
  have o: "one_range e"
    using inv(2) cb count by (cases "semaphore_wait d") (auto simp: one_range_def e_def)
  have s: "ends_once e" using inv(3) by (simp add: ends_once_def e_def)
  have w: "writes_then_finish e" using inv(4) by (simp add: writes_then_finish_def e_def)
  have l: "nothing_lost sent e" using inv(5) cb(2) by (auto simp: nothing_lost_def e_def)
  from u o s w l have e: "download_inv L sent e" using inv(6,7) by (simp add: download_inv_def e_def)
  have "?cb \<noteq> DataUrlWritten" using inv(2) cb by (auto simp: one_range_def)
  moreover have "filter finishes (writer_calls e) \<noteq> []" if "?cb = DownloadFinished"
    using inv(5) cb that by (auto simp: nothing_lost_def e_def)
  ultimately show ?thesis
    using True e finished_inv [OF e, of code]
    by (cases ?cb) (auto simp: run_writer_callback_def e_def Let_def)
qed (use assms in \<open>simp add: run_writer_callback_def\<close>)

section \<open>Every byte once and in order\<close>

text \<open>A step together with the bytes the system has delivered.\<close>

definition delivering :: "'u download_lib \<Rightarrow> 'u download_event \<Rightarrow> 'u downloads \<times> string list \<Rightarrow> ('u downloads \<times> string list) option" where
  "delivering L e s = map_option (\<lambda>d. (d, snd s @ event_data e)) (download_step L e (fst s))"

lemma run_delivering:
  "run_events (delivering L) es (d, sent) = map_option (\<lambda>d. (d, sent @ delivered es)) (run_events (download_step L) es d)"
proof (induction es arbitrary: d sent)
  case (Cons e es)
  then show ?case by (cases "download_step L e d") (simp_all add: delivering_def delivered_def)
qed (simp add: delivered_def)

lemma allowed_delivering:
  "allowed_run (\<lambda>e s. download_allowed e (fst s)) (delivering L) es (d, sent) =
    allowed_run download_allowed (download_step L) es d"
proof (induction es arbitrary: d sent)
  case (Cons e es)
  then show ?case by (cases "download_step L e d") (simp_all add: delivering_def)
qed simp

lemma delivering_inv:
  assumes "download_inv L (snd s) (fst s)" "download_allowed e (fst s)"
  shows "\<exists>s'. delivering L e s = Some s' \<and> download_inv L (snd s') (fst s')"
proof -
  have "\<exists>d. download_step L e (fst s) = Some d \<and> download_inv L (snd s @ event_data e) d"
  proof (cases e)
    case (CookiesReady cookies active)
    with step_cookies [OF assms(1)] assms(2) show ?thesis by auto
  next
    case (SystemCalls c)
    with step_system [OF assms(1)] assms(2) show ?thesis by simp
  next
    case DelegateRuns
    with step_delegate [OF assms(1)] show ?thesis by simp
  next
    case (UIRuns task result)
    with step_ui [OF assms(1)] assms(2) show ?thesis by (simp add: download_allowed_def)
  next
    case (WriterCalls n code result)
    with step_writer [OF assms(1)] show ?thesis by simp
  qed (use step_client [OF assms] in \<open>auto simp: by_client_def\<close>)
  then show ?thesis by (auto simp: delivering_def)
qed

interpretation downloading: event_machine "\<lambda>e s. download_allowed e (fst s)" "delivering L"
  "\<lambda>s. download_inv L (snd s) (fst s)" for L :: "'u download_lib"
  by unfold_locales (rule delivering_inv)

text \<open>
  C39. A download writes what it receives. For every order of the client's calls, of the delegate
  queue, of the UI thread and of the writer's answers, a download that is started once fails no check;
  what its writer was given is a prefix of the ranges the system delivered, in one writer and in order;
  the writer is finished at most once and after all of its data; and a download in the state \<open>kComplete\<close> has written
  everything that was delivered.
\<close>

theorem download_writes_in_order:
  assumes "\<not> SchemeIs_data L url" "ident \<noteq> []"
    "allowed_run download_allowed (download_step L) es (new_download (DownloadTaskImpl url disposition bytes mime transition ident))"
  shows "\<exists>d. run_events (download_step L) es (new_download (DownloadTaskImpl url disposition bytes mime transition ident)) = Some d \<and>
    prefix (written d) (delivered es) \<and>
    (dt_state (dl_task d) = kComplete \<longrightarrow> written d = delivered es) \<and>
    (\<exists>w finish. writer_calls d = map (Write w) (written d) @ finish \<and> (finish = [] \<or> (\<exists>code. finish = [Finish w code])))"
proof -
  let ?d = "new_download (DownloadTaskImpl url disposition bytes mime transition ident)"
  have "allowed_run (\<lambda>e s. download_allowed e (fst s)) (delivering L) es (?d, [])"
    using assms(3) by (simp add: allowed_delivering)
  from downloading.run_ok [OF _ this] download_inv_new [OF assms(1,2)] obtain s where
    s: "run_events (delivering L) es (?d, []) = Some s" "download_inv L (snd s) (fst s)" by auto
  then obtain d where d: "run_events (download_step L) es ?d = Some d" "download_inv L (delivered es) d"
    by (auto simp: run_delivering)
  then have n: "nothing_lost (delivered es) d" and w: "writes_then_finish d" by (simp_all add: download_inv_def)
  from w have "\<exists>w finish. writer_calls d = map (Write w) (written d) @ finish \<and> (finish = [] \<or> (\<exists>code. finish = [Finish w code]))"
    by (auto simp: writes_then_finish_def)
  with d(1) n show ?thesis by (auto simp: nothing_lost_def)
qed

definition download_demo :: "string download_lib" where
  "download_demo = \<lparr>net_value = (\<lambda>e. case e of NET_OK \<Rightarrow> 0 | ERR_IO_PENDING \<Rightarrow> - 1 | ERR_ABORTED \<Rightarrow> - 3 | _ \<Rightarrow> - 2),
     SchemeIs_data = (\<lambda>u. take 5 u = ''data:''), DataURL_Parse = (\<lambda>u. (''text/plain'', Some (drop 6 u))),
     client_IsAppSpecificURL = (\<lambda>u. False)\<rparr>"

definition demo_info :: "int \<Rightarrow> int \<Rightarrow> string task_info" where
  "demo_info received expected = \<lparr>currentRequest_URL = ''http://a/f'', countOfBytesReceived = received,
     countOfBytesExpectedToReceive = expected, response_MIMEType = None, response_statusCode = Some 200\<rparr>"

definition demo_download :: "string downloads" where
  "demo_download = new_download (DownloadTaskImpl ''http://a/f'' [] (- 1) ''text/plain'' 0 ''id'')"

text \<open>Two ranges, the first of which the writer takes its time for.\<close>

definition demo_events :: "string download_event list" where
  "demo_events = [WatchDownload 7, StartDownload 1 0 0, CookiesReady [] True, SystemCalls (didReceiveData 0 [''ab'', ''cd'']),
     SystemCalls (didCompleteWithError 0 None), DelegateRuns, DelegateRuns, UIRuns (demo_info 4 4) (- 1), DelegateRuns,
     WriterCalls 0 2 0, DelegateRuns, UIRuns (demo_info 4 4) 2, DelegateRuns, DelegateRuns, UIRuns (demo_info 4 4) 0,
     UIRuns (demo_info 4 4) 0]"

theorem download_writes_in_order_witness:
  "\<exists>d. run_events (download_step download_demo) demo_events demo_download = Some d \<and>
    dt_state (dl_task d) = kComplete \<and> written d = [''ab'', ''cd''] \<and> error_code (dl_task d) = 0"
proof -
  have s: "\<not> SchemeIs_data download_demo ''http://a/f''" "''id'' \<noteq> []" by (simp_all add: download_demo_def)
  have a: "allowed_run download_allowed (download_step download_demo) demo_events
      (new_download (DownloadTaskImpl ''http://a/f'' [] (- 1) ''text/plain'' 0 ''id''))" by code_simp
  from download_writes_in_order [OF s a] obtain d where
    d: "run_events (download_step download_demo) demo_events demo_download = Some d"
      "dt_state (dl_task d) = kComplete \<longrightarrow> written d = delivered demo_events"
    by (auto simp: demo_download_def)
  have "map_option (\<lambda>d. (dt_state (dl_task d), error_code (dl_task d)))
      (run_events (download_step download_demo) demo_events demo_download) = Some (kComplete, 0)" by code_simp
  moreover have "delivered demo_events = [''ab'', ''cd'']" by code_simp
  ultimately show ?thesis using d by simp
qed

section \<open>Error codes\<close>

text \<open>No error of the system is reported as success.\<close>

lemma translated_error: "GetNetErrorFromIOSErrorCode app_specific code \<noteq> Some NET_OK"
  by (cases code) simp_all

lemma error_reported:
  assumes "net_errors_ok L"
  shows "GetNetErrorCodeFromNSError L error url = 0 \<longleftrightarrow> error = None"
proof (cases error)
  case (Some code)
  have "net_value L e \<noteq> 0" if "e \<noteq> NET_OK" for e
    using assms that unfolding net_errors_ok_def by (metis injD)
  then show ?thesis
    using Some translated_error [of "client_IsAppSpecificURL L url" code]
    by (auto simp: GetNetErrorCodeFromNSError_def split: option.splits)
qed (simp add: GetNetErrorCodeFromNSError_def)

section \<open>What the interface promises and the task does not keep\<close>

text \<open>
  The completion of a cancelled session task (the system reports it) makes the download complete, in an
  observer's eyes too.
\<close>

lemma cancelled_download_completes:
  assumes "\<not> task_destroyed (dl_task d)" "dt_writer (dl_task d) = Some w"
    "ui_blocks d = PropertiesBlock i error True # blocks" "bytes_ok task" "result \<noteq> net_value L ERR_IO_PENDING"
  shows "dt_state (dl_task (Cancel d)) = kCancelled \<and>
    (\<exists>d'. run_ui_block L task result (Cancel d) = Some d' \<and> dt_state (dl_task d') = kComplete)"
proof -
  have c: "ui_blocks (Cancel d) = PropertiesBlock i error True # blocks" "task_destroyed (dl_task (Cancel d)) = False"
    "dt_writer (dl_task (Cancel d)) = Some w" "dt_state (dl_task (Cancel d)) = kCancelled"
    using assms(1-3) by (simp_all add: Cancel_def cancel_session_task_def)
  let ?c = "Cancel d\<lparr>ui_blocks := blocks\<rparr>"
  from update_properties_ok [OF assms(4), of L error ?c] obtain t where
    "update_properties L task error ?c = Some (?c\<lparr>dl_task := t\<rparr>)" "dt_writer t = Some w" using c by auto
  with c assms(5) show ?thesis
    by (auto simp: run_ui_block_def propertiesBlock_def finish_writer_def OnDownloadFinished_def Let_def)
qed

text \<open>A download that is cancelled before its cookies have come is started by them and goes on loading.\<close>

lemma cancelled_download_starts:
  assumes "\<not> task_destroyed (dl_task d)" "dt_writer (dl_task d) = Some w" "cookie_requests d = Suc n"
    "has_delegate (dl_task d)" "task_identifier (dl_task d) \<noteq> []"
  shows "\<exists>d'. cookies_ready cookies active (Cancel d) = Some d' \<and> dt_state (dl_task d') = kCancelled \<and>
    session_task (dl_task d') = Some (started_tasks d) \<and> started_tasks d \<in> set (running_tasks d')"
  using assms
  by (cases "url_session (dl_task d)")
    (simp_all add: cookies_ready_def StartWithCookies_def CreateSession_def Cancel_def cancel_session_task_def)

text \<open>The controller may be destroyed before the cookies come: \<open>ShutDown\<close> clears the delegate, which is then used.\<close>

lemma cookies_after_shut_down:
  assumes "\<not> task_destroyed (dl_task d)" "cookie_requests d = Suc n" "url_session (dl_task d) = None"
  shows "cookies_ready cookies active (ShutDown d) = None"
  using assms
  by (simp add: cookies_ready_def StartWithCookies_def CreateSession_def ShutDown_def cancel_session_task_def bind_check)

text \<open>Restarted after a cancellation, a download writes what was still posted for the old task into the new writer.\<close>

lemma restarted_download_mixes_data:
  "map_option writer_calls (run_events (download_step download_demo)
    [StartDownload 1 0 0, CookiesReady [] True, SystemCalls (didReceiveData 0 [''old'']), DelegateRuns, CancelDownload,
     StartDownload 2 0 0, CookiesReady [] True, UIRuns (demo_info 0 0) 3] demo_download) = Some [Write 2 ''old'']"
  by code_simp

text \<open>And it is completed, with the error of the cancelled one, by the completion of the old task.\<close>

lemma restarted_download_completes_at_once:
  "map_option (\<lambda>d. (dt_state (dl_task d), error_code (dl_task d), written d, running_tasks d))
    (run_events (download_step download_demo)
      [StartDownload 1 0 0, CookiesReady [] True, CancelDownload, StartDownload 2 0 0, CookiesReady [] True,
       SystemCalls (didCompleteWithError 0 (Some kCFURLErrorCancelled)), DelegateRuns, UIRuns (demo_info 0 0) 0] demo_download) =
   Some (kComplete, - 3, [], [1])"
  by code_simp

text \<open>An error of the writer is not reported: neither for a data URL, whose size becomes the error code, nor for a range.\<close>

lemma data_url_write_error_ignored:
  assumes "dt_state (dl_task d) \<noteq> kInProgress" "SchemeIs_data L (original_url (dl_task d))"
    "DataURL_Parse L (original_url (dl_task d)) = (m, Some data)" "code \<noteq> net_value L ERR_IO_PENDING"
    "result \<noteq> net_value L ERR_IO_PENDING"
  shows "\<exists>d'. Start L w code result d = Some d' \<and> dt_state (dl_task d') = kComplete \<and>
    error_code (dl_task d') = net_value L NET_OK \<and> total_bytes (dl_task d') = code"
  using assms
  by (simp add: Start_def StartDataUrlParsing_def OnDataUrlWritten_def finish_writer_def OnDownloadFinished_def Let_def)

lemma range_write_error_ignored:
  assumes "error \<noteq> net_value L ERR_IO_PENDING" "result \<noteq> net_value L ERR_IO_PENDING"
  shows "dataBlock L buffer error d = dataBlock L buffer result d"
  using assms by (simp add: dataBlock_def)

text \<open>A download started again after a failure is in progress with the old error code.\<close>

lemma restarted_download_keeps_error:
  assumes "dt_state (dl_task d) \<noteq> kInProgress" "\<not> SchemeIs_data L (original_url (dl_task d))"
  shows "\<exists>d'. Start L w a b d = Some d' \<and> dt_state (dl_task d') = kInProgress \<and> error_code (dl_task d') = error_code (dl_task d)"
  using assms by (simp add: Start_def Let_def)

end
