(* ===== verification/Download_Controller.thy ===== *)
theory Download_Controller
  imports Download_Task_Props
begin

text \<open>
  \<open>web/download/download_controller_impl.mm\<close>: the controller of a browser state creates the download
  tasks, which its delegate owns, and keeps the set of those that are alive. A task object is a number;
  a deleted one stays known, because callbacks bound to it may still come. The controller outlives no
  browser state, and tasks may outlive the controller.
\<close>

datatype controller_call = OnDownloadCreated nat | OnDownloadControllerDestroyed

record 'u controller =
  controller_alive :: bool
  alive_tasks :: "nat set"
  dc_delegate :: "nat option"
  task_objects :: "nat \<rightharpoonup> 'u downloads"
  next_object :: nat
  delegate_calls :: "controller_call list"

definition new_DownloadControllerImpl :: "'u controller" where
  "new_DownloadControllerImpl = \<lparr>controller_alive = True, alive_tasks = {}, dc_delegate = None,
     task_objects = Map.empty, next_object = 0, delegate_calls = []\<rparr>"

text \<open>\<open>FromBrowserState\<close>: the controller is user data of the browser state, made on the first use.\<close>

definition FromBrowserState :: "'u controller option \<Rightarrow> 'u controller" where
  "FromBrowserState user_data = (case user_data of None \<Rightarrow> new_DownloadControllerImpl | Some c \<Rightarrow> c)"

definition CreateDownloadTask ::
  "string \<Rightarrow> 'u \<Rightarrow> string \<Rightarrow> int \<Rightarrow> string \<Rightarrow> int \<Rightarrow> 'u controller \<Rightarrow> 'u controller" where
  "CreateDownloadTask ident url disposition bytes mime transition c =
     (if dc_delegate c = None then c
      else (let task = next_object c
            in c\<lparr>task_objects := (task_objects c)(task \<mapsto> new_download (DownloadTaskImpl url disposition bytes mime transition ident)),
                 next_object := Suc task, alive_tasks := insert task (alive_tasks c),
                 delegate_calls := delegate_calls c @ [OnDownloadCreated task]\<rparr>))"

definition SetDelegate :: "nat option \<Rightarrow> 'u controller \<Rightarrow> 'u controller" where
  "SetDelegate delegate c = c\<lparr>dc_delegate := delegate\<rparr>"

definition controller_OnTaskDestroyed :: "nat \<Rightarrow> 'u controller \<Rightarrow> 'u controller option" where
  "controller_OnTaskDestroyed task c = do {
     check (controller_alive c);
     check (task \<in> alive_tasks c);
     Some (c\<lparr>alive_tasks := alive_tasks c - {task}\<rparr>) }"

text \<open>The destructor; \<open>delegate\<close> is what the delegate sets in \<open>OnDownloadControllerDestroyed\<close>.\<close>

definition delete_DownloadControllerImpl :: "nat option \<Rightarrow> 'u controller \<Rightarrow> 'u controller option" where
  "delete_DownloadControllerImpl delegate c = do {
     check (\<forall>task \<in> alive_tasks c. task_objects c task \<noteq> None);
     let c = c\<lparr>task_objects := (\<lambda>i. if i \<in> alive_tasks c then map_option ShutDown (task_objects c i) else task_objects c i)\<rparr>;
     let c = (if dc_delegate c = None then c
              else c\<lparr>delegate_calls := delegate_calls c @ [OnDownloadControllerDestroyed], dc_delegate := delegate\<rparr>);
     check (dc_delegate c = None);
     Some (c\<lparr>controller_alive := False, alive_tasks := {}\<rparr>) }"

section \<open>Events\<close>

text \<open>A task is deleted by its owner; its destructor tells the controller as long as it has it as its delegate.\<close>

datatype 'u controller_event =
    CreateTask string 'u string int string int | ChangeDelegate "nat option"
  | TaskEvent nat "'u download_event" | DeleteTask nat | DestroyController "nat option"

definition delete_task :: "nat \<Rightarrow> 'u controller \<Rightarrow> 'u controller option" where
  "delete_task i c = do {
     d \<leftarrow> task_objects c i;
     c \<leftarrow> (if has_delegate (dl_task d) then controller_OnTaskDestroyed i c else Some c);
     Some (c\<lparr>task_objects := (task_objects c)(i \<mapsto> delete_DownloadTaskImpl d)\<rparr>) }"

definition task_event :: "'u download_lib \<Rightarrow> nat \<Rightarrow> 'u download_event \<Rightarrow> 'u controller \<Rightarrow> 'u controller option" where
  "task_event L i e c = do {
     d \<leftarrow> task_objects c i;
     d \<leftarrow> download_step L e d;
     Some (c\<lparr>task_objects := (task_objects c)(i \<mapsto> d)\<rparr>) }"

fun controller_step :: "'u download_lib \<Rightarrow> 'u controller_event \<Rightarrow> 'u controller \<Rightarrow> 'u controller option" where
  "controller_step L (CreateTask ident url disposition bytes mime transition) c =
     Some (CreateDownloadTask ident url disposition bytes mime transition c)"
| "controller_step L (ChangeDelegate delegate) c = Some (SetDelegate delegate c)"
| "controller_step L (TaskEvent i e) c = task_event L i e c"
| "controller_step L (DeleteTask i) c = delete_task i c"
| "controller_step L (DestroyController delegate) c = delete_DownloadControllerImpl delegate c"

text \<open>
  The owner of a task does not use it after its deletion, and only the controller shuts it down; what else happens
  to a task is free: it may be started again, its URL may be a data URL, and its cookies and callbacks may come
  at any time, also after the deletion of the task or of the controller. The controller is not used after its
  deletion, and the delegate takes itself out when it is told of it.
\<close>

definition task_may :: "'u download_event \<Rightarrow> 'u downloads \<Rightarrow> bool" where
  "task_may e d \<longleftrightarrow> e \<noteq> ShutDownTask \<and> e \<noteq> DestroyTask \<and> (by_client e \<longrightarrow> \<not> task_destroyed (dl_task d))"

definition controller_allowed :: "'u controller_event \<Rightarrow> 'u controller \<Rightarrow> bool" where
  "controller_allowed e c \<longleftrightarrow>
     (case e of
        CreateTask ident url disposition bytes mime transition \<Rightarrow> controller_alive c
      | ChangeDelegate delegate \<Rightarrow> controller_alive c
      | TaskEvent i ev \<Rightarrow> (case task_objects c i of None \<Rightarrow> False | Some d \<Rightarrow> task_may ev d)
      | DeleteTask i \<Rightarrow> (case task_objects c i of None \<Rightarrow> False | Some d \<Rightarrow> \<not> task_destroyed (dl_task d))
      | DestroyController delegate \<Rightarrow> controller_alive c \<and> delegate = None)"

section \<open>The set of alive tasks\<close>

text \<open>
  A task whose controller is alive has it as its delegate until it is deleted; no other task has a delegate.
  A task that waits for cookies has a writer.
\<close>

definition requests_ok :: "'u downloads \<Rightarrow> bool" where
  "requests_ok d \<longleftrightarrow> (0 < cookie_requests d \<longrightarrow> dt_writer (dl_task d) \<noteq> None)"

definition object_ok :: "bool \<Rightarrow> bool \<Rightarrow> 'u downloads option \<Rightarrow> bool" where
  "object_ok alive listed ob \<longleftrightarrow>
     (case ob of
        None \<Rightarrow> \<not> listed
      | Some d \<Rightarrow> has_delegate (dl_task d) = listed \<and> listed = (alive \<and> \<not> task_destroyed (dl_task d)) \<and> requests_ok d)"

definition controller_inv :: "'u controller \<Rightarrow> bool" where
  "controller_inv c \<longleftrightarrow> (\<forall>i. object_ok (controller_alive c) (i \<in> alive_tasks c) (task_objects c i)) \<and>
     (\<forall>i \<ge> next_object c. task_objects c i = None)"

lemma controller_invD:
  assumes "controller_inv c" "task_objects c i = Some d"
  shows "has_delegate (dl_task d) \<longleftrightarrow> i \<in> alive_tasks c" "requests_ok d"
    "i \<in> alive_tasks c \<longleftrightarrow> controller_alive c \<and> \<not> task_destroyed (dl_task d)" "i < next_object c"
proof -
  have "object_ok (controller_alive c) (i \<in> alive_tasks c) (task_objects c i)" "\<not> next_object c \<le> i"
    using assms unfolding controller_inv_def by (blast, auto)
  with assms(2) show "has_delegate (dl_task d) \<longleftrightarrow> i \<in> alive_tasks c" "requests_ok d"
    "i \<in> alive_tasks c \<longleftrightarrow> controller_alive c \<and> \<not> task_destroyed (dl_task d)" "i < next_object c"
    by (auto simp: object_ok_def)
qed

text \<open>Only one object changes, with its place in the set.\<close>

lemma controller_inv_change:
  assumes "controller_inv c" "object_ok (controller_alive c') (i \<in> alive_tasks c') (Some d)"
    "task_objects c' = (task_objects c)(i \<mapsto> d)" "controller_alive c' = controller_alive c"
    "alive_tasks c' - {i} = alive_tasks c - {i}" "i < next_object c'" "next_object c \<le> next_object c'"
  shows "controller_inv c'"
proof -
  have "object_ok (controller_alive c') (j \<in> alive_tasks c') (task_objects c' j)" for j
  proof (cases "j = i")
    case False
    then have "j \<in> alive_tasks c' \<longleftrightarrow> j \<in> alive_tasks c" using assms(5) by blast
    with False assms(1,3,4) show ?thesis by (simp add: controller_inv_def)
  qed (use assms(2,3) in simp)
  with assms(1,3,6,7) show ?thesis by (auto simp: controller_inv_def)
qed

text \<open>What no event of a task but its end changes, and that cookies are awaited with a writer only.\<close>

definition same_owner :: "'u downloads \<Rightarrow> 'u downloads \<Rightarrow> bool" where
  "same_owner d d' \<longleftrightarrow> has_delegate (dl_task d') = has_delegate (dl_task d) \<and>
     task_destroyed (dl_task d') = task_destroyed (dl_task d) \<and> (requests_ok d \<longrightarrow> requests_ok d')"

lemmas same_owner_defs = same_owner_def requests_ok_def

lemma same_owner_finish: "finish_writer L code result d = Some d' \<Longrightarrow> same_owner d d'"
  by (auto simp: finish_writer_def OnDownloadFinished_def same_owner_defs Let_def split: bind_splits if_splits)

lemma same_owner_data_url: "OnDataUrlWritten L n result d = Some d' \<Longrightarrow> same_owner d d'"
  by (auto simp: OnDataUrlWritten_def dest!: same_owner_finish simp: same_owner_defs)

lemma same_owner_start:
  assumes "Start L w n result d = Some d'"
  shows "same_owner d d'"
proof -
  let ?d = "in_task (\<lambda>t. t\<lparr>dt_writer := Some w, percent_complete := 0, received_bytes := 0, dt_state := kInProgress\<rparr>) d"
  have "same_owner ?d d'"
  proof (cases "SchemeIs_data L (original_url (dl_task d))")
    case True
    then have "StartDataUrlParsing L n result ?d = Some d'"
      using assms by (auto simp: Start_def Let_def bind_check split: if_splits)
    then show ?thesis
      by (auto simp: StartDataUrlParsing_def OnDownloadFinished_def same_owner_defs Let_def
          dest!: same_owner_data_url split: prod.splits option.splits bind_splits if_splits)
  qed (use assms in \<open>auto simp: Start_def Let_def bind_check same_owner_defs split: if_splits\<close>)
  then show ?thesis by (simp add: same_owner_defs)
qed

lemma same_owner_cookies: "cookies_ready cookies active d = Some d' \<Longrightarrow> same_owner d d'"
  by (auto simp: cookies_ready_def StartWithCookies_def CreateSession_def same_owner_defs Let_def bind_check
      split: nat.splits if_splits bind_splits)

lemma same_owner_ui:
  assumes "run_ui_block L task result d = Some d'"
  shows "same_owner d d'"
proof -
  have "same_owner d d'" if "propertiesBlock L task error terminal result d = Some d'" for error terminal and d :: "'a downloads"
    using that by (auto simp: propertiesBlock_def update_properties_def GetTaskPercentComplete_def same_owner_defs
        dest!: same_owner_finish split: if_splits bind_splits)
  moreover have "same_owner d d'" if "dataBlock L buffer result d = Some d'" for buffer and d :: "'a downloads"
    using that by (auto simp: dataBlock_def same_owner_defs Let_def split: if_splits bind_splits)
  ultimately have "same_owner (d\<lparr>ui_blocks := tl (ui_blocks d)\<rparr>) d' \<or> d' = d"
    using assms by (auto simp: run_ui_block_def split: list.splits ui_block.splits)
  then show ?thesis by (auto simp: same_owner_defs)
qed

lemma same_owner_writer:
  assumes "run_writer_callback L n code result d = Some d'"
  shows "same_owner d d'"
proof -
  have "d' = d \<or> same_owner (d\<lparr>writer_callbacks := remove_at n (writer_callbacks d)\<rparr>) d'"
    using assms
    by (auto simp: run_writer_callback_def OnDownloadFinished_def same_owner_defs Let_def
        dest!: same_owner_data_url split: if_splits writer_callback.splits)
  then show ?thesis by (auto simp: same_owner_defs)
qed

lemma same_owner_delegate: "same_owner d (session_delegate_step d)"
  by (simp add: session_delegate_step_def same_owner_defs split: list.split session_call.split)

lemma same_owner_step:
  assumes "download_step L e d = Some d'" "e \<noteq> ShutDownTask" "e \<noteq> DestroyTask"
  shows "same_owner d d'"
proof (cases e)
  case (StartDownload w n result)
  with assms show ?thesis by (simp add: same_owner_start)
next
  case (CookiesReady cookies active)
  with assms show ?thesis by (simp add: same_owner_cookies)
next
  case (UIRuns task result)
  with assms show ?thesis by (simp add: same_owner_ui)
next
  case (WriterCalls n code result)
  with assms show ?thesis by (simp add: same_owner_writer)
next
  case DelegateRuns
  with assms same_owner_delegate [of d] show ?thesis by simp
qed (use assms in \<open>auto simp: same_owner_defs Cancel_def cancel_session_task_def WillResignActive_def task_AddObserver_def
       task_RemoveObserver_def system_calls_def bind_check split: if_splits\<close>)

lemma end_of_task:
  "\<not> has_delegate (dl_task (ShutDown d))" "task_destroyed (dl_task (ShutDown d)) = task_destroyed (dl_task d)"
  "\<not> has_delegate (dl_task (delete_DownloadTaskImpl d))" "task_destroyed (dl_task (delete_DownloadTaskImpl d))"
  "requests_ok (ShutDown d) = requests_ok d" "requests_ok (delete_DownloadTaskImpl d) = requests_ok d"
  by (simp_all add: delete_DownloadTaskImpl_def ShutDown_def cancel_session_task_def requests_ok_def)

lemma task_event_inv:
  assumes "controller_inv c" "task_objects c i = Some d" "task_may e d" "download_step L e d = Some d'"
  shows "controller_inv (c\<lparr>task_objects := (task_objects c)(i \<mapsto> d')\<rparr>)"
proof -
  have "same_owner d d'" using assms(3) by (intro same_owner_step [OF assms(4)]) (auto simp: task_may_def)
  then show ?thesis
    using controller_invD [OF assms(1,2)]
    by (intro controller_inv_change [OF assms(1), where i = i and d = d']) (auto simp: object_ok_def same_owner_def)
qed

lemma delete_task_inv:
  assumes "controller_inv c" "task_objects c i = Some d" "\<not> task_destroyed (dl_task d)"
  shows "\<exists>c'. delete_task i c = Some c' \<and> controller_inv c'"
proof -
  note inv = controller_invD [OF assms(1,2)]
  let ?c = "c\<lparr>alive_tasks := alive_tasks c - {i}, task_objects := (task_objects c)(i \<mapsto> delete_DownloadTaskImpl d)\<rparr>"
  have "controller_inv ?c"
    by (rule controller_inv_change [OF assms(1), where i = i and d = "delete_DownloadTaskImpl d"])
      (use inv in \<open>auto simp: object_ok_def end_of_task\<close>)
  moreover have "delete_task i c = Some ?c"
    using assms(2,3) inv(1,3) by (cases "i \<in> alive_tasks c") (simp_all add: delete_task_def controller_OnTaskDestroyed_def)
  ultimately show ?thesis by simp
qed

lemma create_task_inv:
  assumes "controller_inv c" "controller_alive c"
  shows "controller_inv (CreateDownloadTask ident url disposition bytes mime transition c)"
proof (cases "dc_delegate c = None")
  case False
  let ?d = "new_download (DownloadTaskImpl url disposition bytes mime transition ident)"
  have "object_ok True True (Some ?d)"
    by (simp add: object_ok_def requests_ok_def new_download_def DownloadTaskImpl_def)
  then show ?thesis
    using assms(2) False
    by (intro controller_inv_change [OF assms(1), where i = "next_object c" and d = ?d])
      (auto simp: CreateDownloadTask_def Let_def)
qed (use assms(1) in \<open>simp add: CreateDownloadTask_def\<close>)

lemma destroy_controller_inv:
  assumes "controller_inv c"
  shows "\<exists>c'. delete_DownloadControllerImpl None c = Some c' \<and> controller_inv c' \<and> \<not> controller_alive c'"
proof -
  have ok: "object_ok (controller_alive c) (i \<in> alive_tasks c) (task_objects c i)" for i
    using assms by (simp add: controller_inv_def)
  let ?f = "\<lambda>i. if i \<in> alive_tasks c then map_option ShutDown (task_objects c i) else task_objects c i"
  have "object_ok False False (?f i)" for i
    using ok [of i] by (cases "task_objects c i") (auto simp: object_ok_def end_of_task)
  moreover have "\<forall>i \<in> alive_tasks c. task_objects c i \<noteq> None"
  proof
    fix i
    assume "i \<in> alive_tasks c"
    with ok [of i] show "task_objects c i \<noteq> None" by (auto simp: object_ok_def split: option.splits)
  qed
  moreover have "\<forall>i \<ge> next_object c. ?f i = None" using assms by (simp add: controller_inv_def)
  ultimately show ?thesis
    by (cases "dc_delegate c") (simp_all add: delete_DownloadControllerImpl_def controller_inv_def Let_def)
qed

text \<open>A step that the owner may take keeps the invariant, or it is the step of a task that fails by itself.\<close>

definition task_stops :: "'u download_lib \<Rightarrow> 'u controller_event \<Rightarrow> 'u controller \<Rightarrow> bool" where
  "task_stops L e c \<longleftrightarrow> (\<exists>i ev d. e = TaskEvent i ev \<and> task_objects c i = Some d \<and> download_step L ev d = None)"

lemma controller_step_inv:
  assumes "controller_inv c" "controller_allowed e c" "\<not> task_stops L e c"
  shows "\<exists>c'. controller_step L e c = Some c' \<and> controller_inv c'"
proof (cases e)
  case (CreateTask ident url disposition bytes mime transition)
  with create_task_inv [OF assms(1)] assms(2) show ?thesis by (simp add: controller_allowed_def)
next
  case (TaskEvent i ev)
  with assms(2) obtain d where d: "task_objects c i = Some d" "task_may ev d"
    by (cases "task_objects c i") (auto simp: controller_allowed_def)
  with TaskEvent assms(3) obtain d' where "download_step L ev d = Some d'" by (auto simp: task_stops_def)
  with task_event_inv [OF assms(1) d] d(1) TaskEvent show ?thesis by (simp add: task_event_def)
next
  case (DeleteTask i)
  with assms(2) obtain d where "task_objects c i = Some d" "\<not> task_destroyed (dl_task d)"
    by (cases "task_objects c i") (auto simp: controller_allowed_def)
  with delete_task_inv [OF assms(1)] DeleteTask show ?thesis by simp
next
  case (DestroyController delegate)
  with destroy_controller_inv [OF assms(1)] assms(2) show ?thesis by (auto simp: controller_allowed_def)
next
  case (ChangeDelegate delegate)
  with assms(1) show ?thesis by (simp add: SetDelegate_def controller_inv_def)
qed

interpretation controlling:
  event_machine "\<lambda>e c. controller_allowed e c \<and> \<not> task_stops L e c" "controller_step L" controller_inv for L
  by unfold_locales (blast intro: controller_step_inv)

lemma controller_inv_new: "controller_inv new_DownloadControllerImpl"
  by (simp add: controller_inv_def object_ok_def new_DownloadControllerImpl_def)

lemma controller_run_split:
  assumes "allowed_run controller_allowed (controller_step L) es new_DownloadControllerImpl"
  obtains pre post c where "es = pre @ post" "run_events (controller_step L) pre new_DownloadControllerImpl = Some c"
    "controller_inv c" "post = [] \<or> task_stops L (hd post) c"
  using assms
proof (rule allowed_run_split [where good = "\<lambda>e c. controller_allowed e c \<and> \<not> task_stops L e c"])
  assume "allowed_run (\<lambda>e c. controller_allowed e c \<and> \<not> task_stops L e c) (controller_step L) es new_DownloadControllerImpl"
  from controlling.run_ok [OF controller_inv_new this] that [of es "[]"] show thesis by auto
next
  fix pre e post c
  assume *: "es = pre @ e # post" "run_events (controller_step L) pre new_DownloadControllerImpl = Some c"
    "allowed_run (\<lambda>e c. controller_allowed e c \<and> \<not> task_stops L e c) (controller_step L) pre new_DownloadControllerImpl"
    "controller_allowed e c" "\<not> (controller_allowed e c \<and> \<not> task_stops L e c)"
  from controlling.run_ok [OF controller_inv_new *(3)] *(2) have "controller_inv c" by auto
  with * that [of pre "e # post" c] show thesis by simp
qed

lemma alive_tasks_eq:
  assumes "controller_inv c"
  shows "alive_tasks c = (if controller_alive c then {i. \<exists>d. task_objects c i = Some d \<and> \<not> task_destroyed (dl_task d)} else {})"
proof -
  have "i \<in> alive_tasks c \<longleftrightarrow> controller_alive c \<and> (\<exists>d. task_objects c i = Some d \<and> \<not> task_destroyed (dl_task d))" for i
  proof (cases "task_objects c i")
    case None
    have "object_ok (controller_alive c) (i \<in> alive_tasks c) (task_objects c i)"
      using assms by (simp add: controller_inv_def)
    with None show ?thesis by (simp add: object_ok_def)
  qed (use controller_invD [OF assms] in auto)
  then show ?thesis by auto
qed

lemma cookies_find_controller:
  assumes "controller_inv c" "controller_alive c" "task_objects c i = Some d" "task_identifier (dl_task d) \<noteq> []"
  shows "cookies_ready cookies active d \<noteq> None"
  using assms(2,4) controller_invD [OF assms(1,3)]
  by (auto simp: cookies_ready_def StartWithCookies_def CreateSession_def requests_ok_def Let_def bind_check
      split: nat.splits)

text \<open>
  C40. The set of alive tasks. For every sequence of creations, deletions, task events, changes of the
  delegate and the destruction of the controller, in which nobody uses an object after its deletion, the
  checks of the controller and of the deletions hold: a sequence runs to its end, or to an event at which a
  task fails by a check of its own. At any point, as long as the controller is alive its
  set holds exactly the tasks that have not been deleted, and each of them has the controller as its
  delegate, so that cookies find it; afterwards the set is empty and no task has a delegate, so that the
  deletion of a task does not touch the controller. Tasks may be restarted, have data URLs and
  get their cookies late; cookies that come after the destruction of the controller are one of the events at which
  a task fails.
\<close>

theorem alive_tasks_exact:
  assumes "allowed_run controller_allowed (controller_step L) es new_DownloadControllerImpl"
  shows "\<exists>pre post c. es = pre @ post \<and> run_events (controller_step L) pre new_DownloadControllerImpl = Some c \<and>
    alive_tasks c = (if controller_alive c then {i. \<exists>d. task_objects c i = Some d \<and> \<not> task_destroyed (dl_task d)} else {}) \<and>
    (\<forall>i d. task_objects c i = Some d \<longrightarrow> (has_delegate (dl_task d) \<longleftrightarrow> i \<in> alive_tasks c) \<and>
       (controller_alive c \<and> task_identifier (dl_task d) \<noteq> [] \<longrightarrow>
          (\<forall>cookies active. cookies_ready cookies active d \<noteq> None))) \<and>
    (post = [] \<or> (\<exists>i e d rest. post = TaskEvent i e # rest \<and> task_objects c i = Some d \<and> download_step L e d = None))"
proof -
  from assms obtain pre post c where c: "es = pre @ post"
    "run_events (controller_step L) pre new_DownloadControllerImpl = Some c" "controller_inv c"
    "post = [] \<or> task_stops L (hd post) c" by (rule controller_run_split)
  have "post = [] \<or> (\<exists>i e d rest. post = TaskEvent i e # rest \<and> task_objects c i = Some d \<and> download_step L e d = None)"
    using c(4) by (cases post) (auto simp: task_stops_def)
  with c(1,2) alive_tasks_eq [OF c(3)] controller_invD(1) [OF c(3)] cookies_find_controller [OF c(3)]
  show ?thesis by blast
qed

definition demo_controller_events :: "string controller_event list" where
  "demo_controller_events = [ChangeDelegate (Some 5), CreateTask ''a'' ''http://a/f'' [] 4 [] 0, CreateTask ''b'' ''http://a/g'' [] 4 [] 0,
     TaskEvent 0 (StartDownload 1 0 0), TaskEvent 0 (CookiesReady [] True), TaskEvent 0 CancelDownload,
     TaskEvent 0 (StartDownload 2 0 0), DeleteTask 1]"

theorem alive_tasks_exact_witness:
  "\<exists>c. run_events (controller_step download_demo) demo_controller_events new_DownloadControllerImpl = Some c \<and> alive_tasks c = {0}"
proof -
  let ?run = "\<lambda>es. run_events (controller_step download_demo) es new_DownloadControllerImpl"
  have "allowed_run controller_allowed (controller_step download_demo) demo_controller_events new_DownloadControllerImpl"
    by code_simp
  from alive_tasks_exact [OF this] obtain pre post c where
    c: "demo_controller_events = pre @ post" "?run pre = Some c"
      "alive_tasks c = (if controller_alive c then {i. \<exists>d. task_objects c i = Some d \<and> \<not> task_destroyed (dl_task d)} else {})"
      "post = [] \<or> (\<exists>i e d rest. post = TaskEvent i e # rest \<and> task_objects c i = Some d \<and> download_step download_demo e d = None)"
    by blast
  have r: "map_option alive_tasks (?run demo_controller_events) = Some {0}" by code_simp
  have "post = []"
  proof (rule ccontr)
    assume "post \<noteq> []"
    with c(4) obtain i e d rest where "post = TaskEvent i e # rest" "task_objects c i = Some d"
      "download_step download_demo e d = None" by blast
    then have "?run (pre @ post) = None" using c(2) by (simp add: run_events_append task_event_def)
    with c(1) r show False by simp
  qed
  with c(1,2) r have "?run demo_controller_events = Some c" "alive_tasks c = {0}" by simp_all
  then show ?thesis by blast
qed

text \<open>
  The destruction of the controller takes the delegate of a task that still waits for its cookies; when they come
  the task creates its session with a delegate that is gone.
\<close>

lemma cookies_after_controller:
  "Option.is_none (run_events (controller_step download_demo)
    [ChangeDelegate (Some 5), CreateTask ''a'' ''http://a/f'' [] 4 [] 0, TaskEvent 0 (StartDownload 1 0 0),
     DestroyController None, TaskEvent 0 (CookiesReady [] True)] new_DownloadControllerImpl)"
  by code_simp

end
