(* ===== verification/Notification_Promo.thy ===== *)
theory Notification_Promo
  imports Prelude
begin

text \<open>
  \<open>chrome/browser/notification_promo.cc\<close>: the promotion shown on the new tab page, read from a field
  trial or JSON, with the views and the dismissal it remembers in local preferences. Doubles are of a
  type \<open>'t\<close>, times are microseconds. Log messages and the registration of preferences are left out.
\<close>

section \<open>State\<close>

definition kPrefPromoFirstViewTime :: string where "kPrefPromoFirstViewTime = ''first_view_time''"
definition kPrefPromoViews :: string where "kPrefPromoViews = ''views''"
definition kPrefPromoClosed :: string where "kPrefPromoClosed = ''closed''"

datatype 't json_value =
    JInteger int | JString string | JDouble 't | JBoolean bool | JDictionary "string \<Rightarrow> 't json_value option"

type_synonym 't dictionary = "string \<rightharpoonup> 't json_value"

text \<open>
  The functions of base: setting a value under a path, decimal numbers, dates and times. A time is
  what \<open>ToDoubleT\<close> of the parsed date gives.
\<close>

record 't promo_lib =
  SetPath :: "string \<Rightarrow> 't json_value \<Rightarrow> 't dictionary \<Rightarrow> 't dictionary"
  NumberToString :: "int \<Rightarrow> string"
  StringToInt :: "string \<Rightarrow> int option"
  TimeFromString :: "string \<Rightarrow> 't option"
  FromDoubleT :: "'t \<Rightarrow> int"
  ToDoubleT :: "int \<Rightarrow> 't"
  zero_double :: 't
  IntToDouble :: "int \<Rightarrow> 't"

record 't promo =
  promo_text :: string
  promo_payload :: "'t dictionary"
  promo_start :: 't
  promo_end :: 't
  promo_id :: int
  max_views :: int
  max_seconds :: int
  first_view_time :: 't
  views :: int
  closed :: bool

definition new_NotificationPromo :: "'t promo_lib \<Rightarrow> 't promo" where
  "new_NotificationPromo B =
     \<lparr>promo_text = [], promo_payload = (\<lambda>_. None), promo_start = zero_double B, promo_end = zero_double B,
      promo_id = - 1, max_views = 0, max_seconds = 0, first_view_time = zero_double B, views = 0, closed = False\<rparr>"

section \<open>Reading a promotion\<close>

text \<open>The getters of a dictionary leave the variable alone when there is no value of their type.\<close>

definition GetString :: "'t dictionary \<Rightarrow> string \<Rightarrow> string option" where
  "GetString d k = (case d k of Some (JString s) \<Rightarrow> Some s | _ \<Rightarrow> None)"

definition GetInteger :: "'t dictionary \<Rightarrow> string \<Rightarrow> int \<Rightarrow> int" where
  "GetInteger d k old = (case d k of Some (JInteger i) \<Rightarrow> i | _ \<Rightarrow> old)"

definition GetDictionary :: "'t dictionary \<Rightarrow> string \<Rightarrow> 't dictionary option" where
  "GetDictionary d k = (case d k of Some (JDictionary e) \<Rightarrow> Some e | _ \<Rightarrow> None)"

definition GetDouble :: "'t promo_lib \<Rightarrow> 't dictionary \<Rightarrow> string \<Rightarrow> 't \<Rightarrow> 't" where
  "GetDouble B d k old =
     (case d k of Some (JDouble x) \<Rightarrow> x | Some (JInteger i) \<Rightarrow> IntToDouble B i | _ \<Rightarrow> old)"

definition GetBoolean :: "'t dictionary \<Rightarrow> string \<Rightarrow> bool \<Rightarrow> bool" where
  "GetBoolean d k old = (case d k of Some (JBoolean b) \<Rightarrow> b | _ \<Rightarrow> old)"

definition time_in :: "'t promo_lib \<Rightarrow> 't dictionary \<Rightarrow> string \<Rightarrow> 't \<Rightarrow> 't" where
  "time_in B d k old =
     (case GetString d k of
        None \<Rightarrow> old
      | Some time_str \<Rightarrow> (case TimeFromString B time_str of None \<Rightarrow> old | Some time \<Rightarrow> time))"

definition InitFromJson :: "'t promo_lib \<Rightarrow> 't dictionary \<Rightarrow> 't promo \<Rightarrow> 't promo" where
  "InitFromJson B d p =
     p\<lparr>promo_start := time_in B d ''start'' (promo_start p),
       promo_end := time_in B d ''end'' (promo_end p),
       promo_text := (case GetString d ''promo_text'' of Some t \<Rightarrow> t | None \<Rightarrow> promo_text p),
       promo_payload := (case GetDictionary d ''payload'' of Some e \<Rightarrow> e | None \<Rightarrow> promo_payload p),
       max_views := GetInteger d ''max_views'' (max_views p),
       max_seconds := GetInteger d ''max_seconds'' (max_seconds p),
       promo_id := GetInteger d ''promo_id'' (promo_id p)\<rparr>"

definition IsPayloadParam :: "string \<Rightarrow> bool" where
  "IsPayloadParam param_name \<longleftrightarrow>
     param_name \<noteq> ''start'' \<and> param_name \<noteq> ''end'' \<and> param_name \<noteq> ''promo_text'' \<and>
     param_name \<noteq> ''max_views'' \<and> param_name \<noteq> ''max_seconds'' \<and> param_name \<noteq> ''promo_id''"

definition param_value :: "'t promo_lib \<Rightarrow> string \<Rightarrow> 't json_value" where
  "param_value B v = (case StringToInt B v of Some n \<Rightarrow> JInteger n | None \<Rightarrow> JString v)"

text \<open>The loop over the parameters of the trial, with the two dictionaries it builds.\<close>

fun add_params ::
  "'t promo_lib \<Rightarrow> (string \<times> string) list \<Rightarrow> 't dictionary \<times> 't dictionary \<Rightarrow> 't dictionary \<times> 't dictionary" where
  "add_params B [] (json, payload) = (json, payload)"
| "add_params B ((name, v) # params) (json, payload) =
     add_params B params
       (if IsPayloadParam name then (json, SetPath B name (param_value B v) payload)
        else (SetPath B name (param_value B v) json, payload))"

text \<open>\<open>None\<close> when the client is not in the trial; otherwise the parameters in the order of their names.\<close>

definition InitFromVariations :: "'t promo_lib \<Rightarrow> (string \<times> string) list option \<Rightarrow> 't promo \<Rightarrow> 't promo" where
  "InitFromVariations B variation_params p =
     (case variation_params of
        None \<Rightarrow> p
      | Some params \<Rightarrow>
          (let (json, payload) = add_params B params (\<lambda>_. None, \<lambda>_. None)
           in InitFromJson B (json(''payload'' \<mapsto> JDictionary payload)) p))"

section \<open>Preferences\<close>

text \<open>The preference is a dictionary under the identifiers of promotions.\<close>

definition WritePrefs_with ::
  "'t promo_lib \<Rightarrow> int \<Rightarrow> 't \<Rightarrow> int \<Rightarrow> bool \<Rightarrow> 't dictionary \<Rightarrow> 't dictionary" where
  "WritePrefs_with B pid first_view n c pref =
     pref(NumberToString B pid \<mapsto> JDictionary
       [kPrefPromoFirstViewTime \<mapsto> JDouble first_view, kPrefPromoViews \<mapsto> JInteger n,
        kPrefPromoClosed \<mapsto> JBoolean c])"

definition WritePrefs :: "'t promo_lib \<Rightarrow> 't promo \<Rightarrow> 't dictionary \<Rightarrow> 't dictionary" where
  "WritePrefs B p pref = WritePrefs_with B (promo_id p) (first_view_time p) (views p) (closed p) pref"

definition InitFromPrefs :: "'t promo_lib \<Rightarrow> 't dictionary \<Rightarrow> 't promo \<Rightarrow> 't promo" where
  "InitFromPrefs B pref p =
     (if promo_id p = - 1 then p
      else case GetDictionary pref (NumberToString B (promo_id p)) of
        None \<Rightarrow> p
      | Some ntp_promo \<Rightarrow>
          p\<lparr>first_view_time := GetDouble B ntp_promo kPrefPromoFirstViewTime (first_view_time p),
            views := GetInteger ntp_promo kPrefPromoViews (views p),
            closed := GetBoolean ntp_promo kPrefPromoClosed (closed p)\<rparr>)"

definition MigrateUserPrefs :: "'t dictionary option \<Rightarrow> 't dictionary option" where
  "MigrateUserPrefs user_pref = None"

section \<open>Showing, viewing and closing\<close>

definition StartTime :: "'t promo \<Rightarrow> 't" where "StartTime p = promo_start p"
definition EndTime :: "'t promo \<Rightarrow> 't" where "EndTime p = promo_end p"

definition ExceedsMaxViews :: "'t promo \<Rightarrow> bool" where
  "ExceedsMaxViews p = (if max_views p = 0 then False else max_views p \<le> views p)"

definition ExceedsMaxSeconds :: "'t promo_lib \<Rightarrow> int \<Rightarrow> 't promo \<Rightarrow> bool" where
  "ExceedsMaxSeconds B now p =
     (if max_seconds p = 0 \<or> first_view_time p = zero_double B then False
      else FromDoubleT B (first_view_time p) + 1000000 * max_seconds p < now)"

definition CanShow :: "'t promo_lib \<Rightarrow> int \<Rightarrow> 't promo \<Rightarrow> bool" where
  "CanShow B now p \<longleftrightarrow>
     \<not> closed p \<and> promo_text p \<noteq> [] \<and> \<not> ExceedsMaxViews p \<and> \<not> ExceedsMaxSeconds B now p \<and>
     FromDoubleT B (StartTime p) < now \<and> now < FromDoubleT B (EndTime p)"

definition HandleClosed :: "'t promo_lib \<Rightarrow> 't promo \<Rightarrow> 't dictionary \<Rightarrow> 't dictionary" where
  "HandleClosed B p pref =
     (if \<not> closed p then WritePrefs_with B (promo_id p) (first_view_time p) (views p) True pref else pref)"

definition HandleViewed :: "'t promo_lib \<Rightarrow> int \<Rightarrow> 't promo \<Rightarrow> 't dictionary \<Rightarrow> 't dictionary" where
  "HandleViewed B now p pref =
     (let n = views p + 1;
          first_view = (if first_view_time p = zero_double B then ToDoubleT B now else first_view_time p)
      in WritePrefs_with B (promo_id p) first_view n (closed p) pref)"

section \<open>What is remembered\<close>

text \<open>
  A session builds the promotion from its description and from the preferences. The views of the same
  promotion in later sessions, at the times of the list, each write the preferences.
\<close>

definition promo_session :: "'t promo_lib \<Rightarrow> 't dictionary \<Rightarrow> 't dictionary \<Rightarrow> 't promo" where
  "promo_session B d pref = InitFromPrefs B pref (InitFromJson B d (new_NotificationPromo B))"

fun view_sessions :: "'t promo_lib \<Rightarrow> 't dictionary \<Rightarrow> int list \<Rightarrow> 't dictionary \<Rightarrow> 't dictionary" where
  "view_sessions B d [] pref = pref"
| "view_sessions B d (now # nows) pref =
     view_sessions B d nows (HandleViewed B now (promo_session B d pref) pref)"

lemmas pref_keys = kPrefPromoFirstViewTime_def kPrefPromoViews_def kPrefPromoClosed_def

lemma prefs_round_trip:
  assumes "promo_id p \<noteq> - 1"
  shows "InitFromPrefs B (WritePrefs_with B (promo_id p) f n c pref) p =
    p\<lparr>first_view_time := f, views := n, closed := c\<rparr>"
  using assms
  by (simp add: InitFromPrefs_def WritePrefs_with_def GetDictionary_def GetDouble_def GetInteger_def
      GetBoolean_def pref_keys)

lemma other_promos_kept:
  assumes "inj (NumberToString B)" "promo_id p \<noteq> pid"
  shows "InitFromPrefs B (WritePrefs_with B pid f n c pref) p = InitFromPrefs B pref p"
proof -
  have "NumberToString B (promo_id p) \<noteq> NumberToString B pid" using assms by (simp add: inj_eq)
  then show ?thesis by (simp add: InitFromPrefs_def WritePrefs_with_def GetDictionary_def)
qed

lemma InitFromPrefs_id [simp]:
  "promo_id (InitFromPrefs B pref p) = promo_id p" "max_views (InitFromPrefs B pref p) = max_views p"
  by (auto simp: InitFromPrefs_def split: option.splits)

lemma promo_session_fields [simp]:
  "promo_id (promo_session B d pref) = GetInteger d ''promo_id'' (- 1)"
  "max_views (promo_session B d pref) = GetInteger d ''max_views'' 0"
  by (simp_all add: promo_session_def InitFromJson_def new_NotificationPromo_def)

lemma session_after_write:
  assumes "GetInteger d ''promo_id'' (- 1) = pid" "pid \<noteq> - 1"
  shows "promo_session B d (WritePrefs_with B pid f n c pref) =
    (InitFromJson B d (new_NotificationPromo B))\<lparr>first_view_time := f, views := n, closed := c\<rparr>"
proof -
  have "promo_id (InitFromJson B d (new_NotificationPromo B)) = pid"
    using assms(1) by (simp add: InitFromJson_def new_NotificationPromo_def)
  with prefs_round_trip [of "InitFromJson B d (new_NotificationPromo B)"] assms(2) show ?thesis
    by (auto simp: promo_session_def)
qed

text \<open>
  Each session that shows the promotion counts one view, and the time of the first view is kept. A
  promotion with a limit is not shown again once it was viewed that often.
\<close>

lemma views_counted:
  assumes "GetInteger d ''promo_id'' (- 1) \<noteq> - 1"
  shows "views (promo_session B d (view_sessions B d nows pref)) =
    views (promo_session B d pref) + int (length nows)"
proof (induction nows arbitrary: pref)
  case (Cons now nows)
  have "views (promo_session B d (HandleViewed B now (promo_session B d pref) pref)) =
      views (promo_session B d pref) + 1"
    using session_after_write [OF refl assms] by (simp add: HandleViewed_def)
  with Cons show ?case by simp
qed simp

lemma not_shown_after_max_views:
  assumes "GetInteger d ''promo_id'' (- 1) \<noteq> - 1" "0 < GetInteger d ''max_views'' 0"
    "0 \<le> views (promo_session B d pref)" "GetInteger d ''max_views'' 0 \<le> int (length nows)"
  shows "\<not> CanShow B t (promo_session B d (view_sessions B d nows pref))"
  using assms views_counted [OF assms(1), of B nows pref] by (simp add: CanShow_def ExceedsMaxViews_def)

text \<open>A promotion that was closed in an earlier session stays closed.\<close>

lemma closed_stays:
  assumes "GetInteger d ''promo_id'' (- 1) \<noteq> - 1" "closed (promo_session B d pref)"
  shows "closed (promo_session B d (view_sessions B d nows pref))"
  using assms(2)
proof (induction nows arbitrary: pref)
  case (Cons now nows)
  then show ?case using session_after_write [OF refl assms(1)] by (simp add: HandleViewed_def)
qed simp

lemma closing_is_remembered:
  assumes "GetInteger d ''promo_id'' (- 1) \<noteq> - 1"
  shows "closed (promo_session B d (HandleClosed B (promo_session B d pref) pref))"
  using session_after_write [OF refl assms] by (auto simp: HandleClosed_def)

text \<open>
  Within one session the object does not learn that it was closed: a view after the dismissal writes
  the old state back, and the promotion is shown again in the next session.
\<close>

lemma viewing_reopens:
  assumes "GetInteger d ''promo_id'' (- 1) \<noteq> - 1"
  shows "closed (promo_session B d
      (HandleViewed B now (promo_session B d pref) (HandleClosed B (promo_session B d pref) pref))) =
    closed (promo_session B d pref)"
  using session_after_write [OF refl assms] by (simp add: HandleViewed_def)

text \<open>
  A text that is a number becomes an integer value on its way through the trial parameters, and is
  lost: the promotion is never shown.
\<close>

lemma numeric_text_is_lost:
  assumes "\<And>k v d. CHR ''.'' \<notin> set k \<Longrightarrow> SetPath B k v d = d(k \<mapsto> v)" "StringToInt B t = Some n"
  shows "\<not> CanShow B now (InitFromVariations B (Some [(''promo_text'', t)]) (new_NotificationPromo B))"
proof -
  have "add_params B [(''promo_text'', t)] (\<lambda>_. None, \<lambda>_. None) =
      ([''promo_text'' \<mapsto> JInteger n], \<lambda>_. None)"
    using assms by (simp add: IsPayloadParam_def param_value_def)
  then show ?thesis
    by (simp add: InitFromVariations_def InitFromJson_def CanShow_def GetString_def new_NotificationPromo_def)
qed

text \<open>A limit in seconds counts from the first view, which the preferences keep.\<close>

lemma first_view_kept:
  assumes "GetInteger d ''promo_id'' (- 1) \<noteq> - 1" "first_view_time (promo_session B d pref) \<noteq> zero_double B"
  shows "first_view_time (promo_session B d (view_sessions B d nows pref)) = first_view_time (promo_session B d pref)"
  using assms(2)
proof (induction nows arbitrary: pref)
  case (Cons now nows)
  then show ?case using session_after_write [OF refl assms(1)] by (simp add: HandleViewed_def)
qed simp

end
