(* ===== verification/Wk_Web_View.thy ===== *)
theory Wk_Web_View
  imports Navigation_Manager
begin

text \<open>
  The state of \<open>WKBasedNavigationManagerImpl\<close> (\<open>web/navigation/wk_based_navigation_manager_impl.{h,mm}\<close>),
  the navigation manager that takes its history from the back-forward list of the web view, and the
  part of it that reads that list: \<open>WKWebViewCache\<close> and \<open>CRWNavigationItemHolder\<close>.

  The web view belongs to the system and changes under the manager: a \<open>WKBackForwardList\<close> is the
  sequence of its items and the position of the current one (\<open>-1\<close> when \<open>currentItem\<close> is \<open>nil\<close>), and
  each item may hold a navigation item. A navigation item lives in exactly one slot, and a pointer to
  it is the name of the slot. Getters create missing navigation items, and so return a new state with
  their result.
\<close>

section \<open>State\<close>

record 'u wk_item =
  wk_url :: 'u
  wk_title :: string
  wk_holder :: "'u navigation_item option"

record 'u web_view =
  wv_url :: 'u
  wv_items :: "'u wk_item list"
  wv_index :: int

datatype wk_ref = WkPending | WkTransient | WkEmptyWindow | WkRestored | WkListed nat | WkCached nat

datatype wk_delegate_call = Base delegate_event | ItemCommitted wk_ref

text \<open>A callback that waits for the end of a restoration: a deferred load, or one of a client.\<close>

datatype 'u restore_callback = LoadCallback "'u web_load_params" | ClientCallback nat

record 'u wk_manager =
  pending_item :: "'u navigation_item option"
  pending_item_index :: int
  previous_item_index :: int
  last_committed_item_index :: int
  empty_window_open_item :: "'u navigation_item option"
  transient_item :: "'u navigation_item option"
  wk_time_smoother :: time_smoother
  attached_to_web_view :: bool
  cached_items :: "'u navigation_item list"
  cached_current_item_index :: int
  is_restore_session_in_progress :: bool
  restored_visible_item :: "'u navigation_item option"
  restore_session_completion_callbacks :: "'u restore_callback list"
  wk_transient_url_rewriters :: "'u url_rewriter list"
  wk_proxy :: "'u web_view option"
  wk_calls :: "wk_delegate_call list"
  wk_client_calls :: "nat list"
  wk_unique_id_counter :: int
  wk_clock :: int

text \<open>
  The constructor. The clock and the counter of identifiers belong to the process. The constructor
  leaves \<open>cached_current_item_index_\<close> uninitialised; it is read only after a detachment has set it.
\<close>

definition new_WKBasedNavigationManagerImpl :: "int \<Rightarrow> int \<Rightarrow> int \<Rightarrow> 'u web_view option \<Rightarrow> 'u wk_manager" where
  "new_WKBasedNavigationManagerImpl uninitialised counter now proxy =
     \<lparr>pending_item = None, pending_item_index = - 1, previous_item_index = - 1,
      last_committed_item_index = - 1, empty_window_open_item = None, transient_item = None,
      wk_time_smoother = new_time_smoother, attached_to_web_view = True, cached_items = [],
      cached_current_item_index = uninitialised, is_restore_session_in_progress = False,
      restored_visible_item = None, restore_session_completion_callbacks = [],
      wk_transient_url_rewriters = [], wk_proxy = proxy, wk_calls = [], wk_client_calls = [],
      wk_unique_id_counter = counter, wk_clock = now\<rparr>"

definition wk_tell :: "wk_delegate_call \<Rightarrow> 'u wk_manager \<Rightarrow> 'u wk_manager" where
  "wk_tell e m = m\<lparr>wk_calls := wk_calls m @ [e]\<rparr>"

section \<open>Items of the web view\<close>

definition holder_at :: "nat \<Rightarrow> 'u wk_manager \<Rightarrow> 'u navigation_item option" where
  "holder_at i m =
     (case wk_proxy m of
        Some v \<Rightarrow> if i < length (wv_items v) then wk_holder (wv_items v ! i) else None
      | None \<Rightarrow> None)"

definition set_holder :: "nat \<Rightarrow> 'u navigation_item \<Rightarrow> 'u web_view \<Rightarrow> 'u web_view" where
  "set_holder i item v = v\<lparr>wv_items := (wv_items v)[i := (wv_items v ! i)\<lparr>wk_holder := Some item\<rparr>]\<rparr>"

text \<open>\<open>SetNavigationItemInWKItem\<close> on the item at a position, and \<open>GetNavigationItemFromWKItem\<close>.\<close>

definition SetNavigationItemInWKItem :: "nat option \<Rightarrow> 'u navigation_item \<Rightarrow> 'u wk_manager \<Rightarrow> 'u wk_manager option" where
  "SetNavigationItemInWKItem wk_item item m = do {
     i \<leftarrow> wk_item;
     v \<leftarrow> wk_proxy m;
     check (i < length (wv_items v));
     Some (m\<lparr>wk_proxy := Some (set_holder i item v)\<rparr>) }"

definition GetNavigationItemFromWKItem :: "nat option \<Rightarrow> 'u wk_manager \<Rightarrow> wk_ref option" where
  "GetNavigationItemFromWKItem wk_item m =
     (case wk_item of
        None \<Rightarrow> None
      | Some i \<Rightarrow> if holder_at i m = None then None else Some (WkListed i))"

definition IsSameOrPlaceholderOf :: "'u gurl_lib \<Rightarrow> 'u \<Rightarrow> 'u \<Rightarrow> bool option" where
  "IsSameOrPlaceholderOf L url1 url2 =
     (if url1 = url2 then Some True
      else do {
        placeholder \<leftarrow> CreatePlaceholderUrlForUrl L url2;
        Some (url1 = placeholder) })"

fun wk_deref :: "'u wk_manager \<Rightarrow> wk_ref \<Rightarrow> 'u navigation_item option" where
  "wk_deref m WkPending = pending_item m"
| "wk_deref m WkTransient = transient_item m"
| "wk_deref m WkEmptyWindow = empty_window_open_item m"
| "wk_deref m WkRestored = restored_visible_item m"
| "wk_deref m (WkListed i) = holder_at i m"
| "wk_deref m (WkCached i) = (if i < length (cached_items m) then Some (cached_items m ! i) else None)"

fun wk_store :: "wk_ref \<Rightarrow> 'u navigation_item \<Rightarrow> 'u wk_manager \<Rightarrow> 'u wk_manager" where
  "wk_store WkPending item m = m\<lparr>pending_item := Some item\<rparr>"
| "wk_store WkTransient item m = m\<lparr>transient_item := Some item\<rparr>"
| "wk_store WkEmptyWindow item m = m\<lparr>empty_window_open_item := Some item\<rparr>"
| "wk_store WkRestored item m = m\<lparr>restored_visible_item := Some item\<rparr>"
| "wk_store (WkListed i) item m = m\<lparr>wk_proxy := map_option (set_holder i item) (wk_proxy m)\<rparr>"
| "wk_store (WkCached i) item m = m\<lparr>cached_items := (cached_items m)[i := item]\<rparr>"

text \<open>A member function called through a pointer; a dangling pointer stops the program.\<close>

definition wk_update ::
  "wk_ref \<Rightarrow> ('u navigation_item \<Rightarrow> 'u navigation_item option) \<Rightarrow> 'u wk_manager \<Rightarrow> 'u wk_manager option" where
  "wk_update r f m = do {
     item \<leftarrow> wk_deref m r;
     item' \<leftarrow> f item;
     Some (wk_store r item' m) }"

section \<open>The cache of the web view\<close>

definition IsAttachedToWebView :: "'u wk_manager \<Rightarrow> bool" where
  "IsAttachedToWebView m = attached_to_web_view m"

text \<open>The properties \<open>backList.count\<close> and \<open>forwardList.count\<close>, and the item at an offset.\<close>

definition backList_count :: "'u web_view \<Rightarrow> nat" where
  "backList_count v = nat (wv_index v)"

definition forwardList_count :: "'u web_view \<Rightarrow> nat" where
  "forwardList_count v = (if wv_index v = - 1 then 0 else length (wv_items v) - nat (wv_index v) - 1)"

definition itemAtOffset :: "int \<Rightarrow> 'u web_view \<Rightarrow> nat option" where
  "itemAtOffset offset v =
     (let i = wv_index v + offset in
      if wv_index v \<noteq> - 1 \<and> 0 \<le> i \<and> i < int (length (wv_items v)) then Some (nat i) else None)"

definition GetBackForwardListItemCount :: "'u wk_manager \<Rightarrow> nat" where
  "GetBackForwardListItemCount m =
     (if \<not> IsAttachedToWebView m then length (cached_items m)
      else case wk_proxy m of
        None \<Rightarrow> 0
      | Some v \<Rightarrow>
          (let count_current_page = (if wv_index v \<noteq> - 1 then 1 else 0)
           in backList_count v + count_current_page + forwardList_count v))"

definition GetCurrentItemIndex :: "'u wk_manager \<Rightarrow> int" where
  "GetCurrentItemIndex m =
     (if \<not> IsAttachedToWebView m then cached_current_item_index m
      else case wk_proxy m of
        None \<Rightarrow> - 1
      | Some v \<Rightarrow> if wv_index v \<noteq> - 1 then int (backList_count v) else - 1)"

definition GetWKItemAtIndex :: "nat \<Rightarrow> 'u wk_manager \<Rightarrow> nat option option" where
  "GetWKItemAtIndex index m = do {
     check (IsAttachedToWebView m);
     if index \<ge> GetBackForwardListItemCount m then Some None
     else do {
       v \<leftarrow> wk_proxy m;
       let offset = int index - GetCurrentItemIndex m in Some (itemAtOffset offset v) } }"

definition wk_url_at :: "nat option \<Rightarrow> 'u web_lib \<Rightarrow> 'u wk_manager \<Rightarrow> 'u" where
  "wk_url_at wk_item W m =
     (case (wk_item, wk_proxy m) of
        (Some i, Some v) \<Rightarrow> wk_url (wv_items v ! i)
      | _ \<Rightarrow> empty_gurl (gl W))"

text \<open>The virtual URL of an item that was created by the restoration page.\<close>

definition hide_restore_url :: "'u web_lib \<Rightarrow> 'u navigation_item \<Rightarrow> 'u navigation_item option" where
  "hide_restore_url W item =
     (if IsRestoreSessionUrl (gl W) (item_url item)
      then do {
        target \<leftarrow> ExtractTargetURL (gl W) (item_url item);
        Some (case target of
                None \<Rightarrow> item
              | Some virtual \<Rightarrow>
                  SetVirtualURL W (if IsPlaceholderUrl (gl W) virtual
                                   then ExtractUrlFromPlaceholderUrl (gl W) virtual else virtual) item) }
      else Some item)"

text \<open>\<open>CreateNavigationItemWithRewriters\<close> with the placeholder test of this manager.\<close>

definition wk_CreateItem ::
  "'u web_lib \<Rightarrow> 'u \<Rightarrow> 'u referrer \<Rightarrow> page_transition \<Rightarrow> navigation_initiation_type \<Rightarrow> 'u
   \<Rightarrow> 'u url_rewriter list \<Rightarrow> 'u wk_manager \<Rightarrow> ('u navigation_item \<times> 'u wk_manager) option" where
  "wk_CreateItem W url referrer transition initiation previous_url rewriters m = do {
     item \<leftarrow> CreateNavigationItemWithRewriters W (IsPlaceholderUrl (gl W)) url referrer transition initiation
               previous_url rewriters (wk_unique_id_counter m);
     Some (item, m\<lparr>wk_unique_id_counter := GetUniqueIDInConstructor (wk_unique_id_counter m)\<rparr>) }"

definition wk_smoothed :: "'u wk_manager \<Rightarrow> int \<times> 'u wk_manager" where
  "wk_smoothed m =
     (let (t, s) = GetSmoothedTime (wk_clock m) (wk_time_smoother m) in (t, m\<lparr>wk_time_smoother := s\<rparr>))"

text \<open>The end of \<open>WKWebViewCache::GetNavigationItemImplAtIndex\<close>, for an item without navigation item.\<close>

definition create_missing_item :: "'u web_lib \<Rightarrow> nat \<Rightarrow> nat \<Rightarrow> 'u wk_manager \<Rightarrow> (wk_ref option \<times> 'u wk_manager) option" where
  "create_missing_item W index i m = do {
     prev_wk_item \<leftarrow> (if index = 0 then Some None else GetWKItemAtIndex (index - 1) m);
     let prev_url = wk_url_at prev_wk_item W m;
     let referrer = (if prev_wk_item \<noteq> None
                     then \<lparr>ref_url = prev_url, ref_policy = ReferrerPolicyAlways\<rparr> else Referrer W);
     (item, m) \<leftarrow> wk_CreateItem W (wk_url_at (Some i) W m) referrer (PAGE_TRANSITION_LINK W)
                     RENDERER_INITIATED prev_url [] m;
     let (t, m) = wk_smoothed m;
     let item = SetTimestamp t item;
     v \<leftarrow> wk_proxy m;
     let item = SetTitle (wk_title (wv_items v ! i)) item;
     item \<leftarrow> hide_restore_url W item;
     m \<leftarrow> SetNavigationItemInWKItem (Some i) item m;
     Some (GetNavigationItemFromWKItem (Some i) m, m) }"

definition cache_GetNavigationItemImplAtIndex ::
  "'u web_lib \<Rightarrow> nat \<Rightarrow> bool \<Rightarrow> 'u wk_manager \<Rightarrow> (wk_ref option \<times> 'u wk_manager) option" where
  "cache_GetNavigationItemImplAtIndex W index create_if_missing m =
     (if index \<ge> GetBackForwardListItemCount m then Some (None, m)
      else if \<not> IsAttachedToWebView m then Some (Some (WkCached index), m)
      else do {
        wk_item \<leftarrow> GetWKItemAtIndex index m;
        let item = GetNavigationItemFromWKItem wk_item m;
        (case wk_item of
           None \<Rightarrow> Some (item, m)
         | Some i \<Rightarrow>
             if item \<noteq> None \<or> \<not> create_if_missing then Some (item, m)
             else create_missing_item W index i m) })"

text \<open>The loop of \<open>DetachFromWebView\<close>: copies of the items from an index on.\<close>

fun copy_items :: "'u web_lib \<Rightarrow> nat list \<Rightarrow> 'u wk_manager \<Rightarrow> ('u navigation_item list \<times> 'u wk_manager) option" where
  "copy_items W [] m = Some ([], m)"
| "copy_items W (index # rest) m = do {
     (r, m) \<leftarrow> cache_GetNavigationItemImplAtIndex W index True m;
     item \<leftarrow> Option.bind r (wk_deref m);
     (items, m) \<leftarrow> copy_items W rest m;
     Some (NavigationItemImpl_copy W item # items, m) }"

definition wk_DetachFromWebView :: "'u web_lib \<Rightarrow> 'u wk_manager \<Rightarrow> 'u wk_manager option" where
  "wk_DetachFromWebView W m =
     (if IsAttachedToWebView m
      then do {
        let current = GetCurrentItemIndex m;
        (items, m) \<leftarrow> copy_items W [0..<GetBackForwardListItemCount m] m;
        Some (m\<lparr>cached_current_item_index := current, cached_items := items, attached_to_web_view := False\<rparr>) }
      else Some (m\<lparr>attached_to_web_view := False\<rparr>))"

definition ResetToAttached :: "'u wk_manager \<Rightarrow> 'u wk_manager" where
  "ResetToAttached m = m\<lparr>cached_items := [], cached_current_item_index := - 1, attached_to_web_view := True\<rparr>"

definition ReleaseCachedItems :: "'u wk_manager \<Rightarrow> ('u navigation_item list \<times> 'u wk_manager) option" where
  "ReleaseCachedItems m = do {
     check (\<not> IsAttachedToWebView m);
     Some (cached_items m, m\<lparr>cached_items := []\<rparr>) }"

end
