(* ===== verification/Wk_Navigation_Manager.thy ===== *)
theory Wk_Navigation_Manager
  imports Wk_Web_View
begin

text \<open>
  \<open>WKBasedNavigationManagerImpl\<close> (\<open>web/navigation/wk_based_navigation_manager_impl.mm\<close>) over the web
  view of \<open>Wk_Web_View\<close>: its queries, its pending, transient and committed items, with the parts of
  the base class (\<open>navigation_manager_impl.mm\<close>) it inherits. Loading, restoring and going back and
  forward are in \<open>Wk_Restore\<close>.
\<close>

section \<open>Queries\<close>

definition wk_GetItemCount :: "'u wk_manager \<Rightarrow> int" where
  "wk_GetItemCount m = (if empty_window_open_item m \<noteq> None then 1 else int (GetBackForwardListItemCount m))"

definition wk_GetNavigationItemImplAtIndex ::
  "'u web_lib \<Rightarrow> nat \<Rightarrow> 'u wk_manager \<Rightarrow> (wk_ref option \<times> 'u wk_manager) option" where
  "wk_GetNavigationItemImplAtIndex W index m =
     (if empty_window_open_item m \<noteq> None
      then Some (if index = 0 then Some WkEmptyWindow else None, m)
      else cache_GetNavigationItemImplAtIndex W index True m)"

definition wk_GetItemAtIndex :: "'u web_lib \<Rightarrow> nat \<Rightarrow> 'u wk_manager \<Rightarrow> (wk_ref option \<times> 'u wk_manager) option" where
  "wk_GetItemAtIndex W index m = wk_GetNavigationItemImplAtIndex W index m"

text \<open>
  \<open>GetIndexOfItem\<close> compares pointers; \<open>None\<close> is the null pointer. The loop stops at the first index
  whose navigation item is the given one.
\<close>

fun index_of_item_loop :: "wk_ref option \<Rightarrow> nat list \<Rightarrow> 'u wk_manager \<Rightarrow> int option" where
  "index_of_item_loop item [] m = Some (- 1)"
| "index_of_item_loop item (index # rest) m = do {
     r \<leftarrow> (if \<not> IsAttachedToWebView m then Some (Some (WkCached index))
          else do {
            wk_item \<leftarrow> GetWKItemAtIndex index m;
            Some (GetNavigationItemFromWKItem wk_item m) });
     if r = item then Some (int index) else index_of_item_loop item rest m }"

definition wk_GetIndexOfItem :: "wk_ref option \<Rightarrow> 'u wk_manager \<Rightarrow> int option" where
  "wk_GetIndexOfItem item m =
     (if item = (if empty_window_open_item m = None then None else Some WkEmptyWindow) then Some 0
      else index_of_item_loop item [0..<GetBackForwardListItemCount m] m)"

definition wk_GetLastCommittedItemIndexInCurrentOrRestoredSession :: "'u wk_manager \<Rightarrow> int" where
  "wk_GetLastCommittedItemIndexInCurrentOrRestoredSession m =
     (if pending_item_index m \<ge> 0 \<or> empty_window_open_item m \<noteq> None then last_committed_item_index m
      else GetCurrentItemIndex m)"

definition wk_GetLastCommittedItemInCurrentOrRestoredSession ::
  "'u web_lib \<Rightarrow> 'u wk_manager \<Rightarrow> (wk_ref option \<times> 'u wk_manager) option" where
  "wk_GetLastCommittedItemInCurrentOrRestoredSession W m =
     (if empty_window_open_item m \<noteq> None then Some (Some WkEmptyWindow, m)
      else let index = wk_GetLastCommittedItemIndexInCurrentOrRestoredSession m in
        if index = - 1 then do { check (wk_GetItemCount m = 0); Some (None, m) }
        else if index < 0 then Some (None, m)
        else wk_GetNavigationItemImplAtIndex W (nat index) m)"

definition wk_GetPendingItemInCurrentOrRestoredSession ::
  "'u web_lib \<Rightarrow> 'u wk_manager \<Rightarrow> (wk_ref option \<times> 'u wk_manager) option" where
  "wk_GetPendingItemInCurrentOrRestoredSession W m =
     (if pending_item_index m = - 1
      then Some (if pending_item m = None then None else Some WkPending, m)
      else if pending_item_index m < 0 then Some (None, m)
      else wk_GetNavigationItemImplAtIndex W (nat (pending_item_index m)) m)"

definition wk_GetTransientItem :: "'u wk_manager \<Rightarrow> wk_ref option" where
  "wk_GetTransientItem m = (if transient_item m = None then None else Some WkTransient)"

definition wk_IsRestoreSessionInProgress :: "'u wk_manager \<Rightarrow> bool" where
  "wk_IsRestoreSessionInProgress m = is_restore_session_in_progress m"

text \<open>The queries of the base class, which hide the items of a session that is being restored.\<close>

definition is_restore_item :: "'u web_lib \<Rightarrow> 'u wk_manager \<Rightarrow> wk_ref \<Rightarrow> bool option" where
  "is_restore_item W m r = do {
     item \<leftarrow> wk_deref m r;
     Some (IsRestoreSessionUrl (gl W) (item_url item)) }"

definition wk_GetLastCommittedItem :: "'u web_lib \<Rightarrow> 'u wk_manager \<Rightarrow> (wk_ref option \<times> 'u wk_manager) option" where
  "wk_GetLastCommittedItem W m =
     (if wk_IsRestoreSessionInProgress m then Some (None, m)
      else do {
        (result, m) \<leftarrow> wk_GetLastCommittedItemInCurrentOrRestoredSession W m;
        (case result of
           None \<Rightarrow> Some (None, m)
         | Some r \<Rightarrow> do {
             hidden \<leftarrow> is_restore_item W m r;
             Some (if hidden then None else Some r, m) }) })"

definition wk_GetLastCommittedItemIndex :: "'u web_lib \<Rightarrow> 'u wk_manager \<Rightarrow> (int \<times> 'u wk_manager) option" where
  "wk_GetLastCommittedItemIndex W m =
     (if wk_IsRestoreSessionInProgress m then Some (- 1, m)
      else do {
        (item, m) \<leftarrow> wk_GetLastCommittedItemInCurrentOrRestoredSession W m;
        (case item of
           None \<Rightarrow> Some (- 1, m)
         | Some r \<Rightarrow> do {
             hidden \<leftarrow> is_restore_item W m r;
             Some (if hidden then - 1 else wk_GetLastCommittedItemIndexInCurrentOrRestoredSession m, m) }) })"

definition wk_GetPendingItem :: "'u web_lib \<Rightarrow> 'u wk_manager \<Rightarrow> (wk_ref option \<times> 'u wk_manager) option" where
  "wk_GetPendingItem W m =
     (if wk_IsRestoreSessionInProgress m then Some (None, m)
      else wk_GetPendingItemInCurrentOrRestoredSession W m)"

definition wk_GetPendingItemIndex :: "'u web_lib \<Rightarrow> 'u wk_manager \<Rightarrow> (int \<times> 'u wk_manager) option" where
  "wk_GetPendingItemIndex W m = do {
     (pending, m) \<leftarrow> wk_GetPendingItem W m;
     if pending \<noteq> None
     then if pending_item_index m \<noteq> - 1 then Some (pending_item_index m, m)
          else wk_GetLastCommittedItemIndex W m
     else Some (- 1, m) }"

definition wk_GetCurrentItemImpl :: "'u web_lib \<Rightarrow> 'u wk_manager \<Rightarrow> (wk_ref option \<times> 'u wk_manager) option" where
  "wk_GetCurrentItemImpl W m =
     (if wk_GetTransientItem m \<noteq> None then Some (wk_GetTransientItem m, m)
      else do {
        (pending, m) \<leftarrow> wk_GetPendingItemInCurrentOrRestoredSession W m;
        if pending \<noteq> None then Some (pending, m)
        else wk_GetLastCommittedItemInCurrentOrRestoredSession W m })"

definition wk_GetVisibleItem :: "'u web_lib \<Rightarrow> 'u wk_manager \<Rightarrow> (wk_ref option \<times> 'u wk_manager) option" where
  "wk_GetVisibleItem W m =
     (if is_restore_session_in_progress m \<or> restored_visible_item m \<noteq> None
      then Some (if restored_visible_item m = None then None else Some WkRestored, m)
      else if wk_GetTransientItem m \<noteq> None then Some (wk_GetTransientItem m, m)
      else do {
        (pending, m) \<leftarrow> wk_GetPendingItemInCurrentOrRestoredSession W m;
        (case pending of
           None \<Rightarrow> wk_GetLastCommittedItem W m
         | Some r \<Rightarrow> do {
             item \<leftarrow> wk_deref m r;
             let is_user_initiated = (initiation_type item = BROWSER_INITIATED);
             let safe_to_show_pending = (is_user_initiated \<and> pending_item_index m = - 1);
             if safe_to_show_pending then Some (Some r, m) else wk_GetLastCommittedItem W m }) })"

section \<open>Offsets and lists of items\<close>

definition wk_GetIndexForOffset :: "int \<Rightarrow> 'u wk_manager \<Rightarrow> int" where
  "wk_GetIndexForOffset offset m =
     (let current_item_index =
            (if pending_item_index m = - 1
             then if empty_window_open_item m \<noteq> None then 0 else GetCurrentItemIndex m
             else pending_item_index m);
          offset = (if offset < 0 \<and> wk_GetTransientItem m \<noteq> None \<and> pending_item_index m = - 1
                    then offset + 1 else offset)
      in wrap_int (current_item_index + offset))"

definition wk_CanGoToOffset :: "int \<Rightarrow> 'u wk_manager \<Rightarrow> bool" where
  "wk_CanGoToOffset offset m =
     (if is_restore_session_in_progress m then False
      else if empty_window_open_item m \<noteq> None then offset = 0
      else let index = wk_GetIndexForOffset offset m in index \<ge> 0 \<and> index < wk_GetItemCount m)"

definition wk_CanGoBack :: "'u wk_manager \<Rightarrow> bool" where
  "wk_CanGoBack m = wk_CanGoToOffset (- 1) m"

definition wk_CanGoForward :: "'u wk_manager \<Rightarrow> bool" where
  "wk_CanGoForward m = wk_CanGoToOffset 1 m"

text \<open>The items at a sequence of indices, in the order in which a loop asks for them.\<close>

fun wk_items_at :: "'u web_lib \<Rightarrow> nat list \<Rightarrow> 'u wk_manager \<Rightarrow> (wk_ref option list \<times> 'u wk_manager) option" where
  "wk_items_at W [] m = Some ([], m)"
| "wk_items_at W (index # rest) m = do {
     (r, m) \<leftarrow> wk_GetItemAtIndex W index m;
     (rs, m) \<leftarrow> wk_items_at W rest m;
     Some (r # rs, m) }"

definition wk_GetBackwardItems :: "'u web_lib \<Rightarrow> 'u wk_manager \<Rightarrow> (wk_ref option list \<times> 'u wk_manager) option" where
  "wk_GetBackwardItems W m =
     (if is_restore_session_in_progress m then Some ([], m)
      else let current = GetCurrentItemIndex m in
        wk_items_at W ((if wk_GetTransientItem m \<noteq> None \<and> current \<ge> 0 then [nat current] else []) @
          rev [0..<nat current]) m)"

definition wk_GetForwardItems :: "'u web_lib \<Rightarrow> 'u wk_manager \<Rightarrow> (wk_ref option list \<times> 'u wk_manager) option" where
  "wk_GetForwardItems W m =
     (if is_restore_session_in_progress m then Some ([], m)
      else wk_items_at W [nat (GetCurrentItemIndex m + 1)..<nat (wk_GetItemCount m)] m)"

text \<open>The loops of the base class that search backwards; the argument is the index plus one.\<close>

fun wk_last_with_user_agent :: "'u web_lib \<Rightarrow> nat \<Rightarrow> 'u wk_manager \<Rightarrow> (wk_ref option \<times> 'u wk_manager) option" where
  "wk_last_with_user_agent W 0 m = Some (None, m)"
| "wk_last_with_user_agent W (Suc index) m = do {
     (r, m) \<leftarrow> wk_GetItemAtIndex W index m;
     item \<leftarrow> Option.bind r (wk_deref m);
     if URLNeedsUserAgentType (gl W) (item_url item) then Some (r, m)
     else wk_last_with_user_agent W index m }"

definition wk_GetLastCommittedItemWithUserAgentType ::
  "'u web_lib \<Rightarrow> 'u wk_manager \<Rightarrow> (wk_ref option \<times> 'u wk_manager) option" where
  "wk_GetLastCommittedItemWithUserAgentType W m =
     wk_last_with_user_agent W (nat (wk_GetLastCommittedItemIndexInCurrentOrRestoredSession m + 1)) m"

fun wk_last_non_redirected :: "'u web_lib \<Rightarrow> nat \<Rightarrow> 'u wk_manager \<Rightarrow> (wk_ref option \<times> 'u wk_manager) option" where
  "wk_last_non_redirected W 0 m = Some (None, m)"
| "wk_last_non_redirected W (Suc index) m = do {
     (r, m) \<leftarrow> wk_GetItemAtIndex W index m;
     item \<leftarrow> Option.bind r (wk_deref m);
     if \<not> PageTransitionIsRedirect W (transition_type item) then Some (r, m)
     else wk_last_non_redirected W index m }"

definition wk_GetLastCommittedNonRedirectedItem ::
  "'u web_lib \<Rightarrow> 'u wk_manager \<Rightarrow> (wk_ref option \<times> 'u wk_manager) option" where
  "wk_GetLastCommittedNonRedirectedItem W m =
     (if wk_GetItemCount m = 0 then Some (None, m)
      else do {
        (index, m) \<leftarrow> wk_GetLastCommittedItemIndex W m;
        wk_last_non_redirected W (nat (index + 1)) m })"

section \<open>Pending, transient and committed items\<close>

definition wk_DiscardNonCommittedItems :: "'u wk_manager \<Rightarrow> 'u wk_manager" where
  "wk_DiscardNonCommittedItems m = m\<lparr>pending_item := None, transient_item := None, pending_item_index := - 1\<rparr>"

definition wk_SetPreviousItemIndex :: "int \<Rightarrow> 'u wk_manager \<Rightarrow> 'u wk_manager option" where
  "wk_SetPreviousItemIndex index m = do {
     check (IsAttachedToWebView m);
     Some (m\<lparr>previous_item_index := index\<rparr>) }"

definition wk_SetPendingItemIndex :: "int \<Rightarrow> 'u wk_manager \<Rightarrow> 'u wk_manager" where
  "wk_SetPendingItemIndex index m = m\<lparr>pending_item_index := index\<rparr>"

definition wk_AddTransientURLRewriter :: "'u url_rewriter option \<Rightarrow> 'u wk_manager \<Rightarrow> 'u wk_manager option" where
  "wk_AddTransientURLRewriter rewriter m = do {
     check (rewriter \<noteq> None);
     Some (m\<lparr>wk_transient_url_rewriters := wk_transient_url_rewriters m @ [the rewriter]\<rparr>) }"

text \<open>\<open>item ? item->GetURL() : GURL::EmptyGURL()\<close>.\<close>

definition url_or_empty :: "'u web_lib \<Rightarrow> wk_ref option \<Rightarrow> 'u wk_manager \<Rightarrow> 'u option" where
  "url_or_empty W item m =
     (case item of None \<Rightarrow> Some (empty_gurl (gl W)) | Some r \<Rightarrow> map_option item_url (wk_deref m r))"

definition user_agent_of :: "wk_ref option \<Rightarrow> 'u wk_manager \<Rightarrow> user_agent_type option option" where
  "user_agent_of item m =
     (case item of None \<Rightarrow> Some None | Some r \<Rightarrow> map_option (Some \<circ> user_agent) (wk_deref m r))"

text \<open>
  \<open>UpdatePendingItemUserAgentType\<close>; \<open>inherited\<close> is the user agent type of the item to inherit from.
\<close>

definition wk_UpdatePendingItemUserAgentType ::
  "'u web_lib \<Rightarrow> user_agent_override_option \<Rightarrow> user_agent_type option \<Rightarrow> 'u navigation_item
   \<Rightarrow> 'u navigation_item option" where
  "wk_UpdatePendingItemUserAgentType W override_option inherited item = do {
     check (user_agent item \<noteq> UA_NONE \<or> override_option = UAO_INHERIT);
     check (user_agent item \<noteq> UA_DESKTOP);
     if user_agent item = UA_NONE then Some item
     else case override_option of
       UAO_DESKTOP \<Rightarrow> SetUserAgentType W UA_DESKTOP item
     | UAO_MOBILE \<Rightarrow> SetUserAgentType W UA_MOBILE item
     | UAO_INHERIT \<Rightarrow>
         (case inherited of
            None \<Rightarrow> Some item
          | Some type \<Rightarrow> do {
              check (type \<noteq> UA_NONE);
              SetUserAgentType W type item }) }"

definition wk_AddTransientItem :: "'u web_lib \<Rightarrow> 'u \<Rightarrow> 'u wk_manager \<Rightarrow> 'u wk_manager option" where
  "wk_AddTransientItem W url m = do {
     check (IsAttachedToWebView m);
     (last_committed_item, m) \<leftarrow> wk_GetLastCommittedItem W m;
     previous_url \<leftarrow> url_or_empty W last_committed_item m;
     (item, m) \<leftarrow> wk_CreateItem W url (Referrer W) (PAGE_TRANSITION_CLIENT_REDIRECT W) BROWSER_INITIATED
                     previous_url [] m;
     let (t, m) = wk_smoothed m;
     let m = m\<lparr>transient_item := Some (SetTimestamp t item)\<rparr>;
     (pending, m) \<leftarrow> wk_GetPendingItem W m;
     (item, m) \<leftarrow> (if pending \<noteq> None then Some (pending, m) else wk_GetLastCommittedItemWithUserAgentType W m);
     inherited \<leftarrow> user_agent_of item m;
     (case inherited of
        None \<Rightarrow> Some m
      | Some type \<Rightarrow> do {
          check (type \<noteq> UA_NONE);
          wk_update WkTransient (SetUserAgentType W type) m }) }"

text \<open>
  The end of \<open>AddPendingItem\<close>: when the web view is already at the URL of the new item, the
  navigation is one within the history and the current item of the list takes its place.
\<close>

definition reuse_current_item :: "'u web_lib \<Rightarrow> 'u navigation_item \<Rightarrow> 'u wk_manager \<Rightarrow> 'u wk_manager option" where
  "reuse_current_item W item m =
     (case wk_proxy m of
        None \<Rightarrow> Some m
      | Some v \<Rightarrow>
          (case itemAtOffset 0 v of
             None \<Rightarrow> Some m
           | Some current_wk_item \<Rightarrow> do {
               let current_item_url = wk_url (wv_items v ! current_wk_item);
               same_as_pending \<leftarrow> IsSameOrPlaceholderOf (gl W) current_item_url (item_url item);
               same_as_view \<leftarrow> (if same_as_pending
                                then IsSameOrPlaceholderOf (gl W) current_item_url (wv_url v) else Some False);
               if same_as_pending \<and> same_as_view
               then do {
                 let m = m\<lparr>pending_item_index := GetCurrentItemIndex m\<rparr>;
                 m \<leftarrow> (if GetNavigationItemFromWKItem (Some current_wk_item) m = None
                       then SetNavigationItemInWKItem (Some current_wk_item) item m else Some m);
                 Some (m\<lparr>pending_item := None\<rparr>) }
               else Some m }))"

definition wk_AddPendingItem ::
  "'u web_lib \<Rightarrow> 'u \<Rightarrow> 'u referrer \<Rightarrow> page_transition \<Rightarrow> navigation_initiation_type
   \<Rightarrow> user_agent_override_option \<Rightarrow> 'u wk_manager \<Rightarrow> 'u wk_manager option" where
  "wk_AddPendingItem W url referrer transition initiation override_option m = do {
     let m = wk_DiscardNonCommittedItems m;
     (last_committed_item, m) \<leftarrow> wk_GetLastCommittedItemInCurrentOrRestoredSession W m;
     previous_url \<leftarrow> url_or_empty W last_committed_item m;
     (item, m) \<leftarrow> wk_CreateItem W url referrer transition initiation previous_url
                     (wk_transient_url_rewriters m) m;
     let m = m\<lparr>pending_item := Some item, wk_transient_url_rewriters := []\<rparr>;
     (inherit_from, m) \<leftarrow> wk_GetLastCommittedItemWithUserAgentType W m;
     inherited \<leftarrow> user_agent_of inherit_from m;
     item \<leftarrow> wk_UpdatePendingItemUserAgentType W override_option inherited item;
     let m = m\<lparr>pending_item := Some item\<rparr>;
     if \<not> IsAttachedToWebView m then Some m else reuse_current_item W item m }"

definition wk_OnNavigationItemCommitted :: "'u web_lib \<Rightarrow> 'u wk_manager \<Rightarrow> 'u wk_manager option" where
  "wk_OnNavigationItemCommitted W m = do {
     (item, m) \<leftarrow> wk_GetLastCommittedItemInCurrentOrRestoredSession W m;
     r \<leftarrow> item;
     let m = wk_tell (ItemCommitted r) m;
     restoring \<leftarrow> is_restore_item W m r;
     Some (if \<not> restoring then m\<lparr>restored_visible_item := None\<rparr> else m) }"

text \<open>The part of \<open>CommitPendingItem\<close> for a new navigation.\<close>

definition commit_new_item :: "'u web_lib \<Rightarrow> 'u wk_manager \<Rightarrow> 'u wk_manager option" where
  "commit_new_item W m = do {
     item \<leftarrow> pending_item m;
     let item = ResetForCommit item;
     let (t, m) = wk_smoothed m;
     let item = SetTimestamp t item;
     (case wk_proxy m of
        Some v \<Rightarrow>
          (if wv_index v = - 1
           then do {
             check (starts_with (spec (gl W) (wv_url v)) kAboutBlankURL);
             check (backList_count v = 0);
             check (forwardList_count v = 0);
             Some (m\<lparr>empty_window_open_item := Some item, pending_item := None\<rparr>) }
           else do {
             m \<leftarrow> SetNavigationItemInWKItem (itemAtOffset 0 v) item (m\<lparr>empty_window_open_item := None\<rparr>);
             Some (m\<lparr>pending_item := None\<rparr>) })
      | None \<Rightarrow> None) }"

definition wk_CommitPendingItem :: "'u web_lib \<Rightarrow> 'u wk_manager \<Rightarrow> 'u wk_manager option" where
  "wk_CommitPendingItem W m = do {
     check (IsAttachedToWebView m);
     if pending_item_index m = - 1 \<and> pending_item m = None then Some m
     else do {
       let last_committed_item_was_empty_window_open_item = (empty_window_open_item m \<noteq> None);
       m \<leftarrow> (if pending_item_index m = - 1 then commit_new_item W m else Some m);
       let m = m\<lparr>pending_item_index := - 1, pending_item := None\<rparr>;
       let m = (if \<not> last_committed_item_was_empty_window_open_item
                then m\<lparr>previous_item_index := last_committed_item_index m\<rparr> else m);
       let m = m\<lparr>last_committed_item_index :=
                   (if empty_window_open_item m \<noteq> None then 0 else GetCurrentItemIndex m)\<rparr>;
       wk_OnNavigationItemCommitted W m } }"

definition wk_UpdatePendingItemUrl :: "'u web_lib \<Rightarrow> 'u \<Rightarrow> 'u wk_manager \<Rightarrow> 'u wk_manager option" where
  "wk_UpdatePendingItemUrl W url m = do {
     (pending, m) \<leftarrow> wk_GetPendingItemInCurrentOrRestoredSession W m;
     (case pending of
        None \<Rightarrow> Some m
      | Some r \<Rightarrow> do {
          item \<leftarrow> wk_deref m r;
          if url = item_url item then Some m
          else do {
            check (wk_GetTransientItem m = None);
            wk_update r (\<lambda>i. Some (ResetHttpRequestHeaders (SetPostData None
              (SetVirtualURL W url (SetURL url i))))) m } }) }"

definition wk_UpdateCurrentItemForReplaceState ::
  "'u web_lib \<Rightarrow> 'u \<Rightarrow> string option \<Rightarrow> 'u wk_manager \<Rightarrow> 'u wk_manager option" where
  "wk_UpdateCurrentItemForReplaceState W url state_object m = do {
     check (wk_GetTransientItem m = None);
     (current, m) \<leftarrow> wk_GetCurrentItemImpl W m;
     r \<leftarrow> current;
     wk_update r (\<lambda>i. Some (SetPostData None (SetHasStateBeenReplaced True
       (SetSerializedStateObject state_object (SetURL url i))))) m }"

end
