(* ===== verification/Wk_Restore.thy ===== *)
theory Wk_Restore
  imports Wk_Navigation_Manager
begin

text \<open>
  The operations of \<open>WKBasedNavigationManagerImpl\<close> that load a page, restore a session or move in the
  history, with the functions of the base class they come from, and \<open>-removeWebView\<close> of
  \<open>CRWWebController\<close>, which calls the manager back. A session is restored by loading a page of its own,
  and a load in the detached state is a restoration, so that loading and restoring call each other.
\<close>

section \<open>Loading up to the call of the subclass\<close>

text \<open>\<open>NavigationManagerImpl::LoadURLWithParams\<close> before its call of \<open>FinishLoadURLWithParams\<close>.\<close>

definition virtual_url_or_empty :: "'u web_lib \<Rightarrow> wk_ref option \<Rightarrow> 'u wk_manager \<Rightarrow> 'u option" where
  "virtual_url_or_empty W item m =
     (case item of None \<Rightarrow> Some (empty_gurl (gl W)) | Some r \<Rightarrow> map_option (GetVirtualURL W) (wk_deref m r))"

definition params_initiation :: "'u web_load_params \<Rightarrow> navigation_initiation_type" where
  "params_initiation params = (if p_is_renderer_initiated params then RENDERER_INITIATED else BROWSER_INITIATED)"

definition mark_pending_item ::
  "'u web_lib \<Rightarrow> 'u web_load_params \<Rightarrow> wk_ref option \<Rightarrow> 'u wk_manager \<Rightarrow> 'u wk_manager option" where
  "mark_pending_item W params pending m =
     (case pending of
        None \<Rightarrow> Some m
      | Some r \<Rightarrow> do {
          (last_committed_item, m) \<leftarrow> wk_GetLastCommittedItemInCurrentOrRestoredSession W m;
          last_committed_url \<leftarrow> virtual_url_or_empty W last_committed_item m;
          wk_update r (\<lambda>i. Some (mark_pending W params last_committed_url i)) m })"

text \<open>The item that gets the headers and the POST data.\<close>

definition wk_added_item ::
  "'u web_lib \<Rightarrow> wk_ref option \<Rightarrow> 'u wk_manager \<Rightarrow> (wk_ref option \<times> 'u wk_manager) option" where
  "wk_added_item W pending m =
     (if pending \<noteq> None then Some (pending, m) else wk_GetLastCommittedItemInCurrentOrRestoredSession W m)"

definition wk_prepare_load :: "'u web_lib \<Rightarrow> 'u web_load_params \<Rightarrow> 'u wk_manager \<Rightarrow> 'u wk_manager option" where
  "wk_prepare_load W params m = do {
     check (and (p_transition_type params) (PAGE_TRANSITION_FORWARD_BACK W) = 0);
     let m = wk_tell (Base RecordPageStateInNavigationItem) (wk_tell (Base ClearTransientContent) m);
     m \<leftarrow> wk_AddPendingItem W (p_url params) (p_referrer params) (p_transition_type params)
            (params_initiation params) (p_user_agent_override_option params) m;
     (pending, m) \<leftarrow> wk_GetPendingItemInCurrentOrRestoredSession W m;
     m \<leftarrow> mark_pending_item W params pending m;
     check (wk_GetTransientItem m = None);
     (added_item, m) \<leftarrow> wk_added_item W pending m;
     r \<leftarrow> added_item;
     wk_update r (add_request_data params) m }"

section \<open>Restoring a session\<close>

text \<open>\<open>-[CRWWebController removeWebView]\<close>, the delegate's \<open>RemoveWebView\<close>.\<close>

definition wk_removeWebView :: "'u web_lib \<Rightarrow> 'u wk_manager \<Rightarrow> 'u wk_manager option" where
  "wk_removeWebView W m =
     (if wk_proxy m = None then Some m
      else do {
        m \<leftarrow> wk_DetachFromWebView W m;
        Some (m\<lparr>wk_proxy := None\<rparr>) })"

text \<open>\<open>Restore\<close> of a non-empty sequence before it calls \<open>UnsafeRestore\<close>.\<close>

definition prepare_restore :: "'u web_lib \<Rightarrow> 'u wk_manager \<Rightarrow> 'u wk_manager option" where
  "prepare_restore W m = do {
     let m = (if \<not> IsAttachedToWebView m then ResetToAttached m else m);
     let m = wk_DiscardNonCommittedItems m;
     m \<leftarrow> (if wk_GetItemCount m > 0 then wk_removeWebView W (wk_tell (Base RemoveWebView) m) else Some m);
     check (wk_GetItemCount m = 0);
     check (pending_item_index m = - 1);
     Some (m\<lparr>previous_item_index := - 1, last_committed_item_index := - 1\<rparr>) }"

text \<open>The checks at the beginning of \<open>Restore\<close>.\<close>

definition restore_checks :: "int \<Rightarrow> 'u navigation_item list \<Rightarrow> 'u wk_manager \<Rightarrow> bool" where
  "restore_checks index items m \<longleftrightarrow>
     \<not> is_restore_session_in_progress m \<and> index < int (length items) \<and>
     (items = [] \<or> index \<ge> 0)"

text \<open>
  \<open>UnsafeRestore\<close> up to its call of \<open>LoadURLWithParams\<close>: the parameters of the call, the title of
  the first item, and the new state.
\<close>

definition begin_unsafe_restore ::
  "'u web_lib \<Rightarrow> int \<Rightarrow> 'u navigation_item list \<Rightarrow> 'u wk_manager
   \<Rightarrow> ('u web_load_params \<times> string \<times> 'u wk_manager) option" where
  "begin_unsafe_restore W index items m = do {
     let items = map (RewriteItemURLIfNecessary W) items;
     url \<leftarrow> CreateRestoreSessionUrl (gl W) index
              (map (\<lambda>i. (item_url i, item_title i)) items);
     check (items \<noteq> []);
     let params = (WebLoadParams W url)\<lparr>p_transition_type := PAGE_TRANSITION_RELOAD W,
                     p_virtual_url := GetVirtualURL W (hd items)\<rparr>;
     let m = m\<lparr>is_restore_session_in_progress := True\<rparr>;
     m \<leftarrow> (if index > - 1
           then do {
             item \<leftarrow> elem_at items index;
             Some (m\<lparr>restored_visible_item := Some item\<rparr>) }
           else Some m);
     Some (params, item_title (hd items), m) }"

text \<open>The end of \<open>UnsafeRestore\<close>.\<close>

definition prime_title :: "'u web_lib \<Rightarrow> string \<Rightarrow> 'u wk_manager \<Rightarrow> 'u wk_manager option" where
  "prime_title W first_title m = do {
     (pending, m) \<leftarrow> wk_GetPendingItemInCurrentOrRestoredSession W m;
     (case pending of
        None \<Rightarrow> Some m
      | Some r \<Rightarrow> wk_update r (\<lambda>i. Some (SetTitle first_title i)) m) }"

text \<open>
  The items that a load in the detached state restores: the cached ones up to the current one, and
  the pending item. A vector with a missing item would be dereferenced.
\<close>

definition take_cached_and_pending :: "'u wk_manager \<Rightarrow> (int \<times> 'u navigation_item list \<times> 'u wk_manager) option" where
  "take_cached_and_pending m = do {
     item \<leftarrow> pending_item m;
     (items, m) \<leftarrow> ReleaseCachedItems m;
     let next_item_index = GetCurrentItemIndex m + 1;
     check (next_item_index > 0);
     check (next_item_index \<le> int (length items));
     Some (next_item_index, take (nat next_item_index) items @ [item], m\<lparr>pending_item := None\<rparr>) }"

section \<open>Loading\<close>

definition defer_load :: "'u web_lib \<Rightarrow> 'u web_load_params \<Rightarrow> 'u wk_manager \<Rightarrow> 'u wk_manager" where
  "defer_load W params m =
     m\<lparr>restore_session_completion_callbacks :=
         restore_session_completion_callbacks m @ [LoadCallback (WebLoadParams_copy W params)]\<rparr>"

text \<open>
  \<open>LoadURLWithParams\<close>, with \<open>FinishLoadURLWithParams\<close>, \<open>Restore\<close> and \<open>UnsafeRestore\<close>, through which
  it calls itself, in place; the lemma \<open>wk_LoadURLWithParams_eq\<close> is the equation of the source.
\<close>

partial_function (option) wk_LoadURLWithParams ::
  "'u web_lib \<Rightarrow> 'u web_load_params \<Rightarrow> 'u wk_manager \<Rightarrow> 'u wk_manager option" where
  "wk_LoadURLWithParams W params m =
     (if wk_IsRestoreSessionInProgress m \<and> \<not> IsRestoreSessionUrl (gl W) (p_url params)
      then Some (defer_load W params m)
      else Option.bind (wk_prepare_load W params m) (\<lambda>m.
        if IsAttachedToWebView m then Some (wk_tell (Base (LoadCurrentItem (params_initiation params))) m)
        else if pending_item_index m \<noteq> - 1 then None
        else if pending_item m = None \<or> GetBackForwardListItemCount m = 0
        then Some (wk_tell (Base (LoadCurrentItem (params_initiation params))) (ResetToAttached m))
        else Option.bind (take_cached_and_pending m) (\<lambda>(index, items, m).
          if \<not> restore_checks index items m then None
          else Option.bind (prepare_restore W m) (\<lambda>m.
            Option.bind (begin_unsafe_restore W index items m) (\<lambda>(params, first_title, m).
            Option.bind (wk_LoadURLWithParams W params m) (\<lambda>m.
            Option.bind (prime_title W first_title m) (\<lambda>m.
              if IsAttachedToWebView m then Some m else None)))))))"

declare wk_LoadURLWithParams.simps [code]

definition wk_UnsafeRestore :: "'u web_lib \<Rightarrow> int \<Rightarrow> 'u navigation_item list \<Rightarrow> 'u wk_manager \<Rightarrow> 'u wk_manager option" where
  "wk_UnsafeRestore W index items m = do {
     (params, first_title, m) \<leftarrow> begin_unsafe_restore W index items m;
     m \<leftarrow> wk_LoadURLWithParams W params m;
     prime_title W first_title m }"

definition wk_Restore :: "'u web_lib \<Rightarrow> int \<Rightarrow> 'u navigation_item list \<Rightarrow> 'u wk_manager \<Rightarrow> 'u wk_manager option" where
  "wk_Restore W index items m = do {
     check (restore_checks index items m);
     if items = [] then Some m
     else do {
       m \<leftarrow> prepare_restore W m;
       wk_UnsafeRestore W index items m } }"

definition wk_FinishLoadURLWithParams ::
  "'u web_lib \<Rightarrow> navigation_initiation_type \<Rightarrow> 'u wk_manager \<Rightarrow> 'u wk_manager option" where
  "wk_FinishLoadURLWithParams W initiation m =
     (if IsAttachedToWebView m then Some (wk_tell (Base (LoadCurrentItem initiation)) m)
      else do {
        check (pending_item_index m = - 1);
        if pending_item m \<noteq> None \<and> GetBackForwardListItemCount m > 0
        then do {
          (next_item_index, items, m) \<leftarrow> take_cached_and_pending m;
          m \<leftarrow> wk_Restore W next_item_index items m;
          check (IsAttachedToWebView m);
          Some m }
        else Some (wk_tell (Base (LoadCurrentItem initiation)) (ResetToAttached m)) })"

section \<open>The other ways to start a load\<close>

text \<open>The common body of \<open>LoadIfNecessary\<close>, \<open>FinishReload\<close> and \<open>FinishGoToIndex\<close> when detached.\<close>

definition restore_cached :: "'u web_lib \<Rightarrow> int \<Rightarrow> 'u wk_manager \<Rightarrow> 'u wk_manager option" where
  "restore_cached W index m = do {
     (items, m) \<leftarrow> ReleaseCachedItems m;
     m \<leftarrow> wk_Restore W index items m;
     check (IsAttachedToWebView m);
     Some m }"

definition wk_LoadIfNecessary :: "'u web_lib \<Rightarrow> 'u wk_manager \<Rightarrow> 'u wk_manager option" where
  "wk_LoadIfNecessary W m =
     (if \<not> IsAttachedToWebView m then restore_cached W (GetCurrentItemIndex m) m
      else Some (wk_tell (Base LoadIfNecessary) m))"

definition wk_FinishReload :: "'u web_lib \<Rightarrow> 'u wk_manager \<Rightarrow> 'u wk_manager option" where
  "wk_FinishReload W m =
     (if \<not> IsAttachedToWebView m then restore_cached W (GetCurrentItemIndex m) m
      else Some (wk_tell (Base D_Reload) m))"

definition wk_FinishGoToIndex ::
  "'u web_lib \<Rightarrow> int \<Rightarrow> navigation_initiation_type \<Rightarrow> bool \<Rightarrow> 'u wk_manager \<Rightarrow> 'u wk_manager option" where
  "wk_FinishGoToIndex W index type has_user_gesture m =
     (if \<not> IsAttachedToWebView m then restore_cached W index m
      else do {
        let m = wk_DiscardNonCommittedItems m;
        (item, m) \<leftarrow> wk_GetItemAtIndex W (nat index) m;
        r \<leftarrow> item;
        m \<leftarrow> wk_update r (\<lambda>i. Some (SetTransitionType
               (or (transition_type i) (PAGE_TRANSITION_FORWARD_BACK W)) i)) m;
        wk_item \<leftarrow> GetWKItemAtIndex (nat index) m;
        (case wk_item of
           Some i \<Rightarrow> Some (wk_tell (Base (GoToBackForwardListItem i type has_user_gesture)) m)
         | None \<Rightarrow> do {
             check (index = 0 \<and> empty_window_open_item m \<noteq> None);
             Some m }) })"

definition user_agent_or_none :: "wk_ref option \<Rightarrow> 'u wk_manager \<Rightarrow> user_agent_type option" where
  "user_agent_or_none item m =
     (case item of None \<Rightarrow> Some UA_NONE | Some r \<Rightarrow> map_option user_agent (wk_deref m r))"

definition wk_GoToIndex ::
  "'u web_lib \<Rightarrow> int \<Rightarrow> navigation_initiation_type \<Rightarrow> bool \<Rightarrow> 'u wk_manager \<Rightarrow> 'u wk_manager option" where
  "wk_GoToIndex W index initiation has_user_gesture m = do {
     check (0 \<le> index \<and> index < wk_GetItemCount m);
     let m = (if wk_GetTransientItem m = None then wk_tell (Base RecordPageStateInNavigationItem) m else m);
     let m = wk_tell (Base ClearTransientContent) m;
     (to_item, m) \<leftarrow> wk_GetItemAtIndex W (nat index) m;
     r \<leftarrow> to_item;
     item \<leftarrow> wk_deref m r;
     (pending, m) \<leftarrow> wk_GetPendingItem W m;
     (previous_item, m) \<leftarrow> (if pending \<noteq> None then Some (pending, m) else wk_GetLastCommittedItem W m);
     previous_item_user_agent_type \<leftarrow> user_agent_or_none previous_item m;
     let m = (if user_agent item \<noteq> UA_NONE \<and> user_agent item \<noteq> previous_item_user_agent_type
              then wk_tell (Base WillChangeUserAgentType) m else m);
     wk_FinishGoToIndex W index initiation has_user_gesture m }"

definition wk_GoBack :: "'u web_lib \<Rightarrow> 'u wk_manager \<Rightarrow> 'u wk_manager option" where
  "wk_GoBack W m = wk_GoToIndex W (wk_GetIndexForOffset (- 1) m) BROWSER_INITIATED True m"

definition wk_GoForward :: "'u web_lib \<Rightarrow> 'u wk_manager \<Rightarrow> 'u wk_manager option" where
  "wk_GoForward W m = wk_GoToIndex W (wk_GetIndexForOffset 1 m) BROWSER_INITIATED True m"

text \<open>\<open>Reload\<close> of the base class: the item that it looks at.\<close>

definition wk_reload_item :: "'u web_lib \<Rightarrow> 'u wk_manager \<Rightarrow> (wk_ref option \<times> 'u wk_manager) option" where
  "wk_reload_item W m =
     (if wk_GetTransientItem m \<noteq> None then Some (wk_GetTransientItem m, m)
      else do {
        (pending, m) \<leftarrow> wk_GetPendingItem W m;
        if pending \<noteq> None then Some (pending, m) else wk_GetLastCommittedItem W m })"

definition wk_Reload :: "'u web_lib \<Rightarrow> reload_type \<Rightarrow> 'u wk_manager \<Rightarrow> 'u wk_manager option" where
  "wk_Reload W type m =
     (if wk_IsRestoreSessionInProgress m then Some m
      else do {
        (reload_item, m) \<leftarrow> wk_reload_item W m;
        (case reload_item of
           None \<Rightarrow> Some m
         | Some r \<Rightarrow> do {
             m \<leftarrow> (if type = ORIGINAL_REQUEST_URL
                   then wk_update r (\<lambda>i. Some (SetURL (original_request_url i) i)) m else Some m);
             wk_FinishReload W m }) })"

text \<open>\<open>ReloadWithUserAgentType\<close> of the base class.\<close>

definition wk_is_redirect_ref :: "'u web_lib \<Rightarrow> 'u wk_manager \<Rightarrow> wk_ref option \<Rightarrow> bool option" where
  "wk_is_redirect_ref W m r =
     (case r of
        None \<Rightarrow> Some True
      | Some r' \<Rightarrow> map_option (\<lambda>i. PageTransitionIsRedirect W (transition_type i)) (wk_deref m r'))"

definition wk_reload_candidate :: "'u web_lib \<Rightarrow> 'u wk_manager \<Rightarrow> (wk_ref option \<times> 'u wk_manager) option" where
  "wk_reload_candidate W m = do {
     let candidate = wk_GetTransientItem m;
     redirect \<leftarrow> wk_is_redirect_ref W m candidate;
     (candidate, m) \<leftarrow> (if redirect then wk_GetVisibleItem W m else Some (candidate, m));
     redirect \<leftarrow> wk_is_redirect_ref W m candidate;
     if redirect then wk_GetLastCommittedNonRedirectedItem W m else Some (candidate, m) }"

text \<open>The URL that is loaded: a redirect through the restoration page makes a new entry of the list.\<close>

definition wk_reload_url :: "'u web_lib \<Rightarrow> 'u navigation_item \<Rightarrow> 'u option" where
  "wk_reload_url W item = do {
     let reload_url = original_request_url item;
     let reload_url = (if is_empty W reload_url then GetVirtualURL W item else reload_url);
     if IsSlimNavigationManagerEnabled W
     then do {
       target_url \<leftarrow> (if IsRestoreSessionUrl (gl W) reload_url
                      then ExtractTargetURL (gl W) reload_url else Some None);
       Some (CreateRedirectUrl (gl W) (case target_url of Some t \<Rightarrow> t | None \<Rightarrow> reload_url)) }
     else Some reload_url }"

definition wk_ReloadWithUserAgentType :: "'u web_lib \<Rightarrow> user_agent_type \<Rightarrow> 'u wk_manager \<Rightarrow> 'u wk_manager option" where
  "wk_ReloadWithUserAgentType W type m = do {
     check (type \<noteq> UA_NONE);
     let m = wk_tell (Base WillChangeUserAgentType) m;
     (candidate, m) \<leftarrow> wk_reload_candidate W m;
     (case candidate of
        None \<Rightarrow> Some m
      | Some r \<Rightarrow> do {
          item \<leftarrow> wk_deref m r;
          reload_url \<leftarrow> wk_reload_url W item;
          let params = WebLoadParams W reload_url;
          let params = (if GetVirtualURL W item \<noteq> reload_url
                        then params\<lparr>p_virtual_url := GetVirtualURL W item\<rparr> else params);
          let params = params\<lparr>p_referrer := item_referrer item,
            p_transition_type := PAGE_TRANSITION_RELOAD W,
            p_user_agent_override_option := (if type = UA_DESKTOP then UAO_DESKTOP else UAO_MOBILE)\<rparr>;
          wk_LoadURLWithParams W params m }) }"

text \<open>Copies of the items from the current one on, in the order of the loop.\<close>

fun copy_items_at :: "'u web_lib \<Rightarrow> nat list \<Rightarrow> 'u wk_manager \<Rightarrow> ('u navigation_item list \<times> 'u wk_manager) option" where
  "copy_items_at W [] m = Some ([], m)"
| "copy_items_at W (index # rest) m = do {
     (r, m) \<leftarrow> wk_GetNavigationItemImplAtIndex W index m;
     item \<leftarrow> Option.bind r (wk_deref m);
     (items, m) \<leftarrow> copy_items_at W rest m;
     Some (NavigationItemImpl_copy W item # items, m) }"

definition wk_ApplyWKWebViewForwardHistoryClobberWorkaround :: "'u web_lib \<Rightarrow> 'u wk_manager \<Rightarrow> 'u wk_manager option" where
  "wk_ApplyWKWebViewForwardHistoryClobberWorkaround W m = do {
     check (IsAttachedToWebView m);
     let current_item_index = GetCurrentItemIndex m;
     check (current_item_index \<ge> 0);
     let item_count = wk_GetItemCount m;
     check (current_item_index < item_count);
     (forward_items, m) \<leftarrow> copy_items_at W [nat current_item_index..<nat item_count] m;
     wk_UnsafeRestore W 0 forward_items (wk_DiscardNonCommittedItems m) }"

section \<open>The end of a restoration\<close>

definition run_callback :: "'u web_lib \<Rightarrow> 'u restore_callback \<Rightarrow> 'u wk_manager \<Rightarrow> 'u wk_manager option" where
  "run_callback W callback m =
     (case callback of
        LoadCallback params \<Rightarrow> wk_LoadURLWithParams W params m
      | ClientCallback name \<Rightarrow> Some (m\<lparr>wk_client_calls := wk_client_calls m @ [name]\<rparr>))"

definition wk_AddRestoreCompletionCallback :: "'u web_lib \<Rightarrow> 'u restore_callback \<Rightarrow> 'u wk_manager \<Rightarrow> 'u wk_manager option" where
  "wk_AddRestoreCompletionCallback W callback m =
     (if \<not> is_restore_session_in_progress m then run_callback W callback m
      else Some (m\<lparr>restore_session_completion_callbacks :=
                     restore_session_completion_callbacks m @ [callback]\<rparr>))"

text \<open>
  The loop over the callbacks. A callback that added one would invalidate the iterator of the loop.
\<close>

fun run_callbacks :: "'u web_lib \<Rightarrow> 'u restore_callback list \<Rightarrow> 'u wk_manager \<Rightarrow> 'u wk_manager option" where
  "run_callbacks W [] m = Some m"
| "run_callbacks W (callback # rest) m = do {
     m' \<leftarrow> run_callback W callback m;
     check (length (restore_session_completion_callbacks m') = length (restore_session_completion_callbacks m));
     run_callbacks W rest m' }"

definition wk_OnRendererInitiatedNavigationStarted :: "'u web_lib \<Rightarrow> 'u \<Rightarrow> 'u wk_manager \<Rightarrow> 'u wk_manager option" where
  "wk_OnRendererInitiatedNavigationStarted W url m =
     (if \<not> IsRestoreSessionUrl (gl W) url \<and> is_restore_session_in_progress m
      then do {
        let m = m\<lparr>is_restore_session_in_progress := False\<rparr>;
        m \<leftarrow> run_callbacks W (restore_session_completion_callbacks m) m;
        wk_LoadIfNecessary W (m\<lparr>restore_session_completion_callbacks := []\<rparr>) }
      else Some m)"

section \<open>Operations without effect on the history\<close>

definition wk_OnNavigationItemsPruned :: "nat \<Rightarrow> 'u wk_manager \<Rightarrow> 'u wk_manager" where
  "wk_OnNavigationItemsPruned pruned_item_count m = wk_tell (Base (OnNavigationItemsPruned pruned_item_count)) m"

definition wk_RemoveItemAtIndex :: "int \<Rightarrow> 'u wk_manager \<Rightarrow> bool \<times> 'u wk_manager" where
  "wk_RemoveItemAtIndex index m = (True, m)"

definition wk_CopyStateFromAndPrune :: "'u wk_manager \<Rightarrow> 'u wk_manager \<Rightarrow> 'u wk_manager" where
  "wk_CopyStateFromAndPrune source m = m"

definition wk_CanPruneAllButLastCommittedItem :: "'u wk_manager \<Rightarrow> bool" where
  "wk_CanPruneAllButLastCommittedItem m = True"

definition wk_AddPushStateItemIfNecessary ::
  "'u \<Rightarrow> string option \<Rightarrow> page_transition \<Rightarrow> 'u wk_manager \<Rightarrow> 'u wk_manager" where
  "wk_AddPushStateItemIfNecessary url state_object transition m = m"

end
