(* ===== verification/Wk_Laws.thy ===== *)
theory Wk_Laws
  imports Wk_Restore Navigation_Laws
begin

text \<open>
  Facts about \<open>WKBasedNavigationManagerImpl\<close> on which its properties rest: well-formed back-forward
  lists, what a getter may change (it fills in missing navigation items and nothing else), and that
  the getters return on well-formed states.
\<close>

section \<open>Well-formed states\<close>

definition view_ok :: "'u web_view \<Rightarrow> bool" where
  "view_ok v \<longleftrightarrow> - 1 \<le> wv_index v \<and> wv_index v < int (length (wv_items v)) \<and>
     (wv_index v = - 1 \<longrightarrow> wv_items v = [])"

definition wk_ok :: "'u wk_manager \<Rightarrow> bool" where
  "wk_ok m \<longleftrightarrow> (\<forall>v. wk_proxy m = Some v \<longrightarrow> view_ok v) \<and>
     (\<not> attached_to_web_view m \<longrightarrow> - 1 \<le> cached_current_item_index m \<and>
        cached_current_item_index m < int (length (cached_items m)) \<and>
        (cached_current_item_index m = - 1 \<longrightarrow> cached_items m = []))"

lemma view_ok_count:
  "view_ok v \<Longrightarrow> backList_count v + (if wv_index v \<noteq> - 1 then 1 else 0) + forwardList_count v = length (wv_items v)"
  by (auto simp: view_ok_def backList_count_def forwardList_count_def)

lemma GetBackForwardListItemCount_ok:
  assumes "wk_ok m"
  shows "GetBackForwardListItemCount m =
    (if attached_to_web_view m then (case wk_proxy m of None \<Rightarrow> 0 | Some v \<Rightarrow> length (wv_items v))
     else length (cached_items m))"
proof (cases "wk_proxy m")
  case (Some v)
  then have "view_ok v" using assms by (simp add: wk_ok_def)
  from view_ok_count [OF this] Some show ?thesis
    by (simp add: GetBackForwardListItemCount_def IsAttachedToWebView_def Let_def)
qed (simp add: GetBackForwardListItemCount_def IsAttachedToWebView_def)

lemma GetCurrentItemIndex_ok:
  assumes "wk_ok m"
  shows "GetCurrentItemIndex m =
    (if attached_to_web_view m then (case wk_proxy m of None \<Rightarrow> - 1 | Some v \<Rightarrow> wv_index v)
     else cached_current_item_index m)"
  using assms
  by (auto simp: GetCurrentItemIndex_def IsAttachedToWebView_def wk_ok_def view_ok_def backList_count_def
      split: option.split)

lemma current_index_bounds:
  assumes "wk_ok m"
  shows "- 1 \<le> GetCurrentItemIndex m" "GetCurrentItemIndex m < int (GetBackForwardListItemCount m)"
    "GetCurrentItemIndex m = - 1 \<longleftrightarrow> GetBackForwardListItemCount m = 0"
  using assms
  by (auto simp: GetCurrentItemIndex_ok GetBackForwardListItemCount_ok wk_ok_def view_ok_def
      split: option.split)

lemma GetWKItemAtIndex_ok:
  assumes "wk_ok m" "attached_to_web_view m" "i < GetBackForwardListItemCount m"
  shows "GetWKItemAtIndex i m = Some (Some i)"
proof -
  from assms obtain v where v: "wk_proxy m = Some v" "i < length (wv_items v)" "view_ok v"
    by (auto simp: GetBackForwardListItemCount_ok wk_ok_def split: option.splits)
  have c: "GetCurrentItemIndex m = wv_index v" using assms v by (simp add: GetCurrentItemIndex_ok)
  have "wv_index v \<noteq> - 1" using v by (auto simp: view_ok_def)
  then show ?thesis using assms v c
    by (simp add: GetWKItemAtIndex_def IsAttachedToWebView_def itemAtOffset_def Let_def bind_check)
qed

section \<open>Fields that do not matter for the shape\<close>

lemma wk_ok_fields [simp]:
  "wk_ok (m\<lparr>pending_item := p\<rparr>) = wk_ok m" "wk_ok (m\<lparr>pending_item_index := i\<rparr>) = wk_ok m"
  "wk_ok (m\<lparr>transient_item := t\<rparr>) = wk_ok m" "wk_ok (m\<lparr>wk_unique_id_counter := k\<rparr>) = wk_ok m"
  "wk_ok (m\<lparr>wk_transient_url_rewriters := rs\<rparr>) = wk_ok m" "wk_ok (m\<lparr>wk_calls := cs\<rparr>) = wk_ok m"
  "wk_ok (m\<lparr>is_restore_session_in_progress := b\<rparr>) = wk_ok m"
  "wk_ok (m\<lparr>restored_visible_item := x\<rparr>) = wk_ok m"
  "wk_ok (m\<lparr>previous_item_index := i\<rparr>) = wk_ok m" "wk_ok (m\<lparr>last_committed_item_index := i\<rparr>) = wk_ok m"
  "wk_ok (m\<lparr>restore_session_completion_callbacks := l\<rparr>) = wk_ok m"
  "wk_ok (m\<lparr>wk_client_calls := c\<rparr>) = wk_ok m" "wk_ok (wk_tell e m) = wk_ok m"
  by (simp_all add: wk_ok_def wk_tell_def)

lemma count_fields [simp]:
  "GetBackForwardListItemCount (m\<lparr>pending_item := p\<rparr>) = GetBackForwardListItemCount m"
  "GetBackForwardListItemCount (m\<lparr>pending_item_index := i\<rparr>) = GetBackForwardListItemCount m"
  "GetBackForwardListItemCount (m\<lparr>transient_item := t\<rparr>) = GetBackForwardListItemCount m"
  "GetBackForwardListItemCount (m\<lparr>wk_unique_id_counter := k\<rparr>) = GetBackForwardListItemCount m"
  "GetBackForwardListItemCount (m\<lparr>wk_transient_url_rewriters := rs\<rparr>) = GetBackForwardListItemCount m"
  "GetBackForwardListItemCount (m\<lparr>wk_calls := cs\<rparr>) = GetBackForwardListItemCount m"
  "GetBackForwardListItemCount (m\<lparr>is_restore_session_in_progress := b\<rparr>) = GetBackForwardListItemCount m"
  "GetBackForwardListItemCount (m\<lparr>restored_visible_item := x\<rparr>) = GetBackForwardListItemCount m"
  "GetBackForwardListItemCount (m\<lparr>previous_item_index := i\<rparr>) = GetBackForwardListItemCount m"
  "GetBackForwardListItemCount (m\<lparr>last_committed_item_index := i\<rparr>) = GetBackForwardListItemCount m"
  "GetBackForwardListItemCount (m\<lparr>restore_session_completion_callbacks := l\<rparr>) = GetBackForwardListItemCount m"
  "GetBackForwardListItemCount (m\<lparr>wk_client_calls := c\<rparr>) = GetBackForwardListItemCount m"
  "GetBackForwardListItemCount (wk_tell e m) = GetBackForwardListItemCount m"
  by (simp_all add: GetBackForwardListItemCount_def IsAttachedToWebView_def wk_tell_def)

section \<open>What a getter may change\<close>

text \<open>The navigation item of the page at an index, rebuilt from the URLs and titles of the list.\<close>

definition page_item :: "'u web_lib \<Rightarrow> 'u list \<Rightarrow> string list \<Rightarrow> nat \<Rightarrow> 'u navigation_item \<Rightarrow> bool" where
  "page_item W urls titles i item \<longleftrightarrow>
     item_url item = loaded_url_for W (IsPlaceholderUrl (gl W)) (urls ! i) RENDERER_INITIATED
       (if i = 0 then empty_gurl (gl W) else urls ! (i - 1)) [] \<and>
     item_title item = titles ! i \<and> initiation_type item = RENDERER_INITIATED"

text \<open>A slot keeps its item, or stays empty, or gets an item with a property.\<close>

definition fills_slot :: "('a \<Rightarrow> bool) \<Rightarrow> 'a option \<Rightarrow> 'a option \<Rightarrow> bool" where
  "fills_slot P h h' \<longleftrightarrow> (case h of None \<Rightarrow> pred_option P h' | Some x \<Rightarrow> h' = Some x)"

lemma fills_slot_refl [simp]: "fills_slot P h h"
  by (cases h) (simp_all add: fills_slot_def)

lemma fills_slot_trans: "fills_slot P a b \<Longrightarrow> fills_slot P b c \<Longrightarrow> fills_slot P a c"
  by (cases a; cases b) (simp_all add: fills_slot_def)

definition same_pages :: "'u web_lib \<Rightarrow> 'u web_view \<Rightarrow> 'u web_view \<Rightarrow> bool" where
  "same_pages W v v' \<longleftrightarrow> wv_url v' = wv_url v \<and> wv_index v' = wv_index v \<and>
     map wk_url (wv_items v') = map wk_url (wv_items v) \<and>
     map wk_title (wv_items v') = map wk_title (wv_items v) \<and>
     (\<forall>i < length (wv_items v).
        fills_slot (page_item W (map wk_url (wv_items v)) (map wk_title (wv_items v)) i)
          (wk_holder (wv_items v ! i)) (wk_holder (wv_items v' ! i)))"

text \<open>A getter fills in missing navigation items, with their identifiers and timestamps.\<close>

definition only_fills :: "'u web_lib \<Rightarrow> 'u wk_manager \<Rightarrow> 'u wk_manager \<Rightarrow> bool" where
  "only_fills W m m' \<longleftrightarrow>
     m' = m\<lparr>wk_proxy := wk_proxy m', wk_time_smoother := wk_time_smoother m',
            wk_unique_id_counter := wk_unique_id_counter m'\<rparr> \<and>
     rel_option (same_pages W) (wk_proxy m) (wk_proxy m')"

lemma same_pages_length: "same_pages W v v' \<Longrightarrow> length (wv_items v') = length (wv_items v)"
  by (metis same_pages_def length_map)

lemma same_pagesD:
  assumes "same_pages W v v'"
  shows "wv_url v' = wv_url v" "wv_index v' = wv_index v" "length (wv_items v') = length (wv_items v)"
    "i < length (wv_items v) \<Longrightarrow> wk_holder (wv_items v ! i) = Some x \<Longrightarrow> wk_holder (wv_items v' ! i) = Some x"
  using assms same_pages_length [OF assms] by (auto simp: same_pages_def fills_slot_def split: option.splits)

lemma same_pages_refl [simp]: "same_pages W v v"
  by (simp add: same_pages_def)

lemma same_pages_trans: "same_pages W u v \<Longrightarrow> same_pages W v w \<Longrightarrow> same_pages W u w"
  using same_pages_length [of W u v] by (auto simp: same_pages_def intro: fills_slot_trans)

lemma only_fills_refl [simp]: "only_fills W m m"
  by (simp add: only_fills_def option.rel_refl)

lemma only_fills_trans:
  assumes "only_fills W a b" "only_fills W b c"
  shows "only_fills W a c"
proof -
  have "rel_option (same_pages W) (wk_proxy a) (wk_proxy c)"
    using assms by (auto simp: only_fills_def option_rel_Some1 elim!: option.rel_cases intro: same_pages_trans)
  moreover have "c = a\<lparr>wk_proxy := wk_proxy c, wk_time_smoother := wk_time_smoother c,
    wk_unique_id_counter := wk_unique_id_counter c\<rparr>"
  proof -
    have "b = a\<lparr>wk_proxy := wk_proxy b, wk_time_smoother := wk_time_smoother b,
        wk_unique_id_counter := wk_unique_id_counter b\<rparr>"
      "c = b\<lparr>wk_proxy := wk_proxy c, wk_time_smoother := wk_time_smoother c,
        wk_unique_id_counter := wk_unique_id_counter c\<rparr>"
      using assms by (simp_all add: only_fills_def)
    then show ?thesis by (cases a, cases b, cases c) simp
  qed
  ultimately show ?thesis unfolding only_fills_def by blast
qed

lemma only_fills_fields:
  assumes "only_fills W m m'"
  shows "pending_item m' = pending_item m" "pending_item_index m' = pending_item_index m"
    "previous_item_index m' = previous_item_index m" "last_committed_item_index m' = last_committed_item_index m"
    "empty_window_open_item m' = empty_window_open_item m" "transient_item m' = transient_item m"
    "attached_to_web_view m' = attached_to_web_view m" "cached_items m' = cached_items m"
    "cached_current_item_index m' = cached_current_item_index m"
    "is_restore_session_in_progress m' = is_restore_session_in_progress m"
    "restored_visible_item m' = restored_visible_item m"
    "restore_session_completion_callbacks m' = restore_session_completion_callbacks m"
    "wk_transient_url_rewriters m' = wk_transient_url_rewriters m" "wk_calls m' = wk_calls m"
    "wk_client_calls m' = wk_client_calls m" "wk_clock m' = wk_clock m"
proof -
  have "m' = m\<lparr>wk_proxy := wk_proxy m', wk_time_smoother := wk_time_smoother m',
            wk_unique_id_counter := wk_unique_id_counter m'\<rparr>" using assms by (simp add: only_fills_def)
  then show "pending_item m' = pending_item m" "pending_item_index m' = pending_item_index m"
    "previous_item_index m' = previous_item_index m" "last_committed_item_index m' = last_committed_item_index m"
    "empty_window_open_item m' = empty_window_open_item m" "transient_item m' = transient_item m"
    "attached_to_web_view m' = attached_to_web_view m" "cached_items m' = cached_items m"
    "cached_current_item_index m' = cached_current_item_index m"
    "is_restore_session_in_progress m' = is_restore_session_in_progress m"
    "restored_visible_item m' = restored_visible_item m"
    "restore_session_completion_callbacks m' = restore_session_completion_callbacks m"
    "wk_transient_url_rewriters m' = wk_transient_url_rewriters m" "wk_calls m' = wk_calls m"
    "wk_client_calls m' = wk_client_calls m" "wk_clock m' = wk_clock m"
    by (cases m', cases m, simp)+
qed

lemma only_fills_view_ok: "same_pages W v v' \<Longrightarrow> view_ok v' = view_ok v"
  using same_pages_length [of W v v'] by (auto simp: same_pages_def view_ok_def)

lemma only_fills_ok:
  assumes "only_fills W m m'"
  shows "wk_ok m' = wk_ok m"
proof -
  have "(\<forall>v. wk_proxy m' = Some v \<longrightarrow> view_ok v) = (\<forall>v. wk_proxy m = Some v \<longrightarrow> view_ok v)"
    using assms unfolding only_fills_def
    by (cases "wk_proxy m"; cases "wk_proxy m'") (auto simp: only_fills_view_ok)
  then show ?thesis by (simp add: wk_ok_def only_fills_fields [OF assms])
qed

lemma only_fills_shape:
  assumes "only_fills W m m'"
  shows "GetBackForwardListItemCount m' = GetBackForwardListItemCount m"
    "GetCurrentItemIndex m' = GetCurrentItemIndex m"
proof -
  have r: "rel_option (same_pages W) (wk_proxy m) (wk_proxy m')" using assms by (simp add: only_fills_def)
  show "GetBackForwardListItemCount m' = GetBackForwardListItemCount m"
    "GetCurrentItemIndex m' = GetCurrentItemIndex m"
    using r
    by (auto simp: GetBackForwardListItemCount_def GetCurrentItemIndex_def IsAttachedToWebView_def
        only_fills_fields [OF assms] backList_count_def forwardList_count_def same_pagesD
        elim!: option.rel_cases)
qed

lemma only_fills_holder:
  assumes "only_fills W m m'" "holder_at i m = Some x"
  shows "holder_at i m' = Some x"
  using assms
  by (auto simp: only_fills_def holder_at_def same_pagesD elim!: option.rel_cases split: if_splits)

lemma only_fills_deref:
  assumes "only_fills W m m'" "wk_deref m r = Some x"
  shows "wk_deref m' r = Some x"
  using assms by (cases r) (auto simp: only_fills_fields [OF assms(1)] only_fills_holder split: if_splits)

lemma only_fills_queries:
  assumes "only_fills W m m'"
  shows "wk_GetItemCount m' = wk_GetItemCount m" "wk_GetTransientItem m' = wk_GetTransientItem m"
    "wk_GetIndexForOffset offset m' = wk_GetIndexForOffset offset m"
    "wk_CanGoToOffset offset m' = wk_CanGoToOffset offset m"
    "wk_GetLastCommittedItemIndexInCurrentOrRestoredSession m' =
       wk_GetLastCommittedItemIndexInCurrentOrRestoredSession m"
    "wk_IsRestoreSessionInProgress m' = wk_IsRestoreSessionInProgress m"
    "IsAttachedToWebView m' = IsAttachedToWebView m"
  using only_fills_shape [OF assms] only_fills_fields [OF assms]
  by (simp_all add: wk_GetItemCount_def wk_GetTransientItem_def wk_GetIndexForOffset_def
      wk_CanGoToOffset_def wk_GetLastCommittedItemIndexInCurrentOrRestoredSession_def
      wk_IsRestoreSessionInProgress_def IsAttachedToWebView_def)

section \<open>The getters fill\<close>

lemma map_set_slot:
  assumes "i < length xs" "f y = f (xs ! i)"
  shows "map f (xs[i := y]) = map f xs"
  using assms by (simp add: map_update list_update_same_conv)

lemma SetNavigationItemInWKItem_fills:
  assumes "SetNavigationItemInWKItem (Some i) item m = Some m'" "holder_at i m = None"
    "\<And>v. wk_proxy m = Some v \<Longrightarrow> page_item W (map wk_url (wv_items v)) (map wk_title (wv_items v)) i item"
  shows "only_fills W m m'" "holder_at i m' = Some item"
proof -
  from assms(1) obtain v where v: "wk_proxy m = Some v" "i < length (wv_items v)"
    "m' = m\<lparr>wk_proxy := Some (set_holder i item v)\<rparr>"
    by (auto simp: SetNavigationItemInWKItem_def bind_eq_Some_conv)
  let ?x = "(wv_items v ! i)\<lparr>wk_holder := Some item\<rparr>"
  have n: "wk_holder (wv_items v ! i) = None" using assms(2) v by (simp add: holder_at_def)
  have p: "fills_slot (page_item W (map wk_url (wv_items v)) (map wk_title (wv_items v)) j)
      (wk_holder (wv_items v ! j)) (wk_holder ((wv_items v)[i := ?x] ! j))" if "j < length (wv_items v)" for j
    using n assms(3) [OF v(1)] that by (cases "j = i") (simp_all add: fills_slot_def)
  have "same_pages W v (set_holder i item v)"
    using p map_set_slot [OF v(2), of wk_url ?x] map_set_slot [OF v(2), of wk_title ?x]
    by (simp add: same_pages_def set_holder_def)
  then show "only_fills W m m'" using v by (simp add: only_fills_def)
  show "holder_at i m' = Some item" using v by (simp add: holder_at_def set_holder_def)
qed

lemma wk_CreateItem_fills:
  assumes "wk_CreateItem W url referrer t i prev ws m = Some (item, m')"
  shows "only_fills W m m'" "wk_proxy m' = wk_proxy m"
  using assms by (auto simp: wk_CreateItem_def bind_eq_Some_conv only_fills_def option.rel_refl)

lemma wk_smoothed_fills:
  assumes "wk_smoothed m = (t, m')"
  shows "only_fills W m m'" "wk_proxy m' = wk_proxy m"
  using assms by (auto simp: wk_smoothed_def only_fills_def option.rel_refl split: prod.splits)

lemma wk_CreateItem_content:
  assumes "wk_CreateItem W url referrer t i prev ws m = Some (item, m')"
  shows "item_url item = loaded_url_for W (IsPlaceholderUrl (gl W)) url i prev ws" "initiation_type item = i"
  using assms by (auto simp: wk_CreateItem_def bind_eq_Some_conv dest: created_item_fields)

lemma hide_restore_url_content:
  assumes "hide_restore_url W item = Some item'"
  shows "item_url item' = item_url item" "item_title item' = item_title item"
    "initiation_type item' = initiation_type item"
  using assms by (auto simp: hide_restore_url_def item_defs bind_eq_Some_conv split: if_splits option.splits)

lemma wk_url_at_page:
  assumes "wk_proxy m = Some v" "i < length (wv_items v)"
  shows "wk_url_at (Some i) W m = map wk_url (wv_items v) ! i"
  using assms by (simp add: wk_url_at_def)

lemma previous_page:
  assumes "wk_ok m" "attached_to_web_view m" "i < GetBackForwardListItemCount m" "wk_proxy m = Some v"
    "(if i = 0 then Some None else GetWKItemAtIndex (i - 1) m) = Some p"
  shows "wk_url_at p W m = (if i = 0 then empty_gurl (gl W) else map wk_url (wv_items v) ! (i - 1))"
proof (cases "i = 0")
  case True
  with assms(5) show ?thesis by (simp add: wk_url_at_def)
next
  case False
  then have "p = Some (i - 1)" using assms(5) GetWKItemAtIndex_ok [OF assms(1,2), of "i - 1"] assms(3) by simp
  moreover have "i - 1 < length (wv_items v)" using assms(1-4) by (simp add: GetBackForwardListItemCount_ok)
  ultimately show ?thesis using False wk_url_at_page [OF assms(4)] by simp
qed

lemma create_missing_item_fills:
  assumes "create_missing_item W i i m = Some (r, m')" "holder_at i m = None"
    "wk_ok m" "attached_to_web_view m" "i < GetBackForwardListItemCount m"
  shows "only_fills W m m'" "r = Some (WkListed i)" "wk_deref m' (WkListed i) \<noteq> None"
proof -
  from assms obtain v where v: "wk_proxy m = Some v" "i < length (wv_items v)"
    by (auto simp: GetBackForwardListItemCount_ok split: option.splits)
  from assms(1) v(1) obtain p ref item m1 t m2 v2 item'
    where p: "(if i = 0 then Some None else GetWKItemAtIndex (i - 1) m) = Some p"
      and c: "wk_CreateItem W (wk_url_at (Some i) W m) ref (PAGE_TRANSITION_LINK W) RENDERER_INITIATED
        (wk_url_at p W m) [] m = Some (item, m1)"
      and s: "wk_smoothed m1 = (t, m2)" and v2: "wk_proxy m2 = Some v2"
      and h: "hide_restore_url W (SetTitle (wk_title (wv_items v2 ! i)) (SetTimestamp t item)) = Some item'"
      and n: "SetNavigationItemInWKItem (Some i) item' m2 = Some m'"
      and r: "r = GetNavigationItemFromWKItem (Some i) m'"
    unfolding create_missing_item_def Let_def by (auto elim!: bind_SomeE split: prod.splits)
  have eq: "wk_proxy m2 = wk_proxy m" using wk_CreateItem_fills(2) [OF c] wk_smoothed_fills(2) [OF s] by simp
  then have [simp]: "v2 = v" and empty: "holder_at i m2 = None"
    using v v2 assms(2) by (simp_all add: holder_at_def)
  have "item_title item' = wk_title (wv_items v ! i)" "item_url item' = item_url item"
    "initiation_type item' = initiation_type item"
    using hide_restore_url_content [OF h] by (auto simp: item_defs)
  then have "page_item W (map wk_url (wv_items v)) (map wk_title (wv_items v)) i item'"
    using wk_CreateItem_content [OF c] wk_url_at_page [OF v] previous_page [OF assms(3-5) v(1) p] v(2)
    by (simp add: page_item_def)
  then have "only_fills W m2 m'" "holder_at i m' = Some item'"
    using SetNavigationItemInWKItem_fills [OF n empty] v2 by auto
  with wk_CreateItem_fills(1) [OF c] wk_smoothed_fills(1) [OF s] r
  show "only_fills W m m'" "r = Some (WkListed i)" "wk_deref m' (WkListed i) \<noteq> None"
    by (auto simp: GetNavigationItemFromWKItem_def intro: only_fills_trans)
qed

lemma cache_get_fills:
  assumes "cache_GetNavigationItemImplAtIndex W i b m = Some (r, m')" "wk_ok m"
  shows "only_fills W m m'"
proof (cases "attached_to_web_view m \<and> i < GetBackForwardListItemCount m")
  case True
  with assms GetWKItemAtIndex_ok [of m i]
  have "m' = m \<or> holder_at i m = None \<and> create_missing_item W i i m = Some (r, m')"
    by (auto simp: cache_GetNavigationItemImplAtIndex_def GetNavigationItemFromWKItem_def
        IsAttachedToWebView_def split: if_splits)
  with True assms(2) create_missing_item_fills(1) show ?thesis by auto
next
  case False
  with assms(1) show ?thesis
    by (auto simp: cache_GetNavigationItemImplAtIndex_def IsAttachedToWebView_def split: if_splits)
qed

text \<open>The slot of the committed item at an index.\<close>

definition ref_at :: "nat \<Rightarrow> 'u wk_manager \<Rightarrow> wk_ref" where
  "ref_at i m = (if attached_to_web_view m then WkListed i else WkCached i)"

lemma wk_CreateItem_total:
  assumes "is_empty W (empty_gurl (gl W))"
  shows "\<exists>item. wk_CreateItem W url referrer t i prev ws m =
    Some (item, m\<lparr>wk_unique_id_counter := GetUniqueIDInConstructor (wk_unique_id_counter m)\<rparr>)"
  using assms by (auto simp: wk_CreateItem_def CreateNavigationItemWithRewriters_def Let_def SetUserAgentType_def
      GetVirtualURL_def item_defs NavigationItemImpl_def bind_check)

lemma hide_restore_url_total: "\<exists>item'. hide_restore_url W item = Some item'"
  by (auto simp: hide_restore_url_def ExtractTargetURL_def bind_check Let_def)

lemma create_missing_item_total:
  assumes "is_empty W (empty_gurl (gl W))" "wk_ok m" "attached_to_web_view m" "i < GetBackForwardListItemCount m"
  shows "\<exists>r m'. create_missing_item W i i m = Some (r, m')"
proof -
  from assms obtain v where v: "wk_proxy m = Some v" "i < length (wv_items v)"
    by (auto simp: GetBackForwardListItemCount_ok split: option.splits)
  have "\<exists>p. (if i = 0 then Some None else GetWKItemAtIndex (i - 1) m) = Some p"
    using assms GetWKItemAtIndex_ok [OF assms(2,3), of "i - 1"] by auto
  then obtain p where p: "(if i = 0 then Some None else GetWKItemAtIndex (i - 1) m) = Some p" by blast
  let ?ref = "if p \<noteq> None then \<lparr>ref_url = wk_url_at p W m, ref_policy = ReferrerPolicyAlways\<rparr> else Referrer W"
  let ?m = "m\<lparr>wk_unique_id_counter := GetUniqueIDInConstructor (wk_unique_id_counter m)\<rparr>"
  obtain item where c: "wk_CreateItem W (wk_url_at (Some i) W m) ?ref (PAGE_TRANSITION_LINK W)
      RENDERER_INITIATED (wk_url_at p W m) [] m = Some (item, ?m)"
    using wk_CreateItem_total [OF assms(1)] by blast
  obtain t m2 where s: "wk_smoothed ?m = (t, m2)" by fastforce
  have pr: "wk_proxy m2 = Some v" using wk_smoothed_fills(2) [OF s] v by simp
  obtain item' where h: "hide_restore_url W (SetTitle (wk_title (wv_items v ! i)) (SetTimestamp t item)) = Some item'"
    using hide_restore_url_total by blast
  show ?thesis
    unfolding create_missing_item_def Let_def p
    using c s pr h v(2) by (simp add: SetNavigationItemInWKItem_def)
qed

lemma cache_get_total:
  assumes "is_empty W (empty_gurl (gl W))" "wk_ok m" "i < GetBackForwardListItemCount m"
  shows "\<exists>m'. cache_GetNavigationItemImplAtIndex W i True m = Some (Some (ref_at i m), m') \<and>
    only_fills W m m' \<and> wk_deref m' (ref_at i m) \<noteq> None"
proof (cases "attached_to_web_view m")
  case False
  with assms(2,3) show ?thesis
    by (simp add: cache_GetNavigationItemImplAtIndex_def IsAttachedToWebView_def ref_at_def
        GetBackForwardListItemCount_ok)
next
  case True
  note g = GetWKItemAtIndex_ok [OF assms(2) True assms(3)]
  show ?thesis
  proof (cases "holder_at i m")
    case (Some x)
    with g True assms(3) show ?thesis
      by (simp add: cache_GetNavigationItemImplAtIndex_def IsAttachedToWebView_def ref_at_def
          GetNavigationItemFromWKItem_def)
  next
    case None
    obtain r m' where c: "create_missing_item W i i m = Some (r, m')"
      using create_missing_item_total [OF assms(1,2) True assms(3)] by blast
    with create_missing_item_fills [OF c None assms(2) True assms(3)] g True None assms(3) show ?thesis
      by (simp add: cache_GetNavigationItemImplAtIndex_def IsAttachedToWebView_def ref_at_def
          GetNavigationItemFromWKItem_def)
  qed
qed

lemma wk_GetItemAtIndex_fills:
  assumes "wk_GetNavigationItemImplAtIndex W index m = Some (r, m')" "wk_ok m"
  shows "only_fills W m m'"
  using assms cache_get_fills by (auto simp: wk_GetNavigationItemImplAtIndex_def split: if_splits)

lemma wk_last_committed_fills:
  assumes "wk_GetLastCommittedItemInCurrentOrRestoredSession W m = Some (r, m')" "wk_ok m"
  shows "only_fills W m m'"
  using assms wk_GetItemAtIndex_fills
  by (auto simp: wk_GetLastCommittedItemInCurrentOrRestoredSession_def Let_def bind_check split: if_splits)

lemma wk_pending_fills:
  assumes "wk_GetPendingItemInCurrentOrRestoredSession W m = Some (r, m')" "wk_ok m"
  shows "only_fills W m m'"
  using assms wk_GetItemAtIndex_fills
  by (auto simp: wk_GetPendingItemInCurrentOrRestoredSession_def split: if_splits)

lemma wk_GetLastCommittedItem_fills:
  assumes "wk_GetLastCommittedItem W m = Some (r, m')" "wk_ok m"
  shows "only_fills W m m'"
  using assms wk_last_committed_fills
  by (auto simp: wk_GetLastCommittedItem_def split: if_splits option.splits elim!: bind_SomeE)

text \<open>One getter after another.\<close>

lemma fills_then:
  assumes "only_fills W m m1" "wk_ok m" "wk_ok m1 \<Longrightarrow> only_fills W m1 m2"
  shows "only_fills W m m2"
  using assms only_fills_ok [OF assms(1)] only_fills_trans by blast

lemma wk_GetPendingItem_fills:
  assumes "wk_GetPendingItem W m = Some (r, m')" "wk_ok m"
  shows "only_fills W m m'"
  using assms wk_pending_fills by (auto simp: wk_GetPendingItem_def split: if_splits)

lemma wk_GetLastCommittedItemIndex_fills:
  assumes "wk_GetLastCommittedItemIndex W m = Some (r, m')" "wk_ok m"
  shows "only_fills W m m'"
  using assms wk_last_committed_fills
  by (auto simp: wk_GetLastCommittedItemIndex_def split: if_splits option.splits elim!: bind_SomeE)

lemma wk_GetPendingItemIndex_fills:
  assumes "wk_GetPendingItemIndex W m = Some (r, m')" "wk_ok m"
  shows "only_fills W m m'"
proof -
  from assms(1) obtain p m1 where p: "wk_GetPendingItem W m = Some (p, m1)"
    "m' = m1 \<or> wk_GetLastCommittedItemIndex W m1 = Some (r, m')"
    by (auto simp: wk_GetPendingItemIndex_def split: if_splits elim!: bind_SomeE)
  show ?thesis
    by (rule fills_then [OF wk_GetPendingItem_fills [OF p(1) assms(2)] assms(2)])
       (use p(2) wk_GetLastCommittedItemIndex_fills in auto)
qed

lemma wk_GetCurrentItemImpl_fills:
  assumes "wk_GetCurrentItemImpl W m = Some (r, m')" "wk_ok m"
  shows "only_fills W m m'"
proof (cases "wk_GetTransientItem m = None")
  case True
  with assms(1) obtain p m1 where p: "wk_GetPendingItemInCurrentOrRestoredSession W m = Some (p, m1)"
    "m' = m1 \<or> wk_GetLastCommittedItemInCurrentOrRestoredSession W m1 = Some (r, m')"
    by (auto simp: wk_GetCurrentItemImpl_def split: if_splits elim!: bind_SomeE)
  show ?thesis
    by (rule fills_then [OF wk_pending_fills [OF p(1) assms(2)] assms(2)])
       (use p(2) wk_last_committed_fills in auto)
qed (use assms in \<open>auto simp: wk_GetCurrentItemImpl_def\<close>)

text \<open>How \<open>GetVisibleItem\<close> finds its answer.\<close>

lemma wk_GetVisibleItem_cases:
  assumes "wk_GetVisibleItem W m = Some (r, m')" "wk_ok m"
  obtains
    (restored) "is_restore_session_in_progress m \<or> restored_visible_item m \<noteq> None" "m' = m"
      "r = (if restored_visible_item m = None then None else Some WkRestored)"
  | (shown_transient) "\<not> is_restore_session_in_progress m" "restored_visible_item m = None" "m' = m"
      "r = Some WkTransient" "transient_item m \<noteq> None"
  | (shown_pending) item where "\<not> is_restore_session_in_progress m" "restored_visible_item m = None"
      "transient_item m = None" "m' = m" "r = Some WkPending" "pending_item m = Some item"
      "initiation_type item = BROWSER_INITIATED" "pending_item_index m = - 1"
  | (committed) m1 where "\<not> is_restore_session_in_progress m" "restored_visible_item m = None"
      "transient_item m = None" "only_fills W m m1" "wk_GetLastCommittedItem W m1 = Some (r, m')"
proof (cases "is_restore_session_in_progress m \<or> restored_visible_item m \<noteq> None \<or> transient_item m \<noteq> None")
  case True
  with assms(1) show ?thesis
    by (auto simp: wk_GetVisibleItem_def wk_GetTransientItem_def split: if_splits
        intro: restored shown_transient)
next
  case False
  with assms(1) obtain p m1 where p: "wk_GetPendingItemInCurrentOrRestoredSession W m = Some (p, m1)"
    and rest: "(case p of
           None \<Rightarrow> wk_GetLastCommittedItem W m1
         | Some r \<Rightarrow> do {
             item \<leftarrow> wk_deref m1 r;
             if initiation_type item = BROWSER_INITIATED \<and> pending_item_index m1 = - 1
             then Some (Some r, m1) else wk_GetLastCommittedItem W m1 }) = Some (r, m')"
    unfolding wk_GetVisibleItem_def wk_GetTransientItem_def Let_def by (auto elim!: bind_SomeE)
  note f = wk_pending_fills [OF p assms(2)]
  show ?thesis
  proof (cases "wk_GetLastCommittedItem W m1 = Some (r, m')")
    case True
    with False f show ?thesis by (intro committed [of m1]) auto
  next
    case l: False
    with rest obtain q item where q: "p = Some q" "wk_deref m1 q = Some item" "r = Some q" "m' = m1"
      "initiation_type item = BROWSER_INITIATED" "pending_item_index m1 = - 1"
      by (auto simp: bind_eq_Some_conv split: option.splits if_splits)
    have i: "pending_item_index m = - 1" using q(6) only_fills_fields [OF f] by simp
    with p q have "m1 = m" "q = WkPending" "pending_item m = Some item"
      by (auto simp: wk_GetPendingItemInCurrentOrRestoredSession_def split: if_splits)
    with False q i show ?thesis by (intro shown_pending [of item]) auto
  qed
qed

lemma wk_GetVisibleItem_fills:
  assumes "wk_GetVisibleItem W m = Some (r, m')" "wk_ok m"
  shows "only_fills W m m'"
  using assms
proof (cases rule: wk_GetVisibleItem_cases)
  case (committed m1)
  then show ?thesis
    using fills_then [of W m m1 m'] wk_GetLastCommittedItem_fills assms(2) by blast
qed simp_all

lemma search_back_fills:
  assumes "\<And>m. loop (0::nat) m = Some (None, m)"
    "\<And>index m. loop (Suc index) m = do {
       (r, m) \<leftarrow> wk_GetItemAtIndex W index m;
       item \<leftarrow> Option.bind r (wk_deref m);
       if P item then Some (r, m) else loop index m }"
  shows "loop n m = Some (r, m') \<Longrightarrow> wk_ok m \<Longrightarrow> only_fills W m m'"
proof (induction n arbitrary: m)
  case (Suc index)
  from Suc.prems(1) obtain r1 m1 item where g: "wk_GetItemAtIndex W index m = Some (r1, m1)"
    "m' = m1 \<or> loop index m1 = Some (r, m')"
    by (auto simp: assms(2) bind_eq_Some_conv split: if_splits)
  have f: "only_fills W m m1" using g(1) Suc.prems(2) wk_GetItemAtIndex_fills by (simp add: wk_GetItemAtIndex_def)
  show ?case
    by (rule fills_then [OF f Suc.prems(2)]) (use g(2) Suc.IH in auto)
qed (simp add: assms(1))

lemmas wk_last_with_user_agent_fills =
  search_back_fills [where loop = "wk_last_with_user_agent W" and W = W
    and P = "\<lambda>item. URLNeedsUserAgentType (gl W) (item_url item)" for W,
    OF wk_last_with_user_agent.simps]

lemmas wk_last_non_redirected_fills =
  search_back_fills [where loop = "wk_last_non_redirected W" and W = W
    and P = "\<lambda>item. \<not> PageTransitionIsRedirect W (transition_type item)" for W,
    OF wk_last_non_redirected.simps]

lemma wk_GetLastCommittedItemWithUserAgentType_fills:
  assumes "wk_GetLastCommittedItemWithUserAgentType W m = Some (r, m')" "wk_ok m"
  shows "only_fills W m m'"
  using assms wk_last_with_user_agent_fills by (simp add: wk_GetLastCommittedItemWithUserAgentType_def)

lemma wk_GetLastCommittedNonRedirectedItem_fills:
  assumes "wk_GetLastCommittedNonRedirectedItem W m = Some (r, m')" "wk_ok m"
  shows "only_fills W m m'"
proof (cases "wk_GetItemCount m = 0")
  case False
  with assms(1) obtain i m1 where i: "wk_GetLastCommittedItemIndex W m = Some (i, m1)"
    "wk_last_non_redirected W (nat (i + 1)) m1 = Some (r, m')"
    by (auto simp: wk_GetLastCommittedNonRedirectedItem_def bind_eq_Some_conv)
  show ?thesis
    by (rule fills_then [OF wk_GetLastCommittedItemIndex_fills [OF i(1) assms(2)] assms(2)])
       (rule wk_last_non_redirected_fills [OF i(2)])
qed (use assms in \<open>simp add: wk_GetLastCommittedNonRedirectedItem_def\<close>)

lemma wk_items_at_fills:
  "wk_items_at W is m = Some (rs, m') \<Longrightarrow> wk_ok m \<Longrightarrow> only_fills W m m'"
proof (induction "is" arbitrary: m rs)
  case (Cons i rest)
  from Cons.prems(1) obtain r m1 rs1 where g: "wk_GetItemAtIndex W i m = Some (r, m1)"
    "wk_items_at W rest m1 = Some (rs1, m')"
    by (auto simp: bind_eq_Some_conv)
  have f: "only_fills W m m1" using g(1) Cons.prems(2) wk_GetItemAtIndex_fills by (simp add: wk_GetItemAtIndex_def)
  show ?case by (rule fills_then [OF f Cons.prems(2)]) (rule Cons.IH [OF g(2)])
qed simp

end
