(* ===== verification/Wk_Props.thy ===== *)
theory Wk_Props
  imports Wk_Laws Navigation_Interface
begin

text \<open>
  Properties of \<open>WKBasedNavigationManagerImpl\<close>: getters, detachment from the web view, what may be
  shown, committing, going back and forward, and the protocol of a restoration.
\<close>

section \<open>An example\<close>

text \<open>Three pages with the second one current; only the first one has its navigation item.\<close>

definition demo_wk_item :: "string \<Rightarrow> demo_url wk_item" where
  "demo_wk_item host = \<lparr>wk_url = Demo_URL ''http'' host [] [], wk_title = host, wk_holder = None\<rparr>"

definition demo_wk_page :: "string \<Rightarrow> navigation_initiation_type \<Rightarrow> demo_url navigation_item" where
  "demo_wk_page host initiation =
     SetNavigationInitiationType initiation (SetURL (Demo_URL ''http'' host [] []) (NavigationItemImpl demo_web 0))"

definition demo_view :: "demo_url web_view" where
  "demo_view = \<lparr>wv_url = Demo_URL ''http'' ''b.com'' [] [],
     wv_items = [(demo_wk_item ''a.com'')\<lparr>wk_holder := Some (demo_wk_page ''a.com'' INIT_NONE)\<rparr>,
                 demo_wk_item ''b.com'', demo_wk_item ''c.com''], wv_index = 1\<rparr>"

definition demo_wk :: "demo_url wk_manager" where
  "demo_wk = new_WKBasedNavigationManagerImpl 0 0 100 (Some demo_view)"

lemma demo_wk_facts:
  "wk_ok demo_wk" "IsAttachedToWebView demo_wk" "wk_proxy demo_wk = Some demo_view"
  "empty_window_open_item demo_wk = None" "pending_item_index demo_wk = - 1" "pending_item demo_wk = None"
  "\<not> wk_IsRestoreSessionInProgress demo_wk" "GetCurrentItemIndex demo_wk = 1" "wk_GetItemCount demo_wk = 3"
  by (simp_all add: demo_wk_def demo_view_def new_WKBasedNavigationManagerImpl_def wk_ok_def view_ok_def
      IsAttachedToWebView_def wk_IsRestoreSessionInProgress_def GetCurrentItemIndex_def backList_count_def
      wk_GetItemCount_def GetBackForwardListItemCount_def forwardList_count_def)

lemma demo_web_empty: "is_empty demo_web (empty_gurl (gl demo_web))"
  by (simp add: demo_web_def demo_lib_def demo_spec_def)

lemma demo_wk_first: "holder_at 0 demo_wk = Some (demo_wk_page ''a.com'' INIT_NONE)"
  unfolding holder_at_def demo_wk_facts(3) by (simp add: demo_view_def)

section \<open>Getters\<close>

text \<open>The getters, as calls that a client may make in any order.\<close>

datatype wk_query =
    Q_GetItemAtIndex nat | Q_GetLastCommittedItem | Q_GetLastCommittedItemIndex | Q_GetPendingItem
  | Q_GetPendingItemIndex | Q_GetVisibleItem | Q_GetCurrentItemImpl | Q_GetBackwardItems | Q_GetForwardItems
  | Q_GetLastCommittedItemWithUserAgentType | Q_GetLastCommittedNonRedirectedItem

text \<open>The state after a call; the answers do not matter for it.\<close>

fun run_query :: "'u web_lib \<Rightarrow> wk_query \<Rightarrow> 'u wk_manager \<Rightarrow> 'u wk_manager option" where
  "run_query W (Q_GetItemAtIndex i) m = map_option snd (wk_GetItemAtIndex W i m)"
| "run_query W Q_GetLastCommittedItem m = map_option snd (wk_GetLastCommittedItem W m)"
| "run_query W Q_GetLastCommittedItemIndex m = map_option snd (wk_GetLastCommittedItemIndex W m)"
| "run_query W Q_GetPendingItem m = map_option snd (wk_GetPendingItem W m)"
| "run_query W Q_GetPendingItemIndex m = map_option snd (wk_GetPendingItemIndex W m)"
| "run_query W Q_GetVisibleItem m = map_option snd (wk_GetVisibleItem W m)"
| "run_query W Q_GetCurrentItemImpl m = map_option snd (wk_GetCurrentItemImpl W m)"
| "run_query W Q_GetBackwardItems m = map_option snd (wk_GetBackwardItems W m)"
| "run_query W Q_GetForwardItems m = map_option snd (wk_GetForwardItems W m)"
| "run_query W Q_GetLastCommittedItemWithUserAgentType m =
     map_option snd (wk_GetLastCommittedItemWithUserAgentType W m)"
| "run_query W Q_GetLastCommittedNonRedirectedItem m =
     map_option snd (wk_GetLastCommittedNonRedirectedItem W m)"

fun run_queries :: "'u web_lib \<Rightarrow> wk_query list \<Rightarrow> 'u wk_manager \<Rightarrow> 'u wk_manager option" where
  "run_queries W [] m = Some m"
| "run_queries W (q # qs) m = Option.bind (run_query W q m) (run_queries W qs)"

lemma run_query_fills:
  assumes "run_query W q m = Some m'" "wk_ok m"
  shows "only_fills W m m'"
  using assms
  by (cases q) (auto simp: wk_GetItemAtIndex_def wk_GetBackwardItems_def wk_GetForwardItems_def Let_def
      simp del: wk_items_at.simps split: if_splits
      dest: wk_GetItemAtIndex_fills wk_GetLastCommittedItem_fills wk_GetLastCommittedItemIndex_fills
        wk_GetPendingItem_fills wk_GetPendingItemIndex_fills wk_GetVisibleItem_fills
        wk_GetCurrentItemImpl_fills wk_items_at_fills wk_GetLastCommittedItemWithUserAgentType_fills
        wk_GetLastCommittedNonRedirectedItem_fills)

lemma run_queries_fill: "run_queries W qs m = Some m' \<Longrightarrow> wk_ok m \<Longrightarrow> only_fills W m m'"
proof (induction qs arbitrary: m)
  case (Cons q qs)
  from Cons.prems(1) obtain m1 where q: "run_query W q m = Some m1" "run_queries W qs m1 = Some m'"
    by (auto elim: bind_SomeE)
  show ?case by (rule fills_then [OF run_query_fills [OF q(1) Cons.prems(2)] Cons.prems(2)]) (rule Cons.IH [OF q(2)])
qed simp

text \<open>The URLs and titles of the pages of the web view.\<close>

definition page_urls :: "'u wk_manager \<Rightarrow> 'u list" where
  "page_urls m = (case wk_proxy m of None \<Rightarrow> [] | Some v \<Rightarrow> map wk_url (wv_items v))"

definition page_titles :: "'u wk_manager \<Rightarrow> string list" where
  "page_titles m = (case wk_proxy m of None \<Rightarrow> [] | Some v \<Rightarrow> map wk_title (wv_items v))"

lemma only_fills_pages:
  assumes "only_fills W m m'"
  shows "page_urls m' = page_urls m" "page_titles m' = page_titles m"
  using assms by (auto simp: only_fills_def page_urls_def page_titles_def same_pages_def elim!: option.rel_cases)

lemma only_fills_created:
  assumes "only_fills W m m'" "holder_at i m = None" "holder_at i m' = Some x"
  shows "page_item W (page_urls m) (page_titles m) i x"
proof -
  from assms(1,3) obtain v v' where v: "wk_proxy m = Some v" "wk_proxy m' = Some v'" "same_pages W v v'"
    "i < length (wv_items v')" "wk_holder (wv_items v' ! i) = Some x"
    by (auto simp: only_fills_def holder_at_def split: option.splits if_splits elim!: option.rel_cases)
  have "i < length (wv_items v)" "wk_holder (wv_items v ! i) = None"
    using v assms(2) same_pages_length [OF v(3)] by (auto simp: holder_at_def)
  with v show ?thesis by (auto simp: same_pages_def fills_slot_def page_urls_def page_titles_def)
qed

text \<open>
  C18. Getters fill. A client may call the getters in any order, however often: the history keeps its length,
  its current entry, its pages and every answer of \<open>CanGoToOffset\<close>, every navigation item that exists
  stays where it is with its contents, and a navigation item that a getter creates has the URL of its
  page (as rewritten for a renderer-initiated load), the title of its page, and counts as
  renderer-initiated.
\<close>

theorem getters_only_fill:
  assumes "wk_ok m" "run_queries W qs m = Some m'"
  shows "wk_ok m' \<and> wk_GetItemCount m' = wk_GetItemCount m \<and>
    GetCurrentItemIndex m' = GetCurrentItemIndex m \<and>
    page_urls m' = page_urls m \<and> page_titles m' = page_titles m \<and>
    (\<forall>offset. wk_CanGoToOffset offset m' = wk_CanGoToOffset offset m) \<and>
    (\<forall>r x. wk_deref m r = Some x \<longrightarrow> wk_deref m' r = Some x) \<and>
    (\<forall>i x. holder_at i m = None \<and> holder_at i m' = Some x \<longrightarrow> page_item W (page_urls m) (page_titles m) i x)"
  using run_queries_fill [OF assms(2,1)] assms(1)
  by (auto simp: only_fills_ok only_fills_queries only_fills_shape only_fills_pages only_fills_created
      only_fills_deref)

theorem getters_only_fill_witness:
  "\<exists>m'. run_queries demo_web [Q_GetForwardItems, Q_GetVisibleItem, Q_GetItemAtIndex 2] demo_wk = Some m' \<and>
    wk_GetItemCount m' = 3 \<and> wk_deref m' (WkListed 0) = Some (demo_wk_page ''a.com'' INIT_NONE)"
proof -
  have "run_queries demo_web [Q_GetForwardItems, Q_GetVisibleItem, Q_GetItemAtIndex 2] demo_wk \<noteq> None"
    by code_simp
  then obtain m' where m': "run_queries demo_web [Q_GetForwardItems, Q_GetVisibleItem, Q_GetItemAtIndex 2] demo_wk = Some m'"
    by auto
  have "wk_deref demo_wk (WkListed 0) = Some (demo_wk_page ''a.com'' INIT_NONE)" by (simp add: demo_wk_first)
  then have "wk_deref m' (WkListed 0) = Some (demo_wk_page ''a.com'' INIT_NONE)" "wk_GetItemCount m' = 3"
    using getters_only_fill [OF demo_wk_facts(1) m'] demo_wk_facts(9) by metis+
  with m' show ?thesis by blast
qed

section \<open>What may be shown\<close>

lemma cache_get_ref_kind:
  assumes "cache_GetNavigationItemImplAtIndex W i b m = Some (Some r, m')"
  shows "r \<notin> {WkRestored, WkTransient, WkPending}"
  using assms
  by (auto simp: cache_GetNavigationItemImplAtIndex_def create_missing_item_def GetNavigationItemFromWKItem_def
      Let_def split: if_splits option.splits prod.splits elim!: bind_SomeE)

lemma last_committed_ref_kind:
  assumes "wk_GetLastCommittedItem W m = Some (Some r, m')"
  shows "r \<notin> {WkRestored, WkTransient, WkPending}"
proof -
  from assms have "wk_GetLastCommittedItemInCurrentOrRestoredSession W m = Some (Some r, m')"
    by (auto simp: wk_GetLastCommittedItem_def bind_eq_Some_conv split: if_splits option.splits)
  then show ?thesis
    by (auto simp: wk_GetLastCommittedItemInCurrentOrRestoredSession_def wk_GetNavigationItemImplAtIndex_def
        Let_def bind_check split: if_splits dest: cache_get_ref_kind)
qed

lemma last_committed_shown:
  assumes "wk_GetLastCommittedItem W m = Some (Some r, m')"
  shows "\<exists>item. wk_deref m' r = Some item \<and> \<not> IsRestoreSessionUrl (gl W) (item_url item)"
  using assms
  by (auto simp: wk_GetLastCommittedItem_def is_restore_item_def bind_eq_Some_conv
      split: if_splits option.splits)

text \<open>
  C19. No spoofing. \<open>GetVisibleItem\<close> returns a live navigation item. While a session is being restored it is
  the restored one. A pending item is returned only for a new navigation that the user started. Any
  other item that is shown is the transient item or the last committed one, and the page that restores
  a session is never shown as the committed one.
\<close>

theorem visible_item_safe:
  assumes "wk_ok m" "wk_GetVisibleItem W m = Some (Some r, m')"
  shows "\<exists>item. wk_deref m' r = Some item \<and>
    (is_restore_session_in_progress m \<or> restored_visible_item m \<noteq> None \<longrightarrow> r = WkRestored) \<and>
    (r = WkPending \<longrightarrow> initiation_type item = BROWSER_INITIATED \<and> pending_item_index m = - 1) \<and>
    (r \<notin> {WkRestored, WkTransient, WkPending} \<longrightarrow>
       \<not> IsRestoreSessionUrl (gl W) (item_url item) \<and>
       (\<exists>m1. only_fills W m m1 \<and> wk_GetLastCommittedItem W m1 = Some (Some r, m')))"
  using assms(2,1)
proof (cases rule: wk_GetVisibleItem_cases)
  case (committed m1)
  from last_committed_shown [OF this(5)] last_committed_ref_kind [OF this(5)] committed show ?thesis
    by auto
qed (auto split: if_splits)

theorem visible_item_safe_witness:
  "\<exists>r m' item. wk_GetVisibleItem demo_web
      (demo_wk\<lparr>pending_item := Some (demo_wk_page ''evil.com'' RENDERER_INITIATED)\<rparr>) = Some (Some r, m') \<and>
    r \<noteq> WkPending \<and> wk_deref m' r = Some item"
proof -
  let ?m = "demo_wk\<lparr>pending_item := Some (demo_wk_page ''evil.com'' RENDERER_INITIATED)\<rparr>"
  have "Option.bind (wk_GetVisibleItem demo_web ?m) fst \<noteq> None" by code_simp
  then obtain r m' where v: "wk_GetVisibleItem demo_web ?m = Some (Some r, m')"
    by (cases "wk_GetVisibleItem demo_web ?m") auto
  have "wk_ok ?m" using demo_wk_facts(1) by simp
  from visible_item_safe [OF this v] obtain item where i: "wk_deref m' r = Some item"
    "r = WkPending \<longrightarrow> initiation_type item = BROWSER_INITIATED" by blast
  have "pending_item m' = pending_item ?m"
    using wk_GetVisibleItem_fills [OF v \<open>wk_ok ?m\<close>] only_fills_fields by blast
  with i have "r \<noteq> WkPending"
    by (auto simp: demo_wk_page_def SetNavigationInitiationType_def)
  with v i show ?thesis by blast
qed

section \<open>Detachment\<close>

lemma copy_items_spec:
  assumes "is_empty W (empty_gurl (gl W))" "wk_ok m" "\<forall>i \<in> set is. i < GetBackForwardListItemCount m"
  shows "\<exists>items m'. copy_items W is m = Some (items, m') \<and> only_fills W m m' \<and>
    list_all2 (\<lambda>i item. \<exists>x. wk_deref m' (ref_at i m) = Some x \<and> item = NavigationItemImpl_copy W x) is items"
  using assms(2,3)
proof (induction "is" arbitrary: m)
  case (Cons i rest)
  obtain m1 x where g: "cache_GetNavigationItemImplAtIndex W i True m = Some (Some (ref_at i m), m1)"
    "only_fills W m m1" "wk_deref m1 (ref_at i m) = Some x"
    using cache_get_total [OF assms(1) Cons.prems(1), of i] Cons.prems(2) by auto
  have ok1: "wk_ok m1" "\<forall>i \<in> set rest. i < GetBackForwardListItemCount m1"
    using Cons.prems only_fills_ok [OF g(2)] only_fills_shape(1) [OF g(2)] by simp_all
  have same: "ref_at j m1 = ref_at j m" for j using only_fills_fields [OF g(2)] by (simp add: ref_at_def)
  obtain items m2 where r: "copy_items W rest m1 = Some (items, m2)" "only_fills W m1 m2"
    "list_all2 (\<lambda>i item. \<exists>x. wk_deref m2 (ref_at i m1) = Some x \<and> item = NavigationItemImpl_copy W x) rest items"
    using Cons.IH [OF ok1] by blast
  have "wk_deref m2 (ref_at i m) = Some x" using only_fills_deref [OF r(2) g(3)] .
  with g r same only_fills_trans [OF g(2) r(2)] show ?case by simp
qed simp

text \<open>The navigation item that a getter returns for an index.\<close>

definition item_at :: "'u web_lib \<Rightarrow> nat \<Rightarrow> 'u wk_manager \<Rightarrow> 'u navigation_item option" where
  "item_at W i m = do {
     (r, m) \<leftarrow> wk_GetItemAtIndex W i m;
     Option.bind r (wk_deref m) }"

lemma detach_spec:
  assumes "is_empty W (empty_gurl (gl W))" "wk_ok m" "attached_to_web_view m"
  shows "\<exists>items m1. wk_DetachFromWebView W m =
      Some (m1\<lparr>cached_current_item_index := GetCurrentItemIndex m, cached_items := items,
        attached_to_web_view := False\<rparr>) \<and> only_fills W m m1 \<and>
      length items = GetBackForwardListItemCount m \<and>
      (\<forall>i < length items. \<exists>x. holder_at i m1 = Some x \<and> items ! i = NavigationItemImpl_copy W x)"
proof -
  let ?is = "[0..<GetBackForwardListItemCount m]"
  obtain items m1 where c: "copy_items W ?is m = Some (items, m1)" "only_fills W m m1"
    "list_all2 (\<lambda>i item. \<exists>x. wk_deref m1 (ref_at i m) = Some x \<and> item = NavigationItemImpl_copy W x) ?is items"
    using copy_items_spec [OF assms(1,2), of ?is] by auto
  have "length items = GetBackForwardListItemCount m" using list_all2_lengthD [OF c(3)] by simp
  moreover have "\<forall>i < length items. \<exists>x. holder_at i m1 = Some x \<and> items ! i = NavigationItemImpl_copy W x"
    using c(3) assms(3) list_all2_lengthD [OF c(3)]
    by (auto simp: list_all2_conv_all_nth ref_at_def)
  ultimately show ?thesis
    using c assms(3) by (intro exI [of _ items] exI [of _ m1]) (simp add: wk_DetachFromWebView_def IsAttachedToWebView_def Let_def)
qed

text \<open>
  C20. The history outlives the web view. \<open>-removeWebView\<close>, which detaches the manager and then drops the web
  view, always returns; the history keeps its length, its current entry and the answers of
  \<open>GetIndexForOffset\<close> and \<open>CanGoToOffset\<close>, and each entry is a copy of the navigation item that
  belonged to its page (rebuilt from the page where there was none).
\<close>

theorem removed_web_view_keeps_history:
  assumes "is_empty W (empty_gurl (gl W))" "wk_ok m" "IsAttachedToWebView m" "wk_proxy m \<noteq> None"
    "empty_window_open_item m = None"
  shows "\<exists>m'. wk_removeWebView W m = Some m' \<and> wk_ok m' \<and> wk_proxy m' = None \<and> \<not> IsAttachedToWebView m' \<and>
    wk_GetItemCount m' = wk_GetItemCount m \<and> GetCurrentItemIndex m' = GetCurrentItemIndex m \<and>
    (\<forall>offset. wk_GetIndexForOffset offset m' = wk_GetIndexForOffset offset m \<and>
              wk_CanGoToOffset offset m' = wk_CanGoToOffset offset m) \<and>
    (\<forall>i < nat (wk_GetItemCount m). \<exists>x. item_at W i m' = Some (NavigationItemImpl_copy W x) \<and>
       (case holder_at i m of
          Some y \<Rightarrow> x = y | None \<Rightarrow> page_item W (page_urls m) (page_titles m) i x)) \<and>
    (\<forall>i \<ge> nat (wk_GetItemCount m). item_at W i m' = None)"
proof -
  have att: "attached_to_web_view m" using assms(3) by (simp add: IsAttachedToWebView_def)
  obtain items m1 where d: "wk_DetachFromWebView W m =
      Some (m1\<lparr>cached_current_item_index := GetCurrentItemIndex m, cached_items := items,
        attached_to_web_view := False\<rparr>)" "only_fills W m m1" "length items = GetBackForwardListItemCount m"
      "\<forall>i < length items. \<exists>x. holder_at i m1 = Some x \<and> items ! i = NavigationItemImpl_copy W x"
    using detach_spec [OF assms(1,2) att] by blast
  let ?m = "m1\<lparr>cached_current_item_index := GetCurrentItemIndex m, cached_items := items,
        attached_to_web_view := False, wk_proxy := None\<rparr>"
  note f = only_fills_fields [OF d(2)]
  have shape: "GetBackForwardListItemCount ?m = GetBackForwardListItemCount m"
    "GetCurrentItemIndex ?m = GetCurrentItemIndex m"
    using d(3) by (simp_all add: GetBackForwardListItemCount_def GetCurrentItemIndex_def IsAttachedToWebView_def)
  have "wk_ok ?m" using current_index_bounds [OF assms(2)] d(3) by (auto simp: wk_ok_def)
  moreover have "wk_removeWebView W m = Some ?m" using d(1) assms(4) by (auto simp: wk_removeWebView_def)
  moreover have "wk_GetItemCount ?m = wk_GetItemCount m"
    "wk_GetIndexForOffset offset ?m = wk_GetIndexForOffset offset m"
    "wk_CanGoToOffset offset ?m = wk_CanGoToOffset offset m" for offset
    using shape f
    by (simp_all add: wk_GetItemCount_def wk_GetIndexForOffset_def wk_CanGoToOffset_def wk_GetTransientItem_def)
  moreover have "item_at W i ?m = (if i < length items then Some (items ! i) else None)" for i
    using shape f(5) assms(5) d(3)
    by (simp add: item_at_def wk_GetItemAtIndex_def wk_GetNavigationItemImplAtIndex_def
        cache_GetNavigationItemImplAtIndex_def IsAttachedToWebView_def)
  moreover have "case holder_at i m of
          Some y \<Rightarrow> x = y | None \<Rightarrow> page_item W (page_urls m) (page_titles m) i x"
    if "holder_at i m1 = Some x" for i x
    using that only_fills_holder [OF d(2)] only_fills_created [OF d(2)] by (auto split: option.split)
  moreover have "nat (wk_GetItemCount m) = length items" using assms(5) d(3) by (simp add: wk_GetItemCount_def)
  ultimately show ?thesis using d(4) shape(2) by (intro exI [of _ ?m]) (force simp: IsAttachedToWebView_def)
qed

theorem removed_web_view_keeps_history_witness:
  "\<exists>m'. wk_removeWebView demo_web demo_wk = Some m' \<and> wk_proxy m' = None \<and> wk_GetItemCount m' = 3 \<and>
    GetCurrentItemIndex m' = 1 \<and>
    item_at demo_web 0 m' = Some (NavigationItemImpl_copy demo_web (demo_wk_page ''a.com'' INIT_NONE))"
proof -
  have "wk_proxy demo_wk \<noteq> None" by (simp add: demo_wk_facts)
  from removed_web_view_keeps_history [OF demo_web_empty demo_wk_facts(1,2) this demo_wk_facts(4)]
  obtain m' where m': "wk_removeWebView demo_web demo_wk = Some m'" "wk_proxy m' = None"
    "wk_GetItemCount m' = wk_GetItemCount demo_wk" "GetCurrentItemIndex m' = GetCurrentItemIndex demo_wk"
    and items: "\<forall>i < nat (wk_GetItemCount demo_wk). \<exists>x. item_at demo_web i m' = Some (NavigationItemImpl_copy demo_web x) \<and>
       (case holder_at i demo_wk of Some y \<Rightarrow> x = y
        | None \<Rightarrow> page_item demo_web (page_urls demo_wk) (page_titles demo_wk) i x)"
    by blast
  from items [rule_format, of 0] m' show ?thesis by (auto simp: demo_wk_first demo_wk_facts)
qed

section \<open>Committing\<close>

lemma cache_get_present:
  assumes "wk_ok m" "attached_to_web_view m" "i < GetBackForwardListItemCount m" "holder_at i m = Some x"
  shows "cache_GetNavigationItemImplAtIndex W i b m = Some (Some (WkListed i), m)"
  using assms GetWKItemAtIndex_ok [OF assms(1-3)]
  by (simp add: cache_GetNavigationItemImplAtIndex_def IsAttachedToWebView_def GetNavigationItemFromWKItem_def)

lemma last_committed_present:
  assumes "wk_ok m" "attached_to_web_view m" "empty_window_open_item m = None" "pending_item_index m = - 1"
    "wk_proxy m = Some v" "0 \<le> wv_index v" "holder_at (nat (wv_index v)) m = Some x"
  shows "wk_GetLastCommittedItemInCurrentOrRestoredSession W m = Some (Some (WkListed (nat (wv_index v))), m)"
proof -
  have "nat (wv_index v) < GetBackForwardListItemCount m" "GetCurrentItemIndex m = wv_index v"
    using assms by (auto simp: GetBackForwardListItemCount_ok GetCurrentItemIndex_ok wk_ok_def view_ok_def)
  with cache_get_present [OF assms(1,2) this(1) assms(7)] assms show ?thesis
    by (simp add: wk_GetLastCommittedItemInCurrentOrRestoredSession_def wk_GetNavigationItemImplAtIndex_def
        wk_GetLastCommittedItemIndexInCurrentOrRestoredSession_def)
qed

text \<open>
  C23. Committing a new navigation. The pending item becomes the navigation item of the current page of the
  web view, with the smoothed time and no initiation type, and no other entry changes; the last committed
  and the previous index move on (the previous one stays where an empty \<open>window.open\<close> entry is replaced);
  the delegate hears of exactly this item; the item shown for a restored session is dropped unless the
  page is the one that restores it; and committing again does nothing.
\<close>

theorem wk_commit_new_navigation:
  assumes "wk_ok m" "IsAttachedToWebView m" "pending_item_index m = - 1" "pending_item m = Some p"
    "wk_proxy m = Some v" "0 \<le> wv_index v"
  shows "\<exists>m'. wk_CommitPendingItem W m = Some m' \<and> wk_CommitPendingItem W m' = Some m' \<and>
    wk_deref m' (WkListed (nat (wv_index v))) =
      Some (SetTimestamp (fst (GetSmoothedTime (wk_clock m) (wk_time_smoother m))) (ResetForCommit p)) \<and>
    (\<forall>i. i \<noteq> nat (wv_index v) \<longrightarrow> wk_deref m' (WkListed i) = wk_deref m (WkListed i)) \<and>
    page_urls m' = page_urls m \<and> GetCurrentItemIndex m' = GetCurrentItemIndex m \<and>
    pending_item m' = None \<and> pending_item_index m' = - 1 \<and> empty_window_open_item m' = None \<and>
    last_committed_item_index m' = wv_index v \<and>
    previous_item_index m' =
      (if empty_window_open_item m \<noteq> None then previous_item_index m else last_committed_item_index m) \<and>
    wk_calls m' = wk_calls m @ [ItemCommitted (WkListed (nat (wv_index v)))] \<and>
    restored_visible_item m' =
      (if IsRestoreSessionUrl (gl W) (item_url p) then restored_visible_item m else None)"
proof -
  obtain t s where ts: "GetSmoothedTime (wk_clock m) (wk_time_smoother m) = (t, s)" by fastforce
  define q where "q = (if empty_window_open_item m \<noteq> None then previous_item_index m else last_committed_item_index m)"
  define rv where "rv = (if IsRestoreSessionUrl (gl W) (item_url p) then restored_visible_item m else None)"
  let ?k = "nat (wv_index v)"
  let ?item = "SetTimestamp t (ResetForCommit p)"
  have att: "attached_to_web_view m" and v: "view_ok v" using assms(1,2,5) by (simp_all add: IsAttachedToWebView_def wk_ok_def)
  then have k: "?k < length (wv_items v)" "itemAtOffset 0 v = Some ?k" "wv_index v \<noteq> - 1"
    using assms(6) by (auto simp: view_ok_def itemAtOffset_def Let_def)
  let ?c = "m\<lparr>wk_time_smoother := s, empty_window_open_item := None, wk_proxy := Some (set_holder ?k ?item v),
    pending_item_index := - 1, pending_item := None,
    previous_item_index := q,
    last_committed_item_index := wv_index v\<rparr>"
  let ?f = "?c\<lparr>wk_calls := wk_calls m @ [ItemCommitted (WkListed ?k)],
    restored_visible_item := rv\<rparr>"
  have sv: "view_ok (set_holder ?k ?item v)" "wv_index (set_holder ?k ?item v) = wv_index v"
    using v by (simp_all add: view_ok_def set_holder_def)
  have ok: "wk_ok ?c" using att sv(1) by (simp add: wk_ok_def)
  have h: "holder_at ?k ?c = Some ?item" using k(1) by (simp add: holder_at_def set_holder_def)
  have cur: "GetCurrentItemIndex ?c = wv_index v" using GetCurrentItemIndex_ok [OF ok] att sv(2) by simp
  have url: "item_url ?item = item_url p" by (simp add: item_defs)
  have new: "commit_new_item W m = Some (m\<lparr>wk_time_smoother := s, empty_window_open_item := None,
      wk_proxy := Some (set_holder ?k ?item v), pending_item := None\<rparr>)"
    using assms(4,5) ts k by (simp add: commit_new_item_def wk_smoothed_def SetNavigationItemInWKItem_def)
  have "wk_GetLastCommittedItemInCurrentOrRestoredSession W ?c = Some (Some (WkListed ?k), ?c)"
    using last_committed_present [OF ok, where v = "set_holder ?k ?item v" and W = W and x = ?item] att h sv(2) assms(6)
    by simp
  then have on: "wk_OnNavigationItemCommitted W ?c = Some ?f"
    using h url by (simp add: wk_OnNavigationItemCommitted_def is_restore_item_def wk_tell_def holder_at_def rv_def)
  have "wk_CommitPendingItem W m = Some ?f"
    using assms(2-4) new on cur
    by (cases "empty_window_open_item m")
       (simp_all add: wk_CommitPendingItem_def GetCurrentItemIndex_def IsAttachedToWebView_def q_def)
  moreover have "wk_CommitPendingItem W ?f = Some ?f"
    using att by (simp add: wk_CommitPendingItem_def IsAttachedToWebView_def)
  moreover have "holder_at i ?f = (if i = ?k then Some ?item else holder_at i m)" for i
    using k(1) assms(5) by (auto simp: holder_at_def set_holder_def)
  moreover have "page_urls ?f = page_urls m"
    using assms(5) map_set_slot [OF k(1), of wk_url] by (simp add: page_urls_def set_holder_def)
  moreover have "GetCurrentItemIndex ?f = GetCurrentItemIndex m"
    using cur assms(5) att GetCurrentItemIndex_ok [OF assms(1)] by (simp add: GetCurrentItemIndex_def IsAttachedToWebView_def)
  ultimately show ?thesis using ts by (intro exI [of _ ?f]) (simp add: q_def rv_def)
qed

theorem wk_commit_new_navigation_witness:
  "\<exists>m'. wk_CommitPendingItem demo_web
      (demo_wk\<lparr>pending_item := Some (demo_wk_page ''b.com'' BROWSER_INITIATED)\<rparr>) = Some m' \<and>
    wk_calls m' = [ItemCommitted (WkListed 1)] \<and> last_committed_item_index m' = 1"
proof -
  let ?m = "demo_wk\<lparr>pending_item := Some (demo_wk_page ''b.com'' BROWSER_INITIATED)\<rparr>"
  have "wk_ok ?m" "IsAttachedToWebView ?m" "pending_item_index ?m = - 1"
    "pending_item ?m = Some (demo_wk_page ''b.com'' BROWSER_INITIATED)" "wk_proxy ?m = Some demo_view"
    "0 \<le> wv_index demo_view"
    using demo_wk_facts by (simp_all add: IsAttachedToWebView_def) (simp add: demo_view_def)
  from wk_commit_new_navigation [OF this, of demo_web] show ?thesis
    by (auto simp: demo_view_def demo_wk_def new_WKBasedNavigationManagerImpl_def)
qed

section \<open>Going back and forward\<close>

text \<open>The getters return, and what they return is live.\<close>

lemma item_at_index_total:
  assumes "is_empty W (empty_gurl (gl W))" "wk_ok m" "empty_window_open_item m = None"
  shows "\<exists>r m'. wk_GetNavigationItemImplAtIndex W i m = Some (r, m') \<and> only_fills W m m' \<and>
    (\<forall>q. r = Some q \<longrightarrow> wk_deref m' q \<noteq> None) \<and> (i < GetBackForwardListItemCount m \<longrightarrow> r = Some (ref_at i m))"
proof (cases "i < GetBackForwardListItemCount m")
  case True
  with cache_get_total [OF assms(1,2) True] assms(3) show ?thesis
    by (auto simp: wk_GetNavigationItemImplAtIndex_def)
next
  case False
  with assms(3) show ?thesis
    by (simp add: wk_GetNavigationItemImplAtIndex_def cache_GetNavigationItemImplAtIndex_def)
qed

lemma pending_total:
  assumes "is_empty W (empty_gurl (gl W))" "wk_ok m" "empty_window_open_item m = None"
  shows "\<exists>r m'. wk_GetPendingItem W m = Some (r, m') \<and> only_fills W m m' \<and>
    (\<forall>q. r = Some q \<longrightarrow> wk_deref m' q \<noteq> None)"
  using item_at_index_total [OF assms, of "nat (pending_item_index m)"]
  by (auto simp: wk_GetPendingItem_def wk_GetPendingItemInCurrentOrRestoredSession_def)

lemma last_committed_total:
  assumes "is_empty W (empty_gurl (gl W))" "wk_ok m" "empty_window_open_item m = None"
    "wk_GetLastCommittedItemIndexInCurrentOrRestoredSession m \<noteq> - 1"
  shows "\<exists>r m'. wk_GetLastCommittedItem W m = Some (r, m') \<and> only_fills W m m' \<and>
    (\<forall>q. r = Some q \<longrightarrow> wk_deref m' q \<noteq> None)"
proof (cases "wk_IsRestoreSessionInProgress m \<or> wk_GetLastCommittedItemIndexInCurrentOrRestoredSession m < 0")
  case True
  with assms(3,4) show ?thesis
    by (auto simp: wk_GetLastCommittedItem_def wk_GetLastCommittedItemInCurrentOrRestoredSession_def)
next
  case False
  obtain r m' where g: "wk_GetNavigationItemImplAtIndex W
      (nat (wk_GetLastCommittedItemIndexInCurrentOrRestoredSession m)) m = Some (r, m')" "only_fills W m m'"
    "\<forall>q. r = Some q \<longrightarrow> wk_deref m' q \<noteq> None"
    using item_at_index_total [OF assms(1-3)] by blast
  have l: "wk_GetLastCommittedItemInCurrentOrRestoredSession W m = Some (r, m')"
    using False assms(3,4) g(1) by (simp add: wk_GetLastCommittedItemInCurrentOrRestoredSession_def Let_def)
  show ?thesis
  proof (cases r)
    case None
    with l g False show ?thesis by (simp add: wk_GetLastCommittedItem_def)
  next
    case (Some q)
    with g(3) obtain x where "wk_deref m' q = Some x" by auto
    with l g False Some show ?thesis by (simp add: wk_GetLastCommittedItem_def is_restore_item_def)
  qed
qed

lemma previous_agent_total:
  assumes "is_empty W (empty_gurl (gl W))" "wk_ok m" "empty_window_open_item m = None"
    "wk_GetLastCommittedItemIndexInCurrentOrRestoredSession m \<noteq> - 1"
  shows "\<exists>p m1 q m2 ua. wk_GetPendingItem W m = Some (p, m1) \<and>
    (if p \<noteq> None then Some (p, m1) else wk_GetLastCommittedItem W m1) = Some (q, m2) \<and>
    user_agent_or_none q m2 = Some ua \<and> only_fills W m m2"
proof -
  obtain p m1 where p: "wk_GetPendingItem W m = Some (p, m1)" "only_fills W m m1"
    "\<forall>q. p = Some q \<longrightarrow> wk_deref m1 q \<noteq> None"
    using pending_total [OF assms(1-3)] by blast
  have m1: "wk_ok m1" "empty_window_open_item m1 = None"
    "wk_GetLastCommittedItemIndexInCurrentOrRestoredSession m1 \<noteq> - 1"
    using p(2) assms only_fills_ok [OF p(2)] only_fills_fields [OF p(2)] only_fills_queries [OF p(2)] by simp_all
  obtain q m2 where q: "(if p \<noteq> None then Some (p, m1) else wk_GetLastCommittedItem W m1) = Some (q, m2)"
    "only_fills W m1 m2" "\<forall>x. q = Some x \<longrightarrow> wk_deref m2 x \<noteq> None"
    using last_committed_total [OF assms(1) m1] p(3) by (cases p) auto
  have "\<exists>ua. user_agent_or_none q m2 = Some ua"
    using q(3) by (auto simp: user_agent_or_none_def split: option.splits)
  with p(1) q(1) only_fills_trans [OF p(2) q(2)] show ?thesis by blast
qed

lemma FinishGoToIndex_attached:
  assumes "is_empty W (empty_gurl (gl W))" "wk_ok m" "attached_to_web_view m" "empty_window_open_item m = None"
    "0 \<le> index" "nat index < GetBackForwardListItemCount m"
  shows "\<exists>m1 x. only_fills W (wk_DiscardNonCommittedItems m) m1 \<and> holder_at (nat index) m1 = Some x \<and>
    wk_FinishGoToIndex W index type gesture m =
      Some (wk_tell (Base (GoToBackForwardListItem (nat index) type gesture))
        (wk_store (WkListed (nat index))
          (SetTransitionType (or (transition_type x) (PAGE_TRANSITION_FORWARD_BACK W)) x) m1))"
proof -
  let ?d = "wk_DiscardNonCommittedItems m"
  have d: "wk_ok ?d" "attached_to_web_view ?d" "empty_window_open_item ?d = None"
    "nat index < GetBackForwardListItemCount ?d"
    using assms by (simp_all add: wk_DiscardNonCommittedItems_def)
  obtain m1 x where g: "wk_GetNavigationItemImplAtIndex W (nat index) ?d = Some (Some (WkListed (nat index)), m1)"
    "only_fills W ?d m1" "holder_at (nat index) m1 = Some x"
    using item_at_index_total [OF assms(1) d(1,3), of "nat index"] d(2,4) by (auto simp: ref_at_def)
  let ?s = "wk_store (WkListed (nat index))
          (SetTransitionType (or (transition_type x) (PAGE_TRANSITION_FORWARD_BACK W)) x) m1"
  have m1: "wk_ok m1" "attached_to_web_view m1" "nat index < GetBackForwardListItemCount m1"
    using d only_fills_ok [OF g(2)] only_fills_fields [OF g(2)] only_fills_shape [OF g(2)] by simp_all
  have s: "wk_ok ?s" "attached_to_web_view ?s" "nat index < GetBackForwardListItemCount ?s"
    using m1 by (auto simp: wk_ok_def view_ok_def set_holder_def GetBackForwardListItemCount_def
        IsAttachedToWebView_def backList_count_def forwardList_count_def split: option.splits)
  show ?thesis
    using g m1 GetWKItemAtIndex_ok [OF s] assms(3)
    by (intro exI [of _ m1] exI [of _ x])
       (simp add: wk_FinishGoToIndex_def IsAttachedToWebView_def wk_GetItemAtIndex_def wk_update_def)
qed

lemma CanGoToOffset_bounds:
  assumes "wk_CanGoToOffset offset m" "empty_window_open_item m = None"
  shows "\<not> is_restore_session_in_progress m" "0 \<le> wk_GetIndexForOffset offset m"
    "wk_GetIndexForOffset offset m < wk_GetItemCount m"
    "nat (wk_GetIndexForOffset offset m) < GetBackForwardListItemCount m"
  using assms by (auto simp: wk_CanGoToOffset_def wk_GetItemCount_def Let_def split: if_splits)

lemma current_calls [simp]: "GetCurrentItemIndex (m\<lparr>wk_calls := cs\<rparr>) = GetCurrentItemIndex m"
  by (simp add: GetCurrentItemIndex_def IsAttachedToWebView_def)

lemma only_fills_calls:
  assumes "only_fills W (m\<lparr>wk_calls := cs\<rparr>) m'"
  shows "only_fills W m (m'\<lparr>wk_calls := wk_calls m\<rparr>)"
  using assms by (cases m, cases m') (simp add: only_fills_def)

text \<open>A move within the list: its state, up to items that are filled in on the way.\<close>

lemma GoToIndex_attached:
  assumes "is_empty W (empty_gurl (gl W))" "wk_ok m" "attached_to_web_view m" "empty_window_open_item m = None"
    "0 \<le> index" "nat index < GetBackForwardListItemCount m"
    "wk_GetLastCommittedItemIndexInCurrentOrRestoredSession m \<noteq> - 1"
  shows "\<exists>calls m1 m2 x. only_fills W m m1 \<and>
    only_fills W (wk_DiscardNonCommittedItems (m1\<lparr>wk_calls := wk_calls m @ calls\<rparr>)) m2 \<and>
    holder_at (nat index) m2 = Some x \<and>
    wk_GoToIndex W index type gesture m =
      Some (wk_tell (Base (GoToBackForwardListItem (nat index) type gesture))
        (wk_store (WkListed (nat index))
          (SetTransitionType (or (transition_type x) (PAGE_TRANSITION_FORWARD_BACK W)) x) m2))"
proof -
  let ?t = "wk_tell (Base ClearTransientContent)
    (if wk_GetTransientItem m = None then wk_tell (Base RecordPageStateInNavigationItem) m else m)"
  obtain c where c: "?t = m\<lparr>wk_calls := wk_calls m @ c\<rparr>" by (cases "wk_GetTransientItem m = None") (auto simp: wk_tell_def)
  have t: "wk_ok ?t" "empty_window_open_item ?t = None" "nat index < GetBackForwardListItemCount ?t"
    "attached_to_web_view ?t" "wk_GetLastCommittedItemIndexInCurrentOrRestoredSession ?t \<noteq> - 1"
    unfolding c using assms
    by (simp_all add: wk_GetLastCommittedItemIndexInCurrentOrRestoredSession_def split: if_splits)
  obtain m1 y where g: "wk_GetNavigationItemImplAtIndex W (nat index) ?t = Some (Some (WkListed (nat index)), m1)"
    "only_fills W ?t m1" "wk_deref m1 (WkListed (nat index)) = Some y"
    using item_at_index_total [OF assms(1) t(1,2), of "nat index"] t(3,4) by (auto simp: ref_at_def)
  have m1: "wk_ok m1" "empty_window_open_item m1 = None"
    "wk_GetLastCommittedItemIndexInCurrentOrRestoredSession m1 \<noteq> - 1"
    using t only_fills_ok [OF g(2)] only_fills_fields [OF g(2)] only_fills_queries [OF g(2)] by simp_all
  obtain p m2 q m3 ua where p: "wk_GetPendingItem W m1 = Some (p, m2)"
    "(if p \<noteq> None then Some (p, m2) else wk_GetLastCommittedItem W m2) = Some (q, m3)"
    "user_agent_or_none q m3 = Some ua" "only_fills W m1 m3"
    using previous_agent_total [OF assms(1) m1] by blast
  have f: "only_fills W ?t m3" by (rule only_fills_trans [OF g(2) p(4)])
  let ?u = "if user_agent y \<noteq> UA_NONE \<and> user_agent y \<noteq> ua then wk_tell (Base WillChangeUserAgentType) m3 else m3"
  define d where "d = (if user_agent y \<noteq> UA_NONE \<and> user_agent y \<noteq> ua then [Base WillChangeUserAgentType] else [])"
  have d: "?u = m3\<lparr>wk_calls := wk_calls m3 @ d\<rparr>" by (simp add: d_def wk_tell_def)
  have u: "wk_ok ?u" "attached_to_web_view ?u" "empty_window_open_item ?u = None"
    "nat index < GetBackForwardListItemCount ?u"
    unfolding d using t only_fills_ok [OF f] only_fills_fields [OF f] only_fills_shape [OF f] by simp_all
  obtain m4 x where r: "only_fills W (wk_DiscardNonCommittedItems ?u) m4" "holder_at (nat index) m4 = Some x"
    "wk_FinishGoToIndex W index type gesture ?u =
      Some (wk_tell (Base (GoToBackForwardListItem (nat index) type gesture))
        (wk_store (WkListed (nat index))
          (SetTransitionType (or (transition_type x) (PAGE_TRANSITION_FORWARD_BACK W)) x) m4))"
    using FinishGoToIndex_attached [OF assms(1) u(1-3) assms(5) u(4)] by blast
  have "index < wk_GetItemCount m" using assms(4-6) by (simp add: wk_GetItemCount_def)
  then have run: "wk_GoToIndex W index type gesture m = wk_FinishGoToIndex W index type gesture ?u"
    unfolding wk_GoToIndex_def Let_def
    using assms(5) g(1,3) p(1-3) by (simp add: wk_GetItemAtIndex_def)
  have "only_fills W m (m3\<lparr>wk_calls := wk_calls m\<rparr>)"
    using f unfolding c by (rule only_fills_calls)
  moreover have "?u = m3\<lparr>wk_calls := wk_calls m, wk_calls := wk_calls m @ c @ d\<rparr>"
    unfolding d using only_fills_fields(14) [OF f] c by simp
  ultimately show ?thesis
    using r run
    by - (rule exI [of _ "c @ d"], rule exI [of _ "m3\<lparr>wk_calls := wk_calls m\<rparr>"], rule exI [of _ m4], rule exI [of _ x], simp)
qed

lemma stored_transition:
  assumes "holder_at i m = Some x"
  shows "holder_at j (wk_store (WkListed i) y m) = (if j = i then Some y else holder_at j m)"
  using assms by (auto simp: holder_at_def set_holder_def split: option.splits if_splits)

text \<open>
  C24. Going to an offset, in a manager that is attached to its web view, has no item of an empty window and has
  a last committed index. Whenever \<open>CanGoToOffset\<close> says so, going there returns: the web view is asked,
  as the last call, to go to the entry of exactly that index; pending and transient items are gone; the
  list is as before; the entry carries the \<open>FORWARD_BACK\<close> bit and is otherwise the one that was there,
  and no other entry has changed.
\<close>

theorem go_to_offset:
  assumes "is_empty W (empty_gurl (gl W))" "wk_ok m" "IsAttachedToWebView m" "empty_window_open_item m = None"
    "wk_CanGoToOffset offset m" "wk_GetLastCommittedItemIndexInCurrentOrRestoredSession m \<noteq> - 1"
  shows "\<exists>m' x. wk_GoToIndex W (wk_GetIndexForOffset offset m) type gesture m = Some m' \<and>
    last (wk_calls m') = Base (GoToBackForwardListItem (nat (wk_GetIndexForOffset offset m)) type gesture) \<and>
    pending_item m' = None \<and> pending_item_index m' = - 1 \<and> transient_item m' = None \<and>
    page_urls m' = page_urls m \<and>
    wk_deref m' (WkListed (nat (wk_GetIndexForOffset offset m))) =
      Some (SetTransitionType (or (transition_type x) (PAGE_TRANSITION_FORWARD_BACK W)) x) \<and>
    (case wk_deref m (WkListed (nat (wk_GetIndexForOffset offset m))) of
       Some y \<Rightarrow> x = y
     | None \<Rightarrow> page_item W (page_urls m) (page_titles m) (nat (wk_GetIndexForOffset offset m)) x) \<and>
    (\<forall>i y. i \<noteq> nat (wk_GetIndexForOffset offset m) \<and> wk_deref m (WkListed i) = Some y \<longrightarrow>
       wk_deref m' (WkListed i) = Some y)"
proof -
  let ?i = "nat (wk_GetIndexForOffset offset m)"
  have att: "attached_to_web_view m" using assms(3) by (simp add: IsAttachedToWebView_def)
  note b = CanGoToOffset_bounds [OF assms(5,4)]
  obtain calls m1 m2 x where g: "only_fills W m m1"
    "only_fills W (wk_DiscardNonCommittedItems (m1\<lparr>wk_calls := wk_calls m @ calls\<rparr>)) m2"
    "holder_at ?i m2 = Some x"
    "wk_GoToIndex W (wk_GetIndexForOffset offset m) type gesture m =
      Some (wk_tell (Base (GoToBackForwardListItem ?i type gesture))
        (wk_store (WkListed ?i)
          (SetTransitionType (or (transition_type x) (PAGE_TRANSITION_FORWARD_BACK W)) x) m2))"
    using GoToIndex_attached [OF assms(1,2) att assms(4) b(2,4) assms(6)] by blast
  let ?d = "wk_DiscardNonCommittedItems (m1\<lparr>wk_calls := wk_calls m @ calls\<rparr>)"
  let ?s = "wk_store (WkListed ?i) (SetTransitionType (or (transition_type x) (PAGE_TRANSITION_FORWARD_BACK W)) x) m2"
  have hd: "holder_at j ?d = holder_at j m1" "page_urls ?d = page_urls m1" "page_titles ?d = page_titles m1" for j
    by (simp_all add: holder_at_def wk_DiscardNonCommittedItems_def page_urls_def page_titles_def)
  have keep: "holder_at j m2 = Some y" if "holder_at j m = Some y" for j y
    using that only_fills_holder [OF g(1)] only_fills_holder [OF g(2)] hd(1) by simp
  have x: "case holder_at ?i m of Some y \<Rightarrow> x = y | None \<Rightarrow> page_item W (page_urls m) (page_titles m) ?i x"
  proof (cases "holder_at ?i m")
    case None
    then show ?thesis
      using g(3) hd only_fills_created [OF g(1), of ?i] only_fills_created [OF g(2), of ?i x]
        only_fills_holder [OF g(2), of ?i] only_fills_pages [OF g(1)]
      by (cases "holder_at ?i m1") auto
  qed (use keep g(3) in auto)
  have "page_urls ?s = page_urls m2"
  proof (cases "wk_proxy m2")
    case (Some v)
    with g(3) have "?i < length (wv_items v)" by (auto simp: holder_at_def split: if_splits)
    with Some show ?thesis by (simp add: page_urls_def set_holder_def map_set_slot)
  qed (simp add: page_urls_def)
  then have "page_urls ?s = page_urls m" using only_fills_pages [OF g(2)] only_fills_pages [OF g(1)] hd by simp
  moreover have "pending_item m2 = None" "pending_item_index m2 = - 1" "transient_item m2 = None"
    using only_fills_fields [OF g(2)] by (simp_all add: wk_DiscardNonCommittedItems_def)
  moreover have "holder_at j (wk_tell e ?s) = holder_at j ?s" "page_urls (wk_tell e ?s) = page_urls ?s" for e j
    by (simp_all add: wk_tell_def holder_at_def page_urls_def)
  ultimately show ?thesis
    using g(4) x keep stored_transition [OF g(3)]
    by - (rule exI, rule exI [of _ x], rule conjI [OF g(4)], simp add: wk_tell_def del: wk_store.simps, simp)
qed

theorem go_to_offset_witness:
  "\<exists>m'. wk_GoToIndex demo_web (wk_GetIndexForOffset (- 1) demo_wk) BROWSER_INITIATED True demo_wk = Some m' \<and>
    last (wk_calls m') = Base (GoToBackForwardListItem 0 BROWSER_INITIATED True)"
proof -
  have i: "wk_GetIndexForOffset (- 1) demo_wk = 0" "wk_CanGoToOffset (- 1) demo_wk" by code_simp+
  have "wk_GetLastCommittedItemIndexInCurrentOrRestoredSession demo_wk \<noteq> - 1"
    by (simp add: wk_GetLastCommittedItemIndexInCurrentOrRestoredSession_def demo_wk_facts)
  from go_to_offset [OF demo_web_empty demo_wk_facts(1,2,4) i(2) this, of BROWSER_INITIATED True]
  show ?thesis by (auto simp: i(1))
qed

section \<open>The manager behind the interface\<close>

text \<open>Attached to a well-formed list, with a last committed entry, and no restoration under way.\<close>

definition wk_settled :: "'u web_lib \<Rightarrow> 'u wk_manager \<Rightarrow> bool" where
  "wk_settled W m \<longleftrightarrow> is_empty W (empty_gurl (gl W)) \<and> wk_ok m \<and> attached_to_web_view m \<and>
     empty_window_open_item m = None \<and> \<not> is_restore_session_in_progress m \<and>
     (wk_GetItemCount m > 0 \<longrightarrow> wk_GetLastCommittedItemIndexInCurrentOrRestoredSession m \<noteq> - 1)"

interpretation wk_based_manager: navigation_manager "wk_settled W" wk_GetItemCount wk_GetIndexForOffset wk_CanGoToOffset
  "\<lambda>i. wk_GoToIndex W i type gesture" for W type gesture
proof unfold_locales
  show "wk_settled W m \<Longrightarrow> wk_CanGoToOffset k m \<longleftrightarrow> 0 \<le> wk_GetIndexForOffset k m \<and> wk_GetIndexForOffset k m < wk_GetItemCount m"
    for m k by (simp add: wk_settled_def wk_CanGoToOffset_def Let_def)
  show "\<exists>m'. wk_GoToIndex W i type gesture m = Some m'" if "wk_settled W m" "0 \<le> i" "i < wk_GetItemCount m" for m i
  proof -
    have "nat i < GetBackForwardListItemCount m" using that by (simp add: wk_settled_def wk_GetItemCount_def)
    with that GoToIndex_attached [of W m i type gesture] show ?thesis by (auto simp: wk_settled_def)
  qed
  show "wk_GoToIndex W i type gesture m = Some m' \<Longrightarrow> 0 \<le> i \<and> i < wk_GetItemCount m" for i m m'
    by (simp add: wk_GoToIndex_def bind_check split: if_splits)
qed

end
