(* ===== verification/Wk_Restore_Props.thy ===== *)
theory Wk_Restore_Props
  imports Wk_Props
begin

text \<open>
  Loading and restoring with \<open>WKBasedNavigationManagerImpl\<close>: the equations of the source for the
  functions that call each other, the load of the page that restores a session, and the properties of
  the restoration protocol from the start of a restoration to the loads that waited for its end.
\<close>

section \<open>The equations of the source\<close>

lemma wk_LoadURLWithParams_eq:
  "wk_LoadURLWithParams W params m =
     (if wk_IsRestoreSessionInProgress m \<and> \<not> IsRestoreSessionUrl (gl W) (p_url params)
      then wk_AddRestoreCompletionCallback W (LoadCallback (WebLoadParams_copy W params)) m
      else do {
        m \<leftarrow> wk_prepare_load W params m;
        wk_FinishLoadURLWithParams W (params_initiation params) m })"
proof -
  have r: "Option.bind (take_cached_and_pending m1) (\<lambda>(index, items, m).
          if \<not> restore_checks index items m then None
          else Option.bind (prepare_restore W m) (\<lambda>m.
            Option.bind (begin_unsafe_restore W index items m) (\<lambda>(params, first_title, m).
            Option.bind (wk_LoadURLWithParams W params m) (\<lambda>m.
            Option.bind (prime_title W first_title m) (\<lambda>m.
              if IsAttachedToWebView m then Some m else None))))) =
        do {
          (next_item_index, items, m) \<leftarrow> take_cached_and_pending m1;
          m \<leftarrow> wk_Restore W next_item_index items m;
          check (IsAttachedToWebView m);
          Some m }" for m1
  proof (cases "take_cached_and_pending m1")
    case (Some x)
    then obtain i items m2 where x: "take_cached_and_pending m1 = Some (i, items, m2)" by (cases x) auto
    then have "items \<noteq> []"
      by (auto simp: take_cached_and_pending_def ReleaseCachedItems_def Let_def bind_eq_Some_conv)
    then have "wk_Restore W i items m2 =
        (if \<not> restore_checks i items m2 then None
         else Option.bind (prepare_restore W m2) (wk_UnsafeRestore W i items))"
      by (simp add: wk_Restore_def bind_check)
    then show ?thesis unfolding x
      by (simp add: wk_UnsafeRestore_def bind_check case_prod_beta split: Option.bind_split)
  qed simp
  show ?thesis
    by (subst wk_LoadURLWithParams.simps)
       (simp add: wk_FinishLoadURLWithParams_def r defer_load_def wk_AddRestoreCompletionCallback_def
         wk_IsRestoreSessionInProgress_def bind_check split: Option.bind_split)
qed

section \<open>The load of the page that restores a session\<close>

lemma last_committed_empty:
  assumes "wk_ok m" "GetBackForwardListItemCount m = 0" "empty_window_open_item m = None" "pending_item_index m = - 1"
  shows "wk_GetLastCommittedItemInCurrentOrRestoredSession W m = Some (None, m)"
    "wk_GetLastCommittedItemWithUserAgentType W m = Some (None, m)"
  using assms current_index_bounds [OF assms(1)]
  by (simp_all add: wk_GetLastCommittedItemInCurrentOrRestoredSession_def wk_GetItemCount_def
      wk_GetLastCommittedItemIndexInCurrentOrRestoredSession_def wk_GetLastCommittedItemWithUserAgentType_def)

lemma reuse_current_item_empty:
  assumes "wk_ok m" "attached_to_web_view m" "GetBackForwardListItemCount m = 0"
  shows "reuse_current_item W item m = Some m"
proof (cases "wk_proxy m")
  case (Some v)
  then have "wv_index v = - 1"
    using assms by (auto simp: GetBackForwardListItemCount_ok wk_ok_def view_ok_def)
  with Some show ?thesis by (simp add: reuse_current_item_def itemAtOffset_def)
qed (simp add: reuse_current_item_def)

text \<open>A pending item added to an empty history, and its item.\<close>

definition new_item ::
  "'u web_lib \<Rightarrow> 'u web_load_params \<Rightarrow> 'u \<Rightarrow> 'u wk_manager \<Rightarrow> 'u navigation_item" where
  "new_item W params previous_url m =
     the (CreateNavigationItemWithRewriters W (IsPlaceholderUrl (gl W)) (p_url params) (p_referrer params)
       (p_transition_type params) (params_initiation params) previous_url (wk_transient_url_rewriters m)
       (wk_unique_id_counter m))"

lemma create_new_item:
  assumes "is_empty W (empty_gurl (gl W))"
  shows "CreateNavigationItemWithRewriters W (IsPlaceholderUrl (gl W)) (p_url params) (p_referrer params)
       (p_transition_type params) (params_initiation params) previous_url (wk_transient_url_rewriters m)
       (wk_unique_id_counter m) = Some (new_item W params previous_url m)"
proof -
  obtain x where "wk_CreateItem W (p_url params) (p_referrer params) (p_transition_type params)
      (params_initiation params) previous_url (wk_transient_url_rewriters m) m = Some x"
    using wk_CreateItem_total [OF assms] by blast
  then show ?thesis by (auto simp: wk_CreateItem_def new_item_def bind_eq_Some_conv)
qed

lemma AddPendingItem_empty:
  assumes "is_empty W (empty_gurl (gl W))" "wk_ok m" "attached_to_web_view m" "GetBackForwardListItemCount m = 0"
    "empty_window_open_item m = None"
  shows "wk_AddPendingItem W (p_url params) (p_referrer params) (p_transition_type params)
      (params_initiation params) UAO_INHERIT m =
    Some (m\<lparr>pending_item := Some (new_item W params (empty_gurl (gl W)) m), transient_item := None,
      pending_item_index := - 1, wk_unique_id_counter := wk_unique_id_counter m + 1,
      wk_transient_url_rewriters := []\<rparr>)"
proof -
  let ?d = "wk_DiscardNonCommittedItems m"
  let ?i = "new_item W params (empty_gurl (gl W)) m"
  let ?m = "?d\<lparr>wk_unique_id_counter := wk_unique_id_counter m + 1, pending_item := Some ?i,
    wk_transient_url_rewriters := []\<rparr>"
  note c = create_new_item [OF assms(1), of params "empty_gurl (gl W)" m]
  have d: "wk_ok ?d" "GetBackForwardListItemCount ?d = 0" "empty_window_open_item ?d = None"
    "pending_item_index ?d = - 1" "attached_to_web_view ?d"
    using assms by (simp_all add: wk_DiscardNonCommittedItems_def)
  have m: "wk_ok ?m" "GetBackForwardListItemCount ?m = 0" "empty_window_open_item ?m = None"
    "pending_item_index ?m = - 1" "attached_to_web_view ?m"
    using d by simp_all
  let ?m2 = "?d\<lparr>wk_unique_id_counter := wk_unique_id_counter m + 1, wk_transient_url_rewriters := [],
    pending_item := Some ?i\<rparr>"
  have eq: "?m2 = m\<lparr>pending_item := Some ?i, transient_item := None, pending_item_index := - 1,
      wk_unique_id_counter := wk_unique_id_counter m + 1, wk_transient_url_rewriters := []\<rparr>"
    by (simp add: wk_DiscardNonCommittedItems_def)
  have "user_agent ?i \<noteq> UA_DESKTOP" using created_item_fields(8) [OF c] by simp
  then have "wk_UpdatePendingItemUserAgentType W UAO_INHERIT None ?i = Some ?i"
    by (simp add: wk_UpdatePendingItemUserAgentType_def)
  moreover have "wk_CreateItem W (p_url params) (p_referrer params) (p_transition_type params)
      (params_initiation params) (empty_gurl (gl W)) (wk_transient_url_rewriters ?d) ?d =
      Some (?i, ?d\<lparr>wk_unique_id_counter := wk_unique_id_counter m + 1\<rparr>)"
    using c by (simp add: wk_CreateItem_def wk_DiscardNonCommittedItems_def GetUniqueIDInConstructor_def)
  moreover have "wk_ok ?m2" "GetBackForwardListItemCount ?m2 = 0" "attached_to_web_view ?m2"
    using d by simp_all
  from reuse_current_item_empty [OF this(1,3,2)] have "reuse_current_item W ?i ?m2 = Some ?m2" by blast
  ultimately show ?thesis
    unfolding eq [symmetric]
    using last_committed_empty(1) [OF d(1-4)] last_committed_empty(2) [OF m(1-4)] d(5)
    by (simp add: wk_AddPendingItem_def Let_def url_or_empty_def user_agent_of_def IsAttachedToWebView_def)
qed

definition load_calls :: "'u web_load_params \<Rightarrow> wk_delegate_call list" where
  "load_calls params = map Base [ClearTransientContent, RecordPageStateInNavigationItem,
     LoadCurrentItem (params_initiation params)]"

text \<open>A load, without headers, POST data or user agent of its own, into an empty history.\<close>

lemma load_into_empty:
  assumes "is_empty W (empty_gurl (gl W))" "wk_ok m" "attached_to_web_view m" "GetBackForwardListItemCount m = 0"
    "empty_window_open_item m = None" "is_restore_session_in_progress m \<longrightarrow> IsRestoreSessionUrl (gl W) (p_url params)"
    "and (p_transition_type params) (PAGE_TRANSITION_FORWARD_BACK W) = 0"
    "p_user_agent_override_option params = UAO_INHERIT" "p_extra_headers params = None" "p_post_data params = None"
  shows "wk_LoadURLWithParams W params m =
    Some (m\<lparr>pending_item := Some (mark_pending W params (empty_gurl (gl W)) (new_item W params (empty_gurl (gl W)) m)),
      transient_item := None, pending_item_index := - 1, wk_unique_id_counter := wk_unique_id_counter m + 1,
      wk_transient_url_rewriters := [], wk_calls := wk_calls m @ load_calls params\<rparr>)"
proof -
  let ?t = "wk_tell (Base RecordPageStateInNavigationItem) (wk_tell (Base ClearTransientContent) m)"
  let ?i = "new_item W params (empty_gurl (gl W)) m"
  let ?a = "?t\<lparr>pending_item := Some ?i, transient_item := None, pending_item_index := - 1,
    wk_unique_id_counter := wk_unique_id_counter m + 1, wk_transient_url_rewriters := []\<rparr>"
  let ?b = "?a\<lparr>pending_item := Some (mark_pending W params (empty_gurl (gl W)) ?i)\<rparr>"
  have n: "new_item W params (empty_gurl (gl W)) ?t = ?i" "wk_unique_id_counter ?t = wk_unique_id_counter m"
    "attached_to_web_view ?t" "empty_window_open_item ?t = None"
    using assms(3,5) by (simp_all add: new_item_def wk_tell_def)
  have "wk_AddPendingItem W (p_url params) (p_referrer params) (p_transition_type params)
      (params_initiation params) UAO_INHERIT ?t = Some ?a"
    using AddPendingItem_empty [OF assms(1) _ n(3) _ n(4), of params] assms(2,4) n(1,2) by simp
  moreover have "wk_GetLastCommittedItemInCurrentOrRestoredSession W ?a = Some (None, ?a)"
    by (rule last_committed_empty) (use assms(2,4) n(4) in simp_all)
  moreover have "wk_GetPendingItemInCurrentOrRestoredSession W ?a = Some (Some WkPending, ?a)"
    by (simp add: wk_GetPendingItemInCurrentOrRestoredSession_def)
  moreover have "wk_update WkPending (\<lambda>i. Some (mark_pending W params (empty_gurl (gl W)) i)) ?a = Some ?b"
    by (simp add: wk_update_def)
  moreover have "add_request_data params i = Some i" for i
    using assms(9,10) by (simp add: add_request_data_def)
  ultimately have "wk_prepare_load W params m = Some ?b"
    using assms(7,8)
    by (simp add: wk_prepare_load_def mark_pending_item_def wk_added_item_def virtual_url_or_empty_def wk_GetTransientItem_def wk_update_def)
  moreover have "attached_to_web_view ?b" using n(3) by simp
  moreover have c: "\<not> (is_restore_session_in_progress m \<and> \<not> IsRestoreSessionUrl (gl W) (p_url params))"
    using assms(6) by blast
  ultimately show ?thesis
    unfolding wk_LoadURLWithParams_eq wk_IsRestoreSessionInProgress_def if_not_P [OF c]
    by (simp add: wk_FinishLoadURLWithParams_def IsAttachedToWebView_def) (simp add: wk_tell_def load_calls_def)
qed

section \<open>Restoring into an empty history\<close>

text \<open>The parameters with which \<open>UnsafeRestore\<close> loads the page that restores a session.\<close>

definition restore_params :: "'u web_lib \<Rightarrow> 'u \<Rightarrow> 'u navigation_item list \<Rightarrow> 'u web_load_params" where
  "restore_params W url items = (WebLoadParams W url)\<lparr>p_transition_type := PAGE_TRANSITION_RELOAD W,
     p_virtual_url := GetVirtualURL W (RewriteItemURLIfNecessary W (hd items))\<rparr>"

lemma restore_params_fields:
  "p_url (restore_params W url items) = url" "p_user_agent_override_option (restore_params W url items) = UAO_INHERIT"
  "p_transition_type (restore_params W url items) = PAGE_TRANSITION_RELOAD W"
  "p_extra_headers (restore_params W url items) = None" "p_post_data (restore_params W url items) = None"
  "params_initiation (restore_params W url items) = BROWSER_INITIATED"
  by (simp_all add: restore_params_def WebLoadParams_def params_initiation_def)

text \<open>The URL that replays a session: its rewritten items, as the page of the source expects them.\<close>

definition session_url :: "'u web_lib \<Rightarrow> int \<Rightarrow> 'u navigation_item list \<Rightarrow> 'u option" where
  "session_url W index items = CreateRestoreSessionUrl (gl W) index
     (map (\<lambda>i. (item_url i, item_title i)) (map (RewriteItemURLIfNecessary W) items))"

lemma session_url_is_restore:
  assumes "ref_lib_ok (gl W)" "session_url W index items = Some url"
  shows "IsRestoreSessionUrl (gl W) url"
proof -
  from assms(2) obtain v where "url = replace_ref (gl W)
      (kRestoreSessionSessionHashPrefix @ escape_query_param_value (gl W) v) (GetRestoreSessionBaseUrl (gl W))"
    by (auto simp: session_url_def CreateRestoreSessionUrl_def bind_eq_Some_conv Let_def)
  then show ?thesis using internal_ref_url(1) [OF assms(1)] by blast
qed

text \<open>The state in which a restoration leaves the manager, over the state at its start.\<close>

definition restoring_state ::
  "'u web_lib \<Rightarrow> 'u \<Rightarrow> int \<Rightarrow> 'u navigation_item list \<Rightarrow> 'u wk_manager \<Rightarrow> 'u wk_manager" where
  "restoring_state W url index items m =
     (let params = restore_params W url items;
          first = RewriteItemURLIfNecessary W (hd items)
      in m\<lparr>is_restore_session_in_progress := True,
           restored_visible_item := Some (RewriteItemURLIfNecessary W (items ! nat index)),
           pending_item := Some (SetTitle (item_title first)
             (mark_pending W params (empty_gurl (gl W)) (new_item W params (empty_gurl (gl W)) m))),
           transient_item := None, pending_item_index := - 1,
           wk_unique_id_counter := wk_unique_id_counter m + 1, wk_transient_url_rewriters := [],
           wk_calls := wk_calls m @ load_calls params\<rparr>)"

lemma UnsafeRestore_into_empty:
  assumes "ref_lib_ok (gl W)" "is_empty W (empty_gurl (gl W))"
    "and (PAGE_TRANSITION_RELOAD W) (PAGE_TRANSITION_FORWARD_BACK W) = 0"
    "wk_ok m" "attached_to_web_view m" "GetBackForwardListItemCount m = 0" "empty_window_open_item m = None"
    "session_url W index items = Some url" "0 \<le> index" "index < int (length items)"
  shows "wk_UnsafeRestore W index items m = Some (restoring_state W url index items m)"
proof -
  let ?m = "m\<lparr>is_restore_session_in_progress := True,
    restored_visible_item := Some (RewriteItemURLIfNecessary W (items ! nat index))\<rparr>"
  let ?p = "restore_params W url items"
  have ne: "items \<noteq> []" using assms(9,10) by auto
  have h: "hd (map (RewriteItemURLIfNecessary W) items) = RewriteItemURLIfNecessary W (hd items)"
    using ne by (simp add: hd_map)
  have e: "elem_at (map (RewriteItemURLIfNecessary W) items) index = Some (RewriteItemURLIfNecessary W (items ! nat index))"
    using assms(9,10) by (simp add: elem_at_def in_range_def)
  have b: "begin_unsafe_restore W index items m =
      Some (?p, item_title (RewriteItemURLIfNecessary W (hd items)), ?m)"
    using assms(8,9) ne h e
    by (simp add: begin_unsafe_restore_def session_url_def Let_def restore_params_def)
  have n: "new_item W ?p (empty_gurl (gl W)) ?m = new_item W ?p (empty_gurl (gl W)) m" by (simp add: new_item_def)
  have "wk_LoadURLWithParams W ?p ?m = Some (?m\<lparr>pending_item :=
      Some (mark_pending W ?p (empty_gurl (gl W)) (new_item W ?p (empty_gurl (gl W)) m)),
      transient_item := None, pending_item_index := - 1, wk_unique_id_counter := wk_unique_id_counter m + 1,
      wk_transient_url_rewriters := [], wk_calls := wk_calls m @ load_calls ?p\<rparr>)"
    using load_into_empty [of W ?m ?p] assms n session_url_is_restore [OF assms(1,8)]
    by (simp add: restore_params_fields)
  with b show ?thesis
    by (simp add: wk_UnsafeRestore_def prime_title_def wk_GetPendingItemInCurrentOrRestoredSession_def
        wk_update_def restoring_state_def Let_def)
qed

section \<open>The web view is removed and the page loaded again\<close>

lemma restore_cached_spec:
  assumes "ref_lib_ok (gl W)" "is_empty W (empty_gurl (gl W))"
    "and (PAGE_TRANSITION_RELOAD W) (PAGE_TRANSITION_FORWARD_BACK W) = 0"
    "\<not> attached_to_web_view m" "wk_proxy m = None" "empty_window_open_item m = None"
    "\<not> is_restore_session_in_progress m" "0 \<le> index" "index < int (length (cached_items m))"
    "session_url W index (cached_items m) = Some url"
  shows "restore_cached W index m =
    Some (restoring_state W url index (cached_items m)
      (m\<lparr>cached_items := [], cached_current_item_index := - 1, attached_to_web_view := True,
         pending_item := None, transient_item := None, pending_item_index := - 1,
         previous_item_index := - 1, last_committed_item_index := - 1\<rparr>))"
proof -
  let ?n = "m\<lparr>cached_items := [], cached_current_item_index := - 1, attached_to_web_view := True,
         pending_item := None, transient_item := None, pending_item_index := - 1,
         previous_item_index := - 1, last_committed_item_index := - 1\<rparr>"
  have ne: "cached_items m \<noteq> []" using assms(8,9) by auto
  have n: "wk_ok ?n" "attached_to_web_view ?n" "GetBackForwardListItemCount ?n = 0" "empty_window_open_item ?n = None"
    using assms(5,6) by (simp_all add: wk_ok_def GetBackForwardListItemCount_def IsAttachedToWebView_def)
  let ?c = "m\<lparr>cached_items := []\<rparr>"
  have p: "prepare_restore W ?c = Some ?n"
    using assms(4-6) by (simp add: prepare_restore_def IsAttachedToWebView_def ResetToAttached_def wk_DiscardNonCommittedItems_def
        wk_GetItemCount_def GetBackForwardListItemCount_def)
  have "restore_checks index (cached_items m) ?c" using assms(7-9) ne by (simp add: restore_checks_def)
  then have "wk_Restore W index (cached_items m) ?c = Some (restoring_state W url index (cached_items m) ?n)"
    using UnsafeRestore_into_empty [OF assms(1-3) n assms(10,8,9)] p ne by (simp add: wk_Restore_def)
  moreover have "ReleaseCachedItems m = Some (cached_items m, ?c)"
    using assms(4) by (simp add: ReleaseCachedItems_def IsAttachedToWebView_def)
  moreover have "IsAttachedToWebView (restoring_state W url index (cached_items m) ?n)"
    by (simp add: restoring_state_def Let_def IsAttachedToWebView_def)
  ultimately show ?thesis unfolding restore_cached_def by (simp add: restoring_state_def)
qed

lemma removeWebView_spec:
  assumes "is_empty W (empty_gurl (gl W))" "wk_ok m" "attached_to_web_view m" "wk_proxy m \<noteq> None"
    "wk_removeWebView W m = Some m'"
  shows "\<not> attached_to_web_view m' \<and> wk_proxy m' = None \<and> cached_current_item_index m' = GetCurrentItemIndex m \<and>
    length (cached_items m') = GetBackForwardListItemCount m \<and>
    empty_window_open_item m' = empty_window_open_item m \<and>
    is_restore_session_in_progress m' = is_restore_session_in_progress m \<and>
    wk_transient_url_rewriters m' = wk_transient_url_rewriters m \<and> wk_calls m' = wk_calls m \<and>
    (\<forall>i < length (cached_items m'). \<exists>x. cached_items m' ! i = NavigationItemImpl_copy W x \<and>
       (case holder_at i m of
          Some y \<Rightarrow> x = y | None \<Rightarrow> page_item W (page_urls m) (page_titles m) i x))"
proof -
  obtain items m1 where d: "wk_DetachFromWebView W m =
      Some (m1\<lparr>cached_current_item_index := GetCurrentItemIndex m, cached_items := items,
        attached_to_web_view := False\<rparr>)" "only_fills W m m1" "length items = GetBackForwardListItemCount m"
      "\<forall>i < length items. \<exists>x. holder_at i m1 = Some x \<and> items ! i = NavigationItemImpl_copy W x"
    using detach_spec [OF assms(1-3)] by blast
  have m': "m' = m1\<lparr>cached_current_item_index := GetCurrentItemIndex m, cached_items := items,
        attached_to_web_view := False, wk_proxy := None\<rparr>"
    using d(1) assms(4,5) by (auto simp: wk_removeWebView_def)
  have "case holder_at i m of
          Some y \<Rightarrow> x = y | None \<Rightarrow> page_item W (page_urls m) (page_titles m) i x"
    if "holder_at i m1 = Some x" for i x
    using that only_fills_holder [OF d(2)] only_fills_created [OF d(2)] by (auto split: option.split)
  with d(3,4) m' only_fills_fields [OF d(2)] show ?thesis by force
qed

text \<open>
  C21. A crash is survived. When the web view of an attached manager with a non-empty history, without an
  empty window item and with no restoration under way, is removed (as after a crash of its process) and
  the page is asked for again, the manager attaches again and loads the page that replays the session it
  had, if \<open>CreateRestoreSessionUrl\<close> builds its URL; until then the visible item is the one that was current,
  copied. Without entries, or while a restoration is under way, the same calls fail a check (below). Of the
  URL library it needs that a reference of escaped text is kept by \<open>ReplaceComponents\<close> and changes neither the
  scheme nor the path of the restoration page.
\<close>

theorem removed_web_view_restored:
  assumes "ref_lib_ok (gl W)" "is_empty W (empty_gurl (gl W))"
    "and (PAGE_TRANSITION_RELOAD W) (PAGE_TRANSITION_FORWARD_BACK W) = 0"
    "wk_ok m" "IsAttachedToWebView m" "wk_proxy m \<noteq> None" "empty_window_open_item m = None"
    "\<not> wk_IsRestoreSessionInProgress m" "0 < wk_GetItemCount m"
    "wk_removeWebView W m = Some m1" "session_url W (GetCurrentItemIndex m) (cached_items m1) = Some url"
  shows "\<exists>m2 x p. wk_LoadIfNecessary W m1 = Some m2 \<and> IsAttachedToWebView m2 \<and> wk_IsRestoreSessionInProgress m2 \<and>
    pending_item m2 = Some p \<and>
    item_url p = loaded_url_for W (IsPlaceholderUrl (gl W)) url BROWSER_INITIATED (empty_gurl (gl W))
      (wk_transient_url_rewriters m) \<and>
    wk_calls m2 = wk_calls m @ map Base [ClearTransientContent, RecordPageStateInNavigationItem,
      LoadCurrentItem BROWSER_INITIATED] \<and>
    wk_GetVisibleItem W m2 = Some (Some WkRestored, m2) \<and>
    wk_deref m2 WkRestored = Some (RewriteItemURLIfNecessary W (NavigationItemImpl_copy W x)) \<and>
    (case holder_at (nat (GetCurrentItemIndex m)) m of
       Some y \<Rightarrow> x = y
     | None \<Rightarrow> page_item W (page_urls m) (page_titles m) (nat (GetCurrentItemIndex m)) x)"
proof -
  have att: "attached_to_web_view m" using assms(5) by (simp add: IsAttachedToWebView_def)
  note r = removeWebView_spec [OF assms(2,4) att assms(6,10)]
  have "0 < GetBackForwardListItemCount m" using assms(7,9) by (simp add: wk_GetItemCount_def)
  then have i: "0 \<le> GetCurrentItemIndex m" "GetCurrentItemIndex m < int (length (cached_items m1))"
    "nat (GetCurrentItemIndex m) < length (cached_items m1)"
    using current_index_bounds [OF assms(4)] r by linarith+
  then obtain x where x: "cached_items m1 ! nat (GetCurrentItemIndex m) = NavigationItemImpl_copy W x"
    "case holder_at (nat (GetCurrentItemIndex m)) m of
       Some y \<Rightarrow> x = y
     | None \<Rightarrow> page_item W (page_urls m) (page_titles m) (nat (GetCurrentItemIndex m)) x"
    using r by blast
  let ?n = "m1\<lparr>cached_items := [], cached_current_item_index := - 1, attached_to_web_view := True,
         pending_item := None, transient_item := None, pending_item_index := - 1,
         previous_item_index := - 1, last_committed_item_index := - 1\<rparr>"
  let ?p = "restore_params W url (cached_items m1)"
  let ?m2 = "restoring_state W url (GetCurrentItemIndex m) (cached_items m1) ?n"
  have "wk_LoadIfNecessary W m1 = Some ?m2"
    using restore_cached_spec [OF assms(1-3), of m1 "GetCurrentItemIndex m" url] r i assms(7,8,11)
    by (simp add: wk_LoadIfNecessary_def IsAttachedToWebView_def wk_IsRestoreSessionInProgress_def
        GetCurrentItemIndex_def)
  moreover have "item_url (new_item W ?p (empty_gurl (gl W)) ?n) =
      loaded_url_for W (IsPlaceholderUrl (gl W)) url BROWSER_INITIATED (empty_gurl (gl W)) (wk_transient_url_rewriters m)"
    using created_item_fields(1) [OF create_new_item [OF assms(2), of ?p "empty_gurl (gl W)" ?n]] r
    by (simp add: restore_params_fields)
  moreover have "item_url (SetTitle s (mark_pending W params u item)) = item_url item" for s params u item
    by (simp add: mark_pending_def item_defs Let_def)
  ultimately show ?thesis
    using x r
    by - (rule exI [of _ ?m2], rule exI [of _ x], rule exI [of _ "the (pending_item ?m2)"],
       simp add: restoring_state_def Let_def IsAttachedToWebView_def wk_IsRestoreSessionInProgress_def
         wk_GetVisibleItem_def load_calls_def restore_params_fields)
qed

lemma demo_transitions: "and (PAGE_TRANSITION_RELOAD demo_web) (PAGE_TRANSITION_FORWARD_BACK demo_web) = 0"
  by code_simp

lemma demo_web_lib_ok: "ref_lib_ok (gl demo_web)"
  using url_lib_okD(8) [OF demo_lib_ok] by (simp add: demo_web_def)

theorem removed_web_view_restored_witness:
  "\<exists>m1 m2. wk_removeWebView demo_web demo_wk = Some m1 \<and> wk_LoadIfNecessary demo_web m1 = Some m2 \<and>
    IsAttachedToWebView m2 \<and> wk_GetVisibleItem demo_web m2 = Some (Some WkRestored, m2)"
proof -
  have "Option.bind (wk_removeWebView demo_web demo_wk) (\<lambda>m1. session_url demo_web 1 (cached_items m1)) \<noteq> None"
    by code_simp
  then obtain m1 url where m1: "wk_removeWebView demo_web demo_wk = Some m1"
    and url: "session_url demo_web (GetCurrentItemIndex demo_wk) (cached_items m1) = Some url"
    by (cases "wk_removeWebView demo_web demo_wk") (auto simp: demo_wk_facts)
  have "wk_proxy demo_wk \<noteq> None" "0 < wk_GetItemCount demo_wk" by (simp_all add: demo_wk_facts)
  from removed_web_view_restored [OF demo_web_lib_ok demo_web_empty demo_transitions demo_wk_facts(1,2) this(1)
      demo_wk_facts(4,7) this(2) m1 url] m1
  show ?thesis by blast
qed

section \<open>Loads that wait for the end of a restoration\<close>

text \<open>What loading a page leaves alone.\<close>

definition keeps_restore_state :: "'u wk_manager \<Rightarrow> 'u wk_manager \<Rightarrow> bool" where
  "keeps_restore_state m m' \<longleftrightarrow> wk_ok m' \<and> attached_to_web_view m' = attached_to_web_view m \<and>
     is_restore_session_in_progress m' = is_restore_session_in_progress m \<and>
     restore_session_completion_callbacks m' = restore_session_completion_callbacks m \<and>
     wk_client_calls m' = wk_client_calls m"

lemma keeps_trans [trans]: "keeps_restore_state a b \<Longrightarrow> keeps_restore_state b c \<Longrightarrow> keeps_restore_state a c"
  by (simp add: keeps_restore_state_def)

lemma keeps_ok: "keeps_restore_state a b \<Longrightarrow> wk_ok b"
  by (simp add: keeps_restore_state_def)

lemma fills_keeps: "only_fills W m m' \<Longrightarrow> wk_ok m \<Longrightarrow> keeps_restore_state m m'"
  using only_fills_ok [of W m m'] only_fills_fields [of W m m'] by (simp add: keeps_restore_state_def)

lemma view_ok_set_holder [simp]: "view_ok (set_holder i item v) = view_ok v"
  by (simp add: view_ok_def set_holder_def)

lemma wk_store_keeps: "wk_ok m \<Longrightarrow> keeps_restore_state m (wk_store r item m)"
  by (cases r) (auto simp: keeps_restore_state_def wk_ok_def)

lemma wk_update_keeps: "wk_update r f m = Some m' \<Longrightarrow> wk_ok m \<Longrightarrow> keeps_restore_state m m'"
  by (auto simp: wk_update_def bind_eq_Some_conv wk_store_keeps)

lemma keeps_fields:
  assumes "wk_ok m"
  shows "keeps_restore_state m (m\<lparr>pending_item := p\<rparr>)" "keeps_restore_state m (m\<lparr>pending_item_index := i\<rparr>)"
    "keeps_restore_state m (m\<lparr>wk_transient_url_rewriters := rs\<rparr>)" "keeps_restore_state m (wk_tell e m)"
    "keeps_restore_state m (wk_DiscardNonCommittedItems m)"
    "keeps_restore_state m m"
  using assms by (simp_all add: keeps_restore_state_def wk_tell_def wk_DiscardNonCommittedItems_def)

lemma SetNavigationItemInWKItem_keeps:
  "SetNavigationItemInWKItem w item m = Some m' \<Longrightarrow> wk_ok m \<Longrightarrow> keeps_restore_state m m'"
  by (auto simp: SetNavigationItemInWKItem_def bind_eq_Some_conv keeps_restore_state_def wk_ok_def)

lemma reuse_current_item_keeps:
  assumes "reuse_current_item W item m = Some m'" "wk_ok m"
  shows "keeps_restore_state m m'"
proof -
  consider "m' = m" | w m1 where "m' = m1\<lparr>pending_item := None\<rparr>"
      "m1 = m\<lparr>pending_item_index := GetCurrentItemIndex m\<rparr> \<or>
       SetNavigationItemInWKItem w item (m\<lparr>pending_item_index := GetCurrentItemIndex m\<rparr>) = Some m1"
    using assms(1) unfolding reuse_current_item_def Let_def
    by (auto split: option.splits if_splits elim!: bind_SomeE) blast
  then show ?thesis
  proof cases
    case 2
    then have "keeps_restore_state m m1"
      using assms(2) keeps_fields(2) SetNavigationItemInWKItem_keeps keeps_trans wk_ok_fields(2) by metis
    with 2(1) keeps_fields(1) keeps_ok keeps_trans show ?thesis by blast
  qed (simp add: keeps_fields assms(2))
qed

lemma wk_AddPendingItem_keeps:
  assumes "wk_AddPendingItem W url ref t i o' m = Some m'" "wk_ok m"
  shows "keeps_restore_state m m'"
proof -
  let ?d = "wk_DiscardNonCommittedItems m"
  from assms(1) obtain c m1 prev item m2 q m3 inh item'
    where a: "wk_GetLastCommittedItemInCurrentOrRestoredSession W ?d = Some (c, m1)"
      "wk_CreateItem W url ref t i prev (wk_transient_url_rewriters m1) m1 = Some (item, m2)"
      "wk_GetLastCommittedItemWithUserAgentType W
         (m2\<lparr>pending_item := Some item, wk_transient_url_rewriters := []\<rparr>) = Some (q, m3)"
      and m': "m' = m3\<lparr>pending_item := Some item'\<rparr> \<or>
        reuse_current_item W item' (m3\<lparr>pending_item := Some item'\<rparr>) = Some m'"
    unfolding wk_AddPendingItem_def Let_def by (auto split: if_splits elim!: bind_SomeE) blast+
  have d: "keeps_restore_state m ?d" by (rule keeps_fields(5) [OF assms(2)])
  have "keeps_restore_state ?d m1"
    by (rule fills_keeps [OF wk_last_committed_fills [OF a(1) keeps_ok [OF d]] keeps_ok [OF d]])
  then have k1: "keeps_restore_state m m1" by (rule keeps_trans [OF d])
  have k2: "keeps_restore_state m m2"
    by (rule keeps_trans [OF k1 fills_keeps [OF wk_CreateItem_fills(1) [OF a(2)] keeps_ok [OF k1]]])
  have k3: "keeps_restore_state m (m2\<lparr>pending_item := Some item, wk_transient_url_rewriters := []\<rparr>)"
    using k2 by (simp add: keeps_restore_state_def)
  have k4: "keeps_restore_state m m3"
    by (rule keeps_trans [OF k3 fills_keeps [OF wk_GetLastCommittedItemWithUserAgentType_fills [OF a(3) keeps_ok [OF k3]]
          keeps_ok [OF k3]]])
  have k5: "keeps_restore_state m (m3\<lparr>pending_item := Some item'\<rparr>)"
    by (rule keeps_trans [OF k4 keeps_fields(1) [OF keeps_ok [OF k4]]])
  from m' show ?thesis
    using k5 keeps_trans [OF k5 reuse_current_item_keeps [OF _ keeps_ok [OF k5]]] by blast
qed

lemma mark_pending_item_keeps:
  assumes "mark_pending_item W params pending m = Some m'" "wk_ok m"
  shows "keeps_restore_state m m'"
proof (cases pending)
  case (Some r)
  with assms(1) obtain c m1 u where a: "wk_GetLastCommittedItemInCurrentOrRestoredSession W m = Some (c, m1)"
    "wk_update r (\<lambda>i. Some (mark_pending W params u i)) m1 = Some m'"
    by (auto simp: mark_pending_item_def elim!: bind_SomeE)
  have k: "keeps_restore_state m m1" by (rule fills_keeps [OF wk_last_committed_fills [OF a(1) assms(2)] assms(2)])
  show ?thesis by (rule keeps_trans [OF k wk_update_keeps [OF a(2) keeps_ok [OF k]]])
qed (use assms keeps_fields(6) in \<open>auto simp: mark_pending_item_def\<close>)

lemma wk_prepare_load_keeps:
  assumes "wk_prepare_load W params m = Some m'" "wk_ok m"
  shows "keeps_restore_state m m'"
proof -
  let ?t = "wk_tell (Base RecordPageStateInNavigationItem) (wk_tell (Base ClearTransientContent) m)"
  from assms(1) obtain m1 p m2 m3 added m4 r
    where a: "wk_AddPendingItem W (p_url params) (p_referrer params) (p_transition_type params)
            (params_initiation params) (p_user_agent_override_option params) ?t = Some m1"
      "wk_GetPendingItemInCurrentOrRestoredSession W m1 = Some (p, m2)"
      and b: "mark_pending_item W params p m2 = Some m3" and c: "wk_added_item W p m3 = Some (added, m4)"
      and d: "wk_update r (add_request_data params) m4 = Some m'"
    unfolding wk_prepare_load_def Let_def by (auto split: prod.splits elim!: bind_SomeE check_SomeE)
  have kt: "keeps_restore_state m ?t" using assms(2) by (simp add: keeps_restore_state_def wk_tell_def wk_ok_def)
  have k1: "keeps_restore_state m m1" by (rule keeps_trans [OF kt wk_AddPendingItem_keeps [OF a(1) keeps_ok [OF kt]]])
  have k2: "keeps_restore_state m m2"
    by (rule keeps_trans [OF k1 fills_keeps [OF wk_pending_fills [OF a(2) keeps_ok [OF k1]] keeps_ok [OF k1]]])
  have k3: "keeps_restore_state m m3"
    by (rule keeps_trans [OF k2 mark_pending_item_keeps [OF b keeps_ok [OF k2]]])
  have k4: "keeps_restore_state m m4"
    using c k3 keeps_trans [OF k3 fills_keeps [OF wk_last_committed_fills [OF _ keeps_ok [OF k3]] keeps_ok [OF k3]]]
    unfolding wk_added_item_def by (metis option.sel prod.inject)
  show ?thesis by (rule keeps_trans [OF k4 wk_update_keeps [OF d keeps_ok [OF k4]]])
qed

fun run_loads :: "'u web_lib \<Rightarrow> 'u web_load_params list \<Rightarrow> 'u wk_manager \<Rightarrow> 'u wk_manager option" where
  "run_loads W [] m = Some m"
| "run_loads W (p # ps) m = Option.bind (wk_LoadURLWithParams W p m) (run_loads W ps)"

lemma load_deferred:
  assumes "is_restore_session_in_progress m" "\<not> IsRestoreSessionUrl (gl W) (p_url p)"
  shows "wk_LoadURLWithParams W p m = Some (m\<lparr>restore_session_completion_callbacks :=
    restore_session_completion_callbacks m @ [LoadCallback (WebLoadParams_copy W p)]\<rparr>)"
  using assms
  by (simp add: wk_LoadURLWithParams_eq wk_IsRestoreSessionInProgress_def wk_AddRestoreCompletionCallback_def)

lemma loads_deferred:
  assumes "is_restore_session_in_progress m" "\<forall>p \<in> set ps. \<not> IsRestoreSessionUrl (gl W) (p_url p)"
  shows "run_loads W ps m = Some (m\<lparr>restore_session_completion_callbacks :=
    restore_session_completion_callbacks m @ map (\<lambda>p. LoadCallback (WebLoadParams_copy W p)) ps\<rparr>)"
  using assms by (induction ps arbitrary: m) (simp_all add: load_deferred)

lemma attached_load_keeps:
  assumes "wk_LoadURLWithParams W p m = Some m'" "wk_ok m" "attached_to_web_view m"
    "\<not> is_restore_session_in_progress m"
  shows "keeps_restore_state m m'"
proof -
  from assms(1,4) obtain m1 where m1: "wk_prepare_load W p m = Some m1"
    "wk_FinishLoadURLWithParams W (params_initiation p) m1 = Some m'"
    by (auto simp: wk_LoadURLWithParams_eq wk_IsRestoreSessionInProgress_def elim!: bind_SomeE)
  have k: "keeps_restore_state m m1" by (rule wk_prepare_load_keeps [OF m1(1) assms(2)])
  then have "m' = wk_tell (Base (LoadCurrentItem (params_initiation p))) m1"
    using m1(2) assms(3) by (simp add: wk_FinishLoadURLWithParams_def IsAttachedToWebView_def keeps_restore_state_def)
  with k keeps_trans keeps_fields(4) keeps_ok show ?thesis by blast
qed

lemma run_load_callbacks:
  assumes "wk_ok m" "attached_to_web_view m" "\<not> is_restore_session_in_progress m"
  shows "run_callbacks W (map LoadCallback ps) m = run_loads W ps m"
    "run_loads W ps m = Some m' \<Longrightarrow> keeps_restore_state m m'"
  using assms
proof (induction ps arbitrary: m)
  case (Cons p ps)
  { case 1
    show ?case
    proof (cases "wk_LoadURLWithParams W p m")
      case (Some m1)
      have k: "keeps_restore_state m m1" using attached_load_keeps [OF Some] 1 by blast
      with Some Cons.IH(1) [of m1] 1 show ?thesis by (simp add: run_callback_def keeps_restore_state_def)
    qed (simp add: run_callback_def)
  next
    case 2
    then obtain m1 where m1: "wk_LoadURLWithParams W p m = Some m1" "run_loads W ps m1 = Some m'"
      by (auto elim: bind_SomeE)
    have k: "keeps_restore_state m m1" using attached_load_keeps [OF m1(1)] 2 by blast
    have "keeps_restore_state m1 m'" by (rule Cons.IH(2) [OF m1(2)]) (use k 2 in \<open>simp_all add: keeps_restore_state_def\<close>)
    with k show ?case by (rule keeps_trans) }
qed (simp_all add: keeps_fields)

text \<open>
  C22. Loads wait for the restoration. While a session is being restored, a sequence of loads changes nothing
  but the queue of callbacks. When the restored page starts its own navigation, exactly these loads run,
  in the order in which they were asked for, from the state in which the restoration is over; then the
  queue is empty and the delegate is asked to load what is necessary. (The loads that run lose the
  virtual URL of their parameters, which the copy for the callback does not have.)
\<close>

theorem deferred_loads_run_in_order:
  assumes "wk_ok m" "IsAttachedToWebView m" "wk_IsRestoreSessionInProgress m"
    "restore_session_completion_callbacks m = []"
    "\<forall>p \<in> set ps. \<not> IsRestoreSessionUrl (gl W) (p_url p)" "\<not> IsRestoreSessionUrl (gl W) url"
  shows "\<exists>m1. run_loads W ps m = Some m1 \<and>
    m1 = m\<lparr>restore_session_completion_callbacks := map (\<lambda>p. LoadCallback (WebLoadParams_copy W p)) ps\<rparr> \<and>
    wk_OnRendererInitiatedNavigationStarted W url m1 = do {
      m2 \<leftarrow> run_loads W (map (WebLoadParams_copy W) ps) (m1\<lparr>is_restore_session_in_progress := False\<rparr>);
      Some (wk_tell (Base LoadIfNecessary) (m2\<lparr>restore_session_completion_callbacks := []\<rparr>)) }"
proof -
  let ?m1 = "m\<lparr>restore_session_completion_callbacks := map (\<lambda>p. LoadCallback (WebLoadParams_copy W p)) ps\<rparr>"
  let ?m0 = "?m1\<lparr>is_restore_session_in_progress := False\<rparr>"
  have "run_loads W ps m = Some ?m1"
    using loads_deferred [of m ps W] assms(3-5) by (simp add: wk_IsRestoreSessionInProgress_def)
  moreover have ok: "wk_ok ?m0" "attached_to_web_view ?m0" "\<not> is_restore_session_in_progress ?m0"
    using assms(1,2) by (simp_all add: IsAttachedToWebView_def)
  have q: "restore_session_completion_callbacks ?m0 = map LoadCallback (map (WebLoadParams_copy W) ps)" by simp
  have "wk_OnRendererInitiatedNavigationStarted W url ?m1 = do {
      m2 \<leftarrow> run_loads W (map (WebLoadParams_copy W) ps) ?m0;
      Some (wk_tell (Base LoadIfNecessary) (m2\<lparr>restore_session_completion_callbacks := []\<rparr>)) }"
  proof (cases "run_loads W (map (WebLoadParams_copy W) ps) ?m0")
    case None
    then show ?thesis
      using run_load_callbacks(1) [OF ok, of W "map (WebLoadParams_copy W) ps"] assms(3,6)
      by (simp add: wk_OnRendererInitiatedNavigationStarted_def wk_IsRestoreSessionInProgress_def comp_def)
  next
    case (Some m2)
    then have "attached_to_web_view m2"
      using run_load_callbacks(2) [OF ok Some] ok(2) by (simp add: keeps_restore_state_def)
    then show ?thesis
      using run_load_callbacks(1) [OF ok, of W "map (WebLoadParams_copy W) ps"] assms(3,6) Some
      by (simp add: wk_OnRendererInitiatedNavigationStarted_def wk_IsRestoreSessionInProgress_def
          wk_LoadIfNecessary_def IsAttachedToWebView_def comp_def)
  qed
  ultimately show ?thesis by blast
qed

theorem deferred_loads_run_in_order_witness:
  "\<exists>m1 m2. run_loads demo_web [WebLoadParams demo_web (Demo_URL ''http'' ''d.com'' [] []),
        WebLoadParams demo_web (Demo_URL ''http'' ''e.com'' [] [])]
      (demo_wk\<lparr>is_restore_session_in_progress := True\<rparr>) = Some m1 \<and> wk_calls m1 = [] \<and>
    wk_OnRendererInitiatedNavigationStarted demo_web (Demo_URL ''http'' ''b.com'' [] []) m1 = Some m2 \<and>
    map_option item_url (pending_item m2) = Some (Demo_URL ''http'' ''e.com'' [] [])"
proof -
  let ?ps = "[WebLoadParams demo_web (Demo_URL ''http'' ''d.com'' [] []),
    WebLoadParams demo_web (Demo_URL ''http'' ''e.com'' [] [])]"
  let ?m = "demo_wk\<lparr>is_restore_session_in_progress := True\<rparr>"
  let ?q = "?m\<lparr>restore_session_completion_callbacks := map (\<lambda>p. LoadCallback (WebLoadParams_copy demo_web p)) ?ps\<rparr>"
  have "wk_ok ?m" "IsAttachedToWebView ?m" "wk_IsRestoreSessionInProgress ?m" "restore_session_completion_callbacks ?m = []"
    using demo_wk_facts
    by (simp_all add: IsAttachedToWebView_def wk_IsRestoreSessionInProgress_def)
       (simp add: demo_wk_def new_WKBasedNavigationManagerImpl_def)
  moreover have "\<forall>p \<in> set ?ps. \<not> IsRestoreSessionUrl (gl demo_web) (p_url p)"
    "\<not> IsRestoreSessionUrl (gl demo_web) (Demo_URL ''http'' ''b.com'' [] [])" by code_simp+
  ultimately have r: "run_loads demo_web ?ps ?m = Some ?q"
    "wk_OnRendererInitiatedNavigationStarted demo_web (Demo_URL ''http'' ''b.com'' [] []) ?q = do {
      m2 \<leftarrow> run_loads demo_web (map (WebLoadParams_copy demo_web) ?ps) (?q\<lparr>is_restore_session_in_progress := False\<rparr>);
      Some (wk_tell (Base LoadIfNecessary) (m2\<lparr>restore_session_completion_callbacks := []\<rparr>)) }"
    using deferred_loads_run_in_order [of ?m ?ps demo_web "Demo_URL ''http'' ''b.com'' [] []"] by blast+
  have "map_option (\<lambda>m. map_option item_url (pending_item m))
      (run_loads demo_web (map (WebLoadParams_copy demo_web) ?ps) (?q\<lparr>is_restore_session_in_progress := False\<rparr>)) =
      Some (Some (Demo_URL ''http'' ''e.com'' [] []))"
    by code_simp
  then obtain m2 where "run_loads demo_web (map (WebLoadParams_copy demo_web) ?ps)
      (?q\<lparr>is_restore_session_in_progress := False\<rparr>) = Some m2"
    "map_option item_url (pending_item m2) = Some (Demo_URL ''http'' ''e.com'' [] [])" by auto
  moreover have "wk_calls ?q = []" by (simp add: demo_wk_def new_WKBasedNavigationManagerImpl_def)
  ultimately show ?thesis using r by (auto simp: wk_tell_def)
qed

section \<open>Where the code departs from its comments\<close>

text \<open>
  With an empty \<open>window.open\<close> entry the accessors are said to behave as with a single normal entry, but
  that entry, the current one, is also in the list of forward items.
\<close>

lemma forward_items_of_empty_window:
  assumes "empty_window_open_item m \<noteq> None" "\<not> is_restore_session_in_progress m" "IsAttachedToWebView m"
    "wk_proxy m = Some v" "wv_index v = - 1"
  shows "wk_GetForwardItems W m = Some ([Some WkEmptyWindow], m)"
  using assms
  by (simp add: wk_GetForwardItems_def GetCurrentItemIndex_def wk_GetItemCount_def wk_GetItemAtIndex_def
      wk_GetNavigationItemImplAtIndex_def)

text \<open>\<open>GetIndexOfItem\<close> finds a null pointer at index 0 when there is no empty \<open>window.open\<close> entry.\<close>

lemma null_item_has_index: "empty_window_open_item m = None \<Longrightarrow> wk_GetIndexOfItem None m = Some 0"
  by (simp add: wk_GetIndexOfItem_def)

text \<open>
  \<open>Restore\<close> into a history with entries asks the delegate to remove the web view; that detaches the
  manager, whose cache still has the entries, and the check that the history is now empty fails.
\<close>

lemma restore_over_history_stops:
  assumes "is_empty W (empty_gurl (gl W))" "wk_ok m" "IsAttachedToWebView m" "empty_window_open_item m = None"
    "0 < wk_GetItemCount m" "items \<noteq> []"
  shows "wk_Restore W index items m = None"
proof -
  let ?t = "wk_tell (Base RemoveWebView) (wk_DiscardNonCommittedItems m)"
  have n: "0 < GetBackForwardListItemCount m" "attached_to_web_view m"
    using assms(3-5) by (simp_all add: wk_GetItemCount_def IsAttachedToWebView_def)
  have t: "wk_ok ?t" "attached_to_web_view ?t" "wk_proxy ?t \<noteq> None" "GetBackForwardListItemCount ?t = GetBackForwardListItemCount m"
    "empty_window_open_item ?t = None"
    using assms(2,4) n by (auto simp: wk_tell_def wk_DiscardNonCommittedItems_def GetBackForwardListItemCount_ok split: option.splits)
  have "wk_GetItemCount m' \<noteq> 0" if "wk_removeWebView W ?t = Some m'" for m'
    using removeWebView_spec [OF assms(1) t(1-3) that] t(4,5) n(1)
    by (simp add: wk_GetItemCount_def GetBackForwardListItemCount_def IsAttachedToWebView_def)
  moreover have "wk_GetItemCount (wk_DiscardNonCommittedItems m) > 0"
    using assms(4) n by (simp add: wk_GetItemCount_def wk_DiscardNonCommittedItems_def)
  ultimately have "prepare_restore W m = None"
    using assms(3) by (cases "wk_removeWebView W ?t") (auto simp: prepare_restore_def bind_check)
  with assms(6) show ?thesis by (simp add: wk_Restore_def bind_check)
qed

text \<open>
  A web view that is removed while a session is being restored (a crash of its process) leaves the
  restoration in progress, and the next attempt to load fails the check of \<open>Restore\<close>.
\<close>

lemma crash_while_restoring_stops:
  assumes "is_empty W (empty_gurl (gl W))" "wk_ok m" "IsAttachedToWebView m" "wk_proxy m \<noteq> None"
    "is_restore_session_in_progress m" "wk_removeWebView W m = Some m'"
  shows "wk_LoadIfNecessary W m' = None"
proof -
  have "\<not> attached_to_web_view m'" "is_restore_session_in_progress m'"
    using removeWebView_spec [OF assms(1,2) _ assms(4,6)] assms(3,5) by (simp_all add: IsAttachedToWebView_def)
  then show ?thesis
    by (simp add: wk_LoadIfNecessary_def restore_cached_def ReleaseCachedItems_def wk_Restore_def restore_checks_def
        IsAttachedToWebView_def)
qed

text \<open>
  Detached without any entry, \<open>LoadIfNecessary\<close> restores nothing: \<open>Restore\<close> returns at once, the
  manager stays detached, and the check that follows fails.
\<close>

lemma load_if_necessary_without_entries_stops:
  assumes "\<not> IsAttachedToWebView m" "cached_items m = []"
  shows "wk_LoadIfNecessary W m = None" "wk_FinishReload W m = None"
  using assms
  by (auto simp: wk_LoadIfNecessary_def wk_FinishReload_def restore_cached_def ReleaseCachedItems_def wk_Restore_def
      IsAttachedToWebView_def bind_check)

text \<open>Committing an item does not end a restoration; the start of a renderer-initiated navigation does.\<close>

lemma commit_does_not_end_restoration:
  assumes "wk_OnNavigationItemCommitted W m = Some m'" "wk_ok m"
  shows "is_restore_session_in_progress m' = is_restore_session_in_progress m"
proof -
  from assms(1) obtain r m1 where l: "wk_GetLastCommittedItemInCurrentOrRestoredSession W m = Some (Some r, m1)"
    and m': "is_restore_session_in_progress m' = is_restore_session_in_progress m1"
    by (auto simp: wk_OnNavigationItemCommitted_def wk_tell_def Let_def bind_eq_Some_conv split: if_splits)
  from only_fills_fields(10) [OF wk_last_committed_fills [OF l assms(2)]] m' show ?thesis by simp
qed

end
