(* ===== verification/Spec2Isabelle.thy ===== *)
theory Spec2Isabelle
  imports Session_Storage Offline_Pages Reading_List_Props Cert_Policy Cache_Counter Cookie_Cache
    X_Callback_Url Chunked_Uploader Sync_Setup Page_Info User_Action_Recorder Browser_State_Manager
    Url_Data_Manager Tab_Model_Props Bookmarks Search_Engines Download_Controller
    Notification_Promo Wk_Restore_Props
begin

text \<open>
  \<^bold>\<open>Chrome for iOS: tabs, session history, offline pages and the services around them.\<close>

  The repository is the iOS port of Chromium: \<open>web/\<close> wraps the system web view and keeps the session
  history of a tab, \<open>net/\<close> adapts the network stack, and \<open>chrome/\<close> is the browser built on both. This
  development models the parts of it whose behaviour is decided by its own code. A window is a
  \<open>WebStateList\<close> of tabs; each tab has a navigation manager, the legacy one with a \<open>CRWSessionController\<close>
  or the one over the back-forward list of the web view, whose items carry an error machine, a
  display state and a referrer; a window and its tabs are saved to and
  restored from archives. Beside them stand the reading list, which downloads pages for offline use
  through a queue, and services with state of their own: threads, certificate decisions, cookies,
  uploads, synchronisation settings, promotions and metrics.

  \<^bold>\<open>Conventions.\<close> Paths are relative to \<open>src/\<close>; definitions keep the names of the source, with a prefix
  where two classes share one (\<open>sub_\<close>, \<open>runner_\<close>, \<open>sc_\<close>, \<open>info_\<close>). A class is a record of its members, an
  operation maps the record to the updated one, and events (callbacks, posted tasks, notifications,
  user actions) are datatypes with one step function per component; an interleaving is a sequence of
  events. A failed \<open>DCHECK\<close>, \<open>CHECK\<close> or \<open>NOTREACHED\<close>, a null or dangling pointer and an index out of
  range are \<open>None\<close>, so that a result \<open>Some\<close> says that no assertion failed. Observers and delegates
  are recorded as lists of the calls made to them and do not call back. Histograms are lists of
  samples where a property needs them and are left out elsewhere.

  Code outside the repository is a parameter, grouped in records: \<open>gurl_lib\<close>, \<open>web_lib\<close> and \<open>xc_lib\<close>
  (URLs), \<open>x509_lib\<close> (certificates), \<open>offline_lib\<close> and \<open>file_lib\<close> (paths, hashing, files), \<open>rl_model_lib\<close>
  (the reading list model), \<open>sync_lib\<close> (the sync service), \<open>page_info_lib\<close> (texts), \<open>path_lib\<close>,
  \<open>promo_lib\<close>, \<open>source_lib\<close> (data sources), \<open>session_lib\<close> (files and archiver),
  \<open>template_lib\<close> (the search engine service), \<open>download_lib\<close> (net errors, data URLs). What a theorem needs of them is a named hypothesis, and its witness instantiates the record with
  concrete functions: \<open>url_lib_ok\<close> (escaping of printable text comes back; a fragment of unreserved and
  escaped characters is kept, which alone is \<open>ref_lib_ok\<close>), \<open>model_ok\<close> (the states and counters of reading
  list entries), \<open>offline_url_lib_ok\<close> and others.

  \<^bold>\<open>Shared theories.\<close>
  \<^item> \<open>Prelude\<close>: assertion checks in the option monad, vectors with signed indices, index searches, and
    the interface \<open>nscoding\<close> of everything that is written and read back (interpreted for items,
    display states, certificates, certificate caches, sessions, user agents and task traits).
  \<^item> \<open>Event_Machine\<close>: \<open>event_machine\<close> (allowed events never fail and keep an invariant, so runs do) and
    \<open>request_machine\<close> (nothing is pending that no event asked for), interpreted for the uploader, the
    recorder of user actions, the data sources, the browser states, the session service, the tab model, the
    downloads and their controller, and the downloader of the reading list.
  \<^item> \<open>Ordered_Container\<close>: \<open>std::set\<close> with a comparator as the interface \<open>comparator\<close>, interpreted for
    both cookie orders and for pairs of certificate and host.
  \<^item> \<open>Navigation_Interface\<close>: what a toolbar relies on of \<open>web/public/navigation_manager.h\<close>, the interface
    \<open>navigation_manager\<close>, interpreted for both navigation managers.

  \<^bold>\<open>The tab strip\<close> (\<open>chrome/browser/web_state_list\<close>). \<open>Web_State_List\<close> has every operation of the list, its
  openers and the order controller; \<open>Web_State_List_Laws\<close> an abstract tab strip, the interface
  \<open>order_controller\<close> and the laws; \<open>Web_State_List_Props\<close> the invariant of reachable lists and of their
  notifications (an opener may be the tab itself, as nothing checks it; \<open>wsl_invp\<close> takes whether that is
  excluded, and \<open>self_opener_stops\<close> shows what it leads to), refinement of the abstract strip by insertion, move, detachment and replacement,
  termination of \<open>CloseAllWebStates\<close>, placement of opened tabs, and the defect that the next active tab is
  always the first one when the closed tab has a later child or sibling. \<open>Session_Serialization\<close> saves and
  restores a window (round trip into any list). \<open>Session_Service\<close> (\<open>chrome/browser/sessions\<close>): saving at once
  and after a delay, over every order of saves, timers, file tasks and deletions; no check fails, and
  which delayed saves are written and which are starved. \<open>Tab_Model\<close> and \<open>Tab_Model_Props\<close>
  (\<open>chrome/browser/tabs/tab_model.mm\<close>): the operations of a window on the list and on the service; a saved
  window comes back after a restart.

  \<^bold>\<open>Navigation\<close> (\<open>web/navigation\<close>, \<open>web/public\<close>). \<open>Wk_Navigation_Util\<close>: internal URLs and the bounds of a
  restored session (at most \<open>kMaxSessionSize\<close> = 75 items, one past the end in one case). \<open>Error_Retry\<close>:
  the state machine of failed loads (a reload only after a rewrite; recovery). \<open>Web_Util\<close>: referrers,
  user agents, rewriters, the time smoother. \<open>Page_Display_State\<close> and \<open>Navigation_Item\<close>: the data of
  an item with its title cache and archive. \<open>Session_Controller\<close> and \<open>Navigation_Manager\<close>: the history
  and the interface of the legacy navigation manager; \<open>Navigation_Laws\<close> and \<open>Navigation_Props\<close> show the index
  invariant (\<open>nav_run\<close> over all operations; the index of the previous item is in range when the unchecked
  \<open>SetPreviousItemIndex\<close> is given one that is), that pointers handed out are live, what the visible URL is while a load of
  the renderer has not committed, commits, merging of histories, removal, offsets and \<open>GoToIndex\<close>. Offsets are added in 32 bits.
  \<open>Session_Storage\<close>: the archive of a tab, certificate decisions included.

  \<^bold>\<open>Navigation over the web view\<close> (\<open>web/navigation/wk_based_navigation_manager_impl.{h,mm}\<close>, with the
  functions it inherits from \<open>navigation_manager_impl.mm\<close>). \<open>Wk_Web_View\<close>: the back-forward list of the web
  view as the manager sees it (pages with URL, title and possibly a navigation item, and the position
  of the current one), the cache that replaces it when the web view is gone, and the getters that
  create missing items. \<open>Wk_Navigation_Manager\<close>: queries, pending, transient and committed items.
  \<open>Wk_Restore\<close>: loading, restoring, going back and forward, and the callbacks that wait for the end of a
  restoration; the web view is removed as \<open>-removeWebView\<close> of \<open>CRWWebController\<close> does it. \<open>Wk_Laws\<close>: what a getter
  may change, and that getters return on well-formed states. \<open>Wk_Props\<close>: getters only fill, what may be
  shown, the history outlives the web view, commits, going to an offset. \<open>Wk_Restore_Props\<close>: a removed web view
  is restored, and loads wait for the restoration and then run in order; at its end the places where
  the code departs from its comments. The web view itself is the system's: its list is part of the
  state and is not changed by the manager except for the items attached to it; the delegate calls that
  ask it to load or to move are recorded.

  \<^bold>\<open>Reading list\<close> (\<open>chrome/browser/reading_list\<close>). \<open>Distiller_Viewer\<close> and \<open>Url_Downloader\<close>: the queue of
  downloads and deletions with its posted work, replies and page callbacks; \<open>Url_Downloader_Props\<close>
  shows, over every interleaving, that one task is under way at a time, the refinement of a queue,
  and that deletions of a URL precede its download; also what a cancelled task leaves behind. \<open>Offline_Pages\<close>
  replaces image references by a loop that is a \<open>partial_function\<close> (\<open>None\<close> is not returning): it
  returns for non-empty URLs and computes the replacements. \<open>Offline_Url\<close>: the URLs of saved pages.
  \<open>Reading_List_Service\<close> and \<open>Reading_List_Props\<close>: scheduling, the bound of seven attempts over every sequence of steps of service and downloader,
  synchronisation with the model, and the removal of all entries.

  \<^bold>\<open>Services.\<close> \<open>Web_Thread\<close> (\<open>web/web_thread_impl.cc\<close>, \<open>web_sub_thread.cc\<close>, \<open>public/web_task_traits.h\<close>): the
  table of well-known threads and posting; \<open>Cert_Policy\<close> (\<open>web/net\<close>): decisions about certificates, as
  32-bit status words, on the IO thread of \<open>Web_Thread\<close>; \<open>Cache_Counter\<close>: the loop that counts the HTTP
  cache, which ends and reports once; \<open>Cookie_Cache\<close> (\<open>net/cookies\<close>): the difference an update reports;
  \<open>Chunked_Uploader\<close> (\<open>net\<close>): every read is answered once; \<open>X_Callback_Url\<close>: parameters of
  x-callback-urls survive; \<open>Sync_Setup\<close>: when \<open>SetSyncEnabled\<close> returns, and that its mutual recursion does
  not end when sync cannot start and no type is preferred; \<open>Page_Info\<close>: the good icon only for a secure
  page; \<open>User_Action_Recorder\<close>: one first action; \<open>Browser_State_Info\<close>: sorted keys and preference agree;
  \<open>Browser_State_Manager\<close> on top of it: the entries of the loaded browser states follow their accounts;
  \<open>Url_Data_Manager\<close> (\<open>web/webui\<close>): a data source shared by two threads is deleted once and not while it is
  referenced, up to the race that the test in \<open>SendResponse\<close> misses; \<open>Notification_Promo\<close>: views and dismissal across sessions; \<open>Bookmarks\<close>: the folder of a node
  is found in finitely many steps, and removal answers once; \<open>Search_Engines\<close>: the engines of a new country.

  \<^bold>\<open>Downloads\<close> (\<open>web/download\<close>). \<open>Download_Task\<close>: a download, the delegate of its URL session, and the translation
  of error codes; \<open>Download_Task_Props\<close>: over every order of the queue of the delegate, the UI thread, the writer
  and the client, the bytes of a download that is started once reach its writer in order and before it is
  finished; and what a cancelled or restarted download does instead. \<open>Download_Controller\<close>: the set of
  alive tasks is exact whatever the tasks do, and tasks may outlive the controller. The percentage is the integer quotient, which the computation in
  \<open>double\<close> gives for files below \<open>2 ^ 46\<close> bytes.

  \<^bold>\<open>Fuel and bounds.\<close> No definition takes fuel. Loops are structural, have a measure (the cache
  counter), or are partial functions whose returning is proved; \<open>None\<close> as not returning occurs in
  \<open>replace_loop\<close>, \<open>CloseAllWebStates\<close>, \<open>climb\<close>, \<open>SetSyncEnabled\<close> and \<open>wk_LoadURLWithParams\<close> only. The last one calls
  itself at most once more, because a restoration attaches the manager again.

  \<^bold>\<open>Not modelled.\<close> View controllers, coordinators and the app delegate
  are callbacks of UIKit; service factories, flags, preference names and WebUI handlers are tables
  and glue; payments, autofill, passwords and sign-in drive components outside the repository;
  tests, the showcase, build scripts, strings and page scripts are left aside. Within modelled
  components: debug descriptions, log messages, the constructor of \<open>DistillerViewer\<close> that goes through
  the distiller service, the device user agent string, and \<open>Run\<close> of a sub thread, which forwards to
  base.
\<close>

section \<open>Both navigation managers behind one interface\<close>

text \<open>
  C25. The buttons tell the truth. For both navigation managers, in every settled state, \<open>CanGoBack\<close> and
  \<open>CanGoForward\<close> say yes exactly when \<open>GoBack\<close> and \<open>GoForward\<close> return without a failed assertion. Settled is,
  for the legacy manager, a history with the index invariant and valid URLs, and for the other one a manager attached to a
  well-formed list, with a last committed entry where there are any, no empty window and no restoration under way.
\<close>

theorem enabled_buttons_work:
  assumes "nav_settled W legacy" "wk_settled W manager"
  shows "(CanGoBack W legacy \<longleftrightarrow> (\<exists>m'. GoBack W legacy = Some m')) \<and>
    (CanGoForward W legacy \<longleftrightarrow> (\<exists>m'. GoForward W legacy = Some m')) \<and>
    (wk_CanGoBack manager \<longleftrightarrow> (\<exists>m'. wk_GoBack W manager = Some m')) \<and>
    (wk_CanGoForward manager \<longleftrightarrow> (\<exists>m'. wk_GoForward W manager = Some m'))"
  unfolding CanGoBack_def GoBack_def CanGoForward_def GoForward_def
    wk_CanGoBack_def wk_GoBack_def wk_CanGoForward_def wk_GoForward_def
  using legacy_manager.enabled_iff_works [OF assms(1)] wk_based_manager.enabled_iff_works [OF assms(2)] by blast

theorem enabled_buttons_work_witness:
  "(\<exists>m'. GoBack demo_web demo_history = Some m') \<and> \<not> (\<exists>m'. GoForward demo_web demo_history = Some m') \<and>
    (\<exists>m'. wk_GoBack demo_web demo_wk = Some m') \<and> (\<exists>m'. wk_GoForward demo_web demo_wk = Some m')"
proof -
  have "list_all (\<lambda>item. is_valid (gl demo_web) (item_url item)) (sc_items demo_history)" by code_simp
  then have l: "nav_settled demo_web demo_history"
    using nav_reachable_inv [OF demo_history_reachable] by (simp add: nav_settled_def list_all_iff)
  have w: "wk_settled demo_web demo_wk"
    using demo_wk_facts demo_web_empty
    by (simp add: wk_settled_def IsAttachedToWebView_def wk_IsRestoreSessionInProgress_def
        wk_GetLastCommittedItemIndexInCurrentOrRestoredSession_def)
  have "CanGoBack demo_web demo_history" "\<not> CanGoForward demo_web demo_history"
    "wk_CanGoBack demo_wk" "wk_CanGoForward demo_wk" by code_simp+
  with enabled_buttons_work [OF l w] show ?thesis by blast
qed

end
